(* ===== verification/CL_Prelude.thy ===== *)
theory CL_Prelude
  imports Main "HOL-Library.Word"
begin

text \<open>
  Shared vocabulary of the development.

  The fixed width integers of the C sources, the result type of operations that may hit a
  \<open>CC_ASSERT\<close>, the little and big endian byte layouts used by the packed frame structs, and the
  generic facts on words and lists that the component theories rely on.
\<close>

unbundle bit_operations_syntax

section \<open>Types\<close>

type_synonym u8 = "8 word"
type_synonym u16 = "16 word"
type_synonym u32 = "32 word"
type_synonym u64 = "64 word"
type_synonym bytes = "8 word list"

text \<open>
  The result of running a piece of code: it returns a value, it reaches a failing
  \<open>CC_ASSERT\<close> (the process aborts), or the loop bound chosen for the model is used up.
\<close>

datatype 'a outcome = Returns 'a | Assert_Failed | Out_Of_Fuel

definition obind :: "'a outcome \<Rightarrow> ('a \<Rightarrow> 'b outcome) \<Rightarrow> 'b outcome" where
  "obind r f = (case r of Returns x \<Rightarrow> f x | Assert_Failed \<Rightarrow> Assert_Failed | Out_Of_Fuel \<Rightarrow> Out_Of_Fuel)"

definition cc_assert :: "bool \<Rightarrow> 'a outcome \<Rightarrow> 'a outcome" where
  "cc_assert b k = (if b then k else Assert_Failed)"

section \<open>Byte order\<close>

text \<open>
  A packed struct field at byte offset \<open>i\<close> of a buffer. \<open>CC_TO_LE16\<close>, \<open>CC_FROM_LE16\<close> and so on
  convert between the value and its bytes in the frame, whatever the byte order of the host.
\<close>

definition le16_bytes :: "u16 \<Rightarrow> bytes" where
  "le16_bytes w = [ucast w, ucast (drop_bit 8 w)]"

definition be16_bytes :: "u16 \<Rightarrow> bytes" where
  "be16_bytes w = [ucast (drop_bit 8 w), ucast w]"

definition le32_bytes :: "u32 \<Rightarrow> bytes" where
  "le32_bytes w = [ucast w, ucast (drop_bit 8 w), ucast (drop_bit 16 w), ucast (drop_bit 24 w)]"

definition le64_bytes :: "u64 \<Rightarrow> bytes" where
  "le64_bytes w = [ucast w, ucast (drop_bit 8 w), ucast (drop_bit 16 w), ucast (drop_bit 24 w),
     ucast (drop_bit 32 w), ucast (drop_bit 40 w), ucast (drop_bit 48 w), ucast (drop_bit 56 w)]"

definition make16 :: "u8 \<Rightarrow> u8 \<Rightarrow> u16" where
  "make16 hi lo = push_bit 8 (ucast hi) OR ucast lo"

definition make32 :: "u8 \<Rightarrow> u8 \<Rightarrow> u8 \<Rightarrow> u8 \<Rightarrow> u32" where
  "make32 a b c d = push_bit 24 (ucast a) OR push_bit 16 (ucast b) OR push_bit 8 (ucast c) OR ucast d"

definition make64 :: "u32 \<Rightarrow> u32 \<Rightarrow> u64" where
  "make64 hi lo = push_bit 32 (ucast hi) OR ucast lo"

definition le16_at :: "bytes \<Rightarrow> nat \<Rightarrow> u16" where
  "le16_at bs i = make16 (bs ! (i + 1)) (bs ! i)"

definition be16_at :: "bytes \<Rightarrow> nat \<Rightarrow> u16" where
  "be16_at bs i = make16 (bs ! i) (bs ! (i + 1))"

definition le32_at :: "bytes \<Rightarrow> nat \<Rightarrow> u32" where
  "le32_at bs i = make32 (bs ! (i + 3)) (bs ! (i + 2)) (bs ! (i + 1)) (bs ! i)"

definition le64_at :: "bytes \<Rightarrow> nat \<Rightarrow> u64" where
  "le64_at bs i = make64 (le32_at bs (i + 4)) (le32_at bs i)"

text \<open>Overwriting part of a buffer, as a \<open>memcpy\<close> into it or a store through a struct pointer does.\<close>

definition put_bytes :: "bytes \<Rightarrow> nat \<Rightarrow> bytes \<Rightarrow> bytes" where
  "put_bytes buf i bs = take i buf @ bs @ drop (i + length bs) buf"

section \<open>Rule collections\<close>

named_theorems outcome_simps "running outcomes"
named_theorems byte_simps "reading back encoded fields"
named_theorems layout_simps "lengths of encoded structs"

section \<open>Outcomes\<close>

lemma obind_simps [simp, outcome_simps]:
  "obind (Returns x) f = f x"
  "obind Assert_Failed f = Assert_Failed"
  "obind Out_Of_Fuel f = Out_Of_Fuel"
  by (simp_all add: obind_def)

lemma obind_Returns_iff [outcome_simps]:
  "obind r f = Returns y \<longleftrightarrow> (\<exists>x. r = Returns x \<and> f x = Returns y)"
  by (cases r) simp_all

lemma cc_assert_simps [simp, outcome_simps]:
  "cc_assert True k = k"
  "cc_assert False k = Assert_Failed"
  by (simp_all add: cc_assert_def)

lemma cc_assert_Returns_iff [outcome_simps]:
  "cc_assert b k = Returns y \<longleftrightarrow> b \<and> k = Returns y"
  by (simp add: cc_assert_def)

section \<open>Words\<close>

lemma unat_less_pow: "unat (w :: u16) < 65536" "unat (x :: u8) < 256"
  using unsigned_less [of w, where 'a = nat] unsigned_less [of x, where 'a = nat] by simp_all

lemma and_low_bits: "unat ((w :: 'a::len word) AND mask k) = unat w mod 2 ^ k"
  by (metis take_bit_eq_mask take_bit_eq_mod unsigned_take_bit_eq)

lemma size_word_nat: "n < 2 ^ 64 \<Longrightarrow> unat (of_nat n :: u64) = n"
  by (simp add: unat_of_nat take_bit_nat_eq_self)

lemma unat_of_nat_u16: "n < 65536 \<Longrightarrow> unat (of_nat n :: u16) = n"
  by (simp add: unat_of_nat take_bit_nat_eq_self)

lemma bit_single: "(w AND push_bit k 1 > 0) \<longleftrightarrow> bit (w :: 'a::len word) k"
proof -
  have "w AND push_bit k 1 = 0 \<longleftrightarrow> \<not> bit w k"
    by (simp add: and_exp_eq_0_iff_not_bit)
  then show ?thesis by (auto simp: word_neq_0_conv [symmetric])
qed

section \<open>Byte order round trips\<close>

lemma make16_split:
  "make16 (ucast (drop_bit 8 w)) (ucast w) = w"
  unfolding make16_def
  by (rule bit_word_eqI) (auto simp: bit_simps)

lemma make16_inverse:
  "(ucast (make16 hi lo) :: u8) = lo" "(ucast (drop_bit 8 (make16 hi lo)) :: u8) = hi"
  unfolding make16_def
  by (rule bit_word_eqI; auto simp: bit_simps dest: bit_imp_le_length)+

lemma make32_split:
  "make32 (ucast (drop_bit 24 w)) (ucast (drop_bit 16 w)) (ucast (drop_bit 8 w)) (ucast w) = w"
proof (rule bit_word_eqI)
  fix n assume "n < LENGTH(32)"
  then consider "n < 8" | "8 \<le> n" "n < 16" | "16 \<le> n" "n < 24" | "24 \<le> n" "n < 32" by fastforce
  then show "bit (make32 (ucast (drop_bit 24 w)) (ucast (drop_bit 16 w)) (ucast (drop_bit 8 w)) (ucast w)) n = bit w n"
    unfolding make32_def by cases (auto simp: bit_simps)
qed

lemma make32_inverse:
  "(ucast (make32 a b c d) :: u8) = d"
  "(ucast (drop_bit 8 (make32 a b c d)) :: u8) = c"
  "(ucast (drop_bit 16 (make32 a b c d)) :: u8) = b"
  "(ucast (drop_bit 24 (make32 a b c d)) :: u8) = a"
  unfolding make32_def
  by (rule bit_word_eqI; auto simp: bit_simps dest: bit_imp_le_length)+

lemma make64_split:
  "make64 (ucast (drop_bit 32 w)) (ucast w) = w"
  unfolding make64_def
  by (rule bit_word_eqI) (auto simp: bit_simps)

lemma length_word_bytes [simp, layout_simps]:
  "length (le16_bytes x) = 2" "length (be16_bytes x) = 2"
  "length (le32_bytes y) = 4" "length (le64_bytes z) = 8"
  by (simp_all add: le16_bytes_def be16_bytes_def le32_bytes_def le64_bytes_def)

lemma le64_bytes_split:
  "le64_bytes w = le32_bytes (ucast w) @ le32_bytes (ucast (drop_bit 32 w))"
  unfolding le64_bytes_def le32_bytes_def
  by (auto intro!: bit_word_eqI simp: bit_simps)

lemma nth_append_at:
  "i = length xs \<Longrightarrow> (xs @ y # ys) ! i = y"
  "i = length xs + 1 \<Longrightarrow> (xs @ y # y' # ys) ! i = y'"
  by (simp_all add: nth_append)

lemma le16_at_append [byte_simps]:
  "i = length pre \<Longrightarrow> le16_at (pre @ le16_bytes w @ post) i = w"
  by (simp add: le16_at_def le16_bytes_def nth_append make16_split)

lemma be16_at_append [byte_simps]:
  "i = length pre \<Longrightarrow> be16_at (pre @ be16_bytes w @ post) i = w"
  by (simp add: be16_at_def be16_bytes_def nth_append make16_split)

lemma le32_at_append [byte_simps]:
  "i = length pre \<Longrightarrow> le32_at (pre @ le32_bytes w @ post) i = w"
  by (simp add: le32_at_def le32_bytes_def nth_append make32_split)

lemma le64_at_append [byte_simps]:
  assumes "i = length pre"
  shows "le64_at (pre @ le64_bytes w @ post) i = w"
proof -
  have "le32_at (pre @ le64_bytes w @ post) i = ucast w"
    using assms by (simp add: le64_bytes_split le32_at_append)
  moreover have "le32_at ((pre @ le32_bytes (ucast w)) @ le32_bytes (ucast (drop_bit 32 w)) @ post) (i + 4)
      = ucast (drop_bit 32 w)"
    using assms by (subst le32_at_append) simp_all
  ultimately show ?thesis
    by (simp add: le64_at_def le64_bytes_split make64_split)
qed

section \<open>Buffers\<close>

lemma length_put_bytes [simp, layout_simps]:
  "i + length bs \<le> length buf \<Longrightarrow> length (put_bytes buf i bs) = length buf"
  by (simp add: put_bytes_def)

lemma put_bytes_read_back:
  "i + length bs \<le> length buf \<Longrightarrow> take (length bs) (drop i (put_bytes buf i bs)) = bs"
  by (simp add: put_bytes_def)

lemma nth_put_bytes:
  "i + length bs \<le> length buf \<Longrightarrow> j < length buf \<Longrightarrow>
   put_bytes buf i bs ! j = (if i \<le> j \<and> j < i + length bs then bs ! (j - i) else buf ! j)"
  by (auto simp: put_bytes_def nth_append min_def not_le not_less)

lemma take_put_bytes_before:
  "n \<le> i \<Longrightarrow> i + length bs \<le> length buf \<Longrightarrow> take n (put_bytes buf i bs) = take n buf"
  by (simp add: put_bytes_def min_def)

lemma drop_put_bytes_after:
  "i + length bs \<le> n \<Longrightarrow> n \<le> length buf \<Longrightarrow> drop n (put_bytes buf i bs) = drop n buf"
  by (simp add: put_bytes_def)

section \<open>Loops\<close>

text \<open>A loop whose body may fail, over a list of indices or calls.\<close>

primrec for_each :: "('i \<Rightarrow> 's \<Rightarrow> 's outcome) \<Rightarrow> 'i list \<Rightarrow> 's \<Rightarrow> 's outcome" where
  "for_each f [] s = Returns s"
| "for_each f (x # xs) s = obind (f x s) (for_each f xs)"

lemma for_each_inv:
  assumes "P s" "\<And>x s. x \<in> set xs \<Longrightarrow> P s \<Longrightarrow> \<exists>s'. f x s = Returns s' \<and> P s'"
  shows "\<exists>s'. for_each f xs s = Returns s' \<and> P s'"
  using assms
proof (induction xs arbitrary: s)
  case (Cons x xs)
  from Cons.prems obtain t where "f x s = Returns t" "P t" by (meson list.set_intros(1))
  then show ?case using Cons.IH [of t] Cons.prems(2) by simp
qed simp

lemma for_each_append: "for_each f (xs @ ys) s = obind (for_each f xs s) (for_each f ys)"
proof (induction xs arbitrary: s)
  case (Cons x xs) then show ?case by (cases "f x s") simp_all
qed simp

lemma for_each_upt:
  assumes "P 0 s" "\<And>i s. i < n \<Longrightarrow> P i s \<Longrightarrow> \<exists>s'. f i s = Returns s' \<and> P (Suc i) s'"
  shows "\<exists>s'. for_each f [0..<n] s = Returns s' \<and> P n s'"
  using assms
proof (induction n)
  case (Suc n)
  then obtain t where t: "for_each f [0..<n] s = Returns t" "P n t" by (meson less_SucI)
  then obtain s' where "f n t = Returns s'" "P (Suc n) s'" using Suc.prems(2) by blast
  then show ?case using t by (simp add: for_each_append)
qed simp

lemma for_each_keeps:
  assumes "\<And>i s s'. f i s = Returns s' \<Longrightarrow> P s \<Longrightarrow> P s'"
  shows "for_each f xs s = Returns s' \<Longrightarrow> P s \<Longrightarrow> P s'"
proof (induction xs arbitrary: s)
  case (Cons x xs) then show ?case using assms by (cases "f x s") auto
qed simp

end
