(* ===== verification/CL_Util.thy ===== *)
theory CL_Util
  imports CL_Prelude
begin

text \<open>
  Address helpers of \<open>src/common/cl_util.c\<close>: MAC address copies, IPv4 broadcast address,
  dotted decimal printing and the checks on netmasks and unicast ranges.
\<close>

section \<open>Definitions\<close>

definition CL_IPADDR_INVALID :: u32 where
  "CL_IPADDR_INVALID = 0"

definition CL_INET_ADDRSTR_SIZE :: nat where
  "CL_INET_ADDRSTR_SIZE = 16"

text \<open>A \<open>cl_macaddr_t\<close> is an array of six bytes; both copies write every byte of the destination.\<close>

definition cl_util_copy_mac :: "bytes \<Rightarrow> bytes \<Rightarrow> bytes" where
  "cl_util_copy_mac dest src =
     dest[0 := src ! 0, 1 := src ! 1, 2 := src ! 2, 3 := src ! 3, 4 := src ! 4, 5 := src ! 5]"

definition cl_util_copy_mac_reverse :: "bytes \<Rightarrow> bytes \<Rightarrow> bytes" where
  "cl_util_copy_mac_reverse dest src =
     dest[0 := src ! 5, 1 := src ! 4, 2 := src ! 3, 3 := src ! 2, 4 := src ! 1, 5 := src ! 0]"

definition cl_util_calc_broadcast_address :: "u32 \<Rightarrow> u32 \<Rightarrow> u32" where
  "cl_util_calc_broadcast_address netmask ip_addr =
     (if ip_addr = CL_IPADDR_INVALID then CL_IPADDR_INVALID else ip_addr OR NOT netmask)"

text \<open>\<open>%u\<close> of an 8 bit value: at most three decimal digits, without leading zeros.\<close>

definition digit :: "nat \<Rightarrow> char" where
  "digit n = char_of (48 + n mod 10)"

definition print_u8 :: "u8 \<Rightarrow> string" where
  "print_u8 b = (let n = unat b in
     (if 100 \<le> n then [digit (n div 100)] else []) @
     (if 10 \<le> n then [digit (n div 10)] else []) @ [digit n])"

text \<open>\<open>snprintf\<close> writes at most \<open>size - 1\<close> characters before the terminator.\<close>

definition snprintf_limit :: "nat \<Rightarrow> string \<Rightarrow> string" where
  "snprintf_limit n s = take (n - 1) s"

definition ip_full_string :: "u32 \<Rightarrow> string" where
  "ip_full_string ip =
     print_u8 (ucast (drop_bit 24 ip AND 0xFF)) @ ''.'' @
     print_u8 (ucast (drop_bit 16 ip AND 0xFF)) @ ''.'' @
     print_u8 (ucast (drop_bit 8 ip AND 0xFF)) @ ''.'' @
     print_u8 (ucast (ip AND 0xFF))"

definition cl_util_ip_to_string :: "u32 \<Rightarrow> string" where
  "cl_util_ip_to_string ip = snprintf_limit CL_INET_ADDRSTR_SIZE (ip_full_string ip)"

definition cl_utils_is_netmask_valid :: "u32 \<Rightarrow> bool" where
  "cl_utils_is_netmask_valid netmask = (if netmask AND drop_bit 1 (NOT netmask) = 0 then True else False)"

definition cl_utils_is_ipaddr_range_valid :: "u32 \<Rightarrow> bool" where
  "cl_utils_is_ipaddr_range_valid ip_addr =
     (if ip_addr = CL_IPADDR_INVALID then False
      else if ip_addr > 0xDFFFFFFE then False else True)"

section \<open>MAC addresses\<close>

lemma list6_cases:
  assumes "length xs = 6"
  obtains a b c d e f where "xs = [a, b, c, d, e, f]"
  using assms by (auto simp: eval_nat_numeral length_Suc_conv)

lemma copy_mac_eq:
  "length dest = 6 \<Longrightarrow> length src = 6 \<Longrightarrow> cl_util_copy_mac dest src = src"
  by (elim list6_cases) (simp add: cl_util_copy_mac_def)

lemma copy_mac_reverse_eq:
  "length dest = 6 \<Longrightarrow> length src = 6 \<Longrightarrow> cl_util_copy_mac_reverse dest src = rev src"
  by (elim list6_cases) (simp add: cl_util_copy_mac_reverse_def)

section \<open>Netmasks and broadcast addresses\<close>

text \<open>The reference definition: a netmask is a run of ones followed by \<open>h\<close> host bits of zero.\<close>

definition prefix_mask :: "nat \<Rightarrow> u32" where
  "prefix_mask h = NOT (mask h)"

lemma bit_prefix_mask: "bit (prefix_mask h) i \<longleftrightarrow> h \<le> i \<and> i < 32"
  by (auto simp: prefix_mask_def bit_simps not_less)

lemma netmask_valid_bits:
  "cl_utils_is_netmask_valid m \<longleftrightarrow> (\<forall>i < 31. bit m i \<longrightarrow> bit m (Suc i))"
proof -
  have "m AND drop_bit 1 (NOT m) = 0 \<longleftrightarrow> (\<forall>i. \<not> (bit m i \<and> i < 31 \<and> \<not> bit m (Suc i)))"
    by (auto simp: bit_eq_iff bit_simps dest: bit_imp_le_length)
  then show ?thesis by (auto simp: cl_utils_is_netmask_valid_def)
qed

lemma upward_closed_bits:
  assumes step: "\<forall>i < 31. bit (m :: u32) i \<longrightarrow> bit m (Suc i)" and "bit m i" and "i \<le> j" and "j < 32"
  shows "bit m j"
  using \<open>i \<le> j\<close> \<open>j < 32\<close>
proof (induction rule: dec_induct)
  case base show ?case by (rule \<open>bit m i\<close>)
next
  case (step n) then show ?case using assms(1) by simp
qed

lemma netmask_valid_prefix:
  assumes "cl_utils_is_netmask_valid m"
  shows "\<exists>h\<le>32. m = prefix_mask h"
proof (cases "m = 0")
  case True
  then have "m = prefix_mask 32" by (auto simp: bit_eq_iff bit_prefix_mask)
  then show ?thesis by blast
next
  case False
  define h where "h = (LEAST i. bit m i)"
  from False obtain i where "bit m i" by (auto simp: bit_eq_iff)
  then have h: "bit m h" unfolding h_def by (rule LeastI)
  then have "h < 32" using bit_imp_le_length [OF h] by simp
  have "m = prefix_mask h"
  proof (rule bit_word_eqI)
    fix n assume "n < LENGTH(32)"
    then show "bit m n = bit (prefix_mask h) n"
      using assms h upward_closed_bits [of m h n] Least_le [of "bit m" n]
      by (auto simp: netmask_valid_bits bit_prefix_mask h_def not_less)
  qed
  then show ?thesis using \<open>h < 32\<close> less_imp_le by blast
qed

lemma prefix_netmask_valid: "cl_utils_is_netmask_valid (prefix_mask h)"
  by (auto simp: netmask_valid_bits bit_prefix_mask)

lemma netmask_valid_iff:
  "cl_utils_is_netmask_valid m \<longleftrightarrow> (\<exists>h\<le>32. m = prefix_mask h)"
  using netmask_valid_prefix prefix_netmask_valid by blast

lemma broadcast_network_bits:
  "ip \<noteq> 0 \<Longrightarrow> cl_util_calc_broadcast_address m ip AND m = ip AND m"
  by (rule bit_word_eqI) (auto simp: cl_util_calc_broadcast_address_def CL_IPADDR_INVALID_def bit_simps)

lemma broadcast_is_highest:
  assumes "ip \<noteq> 0" and "a AND m = ip AND m"
  shows "a \<le> cl_util_calc_broadcast_address m ip"
proof -
  let ?b = "cl_util_calc_broadcast_address m ip"
  have bits: "bit a i = bit ip i" if "bit m i" for i
    using assms(2) that by (metis bit_and_iff)
  have "a = a AND ?b"
    using assms(1) bits
    by (auto intro!: bit_word_eqI simp: cl_util_calc_broadcast_address_def CL_IPADDR_INVALID_def bit_simps)
  moreover have "a AND ?b \<le> ?b"
    by (simp add: word_and_le1)
  ultimately show ?thesis by simp
qed

section \<open>Printing\<close>

lemma length_print_u8: "length (print_u8 b) \<le> 3"
  by (simp add: print_u8_def Let_def)

lemma ip_full_string_length: "length (ip_full_string ip) \<le> 15"
proof -
  have "length (print_u8 a) + length (print_u8 b) + length (print_u8 c) + length (print_u8 d) \<le> 12"
    for a b c d
    using length_print_u8 [of a] length_print_u8 [of b] length_print_u8 [of c] length_print_u8 [of d]
    by linarith
  then show ?thesis by (simp add: ip_full_string_def add.assoc)
qed

lemma ip_string_not_truncated: "cl_util_ip_to_string ip = ip_full_string ip"
  using ip_full_string_length [of ip]
  by (simp add: cl_util_ip_to_string_def snprintf_limit_def CL_INET_ADDRSTR_SIZE_def)

end
