(* ===== verification/CL_Frames.thy ===== *)
theory CL_Frames
  imports CL_Prelude
begin

text \<open>
  The packed structs of the CCIEFB frames (\<open>src/common/cl_types.h\<close>).

  A struct is a record of the values of its fields in host order; \<open>enc_\<close> gives the bytes that the
  C code stores (the conversions \<open>CC_TO_LE16\<close> and so on included) and \<open>dec_\<close> reads the fields from a
  buffer at a byte offset, as the casts of a buffer pointer to a struct pointer do. The locale
  \<open>packed_struct\<close> is what the frame handling code relies on; it is interpreted for every struct,
  and for the two complete frame headers.
\<close>

section \<open>Structs and their layout\<close>

record cl_cciefb_req_header =
  rqh_reserved1 :: u16
  rqh_reserved2 :: u8
  rqh_reserved3 :: u8
  rqh_reserved4 :: u16
  rqh_reserved5 :: u8
  rqh_dl :: u16
  rqh_reserved6 :: u16
  rqh_command :: u16
  rqh_sub_command :: u16

definition enc_req_header :: "cl_cciefb_req_header \<Rightarrow> bytes" where
  "enc_req_header h =
     be16_bytes (rqh_reserved1 h) @
     [rqh_reserved2 h] @
     [rqh_reserved3 h] @
     le16_bytes (rqh_reserved4 h) @
     [rqh_reserved5 h] @
     le16_bytes (rqh_dl h) @
     le16_bytes (rqh_reserved6 h) @
     le16_bytes (rqh_command h) @
     le16_bytes (rqh_sub_command h)"

definition dec_req_header :: "bytes \<Rightarrow> nat \<Rightarrow> cl_cciefb_req_header" where
  "dec_req_header bs i = \<lparr>
     rqh_reserved1 = be16_at bs i,
     rqh_reserved2 = bs ! (i + 2),
     rqh_reserved3 = bs ! (i + 3),
     rqh_reserved4 = le16_at bs (i + 4),
     rqh_reserved5 = bs ! (i + 6),
     rqh_dl = le16_at bs (i + 7),
     rqh_reserved6 = le16_at bs (i + 9),
     rqh_command = le16_at bs (i + 11),
     rqh_sub_command = le16_at bs (i + 13)\<rparr>"

record cl_cciefb_resp_header =
  rsh_reserved1 :: u16
  rsh_reserved2 :: u8
  rsh_reserved3 :: u8
  rsh_reserved4 :: u16
  rsh_reserved5 :: u8
  rsh_dl :: u16
  rsh_reserved6 :: u16

definition enc_resp_header :: "cl_cciefb_resp_header \<Rightarrow> bytes" where
  "enc_resp_header h =
     be16_bytes (rsh_reserved1 h) @
     [rsh_reserved2 h] @
     [rsh_reserved3 h] @
     le16_bytes (rsh_reserved4 h) @
     [rsh_reserved5 h] @
     le16_bytes (rsh_dl h) @
     le16_bytes (rsh_reserved6 h)"

definition dec_resp_header :: "bytes \<Rightarrow> nat \<Rightarrow> cl_cciefb_resp_header" where
  "dec_resp_header bs i = \<lparr>
     rsh_reserved1 = be16_at bs i,
     rsh_reserved2 = bs ! (i + 2),
     rsh_reserved3 = bs ! (i + 3),
     rsh_reserved4 = le16_at bs (i + 4),
     rsh_reserved5 = bs ! (i + 6),
     rsh_dl = le16_at bs (i + 7),
     rsh_reserved6 = le16_at bs (i + 9)\<rparr>"

record cl_cciefb_cyclic_req_header =
  cqh_protocol_ver :: u16
  cqh_reserved1 :: u16
  cqh_cyclic_info_offset_addr :: u16
  cqh_reserved2 :: bytes

definition enc_cyclic_req_header :: "cl_cciefb_cyclic_req_header \<Rightarrow> bytes" where
  "enc_cyclic_req_header h =
     le16_bytes (cqh_protocol_ver h) @
     le16_bytes (cqh_reserved1 h) @
     le16_bytes (cqh_cyclic_info_offset_addr h) @
     cqh_reserved2 h"

definition dec_cyclic_req_header :: "bytes \<Rightarrow> nat \<Rightarrow> cl_cciefb_cyclic_req_header" where
  "dec_cyclic_req_header bs i = \<lparr>
     cqh_protocol_ver = le16_at bs i,
     cqh_reserved1 = le16_at bs (i + 2),
     cqh_cyclic_info_offset_addr = le16_at bs (i + 4),
     cqh_reserved2 = take 14 (drop (i + 6) bs)\<rparr>"

record cl_cciefb_cyclic_resp_header =
  csh_protocol_ver :: u16
  csh_end_code :: u16
  csh_cyclic_info_offset_addr :: u16
  csh_reserved1 :: bytes

definition enc_cyclic_resp_header :: "cl_cciefb_cyclic_resp_header \<Rightarrow> bytes" where
  "enc_cyclic_resp_header h =
     le16_bytes (csh_protocol_ver h) @
     le16_bytes (csh_end_code h) @
     le16_bytes (csh_cyclic_info_offset_addr h) @
     csh_reserved1 h"

definition dec_cyclic_resp_header :: "bytes \<Rightarrow> nat \<Rightarrow> cl_cciefb_cyclic_resp_header" where
  "dec_cyclic_resp_header bs i = \<lparr>
     csh_protocol_ver = le16_at bs i,
     csh_end_code = le16_at bs (i + 2),
     csh_cyclic_info_offset_addr = le16_at bs (i + 4),
     csh_reserved1 = take 14 (drop (i + 6) bs)\<rparr>"

record cl_cciefb_master_station_notification =
  mn_master_local_unit_info :: u16
  mn_reserved :: u16
  mn_clock_info :: u64

definition enc_master_notification :: "cl_cciefb_master_station_notification \<Rightarrow> bytes" where
  "enc_master_notification h =
     le16_bytes (mn_master_local_unit_info h) @
     le16_bytes (mn_reserved h) @
     le64_bytes (mn_clock_info h)"

definition dec_master_notification :: "bytes \<Rightarrow> nat \<Rightarrow> cl_cciefb_master_station_notification" where
  "dec_master_notification bs i = \<lparr>
     mn_master_local_unit_info = le16_at bs i,
     mn_reserved = le16_at bs (i + 2),
     mn_clock_info = le64_at bs (i + 4)\<rparr>"

record cl_cciefb_slave_station_notification =
  sn_vendor_code :: u16
  sn_reserved1 :: u16
  sn_model_code :: u32
  sn_equipment_ver :: u16
  sn_reserved2 :: u16
  sn_slave_local_unit_info :: u16
  sn_slave_err_code :: u16
  sn_local_management_info :: u32

definition enc_slave_notification :: "cl_cciefb_slave_station_notification \<Rightarrow> bytes" where
  "enc_slave_notification h =
     le16_bytes (sn_vendor_code h) @
     le16_bytes (sn_reserved1 h) @
     le32_bytes (sn_model_code h) @
     le16_bytes (sn_equipment_ver h) @
     le16_bytes (sn_reserved2 h) @
     le16_bytes (sn_slave_local_unit_info h) @
     le16_bytes (sn_slave_err_code h) @
     le32_bytes (sn_local_management_info h)"

definition dec_slave_notification :: "bytes \<Rightarrow> nat \<Rightarrow> cl_cciefb_slave_station_notification" where
  "dec_slave_notification bs i = \<lparr>
     sn_vendor_code = le16_at bs i,
     sn_reserved1 = le16_at bs (i + 2),
     sn_model_code = le32_at bs (i + 4),
     sn_equipment_ver = le16_at bs (i + 8),
     sn_reserved2 = le16_at bs (i + 10),
     sn_slave_local_unit_info = le16_at bs (i + 12),
     sn_slave_err_code = le16_at bs (i + 14),
     sn_local_management_info = le32_at bs (i + 16)\<rparr>"

record cl_cciefb_cyclic_req_data_header =
  qdh_master_id :: u32
  qdh_group_no :: u8
  qdh_reserved3 :: u8
  qdh_frame_sequence_no :: u16
  qdh_timeout_value :: u16
  qdh_parallel_off_timeout_count :: u16
  qdh_parameter_no :: u16
  qdh_slave_total_occupied_station_count :: u16
  qdh_cyclic_transmission_state :: u16
  qdh_reserved4 :: u16

definition enc_req_data_header :: "cl_cciefb_cyclic_req_data_header \<Rightarrow> bytes" where
  "enc_req_data_header h =
     le32_bytes (qdh_master_id h) @
     [qdh_group_no h] @
     [qdh_reserved3 h] @
     le16_bytes (qdh_frame_sequence_no h) @
     le16_bytes (qdh_timeout_value h) @
     le16_bytes (qdh_parallel_off_timeout_count h) @
     le16_bytes (qdh_parameter_no h) @
     le16_bytes (qdh_slave_total_occupied_station_count h) @
     le16_bytes (qdh_cyclic_transmission_state h) @
     le16_bytes (qdh_reserved4 h)"

definition dec_req_data_header :: "bytes \<Rightarrow> nat \<Rightarrow> cl_cciefb_cyclic_req_data_header" where
  "dec_req_data_header bs i = \<lparr>
     qdh_master_id = le32_at bs i,
     qdh_group_no = bs ! (i + 4),
     qdh_reserved3 = bs ! (i + 5),
     qdh_frame_sequence_no = le16_at bs (i + 6),
     qdh_timeout_value = le16_at bs (i + 8),
     qdh_parallel_off_timeout_count = le16_at bs (i + 10),
     qdh_parameter_no = le16_at bs (i + 12),
     qdh_slave_total_occupied_station_count = le16_at bs (i + 14),
     qdh_cyclic_transmission_state = le16_at bs (i + 16),
     qdh_reserved4 = le16_at bs (i + 18)\<rparr>"

record cl_cciefb_cyclic_resp_data_header =
  sdh_slave_id :: u32
  sdh_group_no :: u8
  sdh_reserved2 :: u8
  sdh_frame_sequence_no :: u16

definition enc_resp_data_header :: "cl_cciefb_cyclic_resp_data_header \<Rightarrow> bytes" where
  "enc_resp_data_header h =
     le32_bytes (sdh_slave_id h) @
     [sdh_group_no h] @
     [sdh_reserved2 h] @
     le16_bytes (sdh_frame_sequence_no h)"

definition dec_resp_data_header :: "bytes \<Rightarrow> nat \<Rightarrow> cl_cciefb_cyclic_resp_data_header" where
  "dec_resp_data_header bs i = \<lparr>
     sdh_slave_id = le32_at bs i,
     sdh_group_no = bs ! (i + 4),
     sdh_reserved2 = bs ! (i + 5),
     sdh_frame_sequence_no = le16_at bs (i + 6)\<rparr>"

text \<open>
  The complete headers in front of the cyclic data of a request and of a response. The flexible
  array member \<open>data[]\<close> contributes no size.
\<close>

record cl_cciefb_cyclic_req_full_headers =
  qf_req_header :: cl_cciefb_req_header
  qf_cyclic_header :: cl_cciefb_cyclic_req_header
  qf_master_station_notification :: cl_cciefb_master_station_notification
  qf_cyclic_data_header :: cl_cciefb_cyclic_req_data_header

definition enc_req_full_headers :: "cl_cciefb_cyclic_req_full_headers \<Rightarrow> bytes" where
  "enc_req_full_headers h =
     enc_req_header (qf_req_header h) @
     enc_cyclic_req_header (qf_cyclic_header h) @
     enc_master_notification (qf_master_station_notification h) @
     enc_req_data_header (qf_cyclic_data_header h)"

definition dec_req_full_headers :: "bytes \<Rightarrow> nat \<Rightarrow> cl_cciefb_cyclic_req_full_headers" where
  "dec_req_full_headers bs i = \<lparr>
     qf_req_header = dec_req_header bs i,
     qf_cyclic_header = dec_cyclic_req_header bs (i + 15),
     qf_master_station_notification = dec_master_notification bs (i + 35),
     qf_cyclic_data_header = dec_req_data_header bs (i + 47)\<rparr>"

record cl_cciefb_cyclic_resp_full_headers =
  sf_resp_header :: cl_cciefb_resp_header
  sf_cyclic_header :: cl_cciefb_cyclic_resp_header
  sf_slave_station_notification :: cl_cciefb_slave_station_notification
  sf_cyclic_data_header :: cl_cciefb_cyclic_resp_data_header

definition enc_resp_full_headers :: "cl_cciefb_cyclic_resp_full_headers \<Rightarrow> bytes" where
  "enc_resp_full_headers h =
     enc_resp_header (sf_resp_header h) @
     enc_cyclic_resp_header (sf_cyclic_header h) @
     enc_slave_notification (sf_slave_station_notification h) @
     enc_resp_data_header (sf_cyclic_data_header h)"

definition dec_resp_full_headers :: "bytes \<Rightarrow> nat \<Rightarrow> cl_cciefb_cyclic_resp_full_headers" where
  "dec_resp_full_headers bs i = \<lparr>
     sf_resp_header = dec_resp_header bs i,
     sf_cyclic_header = dec_cyclic_resp_header bs (i + 11),
     sf_slave_station_notification = dec_slave_notification bs (i + 31),
     sf_cyclic_data_header = dec_resp_data_header bs (i + 51)\<rparr>"

text \<open>The sizes of the packed structs, as the \<open>CC_STATIC_ASSERT\<close> lines fix them.\<close>

definition sizeof_req_header :: nat where "sizeof_req_header = 15"
definition sizeof_resp_header :: nat where "sizeof_resp_header = 11"
definition sizeof_cyclic_req_header :: nat where "sizeof_cyclic_req_header = 20"
definition sizeof_cyclic_resp_header :: nat where "sizeof_cyclic_resp_header = 20"
definition sizeof_master_notification :: nat where "sizeof_master_notification = 12"
definition sizeof_slave_notification :: nat where "sizeof_slave_notification = 20"
definition sizeof_req_data_header :: nat where "sizeof_req_data_header = 20"
definition sizeof_resp_data_header :: nat where "sizeof_resp_data_header = 8"
definition sizeof_req_full_headers :: nat where "sizeof_req_full_headers = 67"
definition sizeof_resp_full_headers :: nat where "sizeof_resp_full_headers = 59"

lemmas sizeof_defs = sizeof_req_header_def sizeof_resp_header_def sizeof_cyclic_req_header_def
  sizeof_cyclic_resp_header_def sizeof_master_notification_def sizeof_slave_notification_def
  sizeof_req_data_header_def sizeof_resp_data_header_def sizeof_req_full_headers_def
  sizeof_resp_full_headers_def

section \<open>What the frame code relies on\<close>

locale packed_struct =
  fixes enc :: "'h \<Rightarrow> bytes"
    and dec :: "bytes \<Rightarrow> nat \<Rightarrow> 'h"
    and sz :: nat
    and wf :: "'h \<Rightarrow> bool"
  assumes length_enc: "wf h \<Longrightarrow> length (enc h) = sz"
    and dec_enc: "wf h \<Longrightarrow> dec (pre @ enc h @ post) (length pre) = h"
    and wf_dec: "i + sz \<le> length bs \<Longrightarrow> wf (dec bs i)"
    and enc_dec: "i + sz \<le> length bs \<Longrightarrow> enc (dec bs i) = take sz (drop i bs)"
begin

lemma dec_enc_at: "wf h \<Longrightarrow> i = length pre \<Longrightarrow> dec (pre @ enc h @ post) i = h"
  by (simp add: dec_enc)

lemma dec_enc_start: "wf h \<Longrightarrow> dec (enc h @ post) 0 = h"
  using dec_enc [of h "[]" post] by simp

lemma dec_enc_only: "wf h \<Longrightarrow> dec (enc h) 0 = h"
  using dec_enc_start [of h "[]"] by simp

lemma enc_inj: "wf h \<Longrightarrow> wf h' \<Longrightarrow> enc h = enc h' \<Longrightarrow> h = h'"
  using dec_enc_only by metis

lemma dec_local:
  assumes "i + sz \<le> length bs" "j + sz \<le> length cs" "take sz (drop i bs) = take sz (drop j cs)"
  shows "dec bs i = dec cs j"
  by (rule enc_inj) (use assms in \<open>simp_all add: wf_dec enc_dec\<close>)

lemma dec_put:
  assumes "wf h" "i + sz \<le> length buf"
  shows "dec (put_bytes buf i (enc h)) i = h"
  unfolding put_bytes_def using assms by (intro dec_enc_at) simp_all

lemma dec_put_other:
  assumes "i + length xs \<le> length buf" "j + sz \<le> length buf" "i + length xs \<le> j \<or> j + sz \<le> i"
  shows "dec (put_bytes buf i xs) j = dec buf j"
proof (rule dec_local)
  show "take sz (drop j (put_bytes buf i xs)) = take sz (drop j buf)"
    using assms by (intro nth_equalityI) (auto simp: nth_put_bytes)
qed (use assms in simp_all)

lemma dec_take:
  "i + sz \<le> n \<Longrightarrow> n \<le> length buf \<Longrightarrow> dec (take n buf) i = dec buf i"
  by (rule dec_local) (simp_all add: drop_take min_def)

end

section \<open>Interpretations\<close>

lemma bytes_make [byte_simps]:
  "le16_bytes (make16 hi lo) = [lo, hi]"
  "be16_bytes (make16 hi lo) = [hi, lo]"
  "le32_bytes (make32 a b c d) = [d, c, b, a]"
  by (simp_all add: le16_bytes_def be16_bytes_def le32_bytes_def make16_inverse make32_inverse)

lemma le64_bytes_make [byte_simps]:
  "le64_bytes (make64 hi lo) = le32_bytes lo @ le32_bytes hi"
proof -
  have "ucast (make64 hi lo) = lo" "ucast (drop_bit 32 (make64 hi lo)) = hi"
    unfolding make64_def
    by (rule bit_word_eqI; auto simp: bit_simps dest: bit_imp_le_length)+
  then show ?thesis by (simp add: le64_bytes_split)
qed

lemma take_drop_nths:
  "i + n \<le> length bs \<Longrightarrow> take n (drop i bs) = map (\<lambda>k. bs ! (i + k)) [0..<n]"
  by (intro nth_equalityI) simp_all

lemma upt_lists:
  "[0..<8 :: nat] = [0, 1, 2, 3, 4, 5, 6, 7]"
  "[0..<11 :: nat] = [0, 1, 2, 3, 4, 5, 6, 7, 8, 9, 10]"
  "[0..<12 :: nat] = [0, 1, 2, 3, 4, 5, 6, 7, 8, 9, 10, 11]"
  "[0..<15 :: nat] = [0, 1, 2, 3, 4, 5, 6, 7, 8, 9, 10, 11, 12, 13, 14]"
  "[0..<20 :: nat] = [0, 1, 2, 3, 4, 5, 6, 7, 8, 9, 10, 11, 12, 13, 14, 15, 16, 17, 18, 19]"
  "[0..<14 :: nat] = [0, 1, 2, 3, 4, 5, 6, 7, 8, 9, 10, 11, 12, 13]"
  by (simp_all add: upt_rec )

lemma take_drop_add:
  "take (m + n) (drop i bs) = take m (drop i bs) @ take n (drop (i + m) bs)"
  by (simp add: take_add add.commute)

lemma bytes_at [byte_simps]:
  "le16_bytes (le16_at bs i) = [bs ! i, bs ! (i + 1)]"
  "be16_bytes (be16_at bs i) = [bs ! i, bs ! (i + 1)]"
  "le32_bytes (le32_at bs i) = [bs ! i, bs ! (i + 1), bs ! (i + 2), bs ! (i + 3)]"
  by (simp_all add: le16_at_def be16_at_def le32_at_def bytes_make)

lemma le64_bytes_at [byte_simps]:
  "le64_bytes (le64_at bs i) = map (\<lambda>k. bs ! (i + k)) [0..<8]"
  by (simp add: le64_at_def le64_bytes_make bytes_at upt_lists ac_simps Suc3_eq_add_3)

lemmas nth_layout = nth_append le16_at_def be16_at_def le32_at_def le64_at_def
  le16_bytes_def be16_bytes_def le32_bytes_def make16_split make32_split

interpretation rqh: packed_struct enc_req_header dec_req_header sizeof_req_header "(\<lambda>_. True)"
proof unfold_locales
  fix bs :: bytes and i :: nat
  assume "i + sizeof_req_header \<le> length bs"
  then show "enc_req_header (dec_req_header bs i) = take sizeof_req_header (drop i bs)"
    by (simp add: take_drop_nths enc_req_header_def dec_req_header_def sizeof_req_header_def upt_lists byte_simps ac_simps Suc3_eq_add_3)
qed (simp_all add: enc_req_header_def dec_req_header_def sizeof_req_header_def nth_layout le64_bytes_split make64_split add.assoc)

interpretation rsh: packed_struct enc_resp_header dec_resp_header sizeof_resp_header "(\<lambda>_. True)"
proof unfold_locales
  fix bs :: bytes and i :: nat
  assume "i + sizeof_resp_header \<le> length bs"
  then show "enc_resp_header (dec_resp_header bs i) = take sizeof_resp_header (drop i bs)"
    by (simp add: take_drop_nths enc_resp_header_def dec_resp_header_def sizeof_resp_header_def upt_lists byte_simps ac_simps Suc3_eq_add_3)
qed (simp_all add: enc_resp_header_def dec_resp_header_def sizeof_resp_header_def nth_layout le64_bytes_split make64_split add.assoc)

interpretation cqh: packed_struct enc_cyclic_req_header dec_cyclic_req_header sizeof_cyclic_req_header "(\<lambda>h. length (cqh_reserved2 h) = 14)"
proof unfold_locales
  fix bs :: bytes and i :: nat
  assume "i + sizeof_cyclic_req_header \<le> length bs"
  then show "enc_cyclic_req_header (dec_cyclic_req_header bs i) = take sizeof_cyclic_req_header (drop i bs)"
    by (simp add: take_drop_nths enc_cyclic_req_header_def dec_cyclic_req_header_def sizeof_cyclic_req_header_def upt_lists byte_simps ac_simps Suc3_eq_add_3)
qed (simp_all add: enc_cyclic_req_header_def dec_cyclic_req_header_def sizeof_cyclic_req_header_def nth_layout le64_bytes_split make64_split add.assoc)

interpretation csh: packed_struct enc_cyclic_resp_header dec_cyclic_resp_header sizeof_cyclic_resp_header "(\<lambda>h. length (csh_reserved1 h) = 14)"
proof unfold_locales
  fix bs :: bytes and i :: nat
  assume "i + sizeof_cyclic_resp_header \<le> length bs"
  then show "enc_cyclic_resp_header (dec_cyclic_resp_header bs i) = take sizeof_cyclic_resp_header (drop i bs)"
    by (simp add: take_drop_nths enc_cyclic_resp_header_def dec_cyclic_resp_header_def sizeof_cyclic_resp_header_def upt_lists byte_simps ac_simps Suc3_eq_add_3)
qed (simp_all add: enc_cyclic_resp_header_def dec_cyclic_resp_header_def sizeof_cyclic_resp_header_def nth_layout le64_bytes_split make64_split add.assoc)

interpretation mn: packed_struct enc_master_notification dec_master_notification sizeof_master_notification "(\<lambda>_. True)"
proof unfold_locales
  fix bs :: bytes and i :: nat
  assume "i + sizeof_master_notification \<le> length bs"
  then show "enc_master_notification (dec_master_notification bs i) = take sizeof_master_notification (drop i bs)"
    by (simp add: take_drop_nths enc_master_notification_def dec_master_notification_def sizeof_master_notification_def upt_lists byte_simps ac_simps Suc3_eq_add_3)
qed (simp_all add: enc_master_notification_def dec_master_notification_def sizeof_master_notification_def nth_layout le64_bytes_split make64_split add.assoc)

interpretation sn: packed_struct enc_slave_notification dec_slave_notification sizeof_slave_notification "(\<lambda>_. True)"
proof unfold_locales
  fix bs :: bytes and i :: nat
  assume "i + sizeof_slave_notification \<le> length bs"
  then show "enc_slave_notification (dec_slave_notification bs i) = take sizeof_slave_notification (drop i bs)"
    by (simp add: take_drop_nths enc_slave_notification_def dec_slave_notification_def sizeof_slave_notification_def upt_lists byte_simps ac_simps Suc3_eq_add_3)
qed (simp_all add: enc_slave_notification_def dec_slave_notification_def sizeof_slave_notification_def nth_layout le64_bytes_split make64_split add.assoc)

interpretation qdh: packed_struct enc_req_data_header dec_req_data_header sizeof_req_data_header "(\<lambda>_. True)"
proof unfold_locales
  fix bs :: bytes and i :: nat
  assume "i + sizeof_req_data_header \<le> length bs"
  then show "enc_req_data_header (dec_req_data_header bs i) = take sizeof_req_data_header (drop i bs)"
    by (simp add: take_drop_nths enc_req_data_header_def dec_req_data_header_def sizeof_req_data_header_def upt_lists byte_simps ac_simps Suc3_eq_add_3)
qed (simp_all add: enc_req_data_header_def dec_req_data_header_def sizeof_req_data_header_def nth_layout le64_bytes_split make64_split add.assoc)

interpretation sdh: packed_struct enc_resp_data_header dec_resp_data_header sizeof_resp_data_header "(\<lambda>_. True)"
proof unfold_locales
  fix bs :: bytes and i :: nat
  assume "i + sizeof_resp_data_header \<le> length bs"
  then show "enc_resp_data_header (dec_resp_data_header bs i) = take sizeof_resp_data_header (drop i bs)"
    by (simp add: take_drop_nths enc_resp_data_header_def dec_resp_data_header_def sizeof_resp_data_header_def upt_lists byte_simps ac_simps Suc3_eq_add_3)
qed (simp_all add: enc_resp_data_header_def dec_resp_data_header_def sizeof_resp_data_header_def nth_layout le64_bytes_split make64_split add.assoc)

interpretation qf: packed_struct enc_req_full_headers dec_req_full_headers sizeof_req_full_headers
    "\<lambda>h. length (cqh_reserved2 (qf_cyclic_header h)) = 14"
proof unfold_locales
  fix h :: cl_cciefb_cyclic_req_full_headers and pre post :: bytes
  assume wf: "length (cqh_reserved2 (qf_cyclic_header h)) = 14"
  let ?a = "enc_req_header (qf_req_header h)" and ?b = "enc_cyclic_req_header (qf_cyclic_header h)" and ?c = "enc_master_notification (qf_master_station_notification h)" and ?d = "enc_req_data_header (qf_cyclic_data_header h)"
  have len: "length ?a = 15" "length ?b = 20" "length ?c = 12" "length ?d = 20"
    using wf by (simp_all add: rqh.length_enc cqh.length_enc mn.length_enc qdh.length_enc sizeof_defs)
  then show "length (enc_req_full_headers h) = sizeof_req_full_headers" by (simp add: enc_req_full_headers_def sizeof_defs)
  show "dec_req_full_headers (pre @ enc_req_full_headers h @ post) (length pre) = h"
    using wf len
      rqh.dec_enc_at [where h = "qf_req_header h" and i = "length pre + 0" and pre = "pre" and post = "?b @ ?c @ ?d @ post"]
      cqh.dec_enc_at [where h = "qf_cyclic_header h" and i = "length pre + 15" and pre = "pre @ ?a" and post = "?c @ ?d @ post"]
      mn.dec_enc_at [where h = "qf_master_station_notification h" and i = "length pre + 35" and pre = "pre @ ?a @ ?b" and post = "?d @ post"]
      qdh.dec_enc_at [where h = "qf_cyclic_data_header h" and i = "length pre + 47" and pre = "pre @ ?a @ ?b @ ?c" and post = "post"]
    by (simp add: enc_req_full_headers_def dec_req_full_headers_def)
next
  fix bs :: bytes and i :: nat
  assume le: "i + sizeof_req_full_headers \<le> length bs"
  then show "length (cqh_reserved2 (qf_cyclic_header (dec_req_full_headers bs i))) = 14"
    using cqh.wf_dec [of "i + 15" bs] by (simp add: dec_req_full_headers_def sizeof_defs)
  have "take 67 (drop i bs) = take 15 (drop i bs) @ take 20 (drop (i + 15) bs) @
      take 12 (drop (i + 35) bs) @ take 20 (drop (i + 47) bs)"
    using take_drop_add [of 15 52 i bs] take_drop_add [of 20 32 "i + 15" bs] take_drop_add [of 12 20 "i + 35" bs] by (simp add: add.assoc)
  then show "enc_req_full_headers (dec_req_full_headers bs i) = take sizeof_req_full_headers (drop i bs)"
    using le by (simp add: enc_req_full_headers_def dec_req_full_headers_def sizeof_defs rqh.enc_dec cqh.enc_dec mn.enc_dec qdh.enc_dec)
qed

interpretation sf: packed_struct enc_resp_full_headers dec_resp_full_headers sizeof_resp_full_headers
    "\<lambda>h. length (csh_reserved1 (sf_cyclic_header h)) = 14"
proof unfold_locales
  fix h :: cl_cciefb_cyclic_resp_full_headers and pre post :: bytes
  assume wf: "length (csh_reserved1 (sf_cyclic_header h)) = 14"
  let ?a = "enc_resp_header (sf_resp_header h)" and ?b = "enc_cyclic_resp_header (sf_cyclic_header h)" and ?c = "enc_slave_notification (sf_slave_station_notification h)" and ?d = "enc_resp_data_header (sf_cyclic_data_header h)"
  have len: "length ?a = 11" "length ?b = 20" "length ?c = 20" "length ?d = 8"
    using wf by (simp_all add: rsh.length_enc csh.length_enc sn.length_enc sdh.length_enc sizeof_defs)
  then show "length (enc_resp_full_headers h) = sizeof_resp_full_headers" by (simp add: enc_resp_full_headers_def sizeof_defs)
  show "dec_resp_full_headers (pre @ enc_resp_full_headers h @ post) (length pre) = h"
    using wf len
      rsh.dec_enc_at [where h = "sf_resp_header h" and i = "length pre + 0" and pre = "pre" and post = "?b @ ?c @ ?d @ post"]
      csh.dec_enc_at [where h = "sf_cyclic_header h" and i = "length pre + 11" and pre = "pre @ ?a" and post = "?c @ ?d @ post"]
      sn.dec_enc_at [where h = "sf_slave_station_notification h" and i = "length pre + 31" and pre = "pre @ ?a @ ?b" and post = "?d @ post"]
      sdh.dec_enc_at [where h = "sf_cyclic_data_header h" and i = "length pre + 51" and pre = "pre @ ?a @ ?b @ ?c" and post = "post"]
    by (simp add: enc_resp_full_headers_def dec_resp_full_headers_def)
next
  fix bs :: bytes and i :: nat
  assume le: "i + sizeof_resp_full_headers \<le> length bs"
  then show "length (csh_reserved1 (sf_cyclic_header (dec_resp_full_headers bs i))) = 14"
    using csh.wf_dec [of "i + 11" bs] by (simp add: dec_resp_full_headers_def sizeof_defs)
  have "take 59 (drop i bs) = take 11 (drop i bs) @ take 20 (drop (i + 11) bs) @
      take 20 (drop (i + 31) bs) @ take 8 (drop (i + 51) bs)"
    using take_drop_add [of 11 48 i bs] take_drop_add [of 20 28 "i + 11" bs] take_drop_add [of 20 8 "i + 31" bs] by (simp add: add.assoc)
  then show "enc_resp_full_headers (dec_resp_full_headers bs i) = take sizeof_resp_full_headers (drop i bs)"
    using le by (simp add: enc_resp_full_headers_def dec_resp_full_headers_def sizeof_defs rsh.enc_dec csh.enc_dec sn.enc_dec sdh.enc_dec)
qed

end
