(* ===== verification/CL_IEFB.thy ===== *)
theory CL_IEFB
  imports CL_Frames CL_Util
begin

text \<open>
  The CCIEFB frame layer shared by master and slave (\<open>src/common/cl_iefb.c\<close>): building request and
  response frames in a send buffer, and parsing and validating received ones.

  A received datagram is its list of bytes, so \<open>recv_len\<close> is its length. Pointers into a buffer are
  byte offsets. A C function that returns 0 or -1 is a Boolean, or an option when it also sets output
  parameters. Counts and station numbers (\<open>uint16_t\<close> in C) are natural numbers; values of frame fields
  keep their width.
\<close>

section \<open>Constants\<close>

definition CL_BUFFER_LEN :: nat where "CL_BUFFER_LEN = 1500"
definition CL_CCIEFB_MIN_SUPPORTED_PROTOCOL_VER :: u16 where "CL_CCIEFB_MIN_SUPPORTED_PROTOCOL_VER = 1"
definition CL_CCIEFB_MAX_SUPPORTED_PROTOCOL_VER :: u16 where "CL_CCIEFB_MAX_SUPPORTED_PROTOCOL_VER = 2"
definition CL_CCIEFB_MIN_TIMEOUT :: u16 where "CL_CCIEFB_MIN_TIMEOUT = 1"
definition CL_CCIEFB_DEFAULT_TIMEOUT :: u32 where "CL_CCIEFB_DEFAULT_TIMEOUT = 500"
definition CL_CCIEFB_MIN_TIMEOUT_COUNT :: u16 where "CL_CCIEFB_MIN_TIMEOUT_COUNT = 1"
definition CL_CCIEFB_DEFAULT_TIMEOUT_COUNT :: u32 where "CL_CCIEFB_DEFAULT_TIMEOUT_COUNT = 3"
definition CL_CCIEFB_MIN_GROUP_NO :: nat where "CL_CCIEFB_MIN_GROUP_NO = 1"
definition CL_CCIEFB_MAX_GROUP_NO :: nat where "CL_CCIEFB_MAX_GROUP_NO = 64"
definition CL_CCIEFB_MIN_OCCUPIED_STATIONS_PER_GROUP :: nat where
  "CL_CCIEFB_MIN_OCCUPIED_STATIONS_PER_GROUP = 1"
definition CL_CCIEFB_MAX_OCCUPIED_STATIONS_PER_GROUP :: nat where
  "CL_CCIEFB_MAX_OCCUPIED_STATIONS_PER_GROUP = 16"
definition CL_CCIEFB_DL_OFFSET :: nat where "CL_CCIEFB_DL_OFFSET = 9"
definition CL_CCIEFB_CYCLIC_REQ_CYCLIC_OFFSET :: u16 where "CL_CCIEFB_CYCLIC_REQ_CYCLIC_OFFSET = 36"
definition CL_CCIEFB_CYCLIC_RESP_CYCLIC_OFFSET :: u16 where "CL_CCIEFB_CYCLIC_RESP_CYCLIC_OFFSET = 40"
definition CL_CCIEFB_MULTISTATION_INDICATOR :: u32 where "CL_CCIEFB_MULTISTATION_INDICATOR = - 1"
definition CL_SLMP_COMMAND_CCIEFB_CYCLIC :: u16 where "CL_SLMP_COMMAND_CCIEFB_CYCLIC = 0x0E70"
definition CL_SLMP_SUBCOMMAND_CCIEFB_CYCLIC :: u16 where "CL_SLMP_SUBCOMMAND_CCIEFB_CYCLIC = 0"
definition CL_SLMP_ENDCODE_SUCCESS :: u16 where "CL_SLMP_ENDCODE_SUCCESS = 0"
definition CL_SLMP_ENDCODE_CCIEFB_MASTER_DUPLICATION :: u16 where
  "CL_SLMP_ENDCODE_CCIEFB_MASTER_DUPLICATION = 0xCFE0"
definition CL_SLMP_ENDCODE_CCIEFB_WRONG_NUMBER_OCCUPIED_STATIONS :: u16 where
  "CL_SLMP_ENDCODE_CCIEFB_WRONG_NUMBER_OCCUPIED_STATIONS = 0xCFE1"
definition CL_SLMP_ENDCODE_CCIEFB_SLAVE_ERROR :: u16 where
  "CL_SLMP_ENDCODE_CCIEFB_SLAVE_ERROR = 0xCFF0"
definition CL_SLMP_ENDCODE_CCIEFB_SLAVE_REQUESTS_DISCONNECT :: u16 where
  "CL_SLMP_ENDCODE_CCIEFB_SLAVE_REQUESTS_DISCONNECT = 0xCFFF"
definition CL_SLAVE_APPL_OPERATION_STATUS_OPERATING :: u16 where
  "CL_SLAVE_APPL_OPERATION_STATUS_OPERATING = 1"
definition sizeof_ipaddr :: nat where "sizeof_ipaddr = 4"
definition sizeof_word_area :: nat where "sizeof_word_area = 64"
definition sizeof_bit_area :: nat where "sizeof_bit_area = 8"

lemmas cl_consts = CL_BUFFER_LEN_def CL_CCIEFB_MIN_SUPPORTED_PROTOCOL_VER_def
  CL_CCIEFB_MAX_SUPPORTED_PROTOCOL_VER_def CL_CCIEFB_MIN_TIMEOUT_def CL_CCIEFB_DEFAULT_TIMEOUT_def
  CL_CCIEFB_MIN_TIMEOUT_COUNT_def CL_CCIEFB_DEFAULT_TIMEOUT_COUNT_def CL_CCIEFB_MIN_GROUP_NO_def
  CL_CCIEFB_MAX_GROUP_NO_def CL_CCIEFB_MIN_OCCUPIED_STATIONS_PER_GROUP_def
  CL_CCIEFB_MAX_OCCUPIED_STATIONS_PER_GROUP_def CL_CCIEFB_DL_OFFSET_def
  CL_CCIEFB_CYCLIC_REQ_CYCLIC_OFFSET_def CL_CCIEFB_CYCLIC_RESP_CYCLIC_OFFSET_def
  CL_CCIEFB_MULTISTATION_INDICATOR_def CL_SLMP_COMMAND_CCIEFB_CYCLIC_def
  CL_SLMP_SUBCOMMAND_CCIEFB_CYCLIC_def CL_SLMP_ENDCODE_SUCCESS_def
  CL_SLMP_ENDCODE_CCIEFB_MASTER_DUPLICATION_def
  CL_SLMP_ENDCODE_CCIEFB_WRONG_NUMBER_OCCUPIED_STATIONS_def CL_SLMP_ENDCODE_CCIEFB_SLAVE_ERROR_def
  CL_SLMP_ENDCODE_CCIEFB_SLAVE_REQUESTS_DISCONNECT_def CL_SLAVE_APPL_OPERATION_STATUS_OPERATING_def
  sizeof_ipaddr_def sizeof_word_area_def sizeof_bit_area_def CL_IPADDR_INVALID_def sizeof_defs

section \<open>Frame sizes\<close>

definition cl_calculate_cyclic_request_size :: "nat \<Rightarrow> nat" where
  "cl_calculate_cyclic_request_size slave_total_occupied_station_count =
     sizeof_req_header + sizeof_cyclic_req_header + sizeof_master_notification +
     sizeof_req_data_header +
     slave_total_occupied_station_count * (sizeof_ipaddr + sizeof_word_area + sizeof_bit_area)"

definition cl_calculate_cyclic_response_size :: "nat \<Rightarrow> nat" where
  "cl_calculate_cyclic_response_size occupied_stations =
     sizeof_resp_header + sizeof_cyclic_resp_header + sizeof_slave_notification +
     sizeof_resp_data_header + occupied_stations * (sizeof_word_area + sizeof_bit_area)"

text \<open>The subtraction in \<open>size_t\<close> wraps around for a payload shorter than the headers.\<close>

definition cl_calculate_number_of_occupied_stations :: "u64 \<Rightarrow> u16" where
  "cl_calculate_number_of_occupied_stations response_udp_payload_size =
     (let occupied_stations = (ucast ((response_udp_payload_size - 59) div 72 AND 0xFFFF) :: u16);
          remainder = response_udp_payload_size -
            of_nat (cl_calculate_cyclic_response_size (unat occupied_stations))
      in if remainder \<noteq> 0 then 0 else occupied_stations)"

section \<open>Request frames: the master's side\<close>

record clm_cciefb_cyclic_request_info =
  mq_buffer :: bytes
  mq_udp_payload_len :: nat
  mq_first_slave_id :: nat
  mq_first_rww :: nat
  mq_first_ry :: nat

definition initial_request_headers ::
  "nat \<Rightarrow> u16 \<Rightarrow> u16 \<Rightarrow> u16 \<Rightarrow> u32 \<Rightarrow> u16 \<Rightarrow> nat \<Rightarrow> u16 \<Rightarrow> cl_cciefb_cyclic_req_full_headers" where
  "initial_request_headers udp_payload_len protocol_ver timeout_value parallel_off_timeout_count
      master_id group_no occupied_stations parameter_no = \<lparr>
     qf_req_header = \<lparr>rqh_reserved1 = 0x5000, rqh_reserved2 = 0, rqh_reserved3 = 0xFF,
       rqh_reserved4 = 0x03FF, rqh_reserved5 = 0,
       rqh_dl = of_nat (udp_payload_len - CL_CCIEFB_DL_OFFSET), rqh_reserved6 = 0,
       rqh_command = CL_SLMP_COMMAND_CCIEFB_CYCLIC,
       rqh_sub_command = CL_SLMP_SUBCOMMAND_CCIEFB_CYCLIC\<rparr>,
     qf_cyclic_header = \<lparr>cqh_protocol_ver = protocol_ver, cqh_reserved1 = 0,
       cqh_cyclic_info_offset_addr = CL_CCIEFB_CYCLIC_REQ_CYCLIC_OFFSET,
       cqh_reserved2 = replicate 14 0\<rparr>,
     qf_master_station_notification = \<lparr>mn_master_local_unit_info = 0, mn_reserved = 0,
       mn_clock_info = 0\<rparr>,
     qf_cyclic_data_header = \<lparr>qdh_master_id = master_id, qdh_group_no = ucast (group_no AND 0xFF),
       qdh_reserved3 = 0, qdh_frame_sequence_no = 0, qdh_timeout_value = timeout_value,
       qdh_parallel_off_timeout_count = parallel_off_timeout_count, qdh_parameter_no = parameter_no,
       qdh_slave_total_occupied_station_count = of_nat occupied_stations,
       qdh_cyclic_transmission_state = 0, qdh_reserved4 = 0\<rparr>\<rparr>"

definition cl_iefb_initialise_request_frame ::
  "nat \<Rightarrow> u16 \<Rightarrow> u16 \<Rightarrow> u16 \<Rightarrow> u32 \<Rightarrow> u16 \<Rightarrow> nat \<Rightarrow> u16 \<Rightarrow> clm_cciefb_cyclic_request_info outcome" where
  "cl_iefb_initialise_request_frame buf_size protocol_ver timeout_value parallel_off_timeout_count
      master_id group_no occupied_stations parameter_no =
     (let udp_payload_len = cl_calculate_cyclic_request_size occupied_stations in
      cc_assert (buf_size \<ge> udp_payload_len)
        (let buffer = put_bytes (replicate buf_size 0) 0
               (enc_req_full_headers (initial_request_headers udp_payload_len protocol_ver timeout_value
                  parallel_off_timeout_count master_id group_no occupied_stations parameter_no));
             pos = sizeof_req_full_headers;
             first_slave_id = pos;
             pos = pos + occupied_stations * sizeof_ipaddr;
             first_rww = pos;
             pos = pos + occupied_stations * sizeof_word_area;
             first_ry = pos;
             pos = pos + occupied_stations * sizeof_bit_area
         in cc_assert (pos \<le> buf_size)
              (Returns \<lparr>mq_buffer = buffer, mq_udp_payload_len = udp_payload_len,
                 mq_first_slave_id = first_slave_id, mq_first_rww = first_rww,
                 mq_first_ry = first_ry\<rparr>)))"

definition cl_iefb_update_request_frame_headers ::
  "clm_cciefb_cyclic_request_info \<Rightarrow> u16 \<Rightarrow> u64 \<Rightarrow> u16 \<Rightarrow> u16 \<Rightarrow> clm_cciefb_cyclic_request_info" where
  "cl_iefb_update_request_frame_headers frame_info frame_sequence_no clock_info
      master_local_unit_info cyclic_transmission_state =
     (let full_headers = dec_req_full_headers (mq_buffer frame_info) 0;
          notification = (qf_master_station_notification full_headers)
            \<lparr>mn_master_local_unit_info := master_local_unit_info, mn_clock_info := clock_info\<rparr>;
          cyclic_data_header = (qf_cyclic_data_header full_headers)
            \<lparr>qdh_frame_sequence_no := frame_sequence_no,
             qdh_cyclic_transmission_state := cyclic_transmission_state\<rparr>
      in frame_info\<lparr>mq_buffer := put_bytes (mq_buffer frame_info) 0
           (enc_req_full_headers (full_headers\<lparr>qf_master_station_notification := notification,
              qf_cyclic_data_header := cyclic_data_header\<rparr>))\<rparr>)"

section \<open>Request frames: the slave's side\<close>

definition cl_iefb_parse_request_header :: "bytes \<Rightarrow> cl_cciefb_req_header option" where
  "cl_iefb_parse_request_header buffer =
     (if sizeof_req_header > length buffer then None else Some (dec_req_header buffer 0))"

definition cl_iefb_validate_request_header :: "cl_cciefb_req_header \<Rightarrow> nat \<Rightarrow> bool" where
  "cl_iefb_validate_request_header header recv_len =
     (if unat (rqh_dl header) + CL_CCIEFB_DL_OFFSET \<noteq> recv_len then False
      else if rqh_reserved1 header \<noteq> 0x5000 \<or> rqh_reserved2 header \<noteq> 0 \<or>
              rqh_reserved3 header \<noteq> 0xFF \<or> rqh_reserved4 header \<noteq> 0x03FF \<or>
              rqh_reserved5 header \<noteq> 0 \<or> rqh_reserved6 header \<noteq> 0 then False
      else True)"

definition protocol_ver_unsupported :: "u16 \<Rightarrow> bool" where
  "protocol_ver_unsupported protocol_ver \<longleftrightarrow>
     protocol_ver < CL_CCIEFB_MIN_SUPPORTED_PROTOCOL_VER \<or>
     protocol_ver > CL_CCIEFB_MAX_SUPPORTED_PROTOCOL_VER"

definition cl_iefb_validate_cyclic_request_header :: "cl_cciefb_cyclic_req_header \<Rightarrow> bool" where
  "cl_iefb_validate_cyclic_request_header cyclic_header =
     (if protocol_ver_unsupported (cqh_protocol_ver cyclic_header) then False
      else if cqh_cyclic_info_offset_addr cyclic_header \<noteq> CL_CCIEFB_CYCLIC_REQ_CYCLIC_OFFSET then False
      else if cqh_reserved1 cyclic_header \<noteq> 0 then False
      else list_all (\<lambda>b. b = 0) (cqh_reserved2 cyclic_header))"

definition cl_iefb_validate_master_station_notification ::
  "cl_cciefb_master_station_notification \<Rightarrow> u16 \<Rightarrow> bool" where
  "cl_iefb_validate_master_station_notification notification protocol_ver =
     (if protocol_ver = 1 then
        (if mn_master_local_unit_info notification AND 0xFFFE > 0 then False
         else mn_reserved notification = 0)
      else if protocol_ver = 2 then
        (if mn_master_local_unit_info notification AND 0xFFFC > 0 then False
         else mn_reserved notification = 0)
      else False)"

definition occupied_out_of_range :: "nat \<Rightarrow> bool" where
  "occupied_out_of_range n \<longleftrightarrow>
     n < CL_CCIEFB_MIN_OCCUPIED_STATIONS_PER_GROUP \<or> n > CL_CCIEFB_MAX_OCCUPIED_STATIONS_PER_GROUP"

definition cl_iefb_validate_req_cyclic_data_header ::
  "cl_cciefb_cyclic_req_data_header \<Rightarrow> u32 \<Rightarrow> bool" where
  "cl_iefb_validate_req_cyclic_data_header cyclic_data_header remote_ip =
     (let group_no = unat (qdh_group_no cyclic_data_header);
          master_id = qdh_master_id cyclic_data_header;
          slave_total_occupied = unat (qdh_slave_total_occupied_station_count cyclic_data_header)
      in if group_no < CL_CCIEFB_MIN_GROUP_NO \<or> group_no > CL_CCIEFB_MAX_GROUP_NO then False
         else if occupied_out_of_range slave_total_occupied then False
         else if qdh_reserved3 cyclic_data_header \<noteq> 0 \<or> qdh_reserved4 cyclic_data_header \<noteq> 0 then False
         else if master_id = CL_IPADDR_INVALID \<or> master_id \<noteq> remote_ip then False
         else True)"

text \<open>The offsets of the first slave id, the first RWw area and the first RY area.\<close>

definition cl_iefb_parse_request_cyclic_data :: "nat \<Rightarrow> nat \<Rightarrow> (nat \<times> nat \<times> nat) option" where
  "cl_iefb_parse_request_cyclic_data recv_len slave_total_occupied_station_count =
     (let pos = sizeof_req_full_headers in
      if occupied_out_of_range slave_total_occupied_station_count then None
      else
        (let first_slave_id = pos;
             pos = pos + slave_total_occupied_station_count * sizeof_ipaddr;
             first_rww = pos;
             pos = pos + slave_total_occupied_station_count * sizeof_word_area;
             first_ry = pos;
             pos = pos + slave_total_occupied_station_count * sizeof_bit_area
         in if pos > recv_len then None else Some (first_slave_id, first_rww, first_ry)))"

definition cl_is_slave_endcode_valid :: "u16 \<Rightarrow> bool" where
  "cl_is_slave_endcode_valid end_code \<longleftrightarrow>
     end_code = CL_SLMP_ENDCODE_SUCCESS \<or>
     end_code = CL_SLMP_ENDCODE_CCIEFB_MASTER_DUPLICATION \<or>
     end_code = CL_SLMP_ENDCODE_CCIEFB_WRONG_NUMBER_OCCUPIED_STATIONS \<or>
     end_code = CL_SLMP_ENDCODE_CCIEFB_SLAVE_ERROR \<or>
     end_code = CL_SLMP_ENDCODE_CCIEFB_SLAVE_REQUESTS_DISCONNECT"

definition cl_iefb_validate_req_cyclic_frame_size ::
  "u16 \<Rightarrow> nat \<Rightarrow> u16 \<Rightarrow> nat \<Rightarrow> u16 \<Rightarrow> bool" where
  "cl_iefb_validate_req_cyclic_frame_size protocol_ver recv_len dl
      slave_total_occupied_station_count cyclic_info_offset_addr =
     (if protocol_ver_unsupported protocol_ver then False
      else if recv_len \<noteq> unat dl + CL_CCIEFB_DL_OFFSET then False
      else if recv_len \<noteq> cl_calculate_cyclic_request_size slave_total_occupied_station_count then False
      else if cyclic_info_offset_addr \<noteq> CL_CCIEFB_CYCLIC_REQ_CYCLIC_OFFSET then False
      else True)"

record cls_cciefb_cyclic_request_info =
  rq_remote_ip :: u32
  rq_remote_port :: u16
  rq_slave_ip_addr :: u32
  rq_buffer :: bytes
  rq_full_headers :: cl_cciefb_cyclic_req_full_headers
  rq_first_slave_id :: nat
  rq_first_rww :: "nat option"
  rq_first_ry :: "nat option"

definition rq_total_occupied :: "cls_cciefb_cyclic_request_info \<Rightarrow> nat" where
  "rq_total_occupied request =
     unat (qdh_slave_total_occupied_station_count (qf_cyclic_data_header (rq_full_headers request)))"

definition cl_iefb_request_get_rww :: "cls_cciefb_cyclic_request_info \<Rightarrow> nat \<Rightarrow> nat option" where
  "cl_iefb_request_get_rww request abs_slave_station =
     (if occupied_out_of_range abs_slave_station \<or> abs_slave_station > rq_total_occupied request
      then None
      else case rq_first_rww request of None \<Rightarrow> None
        | Some first_rww \<Rightarrow> Some (first_rww + (abs_slave_station - 1) * sizeof_word_area))"

definition cl_iefb_request_get_ry :: "cls_cciefb_cyclic_request_info \<Rightarrow> nat \<Rightarrow> nat option" where
  "cl_iefb_request_get_ry request abs_slave_station =
     (if occupied_out_of_range abs_slave_station \<or> abs_slave_station > rq_total_occupied request
      then None
      else case rq_first_ry request of None \<Rightarrow> None
        | Some first_ry \<Rightarrow> Some (first_ry + (abs_slave_station - 1) * sizeof_bit_area))"

definition cl_iefb_request_get_slave_id :: "bytes \<Rightarrow> nat \<Rightarrow> nat \<Rightarrow> nat \<Rightarrow> u32 option" where
  "cl_iefb_request_get_slave_id buffer first_slave_id abs_slave_station total_occupied =
     (if occupied_out_of_range total_occupied then None
      else if occupied_out_of_range abs_slave_station \<or> abs_slave_station > total_occupied then None
      else Some (le32_at buffer (first_slave_id + (abs_slave_station - 1) * sizeof_ipaddr)))"

definition cl_iefb_parse_req_full_cyclic_headers ::
  "bytes \<Rightarrow> cl_cciefb_cyclic_req_full_headers option" where
  "cl_iefb_parse_req_full_cyclic_headers buffer =
     (if length buffer < sizeof_req_full_headers then None else Some (dec_req_full_headers buffer 0))"

definition cl_iefb_validate_req_full_cyclic_headers ::
  "cl_cciefb_cyclic_req_full_headers \<Rightarrow> nat \<Rightarrow> u32 \<Rightarrow> bool" where
  "cl_iefb_validate_req_full_cyclic_headers full_headers recv_len remote_ip =
     (if \<not> cl_iefb_validate_cyclic_request_header (qf_cyclic_header full_headers) then False
      else if \<not> cl_iefb_validate_master_station_notification
                (qf_master_station_notification full_headers)
                (cqh_protocol_ver (qf_cyclic_header full_headers)) then False
      else if \<not> cl_iefb_validate_req_cyclic_data_header
                (qf_cyclic_data_header full_headers) remote_ip then False
      else if \<not> cl_iefb_validate_req_cyclic_frame_size
                (cqh_protocol_ver (qf_cyclic_header full_headers)) recv_len
                (rqh_dl (qf_req_header full_headers))
                (unat (qdh_slave_total_occupied_station_count (qf_cyclic_data_header full_headers)))
                (cqh_cyclic_info_offset_addr (qf_cyclic_header full_headers)) then False
      else True)"

definition cl_iefb_parse_cyclic_request ::
  "bytes \<Rightarrow> u32 \<Rightarrow> u16 \<Rightarrow> u32 \<Rightarrow> cls_cciefb_cyclic_request_info option outcome" where
  "cl_iefb_parse_cyclic_request buffer remote_ip remote_port local_ip =
     (case cl_iefb_parse_req_full_cyclic_headers buffer of
        None \<Rightarrow> Returns None
      | Some full_headers \<Rightarrow>
          if \<not> cl_iefb_validate_req_full_cyclic_headers full_headers (length buffer) remote_ip
          then Returns None
          else
            (let result_parse_cyclic = cl_iefb_parse_request_cyclic_data (length buffer)
                   (unat (qdh_slave_total_occupied_station_count (qf_cyclic_data_header full_headers)))
             in case result_parse_cyclic of
                  None \<Rightarrow> Assert_Failed
                | Some (first_slave_id, first_rww, first_ry) \<Rightarrow>
                    Returns (Some \<lparr>rq_remote_ip = remote_ip, rq_remote_port = remote_port,
                      rq_slave_ip_addr = local_ip, rq_buffer = buffer,
                      rq_full_headers = full_headers, rq_first_slave_id = first_slave_id,
                      rq_first_rww = Some first_rww, rq_first_ry = Some first_ry\<rparr>)))"

text \<open>
  Searching the slave's own IP address among the slave ids. The loop state is whether the id has been
  found, whether further stations of the slave may follow, its station number and the count.
\<close>

fun analyze_loop ::
  "u32 \<Rightarrow> nat \<Rightarrow> bytes \<Rightarrow> nat \<Rightarrow> nat list \<Rightarrow> bool \<Rightarrow> bool \<Rightarrow> nat \<Rightarrow> nat \<Rightarrow> (bool \<times> nat \<times> nat) option" where
  "analyze_loop my_slave_id total_occupied buffer first_slave_id [] found look station count =
     Some (found, station, count)"
| "analyze_loop my_slave_id total_occupied buffer first_slave_id (abs_slave_station # rest)
     found look station count =
     (case cl_iefb_request_get_slave_id buffer first_slave_id abs_slave_station total_occupied of
        None \<Rightarrow> None
      | Some req_slave_id \<Rightarrow>
          if req_slave_id = my_slave_id then
            (if \<not> found
             then analyze_loop my_slave_id total_occupied buffer first_slave_id rest
                    True True abs_slave_station 1
             else None)
          else if look then
            (if req_slave_id = CL_CCIEFB_MULTISTATION_INDICATOR
             then analyze_loop my_slave_id total_occupied buffer first_slave_id rest
                    found look station (count + 1)
             else analyze_loop my_slave_id total_occupied buffer first_slave_id rest
                    found False station count)
          else analyze_loop my_slave_id total_occupied buffer first_slave_id rest
                 found look station count)"

text \<open>
  The return value is \<open>None\<close> for the error case, where the C code also resets its output parameters;
  otherwise whether the id was found, the station number and the number of stations it implies.
\<close>

definition cl_iefb_analyze_slave_ids :: "u32 \<Rightarrow> nat \<Rightarrow> bytes \<Rightarrow> nat \<Rightarrow> (bool \<times> nat \<times> nat) option" where
  "cl_iefb_analyze_slave_ids my_slave_id total_occupied buffer first_slave_id =
     (if my_slave_id = CL_IPADDR_INVALID then None
      else if total_occupied < CL_CCIEFB_MIN_OCCUPIED_STATIONS_PER_GROUP then None
      else analyze_loop my_slave_id total_occupied buffer first_slave_id [1..<total_occupied + 1]
             False False 0 0)"

definition cl_iefb_set_cyclic_transmission_state :: "u16 \<Rightarrow> nat \<Rightarrow> bool \<Rightarrow> u16" where
  "cl_iefb_set_cyclic_transmission_state cyclic_transmission_state slave_station_no state =
     (if slave_station_no = 0 \<or> slave_station_no > CL_CCIEFB_MAX_OCCUPIED_STATIONS_PER_GROUP
      then cyclic_transmission_state
      else let m = push_bit (slave_station_no - 1) 1 in
        if state then cyclic_transmission_state OR m else cyclic_transmission_state AND NOT m)"

definition cl_iefb_extract_my_transmission_state :: "u16 \<Rightarrow> nat \<Rightarrow> bool" where
  "cl_iefb_extract_my_transmission_state cyclic_transmission_state my_slave_station_no =
     (if occupied_out_of_range my_slave_station_no then False
      else let m = push_bit (my_slave_station_no - 1) 1 in cyclic_transmission_state AND m > 0)"

definition cl_calculate_total_timeout_us :: "u16 \<Rightarrow> u16 \<Rightarrow> u64" where
  "cl_calculate_total_timeout_us timeout_value parallel_off_timeout_count =
     (let timeout = (if timeout_value < CL_CCIEFB_MIN_TIMEOUT then CL_CCIEFB_DEFAULT_TIMEOUT
                     else ucast timeout_value :: u32);
          count = (if parallel_off_timeout_count < CL_CCIEFB_MIN_TIMEOUT_COUNT
                   then CL_CCIEFB_DEFAULT_TIMEOUT_COUNT else ucast parallel_off_timeout_count)
      in ucast (timeout * count) * 1000)"

section \<open>Response frames: the slave's side\<close>

record cls_cciefb_cyclic_response_info =
  sr_buffer :: bytes
  sr_udp_payload_len :: nat
  sr_first_rwr :: nat
  sr_first_rx :: nat

definition initial_response_headers ::
  "nat \<Rightarrow> u16 \<Rightarrow> u32 \<Rightarrow> u16 \<Rightarrow> cl_cciefb_cyclic_resp_full_headers" where
  "initial_response_headers udp_payload_len vendor_code model_code equipment_ver = \<lparr>
     sf_resp_header = \<lparr>rsh_reserved1 = 0xD000, rsh_reserved2 = 0, rsh_reserved3 = 0xFF,
       rsh_reserved4 = 0x03FF, rsh_reserved5 = 0,
       rsh_dl = of_nat udp_payload_len - of_nat CL_CCIEFB_DL_OFFSET, rsh_reserved6 = 0\<rparr>,
     sf_cyclic_header = \<lparr>csh_protocol_ver = CL_CCIEFB_MAX_SUPPORTED_PROTOCOL_VER,
       csh_end_code = CL_SLMP_ENDCODE_SUCCESS,
       csh_cyclic_info_offset_addr = CL_CCIEFB_CYCLIC_RESP_CYCLIC_OFFSET,
       csh_reserved1 = replicate 14 0\<rparr>,
     sf_slave_station_notification = \<lparr>sn_vendor_code = vendor_code, sn_reserved1 = 0,
       sn_model_code = model_code, sn_equipment_ver = equipment_ver, sn_reserved2 = 0,
       sn_slave_local_unit_info = CL_SLAVE_APPL_OPERATION_STATUS_OPERATING, sn_slave_err_code = 0,
       sn_local_management_info = 0\<rparr>,
     sf_cyclic_data_header = \<lparr>sdh_slave_id = 0, sdh_group_no = 0, sdh_reserved2 = 0,
       sdh_frame_sequence_no = 0\<rparr>\<rparr>"

definition cl_iefb_initialise_cyclic_response_frame ::
  "nat \<Rightarrow> nat \<Rightarrow> u16 \<Rightarrow> u32 \<Rightarrow> u16 \<Rightarrow> cls_cciefb_cyclic_response_info outcome" where
  "cl_iefb_initialise_cyclic_response_frame buf_size occupied_stations vendor_code model_code
      equipment_ver =
     (let udp_payload_len = cl_calculate_cyclic_response_size occupied_stations in
      cc_assert (buf_size \<ge> udp_payload_len)
        (let buffer = put_bytes (replicate buf_size 0) 0
               (enc_resp_full_headers (initial_response_headers udp_payload_len vendor_code model_code
                  equipment_ver));
             pos = sizeof_resp_full_headers;
             first_rwr = pos;
             pos = pos + occupied_stations * sizeof_word_area;
             first_rx = pos;
             pos = pos + occupied_stations * sizeof_bit_area
         in cc_assert (pos \<le> buf_size)
              (Returns \<lparr>sr_buffer = buffer, sr_udp_payload_len = udp_payload_len,
                 sr_first_rwr = first_rwr, sr_first_rx = first_rx\<rparr>)))"

definition cl_iefb_update_cyclic_response_frame ::
  "cls_cciefb_cyclic_response_info \<Rightarrow> u32 \<Rightarrow> u16 \<Rightarrow> u16 \<Rightarrow> u16 \<Rightarrow> u16 \<Rightarrow> u16 \<Rightarrow> u32 \<Rightarrow>
   cls_cciefb_cyclic_response_info" where
  "cl_iefb_update_cyclic_response_frame frame_info slave_id end_code group_no frame_sequence_no
      slave_local_unit_info slave_err_code local_management_info =
     (let full_headers = dec_resp_full_headers (sr_buffer frame_info) 0;
          cyclic_header = (sf_cyclic_header full_headers)\<lparr>csh_end_code := end_code\<rparr>;
          notification = (sf_slave_station_notification full_headers)
            \<lparr>sn_slave_local_unit_info := slave_local_unit_info, sn_slave_err_code := slave_err_code,
             sn_local_management_info := local_management_info\<rparr>;
          cyclic_data_header = (sf_cyclic_data_header full_headers)
            \<lparr>sdh_slave_id := slave_id, sdh_group_no := ucast (group_no AND 0xFF),
             sdh_frame_sequence_no := frame_sequence_no\<rparr>
      in frame_info\<lparr>sr_buffer := put_bytes (sr_buffer frame_info) 0
           (enc_resp_full_headers (full_headers\<lparr>sf_cyclic_header := cyclic_header,
              sf_slave_station_notification := notification,
              sf_cyclic_data_header := cyclic_data_header\<rparr>))\<rparr>)"

text \<open>Offsets of the RX and RWr areas, and of a bit or register within its area.\<close>

definition cl_iefb_get_rx_area :: "cls_cciefb_cyclic_response_info \<Rightarrow> nat \<Rightarrow> nat" where
  "cl_iefb_get_rx_area frame_info area_number = sr_first_rx frame_info + area_number * sizeof_bit_area"

definition cl_iefb_get_rwr_area :: "cls_cciefb_cyclic_response_info \<Rightarrow> nat \<Rightarrow> nat" where
  "cl_iefb_get_rwr_area frame_info area_number = sr_first_rwr frame_info + area_number * sizeof_word_area"

definition cl_iefb_bit_calculate_areanumber :: "u16 \<Rightarrow> u16 \<times> u16 \<times> u8" where
  "cl_iefb_bit_calculate_areanumber number =
     (let bitnumber = number AND 0x07;
          bitmask = push_bit (unat bitnumber) 1 AND 0xFF;
          byte_in_area = drop_bit 3 number AND 0x07
      in (drop_bit 6 number, byte_in_area, bitmask))"

definition cl_iefb_register_calculate_areanumber :: "u16 \<Rightarrow> u16 \<times> u16" where
  "cl_iefb_register_calculate_areanumber number = (drop_bit 5 number, number AND 0x1F)"

section \<open>Response frames: the master's side\<close>

definition cl_iefb_parse_response_header :: "bytes \<Rightarrow> cl_cciefb_resp_header option" where
  "cl_iefb_parse_response_header buffer =
     (if sizeof_resp_header > length buffer then None else Some (dec_resp_header buffer 0))"

definition cl_iefb_validate_response_header :: "cl_cciefb_resp_header \<Rightarrow> nat \<Rightarrow> bool" where
  "cl_iefb_validate_response_header header recv_len =
     (if unat (rsh_dl header) + CL_CCIEFB_DL_OFFSET \<noteq> recv_len then False
      else if rsh_reserved1 header \<noteq> 0xD000 \<or> rsh_reserved2 header \<noteq> 0 \<or>
              rsh_reserved3 header \<noteq> 0xFF \<or> rsh_reserved4 header \<noteq> 0x03FF \<or>
              rsh_reserved5 header \<noteq> 0 \<or> rsh_reserved6 header \<noteq> 0 then False
      else True)"

definition cl_iefb_parse_resp_full_cyclic_headers ::
  "bytes \<Rightarrow> cl_cciefb_cyclic_resp_full_headers option" where
  "cl_iefb_parse_resp_full_cyclic_headers buffer =
     (if length buffer < sizeof_resp_full_headers then None else Some (dec_resp_full_headers buffer 0))"

definition cl_iefb_validate_cyclic_resp_header :: "cl_cciefb_cyclic_resp_header \<Rightarrow> bool" where
  "cl_iefb_validate_cyclic_resp_header cyclic_header =
     (if protocol_ver_unsupported (csh_protocol_ver cyclic_header) then False
      else if csh_cyclic_info_offset_addr cyclic_header \<noteq> CL_CCIEFB_CYCLIC_RESP_CYCLIC_OFFSET then False
      else list_all (\<lambda>b. b = 0) (csh_reserved1 cyclic_header))"

definition cl_iefb_validate_slave_station_notification ::
  "cl_cciefb_slave_station_notification \<Rightarrow> bool" where
  "cl_iefb_validate_slave_station_notification notification =
     (if sn_slave_local_unit_info notification AND 0xFFFE > 0 then False
      else if sn_reserved1 notification \<noteq> 0 \<or> sn_reserved2 notification \<noteq> 0 then False
      else True)"

definition cl_iefb_validate_resp_cyclic_data_header ::
  "cl_cciefb_cyclic_resp_data_header \<Rightarrow> u32 \<Rightarrow> bool" where
  "cl_iefb_validate_resp_cyclic_data_header cyclic_data_header remote_ip =
     (let group_no = unat (sdh_group_no cyclic_data_header);
          slave_id = sdh_slave_id cyclic_data_header
      in if group_no < CL_CCIEFB_MIN_GROUP_NO \<or> group_no > CL_CCIEFB_MAX_GROUP_NO then False
         else if sdh_reserved2 cyclic_data_header \<noteq> 0 then False
         else if slave_id = CL_IPADDR_INVALID \<or> slave_id \<noteq> remote_ip then False
         else True)"

definition cl_iefb_validate_resp_cyclic_frame_size :: "u16 \<Rightarrow> nat \<Rightarrow> u16 \<Rightarrow> bool" where
  "cl_iefb_validate_resp_cyclic_frame_size protocol_ver recv_len dl =
     (if protocol_ver_unsupported protocol_ver then False
      else if recv_len \<noteq> unat dl + CL_CCIEFB_DL_OFFSET then False
      else True)"

definition cl_iefb_validate_resp_full_cyclic_headers ::
  "cl_cciefb_cyclic_resp_full_headers \<Rightarrow> nat \<Rightarrow> u32 \<Rightarrow> bool" where
  "cl_iefb_validate_resp_full_cyclic_headers full_headers recv_len remote_ip =
     (if \<not> cl_iefb_validate_cyclic_resp_header (sf_cyclic_header full_headers) then False
      else if \<not> cl_iefb_validate_slave_station_notification
                (sf_slave_station_notification full_headers) then False
      else if \<not> cl_iefb_validate_resp_cyclic_data_header
                (sf_cyclic_data_header full_headers) remote_ip then False
      else if \<not> cl_iefb_validate_resp_cyclic_frame_size
                (csh_protocol_ver (sf_cyclic_header full_headers)) recv_len
                (rsh_dl (sf_resp_header full_headers)) then False
      else True)"

text \<open>The offsets of the first RWr area and the first RX area.\<close>

definition cl_iefb_parse_response_cyclic_data :: "nat \<Rightarrow> nat \<Rightarrow> (nat \<times> nat) option" where
  "cl_iefb_parse_response_cyclic_data recv_len number_of_occupied_stations =
     (let pos = sizeof_resp_full_headers in
      if occupied_out_of_range number_of_occupied_stations then None
      else
        (let first_rwr = pos;
             pos = pos + number_of_occupied_stations * sizeof_word_area;
             first_rx = pos;
             pos = pos + number_of_occupied_stations * sizeof_bit_area
         in if pos > recv_len then None else Some (first_rwr, first_rx)))"

record clm_cciefb_cyclic_response_info =
  rp_remote_port :: u16
  rp_remote_ip :: u32
  rp_number_of_occupied :: nat
  rp_reception_timestamp :: u32
  rp_device_index :: nat
  rp_buffer :: bytes
  rp_full_headers :: cl_cciefb_cyclic_resp_full_headers
  rp_first_rwr :: nat
  rp_first_rx :: nat

text \<open>The field \<open>device_index\<close> is assigned by the master after parsing; it starts as 0.\<close>

definition cl_iefb_parse_cyclic_response ::
  "bytes \<Rightarrow> u32 \<Rightarrow> u16 \<Rightarrow> u32 \<Rightarrow> clm_cciefb_cyclic_response_info option outcome" where
  "cl_iefb_parse_cyclic_response buffer remote_ip remote_port now =
     (case cl_iefb_parse_resp_full_cyclic_headers buffer of
        None \<Rightarrow> Returns None
      | Some full_headers \<Rightarrow>
          if \<not> cl_iefb_validate_resp_full_cyclic_headers full_headers (length buffer) remote_ip
          then Returns None
          else
            (let number_of_occupied_stations =
                   unat (cl_calculate_number_of_occupied_stations (of_nat (length buffer)))
             in if number_of_occupied_stations = 0 then Returns None
                else case cl_iefb_parse_response_cyclic_data (length buffer)
                            number_of_occupied_stations of
                  None \<Rightarrow> Assert_Failed
                | Some (first_rwr, first_rx) \<Rightarrow>
                    Returns (Some \<lparr>rp_remote_port = remote_port, rp_remote_ip = remote_ip,
                      rp_number_of_occupied = number_of_occupied_stations,
                      rp_reception_timestamp = now, rp_device_index = 0, rp_buffer = buffer,
                      rp_full_headers = full_headers, rp_first_rwr = first_rwr,
                      rp_first_rx = first_rx\<rparr>)))"

section \<open>Sizes\<close>

lemma cyclic_request_size: "cl_calculate_cyclic_request_size n = 67 + 76 * n"
  by (simp add: cl_calculate_cyclic_request_size_def cl_consts)

lemma cyclic_response_size: "cl_calculate_cyclic_response_size n = 59 + 72 * n"
  by (simp add: cl_calculate_cyclic_response_size_def cl_consts)

lemma occupied_in_range_iff: "\<not> occupied_out_of_range n \<longleftrightarrow> 1 \<le> n \<and> n \<le> 16"
  by (auto simp: occupied_out_of_range_def cl_consts)

lemma number_of_occupied_exact:
  assumes "n < 65536"
  shows "unat (cl_calculate_number_of_occupied_stations (of_nat (59 + 72 * n))) = n"
proof -
  define s :: u64 where "s = of_nat (59 + 72 * n)"
  define k :: u16 where "k = ucast ((s - 59) div 72 AND 0xFFFF)"
  have low: "unat (w AND 0xFFFF) = unat w mod 65536" for w :: u64
    using and_low_bits [of w 16] by (simp add: mask_eq_exp_minus_1)
  have "unat (s - 59) = 72 * n"
  proof -
    have "s - 59 = of_nat (72 * n)" by (simp add: s_def)
    then show ?thesis using assms by (simp add: size_word_nat del: of_nat_mult)
  qed
  then have "unat ((s - 59) div 72 AND 0xFFFF) = n"
    using assms by (simp add: low unat_div)
  then have k: "unat k = n"
    using assms by (simp add: k_def unsigned_ucast_eq take_bit_nat_eq_self)
  have "cl_calculate_number_of_occupied_stations s =
      (if s - of_nat (cl_calculate_cyclic_response_size (unat k)) \<noteq> 0 then 0 else k)"
    unfolding cl_calculate_number_of_occupied_stations_def Let_def k_def by (rule refl)
  also have "\<dots> = k" by (simp add: k cyclic_response_size s_def)
  finally show ?thesis using k by (simp only: s_def)
qed

lemma number_of_occupied_only_exact:
  assumes "cl_calculate_number_of_occupied_stations s \<noteq> 0"
  shows "unat s = 59 + 72 * unat (cl_calculate_number_of_occupied_stations s)"
proof -
  let ?n = "cl_calculate_number_of_occupied_stations s"
  have "s - of_nat (cl_calculate_cyclic_response_size (unat ?n)) = 0"
    using assms unfolding cl_calculate_number_of_occupied_stations_def Let_def
    by (auto split: if_splits)
  then have "s = of_nat (59 + 72 * unat ?n)" by (simp add: cyclic_response_size)
  moreover have "59 + 72 * unat ?n < 2 ^ 64" using unat_less_pow(1) [of ?n] by simp
  ultimately show ?thesis using size_word_nat [of "59 + 72 * unat ?n"] by (simp del: of_nat_add of_nat_mult)
qed

section \<open>Station bits\<close>

lemma extract_transmission_bit:
  "cl_iefb_extract_my_transmission_state w n \<longleftrightarrow> 1 \<le> n \<and> n \<le> 16 \<and> bit w (n - 1)"
  using occupied_in_range_iff [of n] bit_single [of w "n - 1"]
  by (auto simp: cl_iefb_extract_my_transmission_state_def Let_def)

lemma bit_set_transmission:
  "bit (cl_iefb_set_cyclic_transmission_state w n v) i \<longleftrightarrow>
     (if 1 \<le> n \<and> n \<le> 16 \<and> i = n - 1 then v else bit w i)"
  by (auto simp: cl_iefb_set_cyclic_transmission_state_def cl_consts Let_def bit_simps
      dest: bit_imp_le_length)

lemma extract_set_transmission:
  "cl_iefb_extract_my_transmission_state (cl_iefb_set_cyclic_transmission_state w n v) m \<longleftrightarrow>
     (if m = n \<and> 1 \<le> n \<and> n \<le> 16 then v else cl_iefb_extract_my_transmission_state w m)"
  by (auto simp: extract_transmission_bit bit_set_transmission)

section \<open>Total timeout\<close>

lemma total_timeout_exact:
  "unat (cl_calculate_total_timeout_us tv cnt) =
     (if tv = 0 then 500 else unat tv) * (if cnt = 0 then 3 else unat cnt) * 1000"
proof -
  define t where "t = (if tv < 1 then 500 else ucast tv :: u32)"
  define c where "c = (if cnt < 1 then 3 else ucast cnt :: u32)"
  have z: "x < 1 \<longleftrightarrow> x = 0" for x :: u16 by (simp add: word_less_nat_alt unat_eq_0)
  have u: "unat (ucast x :: u32) = unat x" for x :: u16
    using unat_less_pow(1) [of x] by (simp add: unsigned_ucast_eq take_bit_nat_eq_self)
  have t: "unat t = (if tv = 0 then 500 else unat tv)"
    and c: "unat c = (if cnt = 0 then 3 else unat cnt)"
    by (simp_all add: t_def c_def z u)
  have le: "unat t \<le> 65535" "unat c \<le> 65535"
    using unat_less_pow(1) [of tv] unat_less_pow(1) [of cnt] by (simp_all add: t c)
  then have m: "unat t * unat c \<le> 65535 * 65535" by (rule mult_le_mono)
  then have tc: "unat (t * c) = unat t * unat c" by (simp add: unat_word_ariths)
  have "unat (ucast (t * c) :: u64) = unat t * unat c"
    using m unfolding tc [symmetric] by (simp add: unsigned_ucast_eq take_bit_nat_eq_self)
  then have "unat ((ucast (t * c) :: u64) * 1000) = unat t * unat c * 1000 mod 2 ^ 64"
    by (simp add: unat_word_ariths)
  also have "\<dots> = unat t * unat c * 1000"
    using m by (intro mod_less le_less_trans [OF mult_le_mono1 [OF m]]) simp
  finally have "unat ((ucast (t * c) :: u64) * 1000) = unat t * unat c * 1000" .
  moreover have "cl_calculate_total_timeout_us tv cnt = ucast (t * c) * 1000"
    unfolding cl_calculate_total_timeout_us_def Let_def cl_consts t_def c_def by (rule refl)
  ultimately show ?thesis by (simp only: t c)
qed

section \<open>Bit and register addressing\<close>

lemma bit_area_number:
  assumes "cl_iefb_bit_calculate_areanumber number = (area, byte, m)"
  shows "unat area = unat number div 64" "unat byte = unat number mod 64 div 8"
    "m = push_bit (unat number mod 8) 1"
proof -
  let ?n = "unat number"
  have low3: "unat (w AND 7) = unat w mod 8" for w :: u16
    using and_low_bits [of w 3] by (simp add: mask_eq_exp_minus_1)
  have low8: "(push_bit k 1 AND 0xFF :: u8) = push_bit k 1" for k
    using take_bit_length_eq [of "push_bit k 1 :: u8"] by (simp add: take_bit_eq_mask mask_eq_exp_minus_1)
  have d: "area = drop_bit 6 number" "byte = drop_bit 3 number AND 7"
    "m = push_bit (unat (number AND 7)) 1 AND 0xFF"
    using assms by (simp_all add: cl_iefb_bit_calculate_areanumber_def Let_def)
  show "unat area = ?n div 64" by (simp add: d drop_bit_eq_div unat_div)
  have "unat byte = ?n div 8 mod 8" by (simp add: d low3 drop_bit_eq_div unat_div)
  also have "\<dots> = ?n mod 64 div 8" by (simp add: mod_mult2_eq [of _ 8 8, simplified] div_mult2_eq)
  finally show "unat byte = ?n mod 64 div 8" .
  show "m = push_bit (?n mod 8) 1" by (simp only: d(3) low3 low8)
qed

lemma register_area_number:
  assumes "cl_iefb_register_calculate_areanumber number = (area, reg)"
  shows "unat area = unat number div 32" "unat reg = unat number mod 32"
  using assms and_low_bits [of number 5]
  by (auto simp: cl_iefb_register_calculate_areanumber_def unat_div drop_bit_eq_div
      mask_eq_exp_minus_1)

section \<open>Parsing requests\<close>

lemma request_cyclic_data_offsets:
  "cl_iefb_parse_request_cyclic_data len n = Some (a, b, c) \<longleftrightarrow>
     1 \<le> n \<and> n \<le> 16 \<and> 67 + 76 * n \<le> len \<and> a = 67 \<and> b = 67 + 4 * n \<and> c = 67 + 68 * n"
  using occupied_in_range_iff [of n]
  by (auto simp: cl_iefb_parse_request_cyclic_data_def Let_def cl_consts)

lemma validated_request_headers:
  assumes "cl_iefb_validate_req_full_cyclic_headers h len ip"
  defines "n \<equiv> unat (qdh_slave_total_occupied_station_count (qf_cyclic_data_header h))"
  shows "1 \<le> n" "n \<le> 16" "len = 67 + 76 * n" "unat (rqh_dl (qf_req_header h)) + 9 = len"
    "qdh_master_id (qf_cyclic_data_header h) = ip" "ip \<noteq> 0"
    "1 \<le> unat (qdh_group_no (qf_cyclic_data_header h))"
    "unat (qdh_group_no (qf_cyclic_data_header h)) \<le> 64"
    "cqh_protocol_ver (qf_cyclic_header h) \<in> {1, 2}"
proof -
  have ver: "cl_iefb_validate_master_station_notification (qf_master_station_notification h)
      (cqh_protocol_ver (qf_cyclic_header h))"
    and data: "cl_iefb_validate_req_cyclic_data_header (qf_cyclic_data_header h) ip"
    and frame: "cl_iefb_validate_req_cyclic_frame_size (cqh_protocol_ver (qf_cyclic_header h)) len
      (rqh_dl (qf_req_header h)) n (cqh_cyclic_info_offset_addr (qf_cyclic_header h))"
    using assms by (auto simp: cl_iefb_validate_req_full_cyclic_headers_def n_def split: if_splits)
  show "cqh_protocol_ver (qf_cyclic_header h) \<in> {1, 2}"
    using ver by (auto simp: cl_iefb_validate_master_station_notification_def split: if_splits)
  show "len = 67 + 76 * n" "unat (rqh_dl (qf_req_header h)) + 9 = len"
    using frame by (auto simp: cl_iefb_validate_req_cyclic_frame_size_def cyclic_request_size
        CL_CCIEFB_DL_OFFSET_def split: if_splits)
  show "1 \<le> n" "n \<le> 16" "qdh_master_id (qf_cyclic_data_header h) = ip" "ip \<noteq> 0"
    "1 \<le> unat (qdh_group_no (qf_cyclic_data_header h))"
    "unat (qdh_group_no (qf_cyclic_data_header h)) \<le> 64"
    using data unfolding cl_iefb_validate_req_cyclic_data_header_def n_def Let_def
      occupied_out_of_range_def cl_consts
    by (auto split: if_splits)
qed

lemma parse_request_no_assert:
  "cl_iefb_parse_cyclic_request bs ip port my_ip \<noteq> Assert_Failed"
proof (cases "cl_iefb_parse_req_full_cyclic_headers bs")
  case (Some h)
  let ?n = "unat (qdh_slave_total_occupied_station_count (qf_cyclic_data_header h))"
  show ?thesis
  proof (cases "cl_iefb_validate_req_full_cyclic_headers h (length bs) ip")
    case True
    from validated_request_headers [OF True]
    have "cl_iefb_parse_request_cyclic_data (length bs) ?n = Some (67, 67 + 4 * ?n, 67 + 68 * ?n)"
      by (subst request_cyclic_data_offsets) simp
    then show ?thesis using Some True by (simp add: cl_iefb_parse_cyclic_request_def)
  qed (use Some in \<open>simp add: cl_iefb_parse_cyclic_request_def\<close>)
qed (simp add: cl_iefb_parse_cyclic_request_def)

lemma parse_request_returns: "\<exists>r. cl_iefb_parse_cyclic_request bs ip port my_ip = Returns r"
proof -
  have "cl_iefb_parse_cyclic_request bs ip port my_ip \<noteq> Out_Of_Fuel"
    by (auto simp: cl_iefb_parse_cyclic_request_def Let_def split: option.splits)
  with parse_request_no_assert [of bs ip port my_ip] show ?thesis
    by (cases "cl_iefb_parse_cyclic_request bs ip port my_ip") auto
qed

lemma parse_request_Some:
  assumes "cl_iefb_parse_cyclic_request bs ip port my_ip = Returns (Some r)"
  shows "length bs = 67 + 76 * rq_total_occupied r" "1 \<le> rq_total_occupied r"
    "rq_total_occupied r \<le> 16" "rq_buffer r = bs" "rq_full_headers r = dec_req_full_headers bs 0"
    "rq_first_slave_id r = 67" "rq_first_rww r = Some (67 + 4 * rq_total_occupied r)"
    "rq_first_ry r = Some (67 + 68 * rq_total_occupied r)"
    "rq_remote_ip r = ip" "rq_remote_port r = port" "rq_slave_ip_addr r = my_ip"
    "cl_iefb_validate_req_full_cyclic_headers (rq_full_headers r) (length bs) ip"
proof -
  obtain h where h: "h = dec_req_full_headers bs 0"
      "cl_iefb_validate_req_full_cyclic_headers h (length bs) ip"
    using assms by (auto simp: cl_iefb_parse_cyclic_request_def cl_iefb_parse_req_full_cyclic_headers_def
        split: if_splits)
  let ?n = "unat (qdh_slave_total_occupied_station_count (qf_cyclic_data_header h))"
  from validated_request_headers [OF h(2)]
  have off: "cl_iefb_parse_request_cyclic_data (length bs) ?n = Some (67, 67 + 4 * ?n, 67 + 68 * ?n)"
    by (subst request_cyclic_data_offsets) simp
  have "r = \<lparr>rq_remote_ip = ip, rq_remote_port = port, rq_slave_ip_addr = my_ip, rq_buffer = bs,
      rq_full_headers = h, rq_first_slave_id = 67, rq_first_rww = Some (67 + 4 * ?n),
      rq_first_ry = Some (67 + 68 * ?n)\<rparr>"
    using assms h off by (auto simp: cl_iefb_parse_cyclic_request_def
        cl_iefb_parse_req_full_cyclic_headers_def Let_def split: if_splits)
  then show "length bs = 67 + 76 * rq_total_occupied r" "1 \<le> rq_total_occupied r"
    "rq_total_occupied r \<le> 16" "rq_buffer r = bs" "rq_full_headers r = dec_req_full_headers bs 0"
    "rq_first_slave_id r = 67" "rq_first_rww r = Some (67 + 4 * rq_total_occupied r)"
    "rq_first_ry r = Some (67 + 68 * rq_total_occupied r)"
    "rq_remote_ip r = ip" "rq_remote_port r = port" "rq_slave_ip_addr r = my_ip"
    "cl_iefb_validate_req_full_cyclic_headers (rq_full_headers r) (length bs) ip"
    using validated_request_headers [OF h(2)] h by (simp_all add: rq_total_occupied_def)
qed

lemma parsed_request_areas_in_bounds:
  assumes "cl_iefb_parse_cyclic_request bs ip port my_ip = Returns (Some r)"
  shows "cl_iefb_request_get_rww r k = Some i \<Longrightarrow> 67 + 4 * rq_total_occupied r \<le> i \<and> i + 64 \<le> 67 + 68 * rq_total_occupied r"
    and "cl_iefb_request_get_ry r k = Some j \<Longrightarrow> 67 + 68 * rq_total_occupied r \<le> j \<and> j + 8 \<le> length bs"
  using parse_request_Some [OF assms]
  by (auto simp: cl_iefb_request_get_rww_def cl_iefb_request_get_ry_def cl_consts
      occupied_out_of_range_def split: if_splits)

section \<open>Slave ids\<close>

definition request_slave_ids :: "bytes \<Rightarrow> nat \<Rightarrow> nat \<Rightarrow> u32 list" where
  "request_slave_ids buffer first tot = map (\<lambda>k. le32_at buffer (first + 4 * k)) [0..<tot]"

lemma request_slave_ids_station:
  "1 \<le> n \<Longrightarrow> n \<le> tot \<Longrightarrow> tot \<le> 16 \<Longrightarrow>
   cl_iefb_request_get_slave_id buf first n tot = Some (request_slave_ids buf first tot ! (n - 1))"
  by (cases n) (simp_all add: cl_iefb_request_get_slave_id_def request_slave_ids_def
      occupied_out_of_range_def cl_consts mult.commute)

text \<open>The search, over the list of ids.\<close>

fun analyze_ids :: "u32 \<Rightarrow> u32 list \<Rightarrow> nat \<Rightarrow> bool \<Rightarrow> bool \<Rightarrow> nat \<Rightarrow> nat \<Rightarrow> (bool \<times> nat \<times> nat) option" where
  "analyze_ids my [] pos found look station count = Some (found, station, count)"
| "analyze_ids my (x # xs) pos found look station count =
     (if x = my then (if \<not> found then analyze_ids my xs (pos + 1) True True pos 1 else None)
      else if look then
        (if x = - 1 then analyze_ids my xs (pos + 1) found look station (count + 1)
         else analyze_ids my xs (pos + 1) found False station count)
      else analyze_ids my xs (pos + 1) found look station count)"

lemma analyze_loop_ids:
  assumes "1 \<le> pos" "pos + length xs = tot + 1" "tot \<le> 16"
    and "xs = drop (pos - 1) (request_slave_ids buf first tot)"
  shows "analyze_loop my tot buf first [pos..<tot + 1] found look station count =
    analyze_ids my xs pos found look station count"
  using assms
proof (induction xs arbitrary: pos found look station count)
  case Nil
  then show ?case by simp
next
  case (Cons x xs)
  have lt: "pos < tot + 1" using Cons.prems(2) by simp
  have x: "request_slave_ids buf first tot ! (pos - 1) = x"
    using Cons.prems by (metis hd_drop_conv_nth list.sel(1) drop_eq_Nil list.distinct(1) not_le)
  have get: "cl_iefb_request_get_slave_id buf first pos tot = Some x"
    using request_slave_ids_station [of pos tot buf first] Cons.prems lt x by simp
  have tl: "xs = drop (pos + 1 - 1) (request_slave_ids buf first tot)"
    using Cons.prems drop_Suc [of "pos - 1" "request_slave_ids buf first tot"]
      tl_drop [of "pos - 1" "request_slave_ids buf first tot"]
    by (cases pos) (auto dest: sym)
  have up: "[pos..<tot + 1] = pos # [pos + 1..<tot + 1]"
    using lt by (simp add: upt_conv_Cons)
  have IH: "analyze_loop my tot buf first [pos + 1..<tot + 1] f l s c = analyze_ids my xs (pos + 1) f l s c" for f l s c
    by (rule Cons.IH) (use Cons.prems tl in auto)
  show ?case
    unfolding up by (simp add: get IH [unfolded Suc_eq_plus1 [symmetric]] CL_CCIEFB_MULTISTATION_INDICATOR_def del: upt_Suc)
qed

lemma analyze_ids_skip:
  "my \<notin> set xs \<Longrightarrow> analyze_ids my (xs @ ys) pos found False s c =
     analyze_ids my ys (pos + length xs) found False s c"
  by (induction xs arbitrary: pos) auto

lemma analyze_ids_look:
  "my \<notin> set xs \<Longrightarrow> analyze_ids my xs pos found True s c =
     Some (found, s, c + length (takeWhile (\<lambda>x. x = - 1) xs))"
proof (induction xs arbitrary: pos c)
  case (Cons x xs)
  then show ?case using analyze_ids_skip [of my xs "[]"] by auto
qed simp

lemma analyze_ids_repeated:
  "my \<in> set xs \<Longrightarrow> analyze_ids my xs pos True l s c = None"
  by (induction xs arbitrary: pos l c) auto

lemma analyze_ids_spec:
  shows "my \<notin> set ids \<Longrightarrow> analyze_ids my ids 1 False False 0 0 = Some (False, 0, 0)"
    and "ids = xs @ my # ys \<Longrightarrow> my \<notin> set xs \<Longrightarrow> my \<notin> set ys \<Longrightarrow>
      analyze_ids my ids 1 False False 0 0 =
        Some (True, length xs + 1, 1 + length (takeWhile (\<lambda>x. x = - 1) ys))"
    and "ids = xs @ my # ys \<Longrightarrow> my \<notin> set xs \<Longrightarrow> my \<in> set ys \<Longrightarrow>
      analyze_ids my ids 1 False False 0 0 = None"
  using analyze_ids_skip [of my ids "[]"] analyze_ids_skip [of my xs "my # ys" 1]
  by (simp_all add: analyze_ids_look analyze_ids_repeated)

lemma analyze_slave_ids_eq:
  assumes "my \<noteq> 0" "1 \<le> tot" "tot \<le> 16"
  shows "cl_iefb_analyze_slave_ids my tot buf first =
    analyze_ids my (request_slave_ids buf first tot) 1 False False 0 0"
  using assms analyze_loop_ids [of 1 "request_slave_ids buf first tot" tot buf first my]
  by (simp add: cl_iefb_analyze_slave_ids_def cl_consts request_slave_ids_def del: upt_Suc)

section \<open>Building requests\<close>

definition request_frame_wf :: "clm_cciefb_cyclic_request_info \<Rightarrow> nat \<Rightarrow> bool" where
  "request_frame_wf f n \<longleftrightarrow> mq_udp_payload_len f = 67 + 76 * n \<and> mq_udp_payload_len f \<le> length (mq_buffer f) \<and>
     mq_first_slave_id f = 67 \<and> mq_first_rww f = 67 + 4 * n \<and> mq_first_ry f = 67 + 68 * n"

lemma length_enc_req_full:
  "length (cqh_reserved2 (qf_cyclic_header h)) = 14 \<Longrightarrow> length (enc_req_full_headers h) = 67"
  using qf.length_enc by (simp add: sizeof_defs)

lemma reserved2_initial: "length (cqh_reserved2 (qf_cyclic_header (initial_request_headers l v t c m g n p))) = 14"
  by (simp add: initial_request_headers_def)

lemma initialise_request_frame_ok:
  assumes "67 + 76 * n \<le> buf_size"
  shows "\<exists>f. cl_iefb_initialise_request_frame buf_size v t c m g n p = Returns f \<and> request_frame_wf f n \<and>
    length (mq_buffer f) = buf_size \<and>
    dec_req_full_headers (mq_buffer f) 0 = initial_request_headers (67 + 76 * n) v t c m g n p \<and>
    drop 67 (mq_buffer f) = replicate (buf_size - 67) 0"
  using assms
    qf.dec_put [of "initial_request_headers (67 + 76 * n) v t c m g n p" 0 "replicate buf_size 0"]
  by (simp add: cl_iefb_initialise_request_frame_def cyclic_request_size request_frame_wf_def
      length_enc_req_full reserved2_initial sizeof_defs cl_consts Let_def drop_put_bytes_after)

lemma initialise_request_frame_assert:
  "buf_size < 67 + 76 * n \<Longrightarrow> cl_iefb_initialise_request_frame buf_size v t c m g n p = Assert_Failed"
  by (simp add: cl_iefb_initialise_request_frame_def cyclic_request_size Let_def)

definition updated_request_headers ::
  "cl_cciefb_cyclic_req_full_headers \<Rightarrow> u16 \<Rightarrow> u64 \<Rightarrow> u16 \<Rightarrow> u16 \<Rightarrow> cl_cciefb_cyclic_req_full_headers" where
  "updated_request_headers h sqn clock unit_info trs =
     h\<lparr>qf_master_station_notification := (qf_master_station_notification h)
         \<lparr>mn_master_local_unit_info := unit_info, mn_clock_info := clock\<rparr>,
       qf_cyclic_data_header := (qf_cyclic_data_header h)
         \<lparr>qdh_frame_sequence_no := sqn, qdh_cyclic_transmission_state := trs\<rparr>\<rparr>"

lemma update_request_frame_headers_ok:
  assumes "request_frame_wf f n"
    and f'_def: "f' = cl_iefb_update_request_frame_headers f sqn clock unit_info trs"
  shows "request_frame_wf f' n" "length (mq_buffer f') = length (mq_buffer f)"
    "dec_req_full_headers (mq_buffer f') 0 =
       updated_request_headers (dec_req_full_headers (mq_buffer f) 0) sqn clock unit_info trs"
    "drop 67 (mq_buffer f') = drop 67 (mq_buffer f)"
proof -
  let ?h = "updated_request_headers (dec_req_full_headers (mq_buffer f) 0) sqn clock unit_info trs"
  have f': "f' = f\<lparr>mq_buffer := put_bytes (mq_buffer f) 0 (enc_req_full_headers ?h)\<rparr>"
    by (simp add: f'_def cl_iefb_update_request_frame_headers_def updated_request_headers_def Let_def)
  have le: "67 \<le> length (mq_buffer f)" using assms(1) by (simp add: request_frame_wf_def)
  have wf: "length (cqh_reserved2 (qf_cyclic_header ?h)) = 14"
    using le qf.wf_dec [of 0 "mq_buffer f"] by (simp add: updated_request_headers_def sizeof_defs)
  show len: "length (mq_buffer f') = length (mq_buffer f)"
    using le by (simp add: f' length_enc_req_full [OF wf])
  show "request_frame_wf f' n" using assms(1) len by (simp add: f' request_frame_wf_def)
  show "dec_req_full_headers (mq_buffer f') 0 = ?h"
    using le qf.dec_put [OF wf, of 0 "mq_buffer f"] by (simp add: f' sizeof_defs)
  show "drop 67 (mq_buffer f') = drop 67 (mq_buffer f)"
    using le by (simp add: f' length_enc_req_full [OF wf] drop_put_bytes_after)
qed

lemma parse_valid_request:
  assumes "length bs = 67 + 76 * n" "1 \<le> n" "n \<le> 16"
    and "dec_req_full_headers bs 0 = h"
    and "cl_iefb_validate_req_full_cyclic_headers h (67 + 76 * n) ip"
    and "unat (qdh_slave_total_occupied_station_count (qf_cyclic_data_header h)) = n"
  shows "cl_iefb_parse_cyclic_request bs ip port my_ip =
    Returns (Some \<lparr>rq_remote_ip = ip, rq_remote_port = port, rq_slave_ip_addr = my_ip,
      rq_buffer = bs, rq_full_headers = h, rq_first_slave_id = 67, rq_first_rww = Some (67 + 4 * n),
      rq_first_ry = Some (67 + 68 * n)\<rparr>)"
proof -
  have "cl_iefb_parse_request_cyclic_data (67 + 76 * n) n = Some (67, 67 + 4 * n, 67 + 68 * n)"
    using assms by (subst request_cyclic_data_offsets) simp
  then show ?thesis
    using assms by (simp add: cl_iefb_parse_cyclic_request_def cl_iefb_parse_req_full_cyclic_headers_def
        sizeof_defs)
qed

lemma parse_built_request:
  assumes "request_frame_wf f n" "1 \<le> n" "n \<le> 16"
    and "dec_req_full_headers (mq_buffer f) 0 = h"
    and "cl_iefb_validate_req_full_cyclic_headers h (67 + 76 * n) ip"
    and "unat (qdh_slave_total_occupied_station_count (qf_cyclic_data_header h)) = n"
  shows "cl_iefb_parse_cyclic_request (take (mq_udp_payload_len f) (mq_buffer f)) ip port my_ip =
    Returns (Some \<lparr>rq_remote_ip = ip, rq_remote_port = port, rq_slave_ip_addr = my_ip,
      rq_buffer = take (mq_udp_payload_len f) (mq_buffer f), rq_full_headers = h,
      rq_first_slave_id = mq_first_slave_id f, rq_first_rww = Some (mq_first_rww f),
      rq_first_ry = Some (mq_first_ry f)\<rparr>)"
proof -
  have "dec_req_full_headers (take (mq_udp_payload_len f) (mq_buffer f)) 0 = h"
    using assms(1,4) qf.dec_take [of 0 "mq_udp_payload_len f" "mq_buffer f"]
    by (simp add: request_frame_wf_def sizeof_defs)
  then show ?thesis
    using assms parse_valid_request [of "take (mq_udp_payload_len f) (mq_buffer f)" n h ip port my_ip]
    by (simp add: request_frame_wf_def)
qed

lemma initial_request_valid:
  assumes "v \<in> {1, 2}" "1 \<le> n" "n \<le> 16" "1 \<le> unat g" "unat g \<le> 64" "m \<noteq> 0"
    and "u AND (if v = 1 then 0xFFFE else 0xFFFC) = 0"
  shows "cl_iefb_validate_req_full_cyclic_headers
    (updated_request_headers (initial_request_headers (67 + 76 * n) v t c m g n p) s ck u tr) (67 + 76 * n) m"
proof -
  have g: "unat (ucast (g AND 0xFF) :: u8) = unat g"
    using assms(5) and_low_bits [of g 8] by (simp add: unsigned_ucast_eq mask_eq_exp_minus_1 take_bit_nat_eq_self)
  have dl: "unat (of_nat (58 + 76 * n) :: u16) = 58 + 76 * n" "unat (of_nat n :: u16) = n"
    using assms by (auto intro!: unat_of_nat_u16 simp del: of_nat_add of_nat_mult)
  have v: "\<not> protocol_ver_unsupported v" using assms by (auto simp: protocol_ver_unsupported_def cl_consts)
  show ?thesis
    unfolding cl_iefb_validate_req_full_cyclic_headers_def
    using assms v g dl
    by (auto simp: cl_iefb_validate_cyclic_request_header_def updated_request_headers_def
        initial_request_headers_def cl_iefb_validate_master_station_notification_def
        cl_iefb_validate_req_cyclic_data_header_def Let_def occupied_out_of_range_def
        cl_iefb_validate_req_cyclic_frame_size_def cyclic_request_size cl_consts
        list_all_iff simp del: of_nat_add of_nat_mult)
qed

section \<open>Responses\<close>

definition updated_response_headers ::
  "cl_cciefb_cyclic_resp_full_headers \<Rightarrow> u32 \<Rightarrow> u16 \<Rightarrow> u16 \<Rightarrow> u16 \<Rightarrow> u16 \<Rightarrow> u16 \<Rightarrow> u32 \<Rightarrow>
   cl_cciefb_cyclic_resp_full_headers" where
  "updated_response_headers h slave_id end_code group_no sqn unit_info err_code man_info =
     h\<lparr>sf_cyclic_header := (sf_cyclic_header h)\<lparr>csh_end_code := end_code\<rparr>,
       sf_slave_station_notification := (sf_slave_station_notification h)
         \<lparr>sn_slave_local_unit_info := unit_info, sn_slave_err_code := err_code,
          sn_local_management_info := man_info\<rparr>,
       sf_cyclic_data_header := (sf_cyclic_data_header h)
         \<lparr>sdh_slave_id := slave_id, sdh_group_no := ucast (group_no AND 0xFF),
          sdh_frame_sequence_no := sqn\<rparr>\<rparr>"

text \<open>The headers of a response frame of the slave: only the fields that are updated before sending vary.\<close>

definition response_headers_ok :: "cl_cciefb_cyclic_resp_full_headers \<Rightarrow> nat \<Rightarrow> bool" where
  "response_headers_ok h n \<longleftrightarrow> (\<exists>vendor model equip slave_id ec grp sqn ui err man.
     h = updated_response_headers (initial_response_headers (59 + 72 * n) vendor model equip)
           slave_id ec grp sqn ui err man)"

definition response_frame_wf :: "cls_cciefb_cyclic_response_info \<Rightarrow> nat \<Rightarrow> bool" where
  "response_frame_wf f n \<longleftrightarrow> sr_udp_payload_len f = 59 + 72 * n \<and>
     sr_udp_payload_len f \<le> length (sr_buffer f) \<and> sr_first_rwr f = 59 \<and> sr_first_rx f = 59 + 64 * n \<and>
     response_headers_ok (dec_resp_full_headers (sr_buffer f) 0) n"

lemma updated_response_headers_twice:
  "updated_response_headers (updated_response_headers h a b c d e f g) a' b' c' d' e' f' g' =
     updated_response_headers h a' b' c' d' e' f' g'"
  by (simp add: updated_response_headers_def)

lemma response_headers_ok_update:
  "response_headers_ok h n \<Longrightarrow> response_headers_ok (updated_response_headers h a b c d e f g) n"
  unfolding response_headers_ok_def using updated_response_headers_twice by metis

lemma response_headers_ok_initial:
  "response_headers_ok (initial_response_headers (59 + 72 * n) v m e) n"
proof -
  have "initial_response_headers l v m e = updated_response_headers (initial_response_headers l v m e) 0 0 0 0 1 0 0" for l
    by (simp add: updated_response_headers_def initial_response_headers_def cl_consts)
  then show ?thesis unfolding response_headers_ok_def by blast
qed

text \<open>Writing cyclic data does not touch the headers.\<close>

lemma response_frame_wf_data:
  assumes "response_frame_wf f n" "length buf = length (sr_buffer f)" "take 59 buf = take 59 (sr_buffer f)"
  shows "response_frame_wf (f\<lparr>sr_buffer := buf\<rparr>) n"
proof -
  have "dec_resp_full_headers buf 0 = dec_resp_full_headers (sr_buffer f) 0"
    using assms by (intro sf.dec_local) (simp_all add: response_frame_wf_def sizeof_defs)
  then show ?thesis using assms by (simp add: response_frame_wf_def)
qed

lemma length_enc_resp_full:
  "length (csh_reserved1 (sf_cyclic_header h)) = 14 \<Longrightarrow> length (enc_resp_full_headers h) = 59"
  using sf.length_enc by (simp add: sizeof_defs)

lemma reserved1_initial: "length (csh_reserved1 (sf_cyclic_header (initial_response_headers l v m e))) = 14"
  by (simp add: initial_response_headers_def)

lemma initialise_response_frame_ok:
  assumes "59 + 72 * n \<le> buf_size"
  shows "\<exists>f. cl_iefb_initialise_cyclic_response_frame buf_size n v m e = Returns f \<and> response_frame_wf f n \<and>
    length (sr_buffer f) = buf_size \<and>
    dec_resp_full_headers (sr_buffer f) 0 = initial_response_headers (59 + 72 * n) v m e \<and>
    drop 59 (sr_buffer f) = replicate (buf_size - 59) 0"
  using assms
    sf.dec_put [of "initial_response_headers (59 + 72 * n) v m e" 0 "replicate buf_size 0"]
  by (simp add: cl_iefb_initialise_cyclic_response_frame_def cyclic_response_size response_frame_wf_def
      length_enc_resp_full reserved1_initial response_headers_ok_initial sizeof_defs cl_consts Let_def
      drop_put_bytes_after)

lemma update_response_frame_ok:
  assumes "response_frame_wf f n"
    and f'_def: "f' = cl_iefb_update_cyclic_response_frame f slave_id ec grp sqn ui err man"
  shows "response_frame_wf f' n" "length (sr_buffer f') = length (sr_buffer f)"
    "dec_resp_full_headers (sr_buffer f') 0 =
       updated_response_headers (dec_resp_full_headers (sr_buffer f) 0) slave_id ec grp sqn ui err man"
    "drop 59 (sr_buffer f') = drop 59 (sr_buffer f)"
proof -
  let ?h = "updated_response_headers (dec_resp_full_headers (sr_buffer f) 0) slave_id ec grp sqn ui err man"
  have f': "f' = f\<lparr>sr_buffer := put_bytes (sr_buffer f) 0 (enc_resp_full_headers ?h)\<rparr>"
    by (simp add: f'_def cl_iefb_update_cyclic_response_frame_def updated_response_headers_def Let_def)
  have le: "59 \<le> length (sr_buffer f)" using assms(1) by (simp add: response_frame_wf_def)
  have wf: "length (csh_reserved1 (sf_cyclic_header ?h)) = 14"
    using le sf.wf_dec [of 0 "sr_buffer f"] by (simp add: updated_response_headers_def sizeof_defs)
  show len: "length (sr_buffer f') = length (sr_buffer f)"
    using le by (simp add: f' length_enc_resp_full [OF wf])
  show dec: "dec_resp_full_headers (sr_buffer f') 0 = ?h"
    using le sf.dec_put [OF wf, of 0 "sr_buffer f"] by (simp add: f' sizeof_defs)
  show "response_frame_wf f' n"
    using assms(1) len dec by (simp add: f' response_frame_wf_def response_headers_ok_update)
  show "drop 59 (sr_buffer f') = drop 59 (sr_buffer f)"
    using le by (simp add: f' length_enc_resp_full [OF wf] drop_put_bytes_after)
qed

lemma response_cyclic_data_offsets:
  "cl_iefb_parse_response_cyclic_data len n = Some (a, b) \<longleftrightarrow>
     1 \<le> n \<and> n \<le> 16 \<and> 59 + 72 * n \<le> len \<and> a = 59 \<and> b = 59 + 64 * n"
  using occupied_in_range_iff [of n]
  by (auto simp: cl_iefb_parse_response_cyclic_data_def Let_def cl_consts)

lemma parse_valid_response:
  assumes "length bs = 59 + 72 * n" "1 \<le> n" "n \<le> 16"
    and "dec_resp_full_headers bs 0 = h"
    and "cl_iefb_validate_resp_full_cyclic_headers h (59 + 72 * n) ip"
  shows "cl_iefb_parse_cyclic_response bs ip port now =
    Returns (Some \<lparr>rp_remote_port = port, rp_remote_ip = ip, rp_number_of_occupied = n,
      rp_reception_timestamp = now, rp_device_index = 0, rp_buffer = bs, rp_full_headers = h,
      rp_first_rwr = 59, rp_first_rx = 59 + 64 * n\<rparr>)"
proof -
  have "cl_iefb_parse_response_cyclic_data (59 + 72 * n) n = Some (59, 59 + 64 * n)"
    using assms by (subst response_cyclic_data_offsets) simp
  moreover have "unat (cl_calculate_number_of_occupied_stations (of_nat (length bs))) = n"
    using assms number_of_occupied_exact [of n] by (simp del: of_nat_add of_nat_mult)
  ultimately show ?thesis
    using assms by (simp add: cl_iefb_parse_cyclic_response_def
        cl_iefb_parse_resp_full_cyclic_headers_def sizeof_defs Let_def del: of_nat_add of_nat_mult)
qed

lemma initial_response_valid:
  assumes "n \<le> 16" "1 \<le> unat g" "unat g \<le> 64" "ip \<noteq> 0" "u \<in> {0, 1}"
  shows "cl_iefb_validate_resp_full_cyclic_headers
    (updated_response_headers (initial_response_headers (59 + 72 * n) v m e) ip ec g s u err man)
    (59 + 72 * n) ip"
proof -
  have g: "unat (ucast (g AND 0xFF) :: u8) = unat g"
    using assms(3) and_low_bits [of g 8]
    by (simp add: unsigned_ucast_eq mask_eq_exp_minus_1 take_bit_nat_eq_self)
  have "(of_nat (59 + 72 * n) - of_nat 9 :: u16) = of_nat (50 + 72 * n)" by simp
  then have dl: "unat (of_nat (59 + 72 * n) - of_nat 9 :: u16) = 50 + 72 * n"
    using assms unat_of_nat_u16 [of "50 + 72 * n"] by simp
  show ?thesis
    unfolding cl_iefb_validate_resp_full_cyclic_headers_def
    using assms g dl
    by (auto simp: cl_iefb_validate_cyclic_resp_header_def updated_response_headers_def
        initial_response_headers_def cl_iefb_validate_slave_station_notification_def
        cl_iefb_validate_resp_cyclic_data_header_def Let_def protocol_ver_unsupported_def
        cl_iefb_validate_resp_cyclic_frame_size_def cl_consts list_all_iff
        simp del: of_nat_add of_nat_mult of_nat_numeral)
qed

lemma parse_response_assert_iff:
  assumes "length bs < 2 ^ 64"
  shows "cl_iefb_parse_cyclic_response bs ip port now = Assert_Failed \<longleftrightarrow>
    cl_iefb_validate_resp_full_cyclic_headers (dec_resp_full_headers bs 0) (length bs) ip \<and>
    (\<exists>n > 16. n < 65536 \<and> length bs = 59 + 72 * n)"
    (is "?l \<longleftrightarrow> ?v \<and> ?r")
proof (cases "59 \<le> length bs \<and> ?v")
  case False
  then show ?thesis
    by (auto simp: cl_iefb_parse_cyclic_response_def cl_iefb_parse_resp_full_cyclic_headers_def sizeof_defs)
next
  case True
  let ?k = "unat (cl_calculate_number_of_occupied_stations (of_nat (length bs)))"
  have k0: "?k \<noteq> 0 \<Longrightarrow> length bs = 59 + 72 * ?k"
    using number_of_occupied_only_exact [of "of_nat (length bs)"] size_word_nat [OF assms] unat_eq_0 by metis
  have k1: "length bs = 59 + 72 * n \<Longrightarrow> n < 65536 \<Longrightarrow> ?k = n" for n
    using number_of_occupied_exact [of n] by simp
  have "?l \<longleftrightarrow> ?k \<noteq> 0 \<and> cl_iefb_parse_response_cyclic_data (length bs) ?k = None"
    using True by (auto simp: cl_iefb_parse_cyclic_response_def cl_iefb_parse_resp_full_cyclic_headers_def
        sizeof_defs Let_def split: option.splits)
  also have "\<dots> \<longleftrightarrow> 16 < ?k"
    using k0 response_cyclic_data_offsets [of "length bs" ?k 59 "59 + 64 * ?k"] 
      response_cyclic_data_offsets [of "length bs" ?k]
    by (cases "cl_iefb_parse_response_cyclic_data (length bs) ?k") force+
  also have "\<dots> \<longleftrightarrow> ?r"
    using k0 k1 unat_less_pow(1) by (metis gr_implies_not0)
  finally show ?thesis using True by blast
qed

end
