(* ===== verification/CLM_Config.thy ===== *)
theory CLM_Config
  imports CL_IEFB
begin

text \<open>
  The configuration of the master stack (\<open>include/clm_api.h\<close>) and its validation before start-up
  (\<open>src/master/clm_master.c\<close>): ranges of every setting and absence of duplicate slave addresses.

  The build options \<open>CLM_MAX_GROUPS\<close> and \<open>CLM_MAX_OCCUPIED_STATIONS_PER_GROUP\<close> are arguments; the
  preprocessor checks of \<open>clm_master.c\<close> bound them, see \<open>options_ok\<close>. Arrays are lists, of which the
  first \<open>num_slave_devices\<close> or \<open>number_of_groups\<close> elements are in use. Sums in 16 bit variables are
  written with their wrap-around.
\<close>

section \<open>Settings\<close>

record clm_slave_device_setting =
  sd_slave_id :: u32
  sd_num_occupied_stations :: nat
  sd_reserved_slave_device :: bool

record clm_group_setting =
  gs_timeout_value :: u16
  gs_parallel_off_timeout_count :: u16
  gs_use_constant_link_scan_time :: bool
  gs_num_slave_devices :: nat
  gs_slave_devices :: "clm_slave_device_setting list"

record clm_slave_hierarchy =
  hi_number_of_groups :: nat
  hi_groups :: "clm_group_setting list"

record clm_cfg =
  mc_state_cb :: bool
  mc_connect_cb :: bool
  mc_disconnect_cb :: bool
  mc_linkscan_cb :: bool
  mc_alarm_cb :: bool
  mc_error_cb :: bool
  mc_changed_slave_info_cb :: bool
  mc_node_search_cfm_cb :: bool
  mc_set_ip_cfm_cb :: bool
  mc_hier :: clm_slave_hierarchy
  mc_protocol_ver :: u16
  mc_arbitration_time :: u16
  mc_callback_time_node_search :: u16
  mc_callback_time_set_ip :: u16
  mc_max_statistics_samples :: u16
  mc_use_separate_arbitration_socket :: bool
  mc_use_slmp_directed_broadcast :: bool
  mc_use_single_slmp_socket :: bool
  mc_master_id :: u32

definition options_ok :: "nat \<Rightarrow> nat \<Rightarrow> bool" where
  "options_ok max_groups max_stations \<longleftrightarrow>
     CL_CCIEFB_MIN_GROUP_NO \<le> max_groups \<and> max_groups \<le> CL_CCIEFB_MAX_GROUP_NO \<and>
     CL_CCIEFB_MIN_OCCUPIED_STATIONS_PER_GROUP \<le> max_stations \<and>
     max_stations \<le> CL_CCIEFB_MAX_OCCUPIED_STATIONS_PER_GROUP"

definition CL_CCIEFB_MAX_TIMEOUT_CONSTANT_LINKSCAN :: u16 where
  "CL_CCIEFB_MAX_TIMEOUT_CONSTANT_LINKSCAN = 2000"
definition CL_CCIEFB_MAX_OCCUPIED_STATIONS_FOR_ALL_GROUPS :: nat where
  "CL_CCIEFB_MAX_OCCUPIED_STATIONS_FOR_ALL_GROUPS = 64"

text \<open>The devices of a group and the groups of a configuration that are in use.\<close>

definition devices_of :: "clm_group_setting \<Rightarrow> clm_slave_device_setting list" where
  "devices_of gs = take (gs_num_slave_devices gs) (gs_slave_devices gs)"

definition groups_of :: "clm_cfg \<Rightarrow> clm_group_setting list" where
  "groups_of cfg = take (hi_number_of_groups (mc_hier cfg)) (hi_groups (mc_hier cfg))"

definition add16 :: "nat \<Rightarrow> nat \<Rightarrow> nat" where
  "add16 a b = (a + b) mod 2 ^ 16"

section \<open>Validation\<close>

text \<open>
  The loop over the devices of a group carries the number of stations of the group and of all groups
  so far; \<open>None\<close> is the early return with an error.
\<close>

fun validate_devices ::
  "nat \<Rightarrow> u32 \<Rightarrow> clm_slave_device_setting list \<Rightarrow> nat \<Rightarrow> nat \<Rightarrow> (nat \<times> nat) option" where
  "validate_devices max_stations master_id [] per_group all_groups = Some (per_group, all_groups)"
| "validate_devices max_stations master_id (d # ds) per_group all_groups =
     (if \<not> cl_utils_is_ipaddr_range_valid (sd_slave_id d) then None
      else if sd_slave_id d = master_id then None
      else if sd_num_occupied_stations d = 0 \<or> sd_num_occupied_stations d > max_stations then None
      else validate_devices max_stations master_id ds
             (add16 per_group (sd_num_occupied_stations d)) (add16 all_groups (sd_num_occupied_stations d)))"

fun validate_groups :: "nat \<Rightarrow> u32 \<Rightarrow> clm_group_setting list \<Rightarrow> nat \<Rightarrow> nat option" where
  "validate_groups max_stations master_id [] all_groups = Some all_groups"
| "validate_groups max_stations master_id (gs # rest) all_groups =
     (if gs_timeout_value gs < CL_CCIEFB_MIN_TIMEOUT then None
      else if gs_use_constant_link_scan_time gs \<and>
              gs_timeout_value gs > CL_CCIEFB_MAX_TIMEOUT_CONSTANT_LINKSCAN then None
      else if gs_parallel_off_timeout_count gs < CL_CCIEFB_MIN_TIMEOUT_COUNT then None
      else if gs_num_slave_devices gs = 0 \<or> gs_num_slave_devices gs > max_stations then None
      else case validate_devices max_stations master_id (devices_of gs) 0 all_groups of
             None \<Rightarrow> None
           | Some (per_group, all_groups) \<Rightarrow>
               if per_group > max_stations then None
               else validate_groups max_stations master_id rest all_groups)"

definition clm_validate_config :: "nat \<Rightarrow> nat \<Rightarrow> clm_cfg option \<Rightarrow> bool" where
  "clm_validate_config max_groups max_stations config =
     (case config of None \<Rightarrow> False
      | Some cfg \<Rightarrow>
          if protocol_ver_unsupported (mc_protocol_ver cfg) then False
          else if \<not> cl_utils_is_ipaddr_range_valid (mc_master_id cfg) then False
          else if hi_number_of_groups (mc_hier cfg) < CL_CCIEFB_MIN_GROUP_NO \<or>
                  hi_number_of_groups (mc_hier cfg) > max_groups then False
          else case validate_groups max_stations (mc_master_id cfg) (groups_of cfg) 0 of
                 None \<Rightarrow> False
               | Some all_groups \<Rightarrow> all_groups \<le> CL_CCIEFB_MAX_OCCUPIED_STATIONS_FOR_ALL_GROUPS)"

definition clm_validate_config_duplicates :: "clm_cfg \<Rightarrow> bool" where
  "clm_validate_config_duplicates cfg =
     (let n = hi_number_of_groups (mc_hier cfg); groups = hi_groups (mc_hier cfg) in
      list_all (\<lambda>gi. list_all (\<lambda>sdi.
        list_all (\<lambda>inner_gi. list_all (\<lambda>inner_sdi.
            (inner_gi = gi \<and> inner_sdi = sdi) \<or>
            sd_slave_id (gs_slave_devices (groups ! gi) ! sdi) \<noteq>
            sd_slave_id (gs_slave_devices (groups ! inner_gi) ! inner_sdi))
          [0..<gs_num_slave_devices (groups ! inner_gi)]) [0..<n])
        [0..<gs_num_slave_devices (groups ! gi)]) [0..<n])"

section \<open>What validation means\<close>

definition device_valid :: "nat \<Rightarrow> u32 \<Rightarrow> clm_slave_device_setting \<Rightarrow> bool" where
  "device_valid max_stations master_id d \<longleftrightarrow>
     cl_utils_is_ipaddr_range_valid (sd_slave_id d) \<and> sd_slave_id d \<noteq> master_id \<and>
     1 \<le> sd_num_occupied_stations d \<and> sd_num_occupied_stations d \<le> max_stations"

definition stations_of :: "clm_group_setting \<Rightarrow> nat" where
  "stations_of gs = sum_list (map sd_num_occupied_stations (devices_of gs))"

definition group_valid :: "nat \<Rightarrow> u32 \<Rightarrow> clm_group_setting \<Rightarrow> bool" where
  "group_valid max_stations master_id gs \<longleftrightarrow>
     1 \<le> gs_timeout_value gs \<and>
     (gs_use_constant_link_scan_time gs \<longrightarrow> gs_timeout_value gs \<le> CL_CCIEFB_MAX_TIMEOUT_CONSTANT_LINKSCAN) \<and>
     1 \<le> gs_parallel_off_timeout_count gs \<and>
     1 \<le> gs_num_slave_devices gs \<and> gs_num_slave_devices gs \<le> max_stations \<and>
     (\<forall>d \<in> set (devices_of gs). device_valid max_stations master_id d) \<and> stations_of gs \<le> max_stations"

lemma validate_devices_iff:
  assumes "max_stations \<le> 16" "per_group + 16 * length ds < 65536" "all_groups + 16 * length ds < 65536"
  shows "validate_devices max_stations m ds per_group all_groups =
    (if \<forall>d \<in> set ds. device_valid max_stations m d
     then Some (per_group + sum_list (map sd_num_occupied_stations ds),
                all_groups + sum_list (map sd_num_occupied_stations ds)) else None)"
  using assms(2,3)
proof (induction ds arbitrary: per_group all_groups)
  case (Cons d ds)
  show ?case
  proof (cases "device_valid max_stations m d")
    case True
    then have "sd_num_occupied_stations d \<le> 16" using assms(1) by (simp add: device_valid_def)
    then have "add16 per_group (sd_num_occupied_stations d) = per_group + sd_num_occupied_stations d"
      "add16 all_groups (sd_num_occupied_stations d) = all_groups + sd_num_occupied_stations d"
      using Cons.prems by (simp_all add: add16_def)
    then show ?thesis
      using True Cons.IH [of "per_group + sd_num_occupied_stations d" "all_groups + sd_num_occupied_stations d"]
        Cons.prems \<open>sd_num_occupied_stations d \<le> 16\<close>
      by (auto simp: device_valid_def add.assoc)
  qed (auto simp: device_valid_def)
qed simp

lemma validate_groups_iff:
  assumes "max_stations \<le> 16" "all_groups + 256 * length gss < 65536"
  shows "validate_groups max_stations m gss all_groups =
    (if \<forall>gs \<in> set gss. group_valid max_stations m gs
     then Some (all_groups + sum_list (map stations_of gss)) else None)"
  using assms(2)
proof (induction gss arbitrary: all_groups)
  case (Cons gs gss)
  have one: "w < 1 \<longleftrightarrow> \<not> 1 \<le> w" for w :: u16 by (simp add: not_le)
  show ?case
  proof (cases "gs_num_slave_devices gs \<le> max_stations")
    case True
    then have "length (devices_of gs) \<le> 16" using assms(1) by (simp add: devices_of_def)
    then have v: "validate_devices max_stations m (devices_of gs) 0 all_groups =
      (if \<forall>d \<in> set (devices_of gs). device_valid max_stations m d
       then Some (stations_of gs, all_groups + stations_of gs) else None)"
      using validate_devices_iff [OF assms(1), of 0 "devices_of gs" all_groups m] Cons.prems
      by (simp add: stations_of_def)
    have "validate_groups max_stations m gss (all_groups + stations_of gs) =
      (if \<forall>gs \<in> set gss. group_valid max_stations m gs
       then Some (all_groups + stations_of gs + sum_list (map stations_of gss)) else None)"
      if "stations_of gs \<le> max_stations"
      using Cons.IH [of "all_groups + stations_of gs"] Cons.prems that assms(1) by simp
    then show ?thesis
      using v True by (auto simp: group_valid_def CL_CCIEFB_MIN_TIMEOUT_def CL_CCIEFB_MIN_TIMEOUT_COUNT_def one not_le)
  qed (simp add: group_valid_def)
qed simp

definition config_valid :: "nat \<Rightarrow> nat \<Rightarrow> clm_cfg \<Rightarrow> bool" where
  "config_valid max_groups max_stations cfg \<longleftrightarrow>
     mc_protocol_ver cfg \<in> {1, 2} \<and> cl_utils_is_ipaddr_range_valid (mc_master_id cfg) \<and>
     1 \<le> hi_number_of_groups (mc_hier cfg) \<and> hi_number_of_groups (mc_hier cfg) \<le> max_groups \<and>
     (\<forall>gs \<in> set (groups_of cfg). group_valid max_stations (mc_master_id cfg) gs) \<and>
     sum_list (map stations_of (groups_of cfg)) \<le> 64"

lemma protocol_ver_supported_iff: "\<not> protocol_ver_unsupported v \<longleftrightarrow> v \<in> {1, 2}"
proof -
  have "unat v = 1 \<Longrightarrow> v = 1" "unat v = 2 \<Longrightarrow> v = 2" by (simp_all add: word_unat_eq_iff)
  moreover have "unat v = 0 \<or> unat v = 1 \<or> unat v = 2 \<or> 2 < unat v" by linarith
  ultimately show ?thesis
    by (auto simp: protocol_ver_unsupported_def cl_consts word_less_nat_alt not_less)
qed

lemma validate_config_iff:
  assumes "options_ok max_groups max_stations"
  shows "clm_validate_config max_groups max_stations (Some cfg) \<longleftrightarrow> config_valid max_groups max_stations cfg"
proof (cases "hi_number_of_groups (mc_hier cfg) \<le> max_groups")
  case True
  then have "length (groups_of cfg) \<le> 64" using assms
    by (simp add: groups_of_def options_ok_def cl_consts min.coboundedI2)
  then have "validate_groups max_stations (mc_master_id cfg) (groups_of cfg) 0 =
      (if \<forall>gs \<in> set (groups_of cfg). group_valid max_stations (mc_master_id cfg) gs
       then Some (sum_list (map stations_of (groups_of cfg))) else None)"
    using validate_groups_iff [of max_stations 0 "groups_of cfg" "mc_master_id cfg"] assms
    by (simp add: options_ok_def cl_consts)
  then show ?thesis
    using True protocol_ver_supported_iff [of "mc_protocol_ver cfg"]
    by (auto simp: clm_validate_config_def config_valid_def CL_CCIEFB_MIN_GROUP_NO_def
        CL_CCIEFB_MAX_OCCUPIED_STATIONS_FOR_ALL_GROUPS_def not_less)
next
  case False
  then show ?thesis by (auto simp: clm_validate_config_def config_valid_def)
qed

text \<open>The arrays of a configuration are at least as long as the numbers of elements in use.\<close>

definition arrays_ok :: "clm_cfg \<Rightarrow> bool" where
  "arrays_ok cfg \<longleftrightarrow> hi_number_of_groups (mc_hier cfg) \<le> length (hi_groups (mc_hier cfg)) \<and>
     (\<forall>gs \<in> set (groups_of cfg). gs_num_slave_devices gs \<le> length (gs_slave_devices gs))"

definition slave_ids_of :: "clm_cfg \<Rightarrow> u32 list" where
  "slave_ids_of cfg = concat (map (\<lambda>gs. map sd_slave_id (devices_of gs)) (groups_of cfg))"

lemma distinct_concat_nth:
  "distinct (concat xss) \<longleftrightarrow>
   (\<forall>i < length xss. \<forall>j < length (xss ! i). \<forall>k < length xss. \<forall>l < length (xss ! k).
      (k = i \<and> l = j) \<or> xss ! i ! j \<noteq> xss ! k ! l)"
proof (induction xss)
  case (Cons xs xss)
  have "set xs \<inter> set (concat xss) = {} \<longleftrightarrow>
      (\<forall>j < length xs. \<forall>k < length xss. \<forall>l < length (xss ! k). xs ! j \<noteq> xss ! k ! l)"
  proof -
    have "set xs \<inter> set (concat xss) = {} \<longleftrightarrow> (\<forall>x \<in> set xs. \<forall>ys \<in> set xss. \<forall>y \<in> set ys. x \<noteq> y)" by auto
    then show ?thesis by (simp add: all_set_conv_all_nth)
  qed
  moreover have "distinct xs \<longleftrightarrow> (\<forall>j < length xs. \<forall>l < length xs. l = j \<or> xs ! j \<noteq> xs ! l)"
    by (auto simp: distinct_conv_nth)
  ultimately have "distinct (concat (xs # xss)) \<longleftrightarrow>
      (\<forall>j < length xs. \<forall>l < length xs. l = j \<or> xs ! j \<noteq> xs ! l) \<and>
      (\<forall>j < length xs. \<forall>k < length xss. \<forall>l < length (xss ! k). xs ! j \<noteq> xss ! k ! l) \<and>
      (\<forall>i < length xss. \<forall>j < length (xss ! i). \<forall>k < length xss. \<forall>l < length (xss ! k).
        (k = i \<and> l = j) \<or> xss ! i ! j \<noteq> xss ! k ! l)"
    using Cons.IH by auto
  note * = this
  show ?case
    unfolding * length_Cons All_less_Suc2 nth_Cons_0 nth_Cons_Suc by (simp only: nat.simps simp_thms) (safe; metis)
qed simp

lemma duplicates_iff:
  assumes "arrays_ok cfg"
  shows "clm_validate_config_duplicates cfg \<longleftrightarrow> distinct (slave_ids_of cfg)"
proof -
  let ?gs = "hi_groups (mc_hier cfg)" and ?n = "hi_number_of_groups (mc_hier cfg)"
  let ?xss = "map (\<lambda>gs. map sd_slave_id (devices_of gs)) (groups_of cfg)"
  have n: "length ?xss = ?n" using assms by (simp add: arrays_ok_def groups_of_def)
  have g: "length (?xss ! i) = gs_num_slave_devices (?gs ! i)"
    "\<And>j. j < gs_num_slave_devices (?gs ! i) \<Longrightarrow> ?xss ! i ! j = sd_slave_id (gs_slave_devices (?gs ! i) ! j)"
    if "i < ?n" for i
  proof -
    have "groups_of cfg ! i \<in> set (groups_of cfg)" using that n by simp
    then have "gs_num_slave_devices (?gs ! i) \<le> length (gs_slave_devices (?gs ! i))"
      using assms that by (simp add: arrays_ok_def groups_of_def)
    then show "length (?xss ! i) = gs_num_slave_devices (?gs ! i)"
      "\<And>j. j < gs_num_slave_devices (?gs ! i) \<Longrightarrow> ?xss ! i ! j = sd_slave_id (gs_slave_devices (?gs ! i) ! j)"
      using that n by (simp_all add: groups_of_def devices_of_def)
  qed
  show ?thesis
    unfolding slave_ids_of_def distinct_concat_nth n clm_validate_config_duplicates_def Let_def list_all_iff
    using g by (simp add: atLeast0LessThan Ball_def cong: conj_cong imp_cong)
qed

end
