(* ===== verification/CL_Timer.thy ===== *)
theory CL_Timer
  imports CL_Prelude
begin

text \<open>
  The timers of \<open>src/common/cl_timer.c\<close>, and the rate limiter of \<open>src/common/cl_limiter.c\<close>
  built on them. Timestamps are 32 bit microsecond counters that wrap around.

  The locale \<open>timer_interface\<close> states what the rest of the stack relies on; it is interpreted on
  the C functions, and the limiter, the slave and the master use it only through the facts of the
  interpretation.
\<close>

section \<open>Definitions\<close>

datatype cl_timer_state = CL_TIMER_STOPPED | CL_TIMER_RUNNING

record cl_timer =
  tm_state :: cl_timer_state
  tm_period :: u32
  tm_timestamp :: u32

definition CL_TIMER_MICROSECONDS_PER_MILLISECOND :: nat where
  "CL_TIMER_MICROSECONDS_PER_MILLISECOND = 1000"

definition cl_timer_start :: "u32 \<Rightarrow> u32 \<Rightarrow> cl_timer \<Rightarrow> cl_timer" where
  "cl_timer_start period now timer =
     timer\<lparr>tm_state := CL_TIMER_RUNNING, tm_period := period, tm_timestamp := now\<rparr>"

definition cl_timer_start_if_not_running :: "u32 \<Rightarrow> u32 \<Rightarrow> cl_timer \<Rightarrow> cl_timer" where
  "cl_timer_start_if_not_running period now timer =
     (if tm_state timer = CL_TIMER_RUNNING then timer else cl_timer_start period now timer)"

definition cl_timer_restart :: "u32 \<Rightarrow> cl_timer \<Rightarrow> cl_timer" where
  "cl_timer_restart now timer =
     (if tm_state timer = CL_TIMER_STOPPED then timer else timer\<lparr>tm_timestamp := now\<rparr>)"

definition cl_timer_stop :: "cl_timer \<Rightarrow> cl_timer" where
  "cl_timer_stop timer = timer\<lparr>tm_state := CL_TIMER_STOPPED, tm_period := 0, tm_timestamp := 0\<rparr>"

definition cl_timer_is_expired :: "cl_timer \<Rightarrow> u32 \<Rightarrow> bool" where
  "cl_timer_is_expired timer now =
     (if tm_state timer = CL_TIMER_STOPPED then False
      else let delta = now - tm_timestamp timer in
        if delta > drop_bit 1 (- 1) then False else delta \<ge> tm_period timer)"

definition cl_timer_is_running :: "cl_timer \<Rightarrow> bool" where
  "cl_timer_is_running timer = (tm_state timer = CL_TIMER_RUNNING)"

record cl_limiter =
  lm_timer :: cl_timer
  lm_period :: u32
  lm_previous_message :: int
  lm_number_of_calls :: u16
  lm_number_of_outputs :: u16

definition cl_limiter_init :: "u32 \<Rightarrow> cl_limiter \<Rightarrow> cl_limiter" where
  "cl_limiter_init period limiter =
     limiter\<lparr>lm_period := period, lm_number_of_calls := 0, lm_number_of_outputs := 0,
       lm_previous_message := 0, lm_timer := cl_timer_stop (lm_timer limiter)\<rparr>"

definition cl_limiter_should_run_now :: "int \<Rightarrow> u32 \<Rightarrow> cl_limiter \<Rightarrow> bool \<times> cl_limiter" where
  "cl_limiter_should_run_now message now limiter =
     (let was_running = cl_timer_is_running (lm_timer limiter);
          limiter = limiter\<lparr>lm_number_of_calls := lm_number_of_calls limiter + 1\<rparr>;
          limiter = limiter\<lparr>lm_timer := cl_timer_start (lm_period limiter) now (lm_timer limiter)\<rparr>
      in if was_running \<and> lm_period limiter \<noteq> 0 \<and> message = lm_previous_message limiter
         then (False, limiter)
         else (True, limiter\<lparr>lm_number_of_outputs := lm_number_of_outputs limiter + 1,
                             lm_previous_message := message\<rparr>))"

definition cl_limiter_periodic :: "u32 \<Rightarrow> cl_limiter \<Rightarrow> cl_limiter" where
  "cl_limiter_periodic now limiter =
     (if cl_timer_is_expired (lm_timer limiter) now
      then limiter\<lparr>lm_timer := cl_timer_stop (lm_timer limiter)\<rparr> else limiter)"

text \<open>A history of uses of one limiter: messages that arrive and periodic calls, with their times.\<close>

datatype limiter_event = Message int u32 | Tick u32

fun limiter_run :: "limiter_event list \<Rightarrow> cl_limiter \<Rightarrow> bool list \<times> cl_limiter" where
  "limiter_run [] l = ([], l)"
| "limiter_run (Message m t # es) l =
     (let (b, l') = cl_limiter_should_run_now m t l; (bs, l'') = limiter_run es l' in (b # bs, l''))"
| "limiter_run (Tick t # es) l = limiter_run es (cl_limiter_periodic t l)"

text \<open>Every event comes less than \<open>p\<close> after the latest message, and all messages are equal to \<open>m\<close>.\<close>

fun is_burst :: "int \<Rightarrow> u32 \<Rightarrow> u32 \<Rightarrow> limiter_event list \<Rightarrow> bool" where
  "is_burst m p t\<^sub>0 [] = True"
| "is_burst m p t\<^sub>0 (Message m' t # es) = (m' = m \<and> t - t\<^sub>0 < p \<and> is_burst m p t es)"
| "is_burst m p t\<^sub>0 (Tick t # es) = (t - t\<^sub>0 < p \<and> is_burst m p t\<^sub>0 es)"

section \<open>The timer contract\<close>

lemma expired_start_iff:
  "cl_timer_is_expired (cl_timer_start p n t) m \<longleftrightarrow> p \<le> m - n \<and> m - n \<le> 0x7FFFFFFF"
  by (auto simp: cl_timer_is_expired_def cl_timer_start_def Let_def not_less mask_eq_exp_minus_1)

lemma timer_running_simps [simp]:
  "cl_timer_is_running (cl_timer_start p n t)"
  "\<not> cl_timer_is_running (cl_timer_stop t)"
  "cl_timer_is_running (cl_timer_restart n t) = cl_timer_is_running t"
  "cl_timer_is_running (cl_timer_start_if_not_running p n t)"
  by (simp_all add: cl_timer_is_running_def cl_timer_start_def cl_timer_stop_def cl_timer_restart_def
      cl_timer_start_if_not_running_def)

lemma not_running_iff_stopped:
  "\<not> cl_timer_is_running t \<longleftrightarrow> tm_state t = CL_TIMER_STOPPED"
  by (cases "tm_state t") (simp_all add: cl_timer_is_running_def)

lemma stopped_not_expired: "\<not> cl_timer_is_running t \<Longrightarrow> \<not> cl_timer_is_expired t n"
  by (simp add: not_running_iff_stopped cl_timer_is_expired_def)

lemma expired_imp_running: "cl_timer_is_expired t n \<Longrightarrow> cl_timer_is_running t"
  using stopped_not_expired by blast

lemma restart_start: "cl_timer_restart n (cl_timer_start p m t) = cl_timer_start p n t"
  by (simp add: cl_timer_restart_def cl_timer_start_def)

lemma stop_stop [simp]: "cl_timer_stop (cl_timer_stop t) = cl_timer_stop t"
  by (simp add: cl_timer_stop_def)

lemma stopped_canonical: "cl_timer_stop (t :: cl_timer) = cl_timer_stop u"
  by (simp add: cl_timer_stop_def)

lemma start_canonical: "cl_timer_start p n (t :: cl_timer) = cl_timer_start p n u"
  by (simp add: cl_timer_start_def)

text \<open>
  What a client may rely on, whatever the representation: a stopped timer never expires, and a
  timer started with period \<open>p\<close> at time \<open>n\<close> is expired \<open>d\<close> microseconds later exactly when
  \<open>p \<le> d\<close>, for every \<open>d\<close> below half the range of the counter, also across a wrap of the counter.
\<close>

locale timer_interface =
  fixes start :: "u32 \<Rightarrow> u32 \<Rightarrow> 't \<Rightarrow> 't"
    and restart :: "u32 \<Rightarrow> 't \<Rightarrow> 't"
    and stop :: "'t \<Rightarrow> 't"
    and expired :: "'t \<Rightarrow> u32 \<Rightarrow> bool"
    and running :: "'t \<Rightarrow> bool"
  assumes running_start: "running (start p n t)"
    and running_stop: "\<not> running (stop t)"
    and expired_running: "expired t n \<Longrightarrow> running t"
    and expired_after: "unat d < 2 ^ 31 \<Longrightarrow> expired (start p n t) (n + d) \<longleftrightarrow> p \<le> d"
    and restart_started: "restart n (start p m t) = start p n t"
begin

lemma stop_silent: "\<not> expired (stop t) n"
  using expired_running running_stop by blast

lemma zero_period_at_once: "expired (start 0 n t) n"
  using expired_after [of 0 0 n t] by simp

lemma restarted_again: "restart n (restart n' (start p m t)) = start p n t"
  by (simp add: restart_started)

lemma kept_alive: "unat d < 2 ^ 31 \<Longrightarrow> d < p \<Longrightarrow> \<not> expired (restart n (start p m t)) (n + d)"
  by (simp add: restart_started expired_after not_le)

lemma silence_detected: "unat d < 2 ^ 31 \<Longrightarrow> p \<le> d \<Longrightarrow> expired (restart n (start p m t)) (n + d)"
  by (simp add: restart_started expired_after)

lemma latest_restart_counts:
  "ns \<noteq> [] \<Longrightarrow> fold restart ns (start p m t) = start p (last ns) t"
  by (induction ns arbitrary: m) (auto simp: restart_started)

end

interpretation tm: timer_interface cl_timer_start cl_timer_restart cl_timer_stop
    cl_timer_is_expired cl_timer_is_running
proof unfold_locales
  fix p n d :: u32 and t
  assume "unat d < 2 ^ 31"
  then show "cl_timer_is_expired (cl_timer_start p n t) (n + d) \<longleftrightarrow> p \<le> d"
    by (simp add: expired_start_iff word_le_nat_alt)
qed (simp_all add: expired_imp_running restart_start)

section \<open>The limiter\<close>

definition limiter_armed :: "int \<Rightarrow> u32 \<Rightarrow> cl_limiter \<Rightarrow> bool" where
  "limiter_armed m t\<^sub>0 l \<longleftrightarrow> lm_previous_message l = m \<and> lm_period l \<noteq> 0 \<and>
     (\<exists>t. lm_timer l = cl_timer_start (lm_period l) t\<^sub>0 t)"

lemma limiter_armed_tick:
  assumes "limiter_armed m t\<^sub>0 l" and "t - t\<^sub>0 < lm_period l"
  shows "cl_limiter_periodic t l = l"
  using assms by (auto simp: limiter_armed_def cl_limiter_periodic_def expired_start_iff not_le)

lemma limiter_armed_message:
  assumes "limiter_armed m t\<^sub>0 l"
  shows "\<exists>l'. cl_limiter_should_run_now m t l = (False, l') \<and> limiter_armed m t l' \<and>
    lm_period l' = lm_period l \<and> lm_number_of_outputs l' = lm_number_of_outputs l"
  using assms by (auto simp: limiter_armed_def cl_limiter_should_run_now_def Let_def)

lemma limiter_burst_silent:
  assumes "is_burst m (lm_period l) t\<^sub>0 es" and "limiter_armed m t\<^sub>0 l"
  shows "set (fst (limiter_run es l)) \<subseteq> {False} \<and>
    lm_number_of_outputs (snd (limiter_run es l)) = lm_number_of_outputs l"
  using assms
proof (induction es arbitrary: l t\<^sub>0)
  case (Cons e es)
  show ?case
  proof (cases e)
    case (Message m' t)
    with Cons.prems obtain l' where l': "cl_limiter_should_run_now m t l = (False, l')"
        "limiter_armed m t l'" "lm_period l' = lm_period l"
        "lm_number_of_outputs l' = lm_number_of_outputs l"
      using limiter_armed_message by blast
    moreover have "is_burst m (lm_period l') t es"
      using Cons.prems Message l' by simp
    ultimately show ?thesis
      using Message Cons.prems Cons.IH [of l' t] by (auto simp: case_prod_unfold Let_def)
  next
    case (Tick t)
    then show ?thesis using Cons.prems Cons.IH [of l t\<^sub>0] by (simp add: limiter_armed_tick)
  qed
qed simp

lemma limiter_first_message:
  assumes "cl_limiter_should_run_now m t l = (True, l')" and "lm_period l \<noteq> 0"
  shows "limiter_armed m t l' \<and> lm_period l' = lm_period l"
  using assms by (auto simp: cl_limiter_should_run_now_def limiter_armed_def Let_def split: if_splits)

end
