(* ===== verification/CL_FSM.thy ===== *)
theory CL_FSM
  imports CL_Prelude
begin

text \<open>
  What the three table driven state machines of the stack (slave, device, group) have in common: the
  tables that their \<open>init\<close> functions fill from a list of transitions and a list of state actions, and
  the loop that keeps running the table until no further event is requested.

  The locale \<open>event_machine\<close> is the contract of one round of such a loop: it keeps an invariant, never
  reaches a failing assertion, and a follow-up event has a smaller rank than the event that caused it.
  The client lemmas then say that the loop returns, for every fuel above the rank, and keeps the
  invariant.
\<close>

section \<open>Tables\<close>

type_synonym ('st, 'ev, 'act) transition = "'st \<times> 'ev \<times> 'st \<times> 'act option"
type_synonym ('st, 'ev, 'act) matrix = "'st \<Rightarrow> 'ev \<Rightarrow> 'st \<times> 'act option"
type_synonym ('st, 'act) state_action = "'st \<times> 'act option \<times> 'act option"
type_synonym ('st, 'act) entry_exit = "'st \<Rightarrow> 'act option \<times> 'act option"

definition set_transition :: "('st, 'ev, 'act) transition \<Rightarrow> ('st, 'ev, 'act) matrix \<Rightarrow> ('st, 'ev, 'act) matrix" where
  "set_transition t m = (case t of (st, ev, nx, act) \<Rightarrow> m(st := (m st)(ev := (nx, act))))"

definition set_state_actions :: "('st, 'act) state_action \<Rightarrow> ('st, 'act) entry_exit \<Rightarrow> ('st, 'act) entry_exit" where
  "set_state_actions t m = (case t of (st, entry, exit) \<Rightarrow> m(st := (entry, exit)))"

text \<open>First every state stays where it is without an action, then the lists are entered.\<close>

definition build_matrix :: "('st, 'ev, 'act) transition list \<Rightarrow> ('st, 'ev, 'act) matrix" where
  "build_matrix ts = fold set_transition ts (\<lambda>st ev. (st, None))"

definition build_entry_exit :: "('st, 'act) state_action list \<Rightarrow> ('st, 'act) entry_exit" where
  "build_entry_exit ts = fold set_state_actions ts (\<lambda>st. (None, None))"

section \<open>Event loop\<close>

fun event_loop :: "('e \<Rightarrow> 's \<Rightarrow> ('e \<times> 's) outcome) \<Rightarrow> 'e \<Rightarrow> nat \<Rightarrow> 'e \<Rightarrow> 's \<Rightarrow> 's outcome" where
  "event_loop round none 0 event s = Out_Of_Fuel"
| "event_loop round none (Suc fuel) event s =
     obind (round event s) (\<lambda>(event, s).
       if event \<noteq> none then event_loop round none fuel event s else Returns s)"

lemma event_loop_keeps_for:
  assumes "\<And>e s e' s'. rnd e s = Returns (e', s') \<Longrightarrow> Q e \<Longrightarrow> P s \<Longrightarrow> P s' \<and> Q e'"
  shows "event_loop rnd none n e s = Returns s' \<Longrightarrow> Q e \<Longrightarrow> P s \<Longrightarrow> P s'"
proof (induction n arbitrary: e s)
  case (Suc n)
  then obtain e' t where t: "rnd e s = Returns (e', t)" by (cases "rnd e s") auto
  then show ?case using assms [OF t Suc.prems(2,3)] Suc by (auto split: if_splits)
qed simp

lemma event_loop_keeps:
  assumes "\<And>e s e' s'. rnd e s = Returns (e', s') \<Longrightarrow> P s \<Longrightarrow> P s'"
  shows "event_loop rnd none n e s = Returns s' \<Longrightarrow> P s \<Longrightarrow> P s'"
  using event_loop_keeps_for [of rnd "\<lambda>_. True" P none n e s s'] assms by fastforce

section \<open>Reading the tables\<close>

definition transition_keys :: "('st, 'ev, 'act) transition list \<Rightarrow> ('st \<times> 'ev) list" where
  "transition_keys ts = map (\<lambda>(st, ev, _, _). (st, ev)) ts"

definition find_transition :: "('st, 'ev, 'act) transition list \<Rightarrow> 'st \<Rightarrow> 'ev \<Rightarrow> ('st \<times> 'act option) option" where
  "find_transition ts st ev = map_of (map (\<lambda>(st, ev, nx, act). ((st, ev), (nx, act))) ts) (st, ev)"

lemma fold_set_transition:
  assumes "distinct (transition_keys ts)"
  shows "fold set_transition ts m st ev =
    (case find_transition ts st ev of Some x \<Rightarrow> x | None \<Rightarrow> m st ev)"
  using assms
proof (induction ts arbitrary: m)
  case (Cons t ts)
  obtain a b c d where t: "t = (a, b, c, d)" by (cases t)
  have "find_transition ts a b = None"
    using Cons.prems by (force simp: t transition_keys_def find_transition_def map_of_eq_None_iff)
  then show ?case
    using Cons by (auto simp: t transition_keys_def set_transition_def find_transition_def split: option.splits)
qed (simp add: find_transition_def)

lemma build_matrix_lookup:
  "distinct (transition_keys ts) \<Longrightarrow>
   build_matrix ts st ev = (case find_transition ts st ev of Some x \<Rightarrow> x | None \<Rightarrow> (st, None))"
  by (simp add: build_matrix_def fold_set_transition)

lemma fold_set_state_actions:
  "distinct (map fst ts) \<Longrightarrow>
   fold set_state_actions ts m st = (case map_of ts st of Some x \<Rightarrow> x | None \<Rightarrow> m st)"
proof (induction ts arbitrary: m)
  case (Cons t ts)
  obtain a b c where t: "t = (a, b, c)" by (cases t)
  have "map_of ts a = None" using Cons.prems by (simp add: t map_of_eq_None_iff)
  then show ?case using Cons by (auto simp: t set_state_actions_def split: option.splits)
qed simp

lemma build_entry_exit_lookup:
  "distinct (map fst ts) \<Longrightarrow>
   build_entry_exit ts st = (case map_of ts st of Some x \<Rightarrow> x | None \<Rightarrow> (None, None))"
  by (simp add: build_entry_exit_def fold_set_state_actions)

section \<open>Contract of one round\<close>

locale event_machine =
  fixes round :: "'e \<Rightarrow> 's \<Rightarrow> ('e \<times> 's) outcome"
    and none :: 'e
    and enabled :: "'e \<Rightarrow> 's \<Rightarrow> bool"
    and inv :: "'s \<Rightarrow> bool"
    and rank :: "'e \<Rightarrow> nat"
  assumes round_ok: "enabled e s \<Longrightarrow>
      \<exists>e' s'. round e s = Returns (e', s') \<and> (e' = none \<longrightarrow> inv s') \<and>
        (e' \<noteq> none \<longrightarrow> enabled e' s' \<and> rank e' < rank e)"
begin

lemma loop_returns:
  "enabled e s \<Longrightarrow> rank e < fuel \<Longrightarrow> \<exists>s'. event_loop round none fuel e s = Returns s' \<and> inv s'"
proof (induction fuel arbitrary: e s)
  case (Suc fuel)
  from round_ok [OF Suc.prems(1)] obtain e' s' where r: "round e s = Returns (e', s')" "e' = none \<longrightarrow> inv s'"
    "e' \<noteq> none \<longrightarrow> enabled e' s' \<and> rank e' < rank e" by blast
  show ?case
  proof (cases "e' = none")
    case True then show ?thesis using r by simp
  next
    case False
    then have "enabled e' s'" "rank e' < fuel" using r Suc.prems(2) by auto
    then show ?thesis using Suc.IH r False by simp
  qed
qed simp

lemma loop_more_fuel:
  assumes "enabled e s" "rank e < n" "rank e < m"
  shows "event_loop round none n e s = event_loop round none m e s"
  using assms
proof (induction n arbitrary: m e s)
  case (Suc n)
  then obtain m' where m: "m = Suc m'" by (cases m) auto
  from round_ok [OF Suc.prems(1)] obtain e' s' where r: "round e s = Returns (e', s')"
    "e' \<noteq> none \<longrightarrow> enabled e' s' \<and> rank e' < rank e" by blast
  show ?case
  proof (cases "e' = none")
    case True then show ?thesis using r m by simp
  next
    case False
    then have "event_loop round none n e' s' = event_loop round none m' e' s'"
      using Suc.IH [of e' s' m'] r Suc.prems m by auto
    then show ?thesis using r m False by simp
  qed
qed simp

end

end
