(* ===== verification/CLM_State.thy ===== *)
theory CLM_State
  imports CLM_Config CL_Timer CL_FSM
begin

text \<open>
  The state of the master stack and the helper functions in the first part of
  \<open>src/master/clm_iefb.c\<close>: sequence numbers, station numbers, the cyclic data in request and response
  frames, statistics, and callbacks.

  The record \<open>clm\<close> is \<open>struct clm\<close>. Frames sent, callbacks of the application and files saved are
  recorded in order in \<open>clm_out\<close>. The transmit buffer of a group is the buffer of its request frame.
  The functions that are called with a group and a device only change this group, apart from
  callbacks; they take the group and the trace, see \<open>dev_state\<close>, and read the rest of the handle.
\<close>

section \<open>State\<close>

datatype clm_master_state = CLM_MASTER_STATE_DOWN | CLM_MASTER_STATE_STANDBY
  | CLM_MASTER_STATE_ARBITRATION | CLM_MASTER_STATE_RUNNING

datatype clm_master_setip_status = CLM_MASTER_SET_IP_STATUS_SUCCESS | CLM_MASTER_SET_IP_STATUS_ERROR
  | CLM_MASTER_SET_IP_STATUS_TIMEOUT

datatype clm_group_state = CLM_GROUP_STATE_MASTER_DOWN | CLM_GROUP_STATE_MASTER_LISTEN
  | CLM_GROUP_STATE_MASTER_ARBITRATION | CLM_GROUP_STATE_MASTER_LINK_SCAN_COMP
  | CLM_GROUP_STATE_MASTER_LINK_SCAN | CLM_GROUP_STATE_LAST

datatype clm_device_state = CLM_DEVICE_STATE_MASTER_DOWN | CLM_DEVICE_STATE_LISTEN
  | CLM_DEVICE_STATE_WAIT_TD | CLM_DEVICE_STATE_CYCLIC_SUSPEND | CLM_DEVICE_STATE_CYCLIC_SENT
  | CLM_DEVICE_STATE_CYCLIC_SENDING | CLM_DEVICE_STATE_LAST

datatype clm_error_message = CLM_ERROR_ARBITRATION_FAILED | CLM_ERROR_SLAVE_DUPLICATION
  | CLM_ERROR_SLAVE_REPORTS_WRONG_NUMBER_OCCUPIED | CLM_ERROR_SLAVE_REPORTS_MASTER_DUPLICATION

datatype clm_group_event = CLM_GROUP_EVENT_NONE | CLM_GROUP_EVENT_STARTUP
  | CLM_GROUP_EVENT_PARAMETER_CHANGE | CLM_GROUP_EVENT_NEW_CONFIG | CLM_GROUP_EVENT_ARBITRATION_DONE
  | CLM_GROUP_EVENT_REQ_FROM_OTHER | CLM_GROUP_EVENT_MASTERDUPL_ALARM | CLM_GROUP_EVENT_LINKSCAN_START
  | CLM_GROUP_EVENT_LINKSCAN_TIMEOUT | CLM_GROUP_EVENT_LINKSCAN_COMPLETE | CLM_GROUP_EVENT_LAST

datatype clm_device_event = CLM_DEVICE_EVENT_NONE | CLM_DEVICE_EVENT_GROUP_STARTUP
  | CLM_DEVICE_EVENT_GROUP_STANDBY | CLM_DEVICE_EVENT_GROUP_TIMEOUT
  | CLM_DEVICE_EVENT_GROUP_ALL_RESPONDED | CLM_DEVICE_EVENT_RECEIVE_OK | CLM_DEVICE_EVENT_RECEIVE_ERROR
  | CLM_DEVICE_EVENT_SCAN_START_DEVICE_START | CLM_DEVICE_EVENT_SCAN_START_DEVICE_STOP
  | CLM_DEVICE_EVENT_TIMEOUTCOUNTER_FULL | CLM_DEVICE_EVENT_TIMEOUTCOUNTER_NOT_FULL
  | CLM_DEVICE_EVENT_SLAVE_DUPLICATION | CLM_DEVICE_EVENT_LAST

text \<open>The functions stored in the state machine tables.\<close>

datatype clm_device_action = Device_Init | Set_Data_Ip | Evaluate_Timeoutcounter | Reset_Timeout_Count

datatype clm_group_action = Group_Init | Group_New_Config | On_Arbitration_Failed | On_Arbitration_Done
  | On_Linkscan_Start | On_Linkscan_Timeout | On_Linkscan_Complete
  | Group_On_Entry_Listen | Group_On_Entry_Arbitration | Group_On_Entry_Scan_Complete

record clm_device_framevalues =
  fv_has_been_received :: bool
  fv_num_occupied_stations :: nat
  fv_protocol_ver :: u16
  fv_end_code :: u16
  fv_vendor_code :: u16
  fv_model_code :: u32
  fv_equipment_ver :: u16
  fv_slave_local_unit_info :: u16
  fv_local_management_info :: u32
  fv_slave_err_code :: u16
  fv_slave_id :: u32
  fv_group_no :: u16
  fv_frame_sequence_no :: u16
  fv_response_time :: u32

record clm_slave_device_time_statistics =
  ts_number_of_samples :: u32
  ts_sum :: u32
  ts_min :: u32
  ts_average :: u32
  ts_max :: u32

record clm_slave_device_statistics =
  st_number_of_connects :: u32
  st_number_of_disconnects :: u32
  st_number_of_timeouts :: u32
  st_number_of_sent_frames :: u32
  st_number_of_incoming_frames :: u32
  st_number_of_incoming_alarm_frames :: u32
  st_number_of_incoming_invalid_frames :: u32
  st_measured_time :: clm_slave_device_time_statistics

record clm_slave_device_data =
  dd_device_index :: nat
  dd_enabled :: bool
  dd_transmission_bit :: bool
  dd_force_transmission_bit :: bool
  dd_timeout_count :: u16
  dd_slave_station_no :: nat
  dd_device_state :: clm_device_state
  dd_latest_frame :: clm_device_framevalues
  dd_statistics :: clm_slave_device_statistics

record clm_node_search_response_entry =
  ne_slave_id :: u32
  ne_slave_netmask :: u32
  ne_slave_mac_addr :: bytes
  ne_vendor_code :: u16
  ne_model_code :: u32
  ne_equipment_ver :: u16

record clm_node_search_db =
  db_count :: u8
  db_stored :: u8
  db_entries :: "clm_node_search_response_entry list"

record clm_group_memory_area =
  mem_rx :: bytes
  mem_ry :: bytes
  mem_rwr :: bytes
  mem_rww :: bytes

record clm_group_data =
  gd_group_index :: nat
  gd_total_occupied :: nat
  gd_frame_sequence_no :: u16
  gd_cyclic_transmission_state :: u16
  gd_timestamp_link_scan_start :: u32
  gd_group_state :: clm_group_state
  gd_response_wait_timer :: cl_timer
  gd_constant_linkscan_timer :: cl_timer
  gd_req_frame :: clm_cciefb_cyclic_request_info
  gd_slave_devices :: "clm_slave_device_data list"
  gd_memory_area :: clm_group_memory_area

text \<open>What the application, the network and the file system see.\<close>

datatype clm_output =
    Master_State_Callback clm_master_state
  | Linkscan_Callback nat bool
  | Master_Error_Callback clm_error_message u32 u16
  | Device_Connect_Callback nat nat u32
  | Device_Disconnect_Callback nat nat u32
  | Slave_Info_Callback nat nat u16 u16 u32
  | Alarm_Callback nat nat u16 u16 u32
  | Request_Sent u32 bytes
  | Save_Parameter_No u16
  | Node_Search_Cfm clm_node_search_db
  | Set_Ip_Cfm clm_master_setip_status
  | Slmp_Sent u32 u16 bytes

record clm =
  clm_slmp_broadcast_ip :: u32
  clm_iefb_broadcast_ip :: u32
  clm_mac_address :: bytes
  clm_latest_conflicting_master_ip :: u32
  clm_config :: clm_cfg
  clm_device_fsm_matrix :: "(clm_device_state, clm_device_event, clm_device_action) matrix"
  clm_device_fsm_on_entry_exit :: "(clm_device_state, clm_device_action) entry_exit"
  clm_group_fsm_matrix :: "(clm_group_state, clm_group_event, clm_group_action) matrix"
  clm_group_fsm_on_entry_exit :: "(clm_group_state, clm_group_action) entry_exit"
  clm_slmp_request_serial :: u16
  clm_state :: clm_master_state
  clm_parameter_no :: u16
  clm_master_local_unit_info :: u16
  clm_arbitration_timer :: cl_timer
  clm_node_search_serial :: int
  clm_node_search_timer :: cl_timer
  clm_set_ip_request_serial :: int
  clm_set_ip_request_timer :: cl_timer
  clm_node_search_data :: clm_node_search_db
  clm_ifindex :: int
  clm_slmp_send_socket :: int
  clm_slmp_receive_socket :: int
  clm_groups :: "clm_group_data list"
  clm_errorlimiter :: cl_limiter
  clm_out :: "clm_output list"

type_synonym dev_state = "clm_group_data \<times> clm_output list"

text \<open>The settings that the pointers in the code are set to.\<close>

definition group_setting :: "clm \<Rightarrow> clm_group_data \<Rightarrow> clm_group_setting" where
  "group_setting clm g = hi_groups (mc_hier (clm_config clm)) ! gd_group_index g"

definition device_setting :: "clm_group_setting \<Rightarrow> clm_slave_device_data \<Rightarrow> clm_slave_device_setting" where
  "device_setting gs d = gs_slave_devices gs ! dd_device_index d"

definition upd_device :: "nat \<Rightarrow> (clm_slave_device_data \<Rightarrow> clm_slave_device_data) \<Rightarrow> clm_group_data \<Rightarrow> clm_group_data" where
  "upd_device di f g = g\<lparr>gd_slave_devices := (gd_slave_devices g)[di := f (gd_slave_devices g ! di)]\<rparr>"

definition upd_statistics ::
  "(clm_slave_device_statistics \<Rightarrow> clm_slave_device_statistics) \<Rightarrow> clm_slave_device_data \<Rightarrow> clm_slave_device_data" where
  "upd_statistics f d = d\<lparr>dd_statistics := f (dd_statistics d)\<rparr>"

definition set_group :: "nat \<Rightarrow> clm_group_data \<Rightarrow> clm \<Rightarrow> clm" where
  "set_group gi g clm = clm\<lparr>clm_groups := (clm_groups clm)[gi := g]\<rparr>"

definition memit_if :: "bool \<Rightarrow> clm_output \<Rightarrow> clm \<Rightarrow> clm" where
  "memit_if b x clm = (if b then clm\<lparr>clm_out := clm_out clm @ [x]\<rparr> else clm)"

section \<open>Sequence numbers and station numbers\<close>

definition CL_CCIEFB_MASTER_LOCAL_UNIT_INFO_STOPPED :: u16 where
  "CL_CCIEFB_MASTER_LOCAL_UNIT_INFO_STOPPED = 0"
definition CL_CCIEFB_MASTER_LOCAL_UNIT_INFO_RUNNING :: u16 where
  "CL_CCIEFB_MASTER_LOCAL_UNIT_INFO_RUNNING = 1"
definition CL_CCIEFB_MASTER_LOCAL_UNIT_INFO_STOPPED_BY_USER :: u16 where
  "CL_CCIEFB_MASTER_LOCAL_UNIT_INFO_STOPPED_BY_USER = 2"
definition CLM_CCIEFB_ERRORCALLBACK_RETRIGGER_PERIOD :: u32 where
  "CLM_CCIEFB_ERRORCALLBACK_RETRIGGER_PERIOD = 1000000"

definition clm_iefb_update_frame_sequence_no :: "u16 \<Rightarrow> u16" where
  "clm_iefb_update_frame_sequence_no frame_sequence_no =
     (if frame_sequence_no = 0xFFFF then 1 else frame_sequence_no + 1)"

definition clm_iefb_calc_master_local_unit_info :: "u16 \<Rightarrow> bool \<Rightarrow> bool \<Rightarrow> u16" where
  "clm_iefb_calc_master_local_unit_info protocol_ver running stopped_by_user =
     (if running then CL_CCIEFB_MASTER_LOCAL_UNIT_INFO_RUNNING
      else if protocol_ver < 2 \<or> \<not> stopped_by_user then CL_CCIEFB_MASTER_LOCAL_UNIT_INFO_STOPPED
      else CL_CCIEFB_MASTER_LOCAL_UNIT_INFO_STOPPED_BY_USER)"

definition clm_iefb_calc_occupied_per_group :: "clm_group_setting \<Rightarrow> nat" where
  "clm_iefb_calc_occupied_per_group gs =
     fold (\<lambda>i n. add16 n (sd_num_occupied_stations (gs_slave_devices gs ! i))) [0..<gs_num_slave_devices gs] 0"

definition clm_iefb_calc_slave_station_no :: "clm_group_setting \<Rightarrow> nat \<Rightarrow> nat option" where
  "clm_iefb_calc_slave_station_no gs slave_device_index =
     (if slave_device_index \<ge> gs_num_slave_devices gs then None
      else Some (fold (\<lambda>i n. add16 n (sd_num_occupied_stations (gs_slave_devices gs ! i)))
                  [0..<slave_device_index] 1))"

fun find_device :: "clm_group_setting \<Rightarrow> u32 \<Rightarrow> nat list \<Rightarrow> nat option" where
  "find_device gs ip_addr [] = None"
| "find_device gs ip_addr (i # is) =
     (if sd_slave_id (gs_slave_devices gs ! i) = ip_addr then Some i else find_device gs ip_addr is)"

definition clm_iefb_calc_slave_device_index :: "clm_group_setting \<Rightarrow> u32 \<Rightarrow> nat option" where
  "clm_iefb_calc_slave_device_index gs ip_addr = find_device gs ip_addr [0..<gs_num_slave_devices gs]"

text \<open>
  The loops return \<open>false\<close> early when they meet a device that has not answered yet; otherwise the
  result is whether some device has answered.
\<close>

definition clm_iefb_group_have_received_from_all_devices :: "clm_group_setting \<Rightarrow> clm_group_data \<Rightarrow> bool" where
  "clm_iefb_group_have_received_from_all_devices gs g =
     (let devices = map (\<lambda>i. gd_slave_devices g ! i) [0..<gs_num_slave_devices gs] in
      if gd_frame_sequence_no g = 0 then
        (if list_ex (\<lambda>d. dd_device_state d = CLM_DEVICE_STATE_WAIT_TD) devices then False
         else list_ex (\<lambda>d. dd_device_state d = CLM_DEVICE_STATE_CYCLIC_SENT) devices)
      else
        (if list_ex (\<lambda>d. dd_transmission_bit d \<and> dd_device_state d = CLM_DEVICE_STATE_CYCLIC_SENDING) devices
         then False
         else list_ex dd_transmission_bit devices))"

section \<open>Request frames\<close>

definition clm_iefb_send_cyclic_request_frame ::
  "u32 \<Rightarrow> u64 \<Rightarrow> u16 \<Rightarrow> dev_state \<Rightarrow> dev_state" where
  "clm_iefb_send_cyclic_request_frame destination_ip_addr unix_timestamp_ms master_local_unit_info s =
     (let g = fst s;
          frame = cl_iefb_update_request_frame_headers (gd_req_frame g) (gd_frame_sequence_no g)
            unix_timestamp_ms master_local_unit_info (gd_cyclic_transmission_state g)
      in (g\<lparr>gd_req_frame := frame\<rparr>,
          snd s @ [Request_Sent destination_ip_addr (take (mq_udp_payload_len frame) (mq_buffer frame))]))"

text \<open>The slave ids that the loops write one after the other.\<close>

definition device_slave_ids :: "clm_slave_device_setting \<Rightarrow> u32 list" where
  "device_slave_ids d = map (\<lambda>occupied_index. if occupied_index = 0 then sd_slave_id d
     else CL_CCIEFB_MULTISTATION_INDICATOR) [0..<sd_num_occupied_stations d]"

definition clm_iefb_initialise_request_slave_ids :: "clm_group_setting \<Rightarrow> nat \<Rightarrow> bytes \<Rightarrow> bytes" where
  "clm_iefb_initialise_request_slave_ids gs first_slave_id buffer =
     snd (fold (\<lambda>i. fold (\<lambda>v (pos, buf). (pos + 1, put_bytes buf (first_slave_id + pos * sizeof_ipaddr) (le32_bytes v)))
                 (device_slave_ids (gs_slave_devices gs ! i)))
           [0..<gs_num_slave_devices gs] (0, buffer))"

definition clm_iefb_update_request_slave_id ::
  "clm_cciefb_cyclic_request_info \<Rightarrow> nat \<Rightarrow> bool \<Rightarrow> u32 \<Rightarrow> clm_cciefb_cyclic_request_info outcome" where
  "clm_iefb_update_request_slave_id frame slave_station_no enable slave_id =
     cc_assert (slave_station_no \<ge> 1)
       (let pos = slave_station_no - 1 in
        Returns (frame\<lparr>mq_buffer := put_bytes (mq_buffer frame) (mq_first_slave_id frame + pos * sizeof_ipaddr)
          (le32_bytes (if enable then slave_id else CL_IPADDR_INVALID))\<rparr>))"

definition clm_iefb_update_request_frame_cyclic_data_one_device ::
  "clm_group_memory_area \<Rightarrow> nat \<Rightarrow> nat \<Rightarrow> bool \<Rightarrow> clm_cciefb_cyclic_request_info \<Rightarrow> clm_cciefb_cyclic_request_info" where
  "clm_iefb_update_request_frame_cyclic_data_one_device mem slave_station_no num_occupied_stations valid frame =
     (let start_index = slave_station_no - 1;
          num_rww_bytes = num_occupied_stations * sizeof_word_area;
          num_ry_bytes = num_occupied_stations * sizeof_bit_area;
          rww = (if valid then take num_rww_bytes (drop (start_index * sizeof_word_area) (mem_rww mem))
                 else replicate num_rww_bytes 0);
          ry = (if valid then take num_ry_bytes (drop (start_index * sizeof_bit_area) (mem_ry mem))
                else replicate num_ry_bytes 0)
      in frame\<lparr>mq_buffer :=
           put_bytes (put_bytes (mq_buffer frame) (mq_first_rww frame + start_index * sizeof_word_area) rww)
             (mq_first_ry frame + start_index * sizeof_bit_area) ry\<rparr>)"

section \<open>Received frames and statistics\<close>

definition clm_iefb_store_incoming_slave_runtime_info ::
  "clm_cciefb_cyclic_response_info \<Rightarrow> u32 \<Rightarrow> clm_device_framevalues" where
  "clm_iefb_store_incoming_slave_runtime_info cyclic_response transmission_timestamp =
     (let headers = rp_full_headers cyclic_response;
          notification = sf_slave_station_notification headers
      in \<lparr>fv_has_been_received = True,
          fv_num_occupied_stations = rp_number_of_occupied cyclic_response,
          fv_protocol_ver = csh_protocol_ver (sf_cyclic_header headers),
          fv_end_code = csh_end_code (sf_cyclic_header headers),
          fv_vendor_code = sn_vendor_code notification, fv_model_code = sn_model_code notification,
          fv_equipment_ver = sn_equipment_ver notification,
          fv_slave_local_unit_info = sn_slave_local_unit_info notification,
          fv_local_management_info = sn_local_management_info notification,
          fv_slave_err_code = sn_slave_err_code notification,
          fv_slave_id = sdh_slave_id (sf_cyclic_data_header headers),
          fv_group_no = ucast (sdh_group_no (sf_cyclic_data_header headers)),
          fv_frame_sequence_no = sdh_frame_sequence_no (sf_cyclic_data_header headers),
          fv_response_time = rp_reception_timestamp cyclic_response - transmission_timestamp\<rparr>)"

definition clm_iefb_statistics_update_response_time ::
  "u16 \<Rightarrow> u32 \<Rightarrow> clm_slave_device_statistics \<Rightarrow> clm_slave_device_statistics" where
  "clm_iefb_statistics_update_response_time max_number_of_samples response_time st =
     (let m = st_measured_time st in
      if ts_number_of_samples m < ucast max_number_of_samples \<and> ts_sum m < 0xFFFFFFFF div 2 then
        (let n = ts_number_of_samples m + 1; total_sum = ts_sum m + response_time in
         st\<lparr>st_measured_time := \<lparr>ts_number_of_samples = n, ts_sum = total_sum,
              ts_min = min response_time (ts_min m), ts_average = total_sum div n,
              ts_max = max response_time (ts_max m)\<rparr>\<rparr>)
      else st)"

definition clm_iefb_statistics_clear :: clm_slave_device_statistics where
  "clm_iefb_statistics_clear =
     \<lparr>st_number_of_connects = 0, st_number_of_disconnects = 0, st_number_of_timeouts = 0,
      st_number_of_sent_frames = 0, st_number_of_incoming_frames = 0,
      st_number_of_incoming_alarm_frames = 0, st_number_of_incoming_invalid_frames = 0,
      st_measured_time = \<lparr>ts_number_of_samples = 0, ts_sum = 0, ts_min = 0xFFFFFFFF, ts_average = 0, ts_max = 0\<rparr>\<rparr>"

definition clm_iefb_latest_received_clear :: clm_device_framevalues where
  "clm_iefb_latest_received_clear =
     \<lparr>fv_has_been_received = False, fv_num_occupied_stations = 0, fv_protocol_ver = 0, fv_end_code = 0,
      fv_vendor_code = 0, fv_model_code = 0, fv_equipment_ver = 0, fv_slave_local_unit_info = 0,
      fv_local_management_info = 0, fv_slave_err_code = 0, fv_slave_id = 0, fv_group_no = 0,
      fv_frame_sequence_no = 0, fv_response_time = 0\<rparr>"

definition clm_iefb_store_incoming_cyclic_data ::
  "clm_cciefb_cyclic_response_info \<Rightarrow> nat \<Rightarrow> nat \<Rightarrow> bool \<Rightarrow> clm_group_memory_area \<Rightarrow> clm_group_memory_area" where
  "clm_iefb_store_incoming_cyclic_data cyclic_response slave_station_no num_occupied_stations valid mem =
     (let first_index = slave_station_no - 1;
          num_rwr_bytes = num_occupied_stations * sizeof_word_area;
          num_rx_bytes = num_occupied_stations * sizeof_bit_area;
          rwr = (if valid then take num_rwr_bytes (drop (rp_first_rwr cyclic_response) (rp_buffer cyclic_response))
                 else replicate num_rwr_bytes 0);
          rx = (if valid then take num_rx_bytes (drop (rp_first_rx cyclic_response) (rp_buffer cyclic_response))
                else replicate num_rx_bytes 0)
      in mem\<lparr>mem_rwr := put_bytes (mem_rwr mem) (first_index * sizeof_word_area) rwr,
             mem_rx := put_bytes (mem_rx mem) (first_index * sizeof_bit_area) rx\<rparr>)"

section \<open>Callbacks\<close>

definition clm_iefb_set_master_state :: "clm_master_state \<Rightarrow> clm \<Rightarrow> clm" where
  "clm_iefb_set_master_state new_state clm =
     (if new_state \<noteq> clm_state clm
      then (memit_if (mc_state_cb (clm_config clm)) (Master_State_Callback new_state) clm)\<lparr>clm_state := new_state\<rparr>
      else clm)"

definition clm_iefb_trigger_linkscan_callback :: "nat \<Rightarrow> bool \<Rightarrow> clm \<Rightarrow> clm" where
  "clm_iefb_trigger_linkscan_callback gi success clm =
     memit_if (mc_linkscan_cb (clm_config clm))
       (Linkscan_Callback (gd_group_index (clm_groups clm ! gi)) success) clm"

definition clm_error_number :: "clm_error_message \<Rightarrow> int" where
  "clm_error_number m = (case m of CLM_ERROR_ARBITRATION_FAILED \<Rightarrow> 0 | CLM_ERROR_SLAVE_DUPLICATION \<Rightarrow> 1
     | CLM_ERROR_SLAVE_REPORTS_WRONG_NUMBER_OCCUPIED \<Rightarrow> 2 | CLM_ERROR_SLAVE_REPORTS_MASTER_DUPLICATION \<Rightarrow> 3)"

definition clm_iefb_trigger_error_callback :: "u32 \<Rightarrow> clm_error_message \<Rightarrow> u32 \<Rightarrow> u16 \<Rightarrow> clm \<Rightarrow> clm" where
  "clm_iefb_trigger_error_callback now error_message ip_addr argument_2 clm =
     (let (run, limiter) = cl_limiter_should_run_now (clm_error_number error_message) now (clm_errorlimiter clm);
          clm = clm\<lparr>clm_errorlimiter := limiter\<rparr>
      in if \<not> run then clm
         else memit_if (mc_error_cb (clm_config clm)) (Master_Error_Callback error_message ip_addr argument_2) clm)"

text \<open>The callbacks of the device state machine; its trace is the second component of its state.\<close>

definition clm_iefb_trigger_connect_callback :: "clm \<Rightarrow> nat \<Rightarrow> dev_state \<Rightarrow> dev_state" where
  "clm_iefb_trigger_connect_callback clm di s =
     (let g = fst s; d = gd_slave_devices g ! di; ds = device_setting (group_setting clm g) d in
      if mc_connect_cb (clm_config clm)
      then (g, snd s @ [Device_Connect_Callback (gd_group_index g) (dd_device_index d) (sd_slave_id ds)]) else s)"

definition clm_iefb_trigger_disconnect_callback :: "clm \<Rightarrow> nat \<Rightarrow> dev_state \<Rightarrow> dev_state" where
  "clm_iefb_trigger_disconnect_callback clm di s =
     (let g = fst s; d = gd_slave_devices g ! di; ds = device_setting (group_setting clm g) d in
      if mc_disconnect_cb (clm_config clm)
      then (g, snd s @ [Device_Disconnect_Callback (gd_group_index g) (dd_device_index d) (sd_slave_id ds)]) else s)"

definition clm_iefb_trigger_slaveinfo_callback :: "nat \<Rightarrow> nat \<Rightarrow> u16 \<Rightarrow> u16 \<Rightarrow> u32 \<Rightarrow> clm \<Rightarrow> clm" where
  "clm_iefb_trigger_slaveinfo_callback group_index slave_device_index end_code slave_err_code local_management_info clm =
     memit_if (mc_changed_slave_info_cb (clm_config clm))
       (Slave_Info_Callback group_index slave_device_index end_code slave_err_code local_management_info) clm"

definition clm_iefb_trigger_alarmframe_callback :: "nat \<Rightarrow> nat \<Rightarrow> u16 \<Rightarrow> u16 \<Rightarrow> u32 \<Rightarrow> clm \<Rightarrow> clm" where
  "clm_iefb_trigger_alarmframe_callback group_index slave_device_index end_code slave_err_code local_management_info clm =
     memit_if (mc_alarm_cb (clm_config clm))
       (Alarm_Callback group_index slave_device_index end_code slave_err_code local_management_info) clm"

section \<open>Group parameters\<close>

definition reflect_device :: "clm_group_setting \<Rightarrow> nat \<Rightarrow> clm_group_data \<Rightarrow> clm_group_data outcome" where
  "reflect_device gs i g =
     (case clm_iefb_calc_slave_station_no gs i of
        None \<Rightarrow> Assert_Failed
      | Some n \<Rightarrow> Returns (upd_device i (\<lambda>d. d\<lparr>dd_timeout_count := 0, dd_slave_station_no := n\<rparr>) g))"

definition clm_iefb_reflect_group_parameters :: "clm \<Rightarrow> clm_group_data \<Rightarrow> clm_group_data outcome" where
  "clm_iefb_reflect_group_parameters clm g =
     (let gs = group_setting clm g;
          g = g\<lparr>gd_total_occupied := clm_iefb_calc_occupied_per_group gs, gd_frame_sequence_no := 0,
                gd_cyclic_transmission_state := 0\<rparr>
      in obind (for_each (reflect_device gs) [0..<gs_num_slave_devices gs] g) (\<lambda>g.
         obind (cl_iefb_initialise_request_frame CL_BUFFER_LEN (mc_protocol_ver (clm_config clm))
                  (gs_timeout_value gs) (gs_parallel_off_timeout_count gs) (mc_master_id (clm_config clm))
                  (of_nat (gd_group_index g) + 1) (gd_total_occupied g) (clm_parameter_no clm)) (\<lambda>frame.
         Returns (g\<lparr>gd_req_frame := frame\<lparr>mq_buffer :=
           clm_iefb_initialise_request_slave_ids gs (mq_first_slave_id frame) (mq_buffer frame)\<rparr>\<rparr>))))"

section \<open>Station numbers\<close>

definition station_no :: "clm_group_setting \<Rightarrow> nat \<Rightarrow> nat" where
  "station_no gs di = 1 + sum_list (map sd_num_occupied_stations (take di (gs_slave_devices gs)))"

lemma fold_stations:
  assumes "n \<le> length ds" "a + sum_list (map sd_num_occupied_stations (take n ds)) < 2 ^ 16"
  shows "fold (\<lambda>i n. add16 n (sd_num_occupied_stations (ds ! i))) [0..<n] a =
    a + sum_list (map sd_num_occupied_stations (take n ds))"
  using assms
proof (induction n)
  case (Suc n)
  then show ?case by (simp add: take_Suc_conv_app_nth add16_def)
qed simp

definition group_fits :: "clm_group_setting \<Rightarrow> bool" where
  "group_fits gs \<longleftrightarrow> gs_num_slave_devices gs \<le> length (gs_slave_devices gs) \<and> stations_of gs \<le> 16 \<and>
     (\<forall>d \<in> set (devices_of gs). 1 \<le> sd_num_occupied_stations d)"

lemma occupied_per_group: "group_fits gs \<Longrightarrow> clm_iefb_calc_occupied_per_group gs = stations_of gs"
  using fold_stations [of "gs_num_slave_devices gs" "gs_slave_devices gs" 0]
  by (simp add: clm_iefb_calc_occupied_per_group_def group_fits_def stations_of_def devices_of_def)

lemma sum_take_mono: "i \<le> j \<Longrightarrow> sum_list (map f (take i xs)) \<le> (sum_list (map f (take j xs)) :: nat)"
proof -
  assume "i \<le> j"
  then have "take j xs = take i xs @ take (j - i) (drop i xs)" by (metis le_add_diff_inverse take_add)
  then show ?thesis by simp
qed

lemma station_no_Suc:
  assumes "group_fits gs" "di < gs_num_slave_devices gs"
  shows "station_no gs (Suc di) = station_no gs di + sd_num_occupied_stations (gs_slave_devices gs ! di)"
  using assms by (simp add: station_no_def group_fits_def take_Suc_conv_app_nth)

lemma station_no_mono: "i \<le> j \<Longrightarrow> station_no gs i \<le> station_no gs j"
  by (simp add: station_no_def sum_take_mono)

lemma station_no_last: "station_no gs (gs_num_slave_devices gs) = 1 + stations_of gs"
  by (simp add: station_no_def stations_of_def devices_of_def)

lemma station_no_range:
  assumes "group_fits gs" "di < gs_num_slave_devices gs"
  shows "1 \<le> station_no gs di" "1 \<le> sd_num_occupied_stations (gs_slave_devices gs ! di)"
    "station_no gs di + sd_num_occupied_stations (gs_slave_devices gs ! di) \<le> 1 + stations_of gs"
    "station_no gs di \<le> 16"
proof -
  show "1 \<le> station_no gs di" by (simp add: station_no_def)
  have "gs_slave_devices gs ! di \<in> set (devices_of gs)"
    using assms by (auto simp: devices_of_def group_fits_def in_set_conv_nth intro!: exI [of _ di])
  then show occ: "1 \<le> sd_num_occupied_stations (gs_slave_devices gs ! di)" using assms(1) by (auto simp: group_fits_def)
  show fits: "station_no gs di + sd_num_occupied_stations (gs_slave_devices gs ! di) \<le> 1 + stations_of gs"
    using station_no_mono [of "Suc di" "gs_num_slave_devices gs" gs] assms station_no_Suc [OF assms]
      station_no_last [of gs] by simp
  show "station_no gs di \<le> 16" using fits occ assms(1) by (simp add: group_fits_def)
qed

lemma calc_slave_station_no:
  assumes "group_fits gs" "di < gs_num_slave_devices gs"
  shows "clm_iefb_calc_slave_station_no gs di = Some (station_no gs di)"
  using assms station_no_range [OF assms] fold_stations [of di "gs_slave_devices gs" 1]
  by (simp add: clm_iefb_calc_slave_station_no_def station_no_def group_fits_def)

lemma stations_apart:
  assumes "group_fits gs" "i < gs_num_slave_devices gs" "j < gs_num_slave_devices gs" "i \<noteq> j"
  shows "station_no gs i + sd_num_occupied_stations (gs_slave_devices gs ! i) \<le> station_no gs j \<or>
    station_no gs j + sd_num_occupied_stations (gs_slave_devices gs ! j) \<le> station_no gs i"
  using station_no_mono [of "Suc i" j gs] station_no_mono [of "Suc j" i gs]
    station_no_Suc [OF assms(1,2)] station_no_Suc [OF assms(1,3)] assms(4) by linarith

lemma find_device_Some:
  "find_device gs ip is = Some di \<Longrightarrow> di \<in> set is \<and> sd_slave_id (gs_slave_devices gs ! di) = ip"
  by (induction "is") (auto split: if_splits)

lemma find_device_None: "find_device gs ip is = None \<longleftrightarrow> (\<forall>i \<in> set is. sd_slave_id (gs_slave_devices gs ! i) \<noteq> ip)"
  by (induction "is") auto

section \<open>Slices of a buffer\<close>

definition slice :: "bytes \<Rightarrow> nat \<Rightarrow> nat \<Rightarrow> bytes" where
  "slice buf i n = take n (drop i buf)"

lemma slice_put_same: "i + length bs \<le> length buf \<Longrightarrow> slice (put_bytes buf i bs) i (length bs) = bs"
  by (simp add: slice_def put_bytes_read_back)

lemma slice_put_other:
  assumes "i + length bs \<le> length buf" "j + n \<le> i \<or> i + length bs \<le> j"
  shows "slice (put_bytes buf i bs) j n = slice buf j n"
  using assms by (auto simp: slice_def put_bytes_def min_def drop_take)

lemma le32_at_slice: "i + 4 \<le> length buf \<Longrightarrow> le32_at buf i = le32_at (slice buf i 4) 0"
  by (simp add: le32_at_def slice_def)

lemma le32_at_put_same: "i + 4 \<le> length buf \<Longrightarrow> le32_at (put_bytes buf i (le32_bytes v)) i = v"
  unfolding put_bytes_def by (intro le32_at_append) simp

lemma le32_at_put_other:
  assumes "i + length bs \<le> length buf" "j + 4 \<le> length buf" "j + 4 \<le> i \<or> i + length bs \<le> j"
  shows "le32_at (put_bytes buf i bs) j = le32_at buf j"
  using assms by (simp add: le32_at_slice slice_put_other)

lemma take_put_bytes_header:
  "i + length bs \<le> length buf \<Longrightarrow> n \<le> i \<Longrightarrow> take n (put_bytes buf i bs) = take n buf"
  by (simp add: take_put_bytes_before)

section \<open>Rows of a request frame\<close>

text \<open>
  What the request frame of a group with \<open>n\<close> stations holds for stations \<open>k + 1\<close> to \<open>k + m\<close>: the slave
  id of the first of them, the transmission bit, the registers and the bits.
\<close>

definition frame_ok :: "nat \<Rightarrow> clm_cciefb_cyclic_request_info \<Rightarrow> bool" where
  "frame_ok n f \<longleftrightarrow> request_frame_wf f n \<and> length (mq_buffer f) = CL_BUFFER_LEN \<and> n \<le> 16"

definition row_id :: "clm_cciefb_cyclic_request_info \<Rightarrow> nat \<Rightarrow> u32" where
  "row_id f k = le32_at (mq_buffer f) (mq_first_slave_id f + 4 * k)"

definition row_rww :: "clm_cciefb_cyclic_request_info \<Rightarrow> nat \<Rightarrow> nat \<Rightarrow> bytes" where
  "row_rww f k m = slice (mq_buffer f) (mq_first_rww f + 64 * k) (64 * m)"

definition row_ry :: "clm_cciefb_cyclic_request_info \<Rightarrow> nat \<Rightarrow> nat \<Rightarrow> bytes" where
  "row_ry f k m = slice (mq_buffer f) (mq_first_ry f + 8 * k) (8 * m)"

definition row_headers :: "clm_cciefb_cyclic_request_info \<Rightarrow> bytes" where
  "row_headers f = take 67 (mq_buffer f)"

lemma frame_okD:
  assumes "frame_ok n f"
  shows "mq_first_slave_id f = 67" "mq_first_rww f = 67 + 4 * n" "mq_first_ry f = 67 + 68 * n"
    "length (mq_buffer f) = 1500" "n \<le> 16"
  using assms by (simp_all add: frame_ok_def request_frame_wf_def CL_BUFFER_LEN_def)

lemma update_slave_id_row:
  assumes f: "frame_ok n f" and k: "k < n"
  shows "\<exists>f'. clm_iefb_update_request_slave_id f (Suc k) enable v = Returns f' \<and> frame_ok n f' \<and>
    row_id f' k = (if enable then v else 0) \<and> (\<forall>j < n. j \<noteq> k \<longrightarrow> row_id f' j = row_id f j) \<and>
    (\<forall>j m. row_rww f' j m = row_rww f j m \<and> row_ry f' j m = row_ry f j m) \<and> row_headers f' = row_headers f"
proof -
  note d = frame_okD [OF f]
  let ?b = "put_bytes (mq_buffer f) (67 + 4 * k) (le32_bytes (if enable then v else 0))"
  let ?f = "f\<lparr>mq_buffer := ?b\<rparr>"
  have le: "67 + 4 * k + 4 \<le> length (mq_buffer f)" using d k by simp
  have run: "clm_iefb_update_request_slave_id f (Suc k) enable v = Returns ?f"
    by (simp add: clm_iefb_update_request_slave_id_def d sizeof_ipaddr_def CL_IPADDR_INVALID_def mult.commute)
  have ok: "frame_ok n ?f" using f le by (simp add: frame_ok_def request_frame_wf_def)
  have other: "row_id ?f j = row_id f j" if "j < n" "j \<noteq> k" for j
  proof -
    have "le32_at ?b (67 + 4 * j) = le32_at (mq_buffer f) (67 + 4 * j)"
      using that d le k by (intro le32_at_put_other) auto
    then show ?thesis using d by (simp add: row_id_def)
  qed
  have data: "row_rww ?f j m = row_rww f j m" "row_ry ?f j m = row_ry f j m" for j m
    using d le k by (simp_all add: row_rww_def row_ry_def slice_put_other)
  have "row_id ?f k = (if enable then v else 0)" using d le by (simp add: row_id_def le32_at_put_same)
  moreover have "row_headers ?f = row_headers f" using d le by (simp add: row_headers_def take_put_bytes_before)
  ultimately show ?thesis using run ok other data by blast
qed

lemma update_cyclic_data_row:
  assumes f: "frame_ok n f" and k: "k + m \<le> n"
    and mem: "64 * (k + m) \<le> length (mem_rww mem)" "8 * (k + m) \<le> length (mem_ry mem)"
    and f'_def: "f' = clm_iefb_update_request_frame_cyclic_data_one_device mem (Suc k) m valid f"
  shows "frame_ok n f'" "\<forall>j < n. row_id f' j = row_id f j" "row_headers f' = row_headers f"
    "row_rww f' k m = (if valid then slice (mem_rww mem) (64 * k) (64 * m) else replicate (64 * m) 0)"
    "row_ry f' k m = (if valid then slice (mem_ry mem) (8 * k) (8 * m) else replicate (8 * m) 0)"
    "\<And>j l. j + l \<le> k \<or> k + m \<le> j \<Longrightarrow> j + l \<le> n \<Longrightarrow> row_rww f' j l = row_rww f j l \<and> row_ry f' j l = row_ry f j l"
proof -
  note d = frame_okD [OF f]
  define rww where "rww = (if valid then slice (mem_rww mem) (64 * k) (64 * m) else replicate (64 * m) 0)"
  define ry where "ry = (if valid then slice (mem_ry mem) (8 * k) (8 * m) else replicate (8 * m) 0)"
  have len: "length rww = 64 * m" "length ry = 8 * m" using mem by (simp_all add: rww_def ry_def slice_def)
  define b where "b = put_bytes (mq_buffer f) (67 + 4 * n + 64 * k) rww"
  have lb: "67 + 4 * n + 64 * k + length rww \<le> length (mq_buffer f)" using d k len by simp
  have lenb: "length b = 1500" using lb d by (simp add: b_def)
  have lc: "67 + 68 * n + 8 * k + length ry \<le> length b" using d k len lenb by simp
  have f': "f' = f\<lparr>mq_buffer := put_bytes b (67 + 68 * n + 8 * k) ry\<rparr>"
    by (simp add: f'_def clm_iefb_update_request_frame_cyclic_data_one_device_def Let_def d sizeof_word_area_def
        sizeof_bit_area_def b_def rww_def ry_def slice_def mult.commute)
  show "frame_ok n f'" using f lc lenb d by (simp add: f' frame_ok_def request_frame_wf_def CL_BUFFER_LEN_def)
  show "\<forall>j < n. row_id f' j = row_id f j"
  proof (intro allI impI)
    fix j assume "j < n"
    then have "le32_at (put_bytes b (67 + 68 * n + 8 * k) ry) (67 + 4 * j) = le32_at b (67 + 4 * j)"
      using lc lenb d by (intro le32_at_put_other) auto
    also have "\<dots> = le32_at (mq_buffer f) (67 + 4 * j)"
      unfolding b_def using \<open>j < n\<close> lb d by (intro le32_at_put_other) auto
    finally show "row_id f' j = row_id f j" by (simp add: row_id_def f' d)
  qed
  show "row_headers f' = row_headers f"
    using lb lc by (simp add: row_headers_def f' b_def take_put_bytes_before)
  have "slice (put_bytes b (67 + 68 * n + 8 * k) ry) (67 + 4 * n + 64 * k) (64 * m) = slice b (67 + 4 * n + 64 * k) (64 * m)"
    using lc k by (intro slice_put_other) auto
  then show "row_rww f' k m = (if valid then slice (mem_rww mem) (64 * k) (64 * m) else replicate (64 * m) 0)"
    using slice_put_same [OF lb] len by (simp add: row_rww_def f' d b_def rww_def)
  show "row_ry f' k m = (if valid then slice (mem_ry mem) (8 * k) (8 * m) else replicate (8 * m) 0)"
    using slice_put_same [OF lc] len by (simp add: row_ry_def f' d ry_def)
  fix j l assume jl: "j + l \<le> k \<or> k + m \<le> j" "j + l \<le> n"
  have "slice (put_bytes b (67 + 68 * n + 8 * k) ry) (67 + 4 * n + 64 * j) (64 * l) = slice b (67 + 4 * n + 64 * j) (64 * l)"
    using lc jl by (intro slice_put_other) auto
  moreover have "slice b (67 + 4 * n + 64 * j) (64 * l) = slice (mq_buffer f) (67 + 4 * n + 64 * j) (64 * l)"
    unfolding b_def using lb jl len by (intro slice_put_other) auto
  moreover have "slice (put_bytes b (67 + 68 * n + 8 * k) ry) (67 + 68 * n + 8 * j) (8 * l) = slice b (67 + 68 * n + 8 * j) (8 * l)"
    using lc jl len by (intro slice_put_other) auto
  moreover have "slice b (67 + 68 * n + 8 * j) (8 * l) = slice (mq_buffer f) (67 + 68 * n + 8 * j) (8 * l)"
    unfolding b_def using lb k len by (intro slice_put_other) auto
  ultimately show "row_rww f' j l = row_rww f j l \<and> row_ry f' j l = row_ry f j l"
    by (simp add: row_rww_def row_ry_def f' d)
qed

end
