(* ===== verification/CLM_Device.thy ===== *)
theory CLM_Device
  imports CLM_State
begin

text \<open>
  The state machine of one slave device as the master sees it (\<open>device_transitions\<close> and the functions
  around it in \<open>src/master/clm_iefb.c\<close>). The state of the machine is part of the data of the group.
  All functions are called with the index of the device in the group.
\<close>

section \<open>Actions\<close>

definition clm_iefb_device_init :: "clm \<Rightarrow> nat \<Rightarrow> dev_state \<Rightarrow> dev_state" where
  "clm_iefb_device_init clm di s =
     (let g = fst s; ds = device_setting (group_setting clm g) (gd_slave_devices g ! di) in
      (upd_device di (\<lambda>d. d\<lparr>dd_enabled := \<not> sd_reserved_slave_device ds, dd_transmission_bit := False,
         dd_statistics := clm_iefb_statistics_clear, dd_latest_frame := clm_iefb_latest_received_clear,
         dd_timeout_count := 0, dd_slave_station_no := 0\<rparr>) g, snd s))"

definition clm_iefb_set_data_ip :: "clm \<Rightarrow> nat \<Rightarrow> clm_device_state \<Rightarrow> dev_state \<Rightarrow> dev_state outcome" where
  "clm_iefb_set_data_ip clm di new_state s =
     (let d = gd_slave_devices (fst s) ! di;
          ds = device_setting (group_setting clm (fst s)) d;
          s = (if new_state = CLM_DEVICE_STATE_CYCLIC_SENDING then
                 (let s = (if \<not> dd_transmission_bit d then
                        clm_iefb_trigger_connect_callback clm di
                          (upd_device di (upd_statistics (\<lambda>st. st\<lparr>st_number_of_connects :=
                             st_number_of_connects st + 1\<rparr>)) (fst s), snd s)
                      else s)
                  in (upd_device di (\<lambda>d. d\<lparr>dd_transmission_bit := True\<rparr>) (fst s), snd s))
               else
                 (let s = (if dd_transmission_bit d then
                        clm_iefb_trigger_disconnect_callback clm di
                          (upd_device di (upd_statistics (\<lambda>st. st\<lparr>st_number_of_disconnects :=
                             st_number_of_disconnects st + 1\<rparr>)) (fst s), snd s)
                      else s)
                  in (upd_device di (\<lambda>d. d\<lparr>dd_transmission_bit := False\<rparr>) (fst s), snd s)));
          g = fst s;
          d = gd_slave_devices g ! di;
          combined_transmission_bit = (dd_transmission_bit d \<or> dd_force_transmission_bit d);
          g = g\<lparr>gd_cyclic_transmission_state := cl_iefb_set_cyclic_transmission_state
                 (gd_cyclic_transmission_state g) (dd_slave_station_no d) combined_transmission_bit\<rparr>
      in obind (clm_iefb_update_request_slave_id (gd_req_frame g) (dd_slave_station_no d)
                  (new_state \<noteq> CLM_DEVICE_STATE_CYCLIC_SUSPEND) (sd_slave_id ds)) (\<lambda>frame.
         let frame = clm_iefb_update_request_frame_cyclic_data_one_device (gd_memory_area g)
                       (dd_slave_station_no d) (sd_num_occupied_stations ds) combined_transmission_bit frame;
             g = g\<lparr>gd_req_frame := frame\<rparr>;
             g = (if dd_enabled d
                  then upd_device di (upd_statistics (\<lambda>st. st\<lparr>st_number_of_sent_frames :=
                         st_number_of_sent_frames st + 1\<rparr>)) g
                  else g)
         in Returns (g, snd s)))"

definition clm_iefb_evaluate_timeoutcounter :: "clm \<Rightarrow> nat \<Rightarrow> dev_state \<Rightarrow> clm_device_event \<times> dev_state" where
  "clm_iefb_evaluate_timeoutcounter clm di s =
     (let g = upd_device di (\<lambda>d. d\<lparr>dd_timeout_count := dd_timeout_count d + 1\<rparr>) (fst s) in
      if dd_timeout_count (gd_slave_devices g ! di) \<ge> gs_parallel_off_timeout_count (group_setting clm g)
      then (CLM_DEVICE_EVENT_TIMEOUTCOUNTER_FULL,
            (upd_device di (upd_statistics (\<lambda>st. st\<lparr>st_number_of_timeouts := st_number_of_timeouts st + 1\<rparr>)) g, snd s))
      else (CLM_DEVICE_EVENT_TIMEOUTCOUNTER_NOT_FULL, (g, snd s)))"

definition clm_iefb_reset_timeout_count :: "nat \<Rightarrow> dev_state \<Rightarrow> dev_state" where
  "clm_iefb_reset_timeout_count di s = (upd_device di (\<lambda>d. d\<lparr>dd_timeout_count := 0\<rparr>) (fst s), snd s)"

text \<open>Calling a function of the tables; the new state is an argument of all of them.\<close>

fun run_device_action ::
  "clm_device_action \<Rightarrow> clm \<Rightarrow> nat \<Rightarrow> clm_device_state \<Rightarrow> dev_state \<Rightarrow> (clm_device_event \<times> dev_state) outcome" where
  "run_device_action Device_Init clm di new_state s =
     Returns (CLM_DEVICE_EVENT_NONE, clm_iefb_device_init clm di s)"
| "run_device_action Set_Data_Ip clm di new_state s =
     obind (clm_iefb_set_data_ip clm di new_state s) (\<lambda>s. Returns (CLM_DEVICE_EVENT_NONE, s))"
| "run_device_action Evaluate_Timeoutcounter clm di new_state s =
     Returns (clm_iefb_evaluate_timeoutcounter clm di s)"
| "run_device_action Reset_Timeout_Count clm di new_state s =
     Returns (CLM_DEVICE_EVENT_NONE, clm_iefb_reset_timeout_count di s)"

section \<open>Tables\<close>

definition device_transitions :: "(clm_device_state, clm_device_event, clm_device_action) transition list" where
  "device_transitions = [
     (CLM_DEVICE_STATE_MASTER_DOWN, CLM_DEVICE_EVENT_GROUP_STARTUP, CLM_DEVICE_STATE_LISTEN, Some Device_Init),
     (CLM_DEVICE_STATE_LISTEN, CLM_DEVICE_EVENT_GROUP_STANDBY, CLM_DEVICE_STATE_LISTEN, None),
     (CLM_DEVICE_STATE_LISTEN, CLM_DEVICE_EVENT_SCAN_START_DEVICE_START, CLM_DEVICE_STATE_WAIT_TD, Some Set_Data_Ip),
     (CLM_DEVICE_STATE_LISTEN, CLM_DEVICE_EVENT_SCAN_START_DEVICE_STOP, CLM_DEVICE_STATE_CYCLIC_SUSPEND, Some Set_Data_Ip),
     (CLM_DEVICE_STATE_LISTEN, CLM_DEVICE_EVENT_SLAVE_DUPLICATION, CLM_DEVICE_STATE_LISTEN, None),
     (CLM_DEVICE_STATE_WAIT_TD, CLM_DEVICE_EVENT_GROUP_STANDBY, CLM_DEVICE_STATE_LISTEN, None),
     (CLM_DEVICE_STATE_WAIT_TD, CLM_DEVICE_EVENT_RECEIVE_OK, CLM_DEVICE_STATE_CYCLIC_SENT, None),
     (CLM_DEVICE_STATE_WAIT_TD, CLM_DEVICE_EVENT_RECEIVE_ERROR, CLM_DEVICE_STATE_LISTEN, None),
     (CLM_DEVICE_STATE_WAIT_TD, CLM_DEVICE_EVENT_GROUP_TIMEOUT, CLM_DEVICE_STATE_LISTEN, None),
     (CLM_DEVICE_STATE_WAIT_TD, CLM_DEVICE_EVENT_GROUP_ALL_RESPONDED, CLM_DEVICE_STATE_LISTEN, None),
     (CLM_DEVICE_STATE_WAIT_TD, CLM_DEVICE_EVENT_SLAVE_DUPLICATION, CLM_DEVICE_STATE_LISTEN, None),
     (CLM_DEVICE_STATE_CYCLIC_SUSPEND, CLM_DEVICE_EVENT_GROUP_STANDBY, CLM_DEVICE_STATE_LISTEN, None),
     (CLM_DEVICE_STATE_CYCLIC_SUSPEND, CLM_DEVICE_EVENT_GROUP_TIMEOUT, CLM_DEVICE_STATE_LISTEN, None),
     (CLM_DEVICE_STATE_CYCLIC_SUSPEND, CLM_DEVICE_EVENT_GROUP_ALL_RESPONDED, CLM_DEVICE_STATE_LISTEN, None),
     (CLM_DEVICE_STATE_CYCLIC_SUSPEND, CLM_DEVICE_EVENT_SLAVE_DUPLICATION, CLM_DEVICE_STATE_LISTEN, None),
     (CLM_DEVICE_STATE_CYCLIC_SENT, CLM_DEVICE_EVENT_GROUP_STANDBY, CLM_DEVICE_STATE_LISTEN, None),
     (CLM_DEVICE_STATE_CYCLIC_SENT, CLM_DEVICE_EVENT_SCAN_START_DEVICE_START, CLM_DEVICE_STATE_CYCLIC_SENDING, Some Set_Data_Ip),
     (CLM_DEVICE_STATE_CYCLIC_SENT, CLM_DEVICE_EVENT_SCAN_START_DEVICE_STOP, CLM_DEVICE_STATE_CYCLIC_SUSPEND, None),
     (CLM_DEVICE_STATE_CYCLIC_SENT, CLM_DEVICE_EVENT_SLAVE_DUPLICATION, CLM_DEVICE_STATE_LISTEN, None),
     (CLM_DEVICE_STATE_CYCLIC_SENDING, CLM_DEVICE_EVENT_GROUP_STANDBY, CLM_DEVICE_STATE_LISTEN, None),
     (CLM_DEVICE_STATE_CYCLIC_SENDING, CLM_DEVICE_EVENT_RECEIVE_OK, CLM_DEVICE_STATE_CYCLIC_SENT, Some Reset_Timeout_Count),
     (CLM_DEVICE_STATE_CYCLIC_SENDING, CLM_DEVICE_EVENT_RECEIVE_ERROR, CLM_DEVICE_STATE_LISTEN, None),
     (CLM_DEVICE_STATE_CYCLIC_SENDING, CLM_DEVICE_EVENT_GROUP_TIMEOUT, CLM_DEVICE_STATE_CYCLIC_SENDING, Some Evaluate_Timeoutcounter),
     (CLM_DEVICE_STATE_CYCLIC_SENDING, CLM_DEVICE_EVENT_TIMEOUTCOUNTER_FULL, CLM_DEVICE_STATE_LISTEN, None),
     (CLM_DEVICE_STATE_CYCLIC_SENDING, CLM_DEVICE_EVENT_TIMEOUTCOUNTER_NOT_FULL, CLM_DEVICE_STATE_CYCLIC_SENT, None),
     (CLM_DEVICE_STATE_CYCLIC_SENDING, CLM_DEVICE_EVENT_SLAVE_DUPLICATION, CLM_DEVICE_STATE_LISTEN, None)]"

definition device_state_actions :: "(clm_device_state, clm_device_action) state_action list" where
  "device_state_actions = [(CLM_DEVICE_STATE_LISTEN, Some Reset_Timeout_Count, None)]"

definition clm_iefb_device_fsm_tables_init :: "clm \<Rightarrow> clm" where
  "clm_iefb_device_fsm_tables_init clm =
     clm\<lparr>clm_device_fsm_matrix := build_matrix device_transitions,
         clm_device_fsm_on_entry_exit := build_entry_exit device_state_actions\<rparr>"

section \<open>Event loop\<close>

text \<open>One round: new state, transition action, and the entry action of a state that was entered.\<close>

definition device_round :: "clm \<Rightarrow> nat \<Rightarrow> clm_device_event \<Rightarrow> dev_state \<Rightarrow> (clm_device_event \<times> dev_state) outcome" where
  "device_round clm di event s =
     (let previous = dd_device_state (gd_slave_devices (fst s) ! di);
          (new_state, action) = clm_device_fsm_matrix clm previous event;
          on_entry = fst (clm_device_fsm_on_entry_exit clm new_state);
          s = (upd_device di (\<lambda>d. d\<lparr>dd_device_state := new_state\<rparr>) (fst s), snd s)
      in obind (case action of Some a \<Rightarrow> run_device_action a clm di new_state s
                | None \<Rightarrow> Returns (CLM_DEVICE_EVENT_NONE, s)) (\<lambda>(event, s).
         case on_entry of
           Some a \<Rightarrow> if new_state \<noteq> previous
                     then obind (run_device_action a clm di new_state s) (\<lambda>(_, s). Returns (event, s))
                     else Returns (event, s)
         | None \<Rightarrow> Returns (event, s)))"

definition device_fuel :: nat where "device_fuel = 2"

definition clm_iefb_device_fsm_event :: "clm \<Rightarrow> nat \<Rightarrow> clm_device_event \<Rightarrow> dev_state \<Rightarrow> dev_state outcome" where
  "clm_iefb_device_fsm_event clm di event s =
     (if event = CLM_DEVICE_EVENT_LAST then Returns s
      else event_loop (device_round clm di) CLM_DEVICE_EVENT_NONE device_fuel event s)"

definition clm_iefb_device_fsm_event_all_in_group ::
  "clm \<Rightarrow> clm_device_event \<Rightarrow> dev_state \<Rightarrow> dev_state outcome" where
  "clm_iefb_device_fsm_event_all_in_group clm event s =
     for_each (\<lambda>di. clm_iefb_device_fsm_event clm di event)
       [0..<gs_num_slave_devices (group_setting clm (fst s))] s"

section \<open>Reading the tables\<close>

definition device_tables :: "clm \<Rightarrow> bool" where
  "device_tables clm \<longleftrightarrow> clm_device_fsm_matrix clm = build_matrix device_transitions \<and>
     clm_device_fsm_on_entry_exit clm = build_entry_exit device_state_actions"

lemma device_transitions_distinct: "distinct (transition_keys device_transitions)"
  by (simp add: device_transitions_def transition_keys_def)

definition device_find where "device_find = find_transition device_transitions"

lemma device_find_live:
  "device_find CLM_DEVICE_STATE_LISTEN CLM_DEVICE_EVENT_GROUP_STANDBY = Some (CLM_DEVICE_STATE_LISTEN, None)"
  "device_find CLM_DEVICE_STATE_LISTEN CLM_DEVICE_EVENT_SLAVE_DUPLICATION = Some (CLM_DEVICE_STATE_LISTEN, None)"
  "device_find CLM_DEVICE_STATE_LISTEN CLM_DEVICE_EVENT_RECEIVE_ERROR = None"
  "device_find CLM_DEVICE_STATE_LISTEN CLM_DEVICE_EVENT_RECEIVE_OK = None"
  "device_find CLM_DEVICE_STATE_LISTEN CLM_DEVICE_EVENT_GROUP_TIMEOUT = None"
  "device_find CLM_DEVICE_STATE_LISTEN CLM_DEVICE_EVENT_GROUP_ALL_RESPONDED = None"
  "device_find CLM_DEVICE_STATE_LISTEN CLM_DEVICE_EVENT_SCAN_START_DEVICE_START = Some (CLM_DEVICE_STATE_WAIT_TD, Some Set_Data_Ip)"
  "device_find CLM_DEVICE_STATE_LISTEN CLM_DEVICE_EVENT_SCAN_START_DEVICE_STOP = Some (CLM_DEVICE_STATE_CYCLIC_SUSPEND, Some Set_Data_Ip)"
  "device_find CLM_DEVICE_STATE_LISTEN CLM_DEVICE_EVENT_TIMEOUTCOUNTER_FULL = None"
  "device_find CLM_DEVICE_STATE_LISTEN CLM_DEVICE_EVENT_TIMEOUTCOUNTER_NOT_FULL = None"
  "device_find CLM_DEVICE_STATE_WAIT_TD CLM_DEVICE_EVENT_GROUP_STANDBY = Some (CLM_DEVICE_STATE_LISTEN, None)"
  "device_find CLM_DEVICE_STATE_WAIT_TD CLM_DEVICE_EVENT_SLAVE_DUPLICATION = Some (CLM_DEVICE_STATE_LISTEN, None)"
  "device_find CLM_DEVICE_STATE_WAIT_TD CLM_DEVICE_EVENT_RECEIVE_ERROR = Some (CLM_DEVICE_STATE_LISTEN, None)"
  "device_find CLM_DEVICE_STATE_WAIT_TD CLM_DEVICE_EVENT_RECEIVE_OK = Some (CLM_DEVICE_STATE_CYCLIC_SENT, None)"
  "device_find CLM_DEVICE_STATE_WAIT_TD CLM_DEVICE_EVENT_GROUP_TIMEOUT = Some (CLM_DEVICE_STATE_LISTEN, None)"
  "device_find CLM_DEVICE_STATE_WAIT_TD CLM_DEVICE_EVENT_GROUP_ALL_RESPONDED = Some (CLM_DEVICE_STATE_LISTEN, None)"
  "device_find CLM_DEVICE_STATE_WAIT_TD CLM_DEVICE_EVENT_SCAN_START_DEVICE_START = None"
  "device_find CLM_DEVICE_STATE_WAIT_TD CLM_DEVICE_EVENT_SCAN_START_DEVICE_STOP = None"
  "device_find CLM_DEVICE_STATE_WAIT_TD CLM_DEVICE_EVENT_TIMEOUTCOUNTER_FULL = None"
  "device_find CLM_DEVICE_STATE_WAIT_TD CLM_DEVICE_EVENT_TIMEOUTCOUNTER_NOT_FULL = None"
  "device_find CLM_DEVICE_STATE_CYCLIC_SUSPEND CLM_DEVICE_EVENT_GROUP_STANDBY = Some (CLM_DEVICE_STATE_LISTEN, None)"
  "device_find CLM_DEVICE_STATE_CYCLIC_SUSPEND CLM_DEVICE_EVENT_SLAVE_DUPLICATION = Some (CLM_DEVICE_STATE_LISTEN, None)"
  "device_find CLM_DEVICE_STATE_CYCLIC_SUSPEND CLM_DEVICE_EVENT_RECEIVE_ERROR = None"
  "device_find CLM_DEVICE_STATE_CYCLIC_SUSPEND CLM_DEVICE_EVENT_RECEIVE_OK = None"
  "device_find CLM_DEVICE_STATE_CYCLIC_SUSPEND CLM_DEVICE_EVENT_GROUP_TIMEOUT = Some (CLM_DEVICE_STATE_LISTEN, None)"
  "device_find CLM_DEVICE_STATE_CYCLIC_SUSPEND CLM_DEVICE_EVENT_GROUP_ALL_RESPONDED = Some (CLM_DEVICE_STATE_LISTEN, None)"
  "device_find CLM_DEVICE_STATE_CYCLIC_SUSPEND CLM_DEVICE_EVENT_SCAN_START_DEVICE_START = None"
  "device_find CLM_DEVICE_STATE_CYCLIC_SUSPEND CLM_DEVICE_EVENT_SCAN_START_DEVICE_STOP = None"
  "device_find CLM_DEVICE_STATE_CYCLIC_SUSPEND CLM_DEVICE_EVENT_TIMEOUTCOUNTER_FULL = None"
  "device_find CLM_DEVICE_STATE_CYCLIC_SUSPEND CLM_DEVICE_EVENT_TIMEOUTCOUNTER_NOT_FULL = None"
  "device_find CLM_DEVICE_STATE_CYCLIC_SENT CLM_DEVICE_EVENT_GROUP_STANDBY = Some (CLM_DEVICE_STATE_LISTEN, None)"
  "device_find CLM_DEVICE_STATE_CYCLIC_SENT CLM_DEVICE_EVENT_SLAVE_DUPLICATION = Some (CLM_DEVICE_STATE_LISTEN, None)"
  "device_find CLM_DEVICE_STATE_CYCLIC_SENT CLM_DEVICE_EVENT_RECEIVE_ERROR = None"
  "device_find CLM_DEVICE_STATE_CYCLIC_SENT CLM_DEVICE_EVENT_RECEIVE_OK = None"
  "device_find CLM_DEVICE_STATE_CYCLIC_SENT CLM_DEVICE_EVENT_GROUP_TIMEOUT = None"
  "device_find CLM_DEVICE_STATE_CYCLIC_SENT CLM_DEVICE_EVENT_GROUP_ALL_RESPONDED = None"
  "device_find CLM_DEVICE_STATE_CYCLIC_SENT CLM_DEVICE_EVENT_SCAN_START_DEVICE_START = Some (CLM_DEVICE_STATE_CYCLIC_SENDING, Some Set_Data_Ip)"
  "device_find CLM_DEVICE_STATE_CYCLIC_SENT CLM_DEVICE_EVENT_SCAN_START_DEVICE_STOP = Some (CLM_DEVICE_STATE_CYCLIC_SUSPEND, None)"
  "device_find CLM_DEVICE_STATE_CYCLIC_SENT CLM_DEVICE_EVENT_TIMEOUTCOUNTER_FULL = None"
  "device_find CLM_DEVICE_STATE_CYCLIC_SENT CLM_DEVICE_EVENT_TIMEOUTCOUNTER_NOT_FULL = None"
  "device_find CLM_DEVICE_STATE_CYCLIC_SENDING CLM_DEVICE_EVENT_GROUP_STANDBY = Some (CLM_DEVICE_STATE_LISTEN, None)"
  "device_find CLM_DEVICE_STATE_CYCLIC_SENDING CLM_DEVICE_EVENT_SLAVE_DUPLICATION = Some (CLM_DEVICE_STATE_LISTEN, None)"
  "device_find CLM_DEVICE_STATE_CYCLIC_SENDING CLM_DEVICE_EVENT_RECEIVE_ERROR = Some (CLM_DEVICE_STATE_LISTEN, None)"
  "device_find CLM_DEVICE_STATE_CYCLIC_SENDING CLM_DEVICE_EVENT_RECEIVE_OK = Some (CLM_DEVICE_STATE_CYCLIC_SENT, Some Reset_Timeout_Count)"
  "device_find CLM_DEVICE_STATE_CYCLIC_SENDING CLM_DEVICE_EVENT_GROUP_TIMEOUT = Some (CLM_DEVICE_STATE_CYCLIC_SENDING, Some Evaluate_Timeoutcounter)"
  "device_find CLM_DEVICE_STATE_CYCLIC_SENDING CLM_DEVICE_EVENT_GROUP_ALL_RESPONDED = None"
  "device_find CLM_DEVICE_STATE_CYCLIC_SENDING CLM_DEVICE_EVENT_SCAN_START_DEVICE_START = None"
  "device_find CLM_DEVICE_STATE_CYCLIC_SENDING CLM_DEVICE_EVENT_SCAN_START_DEVICE_STOP = None"
  "device_find CLM_DEVICE_STATE_CYCLIC_SENDING CLM_DEVICE_EVENT_TIMEOUTCOUNTER_FULL = Some (CLM_DEVICE_STATE_LISTEN, None)"
  "device_find CLM_DEVICE_STATE_CYCLIC_SENDING CLM_DEVICE_EVENT_TIMEOUTCOUNTER_NOT_FULL = Some (CLM_DEVICE_STATE_CYCLIC_SENT, None)"
  "device_find CLM_DEVICE_STATE_MASTER_DOWN CLM_DEVICE_EVENT_GROUP_STARTUP = Some (CLM_DEVICE_STATE_LISTEN, Some Device_Init)"
  by (simp_all add: device_find_def device_transitions_def find_transition_def)

lemmas device_lookup = build_matrix_lookup [OF device_transitions_distinct, folded device_find_def]

lemma device_entry: "fst (build_entry_exit device_state_actions st) =
    (if st = CLM_DEVICE_STATE_LISTEN then Some Reset_Timeout_Count else None)"
  by (simp add: build_entry_exit_lookup device_state_actions_def)

lemma upd_device_simps [simp]:
  "gd_slave_devices (upd_device di f g) = (gd_slave_devices g)[di := f (gd_slave_devices g ! di)]"
  "gd_group_index (upd_device di f g) = gd_group_index g"
  "gd_total_occupied (upd_device di f g) = gd_total_occupied g"
  "gd_frame_sequence_no (upd_device di f g) = gd_frame_sequence_no g"
  "gd_cyclic_transmission_state (upd_device di f g) = gd_cyclic_transmission_state g"
  "gd_group_state (upd_device di f g) = gd_group_state g"
  "gd_response_wait_timer (upd_device di f g) = gd_response_wait_timer g"
  "gd_constant_linkscan_timer (upd_device di f g) = gd_constant_linkscan_timer g"
  "gd_req_frame (upd_device di f g) = gd_req_frame g"
  "gd_memory_area (upd_device di f g) = gd_memory_area g"
  by (simp_all add: upd_device_def)

lemma upd_device_twice [simp]: "upd_device di f (upd_device di h g) = upd_device di (\<lambda>d. f (h d)) g"
proof (cases "di < length (gd_slave_devices g)")
  case False then show ?thesis by (simp add: upd_device_def list_update_beyond)
qed (simp add: upd_device_def)

lemma upd_device_cong: "f (gd_slave_devices g ! di) = h (gd_slave_devices g ! di) \<Longrightarrow> upd_device di f g = upd_device di h g"
  by (simp add: upd_device_def)

lemma group_setting_upd [simp]: "group_setting clm (upd_device di f g) = group_setting clm g"
  by (simp add: group_setting_def)

section \<open>Events that do not start a scan\<close>

text \<open>The effect on the device, without tables and loop.\<close>

definition after_event :: "clm_group_setting \<Rightarrow> clm_device_event \<Rightarrow> clm_slave_device_data \<Rightarrow> clm_slave_device_data" where
  "after_event gs ev d =
     (let st = dd_device_state d in
      if st = CLM_DEVICE_STATE_CYCLIC_SENDING \<and> ev = CLM_DEVICE_EVENT_GROUP_TIMEOUT then
        (if dd_timeout_count d + 1 \<ge> gs_parallel_off_timeout_count gs
         then (upd_statistics (\<lambda>st. st\<lparr>st_number_of_timeouts := st_number_of_timeouts st + 1\<rparr>) d)
           \<lparr>dd_device_state := CLM_DEVICE_STATE_LISTEN, dd_timeout_count := 0\<rparr>
         else d\<lparr>dd_device_state := CLM_DEVICE_STATE_CYCLIC_SENT, dd_timeout_count := dd_timeout_count d + 1\<rparr>)
      else if st = CLM_DEVICE_STATE_CYCLIC_SENDING \<and> ev = CLM_DEVICE_EVENT_RECEIVE_OK then
        d\<lparr>dd_device_state := CLM_DEVICE_STATE_CYCLIC_SENT, dd_timeout_count := 0\<rparr>
      else if st = CLM_DEVICE_STATE_WAIT_TD \<and> ev = CLM_DEVICE_EVENT_RECEIVE_OK then
        d\<lparr>dd_device_state := CLM_DEVICE_STATE_CYCLIC_SENT\<rparr>
      else if st \<in> {CLM_DEVICE_STATE_WAIT_TD, CLM_DEVICE_STATE_CYCLIC_SUSPEND, CLM_DEVICE_STATE_CYCLIC_SENT,
                  CLM_DEVICE_STATE_CYCLIC_SENDING} \<and>
              ev \<in> {CLM_DEVICE_EVENT_GROUP_STANDBY, CLM_DEVICE_EVENT_SLAVE_DUPLICATION} \<or>
              st \<in> {CLM_DEVICE_STATE_WAIT_TD, CLM_DEVICE_STATE_CYCLIC_SENDING} \<and>
              ev = CLM_DEVICE_EVENT_RECEIVE_ERROR \<or>
              st \<in> {CLM_DEVICE_STATE_WAIT_TD, CLM_DEVICE_STATE_CYCLIC_SUSPEND} \<and>
              ev \<in> {CLM_DEVICE_EVENT_GROUP_TIMEOUT, CLM_DEVICE_EVENT_GROUP_ALL_RESPONDED} then
        d\<lparr>dd_device_state := CLM_DEVICE_STATE_LISTEN, dd_timeout_count := 0\<rparr>
      else d)"

definition quiet_events :: "clm_device_event set" where
  "quiet_events = {CLM_DEVICE_EVENT_GROUP_STANDBY, CLM_DEVICE_EVENT_SLAVE_DUPLICATION,
     CLM_DEVICE_EVENT_RECEIVE_ERROR, CLM_DEVICE_EVENT_RECEIVE_OK, CLM_DEVICE_EVENT_GROUP_TIMEOUT,
     CLM_DEVICE_EVENT_GROUP_ALL_RESPONDED}"

definition live_states :: "clm_device_state set" where
  "live_states = {CLM_DEVICE_STATE_LISTEN, CLM_DEVICE_STATE_WAIT_TD, CLM_DEVICE_STATE_CYCLIC_SUSPEND,
     CLM_DEVICE_STATE_CYCLIC_SENT, CLM_DEVICE_STATE_CYCLIC_SENDING}"

lemma quiet_event:
  assumes "device_tables clm" "di < length (gd_slave_devices g)" "ev \<in> quiet_events"
    and "dd_device_state (gd_slave_devices g ! di) \<in> live_states"
  shows "clm_iefb_device_fsm_event clm di ev (g, out) = Returns (upd_device di (after_event (group_setting clm g) ev) g, out)"
proof -
  have m: "clm_device_fsm_matrix clm = build_matrix device_transitions"
    "clm_device_fsm_on_entry_exit clm = build_entry_exit device_state_actions"
    using assms(1) by (simp_all add: device_tables_def)
  note ev = assms(3) [unfolded quiet_events_def]
  show ?thesis
    using assms(2,4) ev unfolding live_states_def
    by (auto simp: clm_iefb_device_fsm_event_def device_fuel_def numeral_2_eq_2 device_round_def m device_lookup
        device_entry device_find_live clm_iefb_reset_timeout_count_def
        clm_iefb_evaluate_timeoutcounter_def after_event_def Let_def upd_statistics_def
        split: if_splits intro!: upd_device_cong)
qed

section \<open>Starting a scan\<close>

text \<open>What the master relies on for a device of a group whose parameters are set.\<close>

definition device_placed :: "clm_group_setting \<Rightarrow> clm_group_data \<Rightarrow> nat \<Rightarrow> bool" where
  "device_placed gs g di \<longleftrightarrow> di < length (gd_slave_devices g) \<and>
     dd_device_index (gd_slave_devices g ! di) = di \<and> dd_slave_station_no (gd_slave_devices g ! di) = station_no gs di"

definition memory_ok :: "clm_group_setting \<Rightarrow> clm_group_memory_area \<Rightarrow> bool" where
  "memory_ok gs m \<longleftrightarrow> 64 * stations_of gs \<le> length (mem_rww m) \<and> 8 * stations_of gs \<le> length (mem_ry m) \<and>
     64 * stations_of gs \<le> length (mem_rwr m) \<and> 8 * stations_of gs \<le> length (mem_rx m)"

definition device_occ :: "clm_group_setting \<Rightarrow> nat \<Rightarrow> nat" where
  "device_occ gs di = sd_num_occupied_stations (gs_slave_devices gs ! di)"

text \<open>The contents of the request frame for one device.\<close>

definition device_row :: "clm_group_setting \<Rightarrow> clm_group_data \<Rightarrow> nat \<Rightarrow> u32 \<times> bool \<times> bytes \<times> bytes" where
  "device_row gs g di =
     (let k = station_no gs di - 1; f = gd_req_frame g in
      (row_id f k, bit (gd_cyclic_transmission_state g) k, row_rww f k (device_occ gs di), row_ry f k (device_occ gs di)))"

definition row_data :: "clm_group_setting \<Rightarrow> clm_group_data \<Rightarrow> nat \<Rightarrow> u32 \<Rightarrow> bool \<Rightarrow> u32 \<times> bool \<times> bytes \<times> bytes" where
  "row_data gs g di ip valid =
     (let k = station_no gs di - 1; m = device_occ gs di; mem = gd_memory_area g in
      (ip, valid,
       (if valid then slice (mem_rww mem) (64 * k) (64 * m) else replicate (64 * m) 0),
       (if valid then slice (mem_ry mem) (8 * k) (8 * m) else replicate (8 * m) 0)))"

text \<open>Everything of a group that scanning one device leaves alone.\<close>

definition same_group :: "clm_group_data \<Rightarrow> clm_group_data \<Rightarrow> bool" where
  "same_group g g' \<longleftrightarrow> gd_group_index g' = gd_group_index g \<and> gd_total_occupied g' = gd_total_occupied g \<and>
     gd_frame_sequence_no g' = gd_frame_sequence_no g \<and> gd_group_state g' = gd_group_state g \<and>
     gd_timestamp_link_scan_start g' = gd_timestamp_link_scan_start g \<and>
     gd_response_wait_timer g' = gd_response_wait_timer g \<and>
     gd_constant_linkscan_timer g' = gd_constant_linkscan_timer g \<and>
     gd_memory_area g' = gd_memory_area g \<and> length (gd_slave_devices g') = length (gd_slave_devices g)"

definition same_placing :: "clm_slave_device_data \<Rightarrow> clm_slave_device_data \<Rightarrow> bool" where
  "same_placing d d' \<longleftrightarrow> dd_device_index d' = dd_device_index d \<and> dd_slave_station_no d' = dd_slave_station_no d \<and>
     dd_enabled d' = dd_enabled d \<and> dd_force_transmission_bit d' = dd_force_transmission_bit d \<and>
     dd_latest_frame d' = dd_latest_frame d \<and> dd_timeout_count d' = dd_timeout_count d"

definition is_scan_output :: "clm_output \<Rightarrow> bool" where
  "is_scan_output x \<longleftrightarrow> (case x of Device_Connect_Callback _ _ _ \<Rightarrow> True | Device_Disconnect_Callback _ _ _ \<Rightarrow> True | _ \<Rightarrow> False)"

lemma set_data_ip_run:
  assumes len: "di < length (gd_slave_devices g)" and d: "gd_slave_devices g ! di = d"
    and ds: "device_setting (group_setting clm g) d = ds"
    and f1: "clm_iefb_update_request_slave_id (gd_req_frame g) (dd_slave_station_no d)
      (st \<noteq> CLM_DEVICE_STATE_CYCLIC_SUSPEND) (sd_slave_id ds) = Returns f1"
    and comb: "comb = (st = CLM_DEVICE_STATE_CYCLIC_SENDING \<or> dd_force_transmission_bit d)"
  shows "\<exists>d' outs. clm_iefb_set_data_ip clm di st (g, out) = Returns (g\<lparr>
      gd_slave_devices := (gd_slave_devices g)[di := d'],
      gd_cyclic_transmission_state := cl_iefb_set_cyclic_transmission_state (gd_cyclic_transmission_state g) (dd_slave_station_no d) comb,
      gd_req_frame := clm_iefb_update_request_frame_cyclic_data_one_device (gd_memory_area g)
        (dd_slave_station_no d) (sd_num_occupied_stations ds) comb f1\<rparr>, out @ outs) \<and>
    list_all is_scan_output outs \<and> same_placing d d' \<and> dd_device_state d' = dd_device_state d \<and>
    (dd_transmission_bit d' \<longleftrightarrow> st = CLM_DEVICE_STATE_CYCLIC_SENDING)"
proof -
  define stat where "stat = (let a = dd_statistics d;
      b = (if st = CLM_DEVICE_STATE_CYCLIC_SENDING \<and> \<not> dd_transmission_bit d
           then a\<lparr>st_number_of_connects := st_number_of_connects a + 1\<rparr>
           else if st \<noteq> CLM_DEVICE_STATE_CYCLIC_SENDING \<and> dd_transmission_bit d
           then a\<lparr>st_number_of_disconnects := st_number_of_disconnects a + 1\<rparr> else a)
    in if dd_enabled d then b\<lparr>st_number_of_sent_frames := st_number_of_sent_frames b + 1\<rparr> else b)"
  define d' where "d' = d\<lparr>dd_transmission_bit := (st = CLM_DEVICE_STATE_CYCLIC_SENDING), dd_statistics := stat\<rparr>"
  define outs where "outs = (if st = CLM_DEVICE_STATE_CYCLIC_SENDING \<and> \<not> dd_transmission_bit d \<and> mc_connect_cb (clm_config clm)
      then [Device_Connect_Callback (gd_group_index g) (dd_device_index d) (sd_slave_id ds)]
      else if st \<noteq> CLM_DEVICE_STATE_CYCLIC_SENDING \<and> dd_transmission_bit d \<and> mc_disconnect_cb (clm_config clm)
      then [Device_Disconnect_Callback (gd_group_index g) (dd_device_index d) (sd_slave_id ds)] else [])"
  have ds': "gs_slave_devices (hi_groups (mc_hier (clm_config clm)) ! gd_group_index g) ! dd_device_index d = ds"
    using ds by (simp add: device_setting_def group_setting_def)
  have order: "d\<lparr>dd_statistics := x, dd_transmission_bit := t\<rparr> = d\<lparr>dd_transmission_bit := t, dd_statistics := x\<rparr>"
    "g\<lparr>gd_slave_devices := ys, gd_cyclic_transmission_state := w, gd_req_frame := f, gd_slave_devices := xs\<rparr> =
     g\<lparr>gd_slave_devices := xs, gd_cyclic_transmission_state := w, gd_req_frame := f\<rparr>"
    "g\<lparr>gd_cyclic_transmission_state := w, gd_req_frame := f, gd_slave_devices := xs\<rparr> =
     g\<lparr>gd_slave_devices := xs, gd_cyclic_transmission_state := w, gd_req_frame := f\<rparr>"
    for x t w f xs ys and d :: clm_slave_device_data by simp_all
  note defs = clm_iefb_set_data_ip_def clm_iefb_trigger_connect_callback_def clm_iefb_trigger_disconnect_callback_def
      upd_device_def upd_statistics_def Let_def group_setting_def device_setting_def
  have "clm_iefb_set_data_ip clm di st (g, out) = Returns (g\<lparr>
      gd_slave_devices := (gd_slave_devices g)[di := d'],
      gd_cyclic_transmission_state := cl_iefb_set_cyclic_transmission_state (gd_cyclic_transmission_state g) (dd_slave_station_no d) comb,
      gd_req_frame := clm_iefb_update_request_frame_cyclic_data_one_device (gd_memory_area g)
        (dd_slave_station_no d) (sd_num_occupied_stations ds) comb f1\<rparr>, out @ outs)"
    using len f1 unfolding comb
    by (cases "st = CLM_DEVICE_STATE_CYCLIC_SENDING"; cases "dd_transmission_bit d"; cases "dd_enabled d")
      (simp_all add: defs d ds' d'_def stat_def outs_def order)
  moreover have "list_all is_scan_output outs" by (simp add: outs_def is_scan_output_def)
  moreover have "same_placing d d'" by (simp add: d'_def same_placing_def)
  ultimately show ?thesis by (intro exI [of _ d'] exI [of _ outs]) (simp add: d'_def)
qed

lemma row_of_other_device:
  assumes fits: "group_fits gs" and ij: "i < gs_num_slave_devices gs" "j < gs_num_slave_devices gs" "i \<noteq> j"
    and f: "frame_ok (stations_of gs) (gd_req_frame g)"
    and g': "\<forall>k < stations_of gs. k \<noteq> station_no gs i - 1 \<longrightarrow> row_id (gd_req_frame g') k = row_id (gd_req_frame g) k"
      "\<And>k m. k + m \<le> station_no gs i - 1 \<or> station_no gs i - 1 + device_occ gs i \<le> k \<Longrightarrow> k + m \<le> stations_of gs \<Longrightarrow>
        row_rww (gd_req_frame g') k m = row_rww (gd_req_frame g) k m \<and> row_ry (gd_req_frame g') k m = row_ry (gd_req_frame g) k m"
      "\<And>k. k \<noteq> station_no gs i - 1 \<Longrightarrow> bit (gd_cyclic_transmission_state g') k = bit (gd_cyclic_transmission_state g) k"
  shows "device_row gs g' j = device_row gs g j"
proof -
  note ri = station_no_range [OF fits ij(1)] and rj = station_no_range [OF fits ij(2)]
  note apart = stations_apart [OF fits ij]
  have "station_no gs j - 1 \<noteq> station_no gs i - 1" "station_no gs j - 1 < stations_of gs"
    using ri rj apart by linarith+
  moreover have "station_no gs j - 1 + device_occ gs j \<le> station_no gs i - 1 \<or>
      station_no gs i - 1 + device_occ gs i \<le> station_no gs j - 1"
    "station_no gs j - 1 + device_occ gs j \<le> stations_of gs"
    using ri rj apart unfolding device_occ_def by linarith+
  ultimately show ?thesis using g' unfolding device_row_def Let_def by auto
qed

lemma set_data_ip_ok:
  assumes gs: "group_setting clm g = gs" and fits: "group_fits gs" and di: "di < gs_num_slave_devices gs"
    and f: "frame_ok (stations_of gs) (gd_req_frame g)" and mem: "memory_ok gs (gd_memory_area g)"
    and placed: "device_placed gs g di"
  defines "d \<equiv> gd_slave_devices g ! di"
  shows "\<exists>g' outs. clm_iefb_set_data_ip clm di st (g, out) = Returns (g', out @ outs) \<and> list_all is_scan_output outs \<and>
    same_group g g' \<and> frame_ok (stations_of gs) (gd_req_frame g') \<and> row_headers (gd_req_frame g') = row_headers (gd_req_frame g) \<and>
    (\<exists>d'. gd_slave_devices g' = (gd_slave_devices g)[di := d'] \<and> same_placing d d' \<and>
       dd_device_state d' = dd_device_state d \<and> (dd_transmission_bit d' \<longleftrightarrow> st = CLM_DEVICE_STATE_CYCLIC_SENDING)) \<and>
    device_row gs g' di = row_data gs g di (if st \<noteq> CLM_DEVICE_STATE_CYCLIC_SUSPEND then sd_slave_id (gs_slave_devices gs ! di) else 0)
      (st = CLM_DEVICE_STATE_CYCLIC_SENDING \<or> dd_force_transmission_bit d) \<and>
    (\<forall>k < stations_of gs. k \<noteq> station_no gs di - 1 \<longrightarrow> row_id (gd_req_frame g') k = row_id (gd_req_frame g) k) \<and>
    (\<forall>j < gs_num_slave_devices gs. j \<noteq> di \<longrightarrow> device_row gs g' j = device_row gs g j)"
proof -
  let ?k = "station_no gs di - 1" and ?m = "device_occ gs di" and ?n = "stations_of gs"
  note r = station_no_range [OF fits di]
  have k: "Suc ?k = station_no gs di" "?k < ?n" "?k + ?m \<le> ?n" using r by (simp_all add: device_occ_def)
  have len: "di < length (gd_slave_devices g)" and idx: "dd_device_index d = di" and sno: "dd_slave_station_no d = station_no gs di"
    using placed by (simp_all add: device_placed_def d_def)
  have ds: "device_setting gs d = gs_slave_devices gs ! di" by (simp add: device_setting_def idx)
  define comb where "comb = (st = CLM_DEVICE_STATE_CYCLIC_SENDING \<or> dd_force_transmission_bit d)"
  define ip where "ip = sd_slave_id (gs_slave_devices gs ! di)"
  from update_slave_id_row [OF f k(2), of "st \<noteq> CLM_DEVICE_STATE_CYCLIC_SUSPEND" ip] obtain f1 where
    f1: "clm_iefb_update_request_slave_id (gd_req_frame g) (station_no gs di) (st \<noteq> CLM_DEVICE_STATE_CYCLIC_SUSPEND) ip = Returns f1"
      "frame_ok ?n f1" "row_id f1 ?k = (if st \<noteq> CLM_DEVICE_STATE_CYCLIC_SUSPEND then ip else 0)"
      "\<forall>j < ?n. j \<noteq> ?k \<longrightarrow> row_id f1 j = row_id (gd_req_frame g) j"
      "\<forall>j m. row_rww f1 j m = row_rww (gd_req_frame g) j m \<and> row_ry f1 j m = row_ry (gd_req_frame g) j m"
      "row_headers f1 = row_headers (gd_req_frame g)" unfolding k(1) by blast
  define f2 where "f2 = clm_iefb_update_request_frame_cyclic_data_one_device (gd_memory_area g) (Suc ?k) ?m comb f1"
  have ml: "64 * (?k + ?m) \<le> length (mem_rww (gd_memory_area g))" "8 * (?k + ?m) \<le> length (mem_ry (gd_memory_area g))"
    using mem k(3) by (simp_all add: memory_ok_def)
  note f2 = update_cyclic_data_row [OF f1(2) k(3) ml f2_def]
  define trs where "trs = cl_iefb_set_cyclic_transmission_state (gd_cyclic_transmission_state g) (station_no gs di) comb"
  have bits: "bit trs i = (if i = ?k then comb else bit (gd_cyclic_transmission_state g) i)" for i
    using r by (auto simp: trs_def bit_set_transmission)
  have f1d: "clm_iefb_update_request_slave_id (gd_req_frame g) (dd_slave_station_no d)
      (st \<noteq> CLM_DEVICE_STATE_CYCLIC_SUSPEND) (sd_slave_id (gs_slave_devices gs ! di)) = Returns f1"
    using f1(1) by (simp add: sno ip_def)
  obtain d' outs where run: "clm_iefb_set_data_ip clm di st (g, out) =
      Returns (g\<lparr>gd_slave_devices := (gd_slave_devices g)[di := d'], gd_cyclic_transmission_state := trs, gd_req_frame := f2\<rparr>, out @ outs)"
    "list_all is_scan_output outs" "same_placing d d'" "dd_device_state d' = dd_device_state d"
    "dd_transmission_bit d' \<longleftrightarrow> st = CLM_DEVICE_STATE_CYCLIC_SENDING"
    using set_data_ip_run [OF len _ _ f1d comb_def, of clm out] ds gs d_def
    unfolding trs_def f2_def k(1) sno device_occ_def by blast
  let ?g = "g\<lparr>gd_slave_devices := (gd_slave_devices g)[di := d'], gd_cyclic_transmission_state := trs, gd_req_frame := f2\<rparr>"
  have row: "device_row gs ?g di = row_data gs g di (if st \<noteq> CLM_DEVICE_STATE_CYCLIC_SUSPEND then ip else 0) comb"
    using f2 f1(3) k by (simp add: device_row_def row_data_def Let_def bits)
  have ids: "\<forall>k < ?n. k \<noteq> ?k \<longrightarrow> row_id f2 k = row_id (gd_req_frame g) k" using f2(2) f1(4) by simp
  have others: "\<forall>j < gs_num_slave_devices gs. j \<noteq> di \<longrightarrow> device_row gs ?g j = device_row gs g j"
    using row_of_other_device [OF fits di _ _ f, of _ ?g] ids f2(6) f1(5) bits by (simp add: device_occ_def)
  have "same_group g ?g" by (simp add: same_group_def)
  then show ?thesis using run row ids others f2(1,3) f1(6) unfolding comb_def ip_def by fastforce
qed


text \<open>A scan start event: an enabled device is addressed, with its data if it is connected.\<close>

definition scan_event :: "clm_slave_device_data \<Rightarrow> clm_device_event" where
  "scan_event d = (if dd_enabled d then CLM_DEVICE_EVENT_SCAN_START_DEVICE_START else CLM_DEVICE_EVENT_SCAN_START_DEVICE_STOP)"

definition scan_state :: "clm_slave_device_data \<Rightarrow> clm_device_state" where
  "scan_state d = (if \<not> dd_enabled d then CLM_DEVICE_STATE_CYCLIC_SUSPEND
     else if dd_device_state d = CLM_DEVICE_STATE_LISTEN then CLM_DEVICE_STATE_WAIT_TD
     else CLM_DEVICE_STATE_CYCLIC_SENDING)"

lemma scan_event_step:
  assumes t: "device_tables clm" and gs: "group_setting clm g = gs" and fits: "group_fits gs" and di: "di < gs_num_slave_devices gs"
    and f: "frame_ok (stations_of gs) (gd_req_frame g)" and mem: "memory_ok gs (gd_memory_area g)"
    and placed: "device_placed gs g di"
  defines "d \<equiv> gd_slave_devices g ! di"
  assumes st: "dd_device_state d \<in> {CLM_DEVICE_STATE_LISTEN, CLM_DEVICE_STATE_CYCLIC_SENT}"
  shows "\<exists>g' outs. clm_iefb_device_fsm_event clm di (scan_event d) (g, out) = Returns (g', out @ outs) \<and>
    list_all is_scan_output outs \<and> same_group g g' \<and> frame_ok (stations_of gs) (gd_req_frame g') \<and>
    row_headers (gd_req_frame g') = row_headers (gd_req_frame g) \<and>
    (\<exists>d'. gd_slave_devices g' = (gd_slave_devices g)[di := d'] \<and> same_placing d d' \<and> dd_device_state d' = scan_state d \<and>
       (dd_enabled d \<longrightarrow> (dd_transmission_bit d' \<longleftrightarrow> scan_state d = CLM_DEVICE_STATE_CYCLIC_SENDING)) \<and>
       (dd_transmission_bit d' \<longrightarrow> bit (gd_cyclic_transmission_state g') (station_no gs di - 1) \<or>
          dd_transmission_bit d \<and> gd_cyclic_transmission_state g' = gd_cyclic_transmission_state g)) \<and>
    (dd_enabled d \<longrightarrow> device_row gs g' di = row_data gs g di (sd_slave_id (gs_slave_devices gs ! di))
      (scan_state d = CLM_DEVICE_STATE_CYCLIC_SENDING \<or> dd_force_transmission_bit d)) \<and>
    (\<not> dd_enabled d \<longrightarrow> fst (device_row gs g' di) \<in> {CL_IPADDR_INVALID, fst (device_row gs g di)}) \<and>
    (\<forall>k < stations_of gs. k \<noteq> station_no gs di - 1 \<longrightarrow> row_id (gd_req_frame g') k = row_id (gd_req_frame g) k) \<and>
    (\<forall>j < gs_num_slave_devices gs. j \<noteq> di \<longrightarrow> device_row gs g' j = device_row gs g j)"
proof -
  let ?h = "g\<lparr>gd_slave_devices := (gd_slave_devices g)[di := d\<lparr>dd_device_state := scan_state d\<rparr>]\<rparr>"
  have len: "di < length (gd_slave_devices g)" using placed by (simp add: device_placed_def)
  have m: "clm_device_fsm_matrix clm = build_matrix device_transitions"
    "clm_device_fsm_on_entry_exit clm = build_entry_exit device_state_actions"
    using t by (simp_all add: device_tables_def)
  note round = clm_iefb_device_fsm_event_def device_fuel_def numeral_2_eq_2 device_round_def m device_lookup device_entry device_find_live
  show ?thesis
  proof (cases "\<not> dd_enabled d \<and> dd_device_state d = CLM_DEVICE_STATE_CYCLIC_SENT")
    case True
    then have "clm_iefb_device_fsm_event clm di (scan_event d) (g, out) = Returns (?h, out @ [])"
      using len by (simp add: round scan_event_def scan_state_def d_def [symmetric] upd_device_def)
    moreover have "device_row gs ?h j = device_row gs g j" for j by (simp add: device_row_def)
    ultimately show ?thesis using True f len
      by (intro exI [of _ ?h] exI [of _ "[]"] conjI)
        (auto simp: same_group_def same_placing_def upd_device_def d_def [symmetric] scan_state_def)
  next
    case False
    have p: "device_placed gs ?h di" using placed by (simp add: device_placed_def d_def)
    have hd: "gd_slave_devices ?h ! di = d\<lparr>dd_device_state := scan_state d\<rparr>" using len by (simp add: d_def)
    from set_data_ip_ok [of clm ?h gs di "scan_state d" out] obtain g' outs d' where
      g': "clm_iefb_set_data_ip clm di (scan_state d) (?h, out) = Returns (g', out @ outs)" "list_all is_scan_output outs"
        "same_group ?h g'" "frame_ok (stations_of gs) (gd_req_frame g')" "row_headers (gd_req_frame g') = row_headers (gd_req_frame ?h)"
        "gd_slave_devices g' = (gd_slave_devices ?h)[di := d']" "same_placing (gd_slave_devices ?h ! di) d'"
        "dd_device_state d' = dd_device_state (gd_slave_devices ?h ! di)"
        "dd_transmission_bit d' \<longleftrightarrow> scan_state d = CLM_DEVICE_STATE_CYCLIC_SENDING"
        "device_row gs g' di = row_data gs ?h di (if scan_state d \<noteq> CLM_DEVICE_STATE_CYCLIC_SUSPEND then sd_slave_id (gs_slave_devices gs ! di) else 0)
          (scan_state d = CLM_DEVICE_STATE_CYCLIC_SENDING \<or> dd_force_transmission_bit (gd_slave_devices ?h ! di))"
        "\<forall>k < stations_of gs. k \<noteq> station_no gs di - 1 \<longrightarrow> row_id (gd_req_frame g') k = row_id (gd_req_frame ?h) k"
        "\<forall>j < gs_num_slave_devices gs. j \<noteq> di \<longrightarrow> device_row gs g' j = device_row gs ?h j"
      using gs fits di f mem p by (auto simp: group_setting_def)
    have run: "clm_iefb_device_fsm_event clm di (scan_event d) (g, out) = Returns (g', out @ outs)"
      using len st False g'(1)
      by (auto simp: round scan_event_def scan_state_def d_def [symmetric] upd_device_def split: if_splits)
    have row: "device_row gs ?h j = device_row gs g j" "row_data gs ?h di v b = row_data gs g di v b" for j v b
      by (simp_all add: device_row_def row_data_def)
    have "bit (gd_cyclic_transmission_state g') (station_no gs di - 1)" if "scan_state d = CLM_DEVICE_STATE_CYCLIC_SENDING"
      using g'(10) that by (simp add: device_row_def row_data_def Let_def)
    moreover have "scan_state d \<noteq> CLM_DEVICE_STATE_CYCLIC_SUSPEND" if "dd_enabled d" using that by (simp add: scan_state_def)
    moreover have "fst (device_row gs g' di) = CL_IPADDR_INVALID" if "\<not> dd_enabled d"
      using g'(10) that by (simp add: row_data_def Let_def scan_state_def CL_IPADDR_INVALID_def)
    ultimately show ?thesis
      using run g' hd len row
      by (intro exI [of _ g'] exI [of _ outs] conjI) (auto simp: same_group_def same_placing_def)
  qed
qed

end
