(* ===== verification/CLM_Group.thy ===== *)
theory CLM_Group
  imports CLM_Device
begin

text \<open>
  The state machine of a group of slaves in the master (\<open>group_transitions\<close> and the functions around it
  in \<open>src/master/clm_iefb.c\<close>): arbitration between masters, the link scans, and their timers. A group
  is named by its index \<open>gi\<close> in \<open>clm_groups\<close>.

  The wall clock of the operating system that is sent with each request is the argument \<open>clock\<close>: the
  value read when \<open>n\<close> effects have happened so far is \<open>clock n\<close>.
\<close>

section \<open>Actions\<close>

definition on_group :: "nat \<Rightarrow> (dev_state \<Rightarrow> dev_state outcome) \<Rightarrow> clm \<Rightarrow> clm outcome" where
  "on_group gi f clm =
     obind (f (clm_groups clm ! gi, clm_out clm)) (\<lambda>(g, out). Returns ((set_group gi g clm)\<lparr>clm_out := out\<rparr>))"

definition clm_iefb_group_init :: "nat \<Rightarrow> clm \<Rightarrow> clm outcome" where
  "clm_iefb_group_init gi clm =
     (let g = clm_groups clm ! gi;
          gs = group_setting clm g;
          g = g\<lparr>gd_response_wait_timer := cl_timer_stop (gd_response_wait_timer g),
                gd_constant_linkscan_timer := cl_timer_stop (gd_constant_linkscan_timer g),
                gd_total_occupied := 0, gd_frame_sequence_no := 0, gd_timestamp_link_scan_start := 0,
                gd_cyclic_transmission_state := 0\<rparr>;
          g = fold (\<lambda>i. upd_device i (\<lambda>d. d\<lparr>dd_device_index := i, dd_device_state := CLM_DEVICE_STATE_MASTER_DOWN\<rparr>))
                [0..<gs_num_slave_devices gs] g
      in on_group gi (clm_iefb_device_fsm_event_all_in_group clm CLM_DEVICE_EVENT_GROUP_STARTUP) (set_group gi g clm))"

definition clm_iefb_group_new_config :: "u32 \<Rightarrow> nat \<Rightarrow> clm \<Rightarrow> clm outcome" where
  "clm_iefb_group_new_config now gi clm =
     obind (clm_iefb_reflect_group_parameters clm (clm_groups clm ! gi)) (\<lambda>g.
       let clm = set_group gi g clm in
       Returns (clm\<lparr>clm_arbitration_timer := cl_timer_start_if_not_running
         (ucast (mc_arbitration_time (clm_config clm)) * of_nat CL_TIMER_MICROSECONDS_PER_MILLISECOND) now
         (clm_arbitration_timer clm)\<rparr>))"

definition clm_iefb_on_arbitration_failed :: "u32 \<Rightarrow> clm \<Rightarrow> clm" where
  "clm_iefb_on_arbitration_failed now clm =
     clm_iefb_trigger_error_callback now CLM_ERROR_ARBITRATION_FAILED (clm_latest_conflicting_master_ip clm) 0 clm"

definition clm_iefb_on_arbitration_done :: "clm \<Rightarrow> clm_group_event \<times> clm" where
  "clm_iefb_on_arbitration_done clm = (CLM_GROUP_EVENT_LINKSCAN_START, clm)"

definition scan_devices :: "clm \<Rightarrow> dev_state \<Rightarrow> dev_state outcome" where
  "scan_devices clm s =
     for_each (\<lambda>di s. clm_iefb_device_fsm_event clm di (scan_event (gd_slave_devices (fst s) ! di)) s)
       [0..<gs_num_slave_devices (group_setting clm (fst s))] s"

definition clm_iefb_on_linkscan_start :: "u32 \<Rightarrow> (nat \<Rightarrow> u64) \<Rightarrow> nat \<Rightarrow> clm \<Rightarrow> clm outcome" where
  "clm_iefb_on_linkscan_start now clock gi clm =
     (let unix_timestamp_ms = clock (length (clm_out clm)) in
      obind (on_group gi (\<lambda>s. obind (scan_devices clm s) (\<lambda>(g, out).
        Returns (clm_iefb_send_cyclic_request_frame (clm_iefb_broadcast_ip clm) unix_timestamp_ms
          (clm_master_local_unit_info clm) (g\<lparr>gd_timestamp_link_scan_start := now\<rparr>, out)))) clm) (\<lambda>clm.
      let g = clm_groups clm ! gi;
          gs = group_setting clm g;
          period = ucast (gs_timeout_value gs) * of_nat CL_TIMER_MICROSECONDS_PER_MILLISECOND;
          g = g\<lparr>gd_response_wait_timer := cl_timer_start period now (gd_response_wait_timer g)\<rparr>;
          g = (if gs_use_constant_link_scan_time gs
               then g\<lparr>gd_constant_linkscan_timer := cl_timer_start period now (gd_constant_linkscan_timer g)\<rparr>
               else g)
      in Returns (set_group gi g clm)))"

definition advance_sequence_no :: "nat \<Rightarrow> clm \<Rightarrow> clm" where
  "advance_sequence_no gi clm =
     (let g = clm_groups clm ! gi in
      set_group gi (g\<lparr>gd_frame_sequence_no := clm_iefb_update_frame_sequence_no (gd_frame_sequence_no g)\<rparr>) clm)"

definition clm_iefb_on_linkscan_timeout :: "nat \<Rightarrow> clm \<Rightarrow> (clm_group_event \<times> clm) outcome" where
  "clm_iefb_on_linkscan_timeout gi clm =
     obind (on_group gi (clm_iefb_device_fsm_event_all_in_group clm CLM_DEVICE_EVENT_GROUP_TIMEOUT) clm) (\<lambda>clm.
     Returns (CLM_GROUP_EVENT_LINKSCAN_START,
       advance_sequence_no gi (clm_iefb_trigger_linkscan_callback gi False clm)))"

definition clm_iefb_on_linkscan_complete :: "nat \<Rightarrow> clm \<Rightarrow> (clm_group_event \<times> clm) outcome" where
  "clm_iefb_on_linkscan_complete gi clm =
     (let g = clm_groups clm ! gi;
          gs = group_setting clm g;
          clm = set_group gi (g\<lparr>gd_response_wait_timer := cl_timer_stop (gd_response_wait_timer g)\<rparr>) clm
      in obind (on_group gi (clm_iefb_device_fsm_event_all_in_group clm CLM_DEVICE_EVENT_GROUP_ALL_RESPONDED) clm) (\<lambda>clm.
         Returns (if gs_use_constant_link_scan_time gs then CLM_GROUP_EVENT_NONE else CLM_GROUP_EVENT_LINKSCAN_START,
           advance_sequence_no gi (clm_iefb_trigger_linkscan_callback gi True clm))))"

definition clm_iefb_group_on_entry_listen :: "nat \<Rightarrow> clm \<Rightarrow> clm outcome" where
  "clm_iefb_group_on_entry_listen gi clm =
     (let clm = clm\<lparr>clm_arbitration_timer := cl_timer_stop (clm_arbitration_timer clm)\<rparr> in
      obind (on_group gi (clm_iefb_device_fsm_event_all_in_group clm CLM_DEVICE_EVENT_GROUP_STANDBY) clm) (\<lambda>clm.
      Returns (clm_iefb_set_master_state CLM_MASTER_STATE_STANDBY clm)))"

definition clm_iefb_group_on_entry_arbitration :: "clm \<Rightarrow> clm" where
  "clm_iefb_group_on_entry_arbitration clm = clm_iefb_set_master_state CLM_MASTER_STATE_ARBITRATION clm"

definition clm_iefb_group_on_entry_scan_complete :: "clm \<Rightarrow> clm" where
  "clm_iefb_group_on_entry_scan_complete clm = clm_iefb_set_master_state CLM_MASTER_STATE_RUNNING clm"

definition no_group_event :: "clm outcome \<Rightarrow> (clm_group_event \<times> clm) outcome" where
  "no_group_event r = obind r (\<lambda>clm. Returns (CLM_GROUP_EVENT_NONE, clm))"

text \<open>Calling a function of the tables.\<close>

fun run_group_action ::
  "clm_group_action \<Rightarrow> u32 \<Rightarrow> (nat \<Rightarrow> u64) \<Rightarrow> nat \<Rightarrow> clm \<Rightarrow> (clm_group_event \<times> clm) outcome" where
  "run_group_action Group_Init now clock gi clm = no_group_event (clm_iefb_group_init gi clm)"
| "run_group_action Group_New_Config now clock gi clm = no_group_event (clm_iefb_group_new_config now gi clm)"
| "run_group_action On_Arbitration_Failed now clock gi clm =
     Returns (CLM_GROUP_EVENT_NONE, clm_iefb_on_arbitration_failed now clm)"
| "run_group_action On_Arbitration_Done now clock gi clm = Returns (clm_iefb_on_arbitration_done clm)"
| "run_group_action On_Linkscan_Start now clock gi clm = no_group_event (clm_iefb_on_linkscan_start now clock gi clm)"
| "run_group_action On_Linkscan_Timeout now clock gi clm = clm_iefb_on_linkscan_timeout gi clm"
| "run_group_action On_Linkscan_Complete now clock gi clm = clm_iefb_on_linkscan_complete gi clm"
| "run_group_action Group_On_Entry_Listen now clock gi clm = no_group_event (clm_iefb_group_on_entry_listen gi clm)"
| "run_group_action Group_On_Entry_Arbitration now clock gi clm =
     Returns (CLM_GROUP_EVENT_NONE, clm_iefb_group_on_entry_arbitration clm)"
| "run_group_action Group_On_Entry_Scan_Complete now clock gi clm =
     Returns (CLM_GROUP_EVENT_NONE, clm_iefb_group_on_entry_scan_complete clm)"

section \<open>Tables\<close>

definition group_transitions :: "(clm_group_state, clm_group_event, clm_group_action) transition list" where
  "group_transitions = [
     (CLM_GROUP_STATE_MASTER_DOWN, CLM_GROUP_EVENT_STARTUP, CLM_GROUP_STATE_MASTER_LISTEN, Some Group_Init),
     (CLM_GROUP_STATE_MASTER_LISTEN, CLM_GROUP_EVENT_NEW_CONFIG, CLM_GROUP_STATE_MASTER_ARBITRATION, Some Group_New_Config),
     (CLM_GROUP_STATE_MASTER_LISTEN, CLM_GROUP_EVENT_PARAMETER_CHANGE, CLM_GROUP_STATE_MASTER_LISTEN, None),
     (CLM_GROUP_STATE_MASTER_ARBITRATION, CLM_GROUP_EVENT_PARAMETER_CHANGE, CLM_GROUP_STATE_MASTER_LISTEN, None),
     (CLM_GROUP_STATE_MASTER_ARBITRATION, CLM_GROUP_EVENT_ARBITRATION_DONE, CLM_GROUP_STATE_MASTER_LINK_SCAN_COMP, Some On_Arbitration_Done),
     (CLM_GROUP_STATE_MASTER_ARBITRATION, CLM_GROUP_EVENT_REQ_FROM_OTHER, CLM_GROUP_STATE_MASTER_LISTEN, Some On_Arbitration_Failed),
     (CLM_GROUP_STATE_MASTER_LINK_SCAN_COMP, CLM_GROUP_EVENT_PARAMETER_CHANGE, CLM_GROUP_STATE_MASTER_LISTEN, None),
     (CLM_GROUP_STATE_MASTER_LINK_SCAN_COMP, CLM_GROUP_EVENT_LINKSCAN_START, CLM_GROUP_STATE_MASTER_LINK_SCAN, Some On_Linkscan_Start),
     (CLM_GROUP_STATE_MASTER_LINK_SCAN_COMP, CLM_GROUP_EVENT_REQ_FROM_OTHER, CLM_GROUP_STATE_MASTER_LINK_SCAN_COMP, None),
     (CLM_GROUP_STATE_MASTER_LINK_SCAN_COMP, CLM_GROUP_EVENT_MASTERDUPL_ALARM, CLM_GROUP_STATE_MASTER_LISTEN, None),
     (CLM_GROUP_STATE_MASTER_LINK_SCAN, CLM_GROUP_EVENT_PARAMETER_CHANGE, CLM_GROUP_STATE_MASTER_LISTEN, None),
     (CLM_GROUP_STATE_MASTER_LINK_SCAN, CLM_GROUP_EVENT_LINKSCAN_COMPLETE, CLM_GROUP_STATE_MASTER_LINK_SCAN_COMP, Some On_Linkscan_Complete),
     (CLM_GROUP_STATE_MASTER_LINK_SCAN, CLM_GROUP_EVENT_LINKSCAN_TIMEOUT, CLM_GROUP_STATE_MASTER_LINK_SCAN_COMP, Some On_Linkscan_Timeout),
     (CLM_GROUP_STATE_MASTER_LINK_SCAN, CLM_GROUP_EVENT_REQ_FROM_OTHER, CLM_GROUP_STATE_MASTER_LINK_SCAN, None),
     (CLM_GROUP_STATE_MASTER_LINK_SCAN, CLM_GROUP_EVENT_MASTERDUPL_ALARM, CLM_GROUP_STATE_MASTER_LISTEN, None)]"

definition group_state_actions :: "(clm_group_state, clm_group_action) state_action list" where
  "group_state_actions = [
     (CLM_GROUP_STATE_MASTER_LISTEN, Some Group_On_Entry_Listen, None),
     (CLM_GROUP_STATE_MASTER_ARBITRATION, Some Group_On_Entry_Arbitration, None),
     (CLM_GROUP_STATE_MASTER_LINK_SCAN_COMP, Some Group_On_Entry_Scan_Complete, None)]"

definition clm_iefb_group_fsm_tables_init :: "clm \<Rightarrow> clm" where
  "clm_iefb_group_fsm_tables_init clm =
     clm\<lparr>clm_group_fsm_matrix := build_matrix group_transitions,
         clm_group_fsm_on_entry_exit := build_entry_exit group_state_actions\<rparr>"

section \<open>Event loop\<close>

definition group_round ::
  "u32 \<Rightarrow> (nat \<Rightarrow> u64) \<Rightarrow> nat \<Rightarrow> clm_group_event \<Rightarrow> clm \<Rightarrow> (clm_group_event \<times> clm) outcome" where
  "group_round now clock gi event clm =
     (let g = clm_groups clm ! gi;
          previous = gd_group_state g;
          (new_state, action) = clm_group_fsm_matrix clm previous event;
          on_entry = fst (clm_group_fsm_on_entry_exit clm new_state);
          clm = set_group gi (g\<lparr>gd_group_state := new_state\<rparr>) clm
      in obind (case action of Some a \<Rightarrow> run_group_action a now clock gi clm
                | None \<Rightarrow> Returns (CLM_GROUP_EVENT_NONE, clm)) (\<lambda>(event, clm).
         case on_entry of
           Some a \<Rightarrow> if new_state \<noteq> previous
                     then obind (run_group_action a now clock gi clm) (\<lambda>(_, clm). Returns (event, clm))
                     else Returns (event, clm)
         | None \<Rightarrow> Returns (event, clm)))"

definition group_fuel :: nat where "group_fuel = 2"

definition clm_iefb_group_fsm_event :: "u32 \<Rightarrow> (nat \<Rightarrow> u64) \<Rightarrow> nat \<Rightarrow> clm_group_event \<Rightarrow> clm \<Rightarrow> clm outcome" where
  "clm_iefb_group_fsm_event now clock gi event clm =
     (if event = CLM_GROUP_EVENT_LAST then Returns clm
      else event_loop (group_round now clock gi) CLM_GROUP_EVENT_NONE group_fuel event clm)"

definition clm_iefb_group_fsm_event_all :: "u32 \<Rightarrow> (nat \<Rightarrow> u64) \<Rightarrow> clm_group_event \<Rightarrow> clm \<Rightarrow> clm outcome" where
  "clm_iefb_group_fsm_event_all now clock event clm =
     for_each (\<lambda>gi. clm_iefb_group_fsm_event now clock gi event)
       [0..<hi_number_of_groups (mc_hier (clm_config clm))] clm"

definition monitor_group_timers :: "u32 \<Rightarrow> (nat \<Rightarrow> u64) \<Rightarrow> nat \<Rightarrow> clm \<Rightarrow> clm outcome" where
  "monitor_group_timers now clock gi clm =
     obind (let g = clm_groups clm ! gi in
            if cl_timer_is_expired (gd_response_wait_timer g) now
            then clm_iefb_group_fsm_event now clock gi CLM_GROUP_EVENT_LINKSCAN_TIMEOUT
                   (set_group gi (g\<lparr>gd_response_wait_timer := cl_timer_stop (gd_response_wait_timer g)\<rparr>) clm)
            else Returns clm) (\<lambda>clm.
     let g = clm_groups clm ! gi in
     if cl_timer_is_expired (gd_constant_linkscan_timer g) now
     then clm_iefb_group_fsm_event now clock gi CLM_GROUP_EVENT_LINKSCAN_START
            (set_group gi (g\<lparr>gd_constant_linkscan_timer := cl_timer_stop (gd_constant_linkscan_timer g)\<rparr>) clm)
     else Returns clm)"

definition clm_iefb_monitor_all_group_timers :: "u32 \<Rightarrow> (nat \<Rightarrow> u64) \<Rightarrow> clm \<Rightarrow> clm outcome" where
  "clm_iefb_monitor_all_group_timers now clock clm =
     for_each (monitor_group_timers now clock) [0..<hi_number_of_groups (mc_hier (clm_config clm))] clm"

text \<open>Saving the parameter number to a file is an effect in the trace; its result is not used.\<close>

definition clm_iefb_handle_new_config :: "u32 \<Rightarrow> (nat \<Rightarrow> u64) \<Rightarrow> clm \<Rightarrow> clm outcome" where
  "clm_iefb_handle_new_config now clock clm =
     (let clm = clm\<lparr>clm_parameter_no := clm_parameter_no clm + 1\<rparr>;
          clm = memit_if True (Save_Parameter_No (clm_parameter_no clm)) clm
      in clm_iefb_group_fsm_event_all now clock CLM_GROUP_EVENT_NEW_CONFIG clm)"

section \<open>Loops over the devices of a group\<close>

definition map_devices :: "nat \<Rightarrow> (clm_slave_device_data \<Rightarrow> clm_slave_device_data) \<Rightarrow> clm_group_data \<Rightarrow> clm_group_data" where
  "map_devices n f g = g\<lparr>gd_slave_devices := map f (take n (gd_slave_devices g)) @ drop n (gd_slave_devices g)\<rparr>"

lemma map_devices_nth:
  assumes "n \<le> length (gd_slave_devices g)"
  shows "length (gd_slave_devices (map_devices n f g)) = length (gd_slave_devices g)"
    "di < n \<Longrightarrow> gd_slave_devices (map_devices n f g) ! di = f (gd_slave_devices g ! di)"
    "n \<le> di \<Longrightarrow> di < length (gd_slave_devices g) \<Longrightarrow> gd_slave_devices (map_devices n f g) ! di = gd_slave_devices g ! di"
  using assms by (simp_all add: map_devices_def nth_append min_def)

lemma map_devices_simps [simp]:
  "gd_group_index (map_devices n f g) = gd_group_index g"
  "gd_total_occupied (map_devices n f g) = gd_total_occupied g"
  "gd_frame_sequence_no (map_devices n f g) = gd_frame_sequence_no g"
  "gd_cyclic_transmission_state (map_devices n f g) = gd_cyclic_transmission_state g"
  "gd_timestamp_link_scan_start (map_devices n f g) = gd_timestamp_link_scan_start g"
  "gd_group_state (map_devices n f g) = gd_group_state g"
  "gd_response_wait_timer (map_devices n f g) = gd_response_wait_timer g"
  "gd_constant_linkscan_timer (map_devices n f g) = gd_constant_linkscan_timer g"
  "gd_req_frame (map_devices n f g) = gd_req_frame g"
  "gd_memory_area (map_devices n f g) = gd_memory_area g"
  by (simp_all add: map_devices_def)

lemma map_devices_Suc:
  assumes "n < length (gd_slave_devices g)"
  shows "upd_device n f (map_devices n f g) = map_devices (Suc n) f g"
  using assms
  by (simp add: upd_device_def map_devices_def nth_append list_update_append take_Suc_conv_app_nth
      Cons_nth_drop_Suc [symmetric] min_def)

lemma quiet_all:
  assumes t: "device_tables clm" and gs: "group_setting clm g = gs" and ev: "ev \<in> quiet_events"
    and len: "gs_num_slave_devices gs \<le> length (gd_slave_devices g)"
    and live: "\<forall>di < gs_num_slave_devices gs. dd_device_state (gd_slave_devices g ! di) \<in> live_states"
  shows "clm_iefb_device_fsm_event_all_in_group clm ev (g, out) =
    Returns (map_devices (gs_num_slave_devices gs) (after_event gs ev) g, out)"
proof -
  let ?P = "\<lambda>i s. s = (map_devices i (after_event gs ev) g, out)"
  have "\<exists>s'. for_each (\<lambda>di. clm_iefb_device_fsm_event clm di ev) [0..<gs_num_slave_devices gs] (g, out) = Returns s' \<and>
      ?P (gs_num_slave_devices gs) s'"
  proof (rule for_each_upt)
    show "?P 0 (g, out)" by (simp add: map_devices_def)
    fix i s assume i: "i < gs_num_slave_devices gs" and s: "?P i s"
    let ?g = "map_devices i (after_event gs ev) g"
    have l: "i < length (gd_slave_devices g)" using i len by simp
    have "group_setting clm ?g = gs" using gs by (simp add: group_setting_def)
    moreover have "gd_slave_devices ?g ! i = gd_slave_devices g ! i" "i < length (gd_slave_devices ?g)"
      using l map_devices_nth [of i g] by simp_all
    ultimately have "clm_iefb_device_fsm_event clm i ev (?g, out) = Returns (upd_device i (after_event gs ev) ?g, out)"
      using quiet_event [OF t _ ev, of i ?g out] live i by simp
    then show "\<exists>s'. clm_iefb_device_fsm_event clm i ev s = Returns s' \<and> ?P (Suc i) s'"
      using s map_devices_Suc [OF l] by simp
  qed
  then show ?thesis using gs by (simp add: clm_iefb_device_fsm_event_all_in_group_def)
qed

lemma after_event_keeps [simp]:
  "dd_device_index (after_event gs ev d) = dd_device_index d"
  "dd_slave_station_no (after_event gs ev d) = dd_slave_station_no d"
  "dd_enabled (after_event gs ev d) = dd_enabled d"
  "dd_transmission_bit (after_event gs ev d) = dd_transmission_bit d"
  "dd_force_transmission_bit (after_event gs ev d) = dd_force_transmission_bit d"
  "dd_latest_frame (after_event gs ev d) = dd_latest_frame d"
  by (simp_all add: after_event_def Let_def upd_statistics_def)

lemma after_event_live: "dd_device_state d \<in> live_states \<Longrightarrow> dd_device_state (after_event gs ev d) \<in> live_states"
  by (simp add: after_event_def Let_def live_states_def)

lemma after_event_states:
  assumes "dd_device_state d \<in> live_states"
  shows "dd_device_state (after_event gs CLM_DEVICE_EVENT_GROUP_STANDBY d) = CLM_DEVICE_STATE_LISTEN"
    "dd_device_state (after_event gs CLM_DEVICE_EVENT_GROUP_TIMEOUT d) \<in> {CLM_DEVICE_STATE_LISTEN, CLM_DEVICE_STATE_CYCLIC_SENT}"
    "dd_device_state d \<noteq> CLM_DEVICE_STATE_CYCLIC_SENDING \<Longrightarrow>
      dd_device_state (after_event gs CLM_DEVICE_EVENT_GROUP_ALL_RESPONDED d) \<in> {CLM_DEVICE_STATE_LISTEN, CLM_DEVICE_STATE_CYCLIC_SENT}"
    "ev \<in> quiet_events \<Longrightarrow> dd_device_state (after_event gs ev d) \<noteq> dd_device_state d \<Longrightarrow>
      dd_device_state (after_event gs ev d) \<in> {CLM_DEVICE_STATE_LISTEN, CLM_DEVICE_STATE_CYCLIC_SENT}"
    "ev \<in> quiet_events \<Longrightarrow> dd_device_state d = CLM_DEVICE_STATE_LISTEN \<Longrightarrow> dd_device_state (after_event gs ev d) = CLM_DEVICE_STATE_LISTEN"
    "ev \<in> quiet_events \<Longrightarrow> dd_device_state d = CLM_DEVICE_STATE_CYCLIC_SENT \<Longrightarrow>
      dd_device_state (after_event gs ev d) \<in> {CLM_DEVICE_STATE_LISTEN, CLM_DEVICE_STATE_CYCLIC_SENT}"
  using assms by (auto simp: after_event_def Let_def live_states_def quiet_events_def)

section \<open>Invariant of a group\<close>

definition device_inv :: "clm_group_setting \<Rightarrow> clm_group_data \<Rightarrow> nat \<Rightarrow> bool" where
  "device_inv gs g di \<longleftrightarrow>
     (let d = gd_slave_devices g ! di; st = dd_device_state d in
      device_placed gs g di \<and> st \<in> live_states \<and>
      (st = CLM_DEVICE_STATE_CYCLIC_SENDING \<longrightarrow> dd_transmission_bit d) \<and>
      (st = CLM_DEVICE_STATE_WAIT_TD \<longrightarrow> \<not> dd_transmission_bit d) \<and>
      (dd_transmission_bit d \<longrightarrow> bit (gd_cyclic_transmission_state g) (station_no gs di - 1)))"

definition ids_ok :: "clm_group_setting \<Rightarrow> clm_cciefb_cyclic_request_info \<Rightarrow> bool" where
  "ids_ok gs f \<longleftrightarrow> (\<forall>di < gs_num_slave_devices gs.
     row_id f (station_no gs di - 1) \<in> {sd_slave_id (gs_slave_devices gs ! di), CL_IPADDR_INVALID} \<and>
     (\<forall>j. 1 \<le> j \<and> j < device_occ gs di \<longrightarrow> row_id f (station_no gs di - 1 + j) = CL_CCIEFB_MULTISTATION_INDICATOR))"

definition headers_ok :: "clm_cfg \<Rightarrow> nat \<Rightarrow> clm_group_setting \<Rightarrow> clm_cciefb_cyclic_request_info \<Rightarrow> bool" where
  "headers_ok cfg gi gs f \<longleftrightarrow> (\<exists>p sqn ck u tr. dec_req_full_headers (mq_buffer f) 0 = updated_request_headers
     (initial_request_headers (67 + 76 * stations_of gs) (mc_protocol_ver cfg) (gs_timeout_value gs)
        (gs_parallel_off_timeout_count gs) (mc_master_id cfg) (of_nat gi + 1) (stations_of gs) p) sqn ck u tr)"

text \<open>The parameter number in the request frame of a group.\<close>

definition request_parameter_no :: "clm_group_data \<Rightarrow> u16" where
  "request_parameter_no g = qdh_parameter_no (qf_cyclic_data_header (dec_req_full_headers (mq_buffer (gd_req_frame g)) 0))"

definition group_ready :: "clm_cfg \<Rightarrow> nat \<Rightarrow> clm_group_data \<Rightarrow> bool" where
  "group_ready cfg gi g \<longleftrightarrow>
     (let gs = hi_groups (mc_hier cfg) ! gi in
      gd_group_index g = gi \<and> gd_total_occupied g = stations_of gs \<and>
      frame_ok (stations_of gs) (gd_req_frame g) \<and> memory_ok gs (gd_memory_area g) \<and>
      ids_ok gs (gd_req_frame g) \<and> headers_ok cfg gi gs (gd_req_frame g) \<and>
      (\<forall>di < gs_num_slave_devices gs. device_inv gs g di))"

definition devices_in :: "clm_device_state set \<Rightarrow> clm_group_setting \<Rightarrow> clm_group_data \<Rightarrow> bool" where
  "devices_in S gs g \<longleftrightarrow> (\<forall>di < gs_num_slave_devices gs. dd_device_state (gd_slave_devices g ! di) \<in> S)"

definition scan_period :: "clm_group_setting \<Rightarrow> u32" where
  "scan_period gs = ucast (gs_timeout_value gs) * of_nat CL_TIMER_MICROSECONDS_PER_MILLISECOND"

definition timer_runs :: "u32 \<Rightarrow> cl_timer \<Rightarrow> bool" where
  "timer_runs period t \<longleftrightarrow> tm_state t = CL_TIMER_RUNNING \<and> tm_period t = period"

text \<open>A link scan is completed and the next one can start.\<close>

definition scan_pending :: "clm_cfg \<Rightarrow> nat \<Rightarrow> clm_group_data \<Rightarrow> bool" where
  "scan_pending cfg gi g \<longleftrightarrow>
     (let gs = hi_groups (mc_hier cfg) ! gi in
      group_ready cfg gi g \<and> gd_group_state g = CLM_GROUP_STATE_MASTER_LINK_SCAN_COMP \<and>
      devices_in {CLM_DEVICE_STATE_LISTEN, CLM_DEVICE_STATE_CYCLIC_SENT} gs g \<and>
      (gd_frame_sequence_no g = 0 \<longrightarrow> devices_in {CLM_DEVICE_STATE_LISTEN} gs g))"

definition group_inv :: "clm_cfg \<Rightarrow> nat \<Rightarrow> clm_group_data \<Rightarrow> bool" where
  "group_inv cfg gi g \<longleftrightarrow>
     (let gs = hi_groups (mc_hier cfg) ! gi; st = gd_group_state g in
      group_ready cfg gi g \<and>
      (st \<in> {CLM_GROUP_STATE_MASTER_LISTEN, CLM_GROUP_STATE_MASTER_ARBITRATION} \<and> devices_in {CLM_DEVICE_STATE_LISTEN} gs g \<and>
         (st = CLM_GROUP_STATE_MASTER_ARBITRATION \<longrightarrow> gd_frame_sequence_no g = 0) \<or>
       scan_pending cfg gi g \<and> gd_frame_sequence_no g \<noteq> 0 \<and> gs_use_constant_link_scan_time gs \<and>
         timer_runs (scan_period gs) (gd_constant_linkscan_timer g) \<or>
       st = CLM_GROUP_STATE_MASTER_LINK_SCAN \<and>
         (gd_frame_sequence_no g = 0 \<longrightarrow> devices_in (live_states - {CLM_DEVICE_STATE_CYCLIC_SENDING}) gs g) \<and>
         timer_runs (scan_period gs) (gd_response_wait_timer g) \<and>
         (gs_use_constant_link_scan_time gs \<longrightarrow> gd_constant_linkscan_timer g = gd_response_wait_timer g)))"

lemmas group_inv_defs = group_inv_def scan_pending_def group_ready_def Let_def

lemma headers_cong:
  assumes "row_headers f' = row_headers f" "frame_ok n f" "frame_ok n f'"
  shows "dec_req_full_headers (mq_buffer f') 0 = dec_req_full_headers (mq_buffer f) 0"
proof -
  have "dec_req_full_headers (mq_buffer f') 0 = dec_req_full_headers (take 67 (mq_buffer f')) 0"
    "dec_req_full_headers (mq_buffer f) 0 = dec_req_full_headers (take 67 (mq_buffer f)) 0"
    using qf.dec_take [of 0 67 "mq_buffer f"] qf.dec_take [of 0 67 "mq_buffer f'"] frame_okD [OF assms(2)] frame_okD [OF assms(3)]
    by (simp_all add: sizeof_defs)
  then show ?thesis using assms(1) by (simp add: row_headers_def)
qed

lemma headers_ok_cong:
  assumes "headers_ok cfg gi gs f" "row_headers f' = row_headers f" "frame_ok n f" "frame_ok n f'"
  shows "headers_ok cfg gi gs f'"
  using assms(1) headers_cong [OF assms(2-4)] by (simp add: headers_ok_def)

lemma device_inv_quiet:
  assumes "gs_num_slave_devices gs \<le> length (gd_slave_devices g)" "di < gs_num_slave_devices gs" "device_inv gs g di" "ev \<in> quiet_events"
  shows "device_inv gs (map_devices (gs_num_slave_devices gs) (after_event gs ev) g) di"
proof -
  let ?d = "gd_slave_devices g ! di"
  have "dd_device_state ?d \<in> live_states" using assms(3) by (simp add: device_inv_def Let_def)
  from after_event_states(4) [OF this assms(4), of gs] after_event_live [OF this, of gs ev]
  show ?thesis using assms map_devices_nth [OF assms(1), where f = "after_event gs ev"]
    by (cases "dd_device_state (after_event gs ev ?d) = dd_device_state ?d")
      (auto simp: device_inv_def device_placed_def Let_def)
qed

lemma group_ready_quiet:
  assumes "group_ready cfg gi g" "ev \<in> quiet_events" and gs: "gs = hi_groups (mc_hier cfg) ! gi"
    and "gs_num_slave_devices gs \<le> length (gd_slave_devices g)"
  shows "group_ready cfg gi (map_devices (gs_num_slave_devices gs) (after_event gs ev) g)"
  using assms device_inv_quiet [OF assms(4) _ _ assms(2)] by (simp add: group_ready_def Let_def)

lemma group_ready_length:
  assumes "group_ready cfg gi g" "gs = hi_groups (mc_hier cfg) ! gi"
  shows "gs_num_slave_devices gs \<le> length (gd_slave_devices g)"
proof (cases "gs_num_slave_devices gs")
  case (Suc n)
  then have "device_placed gs g n" using assms by (simp add: group_ready_def Let_def device_inv_def)
  then show ?thesis using Suc by (simp add: device_placed_def)
qed simp

text \<open>What a scan has done with a device of the group.\<close>

definition scanned :: "clm_group_setting \<Rightarrow> clm_group_data \<Rightarrow> clm_group_data \<Rightarrow> nat \<Rightarrow> bool" where
  "scanned gs g g' di \<longleftrightarrow>
     (let d = gd_slave_devices g ! di; d' = gd_slave_devices g' ! di in
      same_placing d d' \<and> dd_device_state d' = scan_state d \<and>
      (dd_enabled d \<longrightarrow> device_row gs g' di = row_data gs g di (sd_slave_id (gs_slave_devices gs ! di))
         (scan_state d = CLM_DEVICE_STATE_CYCLIC_SENDING \<or> dd_force_transmission_bit d)))"

lemma ids_ok_step:
  assumes "ids_ok gs f" "group_fits gs" "di < gs_num_slave_devices gs"
    and "row_id f' (station_no gs di - 1) \<in> {sd_slave_id (gs_slave_devices gs ! di), CL_IPADDR_INVALID}"
    and other: "\<forall>k < stations_of gs. k \<noteq> station_no gs di - 1 \<longrightarrow> row_id f' k = row_id f k"
  shows "ids_ok gs f'"
  unfolding ids_ok_def
proof (intro allI impI conjI)
  fix j assume j: "j < gs_num_slave_devices gs"
  note rj = station_no_range [OF assms(2) j] and ri = station_no_range [OF assms(2,3)]
  have apart: "k \<noteq> station_no gs di - 1" "k < stations_of gs"
    if "j \<noteq> di \<or> station_no gs j - 1 < k" "station_no gs j - 1 \<le> k" "k < station_no gs j - 1 + device_occ gs j" for k
    using that rj ri stations_apart [OF assms(2) j assms(3)] unfolding device_occ_def by auto
  show "row_id f' (station_no gs j - 1) \<in> {sd_slave_id (gs_slave_devices gs ! j), CL_IPADDR_INVALID}"
  proof (cases "j = di")
    case False
    then have "row_id f' (station_no gs j - 1) = row_id f (station_no gs j - 1)"
      using other apart [of "station_no gs j - 1"] rj by (auto simp: device_occ_def)
    then show ?thesis using assms(1) j by (auto simp: ids_ok_def)
  qed (use assms(4) in simp)
  fix l assume l: "1 \<le> l \<and> l < device_occ gs j"
  then have "row_id f' (station_no gs j - 1 + l) = row_id f (station_no gs j - 1 + l)"
    using other apart [of "station_no gs j - 1 + l"] by auto
  then show "row_id f' (station_no gs j - 1 + l) = CL_CCIEFB_MULTISTATION_INDICATOR"
    using assms(1) j l by (simp add: ids_ok_def)
qed

lemma scan_one_device:
  assumes t: "device_tables clm" and cfg: "clm_config clm = cfg" and gs: "gs = hi_groups (mc_hier cfg) ! gi" and fits: "group_fits gs"
    and ready: "group_ready cfg gi g" and di: "di < gs_num_slave_devices gs"
    and st: "dd_device_state (gd_slave_devices g ! di) \<in> {CLM_DEVICE_STATE_LISTEN, CLM_DEVICE_STATE_CYCLIC_SENT}"
  shows "\<exists>g' outs. clm_iefb_device_fsm_event clm di (scan_event (gd_slave_devices g ! di)) (g, out) = Returns (g', out @ outs) \<and>
    list_all is_scan_output outs \<and> same_group g g' \<and> group_ready cfg gi g' \<and> scanned gs g g' di \<and>
    request_parameter_no g' = request_parameter_no g \<and>
    (\<forall>j < length (gd_slave_devices g). j \<noteq> di \<longrightarrow> gd_slave_devices g' ! j = gd_slave_devices g ! j) \<and>
    (\<forall>j < gs_num_slave_devices gs. j \<noteq> di \<longrightarrow> device_row gs g' j = device_row gs g j)"
proof -
  let ?d = "gd_slave_devices g ! di"
  have r: "gd_group_index g = gi" "gd_total_occupied g = stations_of gs" "frame_ok (stations_of gs) (gd_req_frame g)" "memory_ok gs (gd_memory_area g)"
    "ids_ok gs (gd_req_frame g)" "headers_ok cfg gi gs (gd_req_frame g)" "\<forall>di < gs_num_slave_devices gs. device_inv gs g di"
    using ready gs by (simp_all add: group_ready_def Let_def)
  have placed: "device_placed gs g di" using r(7) di by (simp add: device_inv_def Let_def)
  have gs': "group_setting clm g = gs" using r(1) cfg gs by (simp add: group_setting_def)
  from scan_event_step [OF t gs' fits di r(3,4) placed st, of out] obtain g' outs d' where
    g': "clm_iefb_device_fsm_event clm di (scan_event ?d) (g, out) = Returns (g', out @ outs)" "list_all is_scan_output outs"
      "same_group g g'" "frame_ok (stations_of gs) (gd_req_frame g')" "row_headers (gd_req_frame g') = row_headers (gd_req_frame g)"
      "gd_slave_devices g' = (gd_slave_devices g)[di := d']" "same_placing ?d d'" "dd_device_state d' = scan_state ?d"
      "dd_enabled ?d \<longrightarrow> (dd_transmission_bit d' \<longleftrightarrow> scan_state ?d = CLM_DEVICE_STATE_CYCLIC_SENDING)"
      "dd_transmission_bit d' \<longrightarrow> bit (gd_cyclic_transmission_state g') (station_no gs di - 1) \<or>
          dd_transmission_bit ?d \<and> gd_cyclic_transmission_state g' = gd_cyclic_transmission_state g"
      "dd_enabled ?d \<longrightarrow> device_row gs g' di = row_data gs g di (sd_slave_id (gs_slave_devices gs ! di))
        (scan_state ?d = CLM_DEVICE_STATE_CYCLIC_SENDING \<or> dd_force_transmission_bit ?d)"
      "\<not> dd_enabled ?d \<longrightarrow> fst (device_row gs g' di) \<in> {CL_IPADDR_INVALID, fst (device_row gs g di)}"
      "\<forall>k < stations_of gs. k \<noteq> station_no gs di - 1 \<longrightarrow> row_id (gd_req_frame g') k = row_id (gd_req_frame g) k"
      "\<forall>j < gs_num_slave_devices gs. j \<noteq> di \<longrightarrow> device_row gs g' j = device_row gs g j" by blast
  have len: "di < length (gd_slave_devices g)" using placed by (simp add: device_placed_def)
  have same: "gd_group_index g' = gi" "gd_total_occupied g' = stations_of gs" "gd_memory_area g' = gd_memory_area g"
    using g'(3) r by (simp_all add: same_group_def)
  have "row_id (gd_req_frame g') (station_no gs di - 1) \<in> {sd_slave_id (gs_slave_devices gs ! di), CL_IPADDR_INVALID}"
    using g'(11,12) r(5) di by (cases "dd_enabled ?d") (auto simp: device_row_def row_data_def ids_ok_def Let_def)
  then have ids: "ids_ok gs (gd_req_frame g')" by (rule ids_ok_step [OF r(5) fits di _ g'(13)])
  have st': "scan_state ?d \<in> live_states" "scan_state ?d = CLM_DEVICE_STATE_CYCLIC_SENDING \<or> scan_state ?d = CLM_DEVICE_STATE_WAIT_TD \<longrightarrow> dd_enabled ?d"
    by (simp_all add: scan_state_def live_states_def)
  have own: "device_inv gs g' di"
    using g' len placed st' r(7) di by (auto simp: device_inv_def device_placed_def Let_def same_placing_def)
  have others: "device_inv gs g' j" if "j < gs_num_slave_devices gs" "j \<noteq> di" for j
  proof -
    have "bit (gd_cyclic_transmission_state g') (station_no gs j - 1) = bit (gd_cyclic_transmission_state g) (station_no gs j - 1)"
      using g'(14) that by (auto simp: device_row_def Let_def)
    then show ?thesis using r(7) that g'(6) by (simp add: device_inv_def device_placed_def Let_def)
  qed
  have "group_ready cfg gi g'"
    unfolding group_ready_def Let_def gs [symmetric]
    using same g'(4) r(4) ids headers_ok_cong [OF r(6) g'(5) r(3) g'(4)] own others by fastforce
  moreover have "scanned gs g g' di" using g' len by (simp add: scanned_def Let_def)
  moreover have "request_parameter_no g' = request_parameter_no g"
    using headers_cong [OF g'(5) r(3) g'(4)] by (simp add: request_parameter_no_def)
  ultimately show ?thesis using g' by (intro exI [of _ g'] exI [of _ outs]) simp
qed

end
