(* ===== verification/CLM_Scan.thy ===== *)
theory CLM_Scan
  imports CLM_Group "HOL-Library.Sublist"
begin

text \<open>
  One link scan of a group: every enabled device is addressed in the request frame, with its data if it
  is connected, and the frame is sent (\<open>clm_iefb_on_linkscan_start\<close> in \<open>src/master/clm_iefb.c\<close>).
\<close>

section \<open>One link scan\<close>

lemma scanned_keep:
  assumes "scanned gs g h j" "gd_slave_devices h' ! j = gd_slave_devices h ! j" "device_row gs h' j = device_row gs h j"
  shows "scanned gs g h' j"
  using assms by (simp add: scanned_def Let_def)

lemma scanned_next:
  assumes "scanned gs h h' j" "gd_slave_devices h ! j = gd_slave_devices g ! j" "gd_memory_area h = gd_memory_area g"
  shows "scanned gs g h' j"
  using assms by (simp add: scanned_def row_data_def Let_def)

lemma scan_devices_ok:
  assumes t: "device_tables clm" and cfg: "clm_config clm = cfg" and gs: "gs = hi_groups (mc_hier cfg) ! gi" and fits: "group_fits gs"
    and ready: "group_ready cfg gi g" and st: "devices_in {CLM_DEVICE_STATE_LISTEN, CLM_DEVICE_STATE_CYCLIC_SENT} gs g"
  shows "\<exists>g' outs. scan_devices clm (g, out) = Returns (g', out @ outs) \<and> list_all is_scan_output outs \<and>
    same_group g g' \<and> group_ready cfg gi g' \<and> request_parameter_no g' = request_parameter_no g \<and>
    (\<forall>di < gs_num_slave_devices gs. scanned gs g g' di)"
proof -
  let ?n = "gs_num_slave_devices gs"
  let ?P = "\<lambda>i s. \<exists>g' outs. s = (g', out @ outs) \<and> list_all is_scan_output outs \<and> same_group g g' \<and> group_ready cfg gi g' \<and>
    request_parameter_no g' = request_parameter_no g \<and> (\<forall>di < i. scanned gs g g' di) \<and> (\<forall>di. i \<le> di \<and> di < ?n \<longrightarrow> gd_slave_devices g' ! di = gd_slave_devices g ! di)"
  let ?f = "\<lambda>di s. clm_iefb_device_fsm_event clm di (scan_event (gd_slave_devices (fst s) ! di)) s"
  have len: "?n \<le> length (gd_slave_devices g)" by (rule group_ready_length [OF ready gs])
  have "\<exists>s'. for_each ?f [0..<?n] (g, out) = Returns s' \<and> ?P ?n s'"
  proof (rule for_each_upt [where P = ?P])
    show "?P 0 (g, out)" using ready by (simp add: same_group_def)
    fix i s assume i: "i < ?n" and "?P i s"
    then obtain g1 o1 where p: "s = (g1, out @ o1)" "list_all is_scan_output o1" "same_group g g1" "group_ready cfg gi g1"
      "request_parameter_no g1 = request_parameter_no g" "\<forall>di < i. scanned gs g g1 di" "\<forall>di. i \<le> di \<and> di < ?n \<longrightarrow> gd_slave_devices g1 ! di = gd_slave_devices g ! di" by blast
    have "dd_device_state (gd_slave_devices g1 ! i) \<in> {CLM_DEVICE_STATE_LISTEN, CLM_DEVICE_STATE_CYCLIC_SENT}"
      using st i p(7) by (simp add: devices_in_def)
    from scan_one_device [OF t cfg gs fits p(4) i this, of "out @ o1"] obtain g2 o2 where
      q: "?f i s = Returns (g2, (out @ o1) @ o2)" "list_all is_scan_output o2" "same_group g1 g2" "group_ready cfg gi g2"
        "scanned gs g1 g2 i" "request_parameter_no g2 = request_parameter_no g1" "\<forall>j < length (gd_slave_devices g1). j \<noteq> i \<longrightarrow> gd_slave_devices g2 ! j = gd_slave_devices g1 ! j"
        "\<forall>j < ?n. j \<noteq> i \<longrightarrow> device_row gs g2 j = device_row gs g1 j" using p(1) by auto
    have same: "same_group g g2" "gd_memory_area g1 = gd_memory_area g" "length (gd_slave_devices g1) = length (gd_slave_devices g)"
      using p(3) q(3) by (simp_all add: same_group_def)
    have "scanned gs g g2 j" if j: "j < Suc i" for j
    proof (cases "j = i")
      case True then show ?thesis using scanned_next [OF q(5)] p(7) i same(2) by simp
    next
      case False then show ?thesis using scanned_keep [of gs g g1 j g2] p(6) q(7,8) j i len same(3) by simp
    qed
    moreover have "gd_slave_devices g2 ! j = gd_slave_devices g ! j" if "Suc i \<le> j" "j < ?n" for j
      using that p(7) q(7) same(3) len by simp
    ultimately have "?P (Suc i) (g2, (out @ o1) @ o2)"
      using q p(2,5) same by (intro exI [of _ g2] exI [of _ "o1 @ o2"]) simp
    then show "\<exists>s'. ?f i s = Returns s' \<and> ?P (Suc i) s'" using q(1) by blast
  qed
  moreover have "group_setting clm g = gs" using ready cfg gs by (simp add: group_setting_def group_ready_def Let_def)
  ultimately show ?thesis by (fastforce simp: scan_devices_def)
qed

text \<open>The changes of the master that an operation on one group makes.\<close>

definition only_group :: "nat \<Rightarrow> clm \<Rightarrow> clm \<Rightarrow> bool" where
  "only_group gi clm clm' \<longleftrightarrow> clm_config clm' = clm_config clm \<and>
     clm_device_fsm_matrix clm' = clm_device_fsm_matrix clm \<and>
     clm_device_fsm_on_entry_exit clm' = clm_device_fsm_on_entry_exit clm \<and>
     clm_group_fsm_matrix clm' = clm_group_fsm_matrix clm \<and>
     clm_group_fsm_on_entry_exit clm' = clm_group_fsm_on_entry_exit clm \<and>
     clm_iefb_broadcast_ip clm' = clm_iefb_broadcast_ip clm \<and>
     clm_master_local_unit_info clm' = clm_master_local_unit_info clm \<and> prefix (clm_out clm) (clm_out clm') \<and>
     length (clm_groups clm') = length (clm_groups clm) \<and>
     (\<forall>j. j \<noteq> gi \<longrightarrow> clm_groups clm' ! j = clm_groups clm ! j)"

lemma only_group_refl [simp]: "only_group gi clm clm" by (simp add: only_group_def)

lemma only_group_trans [trans]: "only_group gi a b \<Longrightarrow> only_group gi b c \<Longrightarrow> only_group gi a c"
  unfolding only_group_def by (metis prefix_order.trans)

lemma set_group_simps [simp]:
  "clm_config (set_group gi g clm) = clm_config clm"
  "clm_groups (set_group gi g clm) = (clm_groups clm)[gi := g]"
  "clm_out (set_group gi g clm) = clm_out clm"
  "clm_device_fsm_matrix (set_group gi g clm) = clm_device_fsm_matrix clm"
  "clm_device_fsm_on_entry_exit (set_group gi g clm) = clm_device_fsm_on_entry_exit clm"
  "clm_group_fsm_matrix (set_group gi g clm) = clm_group_fsm_matrix clm"
  "clm_group_fsm_on_entry_exit (set_group gi g clm) = clm_group_fsm_on_entry_exit clm"
  "clm_iefb_broadcast_ip (set_group gi g clm) = clm_iefb_broadcast_ip clm"
  "clm_arbitration_timer (set_group gi g clm) = clm_arbitration_timer clm"
  "clm_state (set_group gi g clm) = clm_state clm"
  "clm_master_local_unit_info (set_group gi g clm) = clm_master_local_unit_info clm"
  by (simp_all add: set_group_def)

lemma only_group_set [simp]: "only_group gi clm (set_group gi g clm)"
  by (simp add: only_group_def)

lemma set_group_twice [simp]: "set_group gi g' (set_group gi g clm) = set_group gi g' clm"
  by (simp add: set_group_def)

lemma on_group_Returns:
  assumes "f (clm_groups clm ! gi, clm_out clm) = Returns (g, out)"
  shows "on_group gi f clm = Returns ((set_group gi g clm)\<lparr>clm_out := out\<rparr>)"
  using assms by (simp add: on_group_def)

definition sent_headers :: "clm_cfg \<Rightarrow> nat \<Rightarrow> clm_group_data \<Rightarrow> u64 \<Rightarrow> u16 \<Rightarrow> cl_cciefb_cyclic_req_full_headers \<Rightarrow> bool" where
  "sent_headers cfg gi g ck u h \<longleftrightarrow>
     (let gs = hi_groups (mc_hier cfg) ! gi in
      \<exists>p. h = updated_request_headers (initial_request_headers (67 + 76 * stations_of gs) (mc_protocol_ver cfg)
        (gs_timeout_value gs) (gs_parallel_off_timeout_count gs) (mc_master_id cfg) (of_nat gi + 1) (stations_of gs) p)
        (gd_frame_sequence_no g) ck u (gd_cyclic_transmission_state g))"

text \<open>A link scan of group \<open>gi\<close> has turned \<open>g\<close> into \<open>g'\<close> and its frame has been sent.\<close>

definition scan_started :: "clm_cfg \<Rightarrow> nat \<Rightarrow> u32 \<Rightarrow> u64 \<Rightarrow> u16 \<Rightarrow> clm_group_data \<Rightarrow> clm_group_data \<Rightarrow> bool" where
  "scan_started cfg gi now ck u g g' \<longleftrightarrow>
     (let gs = hi_groups (mc_hier cfg) ! gi in
      group_ready cfg gi g' \<and> gd_group_state g' = gd_group_state g \<and> gd_memory_area g' = gd_memory_area g \<and>
      gd_frame_sequence_no g' = gd_frame_sequence_no g \<and> gd_timestamp_link_scan_start g' = now \<and>
      (\<forall>di < gs_num_slave_devices gs. scanned gs g g' di) \<and> request_parameter_no g' = request_parameter_no g \<and>
      sent_headers cfg gi g' ck u (dec_req_full_headers (mq_buffer (gd_req_frame g')) 0) \<and>
      gd_response_wait_timer g' = cl_timer_start (scan_period gs) now (gd_response_wait_timer g) \<and>
      gd_constant_linkscan_timer g' = (if gs_use_constant_link_scan_time gs
        then cl_timer_start (scan_period gs) now (gd_constant_linkscan_timer g) else gd_constant_linkscan_timer g))"

definition request_payload :: "clm_group_data \<Rightarrow> bytes" where
  "request_payload g = take (mq_udp_payload_len (gd_req_frame g)) (mq_buffer (gd_req_frame g))"

lemma slice_drop: "k \<le> i \<Longrightarrow> slice buf i n = slice (drop k buf) (i - k) n"
  by (simp add: slice_def)

lemma rows_of_tail:
  assumes "frame_ok n f" "frame_ok n f'" "drop 67 (mq_buffer f') = drop 67 (mq_buffer f)"
  shows "\<forall>k < n. row_id f' k = row_id f k" "row_rww f' k m = row_rww f k m" "row_ry f' k m = row_ry f k m"
proof -
  note d = frame_okD [OF assms(1)] and d' = frame_okD [OF assms(2)]
  have s: "slice (mq_buffer f') i l = slice (mq_buffer f) i l" if "67 \<le> i" for i l
    using that assms(3) by (simp add: slice_drop [of 67 i])
  show "row_rww f' k m = row_rww f k m" "row_ry f' k m = row_ry f k m"
    by (simp_all add: row_rww_def row_ry_def d d' s)
  show "\<forall>k < n. row_id f' k = row_id f k"
    using d d' by (simp add: row_id_def le32_at_slice s)
qed

lemma updated_again:
  "updated_request_headers (updated_request_headers h a b c d) a' b' c' d' = updated_request_headers h a' b' c' d'"
  by (simp add: updated_request_headers_def)

lemma ids_ok_cong:
  assumes "ids_ok gs f" "group_fits gs" "\<forall>k < stations_of gs. row_id f' k = row_id f k"
  shows "ids_ok gs f'"
  unfolding ids_ok_def
proof (intro allI impI conjI)
  fix di assume di: "di < gs_num_slave_devices gs"
  note r = station_no_range [OF assms(2) di]
  have k: "station_no gs di - 1 + j < stations_of gs" if "j < device_occ gs di" for j
    using that r by (simp add: device_occ_def)
  show "row_id f' (station_no gs di - 1) \<in> {sd_slave_id (gs_slave_devices gs ! di), CL_IPADDR_INVALID}"
    using assms k [of 0] di r by (simp add: ids_ok_def device_occ_def)
  show "row_id f' (station_no gs di - 1 + j) = CL_CCIEFB_MULTISTATION_INDICATOR" if "1 \<le> j \<and> j < device_occ gs di" for j
    using assms k [of j] di that by (simp add: ids_ok_def)
qed

lemma send_frame_ok:
  assumes ready: "group_ready cfg gi g" and gs: "gs = hi_groups (mc_hier cfg) ! gi" and fits: "group_fits gs"
    and f': "f' = cl_iefb_update_request_frame_headers (gd_req_frame g) (gd_frame_sequence_no g) ck u (gd_cyclic_transmission_state g)"
  shows "group_ready cfg gi (g\<lparr>gd_req_frame := f'\<rparr>)"
    "\<And>di. di < gs_num_slave_devices gs \<Longrightarrow> device_row gs (g\<lparr>gd_req_frame := f'\<rparr>) di = device_row gs g di"
    "sent_headers cfg gi g ck u (dec_req_full_headers (mq_buffer f') 0)"
    "request_parameter_no (g\<lparr>gd_req_frame := f'\<rparr>) = request_parameter_no g"
proof -
  let ?f = "gd_req_frame g"
  have r: "frame_ok (stations_of gs) ?f" "ids_ok gs ?f" "headers_ok cfg gi gs ?f"
    using ready gs by (simp_all add: group_ready_def Let_def)
  have wf: "request_frame_wf ?f (stations_of gs)" using r(1) by (simp add: frame_ok_def)
  note w = update_request_frame_headers_ok [OF wf f']
  have ok: "frame_ok (stations_of gs) f'" using r(1) w by (simp add: frame_ok_def)
  note rows = rows_of_tail [OF r(1) ok w(4)]
  show h: "sent_headers cfg gi g ck u (dec_req_full_headers (mq_buffer f') 0)"
    using r(3) w(3) gs by (auto simp: headers_ok_def sent_headers_def Let_def updated_again)
  show "request_parameter_no (g\<lparr>gd_req_frame := f'\<rparr>) = request_parameter_no g"
    using w(3) by (simp add: request_parameter_no_def updated_request_headers_def)
  have hd: "headers_ok cfg gi gs f'"
    using h unfolding headers_ok_def sent_headers_def Let_def gs [symmetric] by blast
  have ids: "ids_ok gs f'" by (rule ids_ok_cong [OF r(2) fits rows(1)])
  have inv: "device_inv s (g\<lparr>gd_req_frame := f'\<rparr>) di = device_inv s g di" for s di
    by (simp add: device_inv_def device_placed_def)
  show "group_ready cfg gi (g\<lparr>gd_req_frame := f'\<rparr>)"
    using ready ok ids hd by (simp add: group_ready_def Let_def gs inv)
  show "device_row gs (g\<lparr>gd_req_frame := f'\<rparr>) di = device_row gs g di" if "di < gs_num_slave_devices gs" for di
  proof -
    have "station_no gs di - 1 < stations_of gs" using station_no_range [OF fits that] by linarith
    then show ?thesis using rows by (simp add: device_row_def Let_def)
  qed
qed

lemma group_ready_fields:
  "group_ready cfg gi (g\<lparr>gd_timestamp_link_scan_start := a\<rparr>) = group_ready cfg gi g"
  "group_ready cfg gi (g\<lparr>gd_response_wait_timer := t\<rparr>) = group_ready cfg gi g"
  "group_ready cfg gi (g\<lparr>gd_constant_linkscan_timer := t\<rparr>) = group_ready cfg gi g"
  "group_ready cfg gi (g\<lparr>gd_group_state := s\<rparr>) = group_ready cfg gi g"
  "group_ready cfg gi (g\<lparr>gd_frame_sequence_no := q\<rparr>) = group_ready cfg gi g"
  by (simp_all add: group_ready_def device_inv_def device_placed_def Let_def)

lemma linkscan_start_ok:
  assumes t: "device_tables clm" and cfg: "clm_config clm = cfg" and gs: "gs = hi_groups (mc_hier cfg) ! gi" and fits: "group_fits gs"
    and gi: "gi < length (clm_groups clm)" and g: "clm_groups clm ! gi = g"
    and ready: "group_ready cfg gi g" and st: "devices_in {CLM_DEVICE_STATE_LISTEN, CLM_DEVICE_STATE_CYCLIC_SENT} gs g"
  shows "\<exists>g' outs. clm_iefb_on_linkscan_start now clock gi clm =
      Returns ((set_group gi g' clm)\<lparr>clm_out := clm_out clm @ outs @ [Request_Sent (clm_iefb_broadcast_ip clm) (request_payload g')]\<rparr>) \<and>
    list_all is_scan_output outs \<and>
    scan_started cfg gi now (clock (length (clm_out clm))) (clm_master_local_unit_info clm) g g'"
proof -
  let ?ck = "clock (length (clm_out clm))" and ?u = "clm_master_local_unit_info clm"
  from scan_devices_ok [OF t cfg gs fits ready st, of "clm_out clm"] obtain h outs where
    h: "scan_devices clm (g, clm_out clm) = Returns (h, clm_out clm @ outs)" "list_all is_scan_output outs" "same_group g h"
      "group_ready cfg gi h" "request_parameter_no h = request_parameter_no g" "\<forall>di < gs_num_slave_devices gs. scanned gs g h di" by blast
  define h1 where "h1 = h\<lparr>gd_timestamp_link_scan_start := now\<rparr>"
  have h1: "group_ready cfg gi h1" using h(4) by (simp add: h1_def group_ready_fields)
  define f where "f = cl_iefb_update_request_frame_headers (gd_req_frame h1) (gd_frame_sequence_no h1) ?ck ?u (gd_cyclic_transmission_state h1)"
  note s = send_frame_ok [OF h1 gs fits f_def]
  have idx: "gd_group_index h = gi" using h(4) by (simp add: group_ready_def Let_def)
  have tm: "gd_response_wait_timer h = gd_response_wait_timer g" "gd_constant_linkscan_timer h = gd_constant_linkscan_timer g"
    using h(3) by (simp_all add: same_group_def)
  define h2 where "h2 = h1\<lparr>gd_req_frame := f, gd_response_wait_timer := cl_timer_start (scan_period gs) now (gd_response_wait_timer g)\<rparr>"
  define h3 where "h3 = (if gs_use_constant_link_scan_time gs
    then h2\<lparr>gd_constant_linkscan_timer := cl_timer_start (scan_period gs) now (gd_constant_linkscan_timer g)\<rparr> else h2)"
  have run: "clm_iefb_on_linkscan_start now clock gi clm =
      Returns ((set_group gi h3 clm)\<lparr>clm_out := clm_out clm @ outs @ [Request_Sent (clm_iefb_broadcast_ip clm) (request_payload h3)]\<rparr>)"
    using gi h(1) idx tm
    by (simp add: clm_iefb_on_linkscan_start_def on_group_def g Let_def clm_iefb_send_cyclic_request_frame_def
        h3_def h2_def h1_def f_def set_group_def group_setting_def cfg gs [symmetric] scan_period_def request_payload_def)
  have keep: "scanned gs g h3 di" if "di < gs_num_slave_devices gs" for di
  proof -
    have "device_row gs h3 di = device_row gs h di" using s(2) [OF that] by (simp add: h3_def h2_def h1_def device_row_def)
    then show ?thesis using scanned_keep [of gs g h di h3] h(6) that by (simp add: h3_def h2_def h1_def)
  qed
  have "group_ready cfg gi h3" using s(1) by (simp add: h3_def h2_def group_ready_fields)
  moreover have "sent_headers cfg gi h3 ?ck ?u (dec_req_full_headers (mq_buffer (gd_req_frame h3)) 0)"
    using s(3) by (simp add: h3_def h2_def h1_def sent_headers_def)
  moreover have "request_parameter_no h3 = request_parameter_no g"
    using s(4) h(5) by (simp add: h3_def h2_def h1_def request_parameter_no_def)
  ultimately have "scan_started cfg gi now ?ck ?u g h3"
    using keep h(3) unfolding scan_started_def Let_def gs [symmetric] by (auto simp: h3_def h2_def h1_def same_group_def)
  then show ?thesis using run h(2) by blast
qed

end
