(* ===== verification/CLM_Rounds.thy ===== *)
theory CLM_Rounds
  imports CLM_Scan
begin

text \<open>
  What one round of the group state machine does for each entry of its table, and how the parameters
  of a group are set up when the master starts.
\<close>

section \<open>Rounds of the group state machine\<close>

definition group_tables :: "clm \<Rightarrow> bool" where
  "group_tables clm \<longleftrightarrow> clm_group_fsm_matrix clm = build_matrix group_transitions \<and>
     clm_group_fsm_on_entry_exit clm = build_entry_exit group_state_actions"

lemma group_transitions_distinct: "distinct (transition_keys group_transitions)"
  by (simp add: group_transitions_def transition_keys_def)

definition group_find where "group_find = find_transition group_transitions"

lemma group_find_live:
  "group_find CLM_GROUP_STATE_MASTER_LISTEN CLM_GROUP_EVENT_NONE = None"
  "group_find CLM_GROUP_STATE_MASTER_LISTEN CLM_GROUP_EVENT_STARTUP = None"
  "group_find CLM_GROUP_STATE_MASTER_LISTEN CLM_GROUP_EVENT_PARAMETER_CHANGE = Some (CLM_GROUP_STATE_MASTER_LISTEN, None)"
  "group_find CLM_GROUP_STATE_MASTER_LISTEN CLM_GROUP_EVENT_NEW_CONFIG = Some (CLM_GROUP_STATE_MASTER_ARBITRATION, Some Group_New_Config)"
  "group_find CLM_GROUP_STATE_MASTER_LISTEN CLM_GROUP_EVENT_ARBITRATION_DONE = None"
  "group_find CLM_GROUP_STATE_MASTER_LISTEN CLM_GROUP_EVENT_REQ_FROM_OTHER = None"
  "group_find CLM_GROUP_STATE_MASTER_LISTEN CLM_GROUP_EVENT_MASTERDUPL_ALARM = None"
  "group_find CLM_GROUP_STATE_MASTER_LISTEN CLM_GROUP_EVENT_LINKSCAN_START = None"
  "group_find CLM_GROUP_STATE_MASTER_LISTEN CLM_GROUP_EVENT_LINKSCAN_TIMEOUT = None"
  "group_find CLM_GROUP_STATE_MASTER_LISTEN CLM_GROUP_EVENT_LINKSCAN_COMPLETE = None"
  "group_find CLM_GROUP_STATE_MASTER_LISTEN CLM_GROUP_EVENT_LAST = None"
  "group_find CLM_GROUP_STATE_MASTER_ARBITRATION CLM_GROUP_EVENT_NONE = None"
  "group_find CLM_GROUP_STATE_MASTER_ARBITRATION CLM_GROUP_EVENT_STARTUP = None"
  "group_find CLM_GROUP_STATE_MASTER_ARBITRATION CLM_GROUP_EVENT_PARAMETER_CHANGE = Some (CLM_GROUP_STATE_MASTER_LISTEN, None)"
  "group_find CLM_GROUP_STATE_MASTER_ARBITRATION CLM_GROUP_EVENT_NEW_CONFIG = None"
  "group_find CLM_GROUP_STATE_MASTER_ARBITRATION CLM_GROUP_EVENT_ARBITRATION_DONE = Some (CLM_GROUP_STATE_MASTER_LINK_SCAN_COMP, Some On_Arbitration_Done)"
  "group_find CLM_GROUP_STATE_MASTER_ARBITRATION CLM_GROUP_EVENT_REQ_FROM_OTHER = Some (CLM_GROUP_STATE_MASTER_LISTEN, Some On_Arbitration_Failed)"
  "group_find CLM_GROUP_STATE_MASTER_ARBITRATION CLM_GROUP_EVENT_MASTERDUPL_ALARM = None"
  "group_find CLM_GROUP_STATE_MASTER_ARBITRATION CLM_GROUP_EVENT_LINKSCAN_START = None"
  "group_find CLM_GROUP_STATE_MASTER_ARBITRATION CLM_GROUP_EVENT_LINKSCAN_TIMEOUT = None"
  "group_find CLM_GROUP_STATE_MASTER_ARBITRATION CLM_GROUP_EVENT_LINKSCAN_COMPLETE = None"
  "group_find CLM_GROUP_STATE_MASTER_ARBITRATION CLM_GROUP_EVENT_LAST = None"
  "group_find CLM_GROUP_STATE_MASTER_LINK_SCAN_COMP CLM_GROUP_EVENT_NONE = None"
  "group_find CLM_GROUP_STATE_MASTER_LINK_SCAN_COMP CLM_GROUP_EVENT_STARTUP = None"
  "group_find CLM_GROUP_STATE_MASTER_LINK_SCAN_COMP CLM_GROUP_EVENT_PARAMETER_CHANGE = Some (CLM_GROUP_STATE_MASTER_LISTEN, None)"
  "group_find CLM_GROUP_STATE_MASTER_LINK_SCAN_COMP CLM_GROUP_EVENT_NEW_CONFIG = None"
  "group_find CLM_GROUP_STATE_MASTER_LINK_SCAN_COMP CLM_GROUP_EVENT_ARBITRATION_DONE = None"
  "group_find CLM_GROUP_STATE_MASTER_LINK_SCAN_COMP CLM_GROUP_EVENT_REQ_FROM_OTHER = Some (CLM_GROUP_STATE_MASTER_LINK_SCAN_COMP, None)"
  "group_find CLM_GROUP_STATE_MASTER_LINK_SCAN_COMP CLM_GROUP_EVENT_MASTERDUPL_ALARM = Some (CLM_GROUP_STATE_MASTER_LISTEN, None)"
  "group_find CLM_GROUP_STATE_MASTER_LINK_SCAN_COMP CLM_GROUP_EVENT_LINKSCAN_START = Some (CLM_GROUP_STATE_MASTER_LINK_SCAN, Some On_Linkscan_Start)"
  "group_find CLM_GROUP_STATE_MASTER_LINK_SCAN_COMP CLM_GROUP_EVENT_LINKSCAN_TIMEOUT = None"
  "group_find CLM_GROUP_STATE_MASTER_LINK_SCAN_COMP CLM_GROUP_EVENT_LINKSCAN_COMPLETE = None"
  "group_find CLM_GROUP_STATE_MASTER_LINK_SCAN_COMP CLM_GROUP_EVENT_LAST = None"
  "group_find CLM_GROUP_STATE_MASTER_LINK_SCAN CLM_GROUP_EVENT_NONE = None"
  "group_find CLM_GROUP_STATE_MASTER_LINK_SCAN CLM_GROUP_EVENT_STARTUP = None"
  "group_find CLM_GROUP_STATE_MASTER_LINK_SCAN CLM_GROUP_EVENT_PARAMETER_CHANGE = Some (CLM_GROUP_STATE_MASTER_LISTEN, None)"
  "group_find CLM_GROUP_STATE_MASTER_LINK_SCAN CLM_GROUP_EVENT_NEW_CONFIG = None"
  "group_find CLM_GROUP_STATE_MASTER_LINK_SCAN CLM_GROUP_EVENT_ARBITRATION_DONE = None"
  "group_find CLM_GROUP_STATE_MASTER_LINK_SCAN CLM_GROUP_EVENT_REQ_FROM_OTHER = Some (CLM_GROUP_STATE_MASTER_LINK_SCAN, None)"
  "group_find CLM_GROUP_STATE_MASTER_LINK_SCAN CLM_GROUP_EVENT_MASTERDUPL_ALARM = Some (CLM_GROUP_STATE_MASTER_LISTEN, None)"
  "group_find CLM_GROUP_STATE_MASTER_LINK_SCAN CLM_GROUP_EVENT_LINKSCAN_START = None"
  "group_find CLM_GROUP_STATE_MASTER_LINK_SCAN CLM_GROUP_EVENT_LINKSCAN_TIMEOUT = Some (CLM_GROUP_STATE_MASTER_LINK_SCAN_COMP, Some On_Linkscan_Timeout)"
  "group_find CLM_GROUP_STATE_MASTER_LINK_SCAN CLM_GROUP_EVENT_LINKSCAN_COMPLETE = Some (CLM_GROUP_STATE_MASTER_LINK_SCAN_COMP, Some On_Linkscan_Complete)"
  "group_find CLM_GROUP_STATE_MASTER_LINK_SCAN CLM_GROUP_EVENT_LAST = None"
    "group_find CLM_GROUP_STATE_MASTER_DOWN CLM_GROUP_EVENT_STARTUP = Some (CLM_GROUP_STATE_MASTER_LISTEN, Some Group_Init)"
  by (simp_all add: group_find_def group_transitions_def find_transition_def)

lemmas group_lookup = build_matrix_lookup [OF group_transitions_distinct, folded group_find_def]

lemma group_entry: "fst (build_entry_exit group_state_actions st) =
    (if st = CLM_GROUP_STATE_MASTER_LISTEN then Some Group_On_Entry_Listen
     else if st = CLM_GROUP_STATE_MASTER_ARBITRATION then Some Group_On_Entry_Arbitration
     else if st = CLM_GROUP_STATE_MASTER_LINK_SCAN_COMP then Some Group_On_Entry_Scan_Complete else None)"
  by (simp add: build_entry_exit_lookup group_state_actions_def)

lemma set_group_same: "set_group gi (clm_groups clm ! gi) clm = clm"
  by (simp add: set_group_def)

lemma group_state_same: "g\<lparr>gd_group_state := gd_group_state g\<rparr> = g" by simp

text \<open>A round that finds no entry, or one that changes nothing.\<close>

lemma group_round_idle:
  assumes "group_tables clm" "gd_group_state (clm_groups clm ! gi) = st"
    and "group_find st ev = None \<or> group_find st ev = Some (st, None)"
  shows "group_round now clock gi ev clm = Returns (CLM_GROUP_EVENT_NONE, clm)"
proof -
  have "set_group gi ((clm_groups clm ! gi)\<lparr>gd_group_state := st\<rparr>) clm = clm"
    using assms(2) group_state_same set_group_same by metis
  then show ?thesis using assms(1,3)
    unfolding group_round_def Let_def assms(2)
    by (auto simp: group_tables_def group_lookup split: option.splits)
qed

lemma group_round_action:
  assumes "group_tables clm" "group_find (gd_group_state (clm_groups clm ! gi)) ev = Some (nx, act)"
    and "gd_group_state (clm_groups clm ! gi) \<noteq> nx"
  shows "group_round now clock gi ev clm =
    obind (case act of Some a \<Rightarrow> run_group_action a now clock gi (set_group gi ((clm_groups clm ! gi)\<lparr>gd_group_state := nx\<rparr>) clm)
           | None \<Rightarrow> Returns (CLM_GROUP_EVENT_NONE, set_group gi ((clm_groups clm ! gi)\<lparr>gd_group_state := nx\<rparr>) clm)) (\<lambda>(event, clm).
      case fst (build_entry_exit group_state_actions nx) of
        Some a \<Rightarrow> obind (run_group_action a now clock gi clm) (\<lambda>(_, clm). Returns (event, clm))
      | None \<Rightarrow> Returns (event, clm))"
  using assms by (auto simp: group_round_def group_tables_def group_lookup Let_def split: option.splits)

text \<open>A configuration that has passed validation.\<close>

definition good_config :: "clm_cfg \<Rightarrow> bool" where
  "good_config cfg \<longleftrightarrow> (\<exists>max_groups max_stations. options_ok max_groups max_stations \<and>
     config_valid max_groups max_stations cfg) \<and> arrays_ok cfg \<and> distinct (slave_ids_of cfg)"

lemma good_config_group:
  assumes "good_config cfg" "gi < hi_number_of_groups (mc_hier cfg)" "gs = hi_groups (mc_hier cfg) ! gi"
  shows "group_fits gs" "1 \<le> gs_num_slave_devices gs" "1 \<le> stations_of gs" "1 \<le> gs_timeout_value gs" "gi < 64"
proof -
  obtain mg ms where o: "options_ok mg ms" "config_valid mg ms cfg" "arrays_ok cfg" using assms(1) by (auto simp: good_config_def)
  have m: "gs \<in> set (groups_of cfg)" using assms(2,3) o(3) by (auto simp: groups_of_def arrays_ok_def in_set_conv_nth)
  then have v: "group_valid ms (mc_master_id cfg) gs" using o(2) by (auto simp: config_valid_def)
  have l: "gs_num_slave_devices gs \<le> length (gs_slave_devices gs)" using o(3) m by (auto simp: arrays_ok_def)
  have "ms \<le> 16" "mg \<le> 64" using o(1) by (simp_all add: options_ok_def cl_consts)
  then show f: "group_fits gs" and n: "1 \<le> gs_num_slave_devices gs" "1 \<le> gs_timeout_value gs" "gi < 64"
    using v l o(2) assms(2) by (auto simp: group_valid_def device_valid_def group_fits_def config_valid_def)
  show "1 \<le> stations_of gs" using station_no_range(3) [OF f, of 0] station_no_range(2) [OF f, of 0] n by (simp add: station_no_def)
qed

text \<open>The application status sent with each request uses the bits that the protocol version allows.\<close>

definition unit_info_ok :: "clm \<Rightarrow> bool" where
  "unit_info_ok clm \<longleftrightarrow> clm_master_local_unit_info clm AND (if mc_protocol_ver (clm_config clm) = 1 then 0xFFFE else 0xFFFC) = 0"

definition master_ok :: "clm \<Rightarrow> bool" where
  "master_ok clm \<longleftrightarrow> device_tables clm \<and> group_tables clm \<and> good_config (clm_config clm) \<and> unit_info_ok clm \<and>
     hi_number_of_groups (mc_hier (clm_config clm)) \<le> length (clm_groups clm)"

lemma only_group_ok: "only_group gi clm clm' \<Longrightarrow> master_ok clm \<Longrightarrow> master_ok clm'"
  by (simp add: only_group_def master_ok_def device_tables_def group_tables_def unit_info_ok_def)

lemma memit_if_simps [simp]:
  "clm_config (memit_if b x clm) = clm_config clm" "clm_groups (memit_if b x clm) = clm_groups clm"
  "clm_arbitration_timer (memit_if b x clm) = clm_arbitration_timer clm"
  "only_group gi clm (memit_if b x clm)"
  by (simp_all add: memit_if_def only_group_def)

lemma set_master_state_simps [simp]:
  "clm_config (clm_iefb_set_master_state st clm) = clm_config clm"
  "clm_groups (clm_iefb_set_master_state st clm) = clm_groups clm"
  "clm_arbitration_timer (clm_iefb_set_master_state st clm) = clm_arbitration_timer clm"
  "clm_state (clm_iefb_set_master_state st clm) = st"
  "only_group gi clm (clm_iefb_set_master_state st clm)"
  by (simp_all add: clm_iefb_set_master_state_def only_group_def memit_if_def)

lemma error_callback_simps [simp]:
  "clm_config (clm_iefb_trigger_error_callback now m ip a clm) = clm_config clm"
  "clm_groups (clm_iefb_trigger_error_callback now m ip a clm) = clm_groups clm"
  "clm_arbitration_timer (clm_iefb_trigger_error_callback now m ip a clm) = clm_arbitration_timer clm"
  "only_group gi clm (clm_iefb_trigger_error_callback now m ip a clm)"
  by (simp_all add: clm_iefb_trigger_error_callback_def only_group_def memit_if_def Let_def split: prod.splits)

lemma on_group_quiet:
  assumes "device_tables clm0" and gi: "gi < length (clm_groups clm)" and cfg: "clm_config clm0 = clm_config clm"
    and g: "clm_groups clm ! gi = g" and ready: "group_ready (clm_config clm) gi g" and ev: "ev \<in> quiet_events"
    and gs: "gs = hi_groups (mc_hier (clm_config clm)) ! gi"
  shows "on_group gi (clm_iefb_device_fsm_event_all_in_group clm0 ev) clm =
    Returns (set_group gi (map_devices (gs_num_slave_devices gs) (after_event gs ev) g) clm)"
proof -
  have s: "group_setting clm0 g = gs" using ready gs cfg by (simp add: group_setting_def group_ready_def Let_def)
  have "\<forall>di < gs_num_slave_devices gs. dd_device_state (gd_slave_devices g ! di) \<in> live_states"
    using ready gs by (simp add: group_ready_def device_inv_def Let_def)
  from quiet_all [OF assms(1) s ev group_ready_length [OF ready gs] this]
  have "clm_iefb_device_fsm_event_all_in_group clm0 ev (clm_groups clm ! gi, clm_out clm) =
      Returns (map_devices (gs_num_slave_devices gs) (after_event gs ev) g, clm_out clm)" using g by simp
  then show ?thesis by (simp add: on_group_def set_group_def)
qed

lemma devices_after_event:
  assumes "group_ready cfg gi g" "gs = hi_groups (mc_hier cfg) ! gi"
    and "\<And>d. dd_device_state d \<in> S \<Longrightarrow> dd_device_state (after_event gs ev d) \<in> T" "devices_in S gs g"
  shows "devices_in T gs (map_devices (gs_num_slave_devices gs) (after_event gs ev) g)"
  using assms map_devices_nth(2) [OF group_ready_length [OF assms(1,2)]] by (simp add: devices_in_def)

lemma ready_devices: "group_ready cfg gi g \<Longrightarrow> devices_in live_states (hi_groups (mc_hier cfg) ! gi) g"
  by (simp add: group_ready_def devices_in_def device_inv_def Let_def)

lemma u16_wraps: "q + 1 = 0 \<Longrightarrow> q = (0xFFFF :: u16)"
  by (simp add: eq_neg_iff_add_eq_0 [symmetric])

lemma next_sequence_no: "clm_iefb_update_frame_sequence_no q \<noteq> 0"
  using u16_wraps [of q] by (auto simp: clm_iefb_update_frame_sequence_no_def)

text \<open>Everything that a group event relies on.\<close>

definition at_group :: "clm_group_data \<Rightarrow> nat \<Rightarrow> clm \<Rightarrow> bool" where
  "at_group g gi clm \<longleftrightarrow> master_ok clm \<and> gi < hi_number_of_groups (mc_hier (clm_config clm)) \<and> clm_groups clm ! gi = g \<and>
     group_ready (clm_config clm) gi g"

lemma at_groupD:
  assumes "at_group g gi clm"
  shows "device_tables clm" "group_tables clm" "gi < length (clm_groups clm)" "clm_groups clm ! gi = g"
    "group_ready (clm_config clm) gi g" "group_fits (hi_groups (mc_hier (clm_config clm)) ! gi)"
    "master_ok clm" "gi < hi_number_of_groups (mc_hier (clm_config clm))"
  using assms good_config_group(1) [of "clm_config clm" gi] by (simp_all add: at_group_def master_ok_def)

lemma round_to_listen:
  assumes at: "at_group g gi clm" and find: "group_find (gd_group_state g) ev = Some (CLM_GROUP_STATE_MASTER_LISTEN, act)"
    and act: "act \<in> {None, Some On_Arbitration_Failed}" and st: "gd_group_state g \<noteq> CLM_GROUP_STATE_MASTER_LISTEN"
  shows "\<exists>clm' g'. group_round now clock gi ev clm = Returns (CLM_GROUP_EVENT_NONE, clm') \<and> only_group gi clm clm' \<and>
    clm_groups clm' ! gi = g' \<and> group_inv (clm_config clm) gi g' \<and> gd_group_state g' = CLM_GROUP_STATE_MASTER_LISTEN \<and>
    clm_state clm' = CLM_MASTER_STATE_STANDBY \<and> gd_memory_area g' = gd_memory_area g"
proof -
  note d = at_groupD [OF at]
  define gs where "gs = hi_groups (mc_hier (clm_config clm)) ! gi"
  define h where "h = g\<lparr>gd_group_state := CLM_GROUP_STATE_MASTER_LISTEN\<rparr>"
  have h: "group_ready (clm_config clm) gi h" using d(5) by (simp add: h_def group_ready_fields)
  define g' where "g' = map_devices (gs_num_slave_devices gs) (after_event gs CLM_DEVICE_EVENT_GROUP_STANDBY) h"
  have q: "CLM_DEVICE_EVENT_GROUP_STANDBY \<in> quiet_events" by (simp add: quiet_events_def)
  define c where "c = (case act of Some a \<Rightarrow> clm_iefb_on_arbitration_failed now (set_group gi h clm) | None \<Rightarrow> set_group gi h clm)"
  have c: "clm_config c = clm_config clm" "clm_groups c = (clm_groups clm)[gi := h]" "only_group gi clm c"
    using only_group_trans [OF only_group_set [of gi clm h] error_callback_simps(4)] act
    by (auto simp: c_def clm_iefb_on_arbitration_failed_def)
  define c' where "c' = c\<lparr>clm_arbitration_timer := cl_timer_stop (clm_arbitration_timer c)\<rparr>"
  have c': "clm_config c' = clm_config clm" "clm_groups c' ! gi = h" "gi < length (clm_groups c')" "only_group gi clm c'"
    using c d(3) by (simp_all add: c'_def only_group_def)
  have t: "device_tables c'" using only_group_ok [OF c'(4) d(7)] by (simp add: master_ok_def)
  have entry: "clm_iefb_group_on_entry_listen gi c = Returns (clm_iefb_set_master_state CLM_MASTER_STATE_STANDBY (set_group gi g' c'))"
    using on_group_quiet [OF t c'(3) refl c'(2) _ q] h
    unfolding clm_iefb_group_on_entry_listen_def c'_def [symmetric] Let_def by (simp add: c'(1) gs_def g'_def)
  have "group_round now clock gi ev clm = Returns (CLM_GROUP_EVENT_NONE, clm_iefb_set_master_state CLM_MASTER_STATE_STANDBY (set_group gi g' c'))"
    using group_round_action [OF d(2), of gi ev] find st act entry d(4)
    by (auto simp: group_entry no_group_event_def c_def h_def)
  moreover have "only_group gi clm (clm_iefb_set_master_state CLM_MASTER_STATE_STANDBY (set_group gi g' c'))"
    using only_group_trans [OF c'(4) only_group_trans [OF only_group_set set_master_state_simps(5)]] .
  moreover have "devices_in {CLM_DEVICE_STATE_LISTEN} gs g'" unfolding g'_def
    by (rule devices_after_event [OF h gs_def _ ready_devices [OF h, folded gs_def]]) (simp add: after_event_states)
  moreover have "group_ready (clm_config clm) gi g'" unfolding g'_def
    by (rule group_ready_quiet [OF h q gs_def group_ready_length [OF h gs_def]])
  ultimately show ?thesis using c'(3)
    by (auto simp: group_inv_def Let_def gs_def g'_def h_def)
qed

lemma round_arbitration_done:
  assumes at: "at_group g gi clm" and st: "gd_group_state g = CLM_GROUP_STATE_MASTER_ARBITRATION"
  shows "\<exists>clm'. group_round now clock gi CLM_GROUP_EVENT_ARBITRATION_DONE clm = Returns (CLM_GROUP_EVENT_LINKSCAN_START, clm') \<and>
    only_group gi clm clm' \<and> clm_groups clm' ! gi = g\<lparr>gd_group_state := CLM_GROUP_STATE_MASTER_LINK_SCAN_COMP\<rparr>"
proof -
  note d = at_groupD [OF at]
  let ?c = "set_group gi (g\<lparr>gd_group_state := CLM_GROUP_STATE_MASTER_LINK_SCAN_COMP\<rparr>) clm"
  have "group_round now clock gi CLM_GROUP_EVENT_ARBITRATION_DONE clm =
      Returns (CLM_GROUP_EVENT_LINKSCAN_START, clm_iefb_set_master_state CLM_MASTER_STATE_RUNNING ?c)"
    using group_round_action [OF d(2), of gi CLM_GROUP_EVENT_ARBITRATION_DONE] st d(4)
    by (simp add: group_find_live group_entry clm_iefb_on_arbitration_done_def clm_iefb_group_on_entry_scan_complete_def)
  moreover have "only_group gi clm (clm_iefb_set_master_state CLM_MASTER_STATE_RUNNING ?c)"
    using only_group_trans [OF only_group_set set_master_state_simps(5)] .
  ultimately show ?thesis using d(3) by simp
qed

lemma scan_started_inv:
  assumes "scan_pending cfg gi g" "scan_started cfg gi now ck u (g\<lparr>gd_group_state := CLM_GROUP_STATE_MASTER_LINK_SCAN\<rparr>) g'"
  shows "group_inv cfg gi g'"
proof -
  let ?gs = "hi_groups (mc_hier cfg) ! gi"
  have "devices_in (live_states - {CLM_DEVICE_STATE_CYCLIC_SENDING}) ?gs g'" if q: "gd_frame_sequence_no g' = 0"
  proof -
    have "devices_in {CLM_DEVICE_STATE_LISTEN} ?gs g" using assms q by (simp add: scan_pending_def scan_started_def Let_def)
    then show ?thesis using assms(2) by (simp add: devices_in_def scan_started_def scanned_def scan_state_def live_states_def Let_def)
  qed
  moreover have "gd_constant_linkscan_timer g' = gd_response_wait_timer g'" if "gs_use_constant_link_scan_time ?gs"
    using assms(2) that by (simp add: scan_started_def Let_def cl_timer_start_def)
  ultimately show ?thesis using assms
    by (simp add: group_inv_def scan_started_def Let_def timer_runs_def cl_timer_start_def)
qed

lemma round_scan_start:
  assumes at: "at_group g gi clm" and p: "scan_pending (clm_config clm) gi g"
  shows "\<exists>g' outs. group_round now clock gi CLM_GROUP_EVENT_LINKSCAN_START clm = Returns (CLM_GROUP_EVENT_NONE,
      (set_group gi g' clm)\<lparr>clm_out := clm_out clm @ outs @ [Request_Sent (clm_iefb_broadcast_ip clm) (request_payload g')]\<rparr>) \<and>
    list_all is_scan_output outs \<and> scan_started (clm_config clm) gi now (clock (length (clm_out clm)))
      (clm_master_local_unit_info clm) (g\<lparr>gd_group_state := CLM_GROUP_STATE_MASTER_LINK_SCAN\<rparr>) g'"
proof -
  note d = at_groupD [OF at]
  let ?h = "g\<lparr>gd_group_state := CLM_GROUP_STATE_MASTER_LINK_SCAN\<rparr>"
  let ?c = "set_group gi ?h clm"
  have t: "device_tables ?c" using d(1) by (simp add: device_tables_def)
  have h: "group_ready (clm_config ?c) gi ?h" using d(5) by (simp add: group_ready_fields)
  have s: "devices_in {CLM_DEVICE_STATE_LISTEN, CLM_DEVICE_STATE_CYCLIC_SENT} (hi_groups (mc_hier (clm_config ?c)) ! gi) ?h"
    using p by (simp add: scan_pending_def devices_in_def Let_def)
  have st: "gd_group_state g = CLM_GROUP_STATE_MASTER_LINK_SCAN_COMP" using p by (simp add: scan_pending_def Let_def)
  have hg: "clm_groups ?c ! gi = ?h" using d(3) by simp
  from linkscan_start_ok [OF t refl refl _ _ hg h s, of now clock] d(3,6) obtain g' outs where
    r: "clm_iefb_on_linkscan_start now clock gi ?c = Returns ((set_group gi g' ?c)\<lparr>clm_out := clm_out ?c @ outs @
      [Request_Sent (clm_iefb_broadcast_ip ?c) (request_payload g')]\<rparr>)" "list_all is_scan_output outs"
      "scan_started (clm_config ?c) gi now (clock (length (clm_out ?c))) (clm_master_local_unit_info ?c) ?h g'" by auto
  then show ?thesis
    using group_round_action [OF d(2), of gi CLM_GROUP_EVENT_LINKSCAN_START] st d(4)
    by (intro exI [of _ g'] exI [of _ outs]) (simp add: group_find_live group_entry no_group_event_def)
qed

text \<open>The group after a scan that all devices have answered, or that has timed out.\<close>

definition scan_ended :: "clm_group_setting \<Rightarrow> clm_device_event \<Rightarrow> clm_group_data \<Rightarrow> clm_group_data" where
  "scan_ended gs ev g = (map_devices (gs_num_slave_devices gs) (after_event gs ev)
     (g\<lparr>gd_group_state := CLM_GROUP_STATE_MASTER_LINK_SCAN_COMP\<rparr>))
       \<lparr>gd_frame_sequence_no := clm_iefb_update_frame_sequence_no (gd_frame_sequence_no g)\<rparr>"

lemma scan_ended_simps [simp]:
  "gd_group_state (scan_ended gs ev g) = CLM_GROUP_STATE_MASTER_LINK_SCAN_COMP"
  "gd_frame_sequence_no (scan_ended gs ev g) = clm_iefb_update_frame_sequence_no (gd_frame_sequence_no g)"
  "gd_memory_area (scan_ended gs ev g) = gd_memory_area g"
  "gd_response_wait_timer (scan_ended gs ev g) = gd_response_wait_timer g"
  "gd_constant_linkscan_timer (scan_ended gs ev g) = gd_constant_linkscan_timer g"
  by (simp_all add: scan_ended_def)

lemma scan_ended_pending:
  assumes "group_ready cfg gi g" "gs = hi_groups (mc_hier cfg) ! gi"
    and "ev = CLM_DEVICE_EVENT_GROUP_TIMEOUT \<or>
      ev = CLM_DEVICE_EVENT_GROUP_ALL_RESPONDED \<and> devices_in (live_states - {CLM_DEVICE_STATE_CYCLIC_SENDING}) gs g"
  shows "scan_pending cfg gi (scan_ended gs ev g)"
proof -
  define h where "h = g\<lparr>gd_group_state := CLM_GROUP_STATE_MASTER_LINK_SCAN_COMP\<rparr>"
  have h: "group_ready cfg gi h" using assms(1) by (simp add: h_def group_ready_fields)
  have q: "ev \<in> quiet_events" using assms(3) by (auto simp: quiet_events_def)
  have "devices_in {CLM_DEVICE_STATE_LISTEN, CLM_DEVICE_STATE_CYCLIC_SENT} gs (map_devices (gs_num_slave_devices gs) (after_event gs ev) h)"
    using assms(3)
  proof
    assume e: "ev = CLM_DEVICE_EVENT_GROUP_TIMEOUT"
    show ?thesis unfolding e
      by (rule devices_after_event [OF h assms(2) _ ready_devices [OF h, folded assms(2)]]) (rule after_event_states(2))
  next
    assume e: "ev = CLM_DEVICE_EVENT_GROUP_ALL_RESPONDED \<and> devices_in (live_states - {CLM_DEVICE_STATE_CYCLIC_SENDING}) gs g"
    then have "devices_in (live_states - {CLM_DEVICE_STATE_CYCLIC_SENDING}) gs h" by (simp add: h_def devices_in_def)
    from devices_after_event [OF h assms(2) _ this] show ?thesis using e after_event_states(3) by simp
  qed
  moreover have "group_ready cfg gi (map_devices (gs_num_slave_devices gs) (after_event gs ev) h)"
    by (rule group_ready_quiet [OF h q assms(2) group_ready_length [OF h assms(2)]])
  ultimately show ?thesis
    using next_sequence_no unfolding scan_pending_def Let_def assms(2) [symmetric] scan_ended_def h_def [symmetric]
    by (simp add: group_ready_fields devices_in_def) (simp add: h_def)
qed

lemma round_scan_timeout:
  assumes at: "at_group g gi clm" and st: "gd_group_state g = CLM_GROUP_STATE_MASTER_LINK_SCAN"
    and gs: "gs = hi_groups (mc_hier (clm_config clm)) ! gi"
  shows "\<exists>clm'. group_round now clock gi CLM_GROUP_EVENT_LINKSCAN_TIMEOUT clm = Returns (CLM_GROUP_EVENT_LINKSCAN_START, clm') \<and>
    only_group gi clm clm' \<and> clm_groups clm' ! gi = scan_ended gs CLM_DEVICE_EVENT_GROUP_TIMEOUT g"
proof -
  note d = at_groupD [OF at]
  define h where "h = g\<lparr>gd_group_state := CLM_GROUP_STATE_MASTER_LINK_SCAN_COMP\<rparr>"
  let ?c = "set_group gi h clm"
  have q: "CLM_DEVICE_EVENT_GROUP_TIMEOUT \<in> quiet_events" by (simp add: quiet_events_def)
  have t: "device_tables ?c" using d(1) by (simp add: device_tables_def)
  have h: "group_ready (clm_config ?c) gi h" using d(5) by (simp add: h_def group_ready_fields)
  have hg: "clm_groups ?c ! gi = h" "gi < length (clm_groups ?c)" using d(3) by simp_all
  have gs': "gs = hi_groups (mc_hier (clm_config ?c)) ! gi" using gs by simp
  note run = on_group_quiet [OF t hg(2) refl hg(1) h q gs']
  define c1 where "c1 = clm_iefb_trigger_linkscan_callback gi False
    (set_group gi (map_devices (gs_num_slave_devices gs) (after_event gs CLM_DEVICE_EVENT_GROUP_TIMEOUT) h) ?c)"
  have c1: "only_group gi clm c1" "clm_groups c1 ! gi = map_devices (gs_num_slave_devices gs) (after_event gs CLM_DEVICE_EVENT_GROUP_TIMEOUT) h"
    "gi < length (clm_groups c1)"
    using only_group_trans [OF only_group_set memit_if_simps(4)] d(3)
    by (simp_all add: c1_def clm_iefb_trigger_linkscan_callback_def)
  have "group_round now clock gi CLM_GROUP_EVENT_LINKSCAN_TIMEOUT clm = Returns (CLM_GROUP_EVENT_LINKSCAN_START,
      clm_iefb_set_master_state CLM_MASTER_STATE_RUNNING (advance_sequence_no gi c1))"
    using group_round_action [OF d(2), of gi CLM_GROUP_EVENT_LINKSCAN_TIMEOUT] st d(4) run
    by (simp add: group_find_live group_entry clm_iefb_on_linkscan_timeout_def clm_iefb_group_on_entry_scan_complete_def
        h_def c1_def)
  moreover have "only_group gi clm (clm_iefb_set_master_state CLM_MASTER_STATE_RUNNING (advance_sequence_no gi c1))"
    using only_group_trans [OF c1(1) only_group_trans [OF only_group_set set_master_state_simps(5)]]
    by (simp add: advance_sequence_no_def Let_def)
  ultimately show ?thesis using c1
    by (simp add: advance_sequence_no_def Let_def scan_ended_def h_def [symmetric]) (simp add: h_def)
qed

lemma round_complete:
  assumes at: "at_group g gi clm" and st: "gd_group_state g = CLM_GROUP_STATE_MASTER_LINK_SCAN"
    and gs: "gs = hi_groups (mc_hier (clm_config clm)) ! gi"
  shows "\<exists>clm'. group_round now clock gi CLM_GROUP_EVENT_LINKSCAN_COMPLETE clm =
      Returns (if gs_use_constant_link_scan_time gs then CLM_GROUP_EVENT_NONE else CLM_GROUP_EVENT_LINKSCAN_START, clm') \<and>
    only_group gi clm clm' \<and> clm_groups clm' ! gi = scan_ended gs CLM_DEVICE_EVENT_GROUP_ALL_RESPONDED
      (g\<lparr>gd_response_wait_timer := cl_timer_stop (gd_response_wait_timer g)\<rparr>)"
proof -
  note d = at_groupD [OF at]
  define h0 where "h0 = g\<lparr>gd_group_state := CLM_GROUP_STATE_MASTER_LINK_SCAN_COMP\<rparr>"
  define h where "h = h0\<lparr>gd_response_wait_timer := cl_timer_stop (gd_response_wait_timer h0)\<rparr>"
  let ?c = "set_group gi h clm"
  have q: "CLM_DEVICE_EVENT_GROUP_ALL_RESPONDED \<in> quiet_events" by (simp add: quiet_events_def)
  have t: "device_tables ?c" using d(1) by (simp add: device_tables_def)
  have h: "group_ready (clm_config ?c) gi h" using d(5) by (simp add: h_def h0_def group_ready_fields)
  have hg: "clm_groups ?c ! gi = h" "gi < length (clm_groups ?c)" using d(3) by simp_all
  have gs': "gs = hi_groups (mc_hier (clm_config ?c)) ! gi" using gs by simp
  note run = on_group_quiet [OF t hg(2) refl hg(1) h q gs']
  define c1 where "c1 = clm_iefb_trigger_linkscan_callback gi True
    (set_group gi (map_devices (gs_num_slave_devices gs) (after_event gs CLM_DEVICE_EVENT_GROUP_ALL_RESPONDED) h) ?c)"
  have c1: "only_group gi clm c1" "clm_groups c1 ! gi = map_devices (gs_num_slave_devices gs) (after_event gs CLM_DEVICE_EVENT_GROUP_ALL_RESPONDED) h"
    "gi < length (clm_groups c1)"
    using only_group_trans [OF only_group_set memit_if_simps(4)] d(3)
    by (simp_all add: c1_def clm_iefb_trigger_linkscan_callback_def)
  have idx: "gd_group_index g = gi" using d(5) by (simp add: group_ready_def Let_def)
  have "group_round now clock gi CLM_GROUP_EVENT_LINKSCAN_COMPLETE clm =
      Returns (if gs_use_constant_link_scan_time gs then CLM_GROUP_EVENT_NONE else CLM_GROUP_EVENT_LINKSCAN_START,
      clm_iefb_set_master_state CLM_MASTER_STATE_RUNNING (advance_sequence_no gi c1))"
    using group_round_action [OF d(2), of gi CLM_GROUP_EVENT_LINKSCAN_COMPLETE] st d(3,4) run idx
    by (simp add: group_find_live group_entry clm_iefb_on_linkscan_complete_def clm_iefb_group_on_entry_scan_complete_def
        h_def h0_def c1_def Let_def group_setting_def gs)
  moreover have "only_group gi clm (clm_iefb_set_master_state CLM_MASTER_STATE_RUNNING (advance_sequence_no gi c1))"
    using only_group_trans [OF c1(1) only_group_trans [OF only_group_set set_master_state_simps(5)]]
    by (simp add: advance_sequence_no_def Let_def)
  moreover have "(g\<lparr>gd_response_wait_timer := cl_timer_stop (gd_response_wait_timer g)\<rparr>)
      \<lparr>gd_group_state := CLM_GROUP_STATE_MASTER_LINK_SCAN_COMP\<rparr> = h" by (simp add: h_def h0_def)
  moreover have "gd_frame_sequence_no h = gd_frame_sequence_no g" by (simp add: h_def h0_def)
  ultimately show ?thesis using c1
    by (simp add: advance_sequence_no_def Let_def scan_ended_def)
qed

section \<open>Setting up a group\<close>

lemma fold_concat_map: "fold (\<lambda>i. fold w (f i)) xs s = fold w (concat (map f xs)) s"
  by (induction xs arbitrary: s) simp_all

lemma write_ids:
  assumes "first + 4 * (pos + length vs) \<le> length buf"
    and "fold (\<lambda>v (pos, buf). (pos + 1, put_bytes buf (first + pos * sizeof_ipaddr) (le32_bytes v))) vs (pos, buf) = (pos', buf')"
  shows "length buf' = length buf \<and> take (first + 4 * pos) buf' = take (first + 4 * pos) buf \<and>
    (\<forall>j < length vs. le32_at buf' (first + 4 * (pos + j)) = vs ! j)"
  using assms
proof (induction vs arbitrary: pos buf)
  case (Cons v vs)
  let ?i = "first + 4 * pos"
  define b where "b = put_bytes buf ?i (le32_bytes v)"
  have lb: "?i + 4 \<le> length buf" using Cons.prems(1) by simp
  then have len: "length b = length buf" by (simp add: b_def)
  have "first + 4 * (pos + 1 + length vs) \<le> length b" using Cons.prems(1) len by simp
  from Cons.IH [OF this] Cons.prems(2) have ih: "length buf' = length b"
    "take (?i + 4) buf' = take (?i + 4) b" "\<forall>j < length vs. le32_at buf' (first + 4 * (pos + 1 + j)) = vs ! j"
    by (simp_all add: b_def sizeof_ipaddr_def mult.commute add.commute add.left_commute)
  have "slice buf' ?i 4 = slice b ?i 4"
    using ih(2) unfolding slice_def by (metis add.commute take_drop)
  then have v: "le32_at buf' ?i = v" using le32_at_put_same [OF lb] lb len ih(1)
    by (simp add: le32_at_slice b_def)
  have "take ?i buf' = take ?i b" using ih(2) by (metis le_add1 min.absorb1 take_take)
  then have "take ?i buf' = take ?i buf" using lb by (simp add: b_def take_put_bytes_before)
  moreover have "le32_at buf' (first + 4 * (pos + j)) = (v # vs) ! j" if "j < Suc (length vs)" for j
    using v ih(3) that by (cases j) (simp_all add: add.assoc)
  ultimately show ?case using ih(1) len by simp
qed simp

lemma device_slave_ids_nth:
  "length (device_slave_ids d) = sd_num_occupied_stations d"
  "j < sd_num_occupied_stations d \<Longrightarrow> device_slave_ids d ! j = (if j = 0 then sd_slave_id d else CL_CCIEFB_MULTISTATION_INDICATOR)"
  by (simp_all add: device_slave_ids_def)

lemma all_slave_ids:
  assumes "group_fits gs"
  defines "ids \<equiv> concat (map (\<lambda>i. device_slave_ids (gs_slave_devices gs ! i)) [0..<gs_num_slave_devices gs])"
  shows "length ids = stations_of gs"
    "di < gs_num_slave_devices gs \<Longrightarrow> j < device_occ gs di \<Longrightarrow>
      ids ! (station_no gs di - 1 + j) = device_slave_ids (gs_slave_devices gs ! di) ! j"
proof -
  have "map (\<lambda>i. device_slave_ids (gs_slave_devices gs ! i)) [0..<gs_num_slave_devices gs] = map device_slave_ids (devices_of gs)"
    using assms(1) by (auto simp: devices_of_def group_fits_def intro!: nth_equalityI)
  then have ids: "ids = concat (map device_slave_ids (devices_of gs))" by (simp add: ids_def)
  show "length ids = stations_of gs"
    unfolding ids stations_of_def by (induction "devices_of gs") (simp_all add: length_concat device_slave_ids_nth(1) comp_def)
  assume di: "di < gs_num_slave_devices gs" and j: "j < device_occ gs di"
  let ?ds = "devices_of gs"
  have l: "di < length ?ds" "?ds ! di = gs_slave_devices gs ! di" "take di ?ds = take di (gs_slave_devices gs)"
    using di assms(1) by (simp_all add: devices_of_def group_fits_def min_def)
  have "ids = concat (map device_slave_ids (take di ?ds)) @ device_slave_ids (?ds ! di) @ concat (map device_slave_ids (drop (Suc di) ?ds))"
    unfolding ids using id_take_nth_drop [OF l(1)] by (metis concat.simps(2) concat_append list.simps(9) map_append)
  moreover have "length (concat (map device_slave_ids (take di ?ds))) = station_no gs di - 1"
    by (simp add: station_no_def length_concat comp_def device_slave_ids_nth(1) l(3))
  ultimately show "ids ! (station_no gs di - 1 + j) = device_slave_ids (gs_slave_devices gs ! di) ! j"
    using j l(2) by (simp add: nth_append device_slave_ids_nth(1) device_occ_def)
qed

lemma initialise_slave_ids_ok:
  assumes fits: "group_fits gs" and f: "frame_ok (stations_of gs) f"
    and f': "f' = f\<lparr>mq_buffer := clm_iefb_initialise_request_slave_ids gs (mq_first_slave_id f) (mq_buffer f)\<rparr>"
  shows "frame_ok (stations_of gs) f'" "ids_ok gs f'" "row_headers f' = row_headers f"
    "\<forall>di < gs_num_slave_devices gs. row_id f' (station_no gs di - 1) = sd_slave_id (gs_slave_devices gs ! di)"
proof -
  let ?w = "\<lambda>v (pos, buf). (pos + 1, put_bytes buf (67 + pos * sizeof_ipaddr) (le32_bytes v))"
  define ids where "ids = concat (map (\<lambda>i. device_slave_ids (gs_slave_devices gs ! i)) [0..<gs_num_slave_devices gs])"
  note a = all_slave_ids [OF fits, folded ids_def] and d = frame_okD [OF f]
  obtain p b where b: "fold ?w ids (0, mq_buffer f) = (p, b)" by fastforce
  have le: "67 + 4 * (0 + length ids) \<le> length (mq_buffer f)" using d a(1) by simp
  note w = write_ids [OF le b]
  have buf: "mq_buffer f' = b" using b
    by (simp add: f' clm_iefb_initialise_request_slave_ids_def d(1) fold_concat_map ids_def)
  show ok: "frame_ok (stations_of gs) f'" using f w buf by (simp add: frame_ok_def request_frame_wf_def f')
  show "row_headers f' = row_headers f" using w buf by (simp add: row_headers_def)
  have row: "row_id f' k = ids ! k" if "k < stations_of gs" for k
    using w that a(1) buf frame_okD(1) [OF ok] by (simp add: row_id_def)
  have entry: "row_id f' (station_no gs di - 1 + j) = device_slave_ids (gs_slave_devices gs ! di) ! j"
    if "di < gs_num_slave_devices gs" "j < device_occ gs di" for di j
    using a(2) [OF that] row station_no_range [OF fits that(1)] that(2) by (simp add: device_occ_def)
  show ids0: "\<forall>di < gs_num_slave_devices gs. row_id f' (station_no gs di - 1) = sd_slave_id (gs_slave_devices gs ! di)"
    using entry [of _ 0] station_no_range(2) [OF fits] device_slave_ids_nth(2) [of 0] by (simp add: device_occ_def Suc_le_eq)
  show "ids_ok gs f'"
    using ids0 entry device_slave_ids_nth(2) unfolding ids_ok_def by (simp add: device_occ_def)
qed

text \<open>Updating the first \<open>n\<close> devices, each with a function of its index.\<close>

definition devices_updated :: "nat \<Rightarrow> (nat \<Rightarrow> clm_slave_device_data \<Rightarrow> clm_slave_device_data) \<Rightarrow> clm_group_data \<Rightarrow> clm_group_data \<Rightarrow> bool" where
  "devices_updated n f g g' \<longleftrightarrow> g' = g\<lparr>gd_slave_devices := gd_slave_devices g'\<rparr> \<and>
     length (gd_slave_devices g') = length (gd_slave_devices g) \<and>
     (\<forall>di < length (gd_slave_devices g). gd_slave_devices g' ! di =
        (if di < n then f di (gd_slave_devices g ! di) else gd_slave_devices g ! di))"

lemma devices_updated_0 [simp]: "devices_updated 0 f g g" by (simp add: devices_updated_def)

lemma devices_updated_fields:
  assumes "devices_updated n f g g'"
  shows "gd_group_index g' = gd_group_index g" "gd_total_occupied g' = gd_total_occupied g"
    "gd_frame_sequence_no g' = gd_frame_sequence_no g" "gd_memory_area g' = gd_memory_area g"
    "gd_group_state g' = gd_group_state g"
proof -
  obtain xs where "g' = g\<lparr>gd_slave_devices := xs\<rparr>" using assms by (auto simp: devices_updated_def)
  then show "gd_group_index g' = gd_group_index g" "gd_total_occupied g' = gd_total_occupied g"
    "gd_frame_sequence_no g' = gd_frame_sequence_no g" "gd_memory_area g' = gd_memory_area g"
    "gd_group_state g' = gd_group_state g" by simp_all
qed

lemma devices_updated_Suc:
  assumes u: "devices_updated i f g g'" and i: "i < length (gd_slave_devices g)"
  shows "devices_updated (Suc i) f g (upd_device i (f i) g')"
  unfolding devices_updated_def
proof (intro conjI allI impI)
  have l: "length (gd_slave_devices g') = length (gd_slave_devices g)" and "gd_slave_devices g' ! i = gd_slave_devices g ! i"
    and e: "g' = g\<lparr>gd_slave_devices := gd_slave_devices g'\<rparr>" using u i by (simp_all add: devices_updated_def)
  show "length (gd_slave_devices (upd_device i (f i) g')) = length (gd_slave_devices g)" using l by simp
  have "upd_device i (f i) (g\<lparr>gd_slave_devices := xs\<rparr>) = g\<lparr>gd_slave_devices := gd_slave_devices (upd_device i (f i) (g\<lparr>gd_slave_devices := xs\<rparr>))\<rparr>" for xs
    by (simp add: upd_device_def)
  then show "upd_device i (f i) g' = g\<lparr>gd_slave_devices := gd_slave_devices (upd_device i (f i) g')\<rparr>" using e by metis
  fix di assume "di < length (gd_slave_devices g)"
  then show "gd_slave_devices (upd_device i (f i) g') ! di =
      (if di < Suc i then f di (gd_slave_devices g ! di) else gd_slave_devices g ! di)"
    using u i l by (auto simp: devices_updated_def nth_list_update less_Suc_eq)
qed

lemma fold_upd_device:
  "n \<le> length (gd_slave_devices g) \<Longrightarrow> devices_updated n f g (fold (\<lambda>i. upd_device i (f i)) [0..<n] g)"
  by (induction n) (simp_all add: devices_updated_Suc)

definition group_fresh :: "clm_cfg \<Rightarrow> nat \<Rightarrow> clm_group_data \<Rightarrow> bool" where
  "group_fresh cfg gi g \<longleftrightarrow>
     (let gs = hi_groups (mc_hier cfg) ! gi in
      gd_group_index g = gi \<and> gs_num_slave_devices gs \<le> length (gd_slave_devices g) \<and> memory_ok gs (gd_memory_area g) \<and>
      (\<forall>di < gs_num_slave_devices gs. dd_device_index (gd_slave_devices g ! di) = di \<and>
         dd_device_state (gd_slave_devices g ! di) = CLM_DEVICE_STATE_LISTEN \<and> \<not> dd_transmission_bit (gd_slave_devices g ! di)))"

lemma reflect_devices:
  assumes "group_fits gs" "gs_num_slave_devices gs \<le> length (gd_slave_devices g)"
  shows "\<exists>g'. for_each (reflect_device gs) [0..<gs_num_slave_devices gs] g = Returns g' \<and>
    devices_updated (gs_num_slave_devices gs) (\<lambda>di d. d\<lparr>dd_timeout_count := 0, dd_slave_station_no := station_no gs di\<rparr>) g g'"
  by (rule for_each_upt [where P = "\<lambda>i. devices_updated i _ g"])
    (use assms in \<open>auto simp: reflect_device_def calc_slave_station_no intro!: devices_updated_Suc\<close>)

lemma headers_own: "\<exists>sqn ck u tr. h = updated_request_headers h sqn ck u tr"
  by (rule exI [of _ "qdh_frame_sequence_no (qf_cyclic_data_header h)"],
      rule exI [of _ "mn_clock_info (qf_master_station_notification h)"],
      rule exI [of _ "mn_master_local_unit_info (qf_master_station_notification h)"],
      rule exI [of _ "qdh_cyclic_transmission_state (qf_cyclic_data_header h)"]) (simp add: updated_request_headers_def)

lemma reflect_ok:
  assumes cfg: "clm_config clm = cfg" and fits: "group_fits gs" and gs: "gs = hi_groups (mc_hier cfg) ! gi" and fresh: "group_fresh cfg gi g"
  shows "\<exists>g'. clm_iefb_reflect_group_parameters clm g = Returns g' \<and> group_ready cfg gi g' \<and> gd_frame_sequence_no g' = 0 \<and>
    devices_in {CLM_DEVICE_STATE_LISTEN} gs g' \<and> gd_group_state g' = gd_group_state g"
proof -
  let ?n = "gs_num_slave_devices gs"
  have fr: "gd_group_index g = gi" "?n \<le> length (gd_slave_devices g)" "memory_ok gs (gd_memory_area g)"
    "\<forall>di < ?n. dd_device_index (gd_slave_devices g ! di) = di \<and>
      dd_device_state (gd_slave_devices g ! di) = CLM_DEVICE_STATE_LISTEN \<and> \<not> dd_transmission_bit (gd_slave_devices g ! di)"
    using fresh gs by (simp_all add: group_fresh_def Let_def)
  define h where "h = g\<lparr>gd_total_occupied := stations_of gs, gd_frame_sequence_no := 0, gd_cyclic_transmission_state := 0\<rparr>"
  from reflect_devices [OF fits, of h] fr(2) obtain h' where
    r: "for_each (reflect_device gs) [0..<?n] h = Returns h'"
      "devices_updated ?n (\<lambda>di d. d\<lparr>dd_timeout_count := 0, dd_slave_station_no := station_no gs di\<rparr>) h h'" by (auto simp: h_def)
  have h': "gd_group_index h' = gi" "gd_total_occupied h' = stations_of gs" "gd_frame_sequence_no h' = 0"
    "gd_memory_area h' = gd_memory_area g" "gd_group_state h' = gd_group_state g"
    using devices_updated_fields [OF r(2)] fr(1) by (simp_all add: h_def)
  have dev: "device_placed gs h' di" "dd_device_state (gd_slave_devices h' ! di) = CLM_DEVICE_STATE_LISTEN"
    "\<not> dd_transmission_bit (gd_slave_devices h' ! di)" if "di < ?n" for di
    using r(2) fr(2,4) that by (simp_all add: devices_updated_def h_def device_placed_def)
  have n16: "stations_of gs \<le> 16" using fits by (simp add: group_fits_def)
  then have "67 + 76 * stations_of gs \<le> CL_BUFFER_LEN" by (simp add: CL_BUFFER_LEN_def)
  from initialise_request_frame_ok [OF this, of "mc_protocol_ver cfg" "gs_timeout_value gs" "gs_parallel_off_timeout_count gs"
      "mc_master_id cfg" "of_nat gi + 1" "clm_parameter_no clm"] obtain f where
    f: "cl_iefb_initialise_request_frame CL_BUFFER_LEN (mc_protocol_ver cfg) (gs_timeout_value gs) (gs_parallel_off_timeout_count gs)
        (mc_master_id cfg) (of_nat gi + 1) (stations_of gs) (clm_parameter_no clm) = Returns f"
      "request_frame_wf f (stations_of gs)" "length (mq_buffer f) = CL_BUFFER_LEN"
      "dec_req_full_headers (mq_buffer f) 0 = initial_request_headers (67 + 76 * stations_of gs) (mc_protocol_ver cfg)
        (gs_timeout_value gs) (gs_parallel_off_timeout_count gs) (mc_master_id cfg) (of_nat gi + 1) (stations_of gs) (clm_parameter_no clm)"
    by blast
  have fok: "frame_ok (stations_of gs) f" using f(2,3) n16 by (simp add: frame_ok_def)
  define f' where "f' = f\<lparr>mq_buffer := clm_iefb_initialise_request_slave_ids gs (mq_first_slave_id f) (mq_buffer f)\<rparr>"
  note ids = initialise_slave_ids_ok [OF fits fok f'_def]
  have "headers_ok cfg gi gs f" using headers_own f(4) unfolding headers_ok_def by metis
  from headers_ok_cong [OF this ids(3) fok ids(1)] have hd: "headers_ok cfg gi gs f'" .
  define g' where "g' = h'\<lparr>gd_req_frame := f'\<rparr>"
  have "group_setting clm g = gs" using cfg gs fr(1) by (simp add: group_setting_def)
  then have "clm_iefb_reflect_group_parameters clm g = Returns g'"
    using r(1) f(1) h' by (simp add: clm_iefb_reflect_group_parameters_def occupied_per_group [OF fits] h_def cfg Let_def g'_def f'_def)
  moreover have "group_ready cfg gi g'"
    using h' ids(1,2) hd dev fr(3)
    by (simp add: group_ready_def Let_def gs [symmetric] g'_def device_inv_def device_placed_def live_states_def)
  ultimately show ?thesis using dev h' by (intro exI [of _ g']) (simp add: g'_def devices_in_def)
qed

text \<open>How long a master listens to other masters before it scans.\<close>

definition arbitration_period :: "clm_cfg \<Rightarrow> u32" where
  "arbitration_period cfg = ucast (mc_arbitration_time cfg) * of_nat CL_TIMER_MICROSECONDS_PER_MILLISECOND"

lemma round_new_config:
  assumes m: "master_ok clm" and gi: "gi < hi_number_of_groups (mc_hier (clm_config clm))" and g: "clm_groups clm ! gi = g"
    and fresh: "group_fresh (clm_config clm) gi g" and st: "gd_group_state g = CLM_GROUP_STATE_MASTER_LISTEN"
  shows "\<exists>clm' g'. group_round now clock gi CLM_GROUP_EVENT_NEW_CONFIG clm = Returns (CLM_GROUP_EVENT_NONE, clm') \<and>
    only_group gi clm clm' \<and> clm_groups clm' ! gi = g' \<and> group_inv (clm_config clm) gi g' \<and>
    gd_group_state g' = CLM_GROUP_STATE_MASTER_ARBITRATION \<and> clm_state clm' = CLM_MASTER_STATE_ARBITRATION \<and>
    clm_arbitration_timer clm' = cl_timer_start_if_not_running (arbitration_period (clm_config clm)) now (clm_arbitration_timer clm)"
proof -
  define h where "h = g\<lparr>gd_group_state := CLM_GROUP_STATE_MASTER_ARBITRATION\<rparr>"
  let ?c = "set_group gi h clm"
  have gt: "group_tables clm" "gi < length (clm_groups clm)" "good_config (clm_config clm)" using m gi by (simp_all add: master_ok_def)
  have "group_fresh (clm_config clm) gi h" using fresh by (simp add: h_def group_fresh_def)
  from reflect_ok [OF _ good_config_group(1) [OF gt(3) gi refl] refl this, of ?c] obtain g' where
    r: "clm_iefb_reflect_group_parameters ?c h = Returns g'" "group_ready (clm_config clm) gi g'" "gd_frame_sequence_no g' = 0"
      "devices_in {CLM_DEVICE_STATE_LISTEN} (hi_groups (mc_hier (clm_config clm)) ! gi) g'" "gd_group_state g' = gd_group_state h" by auto
  define c1 where "c1 = (set_group gi g' clm)\<lparr>clm_arbitration_timer := cl_timer_start_if_not_running
    (ucast (mc_arbitration_time (clm_config clm)) * of_nat CL_TIMER_MICROSECONDS_PER_MILLISECOND) now (clm_arbitration_timer clm)\<rparr>"
  have run: "group_round now clock gi CLM_GROUP_EVENT_NEW_CONFIG clm =
      Returns (CLM_GROUP_EVENT_NONE, clm_iefb_set_master_state CLM_MASTER_STATE_ARBITRATION c1)"
    using group_round_action [OF gt(1), of gi CLM_GROUP_EVENT_NEW_CONFIG] st g r(1) gt(2)
    by (simp add: group_find_live group_entry clm_iefb_group_new_config_def no_group_event_def
        clm_iefb_group_on_entry_arbitration_def h_def c1_def Let_def)
  have "only_group gi clm c1" using gt(2) by (simp add: only_group_def c1_def)
  then have "only_group gi clm (clm_iefb_set_master_state CLM_MASTER_STATE_ARBITRATION c1)"
    using only_group_trans set_master_state_simps(5) by blast
  moreover have "group_inv (clm_config clm) gi g'" using r by (simp add: group_inv_def Let_def h_def)
  ultimately show ?thesis using run r gt(2) by (simp add: c1_def h_def arbitration_period_def)
qed

definition started :: "clm_group_setting \<Rightarrow> clm_slave_device_data \<Rightarrow> clm_slave_device_data" where
  "started gs d = d\<lparr>dd_device_state := CLM_DEVICE_STATE_LISTEN,
     dd_enabled := \<not> sd_reserved_slave_device (device_setting gs d), dd_transmission_bit := False,
     dd_statistics := clm_iefb_statistics_clear, dd_latest_frame := clm_iefb_latest_received_clear,
     dd_timeout_count := 0, dd_slave_station_no := 0\<rparr>"

lemma startup_event:
  assumes "device_tables clm" "di < length (gd_slave_devices g)" "dd_device_state (gd_slave_devices g ! di) = CLM_DEVICE_STATE_MASTER_DOWN"
  shows "clm_iefb_device_fsm_event clm di CLM_DEVICE_EVENT_GROUP_STARTUP (g, out) =
    Returns (upd_device di (started (group_setting clm g)) g, out)"
proof -
  have m: "clm_device_fsm_matrix clm = build_matrix device_transitions"
    "clm_device_fsm_on_entry_exit clm = build_entry_exit device_state_actions"
    using assms(1) by (simp_all add: device_tables_def)
  show ?thesis using assms(2,3)
    by (simp add: clm_iefb_device_fsm_event_def device_fuel_def numeral_2_eq_2 device_round_def m device_lookup device_entry
        device_find_live clm_iefb_device_init_def clm_iefb_reset_timeout_count_def Let_def)
      (auto intro!: upd_device_cong simp: started_def device_setting_def group_setting_def)
qed

lemma startup_all:
  assumes t: "device_tables clm" and gs: "group_setting clm g = gs" and len: "gs_num_slave_devices gs \<le> length (gd_slave_devices g)"
    and down: "\<forall>di < gs_num_slave_devices gs. dd_device_state (gd_slave_devices g ! di) = CLM_DEVICE_STATE_MASTER_DOWN"
  shows "\<exists>g'. clm_iefb_device_fsm_event_all_in_group clm CLM_DEVICE_EVENT_GROUP_STARTUP (g, out) = Returns (g', out) \<and>
    devices_updated (gs_num_slave_devices gs) (\<lambda>_. started gs) g g'"
proof -
  let ?n = "gs_num_slave_devices gs"
  let ?P = "\<lambda>i s. \<exists>g'. s = (g', out) \<and> devices_updated i (\<lambda>_. started gs) g g'"
  have "\<exists>s'. for_each (\<lambda>di. clm_iefb_device_fsm_event clm di CLM_DEVICE_EVENT_GROUP_STARTUP) [0..<?n] (g, out) = Returns s' \<and> ?P ?n s'"
  proof (rule for_each_upt [where P = ?P])
    show "?P 0 (g, out)" by simp
    fix i s assume i: "i < ?n" and "?P i s"
    then obtain g' where g': "s = (g', out)" "devices_updated i (\<lambda>_. started gs) g g'" by blast
    have "group_setting clm g' = gs" using gs devices_updated_fields(1) [OF g'(2)] by (simp add: group_setting_def)
    moreover have "i < length (gd_slave_devices g')" "dd_device_state (gd_slave_devices g' ! i) = CLM_DEVICE_STATE_MASTER_DOWN"
      using g'(2) i len down by (simp_all add: devices_updated_def)
    ultimately show "\<exists>s'. clm_iefb_device_fsm_event clm i CLM_DEVICE_EVENT_GROUP_STARTUP s = Returns s' \<and> ?P (Suc i) s'"
      using startup_event [OF t, of i g' out] devices_updated_Suc [OF g'(2)] g'(1) i len by auto
  qed
  then show ?thesis using gs by (auto simp: clm_iefb_device_fsm_event_all_in_group_def)
qed

definition group_blank :: "clm_cfg \<Rightarrow> nat \<Rightarrow> clm_group_data \<Rightarrow> bool" where
  "group_blank cfg gi g \<longleftrightarrow>
     (let gs = hi_groups (mc_hier cfg) ! gi in
      gd_group_index g = gi \<and> gs_num_slave_devices gs \<le> length (gd_slave_devices g) \<and> memory_ok gs (gd_memory_area g) \<and>
      gd_group_state g = CLM_GROUP_STATE_MASTER_DOWN)"

lemma round_startup:
  assumes m: "master_ok clm" and gi: "gi < hi_number_of_groups (mc_hier (clm_config clm))" and g: "clm_groups clm ! gi = g"
    and blank: "group_blank (clm_config clm) gi g"
  shows "\<exists>clm' g'. group_round now clock gi CLM_GROUP_EVENT_STARTUP clm = Returns (CLM_GROUP_EVENT_NONE, clm') \<and>
    only_group gi clm clm' \<and> clm_groups clm' ! gi = g' \<and> group_fresh (clm_config clm) gi g' \<and>
    gd_group_state g' = CLM_GROUP_STATE_MASTER_LISTEN \<and> clm_arbitration_timer clm' = cl_timer_stop (clm_arbitration_timer clm)"
proof -
  have mo: "group_tables clm" "device_tables clm" "gi < length (clm_groups clm)" using m gi by (simp_all add: master_ok_def)
  define gs where "gs = hi_groups (mc_hier (clm_config clm)) ! gi"
  let ?n = "gs_num_slave_devices gs"
  have b: "gd_group_index g = gi" "?n \<le> length (gd_slave_devices g)" "memory_ok gs (gd_memory_area g)"
    "gd_group_state g = CLM_GROUP_STATE_MASTER_DOWN" using blank by (simp_all add: group_blank_def gs_def Let_def)
  define h where "h = g\<lparr>gd_group_state := CLM_GROUP_STATE_MASTER_LISTEN, gd_response_wait_timer := cl_timer_stop (gd_response_wait_timer g),
    gd_constant_linkscan_timer := cl_timer_stop (gd_constant_linkscan_timer g), gd_total_occupied := 0, gd_frame_sequence_no := 0,
    gd_timestamp_link_scan_start := 0, gd_cyclic_transmission_state := 0\<rparr>"
  let ?f = "\<lambda>i d. d\<lparr>dd_device_index := i, dd_device_state := CLM_DEVICE_STATE_MASTER_DOWN\<rparr>"
  define h1 where "h1 = fold (\<lambda>i. upd_device i (?f i)) [0..<?n] h"
  have h1: "devices_updated ?n ?f h h1" unfolding h1_def by (rule fold_upd_device) (use b in \<open>simp add: h_def\<close>)
  note h1f = devices_updated_fields [OF h1]
  let ?c = "set_group gi (g\<lparr>gd_group_state := CLM_GROUP_STATE_MASTER_LISTEN\<rparr>) clm"
  have s1: "group_setting ?c h1 = gs" using h1f(1) b(1) by (simp add: group_setting_def h_def gs_def)
  have t: "device_tables ?c" using mo(2) by (simp add: device_tables_def)
  from startup_all [OF t s1, of "clm_out clm"] h1 b(2) obtain h2 where
    h2: "clm_iefb_device_fsm_event_all_in_group ?c CLM_DEVICE_EVENT_GROUP_STARTUP (h1, clm_out clm) = Returns (h2, clm_out clm)"
      "devices_updated ?n (\<lambda>_. started gs) h1 h2" by (auto simp: devices_updated_def h_def)
  note h2f = devices_updated_fields [OF h2(2)]
  have dev: "?n \<le> length (gd_slave_devices h2)" "\<forall>di < ?n. dd_device_index (gd_slave_devices h2 ! di) = di \<and>
      dd_device_state (gd_slave_devices h2 ! di) = CLM_DEVICE_STATE_LISTEN \<and> \<not> dd_transmission_bit (gd_slave_devices h2 ! di)"
    using h1 h2(2) b(2) by (simp_all add: devices_updated_def h_def started_def)
  have grp: "clm_iefb_group_init gi ?c = Returns (set_group gi h2 clm)"
  proof -
    have "(g\<lparr>gd_group_state := CLM_GROUP_STATE_MASTER_LISTEN\<rparr>)\<lparr>gd_response_wait_timer := cl_timer_stop (gd_response_wait_timer g),
      gd_constant_linkscan_timer := cl_timer_stop (gd_constant_linkscan_timer g), gd_total_occupied := 0, gd_frame_sequence_no := 0,
      gd_timestamp_link_scan_start := 0, gd_cyclic_transmission_state := 0\<rparr> = h" by (simp add: h_def)
    moreover have "group_setting ?c (g\<lparr>gd_group_state := CLM_GROUP_STATE_MASTER_LISTEN\<rparr>) = gs"
      using b(1) by (simp add: group_setting_def gs_def)
    ultimately show ?thesis using mo(3) h2(1)
      by (simp add: clm_iefb_group_init_def Let_def h1_def [symmetric] on_group_def set_group_def)
  qed
  define c' where "c' = (set_group gi h2 clm)\<lparr>clm_arbitration_timer := cl_timer_stop (clm_arbitration_timer clm)\<rparr>"
  define h3 where "h3 = map_devices ?n (after_event gs CLM_DEVICE_EVENT_GROUP_STANDBY) h2"
  have c': "device_tables c'" "group_setting c' h2 = gs" "clm_groups c' ! gi = h2" "only_group gi clm c'"
    using mo h2f(1) h1f(1) b(1) by (simp_all add: c'_def device_tables_def group_setting_def gs_def h_def only_group_def)
  have "clm_iefb_device_fsm_event_all_in_group c' CLM_DEVICE_EVENT_GROUP_STANDBY (h2, clm_out c') = Returns (h3, clm_out c')"
    unfolding h3_def using dev by (intro quiet_all [OF c'(1,2)]) (simp_all add: quiet_events_def live_states_def)
  then have "on_group gi (clm_iefb_device_fsm_event_all_in_group c' CLM_DEVICE_EVENT_GROUP_STANDBY) c' = Returns (set_group gi h3 c')"
    using c'(3) by (simp add: on_group_def set_group_def)
  then have "group_round now clock gi CLM_GROUP_EVENT_STARTUP clm =
      Returns (CLM_GROUP_EVENT_NONE, clm_iefb_set_master_state CLM_MASTER_STATE_STANDBY (set_group gi h3 c'))"
    using group_round_action [OF mo(1), of gi CLM_GROUP_EVENT_STARTUP] g b(4) grp
    by (simp add: group_find_live group_entry no_group_event_def clm_iefb_group_on_entry_listen_def Let_def c'_def)
  moreover have "only_group gi clm (clm_iefb_set_master_state CLM_MASTER_STATE_STANDBY (set_group gi h3 c'))"
    using only_group_trans [OF c'(4) only_group_trans [OF only_group_set set_master_state_simps(5)]] .
  moreover have "group_fresh (clm_config clm) gi h3"
    using dev h2f h1f b map_devices_nth [OF dev(1), where f = "after_event gs CLM_DEVICE_EVENT_GROUP_STANDBY"]
    by (simp add: group_fresh_def Let_def gs_def [symmetric] h3_def h_def after_event_states live_states_def)
  ultimately show ?thesis using mo(3) h2f h1f by (simp add: c'_def h3_def h_def)
qed

end
