(* ===== verification/CLM_Events.thy ===== *)
theory CLM_Events
  imports CLM_Rounds
begin

text \<open>
  The invariant of the groups of a master and its preservation by every event of the group state
  machine. The loop over follow-up events is an instance of the locale \<open>event_machine\<close>.
\<close>

section \<open>Events keep the invariant of a group\<close>

definition group_enabled :: "clm \<Rightarrow> nat \<Rightarrow> clm_group_event \<Rightarrow> clm \<Rightarrow> bool" where
  "group_enabled clm0 gi ev clm \<longleftrightarrow>
     (let g = clm_groups clm ! gi; cfg = clm_config clm in
      only_group gi clm0 clm \<and> master_ok clm \<and> gi < hi_number_of_groups (mc_hier cfg) \<and>
      gd_memory_area g = gd_memory_area (clm_groups clm0 ! gi) \<and>
      (gd_group_state g = CLM_GROUP_STATE_MASTER_ARBITRATION \<longrightarrow> clm = clm0) \<and>
      (ev = CLM_GROUP_EVENT_LINKSCAN_START \<and> scan_pending cfg gi g \<or>
       ev = CLM_GROUP_EVENT_LINKSCAN_TIMEOUT \<and> (\<exists>t. group_inv cfg gi (g\<lparr>gd_response_wait_timer := t\<rparr>)) \<or>
       ev = CLM_GROUP_EVENT_LINKSCAN_COMPLETE \<and> group_inv cfg gi g \<and>
         (gd_group_state g = CLM_GROUP_STATE_MASTER_LINK_SCAN \<longrightarrow>
            devices_in (live_states - {CLM_DEVICE_STATE_CYCLIC_SENDING}) (hi_groups (mc_hier cfg) ! gi) g) \<or>
       ev \<notin> {CLM_GROUP_EVENT_LINKSCAN_COMPLETE, CLM_GROUP_EVENT_NEW_CONFIG} \<and> group_inv cfg gi g))"

definition group_rank :: "clm_group_event \<Rightarrow> nat" where
  "group_rank ev = (if ev = CLM_GROUP_EVENT_LINKSCAN_START then 0 else 1)"

definition group_kept :: "clm \<Rightarrow> nat \<Rightarrow> clm \<Rightarrow> bool" where
  "group_kept clm0 gi clm \<longleftrightarrow> only_group gi clm0 clm \<and> master_ok clm \<and> group_inv (clm_config clm) gi (clm_groups clm ! gi) \<and>
     gd_memory_area (clm_groups clm ! gi) = gd_memory_area (clm_groups clm0 ! gi) \<and>
     (gd_group_state (clm_groups clm ! gi) = CLM_GROUP_STATE_MASTER_ARBITRATION \<longrightarrow> clm = clm0)"

lemma group_inv_ready: "group_inv cfg gi g \<Longrightarrow> group_ready cfg gi g"
  by (simp add: group_inv_def Let_def)

lemma group_inv_states:
  "group_inv cfg gi g \<Longrightarrow> gd_group_state g \<in> {CLM_GROUP_STATE_MASTER_LISTEN, CLM_GROUP_STATE_MASTER_ARBITRATION,
     CLM_GROUP_STATE_MASTER_LINK_SCAN_COMP, CLM_GROUP_STATE_MASTER_LINK_SCAN}"
  by (auto simp: group_inv_def scan_pending_def Let_def)

lemma group_inv_response_timer:
  assumes "gd_group_state g \<noteq> CLM_GROUP_STATE_MASTER_LINK_SCAN"
  shows "group_inv cfg gi (g\<lparr>gd_response_wait_timer := t\<rparr>) = group_inv cfg gi g"
  using assms by (auto simp: group_inv_def scan_pending_def Let_def group_ready_fields devices_in_def)

lemma group_enabled_ready:
  assumes "group_enabled clm0 gi ev clm" "clm_groups clm ! gi = g"
  shows "at_group g gi clm" "gd_group_state g \<in> {CLM_GROUP_STATE_MASTER_LISTEN, CLM_GROUP_STATE_MASTER_ARBITRATION,
     CLM_GROUP_STATE_MASTER_LINK_SCAN_COMP, CLM_GROUP_STATE_MASTER_LINK_SCAN}"
    "gd_group_state g \<noteq> CLM_GROUP_STATE_MASTER_LINK_SCAN \<Longrightarrow> group_inv (clm_config clm) gi g \<or> scan_pending (clm_config clm) gi g \<and> ev = CLM_GROUP_EVENT_LINKSCAN_START"
proof -
  consider "group_inv (clm_config clm) gi g" | "scan_pending (clm_config clm) gi g" "ev = CLM_GROUP_EVENT_LINKSCAN_START"
    | t where "group_inv (clm_config clm) gi (g\<lparr>gd_response_wait_timer := t\<rparr>)"
    using assms by (auto simp: group_enabled_def Let_def)
  note c = this
  have "group_ready (clm_config clm) gi g"
    by (cases rule: c) (auto dest: group_inv_ready simp: group_ready_fields scan_pending_def Let_def)
  then show "at_group g gi clm" using assms by (simp add: at_group_def group_enabled_def Let_def)
  show "gd_group_state g \<in> {CLM_GROUP_STATE_MASTER_LISTEN, CLM_GROUP_STATE_MASTER_ARBITRATION,
     CLM_GROUP_STATE_MASTER_LINK_SCAN_COMP, CLM_GROUP_STATE_MASTER_LINK_SCAN}"
    by (cases rule: c) (auto dest: group_inv_states simp: scan_pending_def Let_def)
  show "gd_group_state g \<noteq> CLM_GROUP_STATE_MASTER_LINK_SCAN \<Longrightarrow> group_inv (clm_config clm) gi g \<or> scan_pending (clm_config clm) gi g \<and> ev = CLM_GROUP_EVENT_LINKSCAN_START"
    by (cases rule: c) (auto simp: group_inv_response_timer)
qed

text \<open>The rounds that change something; every other pair of state and event has no entry in the table.\<close>

lemma group_event_kinds:
  assumes "st \<in> {CLM_GROUP_STATE_MASTER_LISTEN, CLM_GROUP_STATE_MASTER_ARBITRATION, CLM_GROUP_STATE_MASTER_LINK_SCAN_COMP, CLM_GROUP_STATE_MASTER_LINK_SCAN}"
    and "ev \<noteq> CLM_GROUP_EVENT_NEW_CONFIG"
  obtains (start) "ev = CLM_GROUP_EVENT_LINKSCAN_START" "st = CLM_GROUP_STATE_MASTER_LINK_SCAN_COMP"
    | (timeout) "ev = CLM_GROUP_EVENT_LINKSCAN_TIMEOUT" "st = CLM_GROUP_STATE_MASTER_LINK_SCAN"
    | (complete) "ev = CLM_GROUP_EVENT_LINKSCAN_COMPLETE" "st = CLM_GROUP_STATE_MASTER_LINK_SCAN"
    | (arbitrated) "ev = CLM_GROUP_EVENT_ARBITRATION_DONE" "st = CLM_GROUP_STATE_MASTER_ARBITRATION"
    | (listen) act where "group_find st ev = Some (CLM_GROUP_STATE_MASTER_LISTEN, act)" "act \<in> {None, Some On_Arbitration_Failed}"
        "st \<noteq> CLM_GROUP_STATE_MASTER_LISTEN"
    | (idle) "group_find st ev = None \<or> group_find st ev = Some (st, None)"
        "st = CLM_GROUP_STATE_MASTER_LINK_SCAN \<longrightarrow> ev \<noteq> CLM_GROUP_EVENT_LINKSCAN_TIMEOUT"
        "st = CLM_GROUP_STATE_MASTER_LINK_SCAN_COMP \<longrightarrow> ev \<noteq> CLM_GROUP_EVENT_LINKSCAN_START"
  using assms by (cases ev) (auto simp: group_find_live)

lemma group_round_ok:
  assumes en: "group_enabled clm0 gi ev clm"
  shows "\<exists>ev' clm'. group_round now clock gi ev clm = Returns (ev', clm') \<and>
    (ev' = CLM_GROUP_EVENT_NONE \<longrightarrow> group_kept clm0 gi clm') \<and>
    (ev' \<noteq> CLM_GROUP_EVENT_NONE \<longrightarrow> group_enabled clm0 gi ev' clm' \<and> group_rank ev' < group_rank ev)"
proof -
  define g where "g = clm_groups clm ! gi"
  define gs where "gs = hi_groups (mc_hier (clm_config clm)) ! gi"
  note r = group_enabled_ready [OF en g_def [symmetric]]
  note d = at_groupD [OF r(1)]
  have only: "only_group gi clm0 clm" and mem: "gd_memory_area (clm_groups clm0 ! gi) = gd_memory_area g"
    using en by (simp_all add: group_enabled_def Let_def g_def)
  have keep: "only_group gi clm0 c" "master_ok c" "clm_config c = clm_config clm" if "only_group gi clm c" for c
    using only_group_trans [OF only that] only_group_ok [OF that d(7)] that by (simp_all add: only_group_def)
  have pend: "group_enabled clm0 gi CLM_GROUP_EVENT_LINKSCAN_START c"
    if "only_group gi clm c" "clm_groups c ! gi = h" "scan_pending (clm_config clm) gi h" "gd_memory_area h = gd_memory_area g" for c h
    using keep [OF that(1)] that(2-4) d(8) mem by (simp add: group_enabled_def scan_pending_def Let_def)
  have "ev \<noteq> CLM_GROUP_EVENT_NEW_CONFIG" using en by (auto simp: group_enabled_def Let_def)
  from r(2) this show ?thesis
  proof (cases rule: group_event_kinds)
    case start
    have p: "scan_pending (clm_config clm) gi g" using r(3) start(2) by (auto simp: group_inv_def Let_def)
    from round_scan_start [OF r(1) p, of now clock] obtain g' outs where
      g': "group_round now clock gi CLM_GROUP_EVENT_LINKSCAN_START clm = Returns (CLM_GROUP_EVENT_NONE,
        (set_group gi g' clm)\<lparr>clm_out := clm_out clm @ outs @ [Request_Sent (clm_iefb_broadcast_ip clm) (request_payload g')]\<rparr>)"
      "scan_started (clm_config clm) gi now (clock (length (clm_out clm)))
        (clm_master_local_unit_info clm) (g\<lparr>gd_group_state := CLM_GROUP_STATE_MASTER_LINK_SCAN\<rparr>) g'" by blast
    have o: "only_group gi clm ((set_group gi g' clm)\<lparr>clm_out := clm_out clm @ xs\<rparr>)" for xs by (simp add: only_group_def)
    have "group_kept clm0 gi ((set_group gi g' clm)\<lparr>clm_out := clm_out clm @ xs\<rparr>)" for xs
      using keep(1,2) [OF o [of xs]] scan_started_inv [OF p g'(2)] d(3) g'(2) mem by (simp add: group_kept_def scan_started_def Let_def)
    then show ?thesis using g'(1) start(1) by simp
  next
    case timeout
    from round_scan_timeout [OF r(1) timeout(2) gs_def, of now clock] obtain c where
      c: "group_round now clock gi CLM_GROUP_EVENT_LINKSCAN_TIMEOUT clm = Returns (CLM_GROUP_EVENT_LINKSCAN_START, c)"
        "only_group gi clm c" "clm_groups c ! gi = scan_ended gs CLM_DEVICE_EVENT_GROUP_TIMEOUT g" by blast
    have "scan_pending (clm_config clm) gi (scan_ended gs CLM_DEVICE_EVENT_GROUP_TIMEOUT g)"
      using scan_ended_pending [OF d(5) gs_def] by blast
    from pend [OF c(2,3) this] mem show ?thesis using c(1) timeout(1) by (simp add: group_rank_def)
  next
    case complete
    let ?g = "g\<lparr>gd_response_wait_timer := cl_timer_stop (gd_response_wait_timer g)\<rparr>"
    have inv: "group_inv (clm_config clm) gi g" "devices_in (live_states - {CLM_DEVICE_STATE_CYCLIC_SENDING}) gs g"
      using en complete by (auto simp: group_enabled_def Let_def g_def gs_def)
    have "group_ready (clm_config clm) gi ?g" "devices_in (live_states - {CLM_DEVICE_STATE_CYCLIC_SENDING}) gs ?g"
      using d(5) inv(2) by (simp_all add: group_ready_fields devices_in_def)
    then have p: "scan_pending (clm_config clm) gi (scan_ended gs CLM_DEVICE_EVENT_GROUP_ALL_RESPONDED ?g)"
      using scan_ended_pending [OF _ gs_def] by blast
    have "group_inv (clm_config clm) gi (scan_ended gs CLM_DEVICE_EVENT_GROUP_ALL_RESPONDED ?g)" if "gs_use_constant_link_scan_time gs"
      using p inv(1) that complete(2) next_sequence_no unfolding group_inv_def Let_def gs_def [symmetric]
      by (auto simp: scan_pending_def Let_def)
    then have fin: "group_kept clm0 gi c" if "gs_use_constant_link_scan_time gs" "only_group gi clm c"
        "clm_groups c ! gi = scan_ended gs CLM_DEVICE_EVENT_GROUP_ALL_RESPONDED ?g" for c
      using keep [OF that(2)] that mem by (simp add: group_kept_def)
    from round_complete [OF r(1) complete(2) gs_def, of now clock] obtain c where
      c: "group_round now clock gi CLM_GROUP_EVENT_LINKSCAN_COMPLETE clm =
        Returns (if gs_use_constant_link_scan_time gs then CLM_GROUP_EVENT_NONE else CLM_GROUP_EVENT_LINKSCAN_START, c)"
        "only_group gi clm c" "clm_groups c ! gi = scan_ended gs CLM_DEVICE_EVENT_GROUP_ALL_RESPONDED ?g" by blast
    show ?thesis using c(1) fin [OF _ c(2,3)] pend [OF c(2,3) p] complete(1) by (simp add: group_rank_def)
  next
    case arbitrated
    have "group_inv (clm_config clm) gi g" using r(3) arbitrated(2) by (auto simp: scan_pending_def Let_def)
    then have "scan_pending (clm_config clm) gi (g\<lparr>gd_group_state := CLM_GROUP_STATE_MASTER_LINK_SCAN_COMP\<rparr>)"
      using arbitrated(2) by (auto simp: group_inv_def scan_pending_def Let_def group_ready_fields devices_in_def)
    from round_arbitration_done [OF r(1) arbitrated(2), of now clock] pend [OF _ _ this] arbitrated(1) show ?thesis
      by (auto simp: group_rank_def)
  next
    case listen
    from round_to_listen [OF r(1) listen, of now clock] obtain c where
      c: "group_round now clock gi ev clm = Returns (CLM_GROUP_EVENT_NONE, c)" "only_group gi clm c"
        "group_inv (clm_config clm) gi (clm_groups c ! gi)" "gd_group_state (clm_groups c ! gi) = CLM_GROUP_STATE_MASTER_LISTEN"
        "gd_memory_area (clm_groups c ! gi) = gd_memory_area g" by blast
    show ?thesis using c keep [OF c(2)] mem by (simp add: group_kept_def)
  next
    case idle
    have "group_inv (clm_config clm) gi g" using en idle(2,3) r(3)
      by (cases "gd_group_state g = CLM_GROUP_STATE_MASTER_LINK_SCAN") (auto simp: group_enabled_def scan_pending_def Let_def g_def)
    moreover have "gd_group_state g = CLM_GROUP_STATE_MASTER_ARBITRATION \<longrightarrow> clm = clm0"
      using en by (simp add: group_enabled_def Let_def g_def)
    ultimately show ?thesis using group_round_idle [OF d(2) _ idle(1), of gi now clock] only d(7) mem
      by (simp add: group_kept_def g_def)
  qed
qed

interpretation group_fsm: event_machine "group_round now clock gi" CLM_GROUP_EVENT_NONE "group_enabled clm0 gi" "group_kept clm0 gi" group_rank
  for now clock gi clm0
  by unfold_locales (rule group_round_ok)

lemma group_event_ok:
  assumes "group_enabled clm gi ev clm" "ev \<noteq> CLM_GROUP_EVENT_LAST"
  shows "\<exists>clm'. clm_iefb_group_fsm_event now clock gi ev clm = Returns clm' \<and> group_kept clm gi clm'"
  using group_fsm.loop_returns [OF assms(1), of group_fuel now clock] assms(2)
  by (simp add: clm_iefb_group_fsm_event_def group_fuel_def group_rank_def)

section \<open>Events for all groups\<close>

abbreviation number_of_groups :: "clm \<Rightarrow> nat" where
  "number_of_groups clm \<equiv> hi_number_of_groups (mc_hier (clm_config clm))"

abbreviation state_of_group :: "clm \<Rightarrow> nat \<Rightarrow> clm_group_state" where
  "state_of_group clm gi \<equiv> gd_group_state (clm_groups clm ! gi)"

definition groups_inv :: "clm \<Rightarrow> bool" where
  "groups_inv clm \<longleftrightarrow> master_ok clm \<and> (\<forall>gi < number_of_groups clm. group_inv (clm_config clm) gi (clm_groups clm ! gi))"

text \<open>Arbitration is common to all groups, and its end is timed.\<close>

definition arbitration_inv :: "clm \<Rightarrow> bool" where
  "arbitration_inv clm \<longleftrightarrow> (\<forall>gi < number_of_groups clm. state_of_group clm gi = CLM_GROUP_STATE_MASTER_ARBITRATION \<longrightarrow>
     timer_runs (arbitration_period (clm_config clm)) (clm_arbitration_timer clm) \<and>
     (\<forall>gj < number_of_groups clm. state_of_group clm gj = CLM_GROUP_STATE_MASTER_ARBITRATION))"

definition clm_inv :: "clm \<Rightarrow> bool" where
  "clm_inv clm \<longleftrightarrow> groups_inv clm \<and> arbitration_inv clm"

lemma groups_inv_kept:
  assumes "groups_inv clm" "group_kept clm gi clm'"
  shows "groups_inv clm'" "clm_config clm' = clm_config clm" "clm_iefb_broadcast_ip clm' = clm_iefb_broadcast_ip clm"
    "\<forall>j. j \<noteq> gi \<longrightarrow> clm_groups clm' ! j = clm_groups clm ! j" "only_group gi clm clm'"
    "\<forall>j. gd_memory_area (clm_groups clm' ! j) = gd_memory_area (clm_groups clm ! j)"
  using assms by (auto simp: groups_inv_def group_kept_def only_group_def)

lemma groups_inv_enabled:
  assumes "groups_inv clm" "gi < number_of_groups clm" "ev \<notin> {CLM_GROUP_EVENT_LINKSCAN_COMPLETE, CLM_GROUP_EVENT_NEW_CONFIG}"
  shows "group_enabled clm gi ev clm"
  using assms by (simp add: group_enabled_def groups_inv_def Let_def)

definition group_target :: "clm_group_event \<Rightarrow> clm_group_state \<Rightarrow> clm_group_state" where
  "group_target ev st =
     (if ev = CLM_GROUP_EVENT_REQ_FROM_OTHER \<and> st = CLM_GROUP_STATE_MASTER_ARBITRATION then CLM_GROUP_STATE_MASTER_LISTEN
      else if ev = CLM_GROUP_EVENT_ARBITRATION_DONE \<and> st = CLM_GROUP_STATE_MASTER_ARBITRATION then CLM_GROUP_STATE_MASTER_LINK_SCAN
      else if ev = CLM_GROUP_EVENT_MASTERDUPL_ALARM \<and> st \<in> {CLM_GROUP_STATE_MASTER_LINK_SCAN_COMP, CLM_GROUP_STATE_MASTER_LINK_SCAN}
      then CLM_GROUP_STATE_MASTER_LISTEN else st)"

definition common_events :: "clm_group_event set" where
  "common_events = {CLM_GROUP_EVENT_REQ_FROM_OTHER, CLM_GROUP_EVENT_ARBITRATION_DONE, CLM_GROUP_EVENT_MASTERDUPL_ALARM}"

lemma group_target_arbitration:
  "ev \<in> common_events \<Longrightarrow> group_target ev st = CLM_GROUP_STATE_MASTER_ARBITRATION \<longleftrightarrow>
     ev = CLM_GROUP_EVENT_MASTERDUPL_ALARM \<and> st = CLM_GROUP_STATE_MASTER_ARBITRATION"
  by (auto simp: common_events_def group_target_def)

text \<open>An event that finds no entry in the table.\<close>

lemma group_event_idle:
  assumes "group_tables clm" "group_find (state_of_group clm gi) ev = None \<or> group_find (state_of_group clm gi) ev = Some (state_of_group clm gi, None)"
  shows "clm_iefb_group_fsm_event now clock gi ev clm = Returns clm"
  using group_round_idle [OF assms(1) refl assms(2)]
  by (simp add: clm_iefb_group_fsm_event_def group_fuel_def numeral_2_eq_2)

lemma group_event_final:
  assumes "group_round now clock gi ev clm = Returns (CLM_GROUP_EVENT_NONE, clm')" "ev \<noteq> CLM_GROUP_EVENT_LAST"
  shows "clm_iefb_group_fsm_event now clock gi ev clm = Returns clm'"
  using assms by (simp add: clm_iefb_group_fsm_event_def group_fuel_def numeral_2_eq_2)

lemma group_event_follow_up:
  assumes "group_round now clock gi ev clm = Returns (ev', c)" "ev \<noteq> CLM_GROUP_EVENT_LAST" "ev' \<noteq> CLM_GROUP_EVENT_NONE"
    and "group_round now clock gi ev' c = Returns (CLM_GROUP_EVENT_NONE, clm')"
  shows "clm_iefb_group_fsm_event now clock gi ev clm = Returns clm'"
  using assms by (simp add: clm_iefb_group_fsm_event_def group_fuel_def numeral_2_eq_2)

text \<open>The end of arbitration starts the first link scan.\<close>

lemma arbitration_done_scans:
  assumes inv: "groups_inv clm" and gi: "gi < number_of_groups clm" and st: "state_of_group clm gi = CLM_GROUP_STATE_MASTER_ARBITRATION"
  shows "\<exists>clm' g' outs. clm_iefb_group_fsm_event now clock gi CLM_GROUP_EVENT_ARBITRATION_DONE clm = Returns clm' \<and>
    clm_groups clm' ! gi = g' \<and> gd_group_state g' = CLM_GROUP_STATE_MASTER_LINK_SCAN \<and>
    (\<exists>ck u. scan_started (clm_config clm) gi now ck u ((clm_groups clm ! gi)\<lparr>gd_group_state := CLM_GROUP_STATE_MASTER_LINK_SCAN\<rparr>) g') \<and>
    clm_out clm' = outs @ [Request_Sent (clm_iefb_broadcast_ip clm) (request_payload g')]"
proof -
  define g where "g = clm_groups clm ! gi"
  let ?g = "g\<lparr>gd_group_state := CLM_GROUP_STATE_MASTER_LINK_SCAN_COMP\<rparr>"
  have gi': "group_inv (clm_config clm) gi g" "master_ok clm" using inv gi by (simp_all add: groups_inv_def g_def)
  have at: "at_group g gi clm" using gi' gi group_inv_ready by (simp add: at_group_def g_def)
  from round_arbitration_done [OF at, of now clock] st obtain c where
    c: "group_round now clock gi CLM_GROUP_EVENT_ARBITRATION_DONE clm = Returns (CLM_GROUP_EVENT_LINKSCAN_START, c)"
      "only_group gi clm c" "clm_groups c ! gi = ?g" by (auto simp: g_def)
  have cfg: "clm_config c = clm_config clm" "clm_iefb_broadcast_ip c = clm_iefb_broadcast_ip clm" using c(2) by (simp_all add: only_group_def)
  have p: "scan_pending (clm_config c) gi ?g"
    using gi'(1) st cfg by (auto simp: group_inv_def scan_pending_def Let_def group_ready_fields devices_in_def g_def)
  have at': "at_group ?g gi c" using only_group_ok [OF c(2) gi'(2)] gi c(3) p cfg by (simp add: at_group_def scan_pending_def Let_def)
  from round_scan_start [OF at' p, of now clock] obtain g' outs where
    r: "group_round now clock gi CLM_GROUP_EVENT_LINKSCAN_START c = Returns (CLM_GROUP_EVENT_NONE,
      (set_group gi g' c)\<lparr>clm_out := clm_out c @ outs @ [Request_Sent (clm_iefb_broadcast_ip c) (request_payload g')]\<rparr>)"
      "scan_started (clm_config c) gi now (clock (length (clm_out c))) (clm_master_local_unit_info c)
        (?g\<lparr>gd_group_state := CLM_GROUP_STATE_MASTER_LINK_SCAN\<rparr>) g'" by blast
  have st': "gd_group_state g' = CLM_GROUP_STATE_MASTER_LINK_SCAN" using r(2) by (simp add: scan_started_def Let_def)
  have "gi < length (clm_groups c)" using at_groupD(3) [OF at'] .
  moreover have "scan_started (clm_config clm) gi now (clock (length (clm_out c))) (clm_master_local_unit_info c)
      ((clm_groups clm ! gi)\<lparr>gd_group_state := CLM_GROUP_STATE_MASTER_LINK_SCAN\<rparr>) g'"
    using r(2) cfg(1) by (simp add: g_def)
  ultimately show ?thesis using group_event_follow_up [OF c(1) _ _ r(1)] st' cfg by auto
qed

lemma common_event:
  assumes inv: "groups_inv clm" and gi: "gi < number_of_groups clm" and ev: "ev \<in> common_events"
  shows "\<exists>clm'. clm_iefb_group_fsm_event now clock gi ev clm = Returns clm' \<and> group_kept clm gi clm' \<and>
    state_of_group clm' gi = group_target ev (state_of_group clm gi) \<and>
    (group_target ev (state_of_group clm gi) = state_of_group clm gi \<longrightarrow> clm' = clm)"
proof -
  let ?st = "state_of_group clm gi"
  have en: "group_enabled clm gi ev clm" by (rule groups_inv_enabled [OF inv gi]) (use ev in \<open>auto simp: common_events_def\<close>)
  from group_event_ok [OF this, of now clock] ev obtain c where
    c: "clm_iefb_group_fsm_event now clock gi ev clm = Returns c" "group_kept clm gi c" by (auto simp: common_events_def)
  note r = group_enabled_ready [OF en refl] and d = at_groupD [OF group_enabled_ready(1) [OF en refl]]
  consider (idle) "group_find ?st ev = None \<or> group_find ?st ev = Some (?st, None)" "group_target ev ?st = ?st"
    | (finished) "ev = CLM_GROUP_EVENT_ARBITRATION_DONE" "?st = CLM_GROUP_STATE_MASTER_ARBITRATION"
    | (listen) act where "group_find ?st ev = Some (CLM_GROUP_STATE_MASTER_LISTEN, act)" "act \<in> {None, Some On_Arbitration_Failed}"
        "?st \<noteq> CLM_GROUP_STATE_MASTER_LISTEN" "group_target ev ?st = CLM_GROUP_STATE_MASTER_LISTEN"
    using r(2) ev by (auto simp: common_events_def group_target_def group_find_live)
  then show ?thesis
  proof cases
    case idle then show ?thesis using group_event_idle [OF d(2) idle(1), of now clock] c by simp
  next
    case finished then show ?thesis using arbitration_done_scans [OF inv gi finished(2), of now clock] c by (auto simp: group_target_def)
  next
    case listen
    from round_to_listen [OF r(1) listen(1-3), of now clock] obtain c' where
      c': "group_round now clock gi ev clm = Returns (CLM_GROUP_EVENT_NONE, c')" "state_of_group c' gi = CLM_GROUP_STATE_MASTER_LISTEN" by blast
    have "c' = c" using group_event_final [OF c'(1)] c(1) ev by (auto simp: common_events_def)
    then show ?thesis using c c'(2) listen by simp
  qed
qed

lemma common_event_all:
  assumes inv: "groups_inv clm" and ev: "ev \<in> common_events"
  shows "\<exists>clm'. clm_iefb_group_fsm_event_all now clock ev clm = Returns clm' \<and> groups_inv clm' \<and> clm_config clm' = clm_config clm \<and>
    (\<forall>gi < number_of_groups clm. state_of_group clm' gi = group_target ev (state_of_group clm gi)) \<and>
    (\<forall>gi. gd_memory_area (clm_groups clm' ! gi) = gd_memory_area (clm_groups clm ! gi)) \<and>
    ((\<forall>gi < number_of_groups clm. group_target ev (state_of_group clm gi) = state_of_group clm gi) \<longrightarrow> clm' = clm)"
proof -
  let ?n = "number_of_groups clm"
  let ?P = "\<lambda>i c. groups_inv c \<and> clm_config c = clm_config clm \<and>
    (\<forall>gi < i. state_of_group c gi = group_target ev (state_of_group clm gi)) \<and>
    (\<forall>gi \<ge> i. clm_groups c ! gi = clm_groups clm ! gi) \<and>
    (\<forall>gi. gd_memory_area (clm_groups c ! gi) = gd_memory_area (clm_groups clm ! gi)) \<and>
    ((\<forall>gi < i. group_target ev (state_of_group clm gi) = state_of_group clm gi) \<longrightarrow> c = clm)"
  have "\<exists>c. for_each (\<lambda>gi. clm_iefb_group_fsm_event now clock gi ev) [0..<?n] clm = Returns c \<and> ?P ?n c"
  proof (rule for_each_upt [where P = ?P])
    show "?P 0 clm" using inv by simp
    fix i c assume i: "i < ?n" and p: "?P i c"
    have i': "i < number_of_groups c" and ci: "groups_inv c" "clm_groups c ! i = clm_groups clm ! i" using p i by simp_all
    from common_event [OF ci(1) i' ev, of now clock] obtain c' where
      c': "clm_iefb_group_fsm_event now clock i ev c = Returns c'" "group_kept c i c'"
        "state_of_group c' i = group_target ev (state_of_group clm i)"
        "group_target ev (state_of_group clm i) = state_of_group clm i \<longrightarrow> c' = c" unfolding ci(2) by blast
    note k = groups_inv_kept [OF ci(1) c'(2)]
    have states: "\<forall>gi < Suc i. state_of_group c' gi = group_target ev (state_of_group clm gi)"
    proof (intro allI impI)
      fix gi assume "gi < Suc i"
      then show "state_of_group c' gi = group_target ev (state_of_group clm gi)"
        using p k(4) c'(3) by (cases "gi = i") (auto simp: less_Suc_eq)
    qed
    have "\<forall>gi \<ge> Suc i. clm_groups c' ! gi = clm_groups clm ! gi" using p k(4) by simp
    moreover have "(\<forall>gi < Suc i. group_target ev (state_of_group clm gi) = state_of_group clm gi) \<longrightarrow> c' = clm"
      using p c'(4) by auto
    ultimately have "?P (Suc i) c'" using k(1,2,6) p states by simp
    then show "\<exists>c'. clm_iefb_group_fsm_event now clock i ev c = Returns c' \<and> ?P (Suc i) c'" using c'(1) by blast
  qed
  then show ?thesis by (auto simp: clm_iefb_group_fsm_event_all_def)
qed

lemma common_event_all_inv:
  assumes "clm_inv clm" "ev \<in> common_events"
  shows "\<exists>clm'. clm_iefb_group_fsm_event_all now clock ev clm = Returns clm' \<and> clm_inv clm' \<and> clm_config clm' = clm_config clm \<and>
    (\<forall>gi. gd_memory_area (clm_groups clm' ! gi) = gd_memory_area (clm_groups clm ! gi)) \<and>
    (\<forall>gi < number_of_groups clm. state_of_group clm' gi = group_target ev (state_of_group clm gi))"
proof -
  have inv: "groups_inv clm" "arbitration_inv clm" using assms(1) by (simp_all add: clm_inv_def)
  from common_event_all [OF inv(1) assms(2), of now clock] obtain c where
    c: "clm_iefb_group_fsm_event_all now clock ev clm = Returns c" "groups_inv c" "clm_config c = clm_config clm"
      "\<forall>gi < number_of_groups clm. state_of_group c gi = group_target ev (state_of_group clm gi)"
      "(\<forall>gi < number_of_groups clm. group_target ev (state_of_group clm gi) = state_of_group clm gi) \<longrightarrow> c = clm"
      "\<forall>gi. gd_memory_area (clm_groups c ! gi) = gd_memory_area (clm_groups clm ! gi)" by blast
  have "arbitration_inv c"
  proof (cases "ev = CLM_GROUP_EVENT_MASTERDUPL_ALARM \<and> (\<exists>gi < number_of_groups clm. state_of_group clm gi = CLM_GROUP_STATE_MASTER_ARBITRATION)")
    case True
    then have "\<forall>gi < number_of_groups clm. state_of_group clm gi = CLM_GROUP_STATE_MASTER_ARBITRATION"
      using inv(2) unfolding arbitration_inv_def by blast
    then have "\<forall>gi < number_of_groups clm. group_target ev (state_of_group clm gi) = state_of_group clm gi"
      using True by (simp add: group_target_def)
    then show ?thesis using c(5) inv(2) by simp
  next
    case False
    then have "\<forall>gi < number_of_groups clm. state_of_group c gi \<noteq> CLM_GROUP_STATE_MASTER_ARBITRATION"
      using c(4) group_target_arbitration [OF assms(2)] by auto
    then show ?thesis using c(3) by (simp add: arbitration_inv_def)
  qed
  then show ?thesis using c by (auto simp: clm_inv_def)
qed

end
