(* ===== verification/CL_Signals.thy ===== *)
theory CL_Signals
  imports CL_IEFB
begin

text \<open>
  Bits and registers of the cyclic data areas. The locale \<open>signal_area\<close> is the contract that an
  application relies on when it reads and writes them through the API of the slave or of the master:
  a write changes exactly one signal, and an index outside the areas hits an assertion. It is
  interpreted on the accessor functions of the slave and of the master.
\<close>

section \<open>Positions\<close>

definition change_bit :: "bool \<Rightarrow> u8 \<Rightarrow> u8 \<Rightarrow> u8" where
  "change_bit value m b = (if value then b OR m else b AND NOT m)"

lemma bit_position:
  assumes "cl_iefb_bit_calculate_areanumber number = (area, byte, m)"
  shows "unat area * sizeof_bit_area + unat byte = unat number div 8"
    "m = push_bit (unat number mod 8) 1"
proof -
  have "unat number div 64 * 8 + unat number mod 64 div 8 = unat number div 8"
    by (simp add: mod_mult2_eq [of _ 8 8, simplified] div_mult2_eq [of _ 8 8, simplified])
  with bit_area_number [OF assms] show "unat area * sizeof_bit_area + unat byte = unat number div 8"
    "m = push_bit (unat number mod 8) 1" by (simp_all add: sizeof_bit_area_def)
qed

lemma register_position:
  assumes "cl_iefb_register_calculate_areanumber number = (area, reg)"
  shows "unat area * sizeof_word_area + 2 * unat reg = 2 * unat number"
proof -
  have "unat number div 32 * 64 + 2 * (unat number mod 32) = 2 * unat number"
    using div_mult_mod_eq [of "unat number" 32] by linarith
  then show ?thesis using register_area_number [OF assms] by (simp add: sizeof_word_area_def)
qed

lemma change_bit_read:
  assumes "k < 8"
  shows "(change_bit v (push_bit k 1) b AND push_bit l 1 > 0) \<longleftrightarrow> (if l = k then v else bit b l)"
  unfolding bit_single
  using assms by (auto simp: change_bit_def bit_simps dest: bit_imp_le_length)

text \<open>Two different signal numbers differ in the byte or in the bit.\<close>

lemma bit_numbers_apart:
  fixes i j :: u16
  shows "i \<noteq> j \<longleftrightarrow> unat i div 8 \<noteq> unat j div 8 \<or> unat i mod 8 \<noteq> unat j mod 8"
  by (metis div_mult_mod_eq word_unat_eq_iff)

lemma changed_bit_buffer:
  assumes "base + unat i div 8 < length buf"
  shows "(buf[base + unat i div 8 := change_bit v (push_bit (unat i mod 8) 1) (buf ! (base + unat i div 8))]
      ! (base + unat (j :: u16) div 8) AND push_bit (unat j mod 8) 1 > 0) \<longleftrightarrow>
    (if j = (i :: u16) then v else bit (buf ! (base + unat j div 8)) (unat j mod 8))"
proof (cases "unat j div 8 = unat i div 8")
  case True
  then have "j = i \<longleftrightarrow> unat j mod 8 = unat i mod 8" using bit_numbers_apart [of i j] by metis
  then show ?thesis
    using True assms change_bit_read [of "unat i mod 8" v "buf ! (base + unat i div 8)" "unat j mod 8"]
    by (simp del: push_bit_of_1)
next
  case False
  then show ?thesis using bit_single [of "buf ! (base + unat j div 8)" "unat j mod 8"]
    by (auto simp del: push_bit_of_1)
qed

lemma le16_at_put:
  assumes "i + 2 \<le> length buf"
  shows "le16_at (put_bytes buf i (le16_bytes v)) i = v"
  unfolding put_bytes_def using assms by (intro le16_at_append) simp

lemma le16_at_put_other:
  assumes "i + 2 \<le> length buf" "j + 2 \<le> length buf" "i + 2 \<le> j \<or> j + 2 \<le> i"
  shows "le16_at (put_bytes buf i (le16_bytes v)) j = le16_at buf j"
  using assms by (auto simp: le16_at_def nth_put_bytes)

lemma changed_register_buffer:
  assumes "base + 2 * unat (i :: u16) + 2 \<le> length buf" "base + 2 * unat (j :: u16) + 2 \<le> length buf"
  shows "le16_at (put_bytes buf (base + 2 * unat i) (le16_bytes v)) (base + 2 * unat j) =
    (if j = i then v else le16_at buf (base + 2 * unat j))"
proof (cases "i = j")
  case True then show ?thesis using assms by (simp add: le16_at_put)
next
  case False
  then have "unat i \<noteq> unat j" by (simp add: word_unat_eq_iff)
  then have "base + 2 * unat i + 2 \<le> base + 2 * unat j \<or> base + 2 * unat j + 2 \<le> base + 2 * unat i"
    by linarith
  with False assms show ?thesis by (simp add: le16_at_put_other)
qed

section \<open>The contract\<close>

primrec write_all :: "('i \<Rightarrow> 'v \<Rightarrow> 's \<Rightarrow> 's outcome) \<Rightarrow> ('i \<times> 'v) list \<Rightarrow> 's \<Rightarrow> 's outcome" where
  "write_all wr [] s = Returns s"
| "write_all wr (x # xs) s = obind (wr (fst x) (snd x) s) (write_all wr xs)"

text \<open>The abstract specification of the signals is a partial map from their numbers to their values.\<close>

definition signal_view :: "('i \<Rightarrow> 's \<Rightarrow> 'v outcome) \<Rightarrow> 's \<Rightarrow> 'i \<Rightarrow> 'v option" where
  "signal_view rd s i = (case rd i s of Returns v \<Rightarrow> Some v | _ \<Rightarrow> None)"

locale signal_area =
  fixes rd :: "'i \<Rightarrow> 's \<Rightarrow> 'v outcome"
    and wr :: "'i \<Rightarrow> 'v \<Rightarrow> 's \<Rightarrow> 's outcome"
    and valid :: "'i \<Rightarrow> 's \<Rightarrow> bool"
    and inv :: "'s \<Rightarrow> bool"
  assumes write_ok: "inv s \<Longrightarrow> valid i s \<Longrightarrow>
      \<exists>s'. wr i v s = Returns s' \<and> inv s' \<and> (\<forall>j. valid j s' = valid j s)"
    and read_write: "inv s \<Longrightarrow> valid i s \<Longrightarrow> valid j s \<Longrightarrow> wr i v s = Returns s' \<Longrightarrow>
      rd j s' = (if j = i then Returns v else rd j s)"
    and read_ok: "inv s \<Longrightarrow> valid i s \<Longrightarrow> \<exists>v. rd i s = Returns v"
    and invalid: "\<not> valid i s \<Longrightarrow> rd i s = Assert_Failed \<and> wr i v s = Assert_Failed"
begin

lemma write_asserts_iff: "inv s \<Longrightarrow> wr i v s = Assert_Failed \<longleftrightarrow> \<not> valid i s"
  using write_ok [of s i v] invalid [of i s v] by auto

lemma write_all_read_back:
  assumes "inv s" "\<forall>x \<in> set xs. valid (fst x) s"
  shows "\<exists>s'. write_all wr xs s = Returns s' \<and> inv s' \<and> (\<forall>j. valid j s' = valid j s) \<and>
    (\<forall>j. valid j s \<longrightarrow> rd j s' = (case map_of (rev xs) j of Some v \<Rightarrow> Returns v | None \<Rightarrow> rd j s))"
  using assms
proof (induction xs arbitrary: s)
  case (Cons x xs)
  obtain i v where x: "x = (i, v)" by (cases x)
  from write_ok [of s i v] Cons.prems x obtain t where
    t: "wr i v s = Returns t" "inv t" "\<forall>j. valid j t = valid j s" by auto
  moreover have "\<forall>x \<in> set xs. valid (fst x) t" using t(3) Cons.prems by simp
  ultimately obtain s' where s': "write_all wr xs t = Returns s'" "inv s'" "\<forall>j. valid j s' = valid j t"
    "\<forall>j. valid j t \<longrightarrow> rd j s' = (case map_of (rev xs) j of Some v \<Rightarrow> Returns v | None \<Rightarrow> rd j t)"
    using Cons.IH by blast
  have "rd j s' = (case map_of (rev (x # xs)) j of Some v \<Rightarrow> Returns v | None \<Rightarrow> rd j s)" if "valid j s" for j
    using s'(4) t Cons.prems x that read_write [of s i j v t]
    by (auto simp: map_add_def split: option.splits)
  with t s' x show ?case by auto
qed simp

text \<open>Writes leave alone what each single write leaves alone.\<close>

lemma write_all_keeps:
  assumes "write_all wr xs s = Returns s'" "inv s"
    and step: "\<And>i v t t'. inv t \<Longrightarrow> valid i t \<Longrightarrow> wr i v t = Returns t' \<Longrightarrow> q t' = q t"
  shows "q s' = q s"
  using assms(1,2)
proof (induction xs arbitrary: s)
  case (Cons x xs)
  then obtain t where t: "wr (fst x) (snd x) s = Returns t" "write_all wr xs t = Returns s'" by (auto simp: obind_Returns_iff)
  have v: "valid (fst x) s" using invalid [of "fst x" s "snd x"] t(1) by auto
  then have "inv t" using write_ok [OF Cons.prems(2) v, of "snd x"] t(1) by auto
  then show ?case using Cons.IH [OF t(2)] step [OF Cons.prems(2) v t(1)] by simp
qed simp
lemma dom_view: "inv s \<Longrightarrow> i \<in> dom (signal_view rd s) \<longleftrightarrow> valid i s"
  using read_ok [of s i] invalid [of i s] by (cases "valid i s") (auto simp: signal_view_def dom_def)

lemma view_write_all:
  assumes "inv s" "fst ` set xs \<subseteq> dom (signal_view rd s)"
  shows "\<exists>s'. write_all wr xs s = Returns s' \<and> inv s' \<and> signal_view rd s' = signal_view rd s ++ map_of (rev xs)"
proof -
  have "\<forall>x \<in> set xs. valid (fst x) s" using assms dom_view [OF assms(1)] by auto
  from write_all_read_back [OF assms(1) this] obtain s' where
    s': "write_all wr xs s = Returns s'" "inv s'" "\<forall>j. valid j s' = valid j s"
      "\<forall>j. valid j s \<longrightarrow> rd j s' = (case map_of (rev xs) j of Some v \<Rightarrow> Returns v | None \<Rightarrow> rd j s)" by blast
  have "signal_view rd s' j = (signal_view rd s ++ map_of (rev xs)) j" for j
  proof (cases "valid j s")
    case True
    then show ?thesis using s'(4) by (simp add: signal_view_def map_add_def split: option.split)
  next
    case False
    then have "map_of (rev xs) j = None" using \<open>\<forall>x \<in> set xs. valid (fst x) s\<close> by (force simp: map_of_eq_None_iff)
    then show ?thesis using False s'(3) invalid by (simp add: signal_view_def map_add_def)
  qed
  then show ?thesis using s'(1,2) by blast
qed

end

end
