(* ===== verification/CLM_IEFB.thy ===== *)
theory CLM_IEFB
  imports CLM_Events CL_Signals
begin

text \<open>
  The rest of the CCIEFB part of the master stack (\<open>src/master/clm_iefb.c\<close>): handling of received
  frames, access to cyclic data, status functions, the periodic function and initialisation.

  Opening and reading sockets are arguments: a periodic call gets the datagram waiting on the
  arbitration socket, if any, and the datagrams waiting on the other socket.
\<close>

type_synonym clm_datagram = "bytes \<times> u32 \<times> u16"

section \<open>Received frames\<close>

definition upd_dev :: "nat \<Rightarrow> nat \<Rightarrow> (clm_slave_device_data \<Rightarrow> clm_slave_device_data) \<Rightarrow> clm \<Rightarrow> clm" where
  "upd_dev gi di f clm = set_group gi (upd_device di f (clm_groups clm ! gi)) clm"

definition count_invalid :: "nat \<Rightarrow> nat \<Rightarrow> clm \<Rightarrow> clm" where
  "count_invalid gi di = upd_dev gi di (upd_statistics (\<lambda>st. st\<lparr>st_number_of_incoming_invalid_frames :=
     st_number_of_incoming_invalid_frames st + 1\<rparr>))"

definition count_alarm :: "nat \<Rightarrow> nat \<Rightarrow> clm \<Rightarrow> clm" where
  "count_alarm gi di = upd_dev gi di (upd_statistics (\<lambda>st. st\<lparr>st_number_of_incoming_alarm_frames :=
     st_number_of_incoming_alarm_frames st + 1\<rparr>))"

text \<open>The two end codes that are reported even when the frame is rejected later.\<close>

definition response_errors :: "u32 \<Rightarrow> nat \<Rightarrow> nat \<Rightarrow> u16 \<Rightarrow> u32 \<Rightarrow> clm \<Rightarrow> clm" where
  "response_errors now gi di end_code remote_ip clm =
     (let clm = (if end_code = CL_SLMP_ENDCODE_CCIEFB_WRONG_NUMBER_OCCUPIED_STATIONS
            then clm_iefb_trigger_error_callback now CLM_ERROR_SLAVE_REPORTS_WRONG_NUMBER_OCCUPIED remote_ip 0
                   (count_alarm gi di clm)
            else clm)
      in if end_code = CL_SLMP_ENDCODE_CCIEFB_MASTER_DUPLICATION
         then clm_iefb_trigger_error_callback now CLM_ERROR_SLAVE_REPORTS_MASTER_DUPLICATION remote_ip 0
                (count_alarm gi di clm)
         else clm)"

text \<open>Alarm frames and changed information are reported to the application.\<close>

definition response_notify :: "nat \<Rightarrow> nat \<Rightarrow> u16 \<Rightarrow> u16 \<Rightarrow> u32 \<Rightarrow> clm \<Rightarrow> clm" where
  "response_notify gi di end_code slave_err_code local_management_info clm =
     (let latest = dd_latest_frame (gd_slave_devices (clm_groups clm ! gi) ! di);
          clm = (if end_code = CL_SLMP_ENDCODE_CCIEFB_SLAVE_ERROR \<or>
                    end_code = CL_SLMP_ENDCODE_CCIEFB_SLAVE_REQUESTS_DISCONNECT
                 then (let clm = count_alarm gi di clm in
                       if end_code \<noteq> fv_end_code latest
                       then clm_iefb_trigger_alarmframe_callback gi di end_code slave_err_code local_management_info clm
                       else clm)
                 else clm)
      in if fv_has_been_received latest \<and>
            (slave_err_code \<noteq> fv_slave_err_code latest \<or> local_management_info \<noteq> fv_local_management_info latest)
         then clm_iefb_trigger_slaveinfo_callback gi di end_code slave_err_code local_management_info clm
         else clm)"

text \<open>Header values, statistics and cyclic data are stored.\<close>

definition response_store :: "nat \<Rightarrow> nat \<Rightarrow> clm_cciefb_cyclic_response_info \<Rightarrow> clm \<Rightarrow> clm" where
  "response_store gi di cyclic_response clm =
     (let g = clm_groups clm ! gi;
          d = gd_slave_devices g ! di;
          ds = gs_slave_devices (hi_groups (mc_hier (clm_config clm)) ! gi) ! di;
          latest = clm_iefb_store_incoming_slave_runtime_info cyclic_response (gd_timestamp_link_scan_start g);
          g = upd_device di (\<lambda>d. d\<lparr>dd_latest_frame := latest\<rparr>) g;
          g = upd_device di (upd_statistics (clm_iefb_statistics_update_response_time
                (mc_max_statistics_samples (clm_config clm)) (fv_response_time latest))) g
      in set_group gi (g\<lparr>gd_memory_area := clm_iefb_store_incoming_cyclic_data cyclic_response
           (dd_slave_station_no d) (sd_num_occupied_stations ds) (dd_transmission_bit d) (gd_memory_area g)\<rparr>) clm)"

text \<open>The state machines are informed.\<close>

definition response_events :: "u32 \<Rightarrow> (nat \<Rightarrow> u64) \<Rightarrow> nat \<Rightarrow> nat \<Rightarrow> u16 \<Rightarrow> clm \<Rightarrow> clm outcome" where
  "response_events now clock gi di end_code clm =
     (if end_code = CL_SLMP_ENDCODE_CCIEFB_MASTER_DUPLICATION
      then clm_iefb_group_fsm_event_all now clock CLM_GROUP_EVENT_MASTERDUPL_ALARM clm
      else
        (let event = (if end_code = CL_SLMP_ENDCODE_SUCCESS then CLM_DEVICE_EVENT_RECEIVE_OK
                      else CLM_DEVICE_EVENT_RECEIVE_ERROR)
         in obind (on_group gi (clm_iefb_device_fsm_event clm di event) clm) (\<lambda>clm.
            if clm_iefb_group_have_received_from_all_devices (hi_groups (mc_hier (clm_config clm)) ! gi)
                 (clm_groups clm ! gi)
            then clm_iefb_group_fsm_event now clock gi CLM_GROUP_EVENT_LINKSCAN_COMPLETE clm
            else Returns clm)))"

text \<open>The checks of a response of device \<open>di\<close> in group \<open>gi\<close>, once it is parsed.\<close>

definition handle_device_response ::
  "u32 \<Rightarrow> (nat \<Rightarrow> u64) \<Rightarrow> nat \<Rightarrow> nat \<Rightarrow> clm_cciefb_cyclic_response_info \<Rightarrow> clm \<Rightarrow> (bool \<times> clm) outcome" where
  "handle_device_response now clock gi di cyclic_response clm =
     (let headers = rp_full_headers cyclic_response;
          remote_ip = rp_remote_ip cyclic_response;
          clm = upd_dev gi di (upd_statistics (\<lambda>st. st\<lparr>st_number_of_incoming_frames :=
                  st_number_of_incoming_frames st + 1\<rparr>)) clm;
          g = clm_groups clm ! gi;
          d = gd_slave_devices g ! di;
          latest = dd_latest_frame d;
          ds = gs_slave_devices (hi_groups (mc_hier (clm_config clm)) ! gi) ! di;
          frame_sequence_no = sdh_frame_sequence_no (sf_cyclic_data_header headers)
      in if \<not> dd_enabled d then Returns (False, count_invalid gi di clm)
         else if fv_has_been_received latest \<and> frame_sequence_no = fv_frame_sequence_no latest \<and>
                 dd_device_state d \<noteq> CLM_DEVICE_STATE_LISTEN
         then (let clm = clm_iefb_trigger_error_callback now CLM_ERROR_SLAVE_DUPLICATION remote_ip 0
                           (count_invalid gi di clm)
               in obind (on_group gi (clm_iefb_device_fsm_event clm di CLM_DEVICE_EVENT_SLAVE_DUPLICATION) clm) (\<lambda>clm.
                  Returns (False, clm)))
         else if dd_transmission_bit d \<and> frame_sequence_no \<noteq> gd_frame_sequence_no g
         then Returns (False, count_invalid gi di clm)
         else
           (let end_code = csh_end_code (sf_cyclic_header headers);
                slave_err_code = sn_slave_err_code (sf_slave_station_notification headers);
                local_management_info = sn_local_management_info (sf_slave_station_notification headers);
                clm = response_errors now gi di end_code remote_ip clm
            in if rp_number_of_occupied cyclic_response \<noteq> sd_num_occupied_stations ds
               then Returns (False, count_invalid gi di clm)
               else obind (response_events now clock gi di end_code
                      (response_store gi di cyclic_response
                        (response_notify gi di end_code slave_err_code local_management_info clm))) (\<lambda>clm.
                    Returns (True, clm))))"

definition clm_iefb_handle_response_frame ::
  "u32 \<Rightarrow> (nat \<Rightarrow> u64) \<Rightarrow> bytes \<Rightarrow> u32 \<Rightarrow> u16 \<Rightarrow> clm \<Rightarrow> (bool \<times> clm) outcome" where
  "clm_iefb_handle_response_frame now clock buffer remote_ip remote_port clm =
     (if mc_master_id (clm_config clm) = CL_IPADDR_INVALID then Returns (False, clm)
      else obind (cl_iefb_parse_cyclic_response buffer remote_ip remote_port now) (\<lambda>parsed_response.
        case parsed_response of None \<Rightarrow> Returns (False, clm)
        | Some cyclic_response \<Rightarrow>
            (let group_no = unat (sdh_group_no (sf_cyclic_data_header (rp_full_headers cyclic_response))) in
             if group_no > hi_number_of_groups (mc_hier (clm_config clm)) then Returns (False, clm)
             else
               (let group_index = group_no - 1;
                    gs = hi_groups (mc_hier (clm_config clm)) ! group_index
                in case clm_iefb_calc_slave_device_index gs remote_ip of
                     None \<Rightarrow> Returns (False, clm)
                   | Some di \<Rightarrow> handle_device_response now clock group_index di
                       (cyclic_response\<lparr>rp_device_index := di\<rparr>) clm))))"

definition clm_iefb_handle_request_frame :: "u32 \<Rightarrow> (nat \<Rightarrow> u64) \<Rightarrow> u32 \<Rightarrow> clm \<Rightarrow> (bool \<times> clm) outcome" where
  "clm_iefb_handle_request_frame now clock remote_ip clm =
     obind (clm_iefb_group_fsm_event_all now clock CLM_GROUP_EVENT_REQ_FROM_OTHER
              (clm\<lparr>clm_latest_conflicting_master_ip := remote_ip\<rparr>)) (\<lambda>clm. Returns (True, clm))"

definition clm_iefb_handle_input_frame ::
  "u32 \<Rightarrow> (nat \<Rightarrow> u64) \<Rightarrow> bytes \<Rightarrow> u32 \<Rightarrow> u16 \<Rightarrow> clm \<Rightarrow> (bool \<times> clm) outcome" where
  "clm_iefb_handle_input_frame now clock buffer remote_ip remote_port clm =
     (if remote_ip = mc_master_id (clm_config clm) then Returns (True, clm)
      else case cl_iefb_parse_response_header buffer of
        None \<Rightarrow> Returns (False, clm)
      | Some response_header \<Rightarrow>
          if \<not> cl_iefb_validate_response_header response_header (length buffer) then
            (case cl_iefb_parse_request_header buffer of
               None \<Rightarrow> Returns (False, clm)
             | Some request_header \<Rightarrow>
                 if \<not> cl_iefb_validate_request_header request_header (length buffer) then Returns (False, clm)
                 else if rqh_command request_header \<noteq> CL_SLMP_COMMAND_CCIEFB_CYCLIC \<or>
                         rqh_sub_command request_header \<noteq> CL_SLMP_SUBCOMMAND_CCIEFB_CYCLIC then Returns (False, clm)
                 else clm_iefb_handle_request_frame now clock remote_ip clm)
          else clm_iefb_handle_response_frame now clock buffer remote_ip remote_port clm)"

section \<open>Access to cyclic data\<close>

text \<open>
  A pointer into a memory area is the number of stations before it; \<open>None\<close> is \<open>NULL\<close>. The second
  component is the number of stations that the function returns or stores through its pointer.
\<close>

definition clm_iefb_get_occupied_and_position :: "clm \<Rightarrow> nat \<Rightarrow> nat \<Rightarrow> nat \<times> nat" where
  "clm_iefb_get_occupied_and_position clm group_index slave_device_index =
     (let hier = mc_hier (clm_config clm) in
      if group_index \<ge> hi_number_of_groups hier then (0, 0)
      else if slave_device_index \<ge> gs_num_slave_devices (hi_groups hier ! group_index) then (0, 0)
      else (sd_num_occupied_stations (gs_slave_devices (hi_groups hier ! group_index) ! slave_device_index),
            dd_slave_station_no (gd_slave_devices (clm_groups clm ! group_index) ! slave_device_index) - 1))"

definition clm_iefb_get_first_rx_area :: "clm \<Rightarrow> nat \<Rightarrow> nat option \<times> nat" where
  "clm_iefb_get_first_rx_area clm group_index =
     (if group_index \<ge> hi_number_of_groups (mc_hier (clm_config clm)) then (None, 0)
      else (Some 0, gd_total_occupied (clm_groups clm ! group_index)))"

definition clm_iefb_get_first_ry_area :: "clm \<Rightarrow> nat \<Rightarrow> nat option \<times> nat" where
  "clm_iefb_get_first_ry_area clm group_index =
     (if group_index \<ge> hi_number_of_groups (mc_hier (clm_config clm)) then (None, 0)
      else (Some 0, gd_total_occupied (clm_groups clm ! group_index)))"

definition clm_iefb_get_first_rwr_area :: "clm \<Rightarrow> nat \<Rightarrow> nat option \<times> nat" where
  "clm_iefb_get_first_rwr_area clm group_index =
     (if group_index \<ge> hi_number_of_groups (mc_hier (clm_config clm)) then (None, 0)
      else (Some 0, gd_total_occupied (clm_groups clm ! group_index)))"

definition clm_iefb_get_first_rww_area :: "clm \<Rightarrow> nat \<Rightarrow> nat option \<times> nat" where
  "clm_iefb_get_first_rww_area clm group_index =
     (if group_index \<ge> hi_number_of_groups (mc_hier (clm_config clm)) then (None, 0)
      else (Some 0, gd_total_occupied (clm_groups clm ! group_index)))"

text \<open>The four functions for the areas of one device differ in the group function they call.\<close>

definition device_area :: "(clm \<Rightarrow> nat \<Rightarrow> nat option \<times> nat) \<Rightarrow> clm \<Rightarrow> nat \<Rightarrow> nat \<Rightarrow> (nat option \<times> nat) outcome" where
  "device_area first_area clm group_index slave_device_index =
     (let (occupied, pos) = clm_iefb_get_occupied_and_position clm group_index slave_device_index in
      if occupied = 0 then Returns (None, 0)
      else case fst (first_area clm group_index) of
             None \<Rightarrow> Assert_Failed
           | Some first_group_area \<Rightarrow> Returns (Some (first_group_area + pos), occupied))"

definition clm_iefb_get_first_device_rx_area :: "clm \<Rightarrow> nat \<Rightarrow> nat \<Rightarrow> (nat option \<times> nat) outcome" where
  "clm_iefb_get_first_device_rx_area = device_area clm_iefb_get_first_rx_area"

definition clm_iefb_get_first_device_ry_area :: "clm \<Rightarrow> nat \<Rightarrow> nat \<Rightarrow> (nat option \<times> nat) outcome" where
  "clm_iefb_get_first_device_ry_area = device_area clm_iefb_get_first_ry_area"

definition clm_iefb_get_first_device_rwr_area :: "clm \<Rightarrow> nat \<Rightarrow> nat \<Rightarrow> (nat option \<times> nat) outcome" where
  "clm_iefb_get_first_device_rwr_area = device_area clm_iefb_get_first_rwr_area"

definition clm_iefb_get_first_device_rww_area :: "clm \<Rightarrow> nat \<Rightarrow> nat \<Rightarrow> (nat option \<times> nat) outcome" where
  "clm_iefb_get_first_device_rww_area = device_area clm_iefb_get_first_rww_area"

text \<open>
  The two assertions of each access function: the device exists, and the area is one of its areas. A
  device that exists has a first area; its position is then passed on.
\<close>

definition with_area :: "(nat option \<times> nat) outcome \<Rightarrow> u16 \<Rightarrow> (nat \<Rightarrow> 'a outcome) \<Rightarrow> 'a outcome" where
  "with_area area areanumber k =
     obind area (\<lambda>(first_area, num_occupied_stations).
       cc_assert (num_occupied_stations \<noteq> 0) (cc_assert (unat areanumber < num_occupied_stations)
         (case first_area of None \<Rightarrow> Assert_Failed | Some first_area \<Rightarrow> k (first_area + unat areanumber))))"

definition clm_iefb_get_rx_bit :: "clm \<Rightarrow> nat \<Rightarrow> nat \<Rightarrow> u16 \<Rightarrow> bool outcome" where
  "clm_iefb_get_rx_bit clm group_index slave_device_index number =
     (let (areanumber, byte_in_area, m) = cl_iefb_bit_calculate_areanumber number in
      with_area (clm_iefb_get_first_device_rx_area clm group_index slave_device_index) areanumber (\<lambda>area.
        Returns (mem_rx (gd_memory_area (clm_groups clm ! group_index)) !
          (area * sizeof_bit_area + unat byte_in_area) AND m > 0)))"

definition clm_iefb_set_ry_bit :: "nat \<Rightarrow> nat \<Rightarrow> u16 \<Rightarrow> bool \<Rightarrow> clm \<Rightarrow> clm outcome" where
  "clm_iefb_set_ry_bit group_index slave_device_index number value clm =
     (let (areanumber, byte_in_area, m) = cl_iefb_bit_calculate_areanumber number in
      with_area (clm_iefb_get_first_device_ry_area clm group_index slave_device_index) areanumber (\<lambda>area.
        let g = clm_groups clm ! group_index;
            mem = gd_memory_area g;
            pos = area * sizeof_bit_area + unat byte_in_area
        in Returns (set_group group_index (g\<lparr>gd_memory_area := mem\<lparr>mem_ry :=
             (mem_ry mem)[pos := change_bit value m (mem_ry mem ! pos)]\<rparr>\<rparr>) clm)))"

definition clm_iefb_get_ry_bit :: "clm \<Rightarrow> nat \<Rightarrow> nat \<Rightarrow> u16 \<Rightarrow> bool outcome" where
  "clm_iefb_get_ry_bit clm group_index slave_device_index number =
     (let (areanumber, byte_in_area, m) = cl_iefb_bit_calculate_areanumber number in
      with_area (clm_iefb_get_first_device_ry_area clm group_index slave_device_index) areanumber (\<lambda>area.
        Returns (mem_ry (gd_memory_area (clm_groups clm ! group_index)) !
          (area * sizeof_bit_area + unat byte_in_area) AND m > 0)))"

definition clm_iefb_get_rwr_value :: "clm \<Rightarrow> nat \<Rightarrow> nat \<Rightarrow> u16 \<Rightarrow> u16 outcome" where
  "clm_iefb_get_rwr_value clm group_index slave_device_index number =
     (let (areanumber, register_in_area) = cl_iefb_register_calculate_areanumber number in
      with_area (clm_iefb_get_first_device_rwr_area clm group_index slave_device_index) areanumber (\<lambda>area.
        Returns (le16_at (mem_rwr (gd_memory_area (clm_groups clm ! group_index)))
          (area * sizeof_word_area + 2 * unat register_in_area))))"

definition clm_iefb_set_rww_value :: "nat \<Rightarrow> nat \<Rightarrow> u16 \<Rightarrow> u16 \<Rightarrow> clm \<Rightarrow> clm outcome" where
  "clm_iefb_set_rww_value group_index slave_device_index number value clm =
     (let (areanumber, register_in_area) = cl_iefb_register_calculate_areanumber number in
      with_area (clm_iefb_get_first_device_rww_area clm group_index slave_device_index) areanumber (\<lambda>area.
        let g = clm_groups clm ! group_index; mem = gd_memory_area g in
        Returns (set_group group_index (g\<lparr>gd_memory_area := mem\<lparr>mem_rww :=
          put_bytes (mem_rww mem) (area * sizeof_word_area + 2 * unat register_in_area) (le16_bytes value)\<rparr>\<rparr>) clm)))"

definition clm_iefb_get_rww_value :: "clm \<Rightarrow> nat \<Rightarrow> nat \<Rightarrow> u16 \<Rightarrow> u16 outcome" where
  "clm_iefb_get_rww_value clm group_index slave_device_index number =
     (let (areanumber, register_in_area) = cl_iefb_register_calculate_areanumber number in
      with_area (clm_iefb_get_first_device_rww_area clm group_index slave_device_index) areanumber (\<lambda>area.
        Returns (le16_at (mem_rww (gd_memory_area (clm_groups clm ! group_index)))
          (area * sizeof_word_area + 2 * unat register_in_area))))"

section \<open>Status\<close>

definition clm_iefb_set_master_application_status :: "bool \<Rightarrow> bool \<Rightarrow> clm \<Rightarrow> clm" where
  "clm_iefb_set_master_application_status running stopped_by_user clm =
     clm\<lparr>clm_master_local_unit_info := clm_iefb_calc_master_local_unit_info
       (mc_protocol_ver (clm_config clm)) running stopped_by_user\<rparr>"

definition clm_iefb_get_master_application_status :: "clm \<Rightarrow> u16" where
  "clm_iefb_get_master_application_status clm = clm_master_local_unit_info clm"

definition device_exists :: "clm \<Rightarrow> nat \<Rightarrow> nat \<Rightarrow> bool" where
  "device_exists clm group_index slave_device_index =
     (let hier = mc_hier (clm_config clm) in
      if group_index \<ge> hi_number_of_groups hier then False
      else \<not> slave_device_index \<ge> gs_num_slave_devices (hi_groups hier ! group_index))"

definition clm_iefb_set_slave_communication_status :: "nat \<Rightarrow> nat \<Rightarrow> bool \<Rightarrow> clm \<Rightarrow> bool \<times> clm" where
  "clm_iefb_set_slave_communication_status group_index slave_device_index enabled clm =
     (if \<not> device_exists clm group_index slave_device_index then (False, clm)
      else (True, upd_dev group_index slave_device_index (\<lambda>d. d\<lparr>dd_enabled := enabled\<rparr>) clm))"

definition clm_iefb_force_cyclic_transmission_bit :: "nat \<Rightarrow> nat \<Rightarrow> bool \<Rightarrow> clm \<Rightarrow> bool \<times> clm" where
  "clm_iefb_force_cyclic_transmission_bit group_index slave_device_index force clm =
     (if \<not> device_exists clm group_index slave_device_index then (False, clm)
      else (True, upd_dev group_index slave_device_index (\<lambda>d. d\<lparr>dd_force_transmission_bit := force\<rparr>) clm))"

record clm_master_status_details =
  ms_master_state :: clm_master_state
  ms_parameter_no :: u16
  ms_node_search_serial :: int
  ms_set_ip_request_serial :: int

definition clm_iefb_get_master_status :: "clm \<Rightarrow> clm_master_status_details" where
  "clm_iefb_get_master_status clm =
     \<lparr>ms_master_state = clm_state clm, ms_parameter_no = clm_parameter_no clm,
      ms_node_search_serial = clm_node_search_serial clm, ms_set_ip_request_serial = clm_set_ip_request_serial clm\<rparr>"

record clm_group_status_details =
  gt_group_index :: nat
  gt_total_occupied :: nat
  gt_frame_sequence_no :: u16
  gt_cyclic_transmission_state :: u16
  gt_timestamp_link_scan_start :: u32
  gt_group_state :: clm_group_state

definition clm_iefb_get_group_status :: "clm \<Rightarrow> nat \<Rightarrow> clm_group_status_details option" where
  "clm_iefb_get_group_status clm group_index =
     (if group_index \<ge> hi_number_of_groups (mc_hier (clm_config clm)) then None
      else let g = clm_groups clm ! group_index in
        Some \<lparr>gt_group_index = gd_group_index g, gt_total_occupied = gd_total_occupied g,
          gt_frame_sequence_no = gd_frame_sequence_no g,
          gt_cyclic_transmission_state = gd_cyclic_transmission_state g,
          gt_timestamp_link_scan_start = gd_timestamp_link_scan_start g, gt_group_state = gd_group_state g\<rparr>)"

definition clm_iefb_get_device_connection_details :: "clm \<Rightarrow> nat \<Rightarrow> nat \<Rightarrow> clm_slave_device_data option" where
  "clm_iefb_get_device_connection_details clm group_index slave_device_index =
     (if \<not> device_exists clm group_index slave_device_index then None
      else Some (gd_slave_devices (clm_groups clm ! group_index) ! slave_device_index))"

definition clm_iefb_statistics_clear_all :: "clm \<Rightarrow> clm" where
  "clm_iefb_statistics_clear_all clm =
     (let hier = mc_hier (clm_config clm) in
      fold (\<lambda>gi clm. fold (\<lambda>di. upd_dev gi di (\<lambda>d. d\<lparr>dd_statistics := clm_iefb_statistics_clear,
                dd_latest_frame := clm_iefb_latest_received_clear\<rparr>))
              [0..<gs_num_slave_devices (hi_groups hier ! gi)] clm)
        [0..<hi_number_of_groups hier] clm)"

section \<open>Periodic function and initialisation\<close>

text \<open>The loop reads the socket until nothing is received; an empty datagram ends it too.\<close>

fun receive_all :: "u32 \<Rightarrow> (nat \<Rightarrow> u64) \<Rightarrow> clm_datagram list \<Rightarrow> clm \<Rightarrow> clm outcome" where
  "receive_all now clock [] clm = Returns clm"
| "receive_all now clock ((buffer, remote_ip, remote_port) # rest) clm =
     (if length buffer > 0
      then obind (clm_iefb_handle_input_frame now clock buffer remote_ip remote_port clm) (\<lambda>(_, clm).
             receive_all now clock rest clm)
      else Returns clm)"

definition clm_iefb_periodic ::
  "u32 \<Rightarrow> (nat \<Rightarrow> u64) \<Rightarrow> clm_datagram option \<Rightarrow> clm_datagram list \<Rightarrow> clm \<Rightarrow> clm outcome" where
  "clm_iefb_periodic now clock arbitration_datagram datagrams clm =
     (let clm = clm\<lparr>clm_errorlimiter := cl_limiter_periodic now (clm_errorlimiter clm)\<rparr> in
      obind (if cl_timer_is_expired (clm_arbitration_timer clm) now
             then clm_iefb_group_fsm_event_all now clock CLM_GROUP_EVENT_ARBITRATION_DONE
                    (clm\<lparr>clm_arbitration_timer := cl_timer_stop (clm_arbitration_timer clm)\<rparr>)
             else Returns clm) (\<lambda>clm.
      obind (clm_iefb_monitor_all_group_timers now clock clm) (\<lambda>clm.
      obind (if mc_use_separate_arbitration_socket (clm_config clm)
             then case arbitration_datagram of
                    Some (buffer, remote_ip, remote_port) \<Rightarrow>
                      if length buffer > 0
                      then obind (clm_iefb_handle_input_frame now clock buffer remote_ip remote_port clm) (\<lambda>(_, clm). Returns clm)
                      else Returns clm
                  | None \<Rightarrow> Returns clm
             else Returns clm) (\<lambda>clm.
      receive_all now clock datagrams clm))))"

text \<open>Memory that is cleared.\<close>

definition zero_timer :: cl_timer where
  "zero_timer = \<lparr>tm_state = CL_TIMER_STOPPED, tm_period = 0, tm_timestamp = 0\<rparr>"

definition zero_device :: clm_slave_device_data where
  "zero_device = \<lparr>dd_device_index = 0, dd_enabled = False, dd_transmission_bit = False,
     dd_force_transmission_bit = False, dd_timeout_count = 0, dd_slave_station_no = 0,
     dd_device_state = CLM_DEVICE_STATE_MASTER_DOWN, dd_latest_frame = clm_iefb_latest_received_clear,
     dd_statistics = clm_iefb_statistics_clear\<lparr>st_measured_time := \<lparr>ts_number_of_samples = 0, ts_sum = 0,
       ts_min = 0, ts_average = 0, ts_max = 0\<rparr>\<rparr>\<rparr>"

definition zero_group :: "nat \<Rightarrow> clm_group_data" where
  "zero_group max_stations = \<lparr>gd_group_index = 0, gd_total_occupied = 0, gd_frame_sequence_no = 0,
     gd_cyclic_transmission_state = 0, gd_timestamp_link_scan_start = 0,
     gd_group_state = CLM_GROUP_STATE_MASTER_DOWN, gd_response_wait_timer = zero_timer,
     gd_constant_linkscan_timer = zero_timer,
     gd_req_frame = \<lparr>mq_buffer = replicate CL_BUFFER_LEN 0, mq_udp_payload_len = 0, mq_first_slave_id = 0,
       mq_first_rww = 0, mq_first_ry = 0\<rparr>,
     gd_slave_devices = replicate max_stations zero_device,
     gd_memory_area = \<lparr>mem_rx = replicate (max_stations * sizeof_bit_area) 0,
       mem_ry = replicate (max_stations * sizeof_bit_area) 0,
       mem_rwr = replicate (max_stations * sizeof_word_area) 0,
       mem_rww = replicate (max_stations * sizeof_word_area) 0\<rparr>\<rparr>"

text \<open>\<open>socket_ok\<close> and \<open>arbitration_socket_ok\<close> say whether the sockets can be opened.\<close>

definition clm_iefb_init ::
  "nat \<Rightarrow> nat \<Rightarrow> u32 \<Rightarrow> (nat \<Rightarrow> u64) \<Rightarrow> bool \<Rightarrow> bool \<Rightarrow> clm \<Rightarrow> (bool \<times> clm) outcome" where
  "clm_iefb_init max_groups max_stations now clock socket_ok arbitration_socket_ok clm =
     (let clm = clm\<lparr>clm_errorlimiter := cl_limiter_init CLM_CCIEFB_ERRORCALLBACK_RETRIGGER_PERIOD
                  (clm_errorlimiter clm)\<rparr> in
      if \<not> socket_ok then Returns (False, clm)
      else if mc_use_separate_arbitration_socket (clm_config clm) \<and> \<not> arbitration_socket_ok
      then Returns (False, clm)
      else
        (let clm = clm\<lparr>clm_latest_conflicting_master_ip := CL_IPADDR_INVALID,
                   clm_state := CLM_MASTER_STATE_DOWN,
                   clm_master_local_unit_info := CL_CCIEFB_MASTER_LOCAL_UNIT_INFO_RUNNING,
                   clm_arbitration_timer := cl_timer_stop (clm_arbitration_timer clm)\<rparr>;
             clm = clm_iefb_device_fsm_tables_init clm;
             clm = clm_iefb_group_fsm_tables_init clm;
             clm = clm\<lparr>clm_groups := replicate max_groups (zero_group max_stations)\<rparr>;
             clm = fold (\<lambda>gi clm. set_group gi ((clm_groups clm ! gi)
                     \<lparr>gd_group_state := CLM_GROUP_STATE_MASTER_DOWN, gd_group_index := gi\<rparr>) clm)
                   [0..<hi_number_of_groups (mc_hier (clm_config clm))] clm
         in obind (clm_iefb_group_fsm_event_all now clock CLM_GROUP_EVENT_STARTUP clm) (\<lambda>clm.
            obind (clm_iefb_handle_new_config now clock clm) (\<lambda>clm. Returns (True, clm)))))"

end
