(* ===== verification/CLM_Invariant.thy ===== *)
theory CLM_Invariant
  imports CLM_IEFB
begin

text \<open>
  Every operation of the master keeps its invariant \<open>clm_inv\<close>: the group timers, received responses,
  requests of other masters, the periodic function and start-up.
\<close>

section \<open>Timers\<close>

text \<open>An event for one group, after its timers may have been changed.\<close>

lemma single_event:
  assumes inv: "clm_inv clm" and gi: "gi < number_of_groups clm" and st: "gd_group_state g = state_of_group clm gi"
    and en: "group_enabled (set_group gi g clm) gi ev (set_group gi g clm)"
    and ev: "ev \<in> {CLM_GROUP_EVENT_LINKSCAN_START, CLM_GROUP_EVENT_LINKSCAN_TIMEOUT, CLM_GROUP_EVENT_LINKSCAN_COMPLETE}"
  shows "\<exists>clm'. clm_iefb_group_fsm_event now clock gi ev (set_group gi g clm) = Returns clm' \<and> clm_inv clm' \<and>
    clm_config clm' = clm_config clm \<and> group_kept (set_group gi g clm) gi clm'"
proof -
  let ?c = "set_group gi g clm"
  from group_event_ok [OF en, of now clock] ev obtain c where
    c: "clm_iefb_group_fsm_event now clock gi ev ?c = Returns c" "group_kept ?c gi c" by auto
  have mo: "master_ok clm" "gi < length (clm_groups clm)" using inv gi by (simp_all add: clm_inv_def groups_inv_def master_ok_def)
  have k: "clm_config c = clm_config clm" "\<forall>j. j \<noteq> gi \<longrightarrow> clm_groups c ! j = clm_groups clm ! j" "master_ok c"
    "group_inv (clm_config clm) gi (clm_groups c ! gi)"
    using c(2) by (auto simp: group_kept_def only_group_def)
  have "groups_inv c" using inv k unfolding groups_inv_def clm_inv_def by metis
  moreover have "arbitration_inv c"
  proof (cases "state_of_group c gi = CLM_GROUP_STATE_MASTER_ARBITRATION")
    case True
    then have "c = ?c" using c(2) by (simp add: group_kept_def)
    then have "state_of_group c j = state_of_group clm j" for j using st mo(2) k(2) by (cases "j = gi") simp_all
    then show ?thesis using inv \<open>c = ?c\<close> by (simp add: clm_inv_def arbitration_inv_def)
  next
    case False
    have "group_find CLM_GROUP_STATE_MASTER_ARBITRATION ev = None" using ev by (auto simp: group_find_live)
    then have "state_of_group clm gi \<noteq> CLM_GROUP_STATE_MASTER_ARBITRATION"
      using group_event_idle [of ?c gi ev now clock] c(1) st mo False
      by (auto simp: master_ok_def group_tables_def)
    then have "\<forall>j < number_of_groups clm. state_of_group c j \<noteq> CLM_GROUP_STATE_MASTER_ARBITRATION"
      using inv gi k(2) False unfolding clm_inv_def arbitration_inv_def by metis
    then show ?thesis using k(1) by (simp add: arbitration_inv_def)
  qed
  ultimately show ?thesis using c k by (auto simp: clm_inv_def)
qed

text \<open>A link scan that times out is followed by the next one, with the next sequence number.\<close>

lemma timeout_restarts:
  assumes at: "at_group g gi clm" and st: "gd_group_state g = CLM_GROUP_STATE_MASTER_LINK_SCAN"
    and gs: "gs = hi_groups (mc_hier (clm_config clm)) ! gi"
  shows "\<exists>clm' g' ck outs. clm_iefb_group_fsm_event now clock gi CLM_GROUP_EVENT_LINKSCAN_TIMEOUT clm = Returns clm' \<and>
    only_group gi clm clm' \<and> clm_groups clm' ! gi = g' \<and>
    scan_started (clm_config clm) gi now ck (clm_master_local_unit_info clm)
      ((scan_ended gs CLM_DEVICE_EVENT_GROUP_TIMEOUT g)\<lparr>gd_group_state := CLM_GROUP_STATE_MASTER_LINK_SCAN\<rparr>) g' \<and>
    clm_out clm' = clm_out clm @ outs @ [Request_Sent (clm_iefb_broadcast_ip clm) (request_payload g')]"
proof -
  let ?h = "scan_ended gs CLM_DEVICE_EVENT_GROUP_TIMEOUT g"
  note d = at_groupD [OF at]
  from round_scan_timeout [OF at st gs, of now clock] obtain c where
    c: "group_round now clock gi CLM_GROUP_EVENT_LINKSCAN_TIMEOUT clm = Returns (CLM_GROUP_EVENT_LINKSCAN_START, c)"
      "only_group gi clm c" "clm_groups c ! gi = ?h" by blast
  have same: "clm_config c = clm_config clm" "clm_iefb_broadcast_ip c = clm_iefb_broadcast_ip clm"
    "clm_master_local_unit_info c = clm_master_local_unit_info clm" using c(2) by (simp_all add: only_group_def)
  obtain os where os: "clm_out c = clm_out clm @ os" using c(2) by (auto simp: only_group_def elim: prefixE)
  have p: "scan_pending (clm_config c) gi ?h" using scan_ended_pending [OF d(5) gs] same by simp
  then have at': "at_group ?h gi c" using only_group_ok [OF c(2) d(7)] d(8) c(3) same by (simp add: at_group_def scan_pending_def Let_def)
  from round_scan_start [OF at' p, of now clock] obtain g' outs where
    r: "group_round now clock gi CLM_GROUP_EVENT_LINKSCAN_START c = Returns (CLM_GROUP_EVENT_NONE,
      (set_group gi g' c)\<lparr>clm_out := clm_out c @ outs @ [Request_Sent (clm_iefb_broadcast_ip c) (request_payload g')]\<rparr>)"
      "scan_started (clm_config c) gi now (clock (length (clm_out c))) (clm_master_local_unit_info c)
        (?h\<lparr>gd_group_state := CLM_GROUP_STATE_MASTER_LINK_SCAN\<rparr>) g'" by blast
  let ?c' = "(set_group gi g' c)\<lparr>clm_out := clm_out clm @ (os @ outs) @ [Request_Sent (clm_iefb_broadcast_ip clm) (request_payload g')]\<rparr>"
  have "only_group gi c ?c'" using os by (simp add: only_group_def)
  then have "only_group gi clm ?c'" using only_group_trans [OF c(2)] by blast
  moreover have "clm_iefb_group_fsm_event now clock gi CLM_GROUP_EVENT_LINKSCAN_TIMEOUT clm = Returns ?c'"
    using group_event_follow_up [OF c(1) _ _ r(1)] same os by simp
  moreover have "clm_groups ?c' ! gi = g'" using at_groupD(3) [OF at'] by simp
  ultimately show ?thesis using r(2) unfolding same
    by (intro exI [of _ ?c'] exI [of _ g'] exI [of _ "clock (length (clm_out c))"] exI [of _ "os @ outs"]) simp
qed

lemma scan_period_positive:
  assumes "1 \<le> gs_timeout_value gs"
  shows "scan_period gs \<noteq> 0" "unat (scan_period gs) = 1000 * unat (gs_timeout_value gs)"
proof -
  have t: "unat (gs_timeout_value gs) < 2 ^ 16" "1 \<le> unat (gs_timeout_value gs)"
    using unat_less_pow(1) [of "gs_timeout_value gs"] assms by (simp_all add: word_le_nat_alt)
  have "unat (ucast (gs_timeout_value gs) :: u32) = unat (gs_timeout_value gs)" using t by (simp add: unsigned_ucast_eq take_bit_nat_eq_self)
  then show u: "unat (scan_period gs) = 1000 * unat (gs_timeout_value gs)"
    using t by (simp add: scan_period_def CL_TIMER_MICROSECONDS_PER_MILLISECOND_def unat_word_ariths)
  then show "scan_period gs \<noteq> 0" using t by (metis mult_is_0 not_one_le_zero unat_0 zero_neq_numeral)
qed

lemma started_not_expired: "p \<noteq> 0 \<Longrightarrow> \<not> cl_timer_is_expired (cl_timer_start p now t) now"
  by (simp add: expired_start_iff)

definition response_monitored :: "u32 \<Rightarrow> nat \<Rightarrow> clm \<Rightarrow> bool" where
  "response_monitored now gi clm \<longleftrightarrow> state_of_group clm gi = CLM_GROUP_STATE_MASTER_LINK_SCAN \<longrightarrow>
     \<not> cl_timer_is_expired (gd_response_wait_timer (clm_groups clm ! gi)) now"

lemma monitor_response_timer:
  assumes inv: "clm_inv clm" and gi: "gi < number_of_groups clm" and e: "cl_timer_is_expired (gd_response_wait_timer (clm_groups clm ! gi)) now"
  shows "\<exists>clm'. clm_iefb_group_fsm_event now clock gi CLM_GROUP_EVENT_LINKSCAN_TIMEOUT
      (set_group gi ((clm_groups clm ! gi)\<lparr>gd_response_wait_timer := cl_timer_stop (gd_response_wait_timer (clm_groups clm ! gi))\<rparr>) clm) =
        Returns clm' \<and> clm_inv clm' \<and> only_group gi clm clm' \<and> response_monitored now gi clm'"
proof -
  define g where "g = (clm_groups clm ! gi)\<lparr>gd_response_wait_timer := cl_timer_stop (gd_response_wait_timer (clm_groups clm ! gi))\<rparr>"
  let ?c = "set_group gi g clm" and ?gs = "hi_groups (mc_hier (clm_config clm)) ! gi"
  have mo: "master_ok clm" "gi < length (clm_groups clm)" "group_inv (clm_config clm) gi (clm_groups clm ! gi)"
    using inv gi by (simp_all add: clm_inv_def groups_inv_def master_ok_def)
  have mc: "master_ok ?c" using mo(1) only_group_ok [OF only_group_set] by blast
  have "group_inv (clm_config clm) gi (g\<lparr>gd_response_wait_timer := gd_response_wait_timer (clm_groups clm ! gi)\<rparr>)"
    using mo(3) by (simp add: g_def)
  then have "group_enabled ?c gi CLM_GROUP_EVENT_LINKSCAN_TIMEOUT ?c" using mc gi mo(2) by (auto simp: group_enabled_def Let_def)
  from single_event [OF inv gi _ this, of now clock] obtain c where
    c: "clm_iefb_group_fsm_event now clock gi CLM_GROUP_EVENT_LINKSCAN_TIMEOUT ?c = Returns c" "clm_inv c" "only_group gi clm c"
    using only_group_trans [OF only_group_set] by (auto simp: g_def group_kept_def)
  have "response_monitored now gi c"
  proof (cases "gd_group_state g = CLM_GROUP_STATE_MASTER_LINK_SCAN")
    case True
    have "group_ready (clm_config clm) gi g" using group_inv_ready [OF mo(3)] by (simp add: g_def group_ready_fields)
    then have at: "at_group g gi ?c" using mc gi mo(2) by (simp add: at_group_def)
    have p: "scan_period ?gs \<noteq> 0" using scan_period_positive(1) good_config_group(4) [OF _ gi refl] mo(1) by (auto simp: master_ok_def)
    from timeout_restarts [OF at True refl, of now clock] c(1) have
      "\<exists>t. gd_response_wait_timer (clm_groups c ! gi) = cl_timer_start (scan_period ?gs) now t"
      by (auto simp: scan_started_def Let_def)
    then show ?thesis using started_not_expired [OF p] by (auto simp: response_monitored_def)
  next
    case False
    have "gd_group_state g \<in> {CLM_GROUP_STATE_MASTER_LISTEN, CLM_GROUP_STATE_MASTER_ARBITRATION, CLM_GROUP_STATE_MASTER_LINK_SCAN_COMP}"
      using group_inv_states [OF mo(3)] False by (auto simp: g_def)
    then have "group_find (gd_group_state g) CLM_GROUP_EVENT_LINKSCAN_TIMEOUT = None" by (auto simp: group_find_live)
    then have "c = ?c" using group_event_idle [of ?c gi CLM_GROUP_EVENT_LINKSCAN_TIMEOUT now clock] mc mo(2) c(1)
      by (simp add: master_ok_def)
    then show ?thesis using False mo(2) by (simp add: response_monitored_def)
  qed
  then show ?thesis using c by (auto simp: g_def)
qed

lemma monitor_constant_timer:
  assumes inv: "clm_inv clm" and gi: "gi < number_of_groups clm" and m: "response_monitored now gi clm"
    and e: "cl_timer_is_expired (gd_constant_linkscan_timer (clm_groups clm ! gi)) now"
  shows "\<exists>clm'. clm_iefb_group_fsm_event now clock gi CLM_GROUP_EVENT_LINKSCAN_START
      (set_group gi ((clm_groups clm ! gi)\<lparr>gd_constant_linkscan_timer := cl_timer_stop (gd_constant_linkscan_timer (clm_groups clm ! gi))\<rparr>) clm) =
        Returns clm' \<and> clm_inv clm' \<and> only_group gi clm clm'"
proof -
  define g where "g = (clm_groups clm ! gi)\<lparr>gd_constant_linkscan_timer := cl_timer_stop (gd_constant_linkscan_timer (clm_groups clm ! gi))\<rparr>"
  let ?c = "set_group gi g clm"
  have mo: "master_ok clm" "gi < length (clm_groups clm)" "group_inv (clm_config clm) gi (clm_groups clm ! gi)"
    using inv gi by (simp_all add: clm_inv_def groups_inv_def master_ok_def)
  have mc: "master_ok ?c" using mo(1) only_group_ok [OF only_group_set] by blast
  have "group_inv (clm_config clm) gi g \<or> scan_pending (clm_config clm) gi g"
    using mo(3) m e unfolding group_inv_def Let_def
    by (auto simp: response_monitored_def scan_pending_def Let_def group_ready_fields devices_in_def g_def)
  then have "group_enabled ?c gi CLM_GROUP_EVENT_LINKSCAN_START ?c" using mc gi mo(2) by (auto simp: group_enabled_def Let_def)
  from single_event [OF inv gi _ this, of now clock] show ?thesis
    using only_group_trans [OF only_group_set] by (auto simp: g_def group_kept_def)
qed

lemma monitor_group_ok:
  assumes "clm_inv clm" "gi < number_of_groups clm"
  shows "\<exists>clm'. monitor_group_timers now clock gi clm = Returns clm' \<and> clm_inv clm' \<and> clm_config clm' = clm_config clm \<and>
    only_group gi clm clm'"
proof -
  obtain c where c: "(let g = clm_groups clm ! gi in
      if cl_timer_is_expired (gd_response_wait_timer g) now
      then clm_iefb_group_fsm_event now clock gi CLM_GROUP_EVENT_LINKSCAN_TIMEOUT
        (set_group gi (g\<lparr>gd_response_wait_timer := cl_timer_stop (gd_response_wait_timer g)\<rparr>) clm)
      else Returns clm) = Returns c" "clm_inv c" "only_group gi clm c" "response_monitored now gi c"
    using monitor_response_timer [OF assms, of now clock] assms(1)
    by (cases "cl_timer_is_expired (gd_response_wait_timer (clm_groups clm ! gi)) now") (auto simp: response_monitored_def Let_def)
  have cfg: "clm_config c = clm_config clm" using c(3) by (simp add: only_group_def)
  have "\<exists>clm'. monitor_group_timers now clock gi clm = Returns clm' \<and> clm_inv clm' \<and> only_group gi c clm'"
    unfolding monitor_group_timers_def c(1)
    using monitor_constant_timer [OF c(2) _ c(4), of clock] assms(2) c(2) cfg by (auto simp: Let_def)
  then obtain clm' where r: "monitor_group_timers now clock gi clm = Returns clm'" "clm_inv clm'" "only_group gi c clm'" by blast
  have o: "only_group gi clm clm'" by (rule only_group_trans [OF c(3) r(3)])
  then have "clm_config clm' = clm_config clm" by (simp add: only_group_def)
  then show ?thesis using r o by blast
qed

lemma monitor_all_ok:
  assumes "clm_inv clm"
  shows "\<exists>clm'. clm_iefb_monitor_all_group_timers now clock clm = Returns clm' \<and> clm_inv clm' \<and> clm_config clm' = clm_config clm"
  unfolding clm_iefb_monitor_all_group_timers_def
proof (rule for_each_inv [where P = "\<lambda>c. clm_inv c \<and> clm_config c = clm_config clm"])
  fix x c assume "x \<in> set [0..<number_of_groups clm]" "clm_inv c \<and> clm_config c = clm_config clm"
  then show "\<exists>c'. monitor_group_timers now clock x c = Returns c' \<and> clm_inv c' \<and> clm_config c' = clm_config clm"
    using monitor_group_ok [of c x now clock] by auto
qed (use assms in simp)

section \<open>Received responses\<close>

lemma parse_response_cases:
  assumes "length bs < 2 ^ 64"
  obtains (reject) "cl_iefb_parse_cyclic_response bs ip port now = Returns None"
  | (abort) "cl_iefb_parse_cyclic_response bs ip port now = Assert_Failed"
  | (accept) n where "cl_iefb_validate_resp_full_cyclic_headers (dec_resp_full_headers bs 0) (length bs) ip"
      "1 \<le> n" "n \<le> 16" "length bs = 59 + 72 * n"
      "cl_iefb_parse_cyclic_response bs ip port now =
        Returns (Some \<lparr>rp_remote_port = port, rp_remote_ip = ip, rp_number_of_occupied = n,
          rp_reception_timestamp = now, rp_device_index = 0, rp_buffer = bs, rp_full_headers = dec_resp_full_headers bs 0,
          rp_first_rwr = 59, rp_first_rx = 59 + 64 * n\<rparr>)"
proof (cases "59 \<le> length bs \<and> cl_iefb_validate_resp_full_cyclic_headers (dec_resp_full_headers bs 0) (length bs) ip")
  case False
  then show ?thesis using reject
    by (auto simp: cl_iefb_parse_cyclic_response_def cl_iefb_parse_resp_full_cyclic_headers_def sizeof_defs)
next
  case True
  let ?k = "unat (cl_calculate_number_of_occupied_stations (of_nat (length bs)))"
  have k0: "?k \<noteq> 0 \<Longrightarrow> length bs = 59 + 72 * ?k"
    using number_of_occupied_only_exact [of "of_nat (length bs)"] size_word_nat [OF assms] unat_eq_0 by metis
  show ?thesis
  proof (cases "?k = 0 \<or> cl_iefb_parse_response_cyclic_data (length bs) ?k = None")
    case none: True
    then have "cl_iefb_parse_cyclic_response bs ip port now \<in> {Returns None, Assert_Failed}"
      using True by (auto simp: cl_iefb_parse_cyclic_response_def cl_iefb_parse_resp_full_cyclic_headers_def sizeof_defs Let_def)
    then show ?thesis using reject abort by blast
  next
    case False
    then obtain a b where ab: "cl_iefb_parse_response_cyclic_data (length bs) ?k = Some (a, b)" by auto
    then have "?k \<le> 16" using False k0 response_cyclic_data_offsets by blast
    moreover have "length bs = 59 + 72 * ?k" "1 \<le> ?k" using k0 False by simp_all
    ultimately show ?thesis using accept [of ?k] True parse_valid_response [of bs ?k _ ip port now] by simp
  qed
qed

text \<open>Changes of a group that an answer makes, apart from events.\<close>

definition calm :: "clm_slave_device_data \<Rightarrow> clm_slave_device_data \<Rightarrow> bool" where
  "calm d d' \<longleftrightarrow> dd_device_index d' = dd_device_index d \<and> dd_slave_station_no d' = dd_slave_station_no d \<and>
     dd_transmission_bit d' = dd_transmission_bit d \<and>
     (dd_device_state d' = dd_device_state d \<or> dd_device_state d \<noteq> CLM_DEVICE_STATE_LISTEN \<and>
        dd_device_state d' \<in> {CLM_DEVICE_STATE_LISTEN, CLM_DEVICE_STATE_CYCLIC_SENT})"

definition same_memory :: "clm_group_memory_area \<Rightarrow> clm_group_memory_area \<Rightarrow> bool" where
  "same_memory m m' \<longleftrightarrow> length (mem_rx m') = length (mem_rx m) \<and> length (mem_ry m') = length (mem_ry m) \<and>
     length (mem_rwr m') = length (mem_rwr m) \<and> length (mem_rww m') = length (mem_rww m)"

definition calm_group :: "clm_group_data \<Rightarrow> clm_group_data \<Rightarrow> bool" where
  "calm_group g g' \<longleftrightarrow> g' = g\<lparr>gd_slave_devices := gd_slave_devices g', gd_memory_area := gd_memory_area g'\<rparr> \<and>
     length (gd_slave_devices g') = length (gd_slave_devices g) \<and> same_memory (gd_memory_area g) (gd_memory_area g') \<and>
     (\<forall>di < length (gd_slave_devices g). calm (gd_slave_devices g ! di) (gd_slave_devices g' ! di))"

lemma calm_refl [simp]: "calm d d" "same_memory m m" "calm_group g g"
  by (simp_all add: calm_def same_memory_def calm_group_def)

lemma calm_trans: "calm a b \<Longrightarrow> calm b c \<Longrightarrow> calm a c"
  by (auto simp: calm_def)

lemma calm_group_fields:
  assumes "calm_group g g'"
  shows "gd_group_index g' = gd_group_index g" "gd_total_occupied g' = gd_total_occupied g"
    "gd_frame_sequence_no g' = gd_frame_sequence_no g" "gd_cyclic_transmission_state g' = gd_cyclic_transmission_state g"
    "gd_group_state g' = gd_group_state g" "gd_response_wait_timer g' = gd_response_wait_timer g"
    "gd_constant_linkscan_timer g' = gd_constant_linkscan_timer g" "gd_req_frame g' = gd_req_frame g"
    "gd_timestamp_link_scan_start g' = gd_timestamp_link_scan_start g"
proof -
  obtain xs m where "g' = g\<lparr>gd_slave_devices := xs, gd_memory_area := m\<rparr>" using assms by (auto simp: calm_group_def)
  then show "gd_group_index g' = gd_group_index g" "gd_total_occupied g' = gd_total_occupied g"
    "gd_frame_sequence_no g' = gd_frame_sequence_no g" "gd_cyclic_transmission_state g' = gd_cyclic_transmission_state g"
    "gd_group_state g' = gd_group_state g" "gd_response_wait_timer g' = gd_response_wait_timer g"
    "gd_constant_linkscan_timer g' = gd_constant_linkscan_timer g" "gd_req_frame g' = gd_req_frame g"
    "gd_timestamp_link_scan_start g' = gd_timestamp_link_scan_start g" by simp_all
qed

lemma calm_group_trans:
  assumes "calm_group a b" "calm_group b c"
  shows "calm_group a c"
proof -
  obtain xs m where b: "b = a\<lparr>gd_slave_devices := xs, gd_memory_area := m\<rparr>" using assms(1) by (auto simp: calm_group_def)
  obtain ys m' where c: "c = b\<lparr>gd_slave_devices := ys, gd_memory_area := m'\<rparr>" using assms(2) by (auto simp: calm_group_def)
  have "c = a\<lparr>gd_slave_devices := gd_slave_devices c, gd_memory_area := gd_memory_area c\<rparr>" by (simp add: b c)
  then show ?thesis using assms calm_trans by (auto simp: calm_group_def same_memory_def)
qed

lemma calm_update_at:
  assumes "calm (gd_slave_devices g ! di) (f (gd_slave_devices g ! di))"
  shows "calm_group g (upd_device di f g)"
proof (cases "di < length (gd_slave_devices g)")
  case False then show ?thesis by (simp add: upd_device_def list_update_beyond)
next
  case True then show ?thesis using assms by (auto simp: upd_device_def calm_group_def nth_list_update)
qed

lemma calm_after_event:
  assumes "dd_device_state d \<in> live_states" "ev \<in> quiet_events"
  shows "calm d (after_event gs ev d)"
  using after_event_states(4,5) [OF assms] assms by (auto simp: calm_def)

lemma calm_devices_in:
  assumes "calm_group g g'" "devices_in S gs g" "gs_num_slave_devices gs \<le> length (gd_slave_devices g)"
    and "S \<subseteq> {CLM_DEVICE_STATE_LISTEN} \<or> {CLM_DEVICE_STATE_LISTEN, CLM_DEVICE_STATE_CYCLIC_SENT} \<subseteq> S"
  shows "devices_in S gs g'"
  unfolding devices_in_def
proof (intro allI impI)
  fix di assume "di < gs_num_slave_devices gs"
  then have "calm (gd_slave_devices g ! di) (gd_slave_devices g' ! di)" "dd_device_state (gd_slave_devices g ! di) \<in> S"
    using assms by (simp_all add: calm_group_def devices_in_def)
  then show "dd_device_state (gd_slave_devices g' ! di) \<in> S" using assms(4) by (auto simp: calm_def)
qed

lemma group_ready_calm:
  assumes "group_ready cfg gi g" "calm_group g g'"
  shows "group_ready cfg gi g'"
proof -
  let ?gs = "hi_groups (mc_hier cfg) ! gi"
  note f = calm_group_fields [OF assms(2)] and l = group_ready_length [OF assms(1) refl]
  have "device_inv ?gs g' di" if "di < gs_num_slave_devices ?gs" for di
  proof -
    have "calm (gd_slave_devices g ! di) (gd_slave_devices g' ! di)" "device_inv ?gs g di" "length (gd_slave_devices g') = length (gd_slave_devices g)"
      using assms that l by (simp_all add: calm_group_def group_ready_def Let_def)
    then show ?thesis using f(4) by (auto simp: device_inv_def device_placed_def calm_def Let_def live_states_def)
  qed
  moreover have "memory_ok ?gs (gd_memory_area g')"
    using assms by (simp add: group_ready_def Let_def memory_ok_def calm_group_def same_memory_def)
  ultimately show ?thesis using assms(1) f by (simp add: group_ready_def Let_def)
qed

lemma group_inv_calm:
  assumes "group_inv cfg gi g" "calm_group g g'"
  shows "group_inv cfg gi g'"
proof -
  note f = calm_group_fields [OF assms(2)] and l = group_ready_length [OF group_inv_ready [OF assms(1)] refl]
  note r = group_ready_calm [OF group_inv_ready [OF assms(1)] assms(2)]
  have d: "devices_in {CLM_DEVICE_STATE_LISTEN} (hi_groups (mc_hier cfg) ! gi) g \<Longrightarrow>
      devices_in {CLM_DEVICE_STATE_LISTEN} (hi_groups (mc_hier cfg) ! gi) g'"
    "devices_in {CLM_DEVICE_STATE_LISTEN, CLM_DEVICE_STATE_CYCLIC_SENT} (hi_groups (mc_hier cfg) ! gi) g \<Longrightarrow>
      devices_in {CLM_DEVICE_STATE_LISTEN, CLM_DEVICE_STATE_CYCLIC_SENT} (hi_groups (mc_hier cfg) ! gi) g'"
    "devices_in (live_states - {CLM_DEVICE_STATE_CYCLIC_SENDING}) (hi_groups (mc_hier cfg) ! gi) g \<Longrightarrow>
      devices_in (live_states - {CLM_DEVICE_STATE_CYCLIC_SENDING}) (hi_groups (mc_hier cfg) ! gi) g'"
    using calm_devices_in [OF assms(2) _ l] by (simp_all add: live_states_def)
  show ?thesis using assms(1) r d unfolding group_inv_def scan_pending_def Let_def f by blast
qed

definition calm_master :: "nat \<Rightarrow> clm \<Rightarrow> clm \<Rightarrow> bool" where
  "calm_master gi clm clm' \<longleftrightarrow> only_group gi clm clm' \<and> calm_group (clm_groups clm ! gi) (clm_groups clm' ! gi) \<and>
     clm_arbitration_timer clm' = clm_arbitration_timer clm"

lemma calm_master_refl [simp]: "calm_master gi clm clm" by (simp add: calm_master_def)

lemma calm_master_trans [trans]: "calm_master gi a b \<Longrightarrow> calm_master gi b c \<Longrightarrow> calm_master gi a c"
  using calm_group_trans only_group_trans by (fastforce simp: calm_master_def)

lemma calm_master_inv:
  assumes "clm_inv clm" "calm_master gi clm clm'"
  shows "clm_inv clm'" "clm_config clm' = clm_config clm"
proof -
  have o: "only_group gi clm clm'" "calm_group (clm_groups clm ! gi) (clm_groups clm' ! gi)"
    "clm_arbitration_timer clm' = clm_arbitration_timer clm" using assms(2) by (simp_all add: calm_master_def)
  then show cfg: "clm_config clm' = clm_config clm" by (simp add: only_group_def)
  have other: "clm_groups clm' ! j = clm_groups clm ! j" if "j \<noteq> gi" for j using o(1) that by (simp add: only_group_def)
  have "group_inv (clm_config clm) j (clm_groups clm' ! j)" if "j < number_of_groups clm" for j
    using assms(1) that other [of j] group_inv_calm [OF _ o(2)] by (cases "j = gi") (simp_all add: clm_inv_def groups_inv_def)
  moreover have "state_of_group clm' j = state_of_group clm j" for j
    using other [of j] calm_group_fields(5) [OF o(2)] by (cases "j = gi") simp_all
  ultimately show "clm_inv clm'"
    using assms(1) only_group_ok [OF o(1)] cfg o(3) by (simp add: clm_inv_def groups_inv_def arbitration_inv_def)
qed

lemma calm_master_set_group:
  "gi < length (clm_groups clm) \<Longrightarrow> calm_group (clm_groups clm ! gi) g \<Longrightarrow> calm_master gi clm (set_group gi g clm)"
  by (simp add: calm_master_def)

lemma calm_master_upd_dev:
  assumes "gi < length (clm_groups clm)"
    and "calm (gd_slave_devices (clm_groups clm ! gi) ! di) (f (gd_slave_devices (clm_groups clm ! gi) ! di))"
  shows "calm_master gi clm (upd_dev gi di f clm)"
  unfolding upd_dev_def using assms by (intro calm_master_set_group calm_update_at)

lemma calm_master_same:
  "only_group gi clm clm' \<Longrightarrow> clm_groups clm' = clm_groups clm \<Longrightarrow> clm_arbitration_timer clm' = clm_arbitration_timer clm \<Longrightarrow>
   calm_master gi clm clm'"
  by (simp add: calm_master_def)

lemma calm_callbacks [simp]:
  "calm_master gi clm (clm_iefb_trigger_error_callback now m ip a clm)"
  "calm_master gi clm (memit_if b x clm)"
  "calm_master gi clm (clm_iefb_trigger_alarmframe_callback i j e s l clm)"
  "calm_master gi clm (clm_iefb_trigger_slaveinfo_callback i j e s l clm)"
  by (simp_all add: calm_master_same clm_iefb_trigger_alarmframe_callback_def clm_iefb_trigger_slaveinfo_callback_def)

lemma calm_statistics [simp]: "calm d (upd_statistics f d)" "calm d (d\<lparr>dd_latest_frame := l\<rparr>)" "calm d (d\<lparr>dd_statistics := x\<rparr>)"
  "calm d (d\<lparr>dd_enabled := b\<rparr>)" "calm d (d\<lparr>dd_force_transmission_bit := b\<rparr>)"
  "calm d (d\<lparr>dd_statistics := x, dd_latest_frame := l\<rparr>)"
  by (simp_all add: calm_def upd_statistics_def)

lemma calm_master_length: "calm_master gi a b \<Longrightarrow> length (clm_groups b) = length (clm_groups a)"
  by (simp add: calm_master_def only_group_def)

lemma calm_counts [simp]:
  assumes "gi < length (clm_groups clm)"
  shows "calm_master gi clm (count_invalid gi di clm)" "calm_master gi clm (count_alarm gi di clm)"
  using assms by (simp_all add: count_invalid_def count_alarm_def calm_master_upd_dev)

lemma response_errors_calm:
  assumes "gi < length (clm_groups clm)"
  shows "calm_master gi clm (response_errors now gi di end_code ip clm)"
proof -
  have one: "calm_master gi c (clm_iefb_trigger_error_callback now m ip 0 (count_alarm gi di c))" if "gi < length (clm_groups c)" for c m
    using calm_master_trans [OF calm_counts(2) [OF that] calm_callbacks(1)] .
  define c where "c = (if end_code = CL_SLMP_ENDCODE_CCIEFB_WRONG_NUMBER_OCCUPIED_STATIONS
    then clm_iefb_trigger_error_callback now CLM_ERROR_SLAVE_REPORTS_WRONG_NUMBER_OCCUPIED ip 0 (count_alarm gi di clm) else clm)"
  have c: "calm_master gi clm c" using one [OF assms] by (simp add: c_def)
  then have "gi < length (clm_groups c)" using assms calm_master_length by metis
  then show ?thesis using calm_master_trans [OF c one] c unfolding response_errors_def Let_def c_def [symmetric] by simp
qed

lemma response_notify_calm:
  assumes "gi < length (clm_groups clm)"
  shows "calm_master gi clm (response_notify gi di end_code err info clm)"
proof -
  define c where "c = (if end_code = CL_SLMP_ENDCODE_CCIEFB_SLAVE_ERROR \<or> end_code = CL_SLMP_ENDCODE_CCIEFB_SLAVE_REQUESTS_DISCONNECT
     then (let clm' = count_alarm gi di clm in
       if end_code \<noteq> fv_end_code (dd_latest_frame (gd_slave_devices (clm_groups clm ! gi) ! di))
       then clm_iefb_trigger_alarmframe_callback gi di end_code err info clm' else clm') else clm)"
  have "calm_master gi clm c"
    using calm_master_trans [OF calm_counts(2) [OF assms] calm_callbacks(3)] calm_counts(2) [OF assms] by (simp add: c_def Let_def)
  then show ?thesis using calm_master_trans [OF _ calm_callbacks(4)]
    unfolding response_notify_def Let_def c_def [symmetric, unfolded Let_def] by simp
qed

lemma store_keeps_memory:
  assumes fits: "group_fits gs" and di: "di < gs_num_slave_devices gs" and mem: "memory_ok gs m"
  shows "same_memory m (clm_iefb_store_incoming_cyclic_data r (station_no gs di) (device_occ gs di) v m)"
proof -
  let ?k = "station_no gs di - 1" and ?o = "device_occ gs di"
  have "?k + ?o \<le> stations_of gs" using station_no_range [OF fits di] by (simp add: device_occ_def)
  then have "64 * ?k + 64 * ?o \<le> length (mem_rwr m)" "8 * ?k + 8 * ?o \<le> length (mem_rx m)"
    using mem by (simp_all add: memory_ok_def)
  then show ?thesis
    by (simp add: same_memory_def clm_iefb_store_incoming_cyclic_data_def Let_def sizeof_word_area_def sizeof_bit_area_def mult.commute)
qed

lemma response_store_calm:
  assumes inv: "clm_inv clm" and gi: "gi < number_of_groups clm" and gs: "gs = hi_groups (mc_hier (clm_config clm)) ! gi"
    and di: "di < gs_num_slave_devices gs"
  shows "calm_master gi clm (response_store gi di r clm)"
proof -
  let ?g = "clm_groups clm ! gi"
  have mo: "master_ok clm" "gi < length (clm_groups clm)" "group_ready (clm_config clm) gi ?g"
    using inv gi group_inv_ready by (simp_all add: clm_inv_def groups_inv_def master_ok_def)
  have fits: "group_fits gs" using good_config_group(1) [OF _ gi gs] mo(1) by (simp add: master_ok_def)
  have no: "dd_slave_station_no (gd_slave_devices ?g ! di) = station_no gs di" "memory_ok gs (gd_memory_area ?g)"
    using mo(3) di gs by (simp_all add: group_ready_def device_inv_def device_placed_def Let_def)
  obtain f where f: "response_store gi di r clm = set_group gi ((upd_device di f ?g)\<lparr>gd_memory_area :=
      clm_iefb_store_incoming_cyclic_data r (station_no gs di) (device_occ gs di) (dd_transmission_bit (gd_slave_devices ?g ! di)) (gd_memory_area ?g)\<rparr>) clm"
    "\<And>d. calm d (f d)"
    using no gs calm_trans [OF calm_statistics(2) calm_statistics(1)] by (simp add: response_store_def Let_def device_occ_def)
  have "calm_group ?g ((upd_device di f ?g)\<lparr>gd_memory_area := m\<rparr>)" if "same_memory (gd_memory_area ?g) m" for m
    using calm_update_at [of ?g di f] f(2) that by (simp add: calm_group_def upd_device_def)
  then show ?thesis unfolding f(1) using store_keeps_memory [OF fits di no(2)] calm_master_set_group [OF mo(2)] by blast
qed

text \<open>An event for one device.\<close>

lemma device_event_calm:
  assumes inv: "clm_inv clm" and gi: "gi < number_of_groups clm" and gs: "gs = hi_groups (mc_hier (clm_config clm)) ! gi"
    and di: "di < gs_num_slave_devices gs" and ev: "ev \<in> quiet_events"
  shows "on_group gi (clm_iefb_device_fsm_event clm di ev) clm =
      Returns (set_group gi (upd_device di (after_event gs ev) (clm_groups clm ! gi)) clm)"
    "calm_master gi clm (set_group gi (upd_device di (after_event gs ev) (clm_groups clm ! gi)) clm)"
proof -
  let ?g = "clm_groups clm ! gi"
  have mo: "device_tables clm" "gi < length (clm_groups clm)" "group_ready (clm_config clm) gi ?g"
    using inv gi group_inv_ready by (simp_all add: clm_inv_def groups_inv_def master_ok_def)
  have d: "di < length (gd_slave_devices ?g)" "dd_device_state (gd_slave_devices ?g ! di) \<in> live_states" "group_setting clm ?g = gs"
    using mo(3) di gs by (simp_all add: group_ready_def device_inv_def device_placed_def Let_def group_setting_def)
  show "on_group gi (clm_iefb_device_fsm_event clm di ev) clm = Returns (set_group gi (upd_device di (after_event gs ev) ?g) clm)"
    using quiet_event [OF mo(1) d(1) ev d(2)] d(3) by (simp add: on_group_def set_group_def)
  show "calm_master gi clm (set_group gi (upd_device di (after_event gs ev) ?g) clm)"
    using mo(2) calm_after_event [OF d(2) ev] by (intro calm_master_set_group calm_update_at)
qed

lemma received_from_all:
  assumes "group_inv cfg gi g" "gs = hi_groups (mc_hier cfg) ! gi" "clm_iefb_group_have_received_from_all_devices gs g"
    and "gd_group_state g = CLM_GROUP_STATE_MASTER_LINK_SCAN"
  shows "devices_in (live_states - {CLM_DEVICE_STATE_CYCLIC_SENDING}) gs g"
proof (cases "gd_frame_sequence_no g = 0")
  case True
  then show ?thesis using assms by (auto simp: group_inv_def scan_pending_def Let_def)
next
  case False
  have r: "\<forall>di < gs_num_slave_devices gs. device_inv gs g di" using group_inv_ready [OF assms(1)] assms(2) by (simp add: group_ready_def Let_def)
  then show ?thesis using assms(3) False
    by (force simp: clm_iefb_group_have_received_from_all_devices_def Let_def devices_in_def device_inv_def list_ex_iff split: if_splits)
qed

lemma response_events_ok:
  assumes inv: "clm_inv clm" and gi: "gi < number_of_groups clm" and gs: "gs = hi_groups (mc_hier (clm_config clm)) ! gi"
    and di: "di < gs_num_slave_devices gs"
  shows "\<exists>clm'. response_events now clock gi di end_code clm = Returns clm' \<and> clm_inv clm' \<and> clm_config clm' = clm_config clm \<and>
    (\<forall>gj. gd_memory_area (clm_groups clm' ! gj) = gd_memory_area (clm_groups clm ! gj))"
proof (cases "end_code = CL_SLMP_ENDCODE_CCIEFB_MASTER_DUPLICATION")
  case True
  have "CLM_GROUP_EVENT_MASTERDUPL_ALARM \<in> common_events" by (simp add: common_events_def)
  from common_event_all_inv [OF inv this, of now clock] show ?thesis unfolding response_events_def using True by auto
next
  case False
  define ev where "ev = (if end_code = CL_SLMP_ENDCODE_SUCCESS then CLM_DEVICE_EVENT_RECEIVE_OK else CLM_DEVICE_EVENT_RECEIVE_ERROR)"
  have q: "ev \<in> quiet_events" by (simp add: ev_def quiet_events_def)
  define c where "c = set_group gi (upd_device di (after_event gs ev) (clm_groups clm ! gi)) clm"
  note e = device_event_calm [OF inv gi gs di q, folded c_def]
  note ci = calm_master_inv [OF inv e(2)]
  have len: "gi < length (clm_groups clm)" using inv gi by (simp add: clm_inv_def groups_inv_def master_ok_def)
  have mem: "gd_memory_area (clm_groups c ! gj) = gd_memory_area (clm_groups clm ! gj)" for gj
    using len by (cases "gj = gi") (simp_all add: c_def upd_device_def)
  have "\<exists>c'. clm_iefb_group_fsm_event now clock gi CLM_GROUP_EVENT_LINKSCAN_COMPLETE c = Returns c' \<and> clm_inv c' \<and> clm_config c' = clm_config clm \<and>
    (\<forall>gj. gd_memory_area (clm_groups c' ! gj) = gd_memory_area (clm_groups c ! gj))"
    if all: "clm_iefb_group_have_received_from_all_devices gs (clm_groups c ! gi)"
  proof -
    have g: "group_inv (clm_config c) gi (clm_groups c ! gi)" "master_ok c" using ci gi by (simp_all add: clm_inv_def groups_inv_def)
    have "group_enabled c gi CLM_GROUP_EVENT_LINKSCAN_COMPLETE c"
      using g received_from_all [OF g(1) _ all] gs gi ci(2) by (simp add: group_enabled_def Let_def)
    then obtain c' where c': "clm_iefb_group_fsm_event now clock gi CLM_GROUP_EVENT_LINKSCAN_COMPLETE c = Returns c'" "clm_inv c'"
        "clm_config c' = clm_config clm" "group_kept c gi c'"
      using single_event [OF ci(1), of gi "clm_groups c ! gi" CLM_GROUP_EVENT_LINKSCAN_COMPLETE now clock] gi ci(2)
      by (simp add: set_group_same) blast
    have "groups_inv c" using ci(1) by (simp add: clm_inv_def)
    from groups_inv_kept(6) [OF this c'(4)] c' show ?thesis by blast
  qed
  then show ?thesis using False e(1) ci gs mem
    by (simp add: response_events_def ev_def [symmetric] Let_def)
qed

lemma device_response_ok:
  assumes inv: "clm_inv clm" and gi: "gi < number_of_groups clm" and gs: "gs = hi_groups (mc_hier (clm_config clm)) ! gi"
    and di: "di < gs_num_slave_devices gs"
  shows "\<exists>b clm'. handle_device_response now clock gi di r clm = Returns (b, clm') \<and> clm_inv clm' \<and> clm_config clm' = clm_config clm"
proof -
  define c where "c = upd_dev gi di (upd_statistics (\<lambda>st. st\<lparr>st_number_of_incoming_frames := st_number_of_incoming_frames st + 1\<rparr>)) clm"
  have len: "gi < length (clm_groups clm)" using inv gi by (simp add: clm_inv_def groups_inv_def master_ok_def)
  have c: "calm_master gi clm c" unfolding c_def by (rule calm_master_upd_dev [OF len]) simp
  note ci = calm_master_inv [OF inv c]
  have lenc: "gi < length (clm_groups c)" using len calm_master_length [OF c] by simp
  note inval = calm_master_inv [OF ci(1) calm_counts(1) [OF lenc]]
  define dup where "dup = clm_iefb_trigger_error_callback now CLM_ERROR_SLAVE_DUPLICATION (rp_remote_ip r) 0 (count_invalid gi di c)"
  have "calm_master gi c dup" unfolding dup_def using calm_master_trans [OF calm_counts(1) [OF lenc] calm_callbacks(1)] .
  note dupi = calm_master_inv [OF ci(1) this]
  have q: "CLM_DEVICE_EVENT_SLAVE_DUPLICATION \<in> quiet_events" by (simp add: quiet_events_def)
  have gid: "gi < number_of_groups dup" "gs = hi_groups (mc_hier (clm_config dup)) ! gi" using gi gs dupi(2) ci(2) by simp_all
  note dupe = device_event_calm [OF dupi(1) gid di q]
  note dupf = calm_master_inv [OF dupi(1) dupe(2)]
  let ?ec = "csh_end_code (sf_cyclic_header (rp_full_headers r))"
  define err where "err = response_errors now gi di ?ec (rp_remote_ip r) c"
  have erc: "calm_master gi c err" unfolding err_def by (rule response_errors_calm [OF lenc])
  note erri = calm_master_inv [OF ci(1) erc]
  have lene: "gi < length (clm_groups err)" using lenc calm_master_length [OF erc] by simp
  note errinv = calm_master_inv [OF erri(1) calm_counts(1) [OF lene]]
  define nf where "nf = response_notify gi di ?ec (sn_slave_err_code (sf_slave_station_notification (rp_full_headers r)))
    (sn_local_management_info (sf_slave_station_notification (rp_full_headers r))) err"
  have "calm_master gi err nf" unfolding nf_def by (rule response_notify_calm [OF lene])
  note nfi = calm_master_inv [OF erri(1) this]
  have gin: "gi < number_of_groups nf" "gs = hi_groups (mc_hier (clm_config nf)) ! gi" using gi gs nfi(2) erri(2) ci(2) by simp_all
  note sti = calm_master_inv [OF nfi(1) response_store_calm [OF nfi(1) gin di, of r]]
  have gst: "gi < number_of_groups (response_store gi di r nf)" "gs = hi_groups (mc_hier (clm_config (response_store gi di r nf))) ! gi"
    using gin sti(2) by simp_all
  from response_events_ok [OF sti(1) gst di, of now clock ?ec] obtain fin where
    fin: "response_events now clock gi di ?ec (response_store gi di r nf) = Returns fin" "clm_inv fin" "clm_config fin = clm_config (response_store gi di r nf)"
    by blast
  have cfgs: "clm_config fin = clm_config clm" "clm_config (count_invalid gi di err) = clm_config clm"
    "clm_config (count_invalid gi di c) = clm_config clm" "clm_config c = clm_config clm"
    "clm_config (set_group gi (upd_device di (after_event gs CLM_DEVICE_EVENT_SLAVE_DUPLICATION) (clm_groups dup ! gi)) dup) = clm_config clm"
    using fin(3) sti(2) nfi(2) erri(2) ci(2) errinv(2) inval(2) dupf(2) dupi(2) by simp_all
  show ?thesis
    unfolding handle_device_response_def Let_def c_def [symmetric] dup_def [symmetric] err_def [symmetric] nf_def [symmetric] dupe(1) fin(1)
    using inval errinv dupf fin(2) cfgs by (simp add: ex_bool_eq)
qed

lemma handle_response_ok:
  assumes inv: "clm_inv clm" and len: "length bs < 2 ^ 64"
    and safe: "cl_iefb_parse_cyclic_response bs ip port now \<noteq> Assert_Failed"
  shows "\<exists>b clm'. clm_iefb_handle_response_frame now clock bs ip port clm = Returns (b, clm') \<and> clm_inv clm' \<and> clm_config clm' = clm_config clm"
  using len
proof (cases rule: parse_response_cases [of bs ip port now])
  case (accept n)
  let ?h = "dec_resp_full_headers bs 0"
  let ?no = "unat (sdh_group_no (sf_cyclic_data_header ?h))"
  have "1 \<le> ?no" using accept(1)
    by (simp add: cl_iefb_validate_resp_full_cyclic_headers_def cl_iefb_validate_resp_cyclic_data_header_def cl_consts Let_def split: if_splits)
  then have gi: "?no - 1 < number_of_groups clm" if "\<not> number_of_groups clm < ?no" using that by simp
  show ?thesis
  proof (cases "mc_master_id (clm_config clm) = CL_IPADDR_INVALID \<or> number_of_groups clm < ?no \<or>
      clm_iefb_calc_slave_device_index (hi_groups (mc_hier (clm_config clm)) ! (?no - 1)) ip = None")
    case True
    then show ?thesis using inv accept(5) by (auto simp: clm_iefb_handle_response_frame_def Let_def)
  next
    case False
    then obtain di where f: "clm_iefb_calc_slave_device_index (hi_groups (mc_hier (clm_config clm)) ! (?no - 1)) ip = Some di" by auto
    then have "di < gs_num_slave_devices (hi_groups (mc_hier (clm_config clm)) ! (?no - 1))"
      using find_device_Some by (fastforce simp: clm_iefb_calc_slave_device_index_def)
    from device_response_ok [OF inv gi refl this] show ?thesis using False f accept(5)
      by (simp add: clm_iefb_handle_response_frame_def Let_def)
  qed
qed (use inv safe in \<open>auto simp: clm_iefb_handle_response_frame_def\<close>)

section \<open>Start-up\<close>

lemma for_all_groups:
  assumes m: "master_ok clm" and pre: "\<forall>gi < number_of_groups clm. Pre gi (clm_groups clm ! gi)"
    and ev: "ev \<noteq> CLM_GROUP_EVENT_LAST" and r: "R clm" "\<And>c. Q c \<Longrightarrow> R c"
    and step: "\<And>c gi. master_ok c \<Longrightarrow> R c \<Longrightarrow> clm_config c = clm_config clm \<Longrightarrow> gi < number_of_groups clm \<Longrightarrow> Pre gi (clm_groups c ! gi) \<Longrightarrow>
      \<exists>c'. group_round now clock gi ev c = Returns (CLM_GROUP_EVENT_NONE, c') \<and> only_group gi c c' \<and> Post gi (clm_groups c' ! gi) \<and> Q c'"
  shows "\<exists>clm'. clm_iefb_group_fsm_event_all now clock ev clm = Returns clm' \<and> master_ok clm' \<and> clm_config clm' = clm_config clm \<and>
    (\<forall>gi < number_of_groups clm. Post gi (clm_groups clm' ! gi)) \<and> (0 < number_of_groups clm \<longrightarrow> Q clm')"
proof -
  let ?n = "number_of_groups clm"
  let ?P = "\<lambda>i c. master_ok c \<and> clm_config c = clm_config clm \<and> (\<forall>gi < i. Post gi (clm_groups c ! gi)) \<and>
    (\<forall>gi < ?n. i \<le> gi \<longrightarrow> Pre gi (clm_groups c ! gi)) \<and> (0 < i \<longrightarrow> Q c) \<and> R c"
  have "\<exists>c. for_each (\<lambda>gi. clm_iefb_group_fsm_event now clock gi ev) [0..<?n] clm = Returns c \<and> ?P ?n c"
  proof (rule for_each_upt [where P = ?P])
    show "?P 0 clm" using m pre r(1) by simp
    fix i c assume i: "i < ?n" and p: "?P i c"
    from step [of c i] p i obtain c' where
      c': "group_round now clock i ev c = Returns (CLM_GROUP_EVENT_NONE, c')" "only_group i c c'" "Post i (clm_groups c' ! i)" "Q c'" by auto
    have "clm_config c' = clm_config c" "\<forall>j. j \<noteq> i \<longrightarrow> clm_groups c' ! j = clm_groups c ! j" "master_ok c'"
      using c'(2) only_group_ok [OF c'(2)] p by (auto simp: only_group_def)
    then have "?P (Suc i) c'" using p c'(3,4) r(2) by (auto simp: less_Suc_eq)
    then show "\<exists>c'. clm_iefb_group_fsm_event now clock i ev c = Returns c' \<and> ?P (Suc i) c'"
      using group_event_final [OF c'(1)] ev by auto
  qed
  then show ?thesis by (auto simp: clm_iefb_group_fsm_event_all_def)
qed

lemma startup_all_groups:
  assumes "master_ok clm" "\<forall>gi < number_of_groups clm. group_blank (clm_config clm) gi (clm_groups clm ! gi)"
    and "tm_state (clm_arbitration_timer clm) = CL_TIMER_STOPPED"
  shows "\<exists>clm'. clm_iefb_group_fsm_event_all now clock CLM_GROUP_EVENT_STARTUP clm = Returns clm' \<and> master_ok clm' \<and>
    clm_config clm' = clm_config clm \<and> (\<forall>gi < number_of_groups clm. group_fresh (clm_config clm) gi (clm_groups clm' ! gi) \<and>
      state_of_group clm' gi = CLM_GROUP_STATE_MASTER_LISTEN) \<and>
    (0 < number_of_groups clm \<longrightarrow> tm_state (clm_arbitration_timer clm') = CL_TIMER_STOPPED)"
proof -
  have "\<exists>c'. group_round now clock gi CLM_GROUP_EVENT_STARTUP c = Returns (CLM_GROUP_EVENT_NONE, c') \<and> only_group gi c c' \<and>
      (group_fresh (clm_config clm) gi (clm_groups c' ! gi) \<and> state_of_group c' gi = CLM_GROUP_STATE_MASTER_LISTEN) \<and>
      tm_state (clm_arbitration_timer c') = CL_TIMER_STOPPED"
    if "master_ok c" "tm_state (clm_arbitration_timer c) = CL_TIMER_STOPPED" "clm_config c = clm_config clm" "gi < number_of_groups clm" "group_blank (clm_config clm) gi (clm_groups c ! gi)" for c gi
  proof -
    have "gi < number_of_groups c" "group_blank (clm_config c) gi (clm_groups c ! gi)" using that by simp_all
    from round_startup [OF that(1) this(1) refl this(2), of now clock] show ?thesis unfolding that(3) by (auto simp: cl_timer_stop_def)
  qed
  from for_all_groups [where Pre = "group_blank (clm_config clm)" and
      Q = "\<lambda>c. tm_state (clm_arbitration_timer c) = CL_TIMER_STOPPED" and R = "\<lambda>c. tm_state (clm_arbitration_timer c) = CL_TIMER_STOPPED" and
      Post = "\<lambda>gi g. group_fresh (clm_config clm) gi g \<and> gd_group_state g = CLM_GROUP_STATE_MASTER_LISTEN",
      OF assms(1,2) _ assms(3) _ this] show ?thesis by blast
qed

lemma new_config_all_groups:
  assumes "master_ok clm" "\<forall>gi < number_of_groups clm. group_fresh (clm_config clm) gi (clm_groups clm ! gi) \<and>
      state_of_group clm gi = CLM_GROUP_STATE_MASTER_LISTEN"
    and "tm_state (clm_arbitration_timer clm) = CL_TIMER_STOPPED"
  shows "\<exists>clm'. clm_iefb_group_fsm_event_all now clock CLM_GROUP_EVENT_NEW_CONFIG clm = Returns clm' \<and> master_ok clm' \<and>
    clm_config clm' = clm_config clm \<and> (\<forall>gi < number_of_groups clm. group_inv (clm_config clm) gi (clm_groups clm' ! gi) \<and>
      state_of_group clm' gi = CLM_GROUP_STATE_MASTER_ARBITRATION) \<and>
    (0 < number_of_groups clm \<longrightarrow> clm_arbitration_timer clm' = cl_timer_start (arbitration_period (clm_config clm)) now (clm_arbitration_timer clm) \<and>
      clm_state clm' = CLM_MASTER_STATE_ARBITRATION)"
proof -
  let ?t = "cl_timer_start (arbitration_period (clm_config clm)) now (clm_arbitration_timer clm)"
  have "\<exists>c'. group_round now clock gi CLM_GROUP_EVENT_NEW_CONFIG c = Returns (CLM_GROUP_EVENT_NONE, c') \<and> only_group gi c c' \<and>
      (group_inv (clm_config clm) gi (clm_groups c' ! gi) \<and> state_of_group c' gi = CLM_GROUP_STATE_MASTER_ARBITRATION) \<and>
      (clm_arbitration_timer c' = ?t \<and> clm_state c' = CLM_MASTER_STATE_ARBITRATION)"
    if "master_ok c" "tm_state (clm_arbitration_timer c) = CL_TIMER_STOPPED \<or> clm_arbitration_timer c = ?t" "clm_config c = clm_config clm" "gi < number_of_groups clm"
      "group_fresh (clm_config clm) gi (clm_groups c ! gi) \<and> state_of_group c gi = CLM_GROUP_STATE_MASTER_LISTEN" for c gi
  proof -
    have "gi < number_of_groups c" "group_fresh (clm_config c) gi (clm_groups c ! gi)" "state_of_group c gi = CLM_GROUP_STATE_MASTER_LISTEN"
      using that by simp_all
    moreover have "cl_timer_start_if_not_running (arbitration_period (clm_config c)) now (clm_arbitration_timer c) = ?t"
      using that(2,3) by (auto simp: cl_timer_start_if_not_running_def cl_timer_start_def)
    ultimately show ?thesis using round_new_config [OF that(1) _ refl, of gi now clock] that(3) by auto
  qed
  from for_all_groups [where Pre = "\<lambda>gi g. group_fresh (clm_config clm) gi g \<and> gd_group_state g = CLM_GROUP_STATE_MASTER_LISTEN"
      and Q = "\<lambda>c. clm_arbitration_timer c = ?t \<and> clm_state c = CLM_MASTER_STATE_ARBITRATION" and
      R = "\<lambda>c. tm_state (clm_arbitration_timer c) = CL_TIMER_STOPPED \<or> clm_arbitration_timer c = ?t" and
      Post = "\<lambda>gi g. group_inv (clm_config clm) gi g \<and> gd_group_state g = CLM_GROUP_STATE_MASTER_ARBITRATION",
      OF assms(1,2) _ _ _ this] assms(3) show ?thesis by blast
qed

lemma blank_groups:
  assumes "n \<le> length gs0" "c = fold (\<lambda>gi clm. set_group gi ((clm_groups clm ! gi)
      \<lparr>gd_group_state := CLM_GROUP_STATE_MASTER_DOWN, gd_group_index := gi\<rparr>) clm) [0..<n] (clm\<lparr>clm_groups := gs0\<rparr>)"
  shows "\<exists>gs1. c = clm\<lparr>clm_groups := gs1\<rparr> \<and> length gs1 = length gs0 \<and>
    (\<forall>gi < n. gs1 ! gi = (gs0 ! gi)\<lparr>gd_group_state := CLM_GROUP_STATE_MASTER_DOWN, gd_group_index := gi\<rparr>) \<and>
    (\<forall>gi. n \<le> gi \<longrightarrow> gs1 ! gi = gs0 ! gi)"
  using assms
proof (induction n arbitrary: c)
  case 0
  then show ?case by (intro exI [of _ gs0]) simp
next
  case (Suc n)
  have "n \<le> length gs0" using Suc.prems(1) by simp
  from Suc.IH [OF this refl] obtain gs1 where
    g: "fold (\<lambda>gi clm. set_group gi ((clm_groups clm ! gi)\<lparr>gd_group_state := CLM_GROUP_STATE_MASTER_DOWN, gd_group_index := gi\<rparr>) clm)
          [0..<n] (clm\<lparr>clm_groups := gs0\<rparr>) = clm\<lparr>clm_groups := gs1\<rparr>" "length gs1 = length gs0"
      "\<forall>gi < n. gs1 ! gi = (gs0 ! gi)\<lparr>gd_group_state := CLM_GROUP_STATE_MASTER_DOWN, gd_group_index := gi\<rparr>"
      "\<forall>gi. n \<le> gi \<longrightarrow> gs1 ! gi = gs0 ! gi" by blast
  then have "c = clm\<lparr>clm_groups := gs1[n := (gs0 ! n)\<lparr>gd_group_state := CLM_GROUP_STATE_MASTER_DOWN, gd_group_index := n\<rparr>]\<rparr>"
    using Suc.prems(2) by (simp add: set_group_def)
  then show ?case using g Suc.prems(1) by (auto simp: nth_list_update less_Suc_eq)
qed

lemma stations_le_max:
  assumes "options_ok mg ms" "config_valid mg ms cfg" "arrays_ok cfg" "gi < hi_number_of_groups (mc_hier cfg)"
  shows "stations_of (hi_groups (mc_hier cfg) ! gi) \<le> ms" "gs_num_slave_devices (hi_groups (mc_hier cfg) ! gi) \<le> ms"
proof -
  have "hi_groups (mc_hier cfg) ! gi \<in> set (groups_of cfg)" using assms(3,4) by (auto simp: groups_of_def arrays_ok_def in_set_conv_nth)
  then show "stations_of (hi_groups (mc_hier cfg) ! gi) \<le> ms" "gs_num_slave_devices (hi_groups (mc_hier cfg) ! gi) \<le> ms"
    using assms(2) by (auto simp: config_valid_def group_valid_def)
qed

lemma master_init_ok:
  assumes cfg: "options_ok mg ms" "config_valid mg ms (clm_config clm)" "arrays_ok (clm_config clm)" "distinct (slave_ids_of (clm_config clm))"
    and sock: "socket_ok" "mc_use_separate_arbitration_socket (clm_config clm) \<longrightarrow> arbitration_socket_ok"
  shows "\<exists>clm'. clm_iefb_init mg ms now clock socket_ok arbitration_socket_ok clm = Returns (True, clm') \<and> clm_inv clm' \<and>
    clm_config clm' = clm_config clm \<and> clm_state clm' = CLM_MASTER_STATE_ARBITRATION \<and>
    (\<forall>gi < number_of_groups clm. state_of_group clm' gi = CLM_GROUP_STATE_MASTER_ARBITRATION) \<and>
    (\<exists>t. clm_arbitration_timer clm' = cl_timer_start (arbitration_period (clm_config clm)) now t)"
proof -
  let ?n = "number_of_groups clm"
  define c0 where "c0 = clm_iefb_group_fsm_tables_init (clm_iefb_device_fsm_tables_init (clm\<lparr>clm_errorlimiter :=
      cl_limiter_init CLM_CCIEFB_ERRORCALLBACK_RETRIGGER_PERIOD (clm_errorlimiter clm),
      clm_latest_conflicting_master_ip := CL_IPADDR_INVALID, clm_state := CLM_MASTER_STATE_DOWN,
      clm_master_local_unit_info := CL_CCIEFB_MASTER_LOCAL_UNIT_INFO_RUNNING,
      clm_arbitration_timer := cl_timer_stop (clm_arbitration_timer clm)\<rparr>))"
  have c0: "device_tables c0" "group_tables c0" "clm_config c0 = clm_config clm" "unit_info_ok c0"
    "tm_state (clm_arbitration_timer c0) = CL_TIMER_STOPPED"
    by (simp_all add: c0_def clm_iefb_group_fsm_tables_init_def clm_iefb_device_fsm_tables_init_def device_tables_def group_tables_def
        unit_info_ok_def CL_CCIEFB_MASTER_LOCAL_UNIT_INFO_RUNNING_def cl_timer_stop_def)
  define c1 where "c1 = fold (\<lambda>gi clm. set_group gi ((clm_groups clm ! gi)\<lparr>gd_group_state := CLM_GROUP_STATE_MASTER_DOWN, gd_group_index := gi\<rparr>) clm)
      [0..<?n] (c0\<lparr>clm_groups := replicate mg (zero_group ms)\<rparr>)"
  have n: "?n \<le> mg" "1 \<le> ?n" using cfg(2) by (simp_all add: config_valid_def)
  obtain gs1 where c1: "c1 = c0\<lparr>clm_groups := gs1\<rparr>" "length gs1 = mg"
    "\<forall>gi < ?n. gs1 ! gi = (zero_group ms)\<lparr>gd_group_state := CLM_GROUP_STATE_MASTER_DOWN, gd_group_index := gi\<rparr>"
    using blank_groups [OF _ c1_def] n(1) by auto
  have good: "good_config (clm_config clm)" using cfg by (auto simp: good_config_def)
  have m1: "master_ok c1" using c0 c1 n(1) good by (simp add: master_ok_def device_tables_def group_tables_def unit_info_ok_def)
  have cfg1: "clm_config c1 = clm_config clm" using c1(1) c0(3) by simp
  have blank: "\<forall>gi < number_of_groups c1. group_blank (clm_config c1) gi (clm_groups c1 ! gi)"
    using c1 c0(3) stations_le_max [OF cfg(1-3)]
    by (simp add: group_blank_def Let_def zero_group_def memory_ok_def sizeof_bit_area_def sizeof_word_area_def)
  have t1: "tm_state (clm_arbitration_timer c1) = CL_TIMER_STOPPED" using c1(1) c0(5) by simp
  from startup_all_groups [OF m1 blank t1, of now clock] n(2) obtain c2 where
    c2: "clm_iefb_group_fsm_event_all now clock CLM_GROUP_EVENT_STARTUP c1 = Returns c2" "master_ok c2" "clm_config c2 = clm_config clm"
      "\<forall>gi < ?n. group_fresh (clm_config clm) gi (clm_groups c2 ! gi) \<and> state_of_group c2 gi = CLM_GROUP_STATE_MASTER_LISTEN"
      "tm_state (clm_arbitration_timer c2) = CL_TIMER_STOPPED"
    unfolding cfg1 by auto
  define c3 where "c3 = memit_if True (Save_Parameter_No (clm_parameter_no c2 + 1)) (c2\<lparr>clm_parameter_no := clm_parameter_no c2 + 1\<rparr>)"
  have c3: "master_ok c3" "clm_config c3 = clm_config clm" "clm_groups c3 = clm_groups c2" "tm_state (clm_arbitration_timer c3) = CL_TIMER_STOPPED"
    using c2(2,3,5) by (simp_all add: c3_def memit_if_def master_ok_def device_tables_def group_tables_def unit_info_ok_def)
  from new_config_all_groups [OF c3(1) _ c3(4), of now clock] c2(4) c3(2,3) obtain c4 where
    c4: "clm_iefb_group_fsm_event_all now clock CLM_GROUP_EVENT_NEW_CONFIG c3 = Returns c4" "master_ok c4" "clm_config c4 = clm_config clm"
      "\<forall>gi < ?n. group_inv (clm_config clm) gi (clm_groups c4 ! gi) \<and> state_of_group c4 gi = CLM_GROUP_STATE_MASTER_ARBITRATION"
      "clm_arbitration_timer c4 = cl_timer_start (arbitration_period (clm_config clm)) now (clm_arbitration_timer c3)" "clm_state c4 = CLM_MASTER_STATE_ARBITRATION" using n(2) by auto
  have "clm_iefb_init mg ms now clock socket_ok arbitration_socket_ok clm = Returns (True, c4)"
    using sock c2(1) c4(1) by (simp add: clm_iefb_init_def Let_def c0_def [symmetric] c0(3) c1_def [symmetric]
        clm_iefb_handle_new_config_def c3_def [symmetric])
  moreover have "clm_inv c4" using c4 by (simp add: clm_inv_def groups_inv_def arbitration_inv_def timer_runs_def cl_timer_start_def)
  ultimately show ?thesis using c4 by blast
qed

section \<open>Received datagrams and the periodic function\<close>

text \<open>A response whose size is that of 17 to 20 stations can fail an assertion while it is parsed.\<close>

definition safe_datagram :: "bytes \<Rightarrow> bool" where
  "safe_datagram bs \<longleftrightarrow> length bs \<le> CL_BUFFER_LEN \<and> (\<forall>n \<in> {17..20}. length bs \<noteq> cl_calculate_cyclic_response_size n)"

lemma safe_datagram_parse:
  assumes "safe_datagram bs"
  shows "length bs < 2 ^ 64" "cl_iefb_parse_cyclic_response bs ip port now \<noteq> Assert_Failed"
proof -
  have l: "length bs \<le> 1500" using assms by (simp add: safe_datagram_def CL_BUFFER_LEN_def)
  then show len: "length bs < 2 ^ 64" by simp
  have "\<not> (\<exists>n > 16. n < 65536 \<and> length bs = 59 + 72 * n)"
  proof
    assume "\<exists>n > 16. n < 65536 \<and> length bs = 59 + 72 * n"
    then obtain n where n: "n > 16" "length bs = 59 + 72 * n" by blast
    then have "n \<in> {17..20}" using l by simp
    then show False using assms n(2) by (auto simp: safe_datagram_def cyclic_response_size)
  qed
  then show "cl_iefb_parse_cyclic_response bs ip port now \<noteq> Assert_Failed" using parse_response_assert_iff [OF len] by blast
qed

lemma clm_inv_fields [simp]:
  "clm_inv (clm\<lparr>clm_errorlimiter := l\<rparr>) = clm_inv clm"
  "clm_inv (clm\<lparr>clm_latest_conflicting_master_ip := ip\<rparr>) = clm_inv clm"
  by (simp_all add: clm_inv_def groups_inv_def arbitration_inv_def master_ok_def device_tables_def group_tables_def unit_info_ok_def)

lemma other_master_request:
  assumes "clm_inv clm"
  shows "\<exists>clm'. clm_iefb_handle_request_frame now clock ip clm = Returns (True, clm') \<and> clm_inv clm' \<and> clm_config clm' = clm_config clm \<and>
    (\<forall>gi < number_of_groups clm. state_of_group clm' gi = group_target CLM_GROUP_EVENT_REQ_FROM_OTHER (state_of_group clm gi))"
proof -
  let ?c = "clm\<lparr>clm_latest_conflicting_master_ip := ip\<rparr>"
  have "clm_inv ?c" "CLM_GROUP_EVENT_REQ_FROM_OTHER \<in> common_events" using assms by (simp_all add: common_events_def)
  from common_event_all_inv [OF this, of now clock] show ?thesis unfolding clm_iefb_handle_request_frame_def by auto
qed

lemma master_input_frame_ok:
  assumes inv: "clm_inv clm" and safe: "safe_datagram bs"
  shows "\<exists>b clm'. clm_iefb_handle_input_frame now clock bs ip port clm = Returns (b, clm') \<and> clm_inv clm' \<and> clm_config clm' = clm_config clm"
proof -
  obtain c where c: "clm_iefb_handle_request_frame now clock ip clm = Returns (True, c)" "clm_inv c" "clm_config c = clm_config clm"
    using other_master_request [OF inv, of now clock ip] by blast
  obtain b c' where c': "clm_iefb_handle_response_frame now clock bs ip port clm = Returns (b, c')" "clm_inv c'" "clm_config c' = clm_config clm"
    using handle_response_ok [OF inv safe_datagram_parse [OF safe], of now clock ip port] by blast
  show ?thesis unfolding clm_iefb_handle_input_frame_def
    using c c' inv by (auto split: option.splits)
qed

lemma receive_all_ok:
  assumes "clm_inv clm" "\<forall>d \<in> set ds. safe_datagram (fst d)"
  shows "\<exists>clm'. receive_all now clock ds clm = Returns clm' \<and> clm_inv clm' \<and> clm_config clm' = clm_config clm"
  using assms
proof (induction ds arbitrary: clm)
  case (Cons d ds)
  obtain bs ip port where d: "d = (bs, ip, port)" by (cases d)
  have "safe_datagram bs" using Cons.prems(2) d by simp
  from master_input_frame_ok [OF Cons.prems(1) this, of now clock ip port] obtain b c where
    c: "clm_iefb_handle_input_frame now clock bs ip port clm = Returns (b, c)" "clm_inv c" "clm_config c = clm_config clm" by blast
  then show ?case using Cons.IH [of c] Cons.prems d by auto
qed simp

lemma arbitration_over:
  assumes inv: "clm_inv clm" and ev: "ev = CLM_GROUP_EVENT_ARBITRATION_DONE"
  shows "\<exists>clm'. clm_iefb_group_fsm_event_all now clock ev (clm\<lparr>clm_arbitration_timer := cl_timer_stop (clm_arbitration_timer clm)\<rparr>) =
    Returns clm' \<and> clm_inv clm' \<and> clm_config clm' = clm_config clm \<and>
    (\<forall>gi < number_of_groups clm. state_of_group clm' gi = group_target ev (state_of_group clm gi))"
proof -
  let ?c = "clm\<lparr>clm_arbitration_timer := cl_timer_stop (clm_arbitration_timer clm)\<rparr>"
  have e: "ev \<in> common_events" by (simp add: ev common_events_def)
  have "groups_inv ?c" using inv by (simp add: clm_inv_def groups_inv_def master_ok_def device_tables_def group_tables_def unit_info_ok_def)
  from common_event_all [OF this e, of now clock] obtain c where
    c: "clm_iefb_group_fsm_event_all now clock ev ?c = Returns c" "groups_inv c" "clm_config c = clm_config clm"
      "\<forall>gi < number_of_groups clm. state_of_group c gi = group_target ev (state_of_group clm gi)" by auto
  have "arbitration_inv c" using c(3,4) group_target_arbitration [OF e] ev by (simp add: arbitration_inv_def)
  then show ?thesis using c by (auto simp: clm_inv_def)
qed

lemma obind_returns:
  assumes "\<exists>c. r = Returns c \<and> P c" "\<And>c. P c \<Longrightarrow> \<exists>c'. f c = Returns c' \<and> Q c'"
  shows "\<exists>c'. obind r f = Returns c' \<and> Q c'"
  using assms by auto

lemma master_periodic_ok:
  assumes inv: "clm_inv clm" and a: "\<forall>d. arb = Some d \<longrightarrow> safe_datagram (fst d)" and ds: "\<forall>d \<in> set ds. safe_datagram (fst d)"
  shows "\<exists>clm'. clm_iefb_periodic now clock arb ds clm = Returns clm' \<and> clm_inv clm' \<and> clm_config clm' = clm_config clm"
proof -
  define c where "c = clm\<lparr>clm_errorlimiter := cl_limiter_periodic now (clm_errorlimiter clm)\<rparr>"
  let ?P = "\<lambda>c. clm_inv c \<and> clm_config c = clm_config clm"
  have c: "?P c" using inv by (simp add: c_def)
  show ?thesis unfolding clm_iefb_periodic_def Let_def c_def [symmetric]
  proof (rule obind_returns [where P = ?P])
    show "\<exists>c'. (if cl_timer_is_expired (clm_arbitration_timer c) now
        then clm_iefb_group_fsm_event_all now clock CLM_GROUP_EVENT_ARBITRATION_DONE
          (c\<lparr>clm_arbitration_timer := cl_timer_stop (clm_arbitration_timer c)\<rparr>) else Returns c) = Returns c' \<and> ?P c'"
      using arbitration_over [of c _ now clock] c by auto
    fix c1 assume c1: "?P c1"
    show "\<exists>c'. obind (clm_iefb_monitor_all_group_timers now clock c1) (\<lambda>clm.
        obind (if mc_use_separate_arbitration_socket (clm_config clm)
             then case arb of
                    Some (buffer, remote_ip, remote_port) \<Rightarrow>
                      if length buffer > 0
                      then obind (clm_iefb_handle_input_frame now clock buffer remote_ip remote_port clm) (\<lambda>(_, clm). Returns clm)
                      else Returns clm
                  | None \<Rightarrow> Returns clm
             else Returns clm) (receive_all now clock ds)) = Returns c' \<and> ?P c'"
    proof (rule obind_returns [where P = ?P])
      show "\<exists>c'. clm_iefb_monitor_all_group_timers now clock c1 = Returns c' \<and> ?P c'" using monitor_all_ok [of c1 now clock] c1 by auto
      fix c2 assume c2: "?P c2"
      have "\<exists>c'. (case arb of Some (buffer, remote_ip, remote_port) \<Rightarrow>
            if length buffer > 0
            then obind (clm_iefb_handle_input_frame now clock buffer remote_ip remote_port c2) (\<lambda>(_, clm). Returns clm)
            else Returns c2 | None \<Rightarrow> Returns c2) = Returns c' \<and> ?P c'"
      proof (cases arb)
        case (Some d)
        obtain bs ip port where d: "d = (bs, ip, port)" by (cases d)
        from master_input_frame_ok [of c2 bs now clock ip port] c2 a Some d show ?thesis by auto
      qed (use c2 in simp)
      then show "\<exists>c'. obind (if mc_use_separate_arbitration_socket (clm_config c2)
             then case arb of
                    Some (buffer, remote_ip, remote_port) \<Rightarrow>
                      if length buffer > 0
                      then obind (clm_iefb_handle_input_frame now clock buffer remote_ip remote_port c2) (\<lambda>(_, clm). Returns clm)
                      else Returns c2
                  | None \<Rightarrow> Returns c2
             else Returns c2) (receive_all now clock ds) = Returns c' \<and> ?P c'"
        using c2 receive_all_ok [OF _ ds, of _ now clock] by (intro obind_returns [where P = ?P]) (auto, metis)
    qed
  qed
qed

end
