(* ===== verification/CLM_Loop.thy ===== *)
theory CLM_Loop
  imports CLM_Invariant
begin

text \<open>
  The loop over follow-up events of a group (\<open>clm_iefb_group_fsm_event\<close> in \<open>src/master/clm_iefb.c\<close>) for every
  event and in every state: what no round changes, why two rounds are always enough, the calls of the loop
  in the stack, and that nothing but a new configuration starts another arbitration.
\<close>

section \<open>What the group state machine leaves alone\<close>

text \<open>The tables and the address of the conflicting master are not changed by events of a group.\<close>

definition fixed_fields :: "clm \<Rightarrow> u32 \<times> (clm_group_state, clm_group_event, clm_group_action) matrix \<times> (clm_group_state, clm_group_action) entry_exit" where
  "fixed_fields clm = (clm_latest_conflicting_master_ip clm, clm_group_fsm_matrix clm, clm_group_fsm_on_entry_exit clm)"

lemma fixed_fields_simps [simp]:
  "fixed_fields (set_group gi g clm) = fixed_fields clm"
  "fixed_fields (clm_iefb_set_master_state st clm) = fixed_fields clm"
  "fixed_fields (clm_iefb_trigger_linkscan_callback gi b clm) = fixed_fields clm"
  "fixed_fields (clm_iefb_trigger_error_callback now e ip a clm) = fixed_fields clm"
  "fixed_fields (advance_sequence_no gi clm) = fixed_fields clm"
  "fixed_fields (clm\<lparr>clm_arbitration_timer := t\<rparr>) = fixed_fields clm"
  "fixed_fields (clm\<lparr>clm_out := out\<rparr>) = fixed_fields clm"
  by (simp_all add: fixed_fields_def set_group_def clm_iefb_set_master_state_def clm_iefb_trigger_linkscan_callback_def
      clm_iefb_trigger_error_callback_def memit_if_def Let_def advance_sequence_no_def split: prod.splits)

lemma on_group_fixed: "on_group gi f clm = Returns clm' \<Longrightarrow> fixed_fields clm' = fixed_fields clm"
  by (auto simp: on_group_def obind_Returns_iff)

text \<open>An action requests at most one event, the start of a link scan, and this event's action requests none.\<close>

lemma group_action_fixed:
  assumes "run_group_action a now clock gi clm = Returns (ev, clm')"
  shows "fixed_fields clm' = fixed_fields clm \<and> (ev \<noteq> CLM_GROUP_EVENT_NONE \<longrightarrow> ev = CLM_GROUP_EVENT_LINKSCAN_START \<and> a \<noteq> On_Linkscan_Start)"
  using assms
  by (cases a) (auto simp: no_group_event_def obind_Returns_iff clm_iefb_group_init_def clm_iefb_group_new_config_def
      clm_iefb_on_arbitration_failed_def clm_iefb_on_arbitration_done_def clm_iefb_on_linkscan_start_def
      clm_iefb_on_linkscan_timeout_def clm_iefb_on_linkscan_complete_def clm_iefb_group_on_entry_listen_def
      clm_iefb_group_on_entry_arbitration_def clm_iefb_group_on_entry_scan_complete_def Let_def dest!: on_group_fixed split: if_splits)

text \<open>A round runs the action of the table, and perhaps the entry action of the new state.\<close>

lemma group_round_steps:
  assumes "group_round now clock gi ev clm = Returns (ev', clm')"
  obtains st act c where "clm_group_fsm_matrix clm (state_of_group clm gi) ev = (st, act)"
    "(case act of Some a \<Rightarrow> run_group_action a now clock gi (set_group gi ((clm_groups clm ! gi)\<lparr>gd_group_state := st\<rparr>) clm)
      | None \<Rightarrow> Returns (CLM_GROUP_EVENT_NONE, set_group gi ((clm_groups clm ! gi)\<lparr>gd_group_state := st\<rparr>) clm)) = Returns (ev', c)"
    "clm' = c \<or> (\<exists>a e. fst (clm_group_fsm_on_entry_exit clm st) = Some a \<and> run_group_action a now clock gi c = Returns (e, clm'))"
proof -
  obtain st act where m: "clm_group_fsm_matrix clm (state_of_group clm gi) ev = (st, act)" by fastforce
  define c where "c = set_group gi ((clm_groups clm ! gi)\<lparr>gd_group_state := st\<rparr>) clm"
  obtain e1 c1 where a: "(case act of Some a \<Rightarrow> run_group_action a now clock gi c | None \<Rightarrow> Returns (CLM_GROUP_EVENT_NONE, c)) = Returns (e1, c1)"
      "(case fst (clm_group_fsm_on_entry_exit clm st) of
           Some a \<Rightarrow> if st \<noteq> state_of_group clm gi
                     then obind (run_group_action a now clock gi c1) (\<lambda>(_, clm). Returns (e1, clm))
                     else Returns (e1, c1)
         | None \<Rightarrow> Returns (e1, c1)) = Returns (ev', clm')"
    using assms unfolding group_round_def Let_def m prod.case c_def [symmetric]
    by (auto simp: obind_Returns_iff)
  have "ev' = e1 \<and> (clm' = c1 \<or> (\<exists>a e. fst (clm_group_fsm_on_entry_exit clm st) = Some a \<and> run_group_action a now clock gi c1 = Returns (e, clm')))"
    using a(2) by (auto simp: obind_Returns_iff split: option.splits if_splits)
  then show ?thesis using that [OF m] a(1) unfolding c_def by blast
qed

lemma group_round_fixed:
  assumes "group_round now clock gi ev clm = Returns (ev', clm')"
  shows "fixed_fields clm' = fixed_fields clm" "ev' \<noteq> CLM_GROUP_EVENT_NONE \<Longrightarrow> ev' = CLM_GROUP_EVENT_LINKSCAN_START"
    "ev' \<noteq> CLM_GROUP_EVENT_NONE \<Longrightarrow> group_tables clm \<Longrightarrow> ev \<noteq> CLM_GROUP_EVENT_LINKSCAN_START"
proof -
  from group_round_steps [OF assms] obtain st act c where
    m: "clm_group_fsm_matrix clm (state_of_group clm gi) ev = (st, act)"
      "(case act of Some a \<Rightarrow> run_group_action a now clock gi (set_group gi ((clm_groups clm ! gi)\<lparr>gd_group_state := st\<rparr>) clm)
        | None \<Rightarrow> Returns (CLM_GROUP_EVENT_NONE, set_group gi ((clm_groups clm ! gi)\<lparr>gd_group_state := st\<rparr>) clm)) = Returns (ev', c)"
      "clm' = c \<or> (\<exists>a e. fst (clm_group_fsm_on_entry_exit clm st) = Some a \<and> run_group_action a now clock gi c = Returns (e, clm'))" .
  have c: "fixed_fields c = fixed_fields clm \<and> (ev' \<noteq> CLM_GROUP_EVENT_NONE \<longrightarrow> ev' = CLM_GROUP_EVENT_LINKSCAN_START \<and> act \<noteq> Some On_Linkscan_Start)"
    using m(2) by (cases act) (auto dest!: group_action_fixed)
  then show "fixed_fields clm' = fixed_fields clm" "ev' \<noteq> CLM_GROUP_EVENT_NONE \<Longrightarrow> ev' = CLM_GROUP_EVENT_LINKSCAN_START"
    using m(3) group_action_fixed by fastforce+
  assume n: "ev' \<noteq> CLM_GROUP_EVENT_NONE" and t: "group_tables clm"
  show "ev \<noteq> CLM_GROUP_EVENT_LINKSCAN_START"
  proof
    assume "ev = CLM_GROUP_EVENT_LINKSCAN_START"
    then have "act = None \<or> act = Some On_Linkscan_Start"
      using m(1) t by (cases "state_of_group clm gi")
        (auto simp: group_tables_def build_matrix_def group_transitions_def set_transition_def)
    then show False using m(2) c n by auto
  qed
qed

lemma group_event_fixed: "clm_iefb_group_fsm_event now clock gi ev clm = Returns clm' \<Longrightarrow> fixed_fields clm' = fixed_fields clm"
  using event_loop_keeps [of "group_round now clock gi" "\<lambda>c. fixed_fields c = fixed_fields clm"] group_round_fixed(1)
  by (auto simp: clm_iefb_group_fsm_event_def split: if_splits)

lemma group_event_all_fixed: "clm_iefb_group_fsm_event_all now clock ev clm = Returns clm' \<Longrightarrow> fixed_fields clm' = fixed_fields clm"
  unfolding clm_iefb_group_fsm_event_all_def
  by (rule for_each_keeps [where P = "\<lambda>c. fixed_fields c = fixed_fields clm"]) (auto dest!: group_event_fixed)

text \<open>The address of another master that was stored for its request stays.\<close>

lemma request_frame_stores:
  "clm_iefb_handle_request_frame now clock ip clm = Returns (b, clm') \<Longrightarrow> clm_latest_conflicting_master_ip clm' = ip"
  by (auto simp: clm_iefb_handle_request_frame_def obind_Returns_iff fixed_fields_def dest!: group_event_all_fixed)

text \<open>The loop ends after two rounds, for every event and in every state.\<close>

lemma group_loop_bound:
  assumes t: "group_tables clm" and fuel: "group_fuel \<le> fuel"
  shows "event_loop (group_round now clock gi) CLM_GROUP_EVENT_NONE fuel ev clm =
    event_loop (group_round now clock gi) CLM_GROUP_EVENT_NONE group_fuel ev clm"
proof -
  obtain n where n: "fuel = Suc (Suc n)" using fuel that [of "fuel - 2"] by (simp add: group_fuel_def)
  have one: "event_loop (group_round now clock gi) CLM_GROUP_EVENT_NONE (Suc k) CLM_GROUP_EVENT_LINKSCAN_START c =
      obind (group_round now clock gi CLM_GROUP_EVENT_LINKSCAN_START c) (\<lambda>(_, c). Returns c)" if "group_tables c" for c k
    using group_round_fixed(3) [OF _ _ that] by (cases "group_round now clock gi CLM_GROUP_EVENT_LINKSCAN_START c") fastforce+
  show ?thesis
  proof (cases "group_round now clock gi ev clm")
    case (Returns r)
    obtain ev' c where r: "r = (ev', c)" by (cases r)
    note k = group_round_fixed [OF Returns [unfolded r]]
    have "group_tables c" using k(1) t by (simp add: group_tables_def fixed_fields_def)
    then have "event_loop (group_round now clock gi) CLM_GROUP_EVENT_NONE (Suc n) CLM_GROUP_EVENT_LINKSCAN_START c =
        event_loop (group_round now clock gi) CLM_GROUP_EVENT_NONE (Suc 0) CLM_GROUP_EVENT_LINKSCAN_START c" by (simp only: one)
    then show ?thesis using Returns r k(2) by (cases "ev' = CLM_GROUP_EVENT_NONE") (simp_all add: n group_fuel_def numeral_2_eq_2)
  qed (simp_all add: n group_fuel_def numeral_2_eq_2)
qed

section \<open>The calls of the group state machine\<close>

text \<open>
  The events that the stack raises for a group, and what holds when it does: \<open>STARTUP\<close> and \<open>NEW_CONFIG\<close>
  while the master is initialised, the three events of all groups, \<open>LINKSCAN_TIMEOUT\<close> and \<open>LINKSCAN_START\<close>
  once the timer that has expired is stopped, and \<open>LINKSCAN_COMPLETE\<close> after the response of the last device.
\<close>

definition group_event_raised :: "nat \<Rightarrow> clm_group_event \<Rightarrow> clm \<Rightarrow> bool" where
  "group_event_raised gi ev clm \<longleftrightarrow> gi < number_of_groups clm \<and>
     (let g = clm_groups clm ! gi; cfg = clm_config clm in
      ev = CLM_GROUP_EVENT_STARTUP \<and> master_ok clm \<and> group_blank cfg gi g \<or>
      ev = CLM_GROUP_EVENT_NEW_CONFIG \<and> master_ok clm \<and> group_fresh cfg gi g \<and> gd_group_state g = CLM_GROUP_STATE_MASTER_LISTEN \<or>
      ev \<in> {CLM_GROUP_EVENT_ARBITRATION_DONE, CLM_GROUP_EVENT_REQ_FROM_OTHER, CLM_GROUP_EVENT_MASTERDUPL_ALARM} \<and> groups_inv clm \<or>
      ev = CLM_GROUP_EVENT_LINKSCAN_TIMEOUT \<and> (\<exists>c. groups_inv c \<and>
        clm = set_group gi ((clm_groups c ! gi)\<lparr>gd_response_wait_timer := cl_timer_stop (gd_response_wait_timer (clm_groups c ! gi))\<rparr>) c) \<or>
      ev = CLM_GROUP_EVENT_LINKSCAN_START \<and> (\<exists>c. groups_inv c \<and>
        clm = set_group gi ((clm_groups c ! gi)\<lparr>gd_constant_linkscan_timer := cl_timer_stop (gd_constant_linkscan_timer (clm_groups c ! gi))\<rparr>) c) \<or>
      ev = CLM_GROUP_EVENT_LINKSCAN_COMPLETE \<and> groups_inv clm \<and>
        clm_iefb_group_have_received_from_all_devices (hi_groups (mc_hier cfg) ! gi) g)"

lemma groups_invD:
  assumes "groups_inv c" "gi < number_of_groups c"
  shows "master_ok c" "gi < length (clm_groups c)" "group_inv (clm_config c) gi (clm_groups c ! gi)" "master_ok (set_group gi g c)" "group_tables c"
  using assms only_group_ok [OF only_group_set] by (auto simp: groups_inv_def master_ok_def)

lemma timeout_raised:
  assumes inv: "groups_inv c" and gi: "gi < number_of_groups c"
    and clm: "clm = set_group gi ((clm_groups c ! gi)\<lparr>gd_response_wait_timer := t\<rparr>) c"
  shows "group_enabled clm gi CLM_GROUP_EVENT_LINKSCAN_TIMEOUT clm"
proof -
  note i = groups_invD [OF inv gi]
  have "group_inv (clm_config c) gi ((clm_groups clm ! gi)\<lparr>gd_response_wait_timer := gd_response_wait_timer (clm_groups c ! gi)\<rparr>)"
    using i(2,3) by (simp add: clm)
  then show ?thesis using i(4) gi by (auto simp: group_enabled_def Let_def clm)
qed

lemma start_raised:
  assumes inv: "groups_inv c" and gi: "gi < number_of_groups c"
    and clm: "clm = set_group gi ((clm_groups c ! gi)\<lparr>gd_constant_linkscan_timer := t\<rparr>) c"
  shows "\<exists>clm'. clm_iefb_group_fsm_event now clock gi CLM_GROUP_EVENT_LINKSCAN_START clm = Returns clm'"
proof (cases "state_of_group c gi = CLM_GROUP_STATE_MASTER_LINK_SCAN")
  case True
  note i = groups_invD [OF inv gi]
  have "state_of_group clm gi = CLM_GROUP_STATE_MASTER_LINK_SCAN" "group_tables clm" using True i(2,5) by (simp_all add: clm group_tables_def)
  then show ?thesis using group_event_idle [of clm gi CLM_GROUP_EVENT_LINKSCAN_START] by (simp add: group_find_live)
next
  case False
  note i = groups_invD [OF inv gi]
  have "group_inv (clm_config c) gi (clm_groups clm ! gi) \<or> scan_pending (clm_config c) gi (clm_groups clm ! gi)"
    using False i(2,3) unfolding clm by (auto simp: group_inv_def scan_pending_def Let_def group_ready_fields devices_in_def)
  then have "group_enabled clm gi CLM_GROUP_EVENT_LINKSCAN_START clm" using i(4) gi by (auto simp: group_enabled_def Let_def clm)
  from group_event_ok [OF this] show ?thesis by auto
qed

lemma complete_raised:
  assumes "groups_inv clm" "gi < number_of_groups clm"
    and "clm_iefb_group_have_received_from_all_devices (hi_groups (mc_hier (clm_config clm)) ! gi) (clm_groups clm ! gi)"
  shows "group_enabled clm gi CLM_GROUP_EVENT_LINKSCAN_COMPLETE clm"
  using groups_invD [OF assms(1,2)] assms(2) received_from_all [OF _ refl assms(3)] by (simp add: group_enabled_def Let_def)

lemma raised_event_returns:
  assumes "group_event_raised gi ev clm"
  shows "\<exists>clm'. clm_iefb_group_fsm_event now clock gi ev clm = Returns clm'" "ev \<noteq> CLM_GROUP_EVENT_LAST" "group_tables clm"
proof -
  have gi: "gi < number_of_groups clm" using assms by (simp add: group_event_raised_def)
  consider (startup) "ev = CLM_GROUP_EVENT_STARTUP" "master_ok clm" "group_blank (clm_config clm) gi (clm_groups clm ! gi)"
    | (config) "ev = CLM_GROUP_EVENT_NEW_CONFIG" "master_ok clm" "group_fresh (clm_config clm) gi (clm_groups clm ! gi)"
        "state_of_group clm gi = CLM_GROUP_STATE_MASTER_LISTEN"
    | (common) "ev \<in> {CLM_GROUP_EVENT_ARBITRATION_DONE, CLM_GROUP_EVENT_REQ_FROM_OTHER, CLM_GROUP_EVENT_MASTERDUPL_ALARM}" "groups_inv clm"
    | (timeout) c t where "ev = CLM_GROUP_EVENT_LINKSCAN_TIMEOUT" "groups_inv c" "clm = set_group gi ((clm_groups c ! gi)\<lparr>gd_response_wait_timer := t\<rparr>) c"
    | (scan) c t where "ev = CLM_GROUP_EVENT_LINKSCAN_START" "groups_inv c" "clm = set_group gi ((clm_groups c ! gi)\<lparr>gd_constant_linkscan_timer := t\<rparr>) c"
    | (complete) "ev = CLM_GROUP_EVENT_LINKSCAN_COMPLETE" "groups_inv clm"
        "clm_iefb_group_have_received_from_all_devices (hi_groups (mc_hier (clm_config clm)) ! gi) (clm_groups clm ! gi)"
    using assms unfolding group_event_raised_def Let_def by blast
  then have "(\<exists>clm'. clm_iefb_group_fsm_event now clock gi ev clm = Returns clm') \<and> ev \<noteq> CLM_GROUP_EVENT_LAST \<and> group_tables clm"
  proof cases
    case startup
    then show ?thesis using round_startup [OF startup(2) gi refl startup(3), of now clock] group_event_final by (fastforce simp: master_ok_def)
  next
    case config
    then show ?thesis using round_new_config [OF config(2) gi refl config(3,4), of now clock] group_event_final by (fastforce simp: master_ok_def)
  next
    case common
    then show ?thesis using group_event_ok [OF groups_inv_enabled [OF common(2) gi], of ev now clock] groups_invD [OF common(2) gi] by auto
  next
    case timeout
    have gc: "gi < number_of_groups c" using gi timeout(3) by simp
    show ?thesis using group_event_ok [OF timeout_raised [OF timeout(2) gc timeout(3)], of now clock] groups_invD(4) [OF timeout(2) gc] timeout(1,3)
      by (auto simp: master_ok_def)
  next
    case scan
    have gc: "gi < number_of_groups c" using gi scan(3) by simp
    show ?thesis using start_raised [OF scan(2) gc scan(3), of now clock] groups_invD(4) [OF scan(2) gc] scan(1,3) by (auto simp: master_ok_def)
  next
    case complete
    then show ?thesis using group_event_ok [OF complete_raised [OF complete(2) gi complete(3)], of now clock] groups_invD [OF complete(2) gi] by auto
  qed
  then show "\<exists>clm'. clm_iefb_group_fsm_event now clock gi ev clm = Returns clm'" "ev \<noteq> CLM_GROUP_EVENT_LAST" "group_tables clm" by blast+
qed

lemma raised_loop_returns:
  assumes "group_event_raised gi ev clm" "group_fuel \<le> fuel"
  shows "\<exists>clm'. event_loop (group_round now clock gi) CLM_GROUP_EVENT_NONE fuel ev clm = Returns clm'"
  using raised_event_returns(1) [OF assms(1), of now clock] raised_event_returns(2,3) [OF assms(1)] group_loop_bound [OF _ assms(2)]
  by (simp add: clm_iefb_group_fsm_event_def)

section \<open>Once the arbitration timer is stopped\<close>

text \<open>Only a new configuration starts the timer of the arbitration again.\<close>

definition timer_stopped :: "clm \<Rightarrow> bool" where
  "timer_stopped clm \<longleftrightarrow> group_tables clm \<and> tm_state (clm_arbitration_timer clm) = CL_TIMER_STOPPED"

lemma timer_stopped_fields:
  "fixed_fields clm' = fixed_fields clm \<Longrightarrow> clm_arbitration_timer clm' = clm_arbitration_timer clm \<Longrightarrow> timer_stopped clm' = timer_stopped clm"
  by (simp add: timer_stopped_def group_tables_def fixed_fields_def)

lemma arbitration_timer_simps [simp]:
  "clm_arbitration_timer (set_group gi g clm) = clm_arbitration_timer clm"
  "clm_arbitration_timer (clm_iefb_set_master_state st clm) = clm_arbitration_timer clm"
  "clm_arbitration_timer (clm_iefb_trigger_linkscan_callback gi b clm) = clm_arbitration_timer clm"
  "clm_arbitration_timer (clm_iefb_trigger_error_callback now e ip a clm) = clm_arbitration_timer clm"
  "clm_arbitration_timer (advance_sequence_no gi clm) = clm_arbitration_timer clm"
  by (simp_all add: set_group_def clm_iefb_set_master_state_def clm_iefb_trigger_linkscan_callback_def
      clm_iefb_trigger_error_callback_def memit_if_def Let_def advance_sequence_no_def split: prod.splits)

lemma on_group_timer: "on_group gi f clm = Returns clm' \<Longrightarrow> clm_arbitration_timer clm' = clm_arbitration_timer clm"
  by (auto simp: on_group_def obind_Returns_iff)

lemma group_action_timer:
  assumes "run_group_action a now clock gi clm = Returns (ev, clm')" "a \<noteq> Group_New_Config"
    and "tm_state (clm_arbitration_timer clm) = CL_TIMER_STOPPED"
  shows "tm_state (clm_arbitration_timer clm') = CL_TIMER_STOPPED"
  using assms
  by (cases a) (auto simp: no_group_event_def obind_Returns_iff clm_iefb_group_init_def cl_timer_stop_def
      clm_iefb_on_arbitration_failed_def clm_iefb_on_arbitration_done_def clm_iefb_on_linkscan_start_def
      clm_iefb_on_linkscan_timeout_def clm_iefb_on_linkscan_complete_def clm_iefb_group_on_entry_listen_def
      clm_iefb_group_on_entry_arbitration_def clm_iefb_group_on_entry_scan_complete_def Let_def dest!: on_group_timer split: if_splits)

lemma group_round_timer:
  assumes r: "group_round now clock gi ev clm = Returns (ev', clm')" and ev: "ev \<noteq> CLM_GROUP_EVENT_NEW_CONFIG" and s: "timer_stopped clm"
  shows "timer_stopped clm'"
proof -
  have t: "group_tables clm" "tm_state (clm_arbitration_timer clm) = CL_TIMER_STOPPED" using s by (simp_all add: timer_stopped_def)
  from group_round_steps [OF r] obtain st act c where
    m: "clm_group_fsm_matrix clm (state_of_group clm gi) ev = (st, act)"
      "(case act of Some a \<Rightarrow> run_group_action a now clock gi (set_group gi ((clm_groups clm ! gi)\<lparr>gd_group_state := st\<rparr>) clm)
        | None \<Rightarrow> Returns (CLM_GROUP_EVENT_NONE, set_group gi ((clm_groups clm ! gi)\<lparr>gd_group_state := st\<rparr>) clm)) = Returns (ev', c)"
      "clm' = c \<or> (\<exists>a e. fst (clm_group_fsm_on_entry_exit clm st) = Some a \<and> run_group_action a now clock gi c = Returns (e, clm'))" .
  have act: "act \<noteq> Some Group_New_Config"
    using m(1) t(1) ev by (cases "state_of_group clm gi"; cases ev)
      (auto simp: group_tables_def build_matrix_def group_transitions_def set_transition_def)
  have entry: "fst (clm_group_fsm_on_entry_exit clm st) \<noteq> Some Group_New_Config"
    using t(1) by (cases st) (auto simp: group_tables_def build_entry_exit_def group_state_actions_def set_state_actions_def)
  have c: "tm_state (clm_arbitration_timer c) = CL_TIMER_STOPPED"
    using m(2) act t(2) group_action_timer by (cases act) auto
  then have "tm_state (clm_arbitration_timer clm') = CL_TIMER_STOPPED"
    using m(3) entry group_action_timer by fastforce
  then show ?thesis using group_round_fixed(1) [OF r] t(1) by (simp add: timer_stopped_def group_tables_def fixed_fields_def)
qed

lemma group_event_timer:
  assumes "clm_iefb_group_fsm_event now clock gi ev clm = Returns clm'" "ev \<noteq> CLM_GROUP_EVENT_NEW_CONFIG" "timer_stopped clm"
  shows "timer_stopped clm'"
proof (cases "ev = CLM_GROUP_EVENT_LAST")
  case False
  then have r: "event_loop (group_round now clock gi) CLM_GROUP_EVENT_NONE group_fuel ev clm = Returns clm'"
    using assms(1) by (simp add: clm_iefb_group_fsm_event_def)
  show ?thesis
  proof (rule event_loop_keeps_for [where P = timer_stopped and Q = "\<lambda>e. e \<noteq> CLM_GROUP_EVENT_NEW_CONFIG", OF _ r assms(2,3)])
    fix e s e' s' assume "group_round now clock gi e s = Returns (e', s')" "e \<noteq> CLM_GROUP_EVENT_NEW_CONFIG" "timer_stopped s"
    then show "timer_stopped s' \<and> e' \<noteq> CLM_GROUP_EVENT_NEW_CONFIG"
      using group_round_timer group_round_fixed(2) by fastforce
  qed
qed (use assms in \<open>simp add: clm_iefb_group_fsm_event_def\<close>)

lemma group_event_all_timer:
  "clm_iefb_group_fsm_event_all now clock ev clm = Returns clm' \<Longrightarrow> ev \<noteq> CLM_GROUP_EVENT_NEW_CONFIG \<Longrightarrow> timer_stopped clm \<Longrightarrow> timer_stopped clm'"
  unfolding clm_iefb_group_fsm_event_all_def
  by (rule for_each_keeps [where P = timer_stopped]) (auto dest: group_event_timer)

lemma timer_stopped_simps [simp]:
  "timer_stopped (set_group gi g clm) = timer_stopped clm"
  "timer_stopped (clm_iefb_trigger_error_callback now e ip a clm) = timer_stopped clm"
  "timer_stopped (memit_if b x clm) = timer_stopped clm"
  "timer_stopped (clm\<lparr>clm_latest_conflicting_master_ip := ip\<rparr>) = timer_stopped clm"
  "timer_stopped (upd_dev gi di f clm) = timer_stopped clm"
  "timer_stopped (count_invalid gi di clm) = timer_stopped clm"
  "timer_stopped (count_alarm gi di clm) = timer_stopped clm"
  "timer_stopped (response_errors now gi di ec ip clm) = timer_stopped clm"
  "timer_stopped (response_notify gi di ec sec info clm) = timer_stopped clm"
  "timer_stopped (response_store gi di resp clm) = timer_stopped clm"
  by (simp_all add: timer_stopped_def group_tables_def set_group_def clm_iefb_trigger_error_callback_def memit_if_def Let_def upd_dev_def
      count_invalid_def count_alarm_def response_errors_def response_notify_def response_store_def
      clm_iefb_trigger_alarmframe_callback_def clm_iefb_trigger_slaveinfo_callback_def split: prod.splits)

lemma on_group_stopped: "on_group gi f clm = Returns clm' \<Longrightarrow> timer_stopped clm' = timer_stopped clm"
  by (rule timer_stopped_fields) (simp_all add: on_group_fixed on_group_timer)

lemma response_events_timer:
  "response_events now clock gi di ec clm = Returns clm' \<Longrightarrow> timer_stopped clm \<Longrightarrow> timer_stopped clm'"
  by (auto simp: response_events_def Let_def obind_Returns_iff dest!: on_group_stopped split: if_splits
      elim: group_event_timer group_event_all_timer)

lemma device_response_timer:
  assumes "handle_device_response now clock gi di resp clm = Returns (b, clm')" "timer_stopped clm"
  shows "timer_stopped clm'"
proof -
  have ev: "timer_stopped c \<Longrightarrow> obind (response_events now clock gi di ec c) (\<lambda>clm. Returns (True, clm)) = Returns (b, clm') \<Longrightarrow> timer_stopped clm'" for ec c
    using response_events_timer by (auto simp: obind_Returns_iff)
  have dup: "timer_stopped c \<Longrightarrow> obind (on_group gi f c) (\<lambda>clm. Returns (False, clm)) = Returns (b, clm') \<Longrightarrow> timer_stopped clm'" for f c
    using on_group_stopped by (auto simp: obind_Returns_iff)
  show ?thesis using assms unfolding handle_device_response_def Let_def
    by (auto split: if_splits elim!: ev [rotated] dup [rotated])
qed

lemma response_frame_timer:
  assumes "clm_iefb_handle_response_frame now clock bs ip port clm = Returns (b, clm')" "timer_stopped clm"
  shows "timer_stopped clm'"
  using assms device_response_timer
  by (cases "cl_iefb_parse_cyclic_response bs ip port now") (auto simp: clm_iefb_handle_response_frame_def Let_def split: if_splits option.splits)

lemma input_frame_timer:
  assumes "clm_iefb_handle_input_frame now clock bs ip port clm = Returns (b, clm')" "timer_stopped clm"
  shows "timer_stopped clm'"
proof -
  have "timer_stopped clm'" if "clm_iefb_handle_request_frame now clock ip clm = Returns (b, clm')"
    using that assms(2) group_event_all_timer [of now clock CLM_GROUP_EVENT_REQ_FROM_OTHER "clm\<lparr>clm_latest_conflicting_master_ip := ip\<rparr>"]
    by (auto simp: clm_iefb_handle_request_frame_def obind_Returns_iff)
  then show ?thesis using assms response_frame_timer unfolding clm_iefb_handle_input_frame_def
    by (auto split: if_splits option.splits)
qed

lemma receive_all_timer: "receive_all now clock ds clm = Returns clm' \<Longrightarrow> timer_stopped clm \<Longrightarrow> timer_stopped clm'"
proof (induction ds arbitrary: clm)
  case (Cons d ds)
  then show ?case by (cases d) (auto simp: obind_Returns_iff dest!: input_frame_timer split: if_splits)
qed simp

lemma monitor_timer: "clm_iefb_monitor_all_group_timers now clock clm = Returns clm' \<Longrightarrow> timer_stopped clm \<Longrightarrow> timer_stopped clm'"
  unfolding clm_iefb_monitor_all_group_timers_def
  by (rule for_each_keeps [where P = timer_stopped])
    (auto simp: monitor_group_timers_def Let_def obind_Returns_iff split: if_splits elim!: group_event_timer)

lemma stopped_no_arbitration:
  "clm_inv clm \<Longrightarrow> timer_stopped clm \<Longrightarrow> gi < number_of_groups clm \<Longrightarrow> state_of_group clm gi \<noteq> CLM_GROUP_STATE_MASTER_ARBITRATION"
  by (auto simp: clm_inv_def arbitration_inv_def timer_stopped_def timer_runs_def)

end
