(* ===== verification/CL_Eth.thy ===== *)
theory CL_Eth
  imports CL_Util
begin

text \<open>
  The operating system functions that the stack calls (\<open>src/common/clal.h\<close>, implemented per platform on
  top of system calls) and the access to the network settings (\<open>src/common/cl_eth.c\<close>).

  The operating system is a record of functions and an argument of the operations that use it; different
  calls of the stack can be given different records. \<open>None\<close> stands for a result of -1, and
  \<open>os_set_ip_address_netmask\<close> tells whether the address was set.
\<close>

definition CL_IPADDR_ANY :: u32 where "CL_IPADDR_ANY = 0"
definition CL_IPADDR_LOCAL_BROADCAST :: u32 where "CL_IPADDR_LOCAL_BROADCAST = 0xFFFFFFFF"

record cl_os =
  os_get_ifindex :: "u32 \<Rightarrow> int option"
  os_get_ifname :: "int \<Rightarrow> string option"
  os_get_mac_address :: "int \<Rightarrow> bytes option"
  os_get_netmask :: "int \<Rightarrow> u32 option"
  os_set_ip_address_netmask :: "int \<Rightarrow> u32 \<Rightarrow> u32 \<Rightarrow> bool"
  os_udp_open :: "u32 \<Rightarrow> u16 \<Rightarrow> int"
  os_udp_sendto :: "int \<Rightarrow> u32 \<Rightarrow> u16 \<Rightarrow> bytes \<Rightarrow> int"

record cl_network_settings =
  nw_ifindex :: int
  nw_netmask :: u32
  nw_mac_address :: bytes
  nw_ifname :: string

definition cl_eth_get_network_settings :: "cl_os \<Rightarrow> u32 \<Rightarrow> cl_network_settings option" where
  "cl_eth_get_network_settings os ip_addr = (case os_get_ifindex os ip_addr of
      None \<Rightarrow> None
    | Some ifindex \<Rightarrow>
        let ifname = (case os_get_ifname os ifindex of Some name \<Rightarrow> name | None \<Rightarrow> ''UNKNOWN'')
        in (case os_get_mac_address os ifindex of
            None \<Rightarrow> None
          | Some mac_address \<Rightarrow> (case os_get_netmask os ifindex of
              None \<Rightarrow> None
            | Some netmask \<Rightarrow> Some \<lparr>nw_ifindex = ifindex, nw_netmask = netmask,
                nw_mac_address = mac_address, nw_ifname = ifname\<rparr>)))"

definition cl_eth_set_network_settings :: "cl_os \<Rightarrow> int \<Rightarrow> u32 \<Rightarrow> u32 \<Rightarrow> bool" where
  "cl_eth_set_network_settings os ifindex ip netmask = os_set_ip_address_netmask os ifindex ip netmask"

end
