(* ===== verification/CL_SLMP.thy ===== *)
theory CL_SLMP
  imports CL_IEFB CL_Eth CL_Timer
begin

text \<open>
  The SLMP frames for node search and IP address assignment (\<open>src/common/cl_slmp.c\<close>, the structs in
  \<open>src/common/cl_types.h\<close>) and their transmission (\<open>src/common/cl_slmp_udp.c\<close>).

  Structs are modelled as in \<open>CL_Frames\<close>, and the locale \<open>packed_struct\<close> is interpreted for each of them.
  The lemmas show that the checks of a receiver accept exactly the frames that a sender prepares, for every
  frame except the node search response (which is checked less strictly), and determine the delay that keeps
  the responses of several slaves apart.
\<close>

section \<open>Structs and their layout\<close>

record cl_slmp_req_header =
  slq_sub1 :: u16
  slq_serial :: u16
  slq_sub2 :: u16
  slq_network_number :: u8
  slq_unit_number :: u8
  slq_io_number :: u16
  slq_extension :: u8
  slq_length :: u16
  slq_timer :: u16
  slq_command :: u16
  slq_sub_command :: u16

definition enc_slmp_req_header :: "cl_slmp_req_header \<Rightarrow> bytes" where
  "enc_slmp_req_header h =
     be16_bytes (slq_sub1 h) @
     le16_bytes (slq_serial h) @
     le16_bytes (slq_sub2 h) @
     [slq_network_number h] @
     [slq_unit_number h] @
     le16_bytes (slq_io_number h) @
     [slq_extension h] @
     le16_bytes (slq_length h) @
     le16_bytes (slq_timer h) @
     le16_bytes (slq_command h) @
     le16_bytes (slq_sub_command h)"

definition dec_slmp_req_header :: "bytes \<Rightarrow> nat \<Rightarrow> cl_slmp_req_header" where
  "dec_slmp_req_header bs i = \<lparr>
     slq_sub1 = be16_at bs i,
     slq_serial = le16_at bs (i + 2),
     slq_sub2 = le16_at bs (i + 4),
     slq_network_number = bs ! (i + 6),
     slq_unit_number = bs ! (i + 7),
     slq_io_number = le16_at bs (i + 8),
     slq_extension = bs ! (i + 10),
     slq_length = le16_at bs (i + 11),
     slq_timer = le16_at bs (i + 13),
     slq_command = le16_at bs (i + 15),
     slq_sub_command = le16_at bs (i + 17)\<rparr>"

record cl_slmp_resp_header =
  slr_sub1 :: u16
  slr_serial :: u16
  slr_sub2 :: u16
  slr_network_number :: u8
  slr_unit_number :: u8
  slr_io_number :: u16
  slr_extension :: u8
  slr_length :: u16
  slr_endcode :: u16

definition enc_slmp_resp_header :: "cl_slmp_resp_header \<Rightarrow> bytes" where
  "enc_slmp_resp_header h =
     be16_bytes (slr_sub1 h) @
     le16_bytes (slr_serial h) @
     le16_bytes (slr_sub2 h) @
     [slr_network_number h] @
     [slr_unit_number h] @
     le16_bytes (slr_io_number h) @
     [slr_extension h] @
     le16_bytes (slr_length h) @
     le16_bytes (slr_endcode h)"

definition dec_slmp_resp_header :: "bytes \<Rightarrow> nat \<Rightarrow> cl_slmp_resp_header" where
  "dec_slmp_resp_header bs i = \<lparr>
     slr_sub1 = be16_at bs i,
     slr_serial = le16_at bs (i + 2),
     slr_sub2 = le16_at bs (i + 4),
     slr_network_number = bs ! (i + 6),
     slr_unit_number = bs ! (i + 7),
     slr_io_number = le16_at bs (i + 8),
     slr_extension = bs ! (i + 10),
     slr_length = le16_at bs (i + 11),
     slr_endcode = le16_at bs (i + 13)\<rparr>"

record cl_slmp_node_search_request =
  nsq_header :: cl_slmp_req_header
  nsq_master_mac_addr :: bytes
  nsq_master_ip_addr_size :: u8
  nsq_master_ip_addr :: u32

definition enc_node_search_request :: "cl_slmp_node_search_request \<Rightarrow> bytes" where
  "enc_node_search_request h =
     enc_slmp_req_header (nsq_header h) @
     nsq_master_mac_addr h @
     [nsq_master_ip_addr_size h] @
     le32_bytes (nsq_master_ip_addr h)"

definition dec_node_search_request :: "bytes \<Rightarrow> nat \<Rightarrow> cl_slmp_node_search_request" where
  "dec_node_search_request bs i = \<lparr>
     nsq_header = dec_slmp_req_header bs i,
     nsq_master_mac_addr = take 6 (drop (i + 19) bs),
     nsq_master_ip_addr_size = bs ! (i + 25),
     nsq_master_ip_addr = le32_at bs (i + 26)\<rparr>"

record cl_slmp_node_search_resp =
  nsr_header :: cl_slmp_resp_header
  nsr_master_mac_addr :: bytes
  nsr_master_ip_addr_size :: u8
  nsr_master_ip_addr :: u32
  nsr_slave_mac_addr :: bytes
  nsr_slave_ip_addr_size :: u8
  nsr_slave_ip_addr :: u32
  nsr_slave_netmask :: u32
  nsr_slave_default_gateway :: u32
  nsr_slave_hostname_size :: u8
  nsr_vendor_code :: u16
  nsr_model_code :: u32
  nsr_equipment_ver :: u16
  nsr_target_ip_addr_size :: u8
  nsr_target_ip_addr :: u32
  nsr_target_port :: u16
  nsr_slave_status :: u16
  nsr_slave_port :: u16
  nsr_slave_protocol_settings :: u8

definition enc_node_search_resp :: "cl_slmp_node_search_resp \<Rightarrow> bytes" where
  "enc_node_search_resp h =
     enc_slmp_resp_header (nsr_header h) @
     nsr_master_mac_addr h @
     [nsr_master_ip_addr_size h] @
     le32_bytes (nsr_master_ip_addr h) @
     nsr_slave_mac_addr h @
     [nsr_slave_ip_addr_size h] @
     le32_bytes (nsr_slave_ip_addr h) @
     le32_bytes (nsr_slave_netmask h) @
     le32_bytes (nsr_slave_default_gateway h) @
     [nsr_slave_hostname_size h] @
     le16_bytes (nsr_vendor_code h) @
     le32_bytes (nsr_model_code h) @
     le16_bytes (nsr_equipment_ver h) @
     [nsr_target_ip_addr_size h] @
     le32_bytes (nsr_target_ip_addr h) @
     le16_bytes (nsr_target_port h) @
     le16_bytes (nsr_slave_status h) @
     le16_bytes (nsr_slave_port h) @
     [nsr_slave_protocol_settings h]"

definition dec_node_search_resp :: "bytes \<Rightarrow> nat \<Rightarrow> cl_slmp_node_search_resp" where
  "dec_node_search_resp bs i = \<lparr>
     nsr_header = dec_slmp_resp_header bs i,
     nsr_master_mac_addr = take 6 (drop (i + 15) bs),
     nsr_master_ip_addr_size = bs ! (i + 21),
     nsr_master_ip_addr = le32_at bs (i + 22),
     nsr_slave_mac_addr = take 6 (drop (i + 26) bs),
     nsr_slave_ip_addr_size = bs ! (i + 32),
     nsr_slave_ip_addr = le32_at bs (i + 33),
     nsr_slave_netmask = le32_at bs (i + 37),
     nsr_slave_default_gateway = le32_at bs (i + 41),
     nsr_slave_hostname_size = bs ! (i + 45),
     nsr_vendor_code = le16_at bs (i + 46),
     nsr_model_code = le32_at bs (i + 48),
     nsr_equipment_ver = le16_at bs (i + 52),
     nsr_target_ip_addr_size = bs ! (i + 54),
     nsr_target_ip_addr = le32_at bs (i + 55),
     nsr_target_port = le16_at bs (i + 59),
     nsr_slave_status = le16_at bs (i + 61),
     nsr_slave_port = le16_at bs (i + 63),
     nsr_slave_protocol_settings = bs ! (i + 65)\<rparr>"

record cl_slmp_set_ipaddr_request =
  siq_header :: cl_slmp_req_header
  siq_master_mac_addr :: bytes
  siq_master_ip_addr_size :: u8
  siq_master_ip_addr :: u32
  siq_slave_mac_addr :: bytes
  siq_slave_ip_addr_size :: u8
  siq_slave_new_ip_addr :: u32
  siq_slave_new_netmask :: u32
  siq_slave_default_gateway :: u32
  siq_slave_hostname_size :: u8
  siq_target_ip_addr_size :: u8
  siq_target_ip_addr :: u32
  siq_target_port :: u16
  siq_slave_protocol_settings :: u8

definition enc_set_ipaddr_request :: "cl_slmp_set_ipaddr_request \<Rightarrow> bytes" where
  "enc_set_ipaddr_request h =
     enc_slmp_req_header (siq_header h) @
     siq_master_mac_addr h @
     [siq_master_ip_addr_size h] @
     le32_bytes (siq_master_ip_addr h) @
     siq_slave_mac_addr h @
     [siq_slave_ip_addr_size h] @
     le32_bytes (siq_slave_new_ip_addr h) @
     le32_bytes (siq_slave_new_netmask h) @
     le32_bytes (siq_slave_default_gateway h) @
     [siq_slave_hostname_size h] @
     [siq_target_ip_addr_size h] @
     le32_bytes (siq_target_ip_addr h) @
     le16_bytes (siq_target_port h) @
     [siq_slave_protocol_settings h]"

definition dec_set_ipaddr_request :: "bytes \<Rightarrow> nat \<Rightarrow> cl_slmp_set_ipaddr_request" where
  "dec_set_ipaddr_request bs i = \<lparr>
     siq_header = dec_slmp_req_header bs i,
     siq_master_mac_addr = take 6 (drop (i + 19) bs),
     siq_master_ip_addr_size = bs ! (i + 25),
     siq_master_ip_addr = le32_at bs (i + 26),
     siq_slave_mac_addr = take 6 (drop (i + 30) bs),
     siq_slave_ip_addr_size = bs ! (i + 36),
     siq_slave_new_ip_addr = le32_at bs (i + 37),
     siq_slave_new_netmask = le32_at bs (i + 41),
     siq_slave_default_gateway = le32_at bs (i + 45),
     siq_slave_hostname_size = bs ! (i + 49),
     siq_target_ip_addr_size = bs ! (i + 50),
     siq_target_ip_addr = le32_at bs (i + 51),
     siq_target_port = le16_at bs (i + 55),
     siq_slave_protocol_settings = bs ! (i + 57)\<rparr>"

record cl_slmp_set_ipaddr_resp =
  sir_header :: cl_slmp_resp_header
  sir_master_mac_addr :: bytes

definition enc_set_ipaddr_resp :: "cl_slmp_set_ipaddr_resp \<Rightarrow> bytes" where
  "enc_set_ipaddr_resp h =
     enc_slmp_resp_header (sir_header h) @
     sir_master_mac_addr h"

definition dec_set_ipaddr_resp :: "bytes \<Rightarrow> nat \<Rightarrow> cl_slmp_set_ipaddr_resp" where
  "dec_set_ipaddr_resp bs i = \<lparr>
     sir_header = dec_slmp_resp_header bs i,
     sir_master_mac_addr = take 6 (drop (i + 15) bs)\<rparr>"

record cl_slmp_error_resp =
  ser_header :: cl_slmp_resp_header
  ser_error_network_number :: u8
  ser_error_unit_number :: u8
  ser_error_io_number :: u16
  ser_error_extension :: u8
  ser_command :: u16
  ser_sub_command :: u16

definition enc_slmp_error_resp :: "cl_slmp_error_resp \<Rightarrow> bytes" where
  "enc_slmp_error_resp h =
     enc_slmp_resp_header (ser_header h) @
     [ser_error_network_number h] @
     [ser_error_unit_number h] @
     le16_bytes (ser_error_io_number h) @
     [ser_error_extension h] @
     le16_bytes (ser_command h) @
     le16_bytes (ser_sub_command h)"

definition dec_slmp_error_resp :: "bytes \<Rightarrow> nat \<Rightarrow> cl_slmp_error_resp" where
  "dec_slmp_error_resp bs i = \<lparr>
     ser_header = dec_slmp_resp_header bs i,
     ser_error_network_number = bs ! (i + 15),
     ser_error_unit_number = bs ! (i + 16),
     ser_error_io_number = le16_at bs (i + 17),
     ser_error_extension = bs ! (i + 19),
     ser_command = le16_at bs (i + 20),
     ser_sub_command = le16_at bs (i + 22)\<rparr>"

text \<open>The sizes of the packed structs, as the \<open>CC_STATIC_ASSERT\<close> lines fix them.\<close>

definition sizeof_slmp_req_header :: nat where "sizeof_slmp_req_header = 19"
definition sizeof_slmp_resp_header :: nat where "sizeof_slmp_resp_header = 15"
definition sizeof_node_search_request :: nat where "sizeof_node_search_request = 30"
definition sizeof_node_search_resp :: nat where "sizeof_node_search_resp = 66"
definition sizeof_set_ipaddr_request :: nat where "sizeof_set_ipaddr_request = 58"
definition sizeof_set_ipaddr_resp :: nat where "sizeof_set_ipaddr_resp = 21"
definition sizeof_slmp_error_resp :: nat where "sizeof_slmp_error_resp = 24"

lemmas slmp_sizeof_defs = sizeof_slmp_req_header_def sizeof_slmp_resp_header_def sizeof_node_search_request_def sizeof_node_search_resp_def sizeof_set_ipaddr_request_def sizeof_set_ipaddr_resp_def sizeof_slmp_error_resp_def

section \<open>Reading and writing packed structs\<close>

text \<open>Reading a field skips the fields in front of it; the encodings of consecutive fields join up.\<close>

lemma at_skip:
  assumes "length xs \<le> i"
  shows "le16_at (xs @ ys) i = le16_at ys (i - length xs)" "be16_at (xs @ ys) i = be16_at ys (i - length xs)"
    "le32_at (xs @ ys) i = le32_at ys (i - length xs)"
  using assms by (simp_all add: le16_at_def be16_at_def le32_at_def nth_append Suc_diff_le
    numeral_2_eq_2 numeral_3_eq_3)

lemma at_skip1:
  assumes "0 < i"
  shows "le16_at (x # ys) i = le16_at ys (i - 1)" "be16_at (x # ys) i = be16_at ys (i - 1)"
    "le32_at (x # ys) i = le32_at ys (i - 1)"
  using at_skip [of "[x]" i ys] assms by simp_all

lemma at_first:
  "le16_at (le16_bytes w @ ys) 0 = w" "be16_at (be16_bytes w @ ys) 0 = w" "le32_at (le32_bytes v @ ys) 0 = v"
  "le16_at (le16_bytes w) 0 = w"
  using le16_at_append [of 0 "[]" w ys] be16_at_append [of 0 "[]" w ys] le32_at_append [of 0 "[]" v ys]
    le16_at_append [of 0 "[]" w "[]"] by simp_all

lemma nth_skip: "length xs \<le> i \<Longrightarrow> (xs @ ys) ! i = ys ! (i - length xs)"
  by (simp add: nth_append)

lemma nth_skip1: "0 < i \<Longrightarrow> (x # ys) ! i = ys ! (i - 1)"
  by simp

lemmas slmp_layout = at_skip at_skip1 at_first nth_skip nth_skip1

lemma field_bytes:
  "i + 2 \<le> length bs \<Longrightarrow> le16_bytes (le16_at bs i) = take 2 (drop i bs)"
  "i + 2 \<le> length bs \<Longrightarrow> be16_bytes (be16_at bs i) = take 2 (drop i bs)"
  "i + 4 \<le> length bs \<Longrightarrow> le32_bytes (le32_at bs i) = take 4 (drop i bs)"
  by (simp_all add: bytes_at take_drop_nths upt_rec Suc3_eq_add_3 ac_simps)

lemma field_byte:
  "i + 1 \<le> length bs \<Longrightarrow> bs ! i # xs = take 1 (drop i bs) @ xs"
  by (simp add: take_Suc_conv_app_nth take_drop_nths)

lemma fields_join:
  "j = i + m \<Longrightarrow> take m (drop i bs) @ take n (drop j bs) = take (m + n) (drop i bs)"
  by (simp add: take_drop_add)

lemmas slmp_fields = field_bytes field_byte fields_join

section \<open>Interpretations\<close>

interpretation slq: packed_struct enc_slmp_req_header dec_slmp_req_header sizeof_slmp_req_header "(\<lambda>_. True)"
proof unfold_locales
  fix bs :: bytes and i :: nat
  assume "i + sizeof_slmp_req_header \<le> length bs"
  then show "enc_slmp_req_header (dec_slmp_req_header bs i) = take sizeof_slmp_req_header (drop i bs)"
    by (simp add: enc_slmp_req_header_def dec_slmp_req_header_def sizeof_slmp_req_header_def slmp_fields add.assoc del: take_append One_nat_def append_take_drop_id)
qed (simp_all add: enc_slmp_req_header_def dec_slmp_req_header_def sizeof_slmp_req_header_def slmp_layout add.assoc)

interpretation slr: packed_struct enc_slmp_resp_header dec_slmp_resp_header sizeof_slmp_resp_header "(\<lambda>_. True)"
proof unfold_locales
  fix bs :: bytes and i :: nat
  assume "i + sizeof_slmp_resp_header \<le> length bs"
  then show "enc_slmp_resp_header (dec_slmp_resp_header bs i) = take sizeof_slmp_resp_header (drop i bs)"
    by (simp add: enc_slmp_resp_header_def dec_slmp_resp_header_def sizeof_slmp_resp_header_def slmp_fields add.assoc del: take_append One_nat_def append_take_drop_id)
qed (simp_all add: enc_slmp_resp_header_def dec_slmp_resp_header_def sizeof_slmp_resp_header_def slmp_layout add.assoc)

interpretation nsq: packed_struct enc_node_search_request dec_node_search_request sizeof_node_search_request "\<lambda>h. length (nsq_master_mac_addr h) = 6"
proof unfold_locales
  fix h :: cl_slmp_node_search_request and pre post :: bytes
  assume wf: "length (nsq_master_mac_addr h) = 6"
  have len: "length (enc_slmp_req_header (nsq_header h)) = 19"
    by (simp add: slq.length_enc sizeof_slmp_req_header_def)
  show "length (enc_node_search_request h) = sizeof_node_search_request"
    using wf len by (simp add: enc_node_search_request_def sizeof_node_search_request_def)
  have "dec_slmp_req_header (pre @ enc_slmp_req_header (nsq_header h) @ xs) (length pre) = nsq_header h" for xs
    by (rule slq.dec_enc) simp
  then show "dec_node_search_request (pre @ enc_node_search_request h @ post) (length pre) = h"
    using wf len by (simp add: enc_node_search_request_def dec_node_search_request_def slmp_layout add.assoc)
next
  fix bs :: bytes and i :: nat
  assume le: "i + sizeof_node_search_request \<le> length bs"
  then show "length (nsq_master_mac_addr (dec_node_search_request bs i)) = 6"
    by (simp add: dec_node_search_request_def sizeof_node_search_request_def)
  show "enc_node_search_request (dec_node_search_request bs i) = take sizeof_node_search_request (drop i bs)"
    using le
    by (simp add: enc_node_search_request_def dec_node_search_request_def slmp_sizeof_defs slq.enc_dec [unfolded slmp_sizeof_defs] slmp_fields add.assoc del: One_nat_def append_take_drop_id)
qed

interpretation nsr: packed_struct enc_node_search_resp dec_node_search_resp sizeof_node_search_resp "\<lambda>h. length (nsr_master_mac_addr h) = 6 \<and> length (nsr_slave_mac_addr h) = 6"
proof unfold_locales
  fix h :: cl_slmp_node_search_resp and pre post :: bytes
  assume wf: "length (nsr_master_mac_addr h) = 6 \<and> length (nsr_slave_mac_addr h) = 6"
  have len: "length (enc_slmp_resp_header (nsr_header h)) = 15"
    by (simp add: slr.length_enc sizeof_slmp_resp_header_def)
  show "length (enc_node_search_resp h) = sizeof_node_search_resp"
    using wf len by (simp add: enc_node_search_resp_def sizeof_node_search_resp_def)
  have "dec_slmp_resp_header (pre @ enc_slmp_resp_header (nsr_header h) @ xs) (length pre) = nsr_header h" for xs
    by (rule slr.dec_enc) simp
  then show "dec_node_search_resp (pre @ enc_node_search_resp h @ post) (length pre) = h"
    using wf len by (simp add: enc_node_search_resp_def dec_node_search_resp_def slmp_layout add.assoc)
next
  fix bs :: bytes and i :: nat
  assume le: "i + sizeof_node_search_resp \<le> length bs"
  then show "length (nsr_master_mac_addr (dec_node_search_resp bs i)) = 6 \<and> length (nsr_slave_mac_addr (dec_node_search_resp bs i)) = 6"
    by (simp add: dec_node_search_resp_def sizeof_node_search_resp_def)
  show "enc_node_search_resp (dec_node_search_resp bs i) = take sizeof_node_search_resp (drop i bs)"
    using le
    by (simp add: enc_node_search_resp_def dec_node_search_resp_def slmp_sizeof_defs slr.enc_dec [unfolded slmp_sizeof_defs] slmp_fields add.assoc del: One_nat_def append_take_drop_id)
qed

interpretation siq: packed_struct enc_set_ipaddr_request dec_set_ipaddr_request sizeof_set_ipaddr_request "\<lambda>h. length (siq_master_mac_addr h) = 6 \<and> length (siq_slave_mac_addr h) = 6"
proof unfold_locales
  fix h :: cl_slmp_set_ipaddr_request and pre post :: bytes
  assume wf: "length (siq_master_mac_addr h) = 6 \<and> length (siq_slave_mac_addr h) = 6"
  have len: "length (enc_slmp_req_header (siq_header h)) = 19"
    by (simp add: slq.length_enc sizeof_slmp_req_header_def)
  show "length (enc_set_ipaddr_request h) = sizeof_set_ipaddr_request"
    using wf len by (simp add: enc_set_ipaddr_request_def sizeof_set_ipaddr_request_def)
  have "dec_slmp_req_header (pre @ enc_slmp_req_header (siq_header h) @ xs) (length pre) = siq_header h" for xs
    by (rule slq.dec_enc) simp
  then show "dec_set_ipaddr_request (pre @ enc_set_ipaddr_request h @ post) (length pre) = h"
    using wf len by (simp add: enc_set_ipaddr_request_def dec_set_ipaddr_request_def slmp_layout add.assoc)
next
  fix bs :: bytes and i :: nat
  assume le: "i + sizeof_set_ipaddr_request \<le> length bs"
  then show "length (siq_master_mac_addr (dec_set_ipaddr_request bs i)) = 6 \<and> length (siq_slave_mac_addr (dec_set_ipaddr_request bs i)) = 6"
    by (simp add: dec_set_ipaddr_request_def sizeof_set_ipaddr_request_def)
  show "enc_set_ipaddr_request (dec_set_ipaddr_request bs i) = take sizeof_set_ipaddr_request (drop i bs)"
    using le
    by (simp add: enc_set_ipaddr_request_def dec_set_ipaddr_request_def slmp_sizeof_defs slq.enc_dec [unfolded slmp_sizeof_defs] slmp_fields add.assoc del: One_nat_def append_take_drop_id)
qed

interpretation sir: packed_struct enc_set_ipaddr_resp dec_set_ipaddr_resp sizeof_set_ipaddr_resp "\<lambda>h. length (sir_master_mac_addr h) = 6"
proof unfold_locales
  fix h :: cl_slmp_set_ipaddr_resp and pre post :: bytes
  assume wf: "length (sir_master_mac_addr h) = 6"
  have len: "length (enc_slmp_resp_header (sir_header h)) = 15"
    by (simp add: slr.length_enc sizeof_slmp_resp_header_def)
  show "length (enc_set_ipaddr_resp h) = sizeof_set_ipaddr_resp"
    using wf len by (simp add: enc_set_ipaddr_resp_def sizeof_set_ipaddr_resp_def)
  have "dec_slmp_resp_header (pre @ enc_slmp_resp_header (sir_header h) @ xs) (length pre) = sir_header h" for xs
    by (rule slr.dec_enc) simp
  then show "dec_set_ipaddr_resp (pre @ enc_set_ipaddr_resp h @ post) (length pre) = h"
    using wf len by (simp add: enc_set_ipaddr_resp_def dec_set_ipaddr_resp_def slmp_layout add.assoc)
next
  fix bs :: bytes and i :: nat
  assume le: "i + sizeof_set_ipaddr_resp \<le> length bs"
  then show "length (sir_master_mac_addr (dec_set_ipaddr_resp bs i)) = 6"
    by (simp add: dec_set_ipaddr_resp_def sizeof_set_ipaddr_resp_def)
  show "enc_set_ipaddr_resp (dec_set_ipaddr_resp bs i) = take sizeof_set_ipaddr_resp (drop i bs)"
    using le
    by (simp add: enc_set_ipaddr_resp_def dec_set_ipaddr_resp_def slmp_sizeof_defs slr.enc_dec [unfolded slmp_sizeof_defs] slmp_fields add.assoc del: One_nat_def append_take_drop_id)
qed

interpretation ser: packed_struct enc_slmp_error_resp dec_slmp_error_resp sizeof_slmp_error_resp "(\<lambda>_. True)"
proof unfold_locales
  fix h :: cl_slmp_error_resp and pre post :: bytes
  assume wf: "True"
  have len: "length (enc_slmp_resp_header (ser_header h)) = 15"
    by (simp add: slr.length_enc sizeof_slmp_resp_header_def)
  show "length (enc_slmp_error_resp h) = sizeof_slmp_error_resp"
    using wf len by (simp add: enc_slmp_error_resp_def sizeof_slmp_error_resp_def)
  have "dec_slmp_resp_header (pre @ enc_slmp_resp_header (ser_header h) @ xs) (length pre) = ser_header h" for xs
    by (rule slr.dec_enc) simp
  then show "dec_slmp_error_resp (pre @ enc_slmp_error_resp h @ post) (length pre) = h"
    using wf len by (simp add: enc_slmp_error_resp_def dec_slmp_error_resp_def slmp_layout add.assoc)
next
  fix bs :: bytes and i :: nat
  assume le: "i + sizeof_slmp_error_resp \<le> length bs"
  then show "True"
    by (simp add: dec_slmp_error_resp_def sizeof_slmp_error_resp_def)
  show "enc_slmp_error_resp (dec_slmp_error_resp bs i) = take sizeof_slmp_error_resp (drop i bs)"
    using le
    by (simp add: enc_slmp_error_resp_def dec_slmp_error_resp_def slmp_sizeof_defs slr.enc_dec [unfolded slmp_sizeof_defs] slmp_fields add.assoc del: One_nat_def append_take_drop_id)
qed


section \<open>Constants\<close>

definition CL_SLMP_PORT :: u16 where "CL_SLMP_PORT = 61451"
definition CL_SLMP_ENDCODE_COMMAND_REQUEST_MSG :: u16 where "CL_SLMP_ENDCODE_COMMAND_REQUEST_MSG = 0xC05C"
definition CL_SLMP_DSTPROCNO_DEFAULT :: u16 where "CL_SLMP_DSTPROCNO_DEFAULT = 0x03FF"
definition CL_SLMP_COMMAND_NODE_SEARCH :: u16 where "CL_SLMP_COMMAND_NODE_SEARCH = 0x0E30"
definition CL_SLMP_COMMAND_NODE_IPADDRESS_SET :: u16 where "CL_SLMP_COMMAND_NODE_IPADDRESS_SET = 0x0E31"
definition CL_SLMP_SUBCOMMAND_NODE_SEARCH :: u16 where "CL_SLMP_SUBCOMMAND_NODE_SEARCH = 0"
definition CL_SLMP_SUBCOMMAND_NODE_IPADDRESS_SET :: u16 where "CL_SLMP_SUBCOMMAND_NODE_IPADDRESS_SET = 0"
definition CL_ADDRSIZE_IPV4 :: u8 where "CL_ADDRSIZE_IPV4 = 4"
definition CLM_SLMP_SERIAL_NONE :: int where "CLM_SLMP_SERIAL_NONE = - 1"
definition CL_SLMP_HEADER_NETWORK_NUMBER :: u8 where "CL_SLMP_HEADER_NETWORK_NUMBER = 0"
definition CL_SLMP_HEADER_UNIT_NUMBER :: u8 where "CL_SLMP_HEADER_UNIT_NUMBER = 0xFF"
definition CL_SLMP_HEADER_IO_NUMBER :: u16 where "CL_SLMP_HEADER_IO_NUMBER = CL_SLMP_DSTPROCNO_DEFAULT"
definition CL_SLMP_HEADER_EXTENSION :: u8 where "CL_SLMP_HEADER_EXTENSION = 0"
definition CL_SLMP_REQ_HEADER_LENGTH_OFFSET :: nat where "CL_SLMP_REQ_HEADER_LENGTH_OFFSET = 13"
definition CL_SLMP_REQ_HEADER_SUB1 :: u16 where "CL_SLMP_REQ_HEADER_SUB1 = 0x5400"
definition CL_SLMP_REQ_HEADER_SUB2 :: u16 where "CL_SLMP_REQ_HEADER_SUB2 = 0"
definition CL_SLMP_REQ_HEADER_TIMER :: u16 where "CL_SLMP_REQ_HEADER_TIMER = 0"
definition CL_SLMP_RESP_HEADER_LENGTH_OFFSET :: nat where "CL_SLMP_RESP_HEADER_LENGTH_OFFSET = 13"
definition CL_SLMP_RESP_HEADER_SUB1 :: u16 where "CL_SLMP_RESP_HEADER_SUB1 = 0xD400"
definition CL_SLMP_RESP_HEADER_SUB2 :: u16 where "CL_SLMP_RESP_HEADER_SUB2 = 0"
definition CL_SLMP_NODE_SEARCH_RESP_SLAVE_DEFAULT_GATEWAY :: u32 where "CL_SLMP_NODE_SEARCH_RESP_SLAVE_DEFAULT_GATEWAY = - 1"
definition CL_SLMP_NODE_SEARCH_RESP_SLAVE_HOSTNAME_SIZE :: u8 where "CL_SLMP_NODE_SEARCH_RESP_SLAVE_HOSTNAME_SIZE = 0"
definition CL_SLMP_NODE_SEARCH_RESP_TARGET_IP_ADDR :: u32 where "CL_SLMP_NODE_SEARCH_RESP_TARGET_IP_ADDR = - 1"
definition CL_SLMP_NODE_SEARCH_RESP_TARGET_PORT :: u16 where "CL_SLMP_NODE_SEARCH_RESP_TARGET_PORT = - 1"
definition CL_SLMP_NODE_SEARCH_RESP_SERVER_STATUS_NORMAL :: u16 where "CL_SLMP_NODE_SEARCH_RESP_SERVER_STATUS_NORMAL = 0"
definition CL_SLMP_PROTOCOL_IDENTIFIER_UDP :: u8 where "CL_SLMP_PROTOCOL_IDENTIFIER_UDP = 1"
definition CL_SLMP_SET_IP_REQ_SLAVE_DEFAULT_GATEWAY :: u32 where "CL_SLMP_SET_IP_REQ_SLAVE_DEFAULT_GATEWAY = - 1"
definition CL_SLMP_SET_IP_REQ_SLAVE_HOSTNAME_SIZE :: u8 where "CL_SLMP_SET_IP_REQ_SLAVE_HOSTNAME_SIZE = 0"
definition CL_SLMP_SET_IP_REQ_TARGET_IP_ADDR :: u32 where "CL_SLMP_SET_IP_REQ_TARGET_IP_ADDR = - 1"
definition CL_SLMP_SET_IP_REQ_TARGET_PORT :: u16 where "CL_SLMP_SET_IP_REQ_TARGET_PORT = - 1"

lemmas slmp_consts = CL_SLMP_PORT_def CL_SLMP_ENDCODE_COMMAND_REQUEST_MSG_def CL_SLMP_DSTPROCNO_DEFAULT_def
  CL_SLMP_COMMAND_NODE_SEARCH_def CL_SLMP_COMMAND_NODE_IPADDRESS_SET_def CL_SLMP_SUBCOMMAND_NODE_SEARCH_def
  CL_SLMP_SUBCOMMAND_NODE_IPADDRESS_SET_def CL_ADDRSIZE_IPV4_def CL_SLMP_HEADER_NETWORK_NUMBER_def
  CL_SLMP_HEADER_UNIT_NUMBER_def CL_SLMP_HEADER_IO_NUMBER_def CL_SLMP_HEADER_EXTENSION_def
  CL_SLMP_REQ_HEADER_LENGTH_OFFSET_def CL_SLMP_REQ_HEADER_SUB1_def CL_SLMP_REQ_HEADER_SUB2_def
  CL_SLMP_REQ_HEADER_TIMER_def CL_SLMP_RESP_HEADER_LENGTH_OFFSET_def CL_SLMP_RESP_HEADER_SUB1_def
  CL_SLMP_RESP_HEADER_SUB2_def CL_SLMP_NODE_SEARCH_RESP_SLAVE_DEFAULT_GATEWAY_def
  CL_SLMP_NODE_SEARCH_RESP_SLAVE_HOSTNAME_SIZE_def CL_SLMP_NODE_SEARCH_RESP_TARGET_IP_ADDR_def
  CL_SLMP_NODE_SEARCH_RESP_TARGET_PORT_def CL_SLMP_NODE_SEARCH_RESP_SERVER_STATUS_NORMAL_def
  CL_SLMP_PROTOCOL_IDENTIFIER_UDP_def CL_SLMP_SET_IP_REQ_SLAVE_DEFAULT_GATEWAY_def
  CL_SLMP_SET_IP_REQ_SLAVE_HOSTNAME_SIZE_def CL_SLMP_SET_IP_REQ_TARGET_IP_ADDR_def
  CL_SLMP_SET_IP_REQ_TARGET_PORT_def


section \<open>Reading and checking frames\<close>

text \<open>
  A parse function checks the length of the datagram and casts the buffer to the struct; its result is
  the contents of the struct, or \<open>None\<close> for -1. The check of a frame returns 0 exactly when the
  corresponding function below is true.

  The checks of complete frames compare \<open>header.length\<close> without conversion from little endian byte
  order (\<open>cl_slmp.c\<close> lines 183, 211, 303, 381 and 416). The model follows a little endian host, where the conversion
  does nothing.
\<close>

definition cl_slmp_parse_request_header :: "bytes \<Rightarrow> cl_slmp_req_header option" where
  "cl_slmp_parse_request_header buffer =
     (if sizeof_slmp_req_header > length buffer then None else Some (dec_slmp_req_header buffer 0))"

definition cl_slmp_parse_response_header :: "bytes \<Rightarrow> cl_slmp_resp_header option" where
  "cl_slmp_parse_response_header buffer =
     (if sizeof_slmp_resp_header > length buffer then None else Some (dec_slmp_resp_header buffer 0))"

definition cl_slmp_is_header_request :: "cl_slmp_req_header \<Rightarrow> bool" where
  "cl_slmp_is_header_request h =
     (slq_sub1 h = CL_SLMP_REQ_HEADER_SUB1 \<and> slq_sub2 h = CL_SLMP_REQ_HEADER_SUB2)"

definition cl_slmp_validate_request_header :: "cl_slmp_req_header \<Rightarrow> nat \<Rightarrow> bool" where
  "cl_slmp_validate_request_header h recv_len =
     (if \<not> cl_slmp_is_header_request h then False
      else if unat (slq_length h) + CL_SLMP_REQ_HEADER_LENGTH_OFFSET \<noteq> recv_len then False
      else if slq_network_number h \<noteq> CL_SLMP_HEADER_NETWORK_NUMBER \<or>
           slq_unit_number h \<noteq> CL_SLMP_HEADER_UNIT_NUMBER \<or>
           slq_io_number h \<noteq> CL_SLMP_HEADER_IO_NUMBER \<or>
           slq_extension h \<noteq> CL_SLMP_HEADER_EXTENSION \<or>
           slq_timer h \<noteq> CL_SLMP_REQ_HEADER_TIMER then False
      else True)"

definition cl_slmp_is_header_response :: "cl_slmp_resp_header \<Rightarrow> bool" where
  "cl_slmp_is_header_response h =
     (slr_sub1 h = CL_SLMP_RESP_HEADER_SUB1 \<and> slr_sub2 h = CL_SLMP_RESP_HEADER_SUB2)"

definition cl_slmp_validate_response_header :: "cl_slmp_resp_header \<Rightarrow> nat \<Rightarrow> bool" where
  "cl_slmp_validate_response_header h recv_len =
     (if \<not> cl_slmp_is_header_response h then False
      else if unat (slr_length h) + CL_SLMP_RESP_HEADER_LENGTH_OFFSET \<noteq> recv_len then False
      else if slr_network_number h \<noteq> CL_SLMP_HEADER_NETWORK_NUMBER \<or>
           slr_unit_number h \<noteq> CL_SLMP_HEADER_UNIT_NUMBER \<or>
           slr_io_number h \<noteq> CL_SLMP_HEADER_IO_NUMBER \<or>
           slr_extension h \<noteq> CL_SLMP_HEADER_EXTENSION then False
      else True)"

definition cl_slmp_parse_node_search_request :: "bytes \<Rightarrow> cl_slmp_node_search_request option" where
  "cl_slmp_parse_node_search_request buffer =
     (if length buffer \<noteq> sizeof_node_search_request then None else Some (dec_node_search_request buffer 0))"

definition cl_slmp_parse_node_search_response :: "bytes \<Rightarrow> cl_slmp_node_search_resp option" where
  "cl_slmp_parse_node_search_response buffer =
     (if length buffer \<noteq> sizeof_node_search_resp then None else Some (dec_node_search_resp buffer 0))"

definition cl_slmp_validate_node_search_request :: "cl_slmp_node_search_request \<Rightarrow> bool" where
  "cl_slmp_validate_node_search_request r =
     (if unat (slq_length (nsq_header r)) \<noteq> sizeof_node_search_request - CL_SLMP_RESP_HEADER_LENGTH_OFFSET then False
      else if nsq_master_ip_addr_size r \<noteq> CL_ADDRSIZE_IPV4 then False
      else if nsq_master_ip_addr r = CL_IPADDR_INVALID then False
      else True)"

definition cl_slmp_validate_node_search_response :: "cl_slmp_node_search_resp \<Rightarrow> bool" where
  "cl_slmp_validate_node_search_response r =
     (if unat (slr_length (nsr_header r)) \<noteq> sizeof_node_search_resp - CL_SLMP_RESP_HEADER_LENGTH_OFFSET then False
      else if nsr_slave_ip_addr_size r \<noteq> CL_ADDRSIZE_IPV4 then False
      else if nsr_master_ip_addr_size r \<noteq> CL_ADDRSIZE_IPV4 then False
      else if nsr_target_ip_addr_size r \<noteq> CL_ADDRSIZE_IPV4 then False
      else if nsr_slave_ip_addr r = CL_IPADDR_INVALID then False
      else if \<not> cl_utils_is_netmask_valid (nsr_slave_netmask r) then False
      else if nsr_master_ip_addr r = CL_IPADDR_INVALID then False
      else True)"

definition cl_slmp_parse_set_ip_request :: "bytes \<Rightarrow> cl_slmp_set_ipaddr_request option" where
  "cl_slmp_parse_set_ip_request buffer =
     (if length buffer \<noteq> sizeof_set_ipaddr_request then None else Some (dec_set_ipaddr_request buffer 0))"

definition cl_slmp_parse_set_ip_response :: "bytes \<Rightarrow> cl_slmp_set_ipaddr_resp option" where
  "cl_slmp_parse_set_ip_response buffer =
     (if length buffer \<noteq> sizeof_set_ipaddr_resp then None else Some (dec_set_ipaddr_resp buffer 0))"

definition cl_slmp_validate_set_ip_request :: "cl_slmp_set_ipaddr_request \<Rightarrow> bool" where
  "cl_slmp_validate_set_ip_request r =
     (if unat (slq_length (siq_header r)) \<noteq> sizeof_set_ipaddr_request - CL_SLMP_RESP_HEADER_LENGTH_OFFSET then False
      else if siq_master_ip_addr_size r \<noteq> CL_ADDRSIZE_IPV4 \<or> siq_slave_ip_addr_size r \<noteq> CL_ADDRSIZE_IPV4 \<or>
           siq_target_ip_addr_size r \<noteq> CL_ADDRSIZE_IPV4 then False
      else if siq_slave_protocol_settings r \<noteq> CL_SLMP_PROTOCOL_IDENTIFIER_UDP then False
      else if siq_slave_hostname_size r \<noteq> CL_SLMP_SET_IP_REQ_SLAVE_HOSTNAME_SIZE then False
      else if siq_master_ip_addr r = CL_IPADDR_INVALID \<or> siq_slave_new_ip_addr r = CL_IPADDR_INVALID then False
      else if \<not> cl_utils_is_netmask_valid (siq_slave_new_netmask r) then False
      else if siq_slave_default_gateway r \<noteq> CL_SLMP_SET_IP_REQ_SLAVE_DEFAULT_GATEWAY then False
      else if siq_target_ip_addr r \<noteq> CL_SLMP_SET_IP_REQ_TARGET_IP_ADDR then False
      else if siq_target_port r \<noteq> CL_SLMP_SET_IP_REQ_TARGET_PORT then False
      else True)"

definition cl_slmp_validate_set_ip_response :: "cl_slmp_set_ipaddr_resp \<Rightarrow> bytes \<Rightarrow> bool" where
  "cl_slmp_validate_set_ip_response r my_mac_addr =
     (if unat (slr_length (sir_header r)) \<noteq> sizeof_set_ipaddr_resp - CL_SLMP_RESP_HEADER_LENGTH_OFFSET then False
      else let master_mac_addr = cl_util_copy_mac_reverse (replicate 6 0) (sir_master_mac_addr r)
        in if master_mac_addr \<noteq> my_mac_addr then False else True)"

definition cl_slmp_parse_error_response :: "bytes \<Rightarrow> cl_slmp_error_resp option" where
  "cl_slmp_parse_error_response buffer =
     (if length buffer \<noteq> sizeof_slmp_error_resp then None else Some (dec_slmp_error_resp buffer 0))"

definition cl_slmp_validate_error_response :: "cl_slmp_error_resp \<Rightarrow> bool" where
  "cl_slmp_validate_error_response r =
     (if unat (slr_length (ser_header r)) \<noteq> sizeof_slmp_error_resp - CL_SLMP_RESP_HEADER_LENGTH_OFFSET then False
      else if ser_error_network_number r \<noteq> CL_SLMP_HEADER_NETWORK_NUMBER then False
      else if ser_error_unit_number r \<noteq> CL_SLMP_HEADER_UNIT_NUMBER then False
      else if ser_error_io_number r \<noteq> CL_SLMP_HEADER_IO_NUMBER then False
      else if ser_error_extension r \<noteq> CL_SLMP_HEADER_EXTENSION then False
      else True)"


section \<open>Writing frames\<close>

text \<open>
  A prepare function clears the send buffer and fills in the struct at its start; the argument is the size
  of the buffer, which an assertion compares with the size of the struct.
\<close>

definition cl_slmp_prepare_request_header :: "u16 \<Rightarrow> u16 \<Rightarrow> u16 \<Rightarrow> u16 \<Rightarrow> cl_slmp_req_header" where
  "cl_slmp_prepare_request_header serial command sub_command udp_payload_length = \<lparr>
     slq_sub1 = CL_SLMP_REQ_HEADER_SUB1, slq_serial = serial, slq_sub2 = CL_SLMP_REQ_HEADER_SUB2,
     slq_network_number = CL_SLMP_HEADER_NETWORK_NUMBER, slq_unit_number = CL_SLMP_HEADER_UNIT_NUMBER,
     slq_io_number = CL_SLMP_HEADER_IO_NUMBER, slq_extension = CL_SLMP_HEADER_EXTENSION,
     slq_length = udp_payload_length - of_nat CL_SLMP_REQ_HEADER_LENGTH_OFFSET,
     slq_timer = CL_SLMP_REQ_HEADER_TIMER, slq_command = command, slq_sub_command = sub_command\<rparr>"

definition cl_slmp_prepare_response_header :: "u16 \<Rightarrow> u16 \<Rightarrow> nat \<Rightarrow> cl_slmp_resp_header" where
  "cl_slmp_prepare_response_header serial endcode udp_payload_len = \<lparr>
     slr_sub1 = CL_SLMP_RESP_HEADER_SUB1, slr_serial = serial, slr_sub2 = CL_SLMP_RESP_HEADER_SUB2,
     slr_network_number = CL_SLMP_HEADER_NETWORK_NUMBER, slr_unit_number = CL_SLMP_HEADER_UNIT_NUMBER,
     slr_io_number = CL_SLMP_HEADER_IO_NUMBER, slr_extension = CL_SLMP_HEADER_EXTENSION,
     slr_length = of_nat udp_payload_len - of_nat CL_SLMP_RESP_HEADER_LENGTH_OFFSET,
     slr_endcode = endcode\<rparr>"

definition struct_in_buffer :: "nat \<Rightarrow> bytes \<Rightarrow> bytes" where
  "struct_in_buffer buf_size bs = put_bytes (replicate buf_size 0) 0 bs"

definition node_search_request_frame :: "bytes \<Rightarrow> u32 \<Rightarrow> u16 \<Rightarrow> cl_slmp_node_search_request" where
  "node_search_request_frame master_mac_addr master_ip_addr request_serial = \<lparr>
     nsq_header = cl_slmp_prepare_request_header request_serial CL_SLMP_COMMAND_NODE_SEARCH
       CL_SLMP_SUBCOMMAND_NODE_SEARCH (of_nat sizeof_node_search_request),
     nsq_master_mac_addr = cl_util_copy_mac_reverse (replicate 6 0) master_mac_addr,
     nsq_master_ip_addr_size = CL_ADDRSIZE_IPV4,
     nsq_master_ip_addr = master_ip_addr\<rparr>"

definition cl_slmp_prepare_node_search_request_frame :: "nat \<Rightarrow> bytes \<Rightarrow> u32 \<Rightarrow> u16 \<Rightarrow> bytes outcome" where
  "cl_slmp_prepare_node_search_request_frame buf_size master_mac_addr master_ip_addr request_serial =
     cc_assert (buf_size \<ge> sizeof_node_search_request)
       (Returns (struct_in_buffer buf_size
         (enc_node_search_request (node_search_request_frame master_mac_addr master_ip_addr request_serial))))"

definition node_search_response_frame :: "bytes \<Rightarrow> u32 \<Rightarrow> bytes \<Rightarrow> u32 \<Rightarrow> u32 \<Rightarrow> u16 \<Rightarrow> u16 \<Rightarrow> u32 \<Rightarrow> u16 \<Rightarrow> u16 \<Rightarrow>
    cl_slmp_node_search_resp" where
  "node_search_response_frame master_mac_addr master_ip_addr slave_mac_addr slave_ip_addr slave_netmask
     slmp_slave_status vendor_code model_code equipment_ver request_serial = \<lparr>
     nsr_header = cl_slmp_prepare_response_header request_serial CL_SLMP_ENDCODE_SUCCESS sizeof_node_search_resp,
     nsr_master_mac_addr = cl_util_copy_mac_reverse (replicate 6 0) master_mac_addr,
     nsr_master_ip_addr_size = CL_ADDRSIZE_IPV4, nsr_master_ip_addr = master_ip_addr,
     nsr_slave_mac_addr = cl_util_copy_mac_reverse (replicate 6 0) slave_mac_addr,
     nsr_slave_ip_addr_size = CL_ADDRSIZE_IPV4, nsr_slave_ip_addr = slave_ip_addr,
     nsr_slave_netmask = slave_netmask,
     nsr_slave_default_gateway = CL_SLMP_NODE_SEARCH_RESP_SLAVE_DEFAULT_GATEWAY,
     nsr_slave_hostname_size = CL_SLMP_NODE_SEARCH_RESP_SLAVE_HOSTNAME_SIZE,
     nsr_vendor_code = vendor_code, nsr_model_code = model_code, nsr_equipment_ver = equipment_ver,
     nsr_target_ip_addr_size = CL_ADDRSIZE_IPV4,
     nsr_target_ip_addr = CL_SLMP_NODE_SEARCH_RESP_TARGET_IP_ADDR,
     nsr_target_port = CL_SLMP_NODE_SEARCH_RESP_TARGET_PORT,
     nsr_slave_status = slmp_slave_status, nsr_slave_port = CL_SLMP_PORT,
     nsr_slave_protocol_settings = CL_SLMP_PROTOCOL_IDENTIFIER_UDP\<rparr>"

definition cl_slmp_prepare_node_search_response_frame :: "nat \<Rightarrow> bytes \<Rightarrow> u32 \<Rightarrow> bytes \<Rightarrow> u32 \<Rightarrow> u32 \<Rightarrow> u16 \<Rightarrow> u16 \<Rightarrow> u32 \<Rightarrow>
    u16 \<Rightarrow> u16 \<Rightarrow> bytes outcome" where
  "cl_slmp_prepare_node_search_response_frame buf_size master_mac_addr master_ip_addr slave_mac_addr slave_ip_addr
     slave_netmask slmp_slave_status vendor_code model_code equipment_ver request_serial =
     cc_assert (buf_size \<ge> sizeof_node_search_resp)
       (Returns (struct_in_buffer buf_size
         (enc_node_search_resp (node_search_response_frame master_mac_addr master_ip_addr slave_mac_addr slave_ip_addr
            slave_netmask slmp_slave_status vendor_code model_code equipment_ver request_serial))))"

definition set_ip_request_frame :: "bytes \<Rightarrow> u32 \<Rightarrow> u16 \<Rightarrow> bytes \<Rightarrow> u32 \<Rightarrow> u32 \<Rightarrow> cl_slmp_set_ipaddr_request" where
  "set_ip_request_frame master_mac_addr master_ip_addr request_serial slave_mac_addr slave_new_ip_addr
     slave_new_netmask = \<lparr>
     siq_header = cl_slmp_prepare_request_header request_serial CL_SLMP_COMMAND_NODE_IPADDRESS_SET
       CL_SLMP_SUBCOMMAND_NODE_IPADDRESS_SET (of_nat sizeof_set_ipaddr_request),
     siq_master_mac_addr = cl_util_copy_mac_reverse (replicate 6 0) master_mac_addr,
     siq_master_ip_addr_size = CL_ADDRSIZE_IPV4, siq_master_ip_addr = master_ip_addr,
     siq_slave_mac_addr = cl_util_copy_mac_reverse (replicate 6 0) slave_mac_addr,
     siq_slave_ip_addr_size = CL_ADDRSIZE_IPV4, siq_slave_new_ip_addr = slave_new_ip_addr,
     siq_slave_new_netmask = slave_new_netmask,
     siq_slave_default_gateway = CL_SLMP_SET_IP_REQ_SLAVE_DEFAULT_GATEWAY,
     siq_slave_hostname_size = CL_SLMP_SET_IP_REQ_SLAVE_HOSTNAME_SIZE,
     siq_target_ip_addr_size = CL_ADDRSIZE_IPV4,
     siq_target_ip_addr = CL_SLMP_SET_IP_REQ_TARGET_IP_ADDR,
     siq_target_port = CL_SLMP_SET_IP_REQ_TARGET_PORT,
     siq_slave_protocol_settings = CL_SLMP_PROTOCOL_IDENTIFIER_UDP\<rparr>"

definition cl_slmp_prepare_set_ip_request_frame :: "nat \<Rightarrow> bytes \<Rightarrow> u32 \<Rightarrow> u16 \<Rightarrow> bytes \<Rightarrow> u32 \<Rightarrow> u32 \<Rightarrow> bytes outcome" where
  "cl_slmp_prepare_set_ip_request_frame buf_size master_mac_addr master_ip_addr request_serial slave_mac_addr
     slave_new_ip_addr slave_new_netmask =
     cc_assert (buf_size \<ge> sizeof_set_ipaddr_request)
       (Returns (struct_in_buffer buf_size
         (enc_set_ipaddr_request (set_ip_request_frame master_mac_addr master_ip_addr request_serial slave_mac_addr
            slave_new_ip_addr slave_new_netmask))))"

definition set_ip_response_frame :: "bytes \<Rightarrow> u16 \<Rightarrow> cl_slmp_set_ipaddr_resp" where
  "set_ip_response_frame master_mac_addr request_serial = \<lparr>
     sir_header = cl_slmp_prepare_response_header request_serial CL_SLMP_ENDCODE_SUCCESS sizeof_set_ipaddr_resp,
     sir_master_mac_addr = cl_util_copy_mac_reverse (replicate 6 0) master_mac_addr\<rparr>"

definition cl_slmp_prepare_set_ip_response_frame :: "nat \<Rightarrow> bytes \<Rightarrow> u16 \<Rightarrow> bytes outcome" where
  "cl_slmp_prepare_set_ip_response_frame buf_size master_mac_addr request_serial =
     cc_assert (buf_size \<ge> sizeof_set_ipaddr_resp)
       (Returns (struct_in_buffer buf_size (enc_set_ipaddr_resp (set_ip_response_frame master_mac_addr request_serial))))"

definition error_response_frame :: "u16 \<Rightarrow> u16 \<Rightarrow> u16 \<Rightarrow> u16 \<Rightarrow> cl_slmp_error_resp" where
  "error_response_frame command sub_command endcode request_serial = \<lparr>
     ser_header = cl_slmp_prepare_response_header request_serial endcode sizeof_slmp_error_resp,
     ser_error_network_number = CL_SLMP_HEADER_NETWORK_NUMBER, ser_error_unit_number = CL_SLMP_HEADER_UNIT_NUMBER,
     ser_error_io_number = CL_SLMP_HEADER_IO_NUMBER, ser_error_extension = CL_SLMP_HEADER_EXTENSION,
     ser_command = command, ser_sub_command = sub_command\<rparr>"

definition cl_slmp_prepare_error_response_frame :: "nat \<Rightarrow> u16 \<Rightarrow> u16 \<Rightarrow> u16 \<Rightarrow> u16 \<Rightarrow> bytes outcome" where
  "cl_slmp_prepare_error_response_frame buf_size command sub_command endcode request_serial =
     cc_assert (buf_size \<ge> sizeof_slmp_error_resp)
       (Returns (struct_in_buffer buf_size
         (enc_slmp_error_resp (error_response_frame command sub_command endcode request_serial))))"

section \<open>Delay of a node search response\<close>

text \<open>The loop adds \<open>multiplier\<close> for every set bit of the last byte and halves it, from 512 on.\<close>

definition search_delay_step :: "u8 \<Rightarrow> nat \<Rightarrow> u32 \<times> u16 \<Rightarrow> u32 \<times> u16" where
  "search_delay_step b bitposition s = (case s of (milliseconds, multiplier) \<Rightarrow>
     (milliseconds + ucast multiplier * ucast (drop_bit bitposition b AND 1), drop_bit 1 multiplier))"

definition cl_slmp_calculate_node_search_delay :: "bytes \<Rightarrow> u32" where
  "cl_slmp_calculate_node_search_delay mac =
     (let (milliseconds, _) = fold (search_delay_step (mac ! 5)) [0..<8] (0, 512);
          milliseconds = milliseconds + 2 * ucast (mac ! 4 AND 1);
          milliseconds = milliseconds + ucast (drop_bit 1 (mac ! 4) AND 1)
      in of_nat CL_TIMER_MICROSECONDS_PER_MILLISECOND * milliseconds)"

section \<open>Sending\<close>

text \<open>The result, the socket afterwards, and the datagram that was handed to \<open>clal_udp_sendto\<close>, if any.\<close>

definition cl_slmp_udp_send :: "cl_os \<Rightarrow> int \<Rightarrow> bool \<Rightarrow> bytes \<Rightarrow> u32 \<Rightarrow> u32 \<Rightarrow> u16 \<Rightarrow> nat \<Rightarrow>
    bool \<times> int \<times> bytes option" where
  "cl_slmp_udp_send os socket open_the_socket buffer local_ip remote_ip remote_port message_size =
     (if message_size > length buffer then (False, socket, None)
      else let socket = (if open_the_socket then os_udp_open os local_ip CL_SLMP_PORT else socket)
        in if socket = - 1 then (False, socket, None)
        else let datagram = take message_size buffer;
                 sent_size = os_udp_sendto os socket remote_ip remote_port datagram;
                 socket = (if open_the_socket then - 1 else socket)
          in (\<not> (sent_size < 0 \<or> nat sent_size \<noteq> message_size), socket, Some datagram))"


text \<open>What \<open>clal_udp_recvfrom_with_ifindex\<close> delivers, when there is a datagram.\<close>

record slmp_datagram =
  dg_remote_ip :: u32
  dg_remote_port :: u16
  dg_local_ip :: u32
  dg_ifindex :: int
  dg_data :: bytes

section \<open>Prepared frames are read back\<close>

lemma length_reversed_mac [simp]: "length (cl_util_copy_mac_reverse dest src) = length dest"
  by (simp add: cl_util_copy_mac_reverse_def)

lemma reverse_mac: "length mac = 6 \<Longrightarrow> cl_util_copy_mac_reverse (replicate 6 0) mac = rev mac"
  by (rule copy_mac_reverse_eq) simp_all

lemma take_struct_in_buffer:
  "n = length bs \<Longrightarrow> n \<le> buf_size \<Longrightarrow> take n (struct_in_buffer buf_size bs) = bs"
  using put_bytes_read_back [of 0 bs "replicate buf_size 0"] by (simp add: struct_in_buffer_def)

lemma length_struct_in_buffer: "length bs \<le> buf_size \<Longrightarrow> length (struct_in_buffer buf_size bs) = buf_size"
  by (simp add: struct_in_buffer_def)

lemma frame_headers [simp]:
  "nsq_header (dec_node_search_request bs i) = dec_slmp_req_header bs i"
  "siq_header (dec_set_ipaddr_request bs i) = dec_slmp_req_header bs i"
  "nsr_header (dec_node_search_resp bs i) = dec_slmp_resp_header bs i"
  "sir_header (dec_set_ipaddr_resp bs i) = dec_slmp_resp_header bs i"
  "ser_header (dec_slmp_error_resp bs i) = dec_slmp_resp_header bs i"
  by (simp_all add: dec_node_search_request_def dec_set_ipaddr_request_def dec_node_search_resp_def
      dec_set_ipaddr_resp_def dec_slmp_error_resp_def)

lemma prepared_header_direction [simp]:
  "cl_slmp_is_header_request (cl_slmp_prepare_request_header s c sc l)"
  "cl_slmp_is_header_response (cl_slmp_prepare_response_header s e n)"
  by (simp_all add: cl_slmp_is_header_request_def cl_slmp_is_header_response_def
      cl_slmp_prepare_request_header_def cl_slmp_prepare_response_header_def)

text \<open>Headers that a receiver accepts are those that a sender prepares.\<close>

lemma length_field:
  "unat (l :: u16) + 13 = n \<longleftrightarrow> 13 \<le> n \<and> n < 13 + 65536 \<and> l = of_nat n - 13"
proof
  assume n: "unat l + 13 = n"
  have "of_nat (unat l + 13) = l + 13" by simp
  then show "13 \<le> n \<and> n < 13 + 65536 \<and> l = of_nat n - 13"
    using n unat_less_pow(1) [of l] by auto
next
  assume n: "13 \<le> n \<and> n < 13 + 65536 \<and> l = of_nat n - 13"
  then have l: "l = of_nat (n - 13)" by (simp add: of_nat_diff)
  have "n - 13 < 65536" using n by arith
  then have "unat l = n - 13" unfolding l by (rule unat_of_nat_u16)
  moreover have "13 \<le> n" using n by simp
  ultimately show "unat l + 13 = n" by simp
qed

lemma request_header_prepared:
  "cl_slmp_validate_request_header h n \<longleftrightarrow>
     13 \<le> n \<and> n < 13 + 65536 \<and>
     h = cl_slmp_prepare_request_header (slq_serial h) (slq_command h) (slq_sub_command h) (of_nat n)"
  unfolding cl_slmp_validate_request_header_def cl_slmp_is_header_request_def cl_slmp_prepare_request_header_def
  by (cases h) (auto simp: slmp_consts length_field)

lemma response_header_prepared:
  "cl_slmp_validate_response_header h n \<longleftrightarrow>
     13 \<le> n \<and> n < 13 + 65536 \<and>
     h = cl_slmp_prepare_response_header (slr_serial h) (slr_endcode h) n"
  unfolding cl_slmp_validate_response_header_def cl_slmp_is_header_response_def cl_slmp_prepare_response_header_def
  by (cases h) (auto simp: slmp_consts length_field)

lemma prepared_header_fields [simp]:
  "slq_serial (cl_slmp_prepare_request_header s c sc l) = s"
  "slq_command (cl_slmp_prepare_request_header s c sc l) = c"
  "slq_sub_command (cl_slmp_prepare_request_header s c sc l) = sc"
  "slr_serial (cl_slmp_prepare_response_header s e n) = s"
  "slr_endcode (cl_slmp_prepare_response_header s e n) = e"
  by (simp_all add: cl_slmp_prepare_request_header_def cl_slmp_prepare_response_header_def)

lemma prepared_header_length:
  "13 \<le> n \<Longrightarrow> n < 65536 \<Longrightarrow> unat (slq_length (cl_slmp_prepare_request_header s c sc (of_nat n))) = n - 13"
  "13 \<le> n \<Longrightarrow> n < 65536 \<Longrightarrow> unat (slr_length (cl_slmp_prepare_response_header s e n)) = n - 13"
  using length_field [of "of_nat n - 13" n]
  by (simp_all add: cl_slmp_prepare_request_header_def cl_slmp_prepare_response_header_def slmp_consts)

lemma frame_fields:
  "nsq_header (node_search_request_frame m ip s) = cl_slmp_prepare_request_header s CL_SLMP_COMMAND_NODE_SEARCH
     CL_SLMP_SUBCOMMAND_NODE_SEARCH (of_nat 30)"
  "siq_header (set_ip_request_frame m ip s sm nip nm) = cl_slmp_prepare_request_header s
     CL_SLMP_COMMAND_NODE_IPADDRESS_SET CL_SLMP_SUBCOMMAND_NODE_IPADDRESS_SET (of_nat 58)"
  "nsr_header (node_search_response_frame m ip sm sip snm st v md e s) =
     cl_slmp_prepare_response_header s CL_SLMP_ENDCODE_SUCCESS 66"
  "sir_header (set_ip_response_frame m s) = cl_slmp_prepare_response_header s CL_SLMP_ENDCODE_SUCCESS 21"
  "ser_header (error_response_frame c sc e s) = cl_slmp_prepare_response_header s e 24"
  by (simp_all add: node_search_request_frame_def set_ip_request_frame_def node_search_response_frame_def
      set_ip_response_frame_def error_response_frame_def slmp_sizeof_defs)

section \<open>The datagrams a receiver accepts\<close>

text \<open>The checks that a receiver makes before it acts on a frame.\<close>

definition slmp_request_ok :: "bytes \<Rightarrow> u16 \<Rightarrow> u16 \<Rightarrow> u16 \<Rightarrow> bool" where
  "slmp_request_ok bs serial command sub_command \<longleftrightarrow> (\<exists>h. cl_slmp_parse_request_header bs = Some h \<and>
     cl_slmp_is_header_request h \<and> cl_slmp_validate_request_header h (length bs) \<and>
     slq_serial h = serial \<and> slq_command h = command \<and> slq_sub_command h = sub_command)"

definition slmp_response_ok :: "bytes \<Rightarrow> u16 \<Rightarrow> u16 \<Rightarrow> bool" where
  "slmp_response_ok bs serial endcode \<longleftrightarrow> (\<exists>h. cl_slmp_parse_response_header bs = Some h \<and>
     cl_slmp_is_header_response h \<and> cl_slmp_validate_response_header h (length bs) \<and>
     slr_serial h = serial \<and> slr_endcode h = endcode)"

lemma slmp_request_ok_iff:
  "slmp_request_ok bs s c sc \<longleftrightarrow> 19 \<le> length bs \<and> length bs < 13 + 65536 \<and>
     dec_slmp_req_header bs 0 = cl_slmp_prepare_request_header s c sc (of_nat (length bs))"
  unfolding slmp_request_ok_def cl_slmp_parse_request_header_def
  by (auto simp: request_header_prepared slmp_sizeof_defs dest: sym)

lemma slmp_response_ok_iff:
  "slmp_response_ok bs s e \<longleftrightarrow> 15 \<le> length bs \<and> length bs < 13 + 65536 \<and>
     dec_slmp_resp_header bs 0 = cl_slmp_prepare_response_header s e (length bs)"
  unfolding slmp_response_ok_def cl_slmp_parse_response_header_def
  by (auto simp: response_header_prepared slmp_sizeof_defs dest: sym)

text \<open>The six bytes of a MAC address are kept in reverse order in a frame.\<close>

lemma reversed_mac_field:
  "length m = 6 \<Longrightarrow> cl_util_copy_mac_reverse (replicate 6 0) (cl_util_copy_mac_reverse (replicate 6 0) m) = m"
  by (simp add: reverse_mac)

lemma node_search_request_accepted:
  "slmp_request_ok bs s CL_SLMP_COMMAND_NODE_SEARCH CL_SLMP_SUBCOMMAND_NODE_SEARCH \<and>
   (\<exists>r. cl_slmp_parse_node_search_request bs = Some r \<and> cl_slmp_validate_node_search_request r \<and>
      cl_util_copy_mac_reverse (replicate 6 0) (nsq_master_mac_addr r) = mac \<and> nsq_master_ip_addr r = ip) \<longleftrightarrow>
   length mac = 6 \<and> ip \<noteq> CL_IPADDR_INVALID \<and> bs = enc_node_search_request (node_search_request_frame mac ip s)"
  (is "?l \<longleftrightarrow> ?r")
proof
  assume ?l
  then have len: "length bs = 30" by (auto simp: cl_slmp_parse_node_search_request_def slmp_sizeof_defs split: if_splits)
  define r where "r = dec_node_search_request bs 0"
  have bs: "bs = enc_node_search_request r" and wf: "length (nsq_master_mac_addr r) = 6"
    using nsq.enc_dec [of 0 bs] nsq.wf_dec [of 0 bs] len by (simp_all add: r_def slmp_sizeof_defs)
  have mac: "mac = cl_util_copy_mac_reverse (replicate 6 0) (nsq_master_mac_addr r)" and ip: "nsq_master_ip_addr r = ip"
    and v: "cl_slmp_validate_node_search_request r"
    and h: "nsq_header r = cl_slmp_prepare_request_header s CL_SLMP_COMMAND_NODE_SEARCH CL_SLMP_SUBCOMMAND_NODE_SEARCH (of_nat 30)"
    using \<open>?l\<close> len by (auto simp: r_def cl_slmp_parse_node_search_request_def slmp_request_ok_iff split: if_splits)
  have "r = node_search_request_frame mac ip s"
    unfolding node_search_request_frame_def using v h wf
    by (cases r) (auto simp: mac ip [symmetric] reversed_mac_field cl_slmp_validate_node_search_request_def slmp_sizeof_defs split: if_splits)
  then show ?r using bs v wf by (auto simp: mac ip [symmetric] cl_slmp_validate_node_search_request_def split: if_splits)
next
  assume r: ?r
  define f where "f = node_search_request_frame mac ip s"
  have wf: "length (nsq_master_mac_addr f) = 6" by (simp add: f_def node_search_request_frame_def)
  have len: "length bs = 30" and d: "dec_node_search_request bs 0 = f"
    using r nsq.length_enc [OF wf] nsq.dec_enc_only [OF wf] by (simp_all add: f_def slmp_sizeof_defs)
  have "dec_slmp_req_header bs 0 = nsq_header f" using d by (metis frame_headers(1))
  then have "slmp_request_ok bs s CL_SLMP_COMMAND_NODE_SEARCH CL_SLMP_SUBCOMMAND_NODE_SEARCH"
    using len by (simp add: slmp_request_ok_iff f_def frame_fields)
  moreover have "cl_slmp_validate_node_search_request f"
    using r prepared_header_length(1) [of 30] by (simp add: cl_slmp_validate_node_search_request_def f_def frame_fields slmp_sizeof_defs
        CL_SLMP_RESP_HEADER_LENGTH_OFFSET_def) (simp add: node_search_request_frame_def)
  ultimately show ?l
    using len d r by (auto simp: cl_slmp_parse_node_search_request_def slmp_sizeof_defs f_def node_search_request_frame_def reversed_mac_field)
qed


lemma set_ip_request_accepted:
  "slmp_request_ok bs s CL_SLMP_COMMAND_NODE_IPADDRESS_SET CL_SLMP_SUBCOMMAND_NODE_IPADDRESS_SET \<and>
   (\<exists>r. cl_slmp_parse_set_ip_request bs = Some r \<and> cl_slmp_validate_set_ip_request r \<and>
      cl_util_copy_mac_reverse (replicate 6 0) (siq_master_mac_addr r) = mac \<and> siq_master_ip_addr r = ip \<and>
      cl_util_copy_mac_reverse (replicate 6 0) (siq_slave_mac_addr r) = smac \<and>
      siq_slave_new_ip_addr r = nip \<and> siq_slave_new_netmask r = nmask) \<longleftrightarrow>
   length mac = 6 \<and> length smac = 6 \<and> ip \<noteq> CL_IPADDR_INVALID \<and> nip \<noteq> CL_IPADDR_INVALID \<and>
   cl_utils_is_netmask_valid nmask \<and> bs = enc_set_ipaddr_request (set_ip_request_frame mac ip s smac nip nmask)"
  (is "?l \<longleftrightarrow> ?r")
proof
  assume ?l
  then have len: "length bs = 58" by (auto simp: cl_slmp_parse_set_ip_request_def slmp_sizeof_defs split: if_splits)
  define r where "r = dec_set_ipaddr_request bs 0"
  have bs: "bs = enc_set_ipaddr_request r" and wf: "length (siq_master_mac_addr r) = 6" "length (siq_slave_mac_addr r) = 6"
    using siq.enc_dec [of 0 bs] siq.wf_dec [of 0 bs] len by (simp_all add: r_def slmp_sizeof_defs)
  have q: "mac = cl_util_copy_mac_reverse (replicate 6 0) (siq_master_mac_addr r)" "siq_master_ip_addr r = ip"
      "smac = cl_util_copy_mac_reverse (replicate 6 0) (siq_slave_mac_addr r)" "siq_slave_new_ip_addr r = nip"
      "siq_slave_new_netmask r = nmask"
    and v: "cl_slmp_validate_set_ip_request r"
    and h: "siq_header r = cl_slmp_prepare_request_header s CL_SLMP_COMMAND_NODE_IPADDRESS_SET
      CL_SLMP_SUBCOMMAND_NODE_IPADDRESS_SET (of_nat 58)"
    using \<open>?l\<close> len by (auto simp: r_def cl_slmp_parse_set_ip_request_def slmp_request_ok_iff split: if_splits)
  have "r = set_ip_request_frame mac ip s smac nip nmask"
    unfolding set_ip_request_frame_def using v h wf
    by (cases r) (auto simp: q(1,3) q(2,4,5) [symmetric] reversed_mac_field cl_slmp_validate_set_ip_request_def
        slmp_sizeof_defs split: if_splits)
  then show ?r
    using bs v wf by (auto simp: q(1,3) q(2,4,5) [symmetric] cl_slmp_validate_set_ip_request_def split: if_splits)
next
  assume r: ?r
  define f where "f = set_ip_request_frame mac ip s smac nip nmask"
  have wf: "length (siq_master_mac_addr f) = 6 \<and> length (siq_slave_mac_addr f) = 6"
    by (simp add: f_def set_ip_request_frame_def)
  have len: "length bs = 58" and d: "dec_set_ipaddr_request bs 0 = f"
    using r siq.length_enc [OF wf] siq.dec_enc_only [OF wf] by (simp_all add: f_def slmp_sizeof_defs)
  have "dec_slmp_req_header bs 0 = siq_header f" using d by (metis frame_headers(2))
  then have "slmp_request_ok bs s CL_SLMP_COMMAND_NODE_IPADDRESS_SET CL_SLMP_SUBCOMMAND_NODE_IPADDRESS_SET"
    using len by (simp add: slmp_request_ok_iff f_def frame_fields)
  moreover have "cl_slmp_validate_set_ip_request f"
    using r prepared_header_length(1) [of 58] by (simp add: cl_slmp_validate_set_ip_request_def f_def frame_fields slmp_sizeof_defs
        CL_SLMP_RESP_HEADER_LENGTH_OFFSET_def) (simp add: set_ip_request_frame_def)
  ultimately show ?l
    using len d r by (auto simp: cl_slmp_parse_set_ip_request_def slmp_sizeof_defs f_def set_ip_request_frame_def reversed_mac_field)
qed

lemma set_ip_response_accepted:
  "slmp_response_ok bs s CL_SLMP_ENDCODE_SUCCESS \<and>
   (\<exists>r. cl_slmp_parse_set_ip_response bs = Some r \<and> cl_slmp_validate_set_ip_response r mac) \<longleftrightarrow>
   length mac = 6 \<and> bs = enc_set_ipaddr_resp (set_ip_response_frame mac s)"
  (is "?l \<longleftrightarrow> ?r")
proof
  assume ?l
  then have len: "length bs = 21" by (auto simp: cl_slmp_parse_set_ip_response_def slmp_sizeof_defs split: if_splits)
  define r where "r = dec_set_ipaddr_resp bs 0"
  have bs: "bs = enc_set_ipaddr_resp r" and wf: "length (sir_master_mac_addr r) = 6"
    using sir.enc_dec [of 0 bs] sir.wf_dec [of 0 bs] len by (simp_all add: r_def slmp_sizeof_defs)
  have mac: "mac = cl_util_copy_mac_reverse (replicate 6 0) (sir_master_mac_addr r)"
    and h: "sir_header r = cl_slmp_prepare_response_header s CL_SLMP_ENDCODE_SUCCESS 21"
    using \<open>?l\<close> len by (auto simp: r_def cl_slmp_parse_set_ip_response_def slmp_response_ok_iff
        cl_slmp_validate_set_ip_response_def Let_def split: if_splits)
  have "r = set_ip_response_frame mac s"
    unfolding set_ip_response_frame_def using h wf by (cases r) (auto simp: mac reversed_mac_field slmp_sizeof_defs)
  then show ?r using bs wf by (auto simp: mac)
next
  assume r: ?r
  define f where "f = set_ip_response_frame mac s"
  have wf: "length (sir_master_mac_addr f) = 6" by (simp add: f_def set_ip_response_frame_def)
  have len: "length bs = 21" and d: "dec_set_ipaddr_resp bs 0 = f"
    using r sir.length_enc [OF wf] sir.dec_enc_only [OF wf] by (simp_all add: f_def slmp_sizeof_defs)
  have "dec_slmp_resp_header bs 0 = sir_header f" using d by (metis frame_headers(4))
  then have "slmp_response_ok bs s CL_SLMP_ENDCODE_SUCCESS"
    using len by (simp add: slmp_response_ok_iff f_def frame_fields)
  moreover have "cl_slmp_validate_set_ip_response f mac"
    using r prepared_header_length(2) [of 21] by (simp add: cl_slmp_validate_set_ip_response_def f_def frame_fields slmp_sizeof_defs
        CL_SLMP_RESP_HEADER_LENGTH_OFFSET_def) (simp add: set_ip_response_frame_def reversed_mac_field)
  ultimately show ?l using len d by (simp add: cl_slmp_parse_set_ip_response_def slmp_sizeof_defs)
qed

lemma error_response_accepted:
  "slmp_response_ok bs s e \<and>
   (\<exists>r. cl_slmp_parse_error_response bs = Some r \<and> cl_slmp_validate_error_response r \<and>
      ser_command r = c \<and> ser_sub_command r = sc) \<longleftrightarrow>
   bs = enc_slmp_error_resp (error_response_frame c sc e s)"
  (is "?l \<longleftrightarrow> ?r")
proof
  assume ?l
  then have len: "length bs = 24" by (auto simp: cl_slmp_parse_error_response_def slmp_sizeof_defs split: if_splits)
  define r where "r = dec_slmp_error_resp bs 0"
  have bs: "bs = enc_slmp_error_resp r"
    using ser.enc_dec [of 0 bs] len by (simp add: r_def slmp_sizeof_defs)
  have q: "ser_command r = c" "ser_sub_command r = sc" and v: "cl_slmp_validate_error_response r"
    and h: "ser_header r = cl_slmp_prepare_response_header s e 24"
    using \<open>?l\<close> len by (auto simp: r_def cl_slmp_parse_error_response_def slmp_response_ok_iff split: if_splits)
  have "r = error_response_frame c sc e s"
    unfolding error_response_frame_def using v h
    by (cases r) (auto simp: q [symmetric] cl_slmp_validate_error_response_def slmp_sizeof_defs split: if_splits)
  then show ?r using bs by simp
next
  assume r: ?r
  define f where "f = error_response_frame c sc e s"
  have len: "length bs = 24" and d: "dec_slmp_error_resp bs 0 = f"
    using r ser.length_enc ser.dec_enc_only by (simp_all add: f_def slmp_sizeof_defs)
  have "dec_slmp_resp_header bs 0 = ser_header f" using d by (metis frame_headers(5))
  then have "slmp_response_ok bs s e" using len by (simp add: slmp_response_ok_iff f_def frame_fields)
  moreover have "cl_slmp_validate_error_response f"
    using prepared_header_length(2) [of 24] by (simp add: cl_slmp_validate_error_response_def f_def frame_fields slmp_sizeof_defs
        CL_SLMP_RESP_HEADER_LENGTH_OFFSET_def) (simp add: error_response_frame_def)
  ultimately show ?l
    using len d by (auto simp: cl_slmp_parse_error_response_def slmp_sizeof_defs f_def error_response_frame_def)
qed

text \<open>The response to a node search is accepted with the values that the slave put in.\<close>

lemma node_search_response_accepted:
  assumes f: "f = node_search_response_frame mac ip smac sip smask st v md ev s"
    and ok: "ip \<noteq> CL_IPADDR_INVALID" "sip \<noteq> CL_IPADDR_INVALID" "cl_utils_is_netmask_valid smask"
  shows "slmp_response_ok (enc_node_search_resp f) s CL_SLMP_ENDCODE_SUCCESS"
    "cl_slmp_parse_node_search_response (enc_node_search_resp f) = Some f"
    "cl_slmp_validate_node_search_response f"
proof -
  have wf: "length (nsr_master_mac_addr f) = 6 \<and> length (nsr_slave_mac_addr f) = 6"
    by (simp add: f node_search_response_frame_def)
  have len: "length (enc_node_search_resp f) = 66" and d: "dec_node_search_resp (enc_node_search_resp f) 0 = f"
    using nsr.length_enc [OF wf] nsr.dec_enc_only [OF wf] by (simp_all add: slmp_sizeof_defs)
  have "dec_slmp_resp_header (enc_node_search_resp f) 0 = nsr_header f" using d by (metis frame_headers(3))
  then show "slmp_response_ok (enc_node_search_resp f) s CL_SLMP_ENDCODE_SUCCESS"
    using len by (simp add: slmp_response_ok_iff) (simp add: f frame_fields)
  show "cl_slmp_parse_node_search_response (enc_node_search_resp f) = Some f"
    using len d by (simp add: cl_slmp_parse_node_search_response_def slmp_sizeof_defs)
  show "cl_slmp_validate_node_search_response f"
    using ok prepared_header_length(2) [of 66] by (simp add: cl_slmp_validate_node_search_response_def f frame_fields slmp_sizeof_defs
        CL_SLMP_RESP_HEADER_LENGTH_OFFSET_def) (simp add: node_search_response_frame_def)
qed

section \<open>The delay of a response\<close>

lemma low_bit_word: "ucast (drop_bit n (b :: u8) AND 1) = (of_bool (bit b n) :: u32)"
  by (cases "bit b n") (simp_all add: and_one_eq mod_2_eq_odd bit_iff_odd_drop_bit)

lemma delay_bits:
  "cl_slmp_calculate_node_search_delay mac = 1000 *
     (512 * of_bool (bit (mac ! 5) 0) + 256 * of_bool (bit (mac ! 5) 1) + 128 * of_bool (bit (mac ! 5) 2) +
      64 * of_bool (bit (mac ! 5) 3) + 32 * of_bool (bit (mac ! 5) 4) + 16 * of_bool (bit (mac ! 5) 5) +
      8 * of_bool (bit (mac ! 5) 6) + 4 * of_bool (bit (mac ! 5) 7) +
      2 * of_bool (bit (mac ! 4) 0) + of_bool (bit (mac ! 4) 1))"
proof -
  have "ucast (mac ! 4 AND 1) = (of_bool (bit (mac ! 4) 0) :: u32)"
    "ucast (mac ! 5 AND 1) = (of_bool (bit (mac ! 5) 0) :: u32)"
    using low_bit_word [of 0 "mac ! 4"] low_bit_word [of 0 "mac ! 5"] by simp_all
  then show ?thesis
    by (simp add: cl_slmp_calculate_node_search_delay_def search_delay_step_def upt_lists(1) low_bit_word
        CL_TIMER_MICROSECONDS_PER_MILLISECOND_def)
qed

text \<open>The number of milliseconds as a binary number.\<close>

definition delay_digits :: "bytes \<Rightarrow> bool list" where
  "delay_digits mac = map (bit (mac ! 4)) [1, 0] @ map (bit (mac ! 5)) [7, 6, 5, 4, 3, 2, 1, 0]"

lemma delay_value: "unat (cl_slmp_calculate_node_search_delay mac) = 1000 * horner_sum of_bool 2 (delay_digits mac)"
proof -
  have "horner_sum of_bool 2 (delay_digits mac) < (1024 :: nat)"
    using horner_sum_of_bool_2_less [of "delay_digits mac", where 'a = int] 
    by (simp add: delay_digits_def)
  moreover have "cl_slmp_calculate_node_search_delay mac = of_nat (1000 * horner_sum of_bool 2 (delay_digits mac))"
    unfolding delay_bits delay_digits_def by (simp add: algebra_simps)
  ultimately show ?thesis by (simp only: unat_of_nat) (simp add: take_bit_nat_eq_self)
qed

lemma horner_digits_unique:
  "length xs = length ys \<Longrightarrow> horner_sum of_bool (2 :: nat) xs = horner_sum of_bool 2 ys \<Longrightarrow> xs = ys"
proof (induction xs ys rule: list_induct2)
  case (Cons x xs y ys)
  from Cons.prems have "x = y \<and> horner_sum of_bool (2 :: nat) xs = horner_sum of_bool 2 ys"
    by (cases x; cases y) (simp_all, presburger+)
  then show ?case using Cons.IH by simp
qed simp

lemma delay_bound: "unat (cl_slmp_calculate_node_search_delay mac) \<le> 1023 * 1000"
proof -
  have "horner_sum of_bool 2 (delay_digits mac) < (1024 :: nat)"
    using horner_sum_of_bool_2_less [of "delay_digits mac", where 'a = int]
    by (simp add: delay_digits_def)
  then show ?thesis by (simp add: delay_value)
qed

lemma delay_digits_eq:
  "delay_digits mac = delay_digits mac' \<longleftrightarrow> mac ! 5 = mac' ! 5 \<and> take_bit 2 (mac ! 4) = take_bit 2 (mac' ! 4)"
proof -
  have a: "x = y \<longleftrightarrow> (\<forall>i\<in>{0,1,2,3,4,5,6,7}. bit x i = bit y i)" for x y :: u8
  proof
    assume b: "\<forall>i\<in>{0,1,2,3,4,5,6,7}. bit x i = bit y i"
    show "x = y"
    proof (rule bit_word_eqI)
      fix n assume "n < LENGTH(8)"
      then have "n \<in> {0,1,2,3,4,5,6,7}" by auto
      then show "bit x n = bit y n" using b by blast
    qed
  qed simp
  have b: "take_bit 2 x = take_bit 2 y \<longleftrightarrow> bit x 0 = bit y 0 \<and> bit x 1 = bit y 1" for x y :: u8
    unfolding a [of "take_bit 2 x"] by (simp add: bit_take_bit_iff)
  show ?thesis unfolding a [of "mac ! 5"] b by (auto simp: delay_digits_def)
qed

lemma delay_unique:
  "cl_slmp_calculate_node_search_delay mac = cl_slmp_calculate_node_search_delay mac' \<longleftrightarrow>
   mac ! 5 = mac' ! 5 \<and> take_bit 2 (mac ! 4) = take_bit 2 (mac' ! 4)"
proof
  assume "cl_slmp_calculate_node_search_delay mac = cl_slmp_calculate_node_search_delay mac'"
  then have "1000 * horner_sum of_bool (2 :: nat) (delay_digits mac) = 1000 * horner_sum of_bool 2 (delay_digits mac')"
    by (simp only: delay_value [symmetric])
  then have "horner_sum of_bool (2 :: nat) (delay_digits mac) = horner_sum of_bool 2 (delay_digits mac')"
    by (rule mult_left_cancel [THEN iffD1, rotated]) simp
  then have "delay_digits mac = delay_digits mac'"
    by (rule horner_digits_unique [rotated]) (simp add: delay_digits_def)
  then show "mac ! 5 = mac' ! 5 \<and> take_bit 2 (mac ! 4) = take_bit 2 (mac' ! 4)"
    by (rule delay_digits_eq [THEN iffD1])
next
  assume "mac ! 5 = mac' ! 5 \<and> take_bit 2 (mac ! 4) = take_bit 2 (mac' ! 4)"
  then have "delay_digits mac = delay_digits mac'" by (rule delay_digits_eq [THEN iffD2])
  then have "unat (cl_slmp_calculate_node_search_delay mac) = unat (cl_slmp_calculate_node_search_delay mac')"
    by (simp only: delay_value)
  then show "cl_slmp_calculate_node_search_delay mac = cl_slmp_calculate_node_search_delay mac'"
    by (rule word_unat_eq_iff [THEN iffD2])
qed

end
