(* ===== verification/CLM_SLMP.thy ===== *)
theory CLM_SLMP
  imports CLM_State CL_SLMP
begin

text \<open>
  SLMP in the master (\<open>src/master/clm_slmp.c\<close>): node searches with their database of responses, and
  requests to set the IP address of a slave, with serial numbers, timeouts and confirmations.

  A function that returns 0 or -1 has a Boolean result, true for 0. The send buffer is passed from the
  prepare functions to the send function; \<open>CLM_MAX_NODE_SEARCH_DEVICES\<close>, a build option, is the length of
  the list of entries, whose elements from \<open>db_stored\<close> on are unused. The datagrams that are waiting at the
  socket are an argument of \<open>clm_slmp_periodic\<close>.
\<close>

section \<open>Definitions\<close>

definition clm_slmp_node_search_add_db :: "cl_slmp_node_search_resp \<Rightarrow> clm_node_search_db \<Rightarrow> bool \<times> clm_node_search_db" where
  "clm_slmp_node_search_add_db resp db =
     (let db = db\<lparr>db_count := db_count db + 1\<rparr>
      in if unat (db_stored db) = length (db_entries db) then (False, db)
      else let entry = \<lparr>
             ne_slave_id = nsr_slave_ip_addr resp,
             ne_slave_netmask = nsr_slave_netmask resp,
             ne_slave_mac_addr = cl_util_copy_mac_reverse
               (ne_slave_mac_addr (db_entries db ! unat (db_stored db))) (nsr_slave_mac_addr resp),
             ne_vendor_code = nsr_vendor_code resp,
             ne_model_code = nsr_model_code resp,
             ne_equipment_ver = nsr_equipment_ver resp\<rparr>
        in (True, db\<lparr>db_stored := db_stored db + 1, db_entries := (db_entries db)[unat (db_stored db) := entry]\<rparr>))"

definition clm_slmp_node_search_clear_db :: "clm_node_search_db \<Rightarrow> clm_node_search_db" where
  "clm_slmp_node_search_clear_db db = db\<lparr>db_count := 0, db_stored := 0\<rparr>"

definition clm_slmp_get_node_search_result :: "clm \<Rightarrow> clm_node_search_db" where
  "clm_slmp_get_node_search_result clm = clm_node_search_data clm"

definition clm_slmp_send_request :: "cl_os \<Rightarrow> bytes \<Rightarrow> nat \<Rightarrow> clm \<Rightarrow> bool \<times> clm" where
  "clm_slmp_send_request os slmp_sendbuf request_len clm =
     (let single = mc_use_single_slmp_socket (clm_config clm);
          (ok, socket, sent) = cl_slmp_udp_send os
            (if single then clm_slmp_receive_socket clm else clm_slmp_send_socket clm) (\<not> single)
            slmp_sendbuf (mc_master_id (clm_config clm)) (clm_slmp_broadcast_ip clm) CL_SLMP_PORT request_len;
          clm = (if single then clm\<lparr>clm_slmp_receive_socket := socket\<rparr> else clm\<lparr>clm_slmp_send_socket := socket\<rparr>)
      in (ok, case sent of None \<Rightarrow> clm
           | Some datagram \<Rightarrow> memit_if True (Slmp_Sent (clm_slmp_broadcast_ip clm) CL_SLMP_PORT datagram) clm))"

definition clm_slmp_set_ip_notify_cfm :: "clm_master_setip_status \<Rightarrow> clm \<Rightarrow> clm" where
  "clm_slmp_set_ip_notify_cfm status clm =
     (let clm = clm\<lparr>clm_set_ip_request_timer := cl_timer_stop (clm_set_ip_request_timer clm)\<rparr>;
          clm = memit_if (mc_set_ip_cfm_cb (clm_config clm)) (Set_Ip_Cfm status) clm
      in clm\<lparr>clm_set_ip_request_serial := CLM_SLMP_SERIAL_NONE\<rparr>)"

definition clm_slmp_node_search_notify_results :: "clm \<Rightarrow> clm" where
  "clm_slmp_node_search_notify_results clm =
     (let clm = memit_if (mc_node_search_cfm_cb (clm_config clm)) (Node_Search_Cfm (clm_node_search_data clm)) clm
      in clm\<lparr>clm_node_search_serial := CLM_SLMP_SERIAL_NONE\<rparr>)"

definition clm_slmp_handle_set_ip_error :: "bytes \<Rightarrow> clm \<Rightarrow> bool \<times> clm" where
  "clm_slmp_handle_set_ip_error inputbuffer clm =
     (case cl_slmp_parse_error_response inputbuffer of
        None \<Rightarrow> (False, clm)
      | Some error_resp \<Rightarrow>
        if \<not> cl_slmp_validate_error_response error_resp then (False, clm)
        else if ser_command error_resp \<noteq> CL_SLMP_COMMAND_NODE_IPADDRESS_SET \<or>
             ser_sub_command error_resp \<noteq> CL_SLMP_SUBCOMMAND_NODE_IPADDRESS_SET then (False, clm)
        else (True, clm_slmp_set_ip_notify_cfm CLM_MASTER_SET_IP_STATUS_ERROR clm))"

definition clm_slmp_handle_node_search_response :: "bytes \<Rightarrow> clm \<Rightarrow> bool \<times> clm" where
  "clm_slmp_handle_node_search_response inputbuffer clm =
     (case cl_slmp_parse_node_search_response inputbuffer of
        None \<Rightarrow> (False, clm)
      | Some resp \<Rightarrow>
        if \<not> cl_slmp_validate_node_search_response resp then (False, clm)
        else let (db_result, db) = clm_slmp_node_search_add_db resp (clm_node_search_data clm)
          in (True, clm\<lparr>clm_node_search_data := db\<rparr>))"

definition clm_slmp_handle_set_ipaddr_response :: "bytes \<Rightarrow> clm \<Rightarrow> bool \<times> clm" where
  "clm_slmp_handle_set_ipaddr_response inputbuffer clm =
     (case cl_slmp_parse_set_ip_response inputbuffer of
        None \<Rightarrow> (False, clm)
      | Some resp \<Rightarrow>
        if \<not> cl_slmp_validate_set_ip_response resp (clm_mac_address clm) then (False, clm)
        else (True, clm_slmp_set_ip_notify_cfm CLM_MASTER_SET_IP_STATUS_SUCCESS clm))"

definition clm_slmp_handle_input_frame :: "bytes \<Rightarrow> int \<Rightarrow> clm \<Rightarrow> bool \<times> clm" where
  "clm_slmp_handle_input_frame buffer ifindex clm =
     (case cl_slmp_parse_response_header buffer of
        None \<Rightarrow> (False, clm)
      | Some header \<Rightarrow>
        if \<not> cl_slmp_is_header_response header then (False, clm)
        else if \<not> cl_slmp_validate_response_header header (length buffer) then (False, clm)
        else if ifindex \<noteq> clm_ifindex clm then (False, clm)
        else let serial = slr_serial header; endcode = slr_endcode header
          in if uint serial = clm_node_search_serial clm
             then clm_slmp_handle_node_search_response buffer clm
             else if uint serial = clm_set_ip_request_serial clm
             then (if endcode = CL_SLMP_ENDCODE_SUCCESS then clm_slmp_handle_set_ipaddr_response buffer clm
                   else clm_slmp_handle_set_ip_error buffer clm)
             else (False, clm))"

definition clm_slmp_perform_node_search :: "cl_os \<Rightarrow> u32 \<Rightarrow> clm \<Rightarrow> (bool \<times> clm) outcome" where
  "clm_slmp_perform_node_search os now clm =
     (if clm_node_search_serial clm \<noteq> CLM_SLMP_SERIAL_NONE then Returns (False, clm)
      else let clm = clm\<lparr>clm_node_search_serial := uint (clm_slmp_request_serial clm)\<rparr>;
               clm = clm\<lparr>clm_node_search_data := clm_slmp_node_search_clear_db (clm_node_search_data clm)\<rparr>
        in obind (cl_slmp_prepare_node_search_request_frame CL_BUFFER_LEN (clm_mac_address clm)
               (mc_master_id (clm_config clm)) (word_of_int (clm_node_search_serial clm)))
          (\<lambda>slmp_sendbuf.
            let clm = clm\<lparr>clm_slmp_request_serial := clm_slmp_request_serial clm + 1\<rparr>;
                (ok, clm) = clm_slmp_send_request os slmp_sendbuf sizeof_node_search_request clm
            in if \<not> ok then Returns (False, clm\<lparr>clm_node_search_serial := CLM_SLMP_SERIAL_NONE\<rparr>)
            else Returns (True, clm\<lparr>clm_node_search_timer := cl_timer_start
              (ucast (mc_callback_time_node_search (clm_config clm)) * of_nat CL_TIMER_MICROSECONDS_PER_MILLISECOND)
              now (clm_node_search_timer clm)\<rparr>)))"

definition clm_slmp_perform_set_ipaddr_request :: "cl_os \<Rightarrow> u32 \<Rightarrow> bytes \<Rightarrow> u32 \<Rightarrow> u32 \<Rightarrow> clm \<Rightarrow> (bool \<times> clm) outcome" where
  "clm_slmp_perform_set_ipaddr_request os now slave_mac_addr slave_new_ip_addr slave_new_netmask clm =
     (if clm_set_ip_request_serial clm \<noteq> CLM_SLMP_SERIAL_NONE then Returns (False, clm)
      else if slave_new_ip_addr = CL_IPADDR_INVALID then Returns (False, clm)
      else if \<not> cl_utils_is_netmask_valid slave_new_netmask then Returns (False, clm)
      else let clm = clm\<lparr>clm_set_ip_request_serial := uint (clm_slmp_request_serial clm)\<rparr>
        in obind (cl_slmp_prepare_set_ip_request_frame CL_BUFFER_LEN (clm_mac_address clm)
               (mc_master_id (clm_config clm)) (word_of_int (clm_set_ip_request_serial clm))
               slave_mac_addr slave_new_ip_addr slave_new_netmask)
          (\<lambda>slmp_sendbuf.
            let clm = clm\<lparr>clm_slmp_request_serial := clm_slmp_request_serial clm + 1\<rparr>;
                (ok, clm) = clm_slmp_send_request os slmp_sendbuf sizeof_set_ipaddr_request clm
            in if \<not> ok then Returns (False, clm\<lparr>clm_set_ip_request_serial := CLM_SLMP_SERIAL_NONE\<rparr>)
            else Returns (True, clm\<lparr>clm_set_ip_request_timer := cl_timer_start
              (ucast (mc_callback_time_set_ip (clm_config clm)) * of_nat CL_TIMER_MICROSECONDS_PER_MILLISECOND)
              now (clm_set_ip_request_timer clm)\<rparr>)))"

definition clm_slmp_check_timeouts :: "u32 \<Rightarrow> clm \<Rightarrow> clm" where
  "clm_slmp_check_timeouts now clm =
     (let clm = (if cl_timer_is_expired (clm_node_search_timer clm) now
            then clm_slmp_node_search_notify_results
              (clm\<lparr>clm_node_search_timer := cl_timer_stop (clm_node_search_timer clm)\<rparr>)
            else clm)
      in if cl_timer_is_expired (clm_set_ip_request_timer clm) now
         then clm_slmp_set_ip_notify_cfm CLM_MASTER_SET_IP_STATUS_TIMEOUT
           (clm\<lparr>clm_set_ip_request_timer := cl_timer_stop (clm_set_ip_request_timer clm)\<rparr>)
         else clm)"

text \<open>The loop reads datagrams until none is left, or an empty one arrives.\<close>

fun slmp_receive_all :: "slmp_datagram list \<Rightarrow> clm \<Rightarrow> clm" where
  "slmp_receive_all [] clm = clm"
| "slmp_receive_all (d # ds) clm =
     (if length (dg_data d) > 0
      then slmp_receive_all ds (snd (clm_slmp_handle_input_frame (dg_data d) (dg_ifindex d) clm))
      else clm)"

definition clm_slmp_periodic :: "u32 \<Rightarrow> slmp_datagram list \<Rightarrow> clm \<Rightarrow> clm" where
  "clm_slmp_periodic now received clm = slmp_receive_all received (clm_slmp_check_timeouts now clm)"

definition clm_slmp_init :: "cl_os \<Rightarrow> clm \<Rightarrow> bool \<times> clm" where
  "clm_slmp_init os clm =
     (let clm = clm\<lparr>clm_slmp_request_serial := 0, clm_node_search_serial := CLM_SLMP_SERIAL_NONE,
            clm_set_ip_request_serial := CLM_SLMP_SERIAL_NONE,
            clm_node_search_timer := cl_timer_stop (clm_node_search_timer clm),
            clm_set_ip_request_timer := cl_timer_stop (clm_set_ip_request_timer clm),
            clm_node_search_data := clm_slmp_node_search_clear_db (clm_node_search_data clm),
            clm_slmp_receive_socket := os_udp_open os CL_IPADDR_ANY CL_SLMP_PORT\<rparr>
      in if clm_slmp_receive_socket clm = - 1 then (False, clm)
      else (True, clm\<lparr>clm_slmp_send_socket := - 1\<rparr>))"

definition clm_slmp_exit :: "clm \<Rightarrow> clm" where
  "clm_slmp_exit clm = clm\<lparr>clm_slmp_receive_socket := - 1\<rparr>"

section \<open>Sending and confirming\<close>

lemma memit_if_fields [simp]:
  "clm_out (memit_if b x s) = clm_out s @ (if b then [x] else [])"
  "clm_config (memit_if b x s) = clm_config s"
  "clm_node_search_serial (memit_if b x s) = clm_node_search_serial s"
  "clm_set_ip_request_serial (memit_if b x s) = clm_set_ip_request_serial s"
  "clm_slmp_request_serial (memit_if b x s) = clm_slmp_request_serial s"
  "clm_node_search_timer (memit_if b x s) = clm_node_search_timer s"
  "clm_set_ip_request_timer (memit_if b x s) = clm_set_ip_request_timer s"
  "clm_node_search_data (memit_if b x s) = clm_node_search_data s"
  "clm_slmp_broadcast_ip (memit_if b x s) = clm_slmp_broadcast_ip s"
  "clm_mac_address (memit_if b x s) = clm_mac_address s"
  "clm_ifindex (memit_if b x s) = clm_ifindex s"
  "clm_slmp_send_socket (memit_if b x s) = clm_slmp_send_socket s"
  "clm_slmp_receive_socket (memit_if b x s) = clm_slmp_receive_socket s"
  by (simp_all add: memit_if_def)

definition slmp_socket :: "cl_os \<Rightarrow> clm \<Rightarrow> int" where
  "slmp_socket os s = (if mc_use_single_slmp_socket (clm_config s) then clm_slmp_receive_socket s
     else os_udp_open os (mc_master_id (clm_config s)) CL_SLMP_PORT)"

definition slmp_sent_ok :: "cl_os \<Rightarrow> bytes \<Rightarrow> clm \<Rightarrow> bool" where
  "slmp_sent_ok os bs s \<longleftrightarrow> slmp_socket os s \<noteq> - 1 \<and>
     os_udp_sendto os (slmp_socket os s) (clm_slmp_broadcast_ip s) CL_SLMP_PORT bs = int (length bs)"

definition slmp_sent :: "cl_os \<Rightarrow> bytes \<Rightarrow> clm \<Rightarrow> clm" where
  "slmp_sent os bs s = memit_if (slmp_socket os s \<noteq> - 1) (Slmp_Sent (clm_slmp_broadcast_ip s) CL_SLMP_PORT bs)
     (if mc_use_single_slmp_socket (clm_config s) then s else s\<lparr>clm_slmp_send_socket := - 1\<rparr>)"

lemma send_request_eq:
  assumes "n = length bs" "n \<le> 1500"
  shows "clm_slmp_send_request os (struct_in_buffer 1500 bs) n s = (slmp_sent_ok os bs s, slmp_sent os bs s)"
proof -
  have "take n (struct_in_buffer 1500 bs) = bs" "length (struct_in_buffer 1500 bs) = 1500"
    using assms by (simp_all add: take_struct_in_buffer length_struct_in_buffer)
  then show ?thesis
    using assms by (auto simp: clm_slmp_send_request_def cl_slmp_udp_send_def Let_def slmp_sent_ok_def slmp_sent_def
        slmp_socket_def memit_if_def)
qed

lemma slmp_sent_fields [simp]:
  "clm_out (slmp_sent os bs s) = clm_out s @
     (if slmp_socket os s \<noteq> - 1 then [Slmp_Sent (clm_slmp_broadcast_ip s) CL_SLMP_PORT bs] else [])"
  "clm_config (slmp_sent os bs s) = clm_config s"
  "clm_node_search_serial (slmp_sent os bs s) = clm_node_search_serial s"
  "clm_set_ip_request_serial (slmp_sent os bs s) = clm_set_ip_request_serial s"
  "clm_slmp_request_serial (slmp_sent os bs s) = clm_slmp_request_serial s"
  "clm_node_search_timer (slmp_sent os bs s) = clm_node_search_timer s"
  "clm_set_ip_request_timer (slmp_sent os bs s) = clm_set_ip_request_timer s"
  "clm_node_search_data (slmp_sent os bs s) = clm_node_search_data s"
  "clm_slmp_broadcast_ip (slmp_sent os bs s) = clm_slmp_broadcast_ip s"
  "clm_mac_address (slmp_sent os bs s) = clm_mac_address s"
  "clm_ifindex (slmp_sent os bs s) = clm_ifindex s"
  by (simp_all add: slmp_sent_def)

definition search_request :: "clm \<Rightarrow> bytes" where
  "search_request s = enc_node_search_request (node_search_request_frame (clm_mac_address s)
     (mc_master_id (clm_config s)) (clm_slmp_request_serial s))"

definition set_ip_request :: "bytes \<Rightarrow> u32 \<Rightarrow> u32 \<Rightarrow> clm \<Rightarrow> bytes" where
  "set_ip_request smac nip nmask s = enc_set_ipaddr_request (set_ip_request_frame (clm_mac_address s)
     (mc_master_id (clm_config s)) (clm_slmp_request_serial s) smac nip nmask)"

lemma length_requests: "length (search_request s) = 30" "length (set_ip_request smac nip nmask s) = 58"
  by (simp_all add: search_request_def set_ip_request_def nsq.length_enc siq.length_enc node_search_request_frame_def
      set_ip_request_frame_def slmp_sizeof_defs)

text \<open>A search that is not refused: what it leaves behind, depending on whether it could be sent.\<close>

definition search_started :: "cl_os \<Rightarrow> u32 \<Rightarrow> clm \<Rightarrow> clm" where
  "search_started os now s =
     (let t = (slmp_sent os (search_request s) s)\<lparr>clm_slmp_request_serial := clm_slmp_request_serial s + 1,
            clm_node_search_data := clm_slmp_node_search_clear_db (clm_node_search_data s)\<rparr>
      in if slmp_sent_ok os (search_request s) s
         then t\<lparr>clm_node_search_serial := uint (clm_slmp_request_serial s),
           clm_node_search_timer := cl_timer_start (ucast (mc_callback_time_node_search (clm_config s)) * 1000)
             now (clm_node_search_timer s)\<rparr>
         else t)"

lemma perform_search_eq:
  "clm_slmp_perform_node_search os now s =
     (if clm_node_search_serial s \<noteq> - 1 then Returns (False, s)
      else Returns (slmp_sent_ok os (search_request s) s, search_started os now s))"
proof (cases "clm_node_search_serial s = - 1")
  case True
  define t where "t = s\<lparr>clm_node_search_serial := uint (clm_slmp_request_serial s),
     clm_node_search_data := clm_slmp_node_search_clear_db (clm_node_search_data s),
     clm_slmp_request_serial := clm_slmp_request_serial s + 1\<rparr>"
  have snd: "clm_slmp_send_request os (struct_in_buffer 1500 (search_request s)) 30 t =
      (slmp_sent_ok os (search_request s) t, slmp_sent os (search_request s) t)"
    by (rule send_request_eq) (simp_all add: length_requests)
  have ok: "slmp_sent_ok os bs t = slmp_sent_ok os bs s" for bs
    by (simp add: slmp_sent_ok_def slmp_socket_def t_def)
  have "clm_slmp_perform_node_search os now s = Returns (
      if \<not> slmp_sent_ok os (search_request s) s
      then (False, (slmp_sent os (search_request s) t)\<lparr>clm_node_search_serial := - 1\<rparr>)
      else (True, (slmp_sent os (search_request s) t)\<lparr>clm_node_search_timer := cl_timer_start
         (ucast (mc_callback_time_node_search (clm_config s)) * 1000) now (clm_node_search_timer s)\<rparr>))"
    using True by (simp add: clm_slmp_perform_node_search_def cl_slmp_prepare_node_search_request_frame_def
        CLM_SLMP_SERIAL_NONE_def CL_BUFFER_LEN_def sizeof_node_search_request_def search_request_def [symmetric]
        snd [unfolded t_def] ok [unfolded t_def] CL_TIMER_MICROSECONDS_PER_MILLISECOND_def t_def Let_def)
  then show ?thesis
    using True by (simp add: search_started_def Let_def slmp_sent_def slmp_socket_def memit_if_def t_def)
next
  case False then show ?thesis by (simp add: clm_slmp_perform_node_search_def CLM_SLMP_SERIAL_NONE_def)
qed

definition set_ip_started :: "cl_os \<Rightarrow> u32 \<Rightarrow> bytes \<Rightarrow> u32 \<Rightarrow> u32 \<Rightarrow> clm \<Rightarrow> clm" where
  "set_ip_started os now smac nip nmask s =
     (let bs = set_ip_request smac nip nmask s;
          t = (slmp_sent os bs s)\<lparr>clm_slmp_request_serial := clm_slmp_request_serial s + 1\<rparr>
      in if slmp_sent_ok os bs s
         then t\<lparr>clm_set_ip_request_serial := uint (clm_slmp_request_serial s),
           clm_set_ip_request_timer := cl_timer_start (ucast (mc_callback_time_set_ip (clm_config s)) * 1000)
             now (clm_set_ip_request_timer s)\<rparr>
         else t)"

lemma perform_set_ip_eq:
  "clm_slmp_perform_set_ipaddr_request os now smac nip nmask s =
     (if clm_set_ip_request_serial s \<noteq> - 1 \<or> nip = CL_IPADDR_INVALID \<or> \<not> cl_utils_is_netmask_valid nmask
      then Returns (False, s)
      else Returns (slmp_sent_ok os (set_ip_request smac nip nmask s) s, set_ip_started os now smac nip nmask s))"
proof (cases "clm_set_ip_request_serial s = - 1 \<and> nip \<noteq> CL_IPADDR_INVALID \<and> cl_utils_is_netmask_valid nmask")
  case True
  define bs where "bs = set_ip_request smac nip nmask s"
  define t where "t = s\<lparr>clm_set_ip_request_serial := uint (clm_slmp_request_serial s),
     clm_slmp_request_serial := clm_slmp_request_serial s + 1\<rparr>"
  have snd: "clm_slmp_send_request os (struct_in_buffer 1500 bs) 58 t = (slmp_sent_ok os bs t, slmp_sent os bs t)"
    by (rule send_request_eq) (simp_all add: length_requests bs_def)
  have ok: "slmp_sent_ok os bs t = slmp_sent_ok os bs s"
    by (simp add: slmp_sent_ok_def slmp_socket_def t_def)
  have "clm_slmp_perform_set_ipaddr_request os now smac nip nmask s = Returns (
      if \<not> slmp_sent_ok os bs s
      then (False, (slmp_sent os bs t)\<lparr>clm_set_ip_request_serial := - 1\<rparr>)
      else (True, (slmp_sent os bs t)\<lparr>clm_set_ip_request_timer := cl_timer_start
         (ucast (mc_callback_time_set_ip (clm_config s)) * 1000) now (clm_set_ip_request_timer s)\<rparr>))"
    using True by (simp add: clm_slmp_perform_set_ipaddr_request_def cl_slmp_prepare_set_ip_request_frame_def
        CLM_SLMP_SERIAL_NONE_def CL_BUFFER_LEN_def sizeof_set_ipaddr_request_def set_ip_request_def [symmetric] bs_def [symmetric]
        snd [unfolded t_def] ok [unfolded t_def] CL_TIMER_MICROSECONDS_PER_MILLISECOND_def t_def Let_def)
  then show ?thesis
    using True by (simp add: set_ip_started_def Let_def slmp_sent_def slmp_socket_def memit_if_def t_def bs_def)
next
  case False then show ?thesis by (auto simp: clm_slmp_perform_set_ipaddr_request_def CLM_SLMP_SERIAL_NONE_def)
qed

lemma set_ip_confirmed_fields [simp]:
  "clm_out (clm_slmp_set_ip_notify_cfm st s) = clm_out s @ (if mc_set_ip_cfm_cb (clm_config s) then [Set_Ip_Cfm st] else [])"
  "clm_set_ip_request_serial (clm_slmp_set_ip_notify_cfm st s) = - 1"
  "\<not> cl_timer_is_running (clm_set_ip_request_timer (clm_slmp_set_ip_notify_cfm st s))"
  "clm_config (clm_slmp_set_ip_notify_cfm st s) = clm_config s"
  "clm_node_search_serial (clm_slmp_set_ip_notify_cfm st s) = clm_node_search_serial s"
  "clm_node_search_timer (clm_slmp_set_ip_notify_cfm st s) = clm_node_search_timer s"
  "clm_node_search_data (clm_slmp_set_ip_notify_cfm st s) = clm_node_search_data s"
  "clm_slmp_request_serial (clm_slmp_set_ip_notify_cfm st s) = clm_slmp_request_serial s"
  "clm_mac_address (clm_slmp_set_ip_notify_cfm st s) = clm_mac_address s"
  "clm_ifindex (clm_slmp_set_ip_notify_cfm st s) = clm_ifindex s"
  by (simp_all add: clm_slmp_set_ip_notify_cfm_def Let_def CLM_SLMP_SERIAL_NONE_def)

lemma search_confirmed_fields [simp]:
  "clm_out (clm_slmp_node_search_notify_results s) =
     clm_out s @ (if mc_node_search_cfm_cb (clm_config s) then [Node_Search_Cfm (clm_node_search_data s)] else [])"
  "clm_node_search_serial (clm_slmp_node_search_notify_results s) = - 1"
  "clm_config (clm_slmp_node_search_notify_results s) = clm_config s"
  "clm_node_search_timer (clm_slmp_node_search_notify_results s) = clm_node_search_timer s"
  "clm_set_ip_request_serial (clm_slmp_node_search_notify_results s) = clm_set_ip_request_serial s"
  "clm_set_ip_request_timer (clm_slmp_node_search_notify_results s) = clm_set_ip_request_timer s"
  "clm_node_search_data (clm_slmp_node_search_notify_results s) = clm_node_search_data s"
  "clm_slmp_request_serial (clm_slmp_node_search_notify_results s) = clm_slmp_request_serial s"
  "clm_mac_address (clm_slmp_node_search_notify_results s) = clm_mac_address s"
  "clm_ifindex (clm_slmp_node_search_notify_results s) = clm_ifindex s"
  by (simp_all add: clm_slmp_node_search_notify_results_def Let_def CLM_SLMP_SERIAL_NONE_def)

section \<open>What an input frame does\<close>

definition search_response_stored :: "cl_slmp_node_search_resp \<Rightarrow> clm \<Rightarrow> clm" where
  "search_response_stored r s = s\<lparr>clm_node_search_data := snd (clm_slmp_node_search_add_db r (clm_node_search_data s))\<rparr>"

lemma master_input_cases:
  obtains (ignored) "snd (clm_slmp_handle_input_frame bs i s) = s"
  | (found) r where "i = clm_ifindex s" "cl_slmp_parse_node_search_response bs = Some r"
      "cl_slmp_validate_node_search_response r" "clm_node_search_serial s \<noteq> - 1"
      "clm_slmp_handle_input_frame bs i s = (True, search_response_stored r s)"
  | (confirmed) serial where "i = clm_ifindex s" "clm_set_ip_request_serial s = uint serial" "clm_set_ip_request_serial s \<noteq> - 1"
      "clm_node_search_serial s \<noteq> uint serial"
      "bs = enc_set_ipaddr_resp (set_ip_response_frame (clm_mac_address s) serial)"
      "clm_slmp_handle_input_frame bs i s = (True, clm_slmp_set_ip_notify_cfm CLM_MASTER_SET_IP_STATUS_SUCCESS s)"
  | (failed) serial e where "i = clm_ifindex s" "clm_set_ip_request_serial s = uint serial" "clm_set_ip_request_serial s \<noteq> - 1"
      "clm_node_search_serial s \<noteq> uint serial" "e \<noteq> CL_SLMP_ENDCODE_SUCCESS"
      "bs = enc_slmp_error_resp (error_response_frame CL_SLMP_COMMAND_NODE_IPADDRESS_SET
         CL_SLMP_SUBCOMMAND_NODE_IPADDRESS_SET e serial)"
      "clm_slmp_handle_input_frame bs i s = (True, clm_slmp_set_ip_notify_cfm CLM_MASTER_SET_IP_STATUS_ERROR s)"
proof (cases "\<exists>h. cl_slmp_parse_response_header bs = Some h \<and> cl_slmp_is_header_response h \<and>
    cl_slmp_validate_response_header h (length bs) \<and> i = clm_ifindex s")
  case False
  then have "clm_slmp_handle_input_frame bs i s = (False, s)"
    by (auto simp: clm_slmp_handle_input_frame_def split: option.split)
  then show thesis using ignored by simp
next
  case True
  then obtain h where h: "cl_slmp_parse_response_header bs = Some h" "cl_slmp_is_header_response h"
    "cl_slmp_validate_response_header h (length bs)" and i: "i = clm_ifindex s" by blast
  then have ok: "slmp_response_ok bs (slr_serial h) (slr_endcode h)" unfolding slmp_response_ok_def by blast
  have none: "uint (slr_serial h) \<noteq> - 1" by (metis uint_nonnegative neg_0_le_iff_le not_one_le_zero)
  let ?f = "clm_slmp_handle_input_frame bs i s"
  have eq: "?f = (if uint (slr_serial h) = clm_node_search_serial s then clm_slmp_handle_node_search_response bs s
      else if uint (slr_serial h) = clm_set_ip_request_serial s
      then (if slr_endcode h = CL_SLMP_ENDCODE_SUCCESS then clm_slmp_handle_set_ipaddr_response bs s
        else clm_slmp_handle_set_ip_error bs s) else (False, s))"
    using h i by (simp add: clm_slmp_handle_input_frame_def Let_def)
  consider (search) "uint (slr_serial h) = clm_node_search_serial s"
    | (set) "uint (slr_serial h) \<noteq> clm_node_search_serial s" "uint (slr_serial h) = clm_set_ip_request_serial s"
    | (none) "uint (slr_serial h) \<noteq> clm_node_search_serial s" "uint (slr_serial h) \<noteq> clm_set_ip_request_serial s" by blast
  then show thesis
  proof cases
    case search
    show thesis
    proof (cases "\<exists>r. cl_slmp_parse_node_search_response bs = Some r \<and> cl_slmp_validate_node_search_response r")
      case True
      then obtain r where r: "cl_slmp_parse_node_search_response bs = Some r" "cl_slmp_validate_node_search_response r" by blast
      have "?f = (True, search_response_stored r s)"
        using eq search r by (simp add: clm_slmp_handle_node_search_response_def search_response_stored_def split_beta)
      then show thesis using i r search none by (intro found) auto
    next
      case False
      then have "?f = (False, s)" using eq search by (auto simp: clm_slmp_handle_node_search_response_def split: option.split)
      then show thesis using ignored by simp
    qed
  next
    case none then show thesis using eq ignored by simp
  next
    case set
    show thesis
    proof (cases "slr_endcode h = CL_SLMP_ENDCODE_SUCCESS")
      case True
      show thesis
      proof (cases "\<exists>r. cl_slmp_parse_set_ip_response bs = Some r \<and> cl_slmp_validate_set_ip_response r (clm_mac_address s)")
        case r: True
        then have "bs = enc_set_ipaddr_resp (set_ip_response_frame (clm_mac_address s) (slr_serial h))"
          using set_ip_response_accepted [of bs "slr_serial h" "clm_mac_address s"] ok True by simp
        moreover have "?f = (True, clm_slmp_set_ip_notify_cfm CLM_MASTER_SET_IP_STATUS_SUCCESS s)"
          using eq set True r by (auto simp: clm_slmp_handle_set_ipaddr_response_def)
        ultimately show thesis using i set none by (intro confirmed) auto
      next
        case False
        then have "?f = (False, s)" using eq set True by (auto simp: clm_slmp_handle_set_ipaddr_response_def split: option.split)
        then show thesis using ignored by simp
      qed
    next
      case e: False
      show thesis
      proof (cases "\<exists>r. cl_slmp_parse_error_response bs = Some r \<and> cl_slmp_validate_error_response r \<and>
          ser_command r = CL_SLMP_COMMAND_NODE_IPADDRESS_SET \<and> ser_sub_command r = CL_SLMP_SUBCOMMAND_NODE_IPADDRESS_SET")
        case r: True
        then have "bs = enc_slmp_error_resp (error_response_frame CL_SLMP_COMMAND_NODE_IPADDRESS_SET
           CL_SLMP_SUBCOMMAND_NODE_IPADDRESS_SET (slr_endcode h) (slr_serial h))"
          using error_response_accepted [of bs "slr_serial h" "slr_endcode h"] ok by blast
        moreover have "?f = (True, clm_slmp_set_ip_notify_cfm CLM_MASTER_SET_IP_STATUS_ERROR s)"
          using eq set e r by (auto simp: clm_slmp_handle_set_ip_error_def)
        ultimately show thesis using i set none e by (intro failed) auto
      next
        case False
        then have "?f = (False, s)" using eq set e by (auto simp: clm_slmp_handle_set_ip_error_def split: option.split)
        then show thesis using ignored by simp
      qed
    qed
  qed
qed

section \<open>Searches and requests in progress\<close>

text \<open>
  A serial number is stored exactly while its timer runs, and the database stays within its bounds.
\<close>

definition slmp_db_ok :: "clm_node_search_db \<Rightarrow> bool" where
  "slmp_db_ok db \<longleftrightarrow> length (db_entries db) \<le> 255 \<and> unat (db_stored db) \<le> length (db_entries db)"

definition master_slmp_ok :: "clm \<Rightarrow> bool" where
  "master_slmp_ok s \<longleftrightarrow> slmp_db_ok (clm_node_search_data s) \<and>
     (cl_timer_is_running (clm_node_search_timer s) \<longleftrightarrow> clm_node_search_serial s \<noteq> - 1) \<and>
     (cl_timer_is_running (clm_set_ip_request_timer s) \<longleftrightarrow> clm_set_ip_request_serial s \<noteq> - 1)"

text \<open>Only the SLMP part of the master changes, and nothing is taken back from the trace.\<close>

definition master_slmp_only :: "clm \<Rightarrow> clm \<Rightarrow> bool" where
  "master_slmp_only s s' \<longleftrightarrow> (\<exists>rs nss nst sis sit db sock outs. s' = s\<lparr>clm_slmp_request_serial := rs,
     clm_node_search_serial := nss, clm_node_search_timer := nst, clm_set_ip_request_serial := sis,
     clm_set_ip_request_timer := sit, clm_node_search_data := db, clm_slmp_send_socket := sock, clm_out := clm_out s @ outs\<rparr>)"

lemma master_slmp_onlyI:
  assumes "s'\<lparr>clm_slmp_request_serial := clm_slmp_request_serial s,
     clm_node_search_serial := clm_node_search_serial s, clm_node_search_timer := clm_node_search_timer s,
     clm_set_ip_request_serial := clm_set_ip_request_serial s, clm_set_ip_request_timer := clm_set_ip_request_timer s,
     clm_node_search_data := clm_node_search_data s, clm_slmp_send_socket := clm_slmp_send_socket s, clm_out := clm_out s\<rparr> = s"
    and "\<exists>outs. clm_out s' = clm_out s @ outs"
  shows "master_slmp_only s s'"
proof -
  obtain outs where "clm_out s' = clm_out s @ outs" using assms(2) by blast
  then have "s' = s\<lparr>clm_slmp_request_serial := clm_slmp_request_serial s', clm_node_search_serial := clm_node_search_serial s',
     clm_node_search_timer := clm_node_search_timer s', clm_set_ip_request_serial := clm_set_ip_request_serial s',
     clm_set_ip_request_timer := clm_set_ip_request_timer s', clm_node_search_data := clm_node_search_data s',
     clm_slmp_send_socket := clm_slmp_send_socket s', clm_out := clm_out s @ outs\<rparr>"
    by (subst assms(1) [symmetric]) simp
  then show ?thesis unfolding master_slmp_only_def by blast
qed

lemma master_slmp_only_refl [simp]: "master_slmp_only s s"
  by (rule master_slmp_onlyI) simp_all

lemma master_slmp_only_trans: "master_slmp_only s s' \<Longrightarrow> master_slmp_only s' s'' \<Longrightarrow> master_slmp_only s s''"
  unfolding master_slmp_only_def by fastforce

lemma memit_if_eq: "memit_if b x s = s\<lparr>clm_out := clm_out s @ (if b then [x] else [])\<rparr>"
  by (simp add: memit_if_def)

lemma search_started_only: "master_slmp_only s (search_started os now s)"
  by (rule master_slmp_onlyI) (simp_all add: search_started_def Let_def slmp_sent_def memit_if_eq)

lemma set_ip_started_only: "master_slmp_only s (set_ip_started os now smac nip nmask s)"
  by (rule master_slmp_onlyI) (simp_all add: set_ip_started_def Let_def slmp_sent_def memit_if_eq)

lemma confirmed_only: "master_slmp_only s (clm_slmp_set_ip_notify_cfm st s)" "master_slmp_only s (clm_slmp_node_search_notify_results s)"
  by (rule master_slmp_onlyI; simp add: clm_slmp_set_ip_notify_cfm_def clm_slmp_node_search_notify_results_def Let_def memit_if_eq)+

section \<open>Every accepted request is confirmed once\<close>

definition is_set_ip_cfm :: "clm_output \<Rightarrow> bool" where
  "is_set_ip_cfm x = (case x of Set_Ip_Cfm _ \<Rightarrow> True | _ \<Rightarrow> False)"

definition is_search_cfm :: "clm_output \<Rightarrow> bool" where
  "is_search_cfm x = (case x of Node_Search_Cfm _ \<Rightarrow> True | _ \<Rightarrow> False)"

lemma is_cfm_simps [simp]:
  "is_set_ip_cfm (Set_Ip_Cfm st)" "\<not> is_set_ip_cfm (Slmp_Sent ip p bs)" "\<not> is_set_ip_cfm (Node_Search_Cfm db)"
  "is_search_cfm (Node_Search_Cfm db)" "\<not> is_search_cfm (Slmp_Sent ip p bs)" "\<not> is_search_cfm (Set_Ip_Cfm st)"
  by (simp_all add: is_set_ip_cfm_def is_search_cfm_def)

text \<open>The requests that have been confirmed or are in progress.\<close>

definition set_ip_account :: "clm \<Rightarrow> nat" where
  "set_ip_account s = length (filter is_set_ip_cfm (clm_out s)) + of_bool (clm_set_ip_request_serial s \<noteq> - 1)"

definition search_account :: "clm \<Rightarrow> nat" where
  "search_account s = length (filter is_search_cfm (clm_out s)) + of_bool (clm_node_search_serial s \<noteq> - 1)"

definition confirms :: "clm \<Rightarrow> bool" where
  "confirms s \<longleftrightarrow> mc_set_ip_cfm_cb (clm_config s) \<and> mc_node_search_cfm_cb (clm_config s)"

lemma serial_not_none: "uint (w :: u16) \<noteq> - 1"
  by (metis uint_nonnegative neg_0_le_iff_le not_one_le_zero)

lemma perform_search_account:
  assumes "master_slmp_ok s" "clm_slmp_perform_node_search os now s = Returns (ok, s')"
  shows "master_slmp_ok s'" "master_slmp_only s s'" "set_ip_account s' = set_ip_account s"
    "search_account s' = search_account s + of_bool ok"
proof -
  have e: "s' = (if clm_node_search_serial s \<noteq> - 1 then s else search_started os now s)"
    "ok = (clm_node_search_serial s = - 1 \<and> slmp_sent_ok os (search_request s) s)"
    using assms(2) by (auto simp: perform_search_eq split: if_splits)
  show "master_slmp_ok s'" using assms(1) unfolding e
    by (auto simp: master_slmp_ok_def search_started_def Let_def serial_not_none slmp_db_ok_def clm_slmp_node_search_clear_db_def)
  show "master_slmp_only s s'" unfolding e by (simp add: search_started_only)
  show "set_ip_account s' = set_ip_account s" "search_account s' = search_account s + of_bool ok"
    unfolding e by (auto simp: set_ip_account_def search_account_def search_started_def Let_def serial_not_none)
qed

lemma perform_set_ip_account:
  assumes "master_slmp_ok s" "clm_slmp_perform_set_ipaddr_request os now smac nip nmask s = Returns (ok, s')"
  shows "master_slmp_ok s'" "master_slmp_only s s'" "set_ip_account s' = set_ip_account s + of_bool ok"
    "search_account s' = search_account s"
proof -
  let ?no = "clm_set_ip_request_serial s \<noteq> - 1 \<or> nip = CL_IPADDR_INVALID \<or> \<not> cl_utils_is_netmask_valid nmask"
  have e: "s' = (if ?no then s else set_ip_started os now smac nip nmask s)"
    "ok = (\<not> ?no \<and> slmp_sent_ok os (set_ip_request smac nip nmask s) s)"
    using assms(2) unfolding perform_set_ip_eq by (cases ?no; simp)+
  show "master_slmp_ok s'" using assms(1) unfolding e
    by (auto simp: master_slmp_ok_def set_ip_started_def Let_def serial_not_none)
  show "master_slmp_only s s'" unfolding e by (simp add: set_ip_started_only)
  show "set_ip_account s' = set_ip_account s + of_bool ok" "search_account s' = search_account s"
    unfolding e by (auto simp: set_ip_account_def search_account_def set_ip_started_def Let_def serial_not_none)
qed

lemma add_db_ok:
  assumes "slmp_db_ok db"
  shows "slmp_db_ok (snd (clm_slmp_node_search_add_db r db))"
proof (cases "unat (db_stored db) = length (db_entries db)")
  case True then show ?thesis using assms by (simp add: clm_slmp_node_search_add_db_def slmp_db_ok_def)
next
  case False
  then have l: "unat (db_stored db) < length (db_entries db)" "length (db_entries db) \<le> 255"
    using assms by (simp_all add: slmp_db_ok_def)
  then have "unat (db_stored db + 1) = unat (db_stored db) + 1"
    by (simp add: unat_word_ariths)
  then show ?thesis using l False by (simp add: clm_slmp_node_search_add_db_def slmp_db_ok_def Let_def)
qed

lemma input_account:
  assumes "master_slmp_ok s" "confirms s" and s': "s' = snd (clm_slmp_handle_input_frame bs i s)"
  shows "master_slmp_ok s' \<and> master_slmp_only s s' \<and> set_ip_account s' = set_ip_account s \<and> search_account s' = search_account s"
proof (cases rule: master_input_cases [of bs i s])
  case ignored then show ?thesis using assms by simp
next
  case (found r)
  have "master_slmp_only s (search_response_stored r s)"
    by (rule master_slmp_onlyI) (simp_all add: search_response_stored_def)
  then show ?thesis using found assms add_db_ok
    by (simp add: search_response_stored_def master_slmp_ok_def set_ip_account_def search_account_def)
next
  case confirmed then show ?thesis using assms confirmed_only
    by (simp add: master_slmp_ok_def set_ip_account_def search_account_def confirms_def)
next
  case failed then show ?thesis using assms confirmed_only
    by (simp add: master_slmp_ok_def set_ip_account_def search_account_def confirms_def)
qed

lemma master_slmp_only_config: "master_slmp_only s s' \<Longrightarrow> clm_config s' = clm_config s"
  by (auto simp: master_slmp_only_def)

lemma receive_all_account:
  assumes "master_slmp_ok s" "confirms s"
  shows "master_slmp_ok (slmp_receive_all ds s) \<and> master_slmp_only s (slmp_receive_all ds s) \<and>
    set_ip_account (slmp_receive_all ds s) = set_ip_account s \<and> search_account (slmp_receive_all ds s) = search_account s"
  using assms
proof (induction ds s rule: slmp_receive_all.induct)
  case (1 s) then show ?case by simp
next
  case (2 d ds s)
  define t where "t = snd (clm_slmp_handle_input_frame (dg_data d) (dg_ifindex d) s)"
  have t: "master_slmp_ok t \<and> master_slmp_only s t \<and> set_ip_account t = set_ip_account s \<and> search_account t = search_account s"
    by (rule input_account [OF 2(2,3) t_def])
  then have "confirms t" using 2(3) master_slmp_only_config [of s t] by (simp add: confirms_def)
  then show ?case using 2(1) 2(2) t master_slmp_only_trans by (auto simp: t_def [symmetric])
qed

lemma timeouts_account:
  assumes "master_slmp_ok s" "confirms s" and t_def: "t = clm_slmp_check_timeouts now s"
  shows "master_slmp_ok t" "master_slmp_only s t" "set_ip_account t = set_ip_account s" "search_account t = search_account s"
proof -
  let ?a = "cl_timer_is_expired (clm_node_search_timer s) now" and ?b = "cl_timer_is_expired (clm_set_ip_request_timer s) now"
  have run: "?a \<Longrightarrow> clm_node_search_serial s \<noteq> - 1" "?b \<Longrightarrow> clm_set_ip_request_serial s \<noteq> - 1"
    using assms(1) expired_imp_running by (auto simp: master_slmp_ok_def)
  define s1 where "s1 = (if ?a then clm_slmp_node_search_notify_results
      (s\<lparr>clm_node_search_timer := cl_timer_stop (clm_node_search_timer s)\<rparr>) else s)"
  have s1: "master_slmp_ok s1 \<and> master_slmp_only s s1 \<and> set_ip_account s1 = set_ip_account s \<and> search_account s1 = search_account s"
    using assms(1,2) run(1) unfolding s1_def
    by (auto simp: master_slmp_ok_def set_ip_account_def search_account_def confirms_def
        intro!: master_slmp_only_trans [OF _ confirmed_only(2)] master_slmp_onlyI)
  have f: "clm_set_ip_request_timer s1 = clm_set_ip_request_timer s" "clm_set_ip_request_serial s1 = clm_set_ip_request_serial s"
    "clm_config s1 = clm_config s" by (simp_all add: s1_def)
  have t: "t = (if ?b then clm_slmp_set_ip_notify_cfm CLM_MASTER_SET_IP_STATUS_TIMEOUT
      (s1\<lparr>clm_set_ip_request_timer := cl_timer_stop (clm_set_ip_request_timer s1)\<rparr>) else s1)"
    unfolding t_def clm_slmp_check_timeouts_def Let_def s1_def [symmetric] f ..
  show "master_slmp_ok t" "set_ip_account t = set_ip_account s" "search_account t = search_account s"
    using s1 run(2) assms(2) f unfolding t by (auto simp: master_slmp_ok_def set_ip_account_def search_account_def confirms_def)
  show "master_slmp_only s t"
  proof (rule master_slmp_only_trans)
    show "master_slmp_only s s1" using s1 by simp
    show "master_slmp_only s1 t"
      unfolding t by (auto intro!: master_slmp_only_trans [OF _ confirmed_only(1)] master_slmp_onlyI)
  qed
qed

lemma periodic_account:
  assumes "master_slmp_ok s" "confirms s"
  shows "master_slmp_ok (clm_slmp_periodic now ds s)" "master_slmp_only s (clm_slmp_periodic now ds s)"
    "set_ip_account (clm_slmp_periodic now ds s) = set_ip_account s" "search_account (clm_slmp_periodic now ds s) = search_account s"
proof -
  define t where "t = clm_slmp_check_timeouts now s"
  have t: "master_slmp_ok t" "master_slmp_only s t" "set_ip_account t = set_ip_account s" "search_account t = search_account s"
    by (rule timeouts_account [OF assms t_def])+
  have c: "confirms t" using assms(2) master_slmp_only_config [OF t(2)] by (simp add: confirms_def)
  note r = receive_all_account [OF t(1) c, of ds]
  show "master_slmp_ok (clm_slmp_periodic now ds s)" "master_slmp_only s (clm_slmp_periodic now ds s)"
    "set_ip_account (clm_slmp_periodic now ds s) = set_ip_account s" "search_account (clm_slmp_periodic now ds s) = search_account s"
    using r t master_slmp_only_trans [OF t(2)] by (auto simp: clm_slmp_periodic_def t_def [symmetric])
qed

lemma input_only: "master_slmp_only s (snd (clm_slmp_handle_input_frame bs i s))"
proof (cases rule: master_input_cases [of bs i s])
  case (found r)
  have "master_slmp_only s (search_response_stored r s)"
    by (rule master_slmp_onlyI) (simp_all add: search_response_stored_def)
  then show ?thesis using found by simp
qed (simp_all add: confirmed_only)

lemma receive_all_only: "master_slmp_only s (slmp_receive_all ds s)"
  by (induction ds s rule: slmp_receive_all.induct) (auto intro: master_slmp_only_trans [OF input_only])

lemma timeouts_only: "master_slmp_only s (clm_slmp_check_timeouts now s)"
proof -
  have a: "master_slmp_only s (clm_slmp_node_search_notify_results (s\<lparr>clm_node_search_timer := t\<rparr>))"
    "master_slmp_only s (clm_slmp_set_ip_notify_cfm st (s\<lparr>clm_set_ip_request_timer := t\<rparr>))" for s t st
    by (rule master_slmp_only_trans [OF _ confirmed_only(2)] master_slmp_only_trans [OF _ confirmed_only(1)],
        rule master_slmp_onlyI, simp_all)+
  show ?thesis unfolding clm_slmp_check_timeouts_def Let_def
    by (auto intro: a master_slmp_only_trans [OF a(1) a(2)])
qed

lemma slmp_periodic_only: "master_slmp_only s (clm_slmp_periodic now ds s)"
  unfolding clm_slmp_periodic_def by (rule master_slmp_only_trans [OF timeouts_only receive_all_only])

text \<open>Sequences of calls of the application and of the periodic function.\<close>

datatype slmp_op = Search_Call cl_os u32 | Set_Ip_Call cl_os u32 bytes u32 u32 | Periodic_Call u32 "slmp_datagram list"

fun slmp_call :: "slmp_op \<Rightarrow> clm \<Rightarrow> (bool \<times> clm) outcome" where
  "slmp_call (Search_Call os now) s = clm_slmp_perform_node_search os now s"
| "slmp_call (Set_Ip_Call os now smac nip nmask) s = clm_slmp_perform_set_ipaddr_request os now smac nip nmask s"
| "slmp_call (Periodic_Call now ds) s = Returns (False, clm_slmp_periodic now ds s)"

fun slmp_run :: "slmp_op list \<Rightarrow> clm \<Rightarrow> (bool list \<times> clm) outcome" where
  "slmp_run [] s = Returns ([], s)"
| "slmp_run (c # cs) s = obind (slmp_call c s) (\<lambda>(ok, s). obind (slmp_run cs s) (\<lambda>(oks, s). Returns (ok # oks, s)))"

definition is_search_call :: "slmp_op \<Rightarrow> bool" where
  "is_search_call c = (case c of Search_Call _ _ \<Rightarrow> True | _ \<Rightarrow> False)"

definition is_set_ip_call :: "slmp_op \<Rightarrow> bool" where
  "is_set_ip_call c = (case c of Set_Ip_Call _ _ _ _ _ \<Rightarrow> True | _ \<Rightarrow> False)"

lemma slmp_call_account:
  assumes "master_slmp_ok s" "confirms s"
  shows "\<exists>ok s'. slmp_call c s = Returns (ok, s') \<and> master_slmp_ok s' \<and> master_slmp_only s s' \<and>
    set_ip_account s' = set_ip_account s + of_bool (is_set_ip_call c \<and> ok) \<and>
    search_account s' = search_account s + of_bool (is_search_call c \<and> ok)"
proof (cases c)
  case (Search_Call os now)
  obtain ok s' where r: "clm_slmp_perform_node_search os now s = Returns (ok, s')"
    unfolding perform_search_eq by (metis (full_types))
  show ?thesis using perform_search_account [OF assms(1) r] r Search_Call by (simp add: is_set_ip_call_def is_search_call_def)
next
  case (Set_Ip_Call os now smac nip nmask)
  obtain ok s' where r: "clm_slmp_perform_set_ipaddr_request os now smac nip nmask s = Returns (ok, s')"
    unfolding perform_set_ip_eq by (metis (full_types))
  show ?thesis using perform_set_ip_account [OF assms(1) r] r Set_Ip_Call by (simp add: is_set_ip_call_def is_search_call_def)
next
  case (Periodic_Call now ds)
  then show ?thesis using periodic_account [OF assms, of now ds]
    by (intro exI [of _ False] exI [of _ "clm_slmp_periodic now ds s"]) (simp add: is_set_ip_call_def is_search_call_def)
qed

lemma slmp_run_account:
  assumes "master_slmp_ok s" "confirms s"
  shows "\<exists>oks s'. slmp_run cs s = Returns (oks, s') \<and> length oks = length cs \<and> master_slmp_ok s' \<and> master_slmp_only s s' \<and>
    set_ip_account s' = set_ip_account s + length (filter (\<lambda>(c, ok). is_set_ip_call c \<and> ok) (zip cs oks)) \<and>
    search_account s' = search_account s + length (filter (\<lambda>(c, ok). is_search_call c \<and> ok) (zip cs oks))"
  using assms
proof (induction cs arbitrary: s)
  case Nil then show ?case by simp
next
  case (Cons c cs)
  obtain ok t where c: "slmp_call c s = Returns (ok, t)" "master_slmp_ok t" "master_slmp_only s t"
      "set_ip_account t = set_ip_account s + of_bool (is_set_ip_call c \<and> ok)"
      "search_account t = search_account s + of_bool (is_search_call c \<and> ok)"
    using slmp_call_account [OF Cons.prems, of c] by blast
  have "confirms t" using Cons.prems(2) master_slmp_only_config [OF c(3)] by (simp add: confirms_def)
  from Cons.IH [OF c(2) this] obtain oks s' where
    r: "slmp_run cs t = Returns (oks, s')" "length oks = length cs" "master_slmp_ok s'" "master_slmp_only t s'"
      "set_ip_account s' = set_ip_account t + length (filter (\<lambda>(c, ok). is_set_ip_call c \<and> ok) (zip cs oks))"
      "search_account s' = search_account t + length (filter (\<lambda>(c, ok). is_search_call c \<and> ok) (zip cs oks))" by blast
  show ?case
    using c r master_slmp_only_trans [OF c(3) r(4)] by (intro exI [of _ "ok # oks"] exI [of _ s']) simp
qed

lemma slmp_init_account:
  assumes "length (db_entries (clm_node_search_data s)) \<le> 255" "clm_slmp_init os s = (ok, s')"
  shows "master_slmp_ok s'" "clm_node_search_serial s' = - 1" "clm_set_ip_request_serial s' = - 1" "clm_out s' = clm_out s"
    "clm_config s' = clm_config s"
  using assms by (auto simp: clm_slmp_init_def Let_def master_slmp_ok_def slmp_db_ok_def clm_slmp_node_search_clear_db_def
      CLM_SLMP_SERIAL_NONE_def split: if_splits)

text \<open>A request does not stay in progress longer than its timeout, whatever arrives.\<close>

lemma input_keeps_idle:
  "(clm_set_ip_request_serial s = - 1 \<longrightarrow> clm_set_ip_request_serial (snd (clm_slmp_handle_input_frame bs i s)) = - 1) \<and>
   (clm_node_search_serial s = - 1 \<longrightarrow> clm_node_search_serial (snd (clm_slmp_handle_input_frame bs i s)) = - 1)"
  by (cases rule: master_input_cases [of bs i s]) (simp_all add: search_response_stored_def)

lemma receive_keeps_idle:
  "(clm_set_ip_request_serial s = - 1 \<longrightarrow> clm_set_ip_request_serial (slmp_receive_all ds s) = - 1) \<and>
   (clm_node_search_serial s = - 1 \<longrightarrow> clm_node_search_serial (slmp_receive_all ds s) = - 1)"
  by (induction ds s rule: slmp_receive_all.induct) (simp_all add: input_keeps_idle)

lemma periodic_ends_search:
  assumes "cl_timer_is_expired (clm_node_search_timer s) now"
  shows "clm_node_search_serial (clm_slmp_periodic now ds s) = - 1"
proof -
  have "clm_node_search_serial (clm_slmp_check_timeouts now s) = - 1"
    using assms by (simp add: clm_slmp_check_timeouts_def Let_def)
  then show ?thesis using receive_keeps_idle by (simp add: clm_slmp_periodic_def)
qed

lemma periodic_ends_set_ip:
  assumes "cl_timer_is_expired (clm_set_ip_request_timer s) now"
  shows "clm_set_ip_request_serial (clm_slmp_periodic now ds s) = - 1"
proof -
  have "clm_set_ip_request_serial (clm_slmp_check_timeouts now s) = - 1"
    using assms by (simp add: clm_slmp_check_timeouts_def Let_def)
  then show ?thesis using receive_keeps_idle by (simp add: clm_slmp_periodic_def)
qed

end
