(* ===== verification/CLM_Behaviour.thy ===== *)
theory CLM_Behaviour
  imports CLM_Loop CLM_SLMP
begin

text \<open>
  What the master does: the cyclic data accessors of all devices as instances of \<open>signal_area\<close>, the
  masters that can be reached by any sequence of operations, and the way of the data between the
  memory of the application and the frames.
\<close>

section \<open>Signals of all devices\<close>

text \<open>A signal of the master is named by group, device and number.\<close>

type_synonym signal_index = "nat \<times> nat \<times> u16"

definition device_setting_at :: "clm \<Rightarrow> nat \<Rightarrow> clm_group_setting" where
  "device_setting_at clm gi = hi_groups (mc_hier (clm_config clm)) ! gi"

definition ry_valid :: "signal_index \<Rightarrow> clm \<Rightarrow> bool" where
  "ry_valid x clm = (case x of (gi, di, i) \<Rightarrow> gi < number_of_groups clm \<and> di < gs_num_slave_devices (device_setting_at clm gi) \<and>
     unat i div 64 < device_occ (device_setting_at clm gi) di)"

definition rww_valid :: "signal_index \<Rightarrow> clm \<Rightarrow> bool" where
  "rww_valid x clm = (case x of (gi, di, i) \<Rightarrow> gi < number_of_groups clm \<and> di < gs_num_slave_devices (device_setting_at clm gi) \<and>
     unat i div 32 < device_occ (device_setting_at clm gi) di)"

fun get_ry :: "signal_index \<Rightarrow> clm \<Rightarrow> bool outcome" where
  "get_ry (gi, di, i) clm = clm_iefb_get_ry_bit clm gi di i"
fun set_ry :: "signal_index \<Rightarrow> bool \<Rightarrow> clm \<Rightarrow> clm outcome" where
  "set_ry (gi, di, i) v clm = clm_iefb_set_ry_bit gi di i v clm"
fun get_rww :: "signal_index \<Rightarrow> clm \<Rightarrow> u16 outcome" where
  "get_rww (gi, di, i) clm = clm_iefb_get_rww_value clm gi di i"
fun set_rww :: "signal_index \<Rightarrow> u16 \<Rightarrow> clm \<Rightarrow> clm outcome" where
  "set_rww (gi, di, i) v clm = clm_iefb_set_rww_value gi di i v clm"

text \<open>The number of stations before a device.\<close>

definition before_device :: "clm \<Rightarrow> nat \<Rightarrow> nat \<Rightarrow> nat" where
  "before_device clm gi di = dd_slave_station_no (gd_slave_devices (clm_groups clm ! gi) ! di) - 1"

lemmas area_defs = clm_iefb_get_first_device_rx_area_def clm_iefb_get_first_device_ry_area_def
  clm_iefb_get_first_device_rwr_area_def clm_iefb_get_first_device_rww_area_def device_area_def
  clm_iefb_get_first_rx_area_def clm_iefb_get_first_ry_area_def clm_iefb_get_first_rwr_area_def clm_iefb_get_first_rww_area_def
  clm_iefb_get_occupied_and_position_def Let_def

text \<open>Each access function reaches the areas of the device, or fails an assertion.\<close>

lemma with_device_area:
  assumes "area \<in> {clm_iefb_get_first_device_rx_area, clm_iefb_get_first_device_ry_area,
      clm_iefb_get_first_device_rwr_area, clm_iefb_get_first_device_rww_area}"
  shows "with_area (area clm gi di) n k =
    (if gi < number_of_groups clm \<and> di < gs_num_slave_devices (device_setting_at clm gi) \<and> unat n < device_occ (device_setting_at clm gi) di
     then k (before_device clm gi di + unat n) else Assert_Failed)"
  using assms unfolding with_area_def device_setting_at_def device_occ_def before_device_def
  by (auto simp: area_defs cc_assert_def split: if_splits)

definition ry_byte :: "clm \<Rightarrow> nat \<Rightarrow> nat \<Rightarrow> u16 \<Rightarrow> nat" where
  "ry_byte clm gi di i = 8 * before_device clm gi di + unat i div 8"

definition rww_byte :: "clm \<Rightarrow> nat \<Rightarrow> nat \<Rightarrow> u16 \<Rightarrow> nat" where
  "rww_byte clm gi di i = 64 * before_device clm gi di + 2 * unat i"

abbreviation ry_memory :: "clm \<Rightarrow> nat \<Rightarrow> bytes" where
  "ry_memory clm gi \<equiv> mem_ry (gd_memory_area (clm_groups clm ! gi))"

abbreviation rww_memory :: "clm \<Rightarrow> nat \<Rightarrow> bytes" where
  "rww_memory clm gi \<equiv> mem_rww (gd_memory_area (clm_groups clm ! gi))"

definition put_ry :: "nat \<Rightarrow> bytes \<Rightarrow> clm \<Rightarrow> clm" where
  "put_ry gi bs clm = set_group gi ((clm_groups clm ! gi)\<lparr>gd_memory_area := (gd_memory_area (clm_groups clm ! gi))\<lparr>mem_ry := bs\<rparr>\<rparr>) clm"

definition put_rww :: "nat \<Rightarrow> bytes \<Rightarrow> clm \<Rightarrow> clm" where
  "put_rww gi bs clm = set_group gi ((clm_groups clm ! gi)\<lparr>gd_memory_area := (gd_memory_area (clm_groups clm ! gi))\<lparr>mem_rww := bs\<rparr>\<rparr>) clm"

lemma ry_access:
  "get_ry (gi, di, i) clm = (if ry_valid (gi, di, i) clm
     then Returns (ry_memory clm gi ! ry_byte clm gi di i AND push_bit (unat i mod 8) 1 > 0) else Assert_Failed)"
  "set_ry (gi, di, i) v clm = (if ry_valid (gi, di, i) clm
     then Returns (put_ry gi ((ry_memory clm gi)[ry_byte clm gi di i :=
       change_bit v (push_bit (unat i mod 8) 1) (ry_memory clm gi ! ry_byte clm gi di i)]) clm) else Assert_Failed)"
proof -
  obtain area byte m where a: "cl_iefb_bit_calculate_areanumber i = (area, byte, m)" by (metis prod_cases3)
  note p = bit_position [OF a] bit_area_number(1) [OF a]
  have pos: "(before_device clm gi di + unat area) * sizeof_bit_area + unat byte = ry_byte clm gi di i"
    using p(1) by (simp add: ry_byte_def sizeof_bit_area_def algebra_simps)
  show "get_ry (gi, di, i) clm = (if ry_valid (gi, di, i) clm
     then Returns (ry_memory clm gi ! ry_byte clm gi di i AND push_bit (unat i mod 8) 1 > 0) else Assert_Failed)"
    unfolding get_ry.simps clm_iefb_get_ry_bit_def a Let_def prod.case
    by (subst with_device_area) (simp_all add: pos [unfolded p(3)] p(2,3) ry_valid_def del: push_bit_of_1)
  show "set_ry (gi, di, i) v clm = (if ry_valid (gi, di, i) clm
     then Returns (put_ry gi ((ry_memory clm gi)[ry_byte clm gi di i :=
       change_bit v (push_bit (unat i mod 8) 1) (ry_memory clm gi ! ry_byte clm gi di i)]) clm) else Assert_Failed)"
    unfolding set_ry.simps clm_iefb_set_ry_bit_def a Let_def prod.case
    by (subst with_device_area) (simp_all add: pos [unfolded p(3)] p(2,3) ry_valid_def put_ry_def del: push_bit_of_1)
qed

lemma rww_access:
  "get_rww (gi, di, i) clm = (if rww_valid (gi, di, i) clm then Returns (le16_at (rww_memory clm gi) (rww_byte clm gi di i)) else Assert_Failed)"
  "set_rww (gi, di, i) v clm = (if rww_valid (gi, di, i) clm
     then Returns (put_rww gi (put_bytes (rww_memory clm gi) (rww_byte clm gi di i) (le16_bytes v)) clm) else Assert_Failed)"
proof -
  obtain area reg where a: "cl_iefb_register_calculate_areanumber i = (area, reg)" by (metis prod.exhaust)
  note p = register_position [OF a] register_area_number(1) [OF a]
  have pos: "(before_device clm gi di + unat area) * sizeof_word_area + 2 * unat reg = rww_byte clm gi di i"
    using p(1) by (simp add: rww_byte_def sizeof_word_area_def algebra_simps)
  show "get_rww (gi, di, i) clm = (if rww_valid (gi, di, i) clm then Returns (le16_at (rww_memory clm gi) (rww_byte clm gi di i)) else Assert_Failed)"
    unfolding get_rww.simps clm_iefb_get_rww_value_def a Let_def prod.case
    by (subst with_device_area) (simp_all add: pos [unfolded p(2)] p(2) rww_valid_def)
  show "set_rww (gi, di, i) v clm = (if rww_valid (gi, di, i) clm
     then Returns (put_rww gi (put_bytes (rww_memory clm gi) (rww_byte clm gi di i) (le16_bytes v)) clm) else Assert_Failed)"
    unfolding set_rww.simps clm_iefb_set_rww_value_def a Let_def prod.case
    by (subst with_device_area) (simp_all add: pos [unfolded p(2)] p(2) rww_valid_def put_rww_def)
qed

text \<open>The areas of the devices of a group are apart and within the memory of the group.\<close>

lemma device_areas:
  assumes inv: "clm_inv clm" and gi: "gi < number_of_groups clm" and gs: "gs = device_setting_at clm gi" and di: "di < gs_num_slave_devices gs"
  shows "before_device clm gi di = station_no gs di - 1" "group_fits gs"
    "before_device clm gi di + device_occ gs di \<le> stations_of gs"
    "8 * stations_of gs \<le> length (ry_memory clm gi)" "64 * stations_of gs \<le> length (rww_memory clm gi)" "gi < length (clm_groups clm)"
proof -
  have gs': "gs = hi_groups (mc_hier (clm_config clm)) ! gi" by (simp add: gs device_setting_at_def)
  have mo: "good_config (clm_config clm)" "group_ready (clm_config clm) gi (clm_groups clm ! gi)" "gi < length (clm_groups clm)"
    using inv gi group_inv_ready by (simp_all add: clm_inv_def groups_inv_def master_ok_def)
  show fits: "group_fits gs" by (rule good_config_group(1) [OF mo(1) gi gs'])
  show b: "before_device clm gi di = station_no gs di - 1"
    using mo(2) di gs' by (simp add: before_device_def group_ready_def device_inv_def device_placed_def Let_def)
  show "before_device clm gi di + device_occ gs di \<le> stations_of gs"
    using station_no_range [OF fits di] by (simp add: b device_occ_def)
  show "8 * stations_of gs \<le> length (ry_memory clm gi)" "64 * stations_of gs \<le> length (rww_memory clm gi)" "gi < length (clm_groups clm)"
    using mo gs' by (simp_all add: group_ready_def memory_ok_def Let_def)
qed

lemma device_areas_apart:
  assumes "clm_inv clm" "gi < number_of_groups clm" "gs = device_setting_at clm gi"
    and di: "di < gs_num_slave_devices gs" and dj: "dj < gs_num_slave_devices gs" and "di \<noteq> dj"
  shows "before_device clm gi di + device_occ gs di \<le> before_device clm gi dj \<or> before_device clm gi dj + device_occ gs dj \<le> before_device clm gi di"
  using stations_apart [OF device_areas(2) [OF assms(1-4)] di dj assms(6)] station_no_range(1) [OF device_areas(2) [OF assms(1-4)] di]
    station_no_range(1) [OF device_areas(2) [OF assms(1-4)] dj]
  unfolding device_areas(1) [OF assms(1-4)] device_areas(1) [OF assms(1-3) dj] device_occ_def by linarith

lemma put_memory_calm:
  assumes "gi < length (clm_groups clm)"
  shows "length bs = length (ry_memory clm gi) \<Longrightarrow> calm_master gi clm (put_ry gi bs clm)"
    "length bs = length (rww_memory clm gi) \<Longrightarrow> calm_master gi clm (put_rww gi bs clm)"
  unfolding put_ry_def put_rww_def using assms
  by (intro calm_master_set_group; simp add: calm_group_def same_memory_def)+

lemma valid_keeps:
  assumes "calm_master gi clm clm'"
  shows "ry_valid x clm' = ry_valid x clm" "rww_valid x clm' = rww_valid x clm"
  using assms by (simp_all add: calm_master_def only_group_def ry_valid_def rww_valid_def device_setting_at_def split: prod.splits)

lemma before_device_put [simp]:
  "gi < length (clm_groups clm) \<Longrightarrow> before_device (put_ry gi bs clm) gj dj = before_device clm gj dj"
  "gi < length (clm_groups clm) \<Longrightarrow> before_device (put_rww gi bs clm) gj dj = before_device clm gj dj"
  by (cases "gi = gj"; simp add: before_device_def put_ry_def put_rww_def)+

lemma memory_put [simp]:
  "gi < length (clm_groups clm) \<Longrightarrow> ry_memory (put_ry gi bs clm) gj = (if gj = gi then bs else ry_memory clm gj)"
  "gi < length (clm_groups clm) \<Longrightarrow> rww_memory (put_rww gi bs clm) gj = (if gj = gi then bs else rww_memory clm gj)"
  by (simp_all add: put_ry_def put_rww_def)

declare get_ry.simps [simp del] set_ry.simps [simp del] get_rww.simps [simp del] set_rww.simps [simp del]

lemma ry_bounds:
  assumes "clm_inv clm" "ry_valid (gi, di, i) clm"
  shows "ry_byte clm gi di i < 8 * (before_device clm gi di + device_occ (device_setting_at clm gi) di)"
    "ry_byte clm gi di i < length (ry_memory clm gi)" "gi < length (clm_groups clm)"
proof -
  have v: "gi < number_of_groups clm" "di < gs_num_slave_devices (device_setting_at clm gi)"
    "unat i div 64 < device_occ (device_setting_at clm gi) di" using assms(2) by (simp_all add: ry_valid_def)
  note a = device_areas [OF assms(1) v(1) refl v(2)]
  have "unat i div 8 < 8 * device_occ (device_setting_at clm gi) di" using v(3) by linarith
  then show b: "ry_byte clm gi di i < 8 * (before_device clm gi di + device_occ (device_setting_at clm gi) di)" by (simp add: ry_byte_def)
  show "gi < length (clm_groups clm)" by (rule a(6))
  have "ry_byte clm gi di i < 8 * stations_of (device_setting_at clm gi)" using a(3) b by (simp add: algebra_simps)
  then show "ry_byte clm gi di i < length (ry_memory clm gi)" using a(4) by linarith
qed

lemma rww_bounds:
  assumes "clm_inv clm" "rww_valid (gi, di, i) clm"
  shows "rww_byte clm gi di i + 2 \<le> 64 * (before_device clm gi di + device_occ (device_setting_at clm gi) di)"
    "rww_byte clm gi di i + 2 \<le> length (rww_memory clm gi)" "gi < length (clm_groups clm)"
proof -
  have v: "gi < number_of_groups clm" "di < gs_num_slave_devices (device_setting_at clm gi)"
    "unat i div 32 < device_occ (device_setting_at clm gi) di" using assms(2) by (simp_all add: rww_valid_def)
  note a = device_areas [OF assms(1) v(1) refl v(2)]
  have "2 * unat i + 2 \<le> 64 * device_occ (device_setting_at clm gi) di" using v(3) by linarith
  then show b: "rww_byte clm gi di i + 2 \<le> 64 * (before_device clm gi di + device_occ (device_setting_at clm gi) di)" by (simp add: rww_byte_def)
  show "gi < length (clm_groups clm)" by (rule a(6))
  have "rww_byte clm gi di i + 2 \<le> 64 * stations_of (device_setting_at clm gi)" using a(3) b by (simp add: algebra_simps)
  then show "rww_byte clm gi di i + 2 \<le> length (rww_memory clm gi)" using a(5) by linarith
qed

lemma ry_read_write:
  assumes inv: "clm_inv clm" and i: "ry_valid (gi, di, i) clm" and j: "ry_valid (gj, dj, j) clm" and w: "set_ry (gi, di, i) v clm = Returns clm'"
  shows "get_ry (gj, dj, j) clm' = (if (gj, dj, j) = (gi, di, i) then Returns v else get_ry (gj, dj, j) clm)"
proof -
  note b = ry_bounds [OF inv i]
  let ?buf = "(ry_memory clm gi)[ry_byte clm gi di i := change_bit v (push_bit (unat i mod 8) 1) (ry_memory clm gi ! ry_byte clm gi di i)]"
  have clm': "clm' = put_ry gi ?buf clm" using w i by (simp add: ry_access del: push_bit_of_1)
  have c: "calm_master gi clm clm'" unfolding clm' by (rule put_memory_calm(1) [OF b(3)]) simp
  have mem: "ry_memory clm' gj = (if gj = gi then ?buf else ry_memory clm gj)" "ry_byte clm' gj dj j = ry_byte clm gj dj j"
    using b(3) by (simp_all add: clm' ry_byte_def)
  have rd: "get_ry (gj, dj, j) clm' = Returns ((if gj = gi then ?buf else ry_memory clm gj) ! ry_byte clm gj dj j AND push_bit (unat j mod 8) 1 > 0)"
    unfolding ry_access(1) valid_keeps(1) [OF c] mem using j by simp
  consider "gj \<noteq> gi" | "gj = gi" "dj = di" | "gj = gi" "dj \<noteq> di" by blast
  then show ?thesis
  proof cases
    case 1 then show ?thesis using rd j by (simp add: ry_access(1) del: push_bit_of_1)
  next
    case 2
    have "8 * before_device clm gi di + unat i div 8 < length (ry_memory clm gi)" using b(2) by (simp add: ry_byte_def)
    from changed_bit_buffer [OF this, of v j] bit_single [of "ry_memory clm gi ! ry_byte clm gi di j" "unat j mod 8"]
    show ?thesis using rd j 2 by (simp add: ry_access(1) ry_byte_def del: push_bit_of_1)
  next
    case 3
    have v: "gi < number_of_groups clm" "di < gs_num_slave_devices (device_setting_at clm gi)" "dj < gs_num_slave_devices (device_setting_at clm gi)"
      using i j 3 by (simp_all add: ry_valid_def)
    have "ry_byte clm gi dj j \<noteq> ry_byte clm gi di i"
      using device_areas_apart [OF inv v(1) refl v(2,3)] 3 b(1) ry_bounds(1) [OF inv j] by (auto simp: ry_byte_def)
    then show ?thesis using rd j 3 by (simp add: ry_access(1) del: push_bit_of_1)
  qed
qed

lemma rww_read_write:
  assumes inv: "clm_inv clm" and i: "rww_valid (gi, di, i) clm" and j: "rww_valid (gj, dj, j) clm" and w: "set_rww (gi, di, i) v clm = Returns clm'"
  shows "get_rww (gj, dj, j) clm' = (if (gj, dj, j) = (gi, di, i) then Returns v else get_rww (gj, dj, j) clm)"
proof -
  note b = rww_bounds [OF inv i] and bj = rww_bounds [OF inv j]
  let ?buf = "put_bytes (rww_memory clm gi) (rww_byte clm gi di i) (le16_bytes v)"
  have clm': "clm' = put_rww gi ?buf clm" using w i by (simp add: rww_access)
  have c: "calm_master gi clm clm'" unfolding clm' by (rule put_memory_calm(2) [OF b(3)]) (use b(2) in simp)
  have mem: "rww_memory clm' gj = (if gj = gi then ?buf else rww_memory clm gj)" "rww_byte clm' gj dj j = rww_byte clm gj dj j"
    using b(3) by (simp_all add: clm' rww_byte_def)
  have rd: "get_rww (gj, dj, j) clm' = Returns (le16_at (if gj = gi then ?buf else rww_memory clm gj) (rww_byte clm gj dj j))"
    unfolding rww_access(1) valid_keeps(2) [OF c] mem using j by simp
  consider "gj \<noteq> gi" | "gj = gi" "dj = di" | "gj = gi" "dj \<noteq> di" by blast
  then show ?thesis
  proof cases
    case 1 then show ?thesis using rd j by (simp add: rww_access(1))
  next
    case 2
    then show ?thesis using rd j b(2) bj(2) changed_register_buffer [of "64 * before_device clm gi di" i "rww_memory clm gi" j v]
      by (simp add: rww_access(1) rww_byte_def)
  next
    case 3
    have v: "gi < number_of_groups clm" "di < gs_num_slave_devices (device_setting_at clm gi)" "dj < gs_num_slave_devices (device_setting_at clm gi)"
      using i j 3 by (simp_all add: rww_valid_def)
    have "rww_byte clm gi di i + 2 \<le> rww_byte clm gi dj j \<or> rww_byte clm gi dj j + 2 \<le> rww_byte clm gi di i"
      using device_areas_apart [OF inv v(1) refl v(2,3)] 3 b(1) bj(1) by (auto simp: rww_byte_def)
    then show ?thesis using rd j 3 b(2) bj(2) le16_at_put_other [of "rww_byte clm gi di i" "rww_memory clm gi" "rww_byte clm gi dj j" v]
      by (auto simp: rww_access(1))
  qed
qed

lemma ry_write_ok:
  assumes "clm_inv clm" "ry_valid (gi, di, i) clm"
  shows "\<exists>clm'. set_ry (gi, di, i) v clm = Returns clm' \<and> calm_master gi clm clm'"
  using assms ry_bounds(3) [OF assms] put_memory_calm(1) [of gi clm] by (simp add: ry_access)

lemma rww_write_ok:
  assumes "clm_inv clm" "rww_valid (gi, di, i) clm"
  shows "\<exists>clm'. set_rww (gi, di, i) v clm = Returns clm' \<and> calm_master gi clm clm'"
  using assms rww_bounds [OF assms] put_memory_calm(2) [of gi clm] by (simp add: rww_access)

interpretation ry: signal_area get_ry set_ry ry_valid clm_inv
proof
  fix clm x y v clm' assume "clm_inv clm" "ry_valid x clm" "ry_valid y clm" "set_ry x v clm = Returns clm'"
  then show "get_ry y clm' = (if y = x then Returns v else get_ry y clm)" by (cases x; cases y) (simp only: ry_read_write)
next
  fix clm x v assume a: "clm_inv clm" "ry_valid x clm"
  obtain gi di i where x: "x = (gi, di, i)" by (cases x)
  from ry_write_ok [of clm gi di i v] a x obtain c where c: "set_ry x v clm = Returns c" "calm_master gi clm c" by blast
  show "\<exists>clm'. set_ry x v clm = Returns clm' \<and> clm_inv clm' \<and> (\<forall>j. ry_valid j clm' = ry_valid j clm)"
    using c calm_master_inv(1) [OF a(1) c(2)] valid_keeps(1) [OF c(2)] by blast
qed (auto simp: ry_access)

interpretation rww: signal_area get_rww set_rww rww_valid clm_inv
proof
  fix clm x y v clm' assume "clm_inv clm" "rww_valid x clm" "rww_valid y clm" "set_rww x v clm = Returns clm'"
  then show "get_rww y clm' = (if y = x then Returns v else get_rww y clm)" by (cases x; cases y) (simp only: rww_read_write)
next
  fix clm x v assume a: "clm_inv clm" "rww_valid x clm"
  obtain gi di i where x: "x = (gi, di, i)" by (cases x)
  from rww_write_ok [of clm gi di i v] a x obtain c where c: "set_rww x v clm = Returns c" "calm_master gi clm c" by blast
  show "\<exists>clm'. set_rww x v clm = Returns clm' \<and> clm_inv clm' \<and> (\<forall>j. rww_valid j clm' = rww_valid j clm)"
    using c calm_master_inv(1) [OF a(1) c(2)] valid_keeps(2) [OF c(2)] by blast
qed (auto simp: rww_access)

text \<open>A write to one of the two areas does not reach the other one.\<close>

lemma views_put:
  assumes "gi < length (clm_groups clm)"
  shows "signal_view get_rww (put_ry gi bs clm) = signal_view get_rww clm" "signal_view get_ry (put_rww gi bs clm) = signal_view get_ry clm"
proof -
  have g: "clm_config (put_ry gi bs clm) = clm_config clm" "clm_config (put_rww gi bs clm) = clm_config clm"
    "rww_memory (put_ry gi bs clm) gj = rww_memory clm gj" "ry_memory (put_rww gi bs clm) gj = ry_memory clm gj" for gj
    using assms by (cases "gj = gi"; simp add: put_ry_def put_rww_def)+
  have "get_rww x (put_ry gi bs clm) = get_rww x clm" "get_ry x (put_rww gi bs clm) = get_ry x clm" for x
    using assms g by (cases x; simp add: ry_access(1) rww_access(1) ry_valid_def rww_valid_def device_setting_at_def ry_byte_def rww_byte_def del: push_bit_of_1)+
  then show "signal_view get_rww (put_ry gi bs clm) = signal_view get_rww clm" "signal_view get_ry (put_rww gi bs clm) = signal_view get_ry clm"
    by (simp_all add: signal_view_def fun_eq_iff)
qed

lemma ry_writes_keep_rww:
  assumes "clm_inv clm" "write_all set_ry xs clm = Returns clm'"
  shows "signal_view get_rww clm' = signal_view get_rww clm"
proof (rule ry.write_all_keeps [OF assms(2,1)])
  fix x v c c' assume "clm_inv c" "ry_valid x c" "set_ry x v c = Returns c'"
  then show "signal_view get_rww c' = signal_view get_rww c"
    using ry_bounds(3) [of c] views_put(1) by (cases x) (auto simp: ry_access(2) simp del: push_bit_of_1)
qed

lemma rww_writes_keep_ry:
  assumes "clm_inv clm" "write_all set_rww xs clm = Returns clm'"
  shows "signal_view get_ry clm' = signal_view get_ry clm"
proof (rule rww.write_all_keeps [OF assms(2,1)])
  fix x v c c' assume "clm_inv c" "rww_valid x c" "set_rww x v c = Returns c'"
  then show "signal_view get_ry c' = signal_view get_ry c"
    using rww_bounds(3) [of c] views_put(2) by (cases x) (auto simp: rww_access(2))
qed

section \<open>Reachable masters\<close>

datatype clm_operation =
    Master_Periodic u32 "nat \<Rightarrow> u64" "clm_datagram option" "clm_datagram list"
  | Master_Set_Ry nat nat u16 bool
  | Master_Set_Rww nat nat u16 u16
  | Master_Application_Status bool bool
  | Master_Slave_Status nat nat bool
  | Master_Force_Transmission nat nat bool
  | Master_Clear_Statistics
  | Master_Slmp_Init cl_os
  | Master_Slmp_Periodic u32 "slmp_datagram list"
  | Master_Node_Search cl_os u32
  | Master_Set_Ip cl_os u32 bytes u32 u32

fun clm_do :: "clm_operation \<Rightarrow> clm \<Rightarrow> clm outcome" where
  "clm_do (Master_Periodic now clock arb ds) clm = clm_iefb_periodic now clock arb ds clm"
| "clm_do (Master_Set_Ry gi di i v) clm = clm_iefb_set_ry_bit gi di i v clm"
| "clm_do (Master_Set_Rww gi di i v) clm = clm_iefb_set_rww_value gi di i v clm"
| "clm_do (Master_Application_Status running stopped) clm = Returns (clm_iefb_set_master_application_status running stopped clm)"
| "clm_do (Master_Slave_Status gi di b) clm = Returns (snd (clm_iefb_set_slave_communication_status gi di b clm))"
| "clm_do (Master_Force_Transmission gi di b) clm = Returns (snd (clm_iefb_force_cyclic_transmission_bit gi di b clm))"
| "clm_do Master_Clear_Statistics clm = Returns (clm_iefb_statistics_clear_all clm)"
| "clm_do (Master_Slmp_Init os) clm = Returns (snd (clm_slmp_init os clm))"
| "clm_do (Master_Slmp_Periodic now ds) clm = Returns (clm_slmp_periodic now ds clm)"
| "clm_do (Master_Node_Search os now) clm =
     obind (clm_slmp_perform_node_search os now clm) (\<lambda>(_, clm). Returns clm)"
| "clm_do (Master_Set_Ip os now mac ip netmask) clm =
     obind (clm_slmp_perform_set_ipaddr_request os now mac ip netmask clm) (\<lambda>(_, clm). Returns clm)"

text \<open>Arguments that fit the configuration, and datagrams that do not fail the assertion of the parser.\<close>

fun operation_ok :: "clm_operation \<Rightarrow> clm \<Rightarrow> bool" where
  "operation_ok (Master_Periodic now clock arb ds) clm \<longleftrightarrow>
     (case arb of None \<Rightarrow> True | Some d \<Rightarrow> safe_datagram (fst d)) \<and> (\<forall>d \<in> set ds. safe_datagram (fst d))"
| "operation_ok (Master_Set_Ry gi di i v) clm \<longleftrightarrow> ry_valid (gi, di, i) clm"
| "operation_ok (Master_Set_Rww gi di i v) clm \<longleftrightarrow> rww_valid (gi, di, i) clm"
| "operation_ok _ clm \<longleftrightarrow> True"

inductive clm_reachable :: "clm \<Rightarrow> bool" where
  start: "options_ok mg ms \<Longrightarrow> arrays_ok (clm_config clm) \<Longrightarrow> clm_validate_config mg ms (Some (clm_config clm)) \<Longrightarrow>
    clm_validate_config_duplicates (clm_config clm) \<Longrightarrow>
    clm_iefb_init mg ms now clock True True clm = Returns (True, clm') \<Longrightarrow> clm_reachable clm'"
| step: "clm_reachable clm \<Longrightarrow> operation_ok oper clm \<Longrightarrow> clm_do oper clm = Returns clm' \<Longrightarrow> clm_reachable clm'"

lemma upd_dev_inv:
  assumes "clm_inv clm" "device_exists clm gi di" "\<And>d. calm d (f d)"
  shows "clm_inv (upd_dev gi di f clm)" "clm_config (upd_dev gi di f clm) = clm_config clm"
proof -
  have "gi < length (clm_groups clm)"
    using assms(1,2) by (auto simp: clm_inv_def groups_inv_def master_ok_def device_exists_def Let_def split: if_splits)
  then have "calm_master gi clm (upd_dev gi di f clm)" using assms(3) by (rule calm_master_upd_dev)
  from calm_master_inv [OF assms(1) this] show "clm_inv (upd_dev gi di f clm)" "clm_config (upd_dev gi di f clm) = clm_config clm" .
qed

lemma statistics_clear_all_ok: "clm_inv clm \<Longrightarrow> clm_inv (clm_iefb_statistics_clear_all clm)"
proof -
  assume inv: "clm_inv clm"
  let ?f = "\<lambda>d. d\<lparr>dd_statistics := clm_iefb_statistics_clear, dd_latest_frame := clm_iefb_latest_received_clear\<rparr>"
  let ?hier = "mc_hier (clm_config clm)"
  have inner: "clm_inv (fold (\<lambda>di. upd_dev gi di ?f) dis c) \<and> clm_config (fold (\<lambda>di. upd_dev gi di ?f) dis c) = clm_config c"
    if "clm_inv c" "gi < number_of_groups c" "\<forall>di \<in> set dis. di < gs_num_slave_devices (hi_groups (mc_hier (clm_config c)) ! gi)" for c gi dis
    using that
  proof (induction dis arbitrary: c)
    case (Cons di dis)
    have "device_exists c gi di" using Cons.prems by (simp add: device_exists_def Let_def)
    from upd_dev_inv [OF Cons.prems(1) this, of ?f] show ?case using Cons.IH [of "upd_dev gi di ?f c"] Cons.prems by simp
  qed simp
  have "clm_inv (fold (\<lambda>gi. fold (\<lambda>di. upd_dev gi di ?f) [0..<gs_num_slave_devices (hi_groups ?hier ! gi)]) gis c) \<and>
      clm_config (fold (\<lambda>gi. fold (\<lambda>di. upd_dev gi di ?f) [0..<gs_num_slave_devices (hi_groups ?hier ! gi)]) gis c) = clm_config clm"
    if "clm_inv c" "clm_config c = clm_config clm" "\<forall>gi \<in> set gis. gi < number_of_groups clm" for c gis
    using that
  proof (induction gis arbitrary: c)
    case (Cons gi gis)
    have "clm_inv (fold (\<lambda>di. upd_dev gi di ?f) [0..<gs_num_slave_devices (hi_groups ?hier ! gi)] c) \<and>
        clm_config (fold (\<lambda>di. upd_dev gi di ?f) [0..<gs_num_slave_devices (hi_groups ?hier ! gi)] c) = clm_config c"
      by (rule inner) (use Cons.prems in simp_all)
    then show ?case using Cons.IH Cons.prems by simp
  qed simp
  from this [OF inv refl, of "[0..<hi_number_of_groups ?hier]"] show ?thesis
    by (simp add: clm_iefb_statistics_clear_all_def Let_def)
qed

lemma application_status_ok: "clm_inv clm \<Longrightarrow> clm_inv (clm_iefb_set_master_application_status running stopped clm)"
  by (simp add: clm_iefb_set_master_application_status_def clm_iefb_calc_master_local_unit_info_def clm_inv_def groups_inv_def
      arbitration_inv_def master_ok_def device_tables_def group_tables_def unit_info_ok_def
      CL_CCIEFB_MASTER_LOCAL_UNIT_INFO_STOPPED_def CL_CCIEFB_MASTER_LOCAL_UNIT_INFO_RUNNING_def CL_CCIEFB_MASTER_LOCAL_UNIT_INFO_STOPPED_BY_USER_def)

lemma clm_inv_cong:
  assumes "clm_inv clm" "clm_config clm' = clm_config clm" "clm_groups clm' = clm_groups clm"
    "clm_device_fsm_matrix clm' = clm_device_fsm_matrix clm" "clm_device_fsm_on_entry_exit clm' = clm_device_fsm_on_entry_exit clm"
    "clm_group_fsm_matrix clm' = clm_group_fsm_matrix clm" "clm_group_fsm_on_entry_exit clm' = clm_group_fsm_on_entry_exit clm"
    "clm_master_local_unit_info clm' = clm_master_local_unit_info clm" "clm_arbitration_timer clm' = clm_arbitration_timer clm"
  shows "clm_inv clm'"
  using assms by (simp add: clm_inv_def groups_inv_def arbitration_inv_def master_ok_def device_tables_def group_tables_def unit_info_ok_def)

lemma slmp_only_inv: "master_slmp_only clm clm' \<Longrightarrow> clm_inv clm \<Longrightarrow> clm_inv clm'"
  unfolding master_slmp_only_def by (elim exE, erule clm_inv_cong) simp_all

lemma slmp_init_inv: "clm_inv clm \<Longrightarrow> clm_inv (snd (clm_slmp_init os clm))"
  by (erule clm_inv_cong) (simp_all add: clm_slmp_init_def Let_def)

lemma slmp_requests_inv:
  assumes "clm_inv clm"
  shows "\<exists>clm'. obind (clm_slmp_perform_node_search os now clm) (\<lambda>(_, clm). Returns clm) = Returns clm' \<and> clm_inv clm'"
    "\<exists>clm'. obind (clm_slmp_perform_set_ipaddr_request os now mac ip netmask clm) (\<lambda>(_, clm). Returns clm) = Returns clm' \<and> clm_inv clm'"
  unfolding perform_search_eq perform_set_ip_eq
  using assms slmp_only_inv [OF search_started_only assms] slmp_only_inv [OF set_ip_started_only assms] by (auto split: if_splits)

lemma clm_do_ok:
  assumes inv: "clm_inv clm" and ok: "operation_ok oper clm"
  shows "\<exists>clm'. clm_do oper clm = Returns clm' \<and> clm_inv clm'"
proof (cases oper)
  case (Master_Periodic now clock arb ds)
  then show ?thesis using master_periodic_ok [OF inv, of arb ds now clock] ok by (auto split: option.splits)
next
  case (Master_Set_Ry gi di i v)
  then show ?thesis using ry.write_ok [OF inv, of "(gi, di, i)" v] ok by (simp add: set_ry.simps) blast
next
  case (Master_Set_Rww gi di i v)
  then show ?thesis using rww.write_ok [OF inv, of "(gi, di, i)" v] ok by (simp add: set_rww.simps) blast
next
  case (Master_Slave_Status gi di b)
  then show ?thesis using upd_dev_inv(1) [OF inv, of gi di "\<lambda>d. d\<lparr>dd_enabled := b\<rparr>"] inv
    by (simp add: clm_iefb_set_slave_communication_status_def)
next
  case (Master_Force_Transmission gi di b)
  then show ?thesis using upd_dev_inv(1) [OF inv, of gi di "\<lambda>d. d\<lparr>dd_force_transmission_bit := b\<rparr>"] inv
    by (simp add: clm_iefb_force_cyclic_transmission_bit_def)
next
  case (Master_Slmp_Periodic now ds)
  then show ?thesis using slmp_only_inv [OF slmp_periodic_only inv] by simp
next
  case (Master_Node_Search os now)
  then show ?thesis using slmp_requests_inv(1) [OF inv] by simp
next
  case (Master_Set_Ip os now mac ip netmask)
  then show ?thesis using slmp_requests_inv(2) [OF inv] by simp
qed (use inv statistics_clear_all_ok application_status_ok slmp_init_inv in simp_all)

lemma master_reachable_inv: "clm_reachable clm \<Longrightarrow> clm_inv clm"
proof (induction rule: clm_reachable.induct)
  case (start mg ms clm now clock clm')
  have "config_valid mg ms (clm_config clm)" "distinct (slave_ids_of (clm_config clm))"
    using start validate_config_iff duplicates_iff by blast+
  from master_init_ok [OF start(1) this(1) start(2) this(2), of True True now clock] start(5) show ?case by auto
next
  case (step clm oper clm')
  then show ?case using clm_do_ok by fastforce
qed

section \<open>From arbitration to link scans\<close>

lemma monitor_keeps_scan:
  assumes inv: "clm_inv clm" and gi: "gi < number_of_groups clm" and st: "state_of_group clm gi = CLM_GROUP_STATE_MASTER_LINK_SCAN"
  shows "\<exists>clm'. monitor_group_timers now clock gi clm = Returns clm' \<and> clm_inv clm' \<and> clm_config clm' = clm_config clm \<and>
    state_of_group clm' gi = CLM_GROUP_STATE_MASTER_LINK_SCAN \<and> (\<forall>gj. gj \<noteq> gi \<longrightarrow> clm_groups clm' ! gj = clm_groups clm ! gj)"
proof -
  define g where "g = (clm_groups clm ! gi)\<lparr>gd_response_wait_timer := cl_timer_stop (gd_response_wait_timer (clm_groups clm ! gi))\<rparr>"
  have mo: "master_ok clm" "gi < length (clm_groups clm)" "group_inv (clm_config clm) gi (clm_groups clm ! gi)"
    using inv gi by (simp_all add: clm_inv_def groups_inv_def master_ok_def)
  have mc: "master_ok (set_group gi g clm)" using mo(1) only_group_ok [OF only_group_set] by blast
  have "group_ready (clm_config clm) gi g" using group_inv_ready [OF mo(3)] by (simp add: g_def group_ready_fields)
  then have at: "at_group g gi (set_group gi g clm)" using mc gi mo(2) by (simp add: at_group_def)
  have st': "gd_group_state g = CLM_GROUP_STATE_MASTER_LINK_SCAN" using st by (simp add: g_def)
  obtain c where c: "(let g = clm_groups clm ! gi in
      if cl_timer_is_expired (gd_response_wait_timer g) now
      then clm_iefb_group_fsm_event now clock gi CLM_GROUP_EVENT_LINKSCAN_TIMEOUT
        (set_group gi (g\<lparr>gd_response_wait_timer := cl_timer_stop (gd_response_wait_timer g)\<rparr>) clm)
      else Returns clm) = Returns c" "only_group gi clm c" "state_of_group c gi = CLM_GROUP_STATE_MASTER_LINK_SCAN"
  proof (cases "cl_timer_is_expired (gd_response_wait_timer (clm_groups clm ! gi)) now")
    case True
    from timeout_restarts [OF at st' refl, of now clock] obtain c where
      "clm_iefb_group_fsm_event now clock gi CLM_GROUP_EVENT_LINKSCAN_TIMEOUT (set_group gi g clm) = Returns c"
      "only_group gi (set_group gi g clm) c" "state_of_group c gi = CLM_GROUP_STATE_MASTER_LINK_SCAN"
      by (auto simp: scan_started_def Let_def)
    then show ?thesis using that [of c] True only_group_trans [OF only_group_set] by (simp add: g_def)
  qed (use st that [of clm] in simp)
  let ?d = "set_group gi ((clm_groups c ! gi)\<lparr>gd_constant_linkscan_timer := cl_timer_stop (gd_constant_linkscan_timer (clm_groups c ! gi))\<rparr>) c"
  have gl: "gi < length (clm_groups c)" "group_tables c"
    using mo(2) c(2) only_group_ok [OF c(2) mo(1)] by (simp_all add: only_group_def master_ok_def)
  have idle: "clm_iefb_group_fsm_event now clock gi CLM_GROUP_EVENT_LINKSCAN_START ?d = Returns ?d"
    by (rule group_event_idle) (use gl c(3) in \<open>simp_all add: group_tables_def group_find_live\<close>)
  obtain r where r: "monitor_group_timers now clock gi clm = Returns r" "r = c \<or> r = ?d"
    unfolding monitor_group_timers_def c(1) using idle
    by (cases "cl_timer_is_expired (gd_constant_linkscan_timer (clm_groups c ! gi)) now") (simp_all add: Let_def)
  have "only_group gi clm r" "state_of_group r gi = CLM_GROUP_STATE_MASTER_LINK_SCAN"
    using r(2) c(2,3) gl(1) only_group_trans [OF c(2) only_group_set] by auto
  then show ?thesis using monitor_group_ok [OF inv gi, of now clock] r(1) by (auto simp: only_group_def)
qed

lemma monitor_all_keeps_scan:
  assumes inv: "clm_inv clm" and st: "\<forall>gi < number_of_groups clm. state_of_group clm gi = CLM_GROUP_STATE_MASTER_LINK_SCAN"
  shows "\<exists>clm'. clm_iefb_monitor_all_group_timers now clock clm = Returns clm' \<and> clm_inv clm' \<and> clm_config clm' = clm_config clm \<and>
    (\<forall>gi < number_of_groups clm. state_of_group clm' gi = CLM_GROUP_STATE_MASTER_LINK_SCAN)"
  unfolding clm_iefb_monitor_all_group_timers_def
proof (rule for_each_inv)
  fix i c
  assume i: "i \<in> set [0..<number_of_groups clm]" and
    c: "clm_inv c \<and> clm_config c = clm_config clm \<and> (\<forall>gi < number_of_groups clm. state_of_group c gi = CLM_GROUP_STATE_MASTER_LINK_SCAN)"
  then have "i < number_of_groups c" "state_of_group c i = CLM_GROUP_STATE_MASTER_LINK_SCAN" by simp_all
  from monitor_keeps_scan [OF conjunct1 [OF c] this, of now clock] obtain c' where
    c': "monitor_group_timers now clock i c = Returns c'" "clm_inv c'" "clm_config c' = clm_config c"
      "state_of_group c' i = CLM_GROUP_STATE_MASTER_LINK_SCAN" "\<forall>gj. gj \<noteq> i \<longrightarrow> clm_groups c' ! gj = clm_groups c ! gj" by blast
  then have "state_of_group c' gi = CLM_GROUP_STATE_MASTER_LINK_SCAN" if "gi < number_of_groups clm" for gi
    using c that by (cases "gi = i") simp_all
  then show "\<exists>c'. monitor_group_timers now clock i c = Returns c' \<and> clm_inv c' \<and> clm_config c' = clm_config clm \<and>
    (\<forall>gi < number_of_groups clm. state_of_group c' gi = CLM_GROUP_STATE_MASTER_LINK_SCAN)" using c c' by auto
qed (use assms in simp)

text \<open>
  The end of arbitration comes first in a periodic call: what the call receives is handled when all groups
  are in a scan already, and afterwards no group is in arbitration, whatever was received.
\<close>

lemma arbitration_ends:
  assumes inv: "clm_inv clm" and gi: "gi < number_of_groups clm" "state_of_group clm gi = CLM_GROUP_STATE_MASTER_ARBITRATION"
    and e: "cl_timer_is_expired (clm_arbitration_timer clm) now"
  shows "\<exists>clm'. clm_iefb_periodic now clock None [] clm = Returns clm' \<and> clm_inv clm' \<and> clm_config clm' = clm_config clm \<and>
    timer_stopped clm' \<and> (\<forall>gi < number_of_groups clm. state_of_group clm' gi = CLM_GROUP_STATE_MASTER_LINK_SCAN) \<and>
    (\<forall>arb ds. clm_iefb_periodic now clock arb ds clm =
      obind (case arb of
          Some (bs, ip, port) \<Rightarrow>
            if mc_use_separate_arbitration_socket (clm_config clm) \<and> bs \<noteq> []
            then obind (clm_iefb_handle_input_frame now clock bs ip port clm') (\<lambda>(_, c). Returns c) else Returns clm'
        | None \<Rightarrow> Returns clm') (receive_all now clock ds))"
proof -
  define c where "c = clm\<lparr>clm_errorlimiter := cl_limiter_periodic now (clm_errorlimiter clm)\<rparr>"
  have c: "clm_inv c" "clm_config c = clm_config clm" "clm_arbitration_timer c = clm_arbitration_timer clm" "clm_groups c = clm_groups clm"
    using inv by (simp_all add: c_def)
  have all: "\<forall>gi < number_of_groups clm. state_of_group clm gi = CLM_GROUP_STATE_MASTER_ARBITRATION"
    using inv gi unfolding clm_inv_def arbitration_inv_def by blast
  from arbitration_over [OF c(1) refl, of now clock] obtain c1 where
    c1: "clm_iefb_group_fsm_event_all now clock CLM_GROUP_EVENT_ARBITRATION_DONE
        (c\<lparr>clm_arbitration_timer := cl_timer_stop (clm_arbitration_timer c)\<rparr>) = Returns c1" "clm_inv c1" "clm_config c1 = clm_config clm"
      "\<forall>gi < number_of_groups clm. state_of_group c1 gi = CLM_GROUP_STATE_MASTER_LINK_SCAN"
    using all unfolding c by (auto simp: group_target_def)
  have "timer_stopped (c\<lparr>clm_arbitration_timer := cl_timer_stop (clm_arbitration_timer c)\<rparr>)"
    using c(1) by (simp add: timer_stopped_def clm_inv_def groups_inv_def master_ok_def group_tables_def cl_timer_stop_def)
  then have s1: "timer_stopped c1" using group_event_all_timer [OF c1(1)] by simp
  from monitor_all_keeps_scan [OF c1(2), of now clock] c1(3,4) obtain c2 where
    c2: "clm_iefb_monitor_all_group_timers now clock c1 = Returns c2" "clm_inv c2" "clm_config c2 = clm_config clm"
      "\<forall>gi < number_of_groups clm. state_of_group c2 gi = CLM_GROUP_STATE_MASTER_LINK_SCAN" by auto
  have "clm_iefb_periodic now clock arb ds clm =
      obind (case arb of
          Some (bs, ip, port) \<Rightarrow>
            if mc_use_separate_arbitration_socket (clm_config clm) \<and> bs \<noteq> []
            then obind (clm_iefb_handle_input_frame now clock bs ip port c2) (\<lambda>(_, c). Returns c) else Returns c2
        | None \<Rightarrow> Returns c2) (receive_all now clock ds)" for arb ds
    unfolding clm_iefb_periodic_def Let_def c_def [symmetric] using e c1(1) c2(1,3) c(3) by (simp split: option.split)
  moreover from this [of None "[]"] have "clm_iefb_periodic now clock None [] clm = Returns c2" by simp
  ultimately show ?thesis using c2(2-4) monitor_timer [OF c2(1) s1] by blast
qed

lemma arbitration_stays_over:
  assumes inv: "clm_inv clm" and gi: "gi < number_of_groups clm" "state_of_group clm gi = CLM_GROUP_STATE_MASTER_ARBITRATION"
    and e: "cl_timer_is_expired (clm_arbitration_timer clm) now" and r: "clm_iefb_periodic now clock arb ds clm = Returns clm'" "clm_inv clm'"
  shows "\<forall>gj < number_of_groups clm'. state_of_group clm' gj \<noteq> CLM_GROUP_STATE_MASTER_ARBITRATION"
proof -
  from arbitration_ends [OF inv gi e, of clock] obtain c where c: "timer_stopped c"
    "clm_iefb_periodic now clock arb ds clm =
      obind (case arb of
          Some (bs, ip, port) \<Rightarrow>
            if mc_use_separate_arbitration_socket (clm_config clm) \<and> bs \<noteq> []
            then obind (clm_iefb_handle_input_frame now clock bs ip port c) (\<lambda>(_, c). Returns c) else Returns c
        | None \<Rightarrow> Returns c) (receive_all now clock ds)" by blast
  have "timer_stopped clm'" using r(1) c
    by (auto simp: obind_Returns_iff dest!: receive_all_timer elim!: input_frame_timer split: option.splits if_splits)
  then show ?thesis using stopped_no_arbitration [OF r(2)] by blast
qed

lemma milliseconds_bound: "unat (ucast (x :: u16) * of_nat CL_TIMER_MICROSECONDS_PER_MILLISECOND :: u32) = 1000 * unat x"
proof -
  have x: "unat x < 65536" using unat_less_pow(1) [of x] by simp
  then have "unat (ucast x :: u32) = unat x" by (simp add: unsigned_ucast_eq take_bit_nat_eq_self)
  then show ?thesis using x by (simp add: unat_word_ariths CL_TIMER_MICROSECONDS_PER_MILLISECOND_def)
qed

lemma running_timer_expires:
  assumes "timer_runs (ucast (x :: u16) * of_nat CL_TIMER_MICROSECONDS_PER_MILLISECOND) t"
  shows "cl_timer_is_expired t (tm_timestamp t + tm_period t)"
proof -
  have "unat (tm_period t) < 2 ^ 31"
    using assms milliseconds_bound [of x] unat_less_pow(1) [of x] by (simp add: timer_runs_def)
  then have "\<not> drop_bit 1 (- 1) < tm_period t" by (simp add: word_less_nat_alt unat_drop_bit_eq unsigned_minus_1_eq_mask drop_bit_mask_eq mask_eq_exp_minus_1)
  then show ?thesis using assms by (simp add: cl_timer_is_expired_def timer_runs_def)
qed

end
