(* ===== verification/CLM_Inputs.thy ===== *)
theory CLM_Inputs
  imports CLM_Behaviour
begin

text \<open>
  The way of the input data in the master: a response that the master accepts is stored in the memory
  areas of its device, where the application reads RX bits and RWr registers. Outputs and the inputs
  of other devices stay as they are.
\<close>

section \<open>Reading and storing inputs\<close>

text \<open>The inputs of a device are read from its areas of the memory of the group.\<close>

abbreviation rx_memory :: "clm \<Rightarrow> nat \<Rightarrow> bytes" where
  "rx_memory clm gi \<equiv> mem_rx (gd_memory_area (clm_groups clm ! gi))"

abbreviation rwr_memory :: "clm \<Rightarrow> nat \<Rightarrow> bytes" where
  "rwr_memory clm gi \<equiv> mem_rwr (gd_memory_area (clm_groups clm ! gi))"

lemma rx_access:
  "clm_iefb_get_rx_bit clm gi di i = (if ry_valid (gi, di, i) clm
     then Returns (bit (rx_memory clm gi ! ry_byte clm gi di i) (unat i mod 8)) else Assert_Failed)"
proof -
  obtain area byte m where a: "cl_iefb_bit_calculate_areanumber i = (area, byte, m)" by (metis prod_cases3)
  note p = bit_position [OF a] bit_area_number(1) [OF a]
  have pos: "(before_device clm gi di + unat area) * sizeof_bit_area + unat byte = ry_byte clm gi di i"
    using p(1) by (simp add: ry_byte_def sizeof_bit_area_def algebra_simps)
  show ?thesis
    unfolding clm_iefb_get_rx_bit_def a Let_def prod.case bit_single [symmetric]
    by (subst with_device_area) (simp_all add: pos [unfolded p(3)] p(2,3) ry_valid_def del: push_bit_of_1)
qed

lemma rwr_access:
  "clm_iefb_get_rwr_value clm gi di i = (if rww_valid (gi, di, i) clm
     then Returns (le16_at (rwr_memory clm gi) (rww_byte clm gi di i)) else Assert_Failed)"
proof -
  obtain area reg where a: "cl_iefb_register_calculate_areanumber i = (area, reg)" by (metis prod.exhaust)
  note p = register_position [OF a] register_area_number(1) [OF a]
  have pos: "(before_device clm gi di + unat area) * sizeof_word_area + 2 * unat reg = rww_byte clm gi di i"
    using p(1) by (simp add: rww_byte_def sizeof_word_area_def algebra_simps)
  show ?thesis
    unfolding clm_iefb_get_rwr_value_def a Let_def prod.case
    by (subst with_device_area) (simp_all add: pos [unfolded p(2)] p(2) rww_valid_def)
qed

text \<open>A response that passes every check of the master for device \<open>di\<close> of group \<open>gi\<close>.\<close>

definition accepts_response :: "clm \<Rightarrow> nat \<Rightarrow> nat \<Rightarrow> clm_cciefb_cyclic_response_info \<Rightarrow> bool" where
  "accepts_response clm gi di r \<longleftrightarrow>
     (let g = clm_groups clm ! gi; d = gd_slave_devices g ! di;
          sqn = sdh_frame_sequence_no (sf_cyclic_data_header (rp_full_headers r)) in
      dd_enabled d \<and>
      (fv_has_been_received (dd_latest_frame d) \<and> sqn = fv_frame_sequence_no (dd_latest_frame d) \<longrightarrow>
         dd_device_state d = CLM_DEVICE_STATE_LISTEN) \<and>
      (dd_transmission_bit d \<longrightarrow> sqn = gd_frame_sequence_no g) \<and>
      rp_number_of_occupied r = device_occ (device_setting_at clm gi) di)"

definition response_rx :: "clm_cciefb_cyclic_response_info \<Rightarrow> nat \<Rightarrow> bytes" where
  "response_rx r n = slice (rp_buffer r) (rp_first_rx r) (8 * n)"

definition response_rwr :: "clm_cciefb_cyclic_response_info \<Rightarrow> nat \<Rightarrow> bytes" where
  "response_rwr r n = slice (rp_buffer r) (rp_first_rwr r) (64 * n)"

lemma memory_upd_dev [simp]: "gd_memory_area (clm_groups (upd_dev gi di f clm) ! gj) = gd_memory_area (clm_groups clm ! gj)"
  by (cases "gi < length (clm_groups clm)") (auto simp: upd_dev_def upd_device_def set_group_def nth_list_update list_update_beyond not_less)

lemma memory_reports [simp]:
  "gd_memory_area (clm_groups (response_errors now gi di ec ip clm) ! gj) = gd_memory_area (clm_groups clm ! gj)"
  "gd_memory_area (clm_groups (response_notify gi di ec err info clm) ! gj) = gd_memory_area (clm_groups clm ! gj)"
  by (simp_all add: response_errors_def response_notify_def Let_def count_alarm_def
      clm_iefb_trigger_alarmframe_callback_def clm_iefb_trigger_slaveinfo_callback_def)

text \<open>Nothing of this changes the state of a device, or enables it.\<close>

definition device_mode :: "clm \<Rightarrow> nat \<Rightarrow> nat \<Rightarrow> clm_device_state \<times> bool" where
  "device_mode clm gi di = (let d = gd_slave_devices (clm_groups clm ! gi) ! di in (dd_device_state d, dd_enabled d))"

lemma mode_upd_dev [simp]:
  assumes "\<And>d. dd_device_state (f d) = dd_device_state d" "\<And>d. dd_enabled (f d) = dd_enabled d"
  shows "device_mode (upd_dev gi di f clm) gj dj = device_mode clm gj dj"
  using assms by (cases "gi < length (clm_groups clm)"; cases "di < length (gd_slave_devices (clm_groups clm ! gi))"; cases "gi = gj"; cases "di = dj")
    (simp_all add: device_mode_def Let_def upd_dev_def upd_device_def set_group_def list_update_beyond not_less)

lemma mode_cong: "clm_groups clm' = clm_groups clm \<Longrightarrow> device_mode clm' gi di = device_mode clm gi di"
  by (simp add: device_mode_def)

lemma mode_callbacks [simp]:
  "device_mode (clm_iefb_trigger_error_callback now e ip x clm) gi di = device_mode clm gi di"
  "device_mode (clm_iefb_trigger_alarmframe_callback gj dj ec err info clm) gi di = device_mode clm gi di"
  "device_mode (clm_iefb_trigger_slaveinfo_callback gj dj ec err info clm) gi di = device_mode clm gi di"
  by (rule mode_cong, simp add: clm_iefb_trigger_alarmframe_callback_def clm_iefb_trigger_slaveinfo_callback_def)+

lemma mode_reports [simp]:
  "device_mode (response_errors now gi di ec ip clm) gj dj = device_mode clm gj dj"
  "device_mode (response_notify gi di ec err info clm) gj dj = device_mode clm gj dj"
  by (simp_all add: response_errors_def response_notify_def Let_def count_alarm_def upd_statistics_def)

text \<open>An accepted response is stored, and then the state machines are informed.\<close>

lemma response_accepted:
  assumes inv: "clm_inv clm" and gi: "gi < number_of_groups clm" and gs: "gs = device_setting_at clm gi"
    and di: "di < gs_num_slave_devices gs" and acc: "accepts_response clm gi di r"
  defines "valid \<equiv> dd_transmission_bit (gd_slave_devices (clm_groups clm ! gi) ! di)"
    and "ec \<equiv> csh_end_code (sf_cyclic_header (rp_full_headers r))"
  shows "\<exists>c. calm_master gi clm c \<and> clm_inv c \<and> clm_config c = clm_config clm \<and>
    handle_device_response now clock gi di r clm = obind (response_events now clock gi di ec c) (\<lambda>c'. Returns (True, c')) \<and>
    (\<forall>gj. gd_memory_area (clm_groups c ! gj) = (if gj = gi
      then clm_iefb_store_incoming_cyclic_data r (station_no gs di) (device_occ gs di) valid (gd_memory_area (clm_groups clm ! gi))
      else gd_memory_area (clm_groups clm ! gj))) \<and>
    device_mode c gi di = device_mode clm gi di"
proof -
  let ?ec = "csh_end_code (sf_cyclic_header (rp_full_headers r))"
  define c where "c = upd_dev gi di (upd_statistics (\<lambda>st. st\<lparr>st_number_of_incoming_frames := st_number_of_incoming_frames st + 1\<rparr>)) clm"
  have len: "gi < length (clm_groups clm)" using device_areas(6) [OF inv gi gs di] .
  have c: "calm_master gi clm c" unfolding c_def by (rule calm_master_upd_dev [OF len]) simp
  have lc: "gi < length (clm_groups c)" using len calm_master_length [OF c] by simp
  define c1 where "c1 = response_errors now gi di ?ec (rp_remote_ip r) c"
  have c1: "calm_master gi c c1" unfolding c1_def by (rule response_errors_calm [OF lc])
  have lc1: "gi < length (clm_groups c1)" using lc calm_master_length [OF c1] by simp
  define c2 where "c2 = response_notify gi di ?ec (sn_slave_err_code (sf_slave_station_notification (rp_full_headers r)))
    (sn_local_management_info (sf_slave_station_notification (rp_full_headers r))) c1"
  have c2: "calm_master gi c1 c2" unfolding c2_def by (rule response_notify_calm [OF lc1])
  have c02: "calm_master gi clm c2" using calm_master_trans [OF c calm_master_trans [OF c1 c2]] .
  note i2 = calm_master_inv [OF inv c02]
  have d: "dd_slave_station_no (gd_slave_devices (clm_groups c2 ! gi) ! di) = station_no gs di"
    "dd_transmission_bit (gd_slave_devices (clm_groups c2 ! gi) ! di) = valid"
    using c02 inv gi di gs group_inv_ready
    by (auto simp: calm_master_def calm_group_def calm_def valid_def clm_inv_def groups_inv_def group_ready_def device_inv_def
        device_placed_def Let_def device_setting_at_def)
  define c3 where "c3 = response_store gi di r c2"
  have gi2: "gi < number_of_groups c2" "gs = hi_groups (mc_hier (clm_config c2)) ! gi" using gi gs i2(2) by (simp_all add: device_setting_at_def)
  have c3: "calm_master gi c2 c3" unfolding c3_def by (rule response_store_calm [OF i2(1) gi2 di])
  note i3 = calm_master_inv [OF i2(1) c3]
  have m2: "gd_memory_area (clm_groups c2 ! gj) = gd_memory_area (clm_groups clm ! gj)" for gj by (simp add: c2_def c1_def c_def)
  have l2: "gi < length (clm_groups c2)" using len calm_master_length [OF c02] by simp
  have m3: "gd_memory_area (clm_groups c3 ! gj) = (if gj = gi then clm_iefb_store_incoming_cyclic_data r (station_no gs di) (device_occ gs di) valid
      (gd_memory_area (clm_groups clm ! gi)) else gd_memory_area (clm_groups clm ! gj))" for gj
    using l2 d gi2(2) m2 by (simp add: c3_def response_store_def Let_def device_occ_def upd_device_def)
  have dl: "di < length (gd_slave_devices (clm_groups clm ! gi))"
    using inv gi di gs group_inv_ready by (auto simp: clm_inv_def groups_inv_def group_ready_def device_inv_def device_placed_def Let_def device_setting_at_def)
  have dl2: "di < length (gd_slave_devices (clm_groups c2 ! gi))" using dl c02 by (auto simp: calm_master_def calm_group_def)
  have "device_mode c3 gi di = device_mode c2 gi di"
    using l2 dl2 by (simp add: device_mode_def c3_def response_store_def Let_def upd_statistics_def)
  then have st: "device_mode c3 gi di = device_mode clm gi di" by (simp add: c2_def c1_def c_def upd_statistics_def)
  have cfg: "hi_groups (mc_hier (clm_config c)) ! gi = device_setting_at clm gi"
    using calm_master_inv(2) [OF inv c] by (simp add: device_setting_at_def)
  have dc: "dd_enabled (gd_slave_devices (clm_groups c ! gi) ! di) = dd_enabled (gd_slave_devices (clm_groups clm ! gi) ! di)"
    "dd_latest_frame (gd_slave_devices (clm_groups c ! gi) ! di) = dd_latest_frame (gd_slave_devices (clm_groups clm ! gi) ! di)"
    "dd_device_state (gd_slave_devices (clm_groups c ! gi) ! di) = dd_device_state (gd_slave_devices (clm_groups clm ! gi) ! di)"
    "dd_transmission_bit (gd_slave_devices (clm_groups c ! gi) ! di) = dd_transmission_bit (gd_slave_devices (clm_groups clm ! gi) ! di)"
    "gd_frame_sequence_no (clm_groups c ! gi) = gd_frame_sequence_no (clm_groups clm ! gi)"
    using len dl by (simp_all add: c_def upd_dev_def upd_device_def upd_statistics_def)
  have "handle_device_response now clock gi di r clm = obind (response_events now clock gi di ec c3) (\<lambda>c'. Returns (True, c'))"
    using acc dc unfolding handle_device_response_def Let_def c_def [symmetric] c1_def [symmetric] c2_def [symmetric] c3_def [symmetric]
    by (auto simp: accepts_response_def Let_def device_occ_def gs cfg ec_def)
  then show ?thesis using calm_master_trans [OF c02 c3] i2(2) i3 m3 st by auto
qed

lemma response_stored:
  assumes inv: "clm_inv clm" and gi: "gi < number_of_groups clm" and gs: "gs = device_setting_at clm gi"
    and di: "di < gs_num_slave_devices gs" and acc: "accepts_response clm gi di r"
  defines "valid \<equiv> dd_transmission_bit (gd_slave_devices (clm_groups clm ! gi) ! di)"
  shows "\<exists>clm'. handle_device_response now clock gi di r clm = Returns (True, clm') \<and> clm_inv clm' \<and> clm_config clm' = clm_config clm \<and>
    (\<forall>gj. gj \<noteq> gi \<longrightarrow> gd_memory_area (clm_groups clm' ! gj) = gd_memory_area (clm_groups clm ! gj)) \<and>
    gd_memory_area (clm_groups clm' ! gi) = clm_iefb_store_incoming_cyclic_data r (station_no gs di) (device_occ gs di) valid
      (gd_memory_area (clm_groups clm ! gi))"
proof -
  from response_accepted [OF inv gi gs di acc, of now clock] obtain c where
    c: "clm_inv c" "clm_config c = clm_config clm"
      "handle_device_response now clock gi di r clm =
        obind (response_events now clock gi di (csh_end_code (sf_cyclic_header (rp_full_headers r))) c) (\<lambda>c'. Returns (True, c'))"
      "\<forall>gj. gd_memory_area (clm_groups c ! gj) = (if gj = gi
        then clm_iefb_store_incoming_cyclic_data r (station_no gs di) (device_occ gs di) valid (gd_memory_area (clm_groups clm ! gi))
        else gd_memory_area (clm_groups clm ! gj))" unfolding valid_def by blast
  have "gi < number_of_groups c" "gs = hi_groups (mc_hier (clm_config c)) ! gi" using gi gs c(2) by (simp_all add: device_setting_at_def)
  from response_events_ok [OF c(1) this di, of now clock "csh_end_code (sf_cyclic_header (rp_full_headers r))"] obtain c' where
    c': "response_events now clock gi di (csh_end_code (sf_cyclic_header (rp_full_headers r))) c = Returns c'" "clm_inv c'"
      "clm_config c' = clm_config c" "\<forall>gj. gd_memory_area (clm_groups c' ! gj) = gd_memory_area (clm_groups c ! gj)" by blast
  then show ?thesis using c by auto
qed

lemma stored_memory:
  assumes "rx = (if valid then response_rx r n else replicate (8 * n) 0)" "rwr = (if valid then response_rwr r n else replicate (64 * n) 0)"
  shows "clm_iefb_store_incoming_cyclic_data r (k + 1) n valid m =
    m\<lparr>mem_rwr := put_bytes (mem_rwr m) (64 * k) rwr, mem_rx := put_bytes (mem_rx m) (8 * k) rx\<rparr>"
  by (simp add: assms clm_iefb_store_incoming_cyclic_data_def Let_def sizeof_bit_area_def sizeof_word_area_def response_rx_def
      response_rwr_def slice_def mult.commute)

lemma nth_put_inside: "j < length bs \<Longrightarrow> i + length bs \<le> length buf \<Longrightarrow> put_bytes buf i bs ! (i + j) = bs ! j"
  by (simp add: nth_put_bytes)

lemma nth_put_outside: "j < i \<or> i + length bs \<le> j \<Longrightarrow> i + length bs \<le> length buf \<Longrightarrow> j < length buf \<Longrightarrow> put_bytes buf i bs ! j = buf ! j"
  by (auto simp: nth_put_bytes)

text \<open>The areas of a device do not depend on anything but the configuration.\<close>

lemma same_positions:
  assumes "clm_inv clm" "clm_inv clm'" "clm_config clm' = clm_config clm"
  shows "ry_valid x clm' = ry_valid x clm" "rww_valid x clm' = rww_valid x clm"
    "ry_valid (gi, di, i) clm \<Longrightarrow> ry_byte clm' gi di i = ry_byte clm gi di i"
    "rww_valid (gi, di, i) clm \<Longrightarrow> rww_byte clm' gi di i = rww_byte clm gi di i"
proof -
  have s: "device_setting_at clm' gi = device_setting_at clm gi" for gi using assms(3) by (simp add: device_setting_at_def)
  show "ry_valid x clm' = ry_valid x clm" "rww_valid x clm' = rww_valid x clm"
    by (simp_all add: ry_valid_def rww_valid_def s assms(3) split: prod.split)
  have b: "before_device clm' gi di = before_device clm gi di"
    if "gi < number_of_groups clm" "di < gs_num_slave_devices (device_setting_at clm gi)" for gi di
    using device_areas(1) [OF assms(1) that(1) refl that(2)] device_areas(1) [OF assms(2), of gi _ di] that assms(3) s by simp
  show "ry_valid (gi, di, i) clm \<Longrightarrow> ry_byte clm' gi di i = ry_byte clm gi di i"
    "rww_valid (gi, di, i) clm \<Longrightarrow> rww_byte clm' gi di i = rww_byte clm gi di i"
    using b by (simp_all add: ry_byte_def rww_byte_def ry_valid_def rww_valid_def)
qed

text \<open>Bytes of two devices of a group are apart.\<close>

lemma bytes_apart:
  assumes inv: "clm_inv clm" and gi: "gi < number_of_groups clm" and gs: "gs = device_setting_at clm gi"
    and di: "di < gs_num_slave_devices gs" and ne: "dj \<noteq> di"
  shows "ry_valid (gi, dj, i) clm \<Longrightarrow> ry_byte clm gi dj i < 8 * before_device clm gi di \<or>
      8 * before_device clm gi di + 8 * device_occ gs di \<le> ry_byte clm gi dj i"
    "rww_valid (gi, dj, i) clm \<Longrightarrow> rww_byte clm gi dj i + 2 \<le> 64 * before_device clm gi di \<or>
      64 * before_device clm gi di + 64 * device_occ gs di \<le> rww_byte clm gi dj i"
proof -
  assume v: "ry_valid (gi, dj, i) clm"
  then have dj: "dj < gs_num_slave_devices gs" by (simp add: ry_valid_def gs)
  show "ry_byte clm gi dj i < 8 * before_device clm gi di \<or> 8 * before_device clm gi di + 8 * device_occ gs di \<le> ry_byte clm gi dj i"
    using device_areas_apart [OF inv gi gs di dj ne [symmetric]] ry_bounds(1) [OF inv v] gs by (auto simp: ry_byte_def)
next
  assume v: "rww_valid (gi, dj, i) clm"
  then have dj: "dj < gs_num_slave_devices gs" by (simp add: rww_valid_def gs)
  show "rww_byte clm gi dj i + 2 \<le> 64 * before_device clm gi di \<or> 64 * before_device clm gi di + 64 * device_occ gs di \<le> rww_byte clm gi dj i"
    using device_areas_apart [OF inv gi gs di dj ne [symmetric]] rww_bounds(1) [OF inv v] gs by (auto simp: rww_byte_def)
qed

lemma bytes_in_group:
  assumes inv: "clm_inv clm"
  shows "ry_valid (gi, di, i) clm \<Longrightarrow> ry_byte clm gi di i < 8 * stations_of (device_setting_at clm gi)"
    "rww_valid (gi, di, i) clm \<Longrightarrow> rww_byte clm gi di i + 2 \<le> 64 * stations_of (device_setting_at clm gi)"
proof -
  have a: "before_device clm gi di + device_occ (device_setting_at clm gi) di \<le> stations_of (device_setting_at clm gi)"
    if "gi < number_of_groups clm" "di < gs_num_slave_devices (device_setting_at clm gi)"
    using device_areas(3) [OF inv that(1) refl that(2)] .
  show "ry_valid (gi, di, i) clm \<Longrightarrow> ry_byte clm gi di i < 8 * stations_of (device_setting_at clm gi)"
    using a ry_bounds(1) [OF inv, of gi di i] by (simp add: ry_valid_def)
  show "rww_valid (gi, di, i) clm \<Longrightarrow> rww_byte clm gi di i + 2 \<le> 64 * stations_of (device_setting_at clm gi)"
    using a rww_bounds(1) [OF inv, of gi di i] by (simp add: rww_valid_def)
qed

lemma inputs_after_response:
  assumes inv: "clm_inv clm" and gi: "gi < number_of_groups clm" and gs: "gs = device_setting_at clm gi"
    and di: "di < gs_num_slave_devices gs" and acc: "accepts_response clm gi di r"
    and fits: "rp_first_rx r + 8 * device_occ gs di \<le> length (rp_buffer r)" "rp_first_rwr r + 64 * device_occ gs di \<le> length (rp_buffer r)"
  defines "valid \<equiv> dd_transmission_bit (gd_slave_devices (clm_groups clm ! gi) ! di)" and "n \<equiv> device_occ gs di"
  shows "\<exists>clm'. handle_device_response now clock gi di r clm = Returns (True, clm') \<and> clm_inv clm' \<and> clm_config clm' = clm_config clm \<and>
    (\<forall>i. unat i < 64 * n \<longrightarrow> clm_iefb_get_rx_bit clm' gi di i = Returns (valid \<and> bit (response_rx r n ! (unat i div 8)) (unat i mod 8))) \<and>
    (\<forall>i. unat i < 32 * n \<longrightarrow> clm_iefb_get_rwr_value clm' gi di i = Returns (if valid then le16_at (response_rwr r n) (2 * unat i) else 0)) \<and>
    (\<forall>gj dj i. (gj, dj) \<noteq> (gi, di) \<longrightarrow> clm_iefb_get_rx_bit clm' gj dj i = clm_iefb_get_rx_bit clm gj dj i \<and>
       clm_iefb_get_rwr_value clm' gj dj i = clm_iefb_get_rwr_value clm gj dj i) \<and>
    (\<forall>x. get_ry x clm' = get_ry x clm \<and> get_rww x clm' = get_rww x clm)"
proof -
  from response_stored [OF inv gi gs di acc, of now clock] obtain c where
    c: "handle_device_response now clock gi di r clm = Returns (True, c)" "clm_inv c" "clm_config c = clm_config clm"
      "\<forall>gj. gj \<noteq> gi \<longrightarrow> gd_memory_area (clm_groups c ! gj) = gd_memory_area (clm_groups clm ! gj)"
      "gd_memory_area (clm_groups c ! gi) = clm_iefb_store_incoming_cyclic_data r (station_no gs di) n valid (gd_memory_area (clm_groups clm ! gi))"
    unfolding valid_def n_def by blast
  let ?k = "before_device clm gi di"
  define rx where "rx = (if valid then response_rx r n else replicate (8 * n) 0)"
  define rwr where "rwr = (if valid then response_rwr r n else replicate (64 * n) 0)"
  have len: "length rx = 8 * n" "length rwr = 64 * n"
    using fits by (simp_all add: rx_def rwr_def response_rx_def response_rwr_def slice_def n_def)
  note a = device_areas [OF inv gi gs di, folded n_def]
  note s = same_positions [OF inv c(2,3)]
  have no: "station_no gs di = ?k + 1" using station_no_range(1) [OF a(2) di] a(1) by simp
  have mem: "gd_memory_area (clm_groups c ! gi) = (gd_memory_area (clm_groups clm ! gi))\<lparr>
      mem_rwr := put_bytes (rwr_memory clm gi) (64 * ?k) rwr, mem_rx := put_bytes (rx_memory clm gi) (8 * ?k) rx\<rparr>"
    unfolding c(5) no by (rule stored_memory [OF rx_def rwr_def])
  have "memory_ok gs (gd_memory_area (clm_groups clm ! gi))"
    using inv gi gs group_inv_ready by (auto simp: clm_inv_def groups_inv_def group_ready_def Let_def device_setting_at_def)
  then have b: "8 * stations_of gs \<le> length (rx_memory clm gi)" "64 * stations_of gs \<le> length (rwr_memory clm gi)" by (simp_all add: memory_ok_def)
  then have bl: "8 * ?k + length rx \<le> length (rx_memory clm gi)" "64 * ?k + length rwr \<le> length (rwr_memory clm gi)"
    using a(3) unfolding len by linarith+
  have rx_own: "clm_iefb_get_rx_bit c gi di i = Returns (valid \<and> bit (response_rx r n ! (unat i div 8)) (unat i mod 8))" if i: "unat i < 64 * n" for i
  proof -
    have v: "ry_valid (gi, di, i) clm" using gi di i gs by (simp add: ry_valid_def n_def div_less_iff_less_mult mult.commute)
    have j: "unat i div 8 < length rx" using i by (simp add: len div_less_iff_less_mult)
    have "bit (rx ! (unat i div 8)) (unat i mod 8) = (valid \<and> bit (response_rx r n ! (unat i div 8)) (unat i mod 8))"
      using j len by (simp add: rx_def)
    then show ?thesis using v s mem nth_put_inside [OF j bl(1)] by (simp add: rx_access ry_byte_def)
  qed
  have rwr_own: "clm_iefb_get_rwr_value c gi di i = Returns (if valid then le16_at (response_rwr r n) (2 * unat i) else 0)" if i: "unat i < 32 * n" for i
  proof -
    have v: "rww_valid (gi, di, i) clm" using gi di i gs by (simp add: rww_valid_def n_def div_less_iff_less_mult mult.commute)
    have j: "2 * unat i < length rwr" "2 * unat i + 1 < length rwr" using i by (simp_all add: len)
    have "le16_at (put_bytes (rwr_memory clm gi) (64 * ?k) rwr) (64 * ?k + 2 * unat i) = le16_at rwr (2 * unat i)"
      using nth_put_inside [OF j(1) bl(2)] nth_put_inside [OF j(2) bl(2)] by (simp add: le16_at_def add.assoc)
    moreover have "le16_at rwr (2 * unat i) = (if valid then le16_at (response_rwr r n) (2 * unat i) else 0)"
      using j len by (simp add: rwr_def le16_at_def make16_def)
    ultimately show ?thesis using v s mem by (simp add: rwr_access rww_byte_def)
  qed
  have rx_other: "clm_iefb_get_rx_bit c gj dj i = clm_iefb_get_rx_bit clm gj dj i" if "(gj, dj) \<noteq> (gi, di)" for gj dj i
  proof (cases "gj = gi \<and> ry_valid (gj, dj, i) clm")
    case True
    then have v: "ry_valid (gi, dj, i) clm" "gj = gi" "dj \<noteq> di" using that by auto
    have "ry_byte clm gi dj i < length (rx_memory clm gi)" using bytes_in_group(1) [OF inv v(1)] b(1) gs by simp
    then have "put_bytes (rx_memory clm gi) (8 * ?k) rx ! ry_byte clm gi dj i = rx_memory clm gi ! ry_byte clm gi dj i"
      using bytes_apart(1) [OF inv gi gs di v(3,1)] by (intro nth_put_outside [OF _ bl(1)]) (simp_all add: len n_def)
    then show ?thesis using v s mem by (simp add: rx_access)
  next
    case False
    then show ?thesis using s c(4) by (cases "gj = gi") (simp_all add: rx_access)
  qed
  have rwr_other: "clm_iefb_get_rwr_value c gj dj i = clm_iefb_get_rwr_value clm gj dj i" if "(gj, dj) \<noteq> (gi, di)" for gj dj i
  proof (cases "gj = gi \<and> rww_valid (gj, dj, i) clm")
    case True
    then have v: "rww_valid (gi, dj, i) clm" "gj = gi" "dj \<noteq> di" using that by auto
    have "rww_byte clm gi dj i + 2 \<le> length (rwr_memory clm gi)" using bytes_in_group(2) [OF inv v(1)] b(2) gs by simp
    then have "put_bytes (rwr_memory clm gi) (64 * ?k) rwr ! (rww_byte clm gi dj i + j) = rwr_memory clm gi ! (rww_byte clm gi dj i + j)" if "j < 2" for j
      using bytes_apart(2) [OF inv gi gs di v(3,1)] that by (intro nth_put_outside [OF _ bl(2)]) (auto simp: len n_def)
    from this [of 0] this [of 1] show ?thesis using v s mem by (simp add: rwr_access le16_at_def)
  next
    case False
    then show ?thesis using s c(4) by (cases "gj = gi") (simp_all add: rwr_access)
  qed
  have out: "get_ry x c = get_ry x clm \<and> get_rww x c = get_rww x clm" for x
  proof -
    obtain gj dj i where x: "x = (gj, dj, i)" by (cases x)
    have "ry_memory c gj = ry_memory clm gj" "rww_memory c gj = rww_memory clm gj" using c(4) mem by (cases "gj = gi"; simp)+
    then show ?thesis using s by (simp add: x ry_access rww_access)
  qed
  show ?thesis using c(1-3) rx_own rwr_own rx_other rwr_other out by blast
qed

section \<open>A device that has answered\<close>

text \<open>
  When the last device has answered, the next scan starts at once, or when the constant link scan time is
  over. A device that has answered stays connected: the next scan finds it in \<open>CYCLIC_SENT\<close>.
\<close>

definition connected_device :: "clm \<Rightarrow> nat \<Rightarrow> nat \<Rightarrow> bool" where
  "connected_device clm gi di \<longleftrightarrow>
     device_mode clm gi di \<in> {(CLM_DEVICE_STATE_CYCLIC_SENT, True), (CLM_DEVICE_STATE_CYCLIC_SENDING, True)}"

lemma complete_keeps_connected:
  assumes inv: "clm_inv clm" and gi: "gi < number_of_groups clm" and gs: "gs = hi_groups (mc_hier (clm_config clm)) ! gi"
    and di: "di < gs_num_slave_devices gs" and st: "state_of_group clm gi = CLM_GROUP_STATE_MASTER_LINK_SCAN"
    and all: "devices_in (live_states - {CLM_DEVICE_STATE_CYCLIC_SENDING}) gs (clm_groups clm ! gi)"
    and d: "device_mode clm gi di = (CLM_DEVICE_STATE_CYCLIC_SENT, True)"
  shows "\<exists>clm'. clm_iefb_group_fsm_event now clock gi CLM_GROUP_EVENT_LINKSCAN_COMPLETE clm = Returns clm' \<and> connected_device clm' gi di \<and>
    request_parameter_no (clm_groups clm' ! gi) = request_parameter_no (clm_groups clm ! gi)"
proof -
  define g where "g = (clm_groups clm ! gi)\<lparr>gd_response_wait_timer := cl_timer_stop (gd_response_wait_timer (clm_groups clm ! gi))\<rparr>"
  let ?h = "scan_ended gs CLM_DEVICE_EVENT_GROUP_ALL_RESPONDED g"
  have mo: "master_ok clm" "group_ready (clm_config clm) gi (clm_groups clm ! gi)"
    using inv gi group_inv_ready by (simp_all add: clm_inv_def groups_inv_def)
  then have at: "at_group (clm_groups clm ! gi) gi clm" using gi by (simp add: at_group_def)
  have gr: "group_ready (clm_config clm) gi g" using mo(2) by (simp add: g_def group_ready_fields)
  from round_complete [OF at st gs, of now clock, folded g_def] obtain c where
    c: "group_round now clock gi CLM_GROUP_EVENT_LINKSCAN_COMPLETE clm =
        Returns (if gs_use_constant_link_scan_time gs then CLM_GROUP_EVENT_NONE else CLM_GROUP_EVENT_LINKSCAN_START, c)"
      "only_group gi clm c" "clm_groups c ! gi = ?h" by blast
  have same: "clm_config c = clm_config clm" using c(2) by (simp add: only_group_def)
  have dev: "gd_slave_devices ?h ! di = after_event gs CLM_DEVICE_EVENT_GROUP_ALL_RESPONDED (gd_slave_devices (clm_groups clm ! gi) ! di)"
    using map_devices_nth(2) [of "gs_num_slave_devices gs" "g\<lparr>gd_group_state := CLM_GROUP_STATE_MASTER_LINK_SCAN_COMP\<rparr>" di] di
      group_ready_length [OF gr gs] by (simp add: scan_ended_def g_def)
  have hm: "dd_device_state (gd_slave_devices ?h ! di) = CLM_DEVICE_STATE_CYCLIC_SENT" "dd_enabled (gd_slave_devices ?h ! di)"
    unfolding dev using d by (simp_all add: device_mode_def Let_def after_event_def)
  have pn: "request_parameter_no ?h = request_parameter_no (clm_groups clm ! gi)"
    by (simp add: request_parameter_no_def scan_ended_def g_def)
  show ?thesis
  proof (cases "gs_use_constant_link_scan_time gs")
    case True
    then have "clm_iefb_group_fsm_event now clock gi CLM_GROUP_EVENT_LINKSCAN_COMPLETE clm = Returns c"
      using c(1) by (intro group_event_final) simp_all
    then show ?thesis using hm c(3) pn by (simp add: connected_device_def device_mode_def)
  next
    case False
    have "devices_in (live_states - {CLM_DEVICE_STATE_CYCLIC_SENDING}) gs g" using all by (simp add: g_def devices_in_def)
    then have p: "scan_pending (clm_config c) gi ?h" using scan_ended_pending [OF gr gs] same by simp
    then have at': "at_group ?h gi c" using only_group_ok [OF c(2) mo(1)] gi c(3) same by (simp add: at_group_def scan_pending_def Let_def)
    from round_scan_start [OF at' p, of now clock] obtain g' outs where
      r: "group_round now clock gi CLM_GROUP_EVENT_LINKSCAN_START c = Returns (CLM_GROUP_EVENT_NONE,
        (set_group gi g' c)\<lparr>clm_out := clm_out c @ outs @ [Request_Sent (clm_iefb_broadcast_ip c) (request_payload g')]\<rparr>)"
        "scan_started (clm_config c) gi now (clock (length (clm_out c))) (clm_master_local_unit_info c)
          (?h\<lparr>gd_group_state := CLM_GROUP_STATE_MASTER_LINK_SCAN\<rparr>) g'" by blast
    let ?c = "(set_group gi g' c)\<lparr>clm_out := clm_out c @ outs @ [Request_Sent (clm_iefb_broadcast_ip c) (request_payload g')]\<rparr>"
    have ev: "clm_iefb_group_fsm_event now clock gi CLM_GROUP_EVENT_LINKSCAN_COMPLETE clm = Returns ?c"
      using group_event_follow_up [OF c(1) [unfolded if_not_P [OF False]] _ _ r(1)] by simp
    have "scanned gs (?h\<lparr>gd_group_state := CLM_GROUP_STATE_MASTER_LINK_SCAN\<rparr>) g' di"
      using r(2) di gs same by (simp add: scan_started_def Let_def)
    then have "dd_device_state (gd_slave_devices g' ! di) = CLM_DEVICE_STATE_CYCLIC_SENDING" "dd_enabled (gd_slave_devices g' ! di)"
      using hm by (simp_all add: scanned_def Let_def same_placing_def scan_state_def)
    moreover have "clm_groups ?c ! gi = g'" using at_groupD(3) [OF at'] by simp
    moreover have "request_parameter_no g' = request_parameter_no ?h"
      using r(2) by (simp add: scan_started_def Let_def) (simp add: request_parameter_no_def)
    ultimately show ?thesis using ev pn by (simp add: connected_device_def device_mode_def)
  qed
qed

lemma response_connects:
  assumes inv: "clm_inv clm" and gi: "gi < number_of_groups clm" and gs: "gs = device_setting_at clm gi"
    and di: "di < gs_num_slave_devices gs" and acc: "accepts_response clm gi di r"
    and ec: "csh_end_code (sf_cyclic_header (rp_full_headers r)) = CL_SLMP_ENDCODE_SUCCESS"
    and st: "state_of_group clm gi = CLM_GROUP_STATE_MASTER_LINK_SCAN"
    and d: "dd_device_state (gd_slave_devices (clm_groups clm ! gi) ! di) \<in> {CLM_DEVICE_STATE_WAIT_TD, CLM_DEVICE_STATE_CYCLIC_SENDING}"
  shows "\<exists>clm'. handle_device_response now clock gi di r clm = Returns (True, clm') \<and> clm_inv clm' \<and> clm_config clm' = clm_config clm \<and>
    connected_device clm' gi di \<and> request_parameter_no (clm_groups clm' ! gi) = request_parameter_no (clm_groups clm ! gi)"
proof -
  from response_accepted [OF inv gi gs di acc, of now clock] obtain c where
    c: "calm_master gi clm c" "clm_inv c" "clm_config c = clm_config clm" "device_mode c gi di = device_mode clm gi di"
      "handle_device_response now clock gi di r clm = obind (response_events now clock gi di CL_SLMP_ENDCODE_SUCCESS c) (\<lambda>c'. Returns (True, c'))"
    unfolding ec by blast
  let ?g = "clm_groups c ! gi"
  have gc: "gi < number_of_groups c" "gs = hi_groups (mc_hier (clm_config c)) ! gi" using gi gs c(3) by (simp_all add: device_setting_at_def)
  have sc: "state_of_group c gi = CLM_GROUP_STATE_MASTER_LINK_SCAN" "request_parameter_no ?g = request_parameter_no (clm_groups clm ! gi)"
    using c(1) st calm_group_fields(5,8) by (auto simp: calm_master_def request_parameter_no_def)
  have dc: "dd_device_state (gd_slave_devices ?g ! di) \<in> {CLM_DEVICE_STATE_WAIT_TD, CLM_DEVICE_STATE_CYCLIC_SENDING}"
    "dd_enabled (gd_slave_devices ?g ! di)"
    using c(4) d acc by (simp_all add: device_mode_def Let_def accepts_response_def)
  have q: "CLM_DEVICE_EVENT_RECEIVE_OK \<in> quiet_events" by (simp add: quiet_events_def)
  define e where "e = set_group gi (upd_device di (after_event gs CLM_DEVICE_EVENT_RECEIVE_OK) ?g) c"
  note ev = device_event_calm [OF c(2) gc di q, folded e_def]
  note ei = calm_master_inv [OF c(2) ev(2)]
  have len: "gi < length (clm_groups c)" "di < length (gd_slave_devices ?g)"
    using c(2) gc di group_inv_ready
    by (auto simp: clm_inv_def groups_inv_def master_ok_def group_ready_def device_inv_def device_placed_def Let_def)
  have em: "device_mode e gi di = (CLM_DEVICE_STATE_CYCLIC_SENT, True)" "state_of_group e gi = CLM_GROUP_STATE_MASTER_LINK_SCAN"
    using dc sc(1) len by (auto simp: e_def device_mode_def Let_def after_event_def)
  have pe: "request_parameter_no (clm_groups e ! gi) = request_parameter_no ?g" using len by (simp add: e_def request_parameter_no_def)
  have ge: "gi < number_of_groups e" "gs = hi_groups (mc_hier (clm_config e)) ! gi" using gc ei(2) by simp_all
  have "\<exists>c'. response_events now clock gi di CL_SLMP_ENDCODE_SUCCESS c = Returns c' \<and> connected_device c' gi di \<and>
      request_parameter_no (clm_groups c' ! gi) = request_parameter_no ?g"
  proof (cases "clm_iefb_group_have_received_from_all_devices gs (clm_groups e ! gi)")
    case True
    have "group_inv (clm_config e) gi (clm_groups e ! gi)" using ei(1) ge(1) by (simp add: clm_inv_def groups_inv_def)
    from complete_keeps_connected [OF ei(1) ge di em(2) received_from_all [OF this ge(2) True em(2)] em(1)] True ev(1) ge(2) pe
    show ?thesis by (simp add: response_events_def cl_consts)
  next
    case False
    then show ?thesis using ev(1) ge(2) em(1) pe by (simp add: response_events_def connected_device_def cl_consts)
  qed
  then show ?thesis using c(5) sc(2) response_stored [OF inv gi gs di acc, of now clock] by auto
qed

end
