(* ===== verification/CLS_IEFB.thy ===== *)
theory CLS_IEFB
  imports CL_Signals CL_Timer CL_FSM
begin

text \<open>
  The CCIEFB part of the slave stack (\<open>src/slave/cls_iefb.c\<close>): the slave state machine with its
  transition tables, the handling of received request frames, the periodic timers and the access to
  cyclic data.

  The record \<open>cls\<close> is \<open>struct cls\<close>. Frames sent, application callbacks and warnings are recorded in
  order in the field \<open>cls_out\<close>. Callbacks of the application are taken not to call back into the
  stack; a callback pointer is a Boolean that says whether it is implemented. The result of sending a
  frame is discarded by every caller and is not represented.
\<close>

section \<open>State\<close>

datatype cls_slave_state = CLS_SLAVE_STATE_SLAVE_DOWN | CLS_SLAVE_STATE_MASTER_NONE
  | CLS_SLAVE_STATE_MASTER_CONTROL | CLS_SLAVE_STATE_SLAVE_DISABLED
  | CLS_SLAVE_STATE_WAIT_DISABLING_SLAVE | CLS_SLAVE_STATE_LAST

datatype cls_slave_event = CLS_SLAVE_EVENT_NONE | CLS_SLAVE_EVENT_STARTUP
  | CLS_SLAVE_EVENT_CYCLIC_NEW_MASTER | CLS_SLAVE_EVENT_CYCLIC_CORRECT_MASTER
  | CLS_SLAVE_EVENT_CYCLIC_WRONG_MASTER | CLS_SLAVE_EVENT_CYCLIC_WRONG_STATIONCOUNT
  | CLS_SLAVE_EVENT_CYCLIC_INCOMING_WHEN_DISABLED | CLS_SLAVE_EVENT_TIMEOUT_MASTER
  | CLS_SLAVE_EVENT_REENABLE_SLAVE | CLS_SLAVE_EVENT_DISABLE_SLAVE
  | CLS_SLAVE_EVENT_DISABLE_SLAVE_WAIT_ENDED | CLS_SLAVE_EVENT_IP_UPDATED | CLS_SLAVE_EVENT_LAST

datatype cls_error_message = CLS_ERROR_SLAVE_STATION_DUPLICATION
  | CLS_ERROR_MASTER_STATION_DUPLICATION | CLS_ERROR_WRONG_NUMBER_OCCUPIED

datatype cls_cciefb_logwarning_message = CLS_LOGLIMITER_MASTER_DUPLICATION
  | CLS_LOGLIMITER_WRONG_NUMBER_OCCUPIED

text \<open>The functions stored in the state machine tables.\<close>

datatype cls_action = Slave_Init | Handle_Wrong_Master | Handle_Wrong_Stationcount
  | Handle_Incoming_When_Disabled | Handle_New_Or_Updated_Master | Handle_Cyclic_Event
  | Log_Timeout_Master | Log_Ip_Addr_Updated | Log_Slave_Disabled | Log_Slave_Reenabled
  | On_Entry_Master_None | On_Exit_Master_Control | On_Entry_Wait_Disabling_Slave
  | On_Entry_Slave_Disabled

text \<open>What the application and the network see.\<close>

datatype cls_output =
    State_Callback cls_slave_state
  | Error_Callback cls_error_message u32 nat
  | Connect_Callback u32 u16 nat
  | Disconnect_Callback
  | Master_Running_Callback bool bool bool u16 u16
  | Node_Search_Callback bytes u32
  | Set_Ip_Callback bytes u32 u32 u32 bool bool
  | Set_Network_Settings int u32 u32
  | Log_Warning cls_cciefb_logwarning_message u32 nat nat
  | Udp_Send u32 u16 bytes
  | Slmp_Response u32 u32 u16 bytes

record cls_cfg =
  cfg_vendor_code :: u16
  cfg_model_code :: u32
  cfg_equipment_ver :: u16
  cfg_num_occupied_stations :: nat
  cfg_ip_setting_allowed :: bool
  cfg_state_cb :: bool
  cfg_error_cb :: bool
  cfg_connect_cb :: bool
  cfg_disconnect_cb :: bool
  cfg_master_running_cb :: bool
  cfg_node_search_cb :: bool
  cfg_set_ip_cb :: bool
  cfg_iefb_ip_addr :: u32
  cfg_use_slmp_directed_broadcast :: bool

record cls_master_connection =
  ma_master_id :: u32
  ma_clock_info :: u64
  ma_clock_info_valid :: bool
  ma_protocol_ver :: u16
  ma_group_no :: u16
  ma_parameter_no :: u16
  ma_timeout_value :: u16
  ma_parallel_off_timeout_count :: u16
  ma_slave_station_no :: nat
  ma_total_occupied_station_count :: nat

record cls_trigger_data =
  td_executed_before :: bool
  td_previous_connected_to_master :: bool
  td_previous_protocol_ver :: u16
  td_previous_master_application_status :: u16

record cls_node_search =
  ns_response_timer :: cl_timer
  ns_master_mac_address :: bytes
  ns_master_ip_addr :: u32
  ns_master_port :: u16
  ns_request_serial :: u16
  ns_slave_mac_address :: bytes
  ns_slave_ip_address :: u32
  ns_slave_netmask :: u32

record cls =
  cls_config :: cls_cfg
  cls_endcode_slave_disabled :: u16
  cls_slave_application_status :: u16
  cls_loglimiter :: cl_limiter
  cls_errorlimiter :: cl_limiter
  cls_local_management_info :: u32
  cls_slave_err_code :: u16
  cls_ry :: bytes
  cls_rww :: bytes
  cls_resp_frame_normal :: cls_cciefb_cyclic_response_info
  cls_resp_frame_error :: cls_cciefb_cyclic_response_info
  cls_master :: cls_master_connection
  cls_state :: cls_slave_state
  cls_fsm_matrix :: "(cls_slave_state, cls_slave_event, cls_action) matrix"
  cls_fsm_on_entry_exit :: "(cls_slave_state, cls_action) entry_exit"
  cls_receive_timer :: cl_timer
  cls_timer_for_disabling_slave :: cl_timer
  cls_trigger :: cls_trigger_data
  cls_node_search_data :: cls_node_search
  cls_slmp_send_socket :: int
  cls_slmp_receive_socket :: int
  cls_out :: "cls_output list"

type_synonym cls_request = cls_cciefb_cyclic_request_info

definition CLS_CCIEFB_WAIT_TIME_DISABLE_SLAVE :: u32 where
  "CLS_CCIEFB_WAIT_TIME_DISABLE_SLAVE = 2500000"
definition CLS_CCIEFB_LOGWARNING_RETRIGGER_PERIOD :: u32 where
  "CLS_CCIEFB_LOGWARNING_RETRIGGER_PERIOD = 1000000"
definition CLS_CCIEFB_ERRORCALLBACK_RETRIGGER_PERIOD :: u32 where
  "CLS_CCIEFB_ERRORCALLBACK_RETRIGGER_PERIOD = 1000000"

definition emit :: "cls_output \<Rightarrow> cls \<Rightarrow> cls" where
  "emit x s = s\<lparr>cls_out := cls_out s @ [x]\<rparr>"

definition emit_if :: "bool \<Rightarrow> cls_output \<Rightarrow> cls \<Rightarrow> cls" where
  "emit_if b x s = (if b then emit x s else s)"

section \<open>Warnings and callbacks\<close>

definition logwarning_number :: "cls_cciefb_logwarning_message \<Rightarrow> int" where
  "logwarning_number m = (case m of CLS_LOGLIMITER_MASTER_DUPLICATION \<Rightarrow> 0
     | CLS_LOGLIMITER_WRONG_NUMBER_OCCUPIED \<Rightarrow> 1)"

definition error_message_number :: "cls_error_message \<Rightarrow> int" where
  "error_message_number m = (case m of CLS_ERROR_SLAVE_STATION_DUPLICATION \<Rightarrow> 0
     | CLS_ERROR_MASTER_STATION_DUPLICATION \<Rightarrow> 1 | CLS_ERROR_WRONG_NUMBER_OCCUPIED \<Rightarrow> 2)"

definition cls_iefb_log_warning_once ::
  "cls_cciefb_logwarning_message \<Rightarrow> u32 \<Rightarrow> nat \<Rightarrow> nat \<Rightarrow> u32 \<Rightarrow> cls \<Rightarrow> cls" where
  "cls_iefb_log_warning_once message arg_num_a arg_num_b arg_num_c now s =
     (let (run, limiter) = cl_limiter_should_run_now (logwarning_number message) now (cls_loglimiter s);
          s = s\<lparr>cls_loglimiter := limiter\<rparr>
      in if \<not> run then s else emit (Log_Warning message arg_num_a arg_num_b arg_num_c) s)"

definition cls_iefb_should_trigger_master_state_callback ::
  "bool \<Rightarrow> bool \<Rightarrow> bool \<Rightarrow> u16 \<Rightarrow> u16 \<Rightarrow> u16 \<Rightarrow> u16 \<Rightarrow> bool" where
  "cls_iefb_should_trigger_master_state_callback executed_before connected_to_master
      previous_connected_to_master protocol_ver previous_protocol_ver master_application_status
      previous_master_application_status =
     (if executed_before = False then True
      else if connected_to_master \<noteq> previous_connected_to_master then True
      else if protocol_ver \<noteq> previous_protocol_ver then True
      else if master_application_status \<noteq> previous_master_application_status then True
      else False)"

text \<open>Results: connected and running, stopped by user, protocol version, application status.\<close>

definition cls_iefb_filter_master_state_callback_values ::
  "bool \<Rightarrow> u16 \<Rightarrow> u16 \<Rightarrow> bool \<times> bool \<times> u16 \<times> u16" where
  "cls_iefb_filter_master_state_callback_values connected_to_master protocol_ver
      master_application_status =
     (if connected_to_master = False then (False, False, 0, 0)
      else
        (let running = bit master_application_status 0;
             stopped_by_user = (if protocol_ver > 1 \<and> running = False
               then bit master_application_status 1 else False)
         in (running, stopped_by_user, protocol_ver, master_application_status)))"

definition cls_iefb_handle_master_state_callback :: "bool \<Rightarrow> u16 \<Rightarrow> u16 \<Rightarrow> cls \<Rightarrow> cls" where
  "cls_iefb_handle_master_state_callback connected_to_master protocol_ver
      master_application_status s =
     (let td = cls_trigger s;
          s = (if cls_iefb_should_trigger_master_state_callback (td_executed_before td)
                 connected_to_master (td_previous_connected_to_master td) protocol_ver
                 (td_previous_protocol_ver td) master_application_status
                 (td_previous_master_application_status td)
               then
                 (let (running, stopped_by_user, ver, status) =
                    cls_iefb_filter_master_state_callback_values connected_to_master protocol_ver
                      master_application_status
                  in emit_if (cfg_master_running_cb (cls_config s))
                       (Master_Running_Callback connected_to_master running stopped_by_user ver status) s)
               else s)
      in s\<lparr>cls_trigger := \<lparr>td_executed_before = True,
           td_previous_connected_to_master = connected_to_master,
           td_previous_protocol_ver = protocol_ver,
           td_previous_master_application_status = master_application_status\<rparr>\<rparr>)"

definition cls_iefb_trigger_error_callback ::
  "u32 \<Rightarrow> cls_error_message \<Rightarrow> u32 \<Rightarrow> nat \<Rightarrow> cls \<Rightarrow> cls" where
  "cls_iefb_trigger_error_callback now error_message ip_addr argument_2 s =
     (let (run, limiter) =
            cl_limiter_should_run_now (error_message_number error_message) now (cls_errorlimiter s);
          s = s\<lparr>cls_errorlimiter := limiter\<rparr>
      in if \<not> run then s
         else emit_if (cfg_error_cb (cls_config s)) (Error_Callback error_message ip_addr argument_2) s)"

section \<open>Cyclic data of a request\<close>

text \<open>\<open>None\<close> is the return value -1, which leaves the slave unchanged.\<close>

definition cls_iefb_copy_cyclic_data_from_request ::
  "cls_request \<Rightarrow> nat \<Rightarrow> bool \<Rightarrow> cls \<Rightarrow> cls option" where
  "cls_iefb_copy_cyclic_data_from_request request start_number transmission_bit s =
     (let num_occupied_stations = cfg_num_occupied_stations (cls_config s);
          end_number = start_number + num_occupied_stations - 1;
          total_occupied = rq_total_occupied request
      in if total_occupied = 0 \<or> total_occupied > CL_CCIEFB_MAX_OCCUPIED_STATIONS_PER_GROUP \<or>
            total_occupied < num_occupied_stations then None
         else if start_number = 0 \<or> start_number > CL_CCIEFB_MAX_OCCUPIED_STATIONS_PER_GROUP then None
         else if end_number > CL_CCIEFB_MAX_OCCUPIED_STATIONS_PER_GROUP \<or> end_number > total_occupied
         then None
         else case (cl_iefb_request_get_ry request start_number,
                    cl_iefb_request_get_rww request start_number) of
           (Some our_first_request_ry, Some our_first_request_rww) \<Rightarrow>
             if transmission_bit then
               Some (s\<lparr>
                 cls_ry := put_bytes (cls_ry s) 0
                   (take (num_occupied_stations * sizeof_bit_area)
                      (drop our_first_request_ry (rq_buffer request))),
                 cls_rww := put_bytes (cls_rww s) 0
                   (take (num_occupied_stations * sizeof_word_area)
                      (drop our_first_request_rww (rq_buffer request)))\<rparr>)
             else
               Some (s\<lparr>
                 cls_ry := put_bytes (cls_ry s) 0 (replicate (num_occupied_stations * sizeof_bit_area) 0),
                 cls_rww := put_bytes (cls_rww s) 0
                   (replicate (num_occupied_stations * sizeof_word_area) 0)\<rparr>)
         | _ \<Rightarrow> None)"

section \<open>Responses\<close>

definition cls_iefb_send_cyclic_response_frame ::
  "u16 \<Rightarrow> u16 \<Rightarrow> bool \<Rightarrow> u16 \<Rightarrow> u32 \<Rightarrow> u16 \<Rightarrow> u32 \<Rightarrow> cls \<Rightarrow> cls outcome" where
  "cls_iefb_send_cyclic_response_frame frame_sequence_no group_no include_data end_code remote_ip
      remote_port slave_ip_addr s =
     cc_assert (cl_is_slave_endcode_valid end_code)
       (let output_frame = cl_iefb_update_cyclic_response_frame
              (if include_data then cls_resp_frame_normal s else cls_resp_frame_error s)
              slave_ip_addr end_code group_no frame_sequence_no (cls_slave_application_status s)
              (cls_slave_err_code s) (cls_local_management_info s);
            s = (if include_data then s\<lparr>cls_resp_frame_normal := output_frame\<rparr>
                 else s\<lparr>cls_resp_frame_error := output_frame\<rparr>)
        in Returns (emit (Udp_Send remote_ip remote_port
             (take (sr_udp_payload_len output_frame) (sr_buffer output_frame))) s))"

definition cls_iefb_send_cyclic_response_error_frame :: "cls_request \<Rightarrow> u16 \<Rightarrow> cls \<Rightarrow> cls outcome" where
  "cls_iefb_send_cyclic_response_error_frame request end_code s =
     (let h = qf_cyclic_data_header (rq_full_headers request) in
      cls_iefb_send_cyclic_response_frame (qdh_frame_sequence_no h) (ucast (qdh_group_no h)) False
        end_code (rq_remote_ip request) (rq_remote_port request) (rq_slave_ip_addr request) s)"

definition cls_iefb_is_master_id_correct :: "cls \<Rightarrow> u32 \<Rightarrow> bool" where
  "cls_iefb_is_master_id_correct s master_id =
     (if ma_master_id (cls_master s) = CL_IPADDR_INVALID then False
      else master_id = ma_master_id (cls_master s))"

section \<open>State machine actions\<close>

definition no_master :: cls_master_connection where
  "no_master = \<lparr>ma_master_id = CL_IPADDR_INVALID, ma_clock_info = 0, ma_clock_info_valid = False,
     ma_protocol_ver = 0, ma_group_no = 0, ma_parameter_no = 0, ma_timeout_value = 0,
     ma_parallel_off_timeout_count = 0, ma_slave_station_no = 0, ma_total_occupied_station_count = 0\<rparr>"

definition cls_iefb_clear_master_info :: "cls \<Rightarrow> cls" where
  "cls_iefb_clear_master_info s =
     cls_iefb_handle_master_state_callback False 0 0
       (s\<lparr>cls_master := no_master,
          cls_receive_timer := cl_timer_stop (cls_receive_timer s),
          cls_timer_for_disabling_slave := cl_timer_stop (cls_timer_for_disabling_slave s)\<rparr>)"

definition cls_iefb_slave_init :: "cls \<Rightarrow> cls outcome" where
  "cls_iefb_slave_init s =
     (let s = s\<lparr>cls_receive_timer := cl_timer_stop (cls_receive_timer s),
                cls_timer_for_disabling_slave := cl_timer_stop (cls_timer_for_disabling_slave s),
                cls_ry := replicate (length (cls_ry s)) 0,
                cls_rww := replicate (length (cls_rww s)) 0,
                cls_trigger := \<lparr>td_executed_before = False, td_previous_connected_to_master = False,
                  td_previous_protocol_ver = 0, td_previous_master_application_status = 0\<rparr>\<rparr>;
          s = cls_iefb_clear_master_info s;
          s = s\<lparr>cls_slave_application_status := CL_SLAVE_APPL_OPERATION_STATUS_OPERATING,
                cls_local_management_info := 0, cls_slave_err_code := 0,
                cls_endcode_slave_disabled := CL_SLMP_ENDCODE_CCIEFB_SLAVE_REQUESTS_DISCONNECT\<rparr>;
          cfg = cls_config s
      in obind (cl_iefb_initialise_cyclic_response_frame CL_BUFFER_LEN (cfg_num_occupied_stations cfg)
                  (cfg_vendor_code cfg) (cfg_model_code cfg) (cfg_equipment_ver cfg)) (\<lambda>normal.
         obind (cl_iefb_initialise_cyclic_response_frame CL_BUFFER_LEN (cfg_num_occupied_stations cfg)
                  (cfg_vendor_code cfg) (cfg_model_code cfg) (cfg_equipment_ver cfg)) (\<lambda>error.
         Returns (s\<lparr>cls_resp_frame_normal := normal, cls_resp_frame_error := error\<rparr>))))"

definition cls_iefb_handle_wrong_master :: "u32 \<Rightarrow> cls_request option \<Rightarrow> cls \<Rightarrow> cls outcome" where
  "cls_iefb_handle_wrong_master now request s =
     (case request of None \<Rightarrow> Returns s
      | Some request \<Rightarrow>
          (let new_master_id = qdh_master_id (qf_cyclic_data_header (rq_full_headers request));
               s = cls_iefb_log_warning_once CLS_LOGLIMITER_MASTER_DUPLICATION new_master_id 0 0 now s;
               s = cls_iefb_trigger_error_callback now CLS_ERROR_MASTER_STATION_DUPLICATION
                     new_master_id 0 s
           in cls_iefb_send_cyclic_response_error_frame request
                CL_SLMP_ENDCODE_CCIEFB_MASTER_DUPLICATION s))"

definition cls_iefb_handle_wrong_stationcount :: "cls_request option \<Rightarrow> cls \<Rightarrow> cls outcome" where
  "cls_iefb_handle_wrong_stationcount request s =
     (case request of None \<Rightarrow> Returns s
      | Some request \<Rightarrow> cls_iefb_send_cyclic_response_error_frame request
          CL_SLMP_ENDCODE_CCIEFB_WRONG_NUMBER_OCCUPIED_STATIONS s)"

definition cls_iefb_handle_incoming_when_disabled :: "cls_request option \<Rightarrow> cls \<Rightarrow> cls outcome" where
  "cls_iefb_handle_incoming_when_disabled request s =
     (case request of None \<Rightarrow> Returns s
      | Some request \<Rightarrow>
          cls_iefb_send_cyclic_response_error_frame request (cls_endcode_slave_disabled s) s)"

text \<open>The total timeout is a 64 bit number of microseconds; the code casts it to 32 bits.\<close>

definition cls_iefb_handle_new_or_updated_master ::
  "u32 \<Rightarrow> cls_request option \<Rightarrow> cls \<Rightarrow> cls_slave_event \<times> cls" where
  "cls_iefb_handle_new_or_updated_master now request s =
     (case request of None \<Rightarrow> (CLS_SLAVE_EVENT_NONE, s)
      | Some request \<Rightarrow>
          (let full = rq_full_headers request;
               h = qf_cyclic_data_header full;
               clock = mn_clock_info (qf_master_station_notification full);
               master = (cls_master s)\<lparr>
                 ma_master_id := qdh_master_id h, ma_parameter_no := qdh_parameter_no h,
                 ma_group_no := ucast (qdh_group_no h), ma_timeout_value := qdh_timeout_value h,
                 ma_parallel_off_timeout_count := qdh_parallel_off_timeout_count h,
                 ma_total_occupied_station_count := unat (qdh_slave_total_occupied_station_count h),
                 ma_clock_info := clock, ma_clock_info_valid := (clock \<noteq> 0),
                 ma_protocol_ver := cqh_protocol_ver (qf_cyclic_header full)\<rparr>;
               s = s\<lparr>cls_master := master,
                 cls_receive_timer := cl_timer_start
                   (ucast (cl_calculate_total_timeout_us (ma_timeout_value master)
                      (ma_parallel_off_timeout_count master))) now (cls_receive_timer s)\<rparr>;
               s = emit_if (cfg_connect_cb (cls_config s))
                     (Connect_Callback (ma_master_id master) (ma_group_no master)
                        (ma_slave_station_no master)) s;
               s = cls_iefb_handle_master_state_callback True (cqh_protocol_ver (qf_cyclic_header full))
                     (mn_master_local_unit_info (qf_master_station_notification full)) s
           in (CLS_SLAVE_EVENT_CYCLIC_CORRECT_MASTER, s)))"

definition cls_iefb_handle_cyclic_event :: "u32 \<Rightarrow> cls_request option \<Rightarrow> cls \<Rightarrow> cls outcome" where
  "cls_iefb_handle_cyclic_event now request s =
     (case request of None \<Rightarrow> Returns s
      | Some request \<Rightarrow>
          (let full = rq_full_headers request;
               h = qf_cyclic_data_header full;
               station = ma_slave_station_no (cls_master s);
               transmission_bit =
                 cl_iefb_extract_my_transmission_state (qdh_cyclic_transmission_state h) station
           in case cls_iefb_copy_cyclic_data_from_request request station transmission_bit s of
                None \<Rightarrow> Returns s
              | Some s \<Rightarrow>
                  (let clock = mn_clock_info (qf_master_station_notification full);
                       s = s\<lparr>cls_master := (cls_master s)
                             \<lparr>ma_clock_info := clock, ma_clock_info_valid := (clock \<noteq> 0)\<rparr>\<rparr>;
                       s = cls_iefb_handle_master_state_callback True
                             (cqh_protocol_ver (qf_cyclic_header full))
                             (mn_master_local_unit_info (qf_master_station_notification full)) s
                   in obind (cls_iefb_send_cyclic_response_frame (qdh_frame_sequence_no h)
                               (ucast (qdh_group_no h)) transmission_bit CL_SLMP_ENDCODE_SUCCESS
                               (rq_remote_ip request) (rq_remote_port request)
                               (rq_slave_ip_addr request) s) (\<lambda>s.
                      Returns (s\<lparr>cls_receive_timer := cl_timer_restart now (cls_receive_timer s)\<rparr>)))))"

definition cls_iefb_on_entry_master_none :: "cls \<Rightarrow> cls" where
  "cls_iefb_on_entry_master_none s = cls_iefb_clear_master_info s"

definition cls_iefb_on_exit_master_control :: "cls \<Rightarrow> cls" where
  "cls_iefb_on_exit_master_control s = emit_if (cfg_disconnect_cb (cls_config s)) Disconnect_Callback s"

definition cls_iefb_on_entry_wait_disabling_slave :: "u32 \<Rightarrow> cls \<Rightarrow> cls" where
  "cls_iefb_on_entry_wait_disabling_slave now s =
     (let s = cls_iefb_clear_master_info s in
      s\<lparr>cls_timer_for_disabling_slave := cl_timer_start CLS_CCIEFB_WAIT_TIME_DISABLE_SLAVE now
          (cls_timer_for_disabling_slave s)\<rparr>)"

definition cls_iefb_on_entry_slave_disabled :: "cls \<Rightarrow> cls" where
  "cls_iefb_on_entry_slave_disabled s =
     s\<lparr>cls_timer_for_disabling_slave := cl_timer_stop (cls_timer_for_disabling_slave s)\<rparr>"

definition no_event :: "cls outcome \<Rightarrow> (cls_slave_event \<times> cls) outcome" where
  "no_event r = obind r (\<lambda>s. Returns (CLS_SLAVE_EVENT_NONE, s))"

text \<open>Calling a function of the tables. The four \<open>log\<close> actions only write to the log.\<close>

fun run_action :: "cls_action \<Rightarrow> u32 \<Rightarrow> cls_request option \<Rightarrow> cls \<Rightarrow> (cls_slave_event \<times> cls) outcome" where
  "run_action Slave_Init now request s = no_event (cls_iefb_slave_init s)"
| "run_action Handle_Wrong_Master now request s = no_event (cls_iefb_handle_wrong_master now request s)"
| "run_action Handle_Wrong_Stationcount now request s =
     no_event (cls_iefb_handle_wrong_stationcount request s)"
| "run_action Handle_Incoming_When_Disabled now request s =
     no_event (cls_iefb_handle_incoming_when_disabled request s)"
| "run_action Handle_New_Or_Updated_Master now request s =
     Returns (cls_iefb_handle_new_or_updated_master now request s)"
| "run_action Handle_Cyclic_Event now request s = no_event (cls_iefb_handle_cyclic_event now request s)"
| "run_action Log_Timeout_Master now request s = Returns (CLS_SLAVE_EVENT_NONE, s)"
| "run_action Log_Ip_Addr_Updated now request s = Returns (CLS_SLAVE_EVENT_NONE, s)"
| "run_action Log_Slave_Disabled now request s = Returns (CLS_SLAVE_EVENT_NONE, s)"
| "run_action Log_Slave_Reenabled now request s = Returns (CLS_SLAVE_EVENT_NONE, s)"
| "run_action On_Entry_Master_None now request s =
     Returns (CLS_SLAVE_EVENT_NONE, cls_iefb_on_entry_master_none s)"
| "run_action On_Exit_Master_Control now request s =
     Returns (CLS_SLAVE_EVENT_NONE, cls_iefb_on_exit_master_control s)"
| "run_action On_Entry_Wait_Disabling_Slave now request s =
     Returns (CLS_SLAVE_EVENT_NONE, cls_iefb_on_entry_wait_disabling_slave now s)"
| "run_action On_Entry_Slave_Disabled now request s =
     Returns (CLS_SLAVE_EVENT_NONE, cls_iefb_on_entry_slave_disabled s)"

section \<open>State machine tables\<close>

definition transitions :: "(cls_slave_state, cls_slave_event, cls_action) transition list" where
  "transitions = [
     (CLS_SLAVE_STATE_SLAVE_DOWN, CLS_SLAVE_EVENT_STARTUP, CLS_SLAVE_STATE_MASTER_NONE, Some Slave_Init),
     (CLS_SLAVE_STATE_MASTER_NONE, CLS_SLAVE_EVENT_CYCLIC_NEW_MASTER, CLS_SLAVE_STATE_MASTER_CONTROL,
        Some Handle_New_Or_Updated_Master),
     (CLS_SLAVE_STATE_MASTER_NONE, CLS_SLAVE_EVENT_CYCLIC_WRONG_STATIONCOUNT, CLS_SLAVE_STATE_MASTER_NONE,
        Some Handle_Wrong_Stationcount),
     (CLS_SLAVE_STATE_MASTER_NONE, CLS_SLAVE_EVENT_DISABLE_SLAVE, CLS_SLAVE_STATE_SLAVE_DISABLED,
        Some Log_Slave_Disabled),
     (CLS_SLAVE_STATE_MASTER_CONTROL, CLS_SLAVE_EVENT_CYCLIC_CORRECT_MASTER, CLS_SLAVE_STATE_MASTER_CONTROL,
        Some Handle_Cyclic_Event),
     (CLS_SLAVE_STATE_MASTER_CONTROL, CLS_SLAVE_EVENT_CYCLIC_WRONG_MASTER, CLS_SLAVE_STATE_MASTER_CONTROL,
        Some Handle_Wrong_Master),
     (CLS_SLAVE_STATE_MASTER_CONTROL, CLS_SLAVE_EVENT_CYCLIC_NEW_MASTER, CLS_SLAVE_STATE_MASTER_CONTROL,
        Some Handle_New_Or_Updated_Master),
     (CLS_SLAVE_STATE_MASTER_CONTROL, CLS_SLAVE_EVENT_CYCLIC_WRONG_STATIONCOUNT,
        CLS_SLAVE_STATE_MASTER_NONE, Some Handle_Wrong_Stationcount),
     (CLS_SLAVE_STATE_MASTER_CONTROL, CLS_SLAVE_EVENT_TIMEOUT_MASTER, CLS_SLAVE_STATE_MASTER_NONE,
        Some Log_Timeout_Master),
     (CLS_SLAVE_STATE_MASTER_CONTROL, CLS_SLAVE_EVENT_IP_UPDATED, CLS_SLAVE_STATE_MASTER_NONE,
        Some Log_Ip_Addr_Updated),
     (CLS_SLAVE_STATE_MASTER_CONTROL, CLS_SLAVE_EVENT_DISABLE_SLAVE, CLS_SLAVE_STATE_WAIT_DISABLING_SLAVE,
        Some Log_Slave_Disabled),
     (CLS_SLAVE_STATE_WAIT_DISABLING_SLAVE, CLS_SLAVE_EVENT_REENABLE_SLAVE, CLS_SLAVE_STATE_MASTER_NONE,
        Some Log_Slave_Reenabled),
     (CLS_SLAVE_STATE_WAIT_DISABLING_SLAVE, CLS_SLAVE_EVENT_CYCLIC_INCOMING_WHEN_DISABLED,
        CLS_SLAVE_STATE_WAIT_DISABLING_SLAVE, Some Handle_Incoming_When_Disabled),
     (CLS_SLAVE_STATE_WAIT_DISABLING_SLAVE, CLS_SLAVE_EVENT_DISABLE_SLAVE_WAIT_ENDED,
        CLS_SLAVE_STATE_SLAVE_DISABLED, None),
     (CLS_SLAVE_STATE_WAIT_DISABLING_SLAVE, CLS_SLAVE_EVENT_IP_UPDATED, CLS_SLAVE_STATE_SLAVE_DISABLED,
        Some Log_Ip_Addr_Updated),
     (CLS_SLAVE_STATE_SLAVE_DISABLED, CLS_SLAVE_EVENT_REENABLE_SLAVE, CLS_SLAVE_STATE_MASTER_NONE,
        Some Log_Slave_Reenabled)]"

definition state_actions :: "(cls_slave_state, cls_action) state_action list" where
  "state_actions = [
     (CLS_SLAVE_STATE_MASTER_NONE, Some On_Entry_Master_None, None),
     (CLS_SLAVE_STATE_MASTER_CONTROL, None, Some On_Exit_Master_Control),
     (CLS_SLAVE_STATE_WAIT_DISABLING_SLAVE, Some On_Entry_Wait_Disabling_Slave, None),
     (CLS_SLAVE_STATE_SLAVE_DISABLED, Some On_Entry_Slave_Disabled, None)]"

definition run_opt :: "cls_action option \<Rightarrow> u32 \<Rightarrow> cls_request option \<Rightarrow> cls \<Rightarrow> (cls_slave_event \<times> cls) outcome" where
  "run_opt a now request s = (case a of None \<Rightarrow> Returns (CLS_SLAVE_EVENT_NONE, s)
     | Some act \<Rightarrow> run_action act now request s)"

text \<open>One round of the loop of \<open>cls_iefb_fsm_event\<close>: the next event and the new slave.\<close>

definition fsm_round :: "u32 \<Rightarrow> cls_request option \<Rightarrow> cls_slave_event \<Rightarrow> cls \<Rightarrow> (cls_slave_event \<times> cls) outcome" where
  "fsm_round now request event s =
     (let previous = cls_state s;
          (next_state, action) = cls_fsm_matrix s previous event;
          previous_state_actions = cls_fsm_on_entry_exit s previous;
          next_state_actions = cls_fsm_on_entry_exit s next_state
      in obind (if next_state \<noteq> previous then run_opt (snd previous_state_actions) now request s
                else Returns (CLS_SLAVE_EVENT_NONE, s)) (\<lambda>(_, s).
         let s = s\<lparr>cls_state := next_state\<rparr> in
         obind (run_opt action now request s) (\<lambda>(event, s).
         obind (if cls_state s \<noteq> previous then run_opt (fst next_state_actions) now request s
                else Returns (CLS_SLAVE_EVENT_NONE, s)) (\<lambda>(_, s).
         let s = (if cls_state s \<noteq> previous
                  then emit_if (cfg_state_cb (cls_config s)) (State_Callback (cls_state s)) s else s)
         in Returns (event, s)))))"

text \<open>Two rounds are enough: an action requests at most one follow-up event.\<close>

definition fsm_fuel :: nat where "fsm_fuel = 2"

definition cls_iefb_fsm_event ::
  "u32 \<Rightarrow> cls_request option \<Rightarrow> cls_slave_event \<Rightarrow> cls \<Rightarrow> cls outcome" where
  "cls_iefb_fsm_event now request event s =
     (if event = CLS_SLAVE_EVENT_LAST then Returns s else event_loop (fsm_round now request) CLS_SLAVE_EVENT_NONE fsm_fuel event s)"

definition initial_matrix :: "(cls_slave_state, cls_slave_event, cls_action) matrix" where
  "initial_matrix = build_matrix transitions"

definition initial_entry_exit :: "(cls_slave_state, cls_action) entry_exit" where
  "initial_entry_exit = build_entry_exit state_actions"

definition cls_fsm_init :: "u32 \<Rightarrow> cls \<Rightarrow> cls outcome" where
  "cls_fsm_init now s =
     cls_iefb_fsm_event now None CLS_SLAVE_EVENT_STARTUP
       (s\<lparr>cls_fsm_matrix := initial_matrix, cls_fsm_on_entry_exit := initial_entry_exit,
          cls_state := CLS_SLAVE_STATE_SLAVE_DOWN\<rparr>)"

section \<open>Received frames\<close>

text \<open>The results are the slave and whether the function returns 0.\<close>

definition cls_iefb_search_slave_parameters :: "u32 \<Rightarrow> cls_request \<Rightarrow> cls \<Rightarrow> (bool \<times> cls) outcome" where
  "cls_iefb_search_slave_parameters now request s =
     (let h = qf_cyclic_data_header (rq_full_headers request);
          total_occupied = unat (qdh_slave_total_occupied_station_count h);
          transmission_states = qdh_cyclic_transmission_state h;
          master_id = qdh_master_id h;
          fire = (\<lambda>event s. obind (cls_iefb_fsm_event now (Some request) event s) (\<lambda>s. Returns (True, s)))
      in if cls_state s = CLS_SLAVE_STATE_SLAVE_DOWN \<or> cls_state s = CLS_SLAVE_STATE_SLAVE_DISABLED \<or>
            cls_state s = CLS_SLAVE_STATE_LAST then Returns (True, s)
         else case cl_iefb_analyze_slave_ids (rq_slave_ip_addr request) total_occupied
                     (rq_buffer request) (rq_first_slave_id request) of
           None \<Rightarrow> Returns (False, s)
         | Some (found_my_slave_id, my_slave_station_no, implied_occupation_count) \<Rightarrow>
             if \<not> found_my_slave_id then Returns (True, s)
             else if implied_occupation_count \<noteq> cfg_num_occupied_stations (cls_config s) then
               (let s = cls_iefb_log_warning_once CLS_LOGLIMITER_WRONG_NUMBER_OCCUPIED CL_IPADDR_INVALID
                          (cfg_num_occupied_stations (cls_config s)) implied_occupation_count now s;
                    s = cls_iefb_trigger_error_callback now CLS_ERROR_WRONG_NUMBER_OCCUPIED
                          CL_IPADDR_INVALID implied_occupation_count s
                in fire CLS_SLAVE_EVENT_CYCLIC_WRONG_STATIONCOUNT s)
             else
               (let my_master_transmission_state_enabled =
                      cl_iefb_extract_my_transmission_state transmission_states my_slave_station_no
                in if cls_state s = CLS_SLAVE_STATE_WAIT_DISABLING_SLAVE then
                     (if my_master_transmission_state_enabled
                      then fire CLS_SLAVE_EVENT_CYCLIC_INCOMING_WHEN_DISABLED s else Returns (True, s))
                   else if cls_state s = CLS_SLAVE_STATE_MASTER_NONE then
                     (if my_master_transmission_state_enabled
                      then Returns (True, cls_iefb_trigger_error_callback now
                             CLS_ERROR_SLAVE_STATION_DUPLICATION CL_IPADDR_INVALID 0 s)
                      else fire CLS_SLAVE_EVENT_CYCLIC_NEW_MASTER
                             (s\<lparr>cls_master := (cls_master s)\<lparr>ma_slave_station_no := my_slave_station_no\<rparr>\<rparr>))
                   else if \<not> cls_iefb_is_master_id_correct s master_id then Returns (True, s)
                   else if my_master_transmission_state_enabled then Returns (True, s)
                   else fire CLS_SLAVE_EVENT_CYCLIC_NEW_MASTER
                          (s\<lparr>cls_master := (cls_master s)\<lparr>ma_slave_station_no := my_slave_station_no\<rparr>\<rparr>)))"

definition cls_iefb_handle_cyclic_input_frame ::
  "u32 \<Rightarrow> bytes \<Rightarrow> u32 \<Rightarrow> u16 \<Rightarrow> u32 \<Rightarrow> cls \<Rightarrow> (bool \<times> cls) outcome" where
  "cls_iefb_handle_cyclic_input_frame now buffer remote_ip remote_port slave_ip_addr s =
     (if slave_ip_addr = CL_IPADDR_INVALID then Returns (False, s)
      else obind (cl_iefb_parse_cyclic_request buffer remote_ip remote_port slave_ip_addr) (\<lambda>parsed.
        case parsed of None \<Rightarrow> Returns (False, s)
        | Some request \<Rightarrow>
            if cls_state s = CLS_SLAVE_STATE_SLAVE_DOWN \<or> cls_state s = CLS_SLAVE_STATE_SLAVE_DISABLED \<or>
               cls_state s = CLS_SLAVE_STATE_LAST then Returns (True, s)
            else if cls_state s \<noteq> CLS_SLAVE_STATE_MASTER_CONTROL
            then cls_iefb_search_slave_parameters now request s
            else
              (let h = qf_cyclic_data_header (rq_full_headers request);
                   total_occupied = unat (qdh_slave_total_occupied_station_count h);
                   fire = (\<lambda>event s. obind (cls_iefb_fsm_event now (Some request) event s)
                             (\<lambda>s. Returns (True, s)))
               in if \<not> cls_iefb_is_master_id_correct s (qdh_master_id h)
                  then fire CLS_SLAVE_EVENT_CYCLIC_WRONG_MASTER s
                  else if qdh_parameter_no h \<noteq> ma_parameter_no (cls_master s)
                  then cls_iefb_search_slave_parameters now request s
                  else if qdh_frame_sequence_no h = 0
                  then cls_iefb_search_slave_parameters now request s
                  else if ucast (qdh_group_no h) \<noteq> ma_group_no (cls_master s) then Returns (True, s)
                  else case cl_iefb_request_get_slave_id (rq_buffer request) (rq_first_slave_id request)
                              (ma_slave_station_no (cls_master s)) total_occupied of
                    None \<Rightarrow> Returns (False, s)
                  | Some extracted_slave_id \<Rightarrow>
                      if extracted_slave_id = CL_IPADDR_INVALID then Returns (True, s)
                      else if extracted_slave_id \<noteq> slave_ip_addr then Returns (False, s)
                      else fire CLS_SLAVE_EVENT_CYCLIC_CORRECT_MASTER s)))"

definition cls_iefb_handle_input_frame ::
  "u32 \<Rightarrow> bytes \<Rightarrow> u32 \<Rightarrow> u16 \<Rightarrow> u32 \<Rightarrow> cls \<Rightarrow> (bool \<times> cls) outcome" where
  "cls_iefb_handle_input_frame now buffer remote_ip remote_port slave_ip_addr s =
     (case cl_iefb_parse_request_header buffer of None \<Rightarrow> Returns (False, s)
      | Some header \<Rightarrow>
          if \<not> cl_iefb_validate_request_header header (length buffer) then Returns (False, s)
          else if rqh_command header = CL_SLMP_COMMAND_CCIEFB_CYCLIC \<and>
                  rqh_sub_command header = CL_SLMP_SUBCOMMAND_CCIEFB_CYCLIC
          then cls_iefb_handle_cyclic_input_frame now buffer remote_ip remote_port slave_ip_addr s
          else Returns (False, s))"

section \<open>Interface to the application\<close>

definition cls_iefb_disable_slave :: "u32 \<Rightarrow> bool \<Rightarrow> cls \<Rightarrow> cls outcome" where
  "cls_iefb_disable_slave now is_error s =
     cls_iefb_fsm_event now None CLS_SLAVE_EVENT_DISABLE_SLAVE
       (s\<lparr>cls_endcode_slave_disabled :=
          (if is_error then CL_SLMP_ENDCODE_CCIEFB_SLAVE_ERROR
           else CL_SLMP_ENDCODE_CCIEFB_SLAVE_REQUESTS_DISCONNECT)\<rparr>)"

definition cls_iefb_reenable_slave :: "u32 \<Rightarrow> cls \<Rightarrow> cls outcome" where
  "cls_iefb_reenable_slave now s = cls_iefb_fsm_event now None CLS_SLAVE_EVENT_REENABLE_SLAVE s"

definition cls_iefb_get_master_timestamp :: "cls \<Rightarrow> u64 option" where
  "cls_iefb_get_master_timestamp s =
     (if ma_clock_info_valid (cls_master s) then Some (ma_clock_info (cls_master s)) else None)"

text \<open>
  The result of the receive call is a parameter: the datagram with its remote address and port and the
  local address, or \<open>None\<close> when nothing was received.
\<close>

type_synonym datagram = "bytes \<times> u32 \<times> u16 \<times> u32"

definition cls_iefb_periodic :: "u32 \<Rightarrow> datagram option \<Rightarrow> cls \<Rightarrow> cls outcome" where
  "cls_iefb_periodic now received s =
     obind (case received of
              Some (buffer, remote_ip, remote_port, slave_ip_addr) \<Rightarrow>
                if length buffer > 0
                then obind (cls_iefb_handle_input_frame now buffer remote_ip remote_port slave_ip_addr s)
                       (\<lambda>(_, s). Returns s)
                else Returns s
            | None \<Rightarrow> Returns s) (\<lambda>s.
     obind (if cl_timer_is_expired (cls_receive_timer s) now
            then cls_iefb_fsm_event now None CLS_SLAVE_EVENT_TIMEOUT_MASTER
                   (s\<lparr>cls_receive_timer := cl_timer_stop (cls_receive_timer s)\<rparr>)
            else Returns s) (\<lambda>s.
     obind (if cl_timer_is_expired (cls_timer_for_disabling_slave s) now
            then cls_iefb_fsm_event now None CLS_SLAVE_EVENT_DISABLE_SLAVE_WAIT_ENDED
                   (s\<lparr>cls_timer_for_disabling_slave := cl_timer_stop (cls_timer_for_disabling_slave s)\<rparr>)
            else Returns s) (\<lambda>s.
     Returns (s\<lparr>cls_errorlimiter := cl_limiter_periodic now (cls_errorlimiter s),
                cls_loglimiter := cl_limiter_periodic now (cls_loglimiter s)\<rparr>))))"

definition cls_iefb_set_local_management_info :: "u32 \<Rightarrow> cls \<Rightarrow> cls" where
  "cls_iefb_set_local_management_info info s = s\<lparr>cls_local_management_info := info\<rparr>"

definition cls_iefb_set_slave_application_status :: "bool \<Rightarrow> cls \<Rightarrow> cls" where
  "cls_iefb_set_slave_application_status operating s =
     s\<lparr>cls_slave_application_status := (if operating then 1 else 0)\<rparr>"

definition cls_iefb_set_slave_error_code :: "u16 \<Rightarrow> cls \<Rightarrow> cls" where
  "cls_iefb_set_slave_error_code code s = s\<lparr>cls_slave_err_code := code\<rparr>"

text \<open>The parameter is the result of opening the CCIEFB socket; \<open>None\<close> is the return value -1.\<close>

definition cls_iefb_init :: "u32 \<Rightarrow> bool \<Rightarrow> cls \<Rightarrow> cls option outcome" where
  "cls_iefb_init now socket_opened s =
     (let s = s\<lparr>cls_loglimiter := cl_limiter_init CLS_CCIEFB_LOGWARNING_RETRIGGER_PERIOD (cls_loglimiter s),
                cls_errorlimiter := cl_limiter_init CLS_CCIEFB_ERRORCALLBACK_RETRIGGER_PERIOD (cls_errorlimiter s)\<rparr>
      in if \<not> socket_opened then Returns None
         else obind (cls_fsm_init now s) (\<lambda>s. Returns (Some s)))"

section \<open>Cyclic data access\<close>

definition cls_iefb_set_rx_bit :: "u16 \<Rightarrow> bool \<Rightarrow> cls \<Rightarrow> cls outcome" where
  "cls_iefb_set_rx_bit number value s =
     (let (areanumber, byte_in_area, m) = cl_iefb_bit_calculate_areanumber number;
          frame = cls_resp_frame_normal s
      in cc_assert (unat areanumber < cfg_num_occupied_stations (cls_config s))
           (let pos = cl_iefb_get_rx_area frame (unat areanumber) + unat byte_in_area in
            Returns (s\<lparr>cls_resp_frame_normal := frame\<lparr>sr_buffer :=
              (sr_buffer frame)[pos := change_bit value m (sr_buffer frame ! pos)]\<rparr>\<rparr>)))"

definition cls_iefb_get_rx_bit :: "u16 \<Rightarrow> cls \<Rightarrow> bool outcome" where
  "cls_iefb_get_rx_bit number s =
     (let (areanumber, byte_in_area, m) = cl_iefb_bit_calculate_areanumber number;
          frame = cls_resp_frame_normal s
      in cc_assert (unat areanumber < cfg_num_occupied_stations (cls_config s))
           (Returns (sr_buffer frame ! (cl_iefb_get_rx_area frame (unat areanumber) + unat byte_in_area)
              AND m > 0)))"

definition cls_iefb_get_ry_bit :: "u16 \<Rightarrow> cls \<Rightarrow> bool outcome" where
  "cls_iefb_get_ry_bit number s =
     (let (areanumber, byte_in_area, m) = cl_iefb_bit_calculate_areanumber number
      in cc_assert (unat areanumber < cfg_num_occupied_stations (cls_config s))
           (Returns (cls_ry s ! (unat areanumber * sizeof_bit_area + unat byte_in_area) AND m > 0)))"

definition cls_iefb_set_rwr_value :: "u16 \<Rightarrow> u16 \<Rightarrow> cls \<Rightarrow> cls outcome" where
  "cls_iefb_set_rwr_value number value s =
     (let (areanumber, register_in_area) = cl_iefb_register_calculate_areanumber number;
          frame = cls_resp_frame_normal s
      in cc_assert (unat areanumber < cfg_num_occupied_stations (cls_config s))
           (let pos = cl_iefb_get_rwr_area frame (unat areanumber) + 2 * unat register_in_area in
            Returns (s\<lparr>cls_resp_frame_normal := frame\<lparr>sr_buffer :=
              put_bytes (sr_buffer frame) pos (le16_bytes value)\<rparr>\<rparr>)))"

definition cls_iefb_get_rwr_value :: "u16 \<Rightarrow> cls \<Rightarrow> u16 outcome" where
  "cls_iefb_get_rwr_value number s =
     (let (areanumber, register_in_area) = cl_iefb_register_calculate_areanumber number;
          frame = cls_resp_frame_normal s
      in cc_assert (unat areanumber < cfg_num_occupied_stations (cls_config s))
           (Returns (le16_at (sr_buffer frame)
              (cl_iefb_get_rwr_area frame (unat areanumber) + 2 * unat register_in_area))))"

definition cls_iefb_get_rww_value :: "u16 \<Rightarrow> cls \<Rightarrow> u16 outcome" where
  "cls_iefb_get_rww_value number s =
     (let (areanumber, register_in_area) = cl_iefb_register_calculate_areanumber number
      in cc_assert (unat areanumber < cfg_num_occupied_stations (cls_config s))
           (Returns (le16_at (cls_rww s)
              (unat areanumber * sizeof_word_area + 2 * unat register_in_area))))"

section \<open>The tables\<close>

lemma initial_matrix_table:
  "initial_matrix st ev = (case (st, ev) of
     (CLS_SLAVE_STATE_SLAVE_DOWN, CLS_SLAVE_EVENT_STARTUP) \<Rightarrow> (CLS_SLAVE_STATE_MASTER_NONE, Some Slave_Init)
   | (CLS_SLAVE_STATE_MASTER_NONE, CLS_SLAVE_EVENT_CYCLIC_NEW_MASTER) \<Rightarrow>
       (CLS_SLAVE_STATE_MASTER_CONTROL, Some Handle_New_Or_Updated_Master)
   | (CLS_SLAVE_STATE_MASTER_NONE, CLS_SLAVE_EVENT_CYCLIC_WRONG_STATIONCOUNT) \<Rightarrow>
       (CLS_SLAVE_STATE_MASTER_NONE, Some Handle_Wrong_Stationcount)
   | (CLS_SLAVE_STATE_MASTER_NONE, CLS_SLAVE_EVENT_DISABLE_SLAVE) \<Rightarrow>
       (CLS_SLAVE_STATE_SLAVE_DISABLED, Some Log_Slave_Disabled)
   | (CLS_SLAVE_STATE_MASTER_CONTROL, CLS_SLAVE_EVENT_CYCLIC_CORRECT_MASTER) \<Rightarrow>
       (CLS_SLAVE_STATE_MASTER_CONTROL, Some Handle_Cyclic_Event)
   | (CLS_SLAVE_STATE_MASTER_CONTROL, CLS_SLAVE_EVENT_CYCLIC_WRONG_MASTER) \<Rightarrow>
       (CLS_SLAVE_STATE_MASTER_CONTROL, Some Handle_Wrong_Master)
   | (CLS_SLAVE_STATE_MASTER_CONTROL, CLS_SLAVE_EVENT_CYCLIC_NEW_MASTER) \<Rightarrow>
       (CLS_SLAVE_STATE_MASTER_CONTROL, Some Handle_New_Or_Updated_Master)
   | (CLS_SLAVE_STATE_MASTER_CONTROL, CLS_SLAVE_EVENT_CYCLIC_WRONG_STATIONCOUNT) \<Rightarrow>
       (CLS_SLAVE_STATE_MASTER_NONE, Some Handle_Wrong_Stationcount)
   | (CLS_SLAVE_STATE_MASTER_CONTROL, CLS_SLAVE_EVENT_TIMEOUT_MASTER) \<Rightarrow>
       (CLS_SLAVE_STATE_MASTER_NONE, Some Log_Timeout_Master)
   | (CLS_SLAVE_STATE_MASTER_CONTROL, CLS_SLAVE_EVENT_IP_UPDATED) \<Rightarrow>
       (CLS_SLAVE_STATE_MASTER_NONE, Some Log_Ip_Addr_Updated)
   | (CLS_SLAVE_STATE_MASTER_CONTROL, CLS_SLAVE_EVENT_DISABLE_SLAVE) \<Rightarrow>
       (CLS_SLAVE_STATE_WAIT_DISABLING_SLAVE, Some Log_Slave_Disabled)
   | (CLS_SLAVE_STATE_WAIT_DISABLING_SLAVE, CLS_SLAVE_EVENT_REENABLE_SLAVE) \<Rightarrow>
       (CLS_SLAVE_STATE_MASTER_NONE, Some Log_Slave_Reenabled)
   | (CLS_SLAVE_STATE_WAIT_DISABLING_SLAVE, CLS_SLAVE_EVENT_CYCLIC_INCOMING_WHEN_DISABLED) \<Rightarrow>
       (CLS_SLAVE_STATE_WAIT_DISABLING_SLAVE, Some Handle_Incoming_When_Disabled)
   | (CLS_SLAVE_STATE_WAIT_DISABLING_SLAVE, CLS_SLAVE_EVENT_DISABLE_SLAVE_WAIT_ENDED) \<Rightarrow>
       (CLS_SLAVE_STATE_SLAVE_DISABLED, None)
   | (CLS_SLAVE_STATE_WAIT_DISABLING_SLAVE, CLS_SLAVE_EVENT_IP_UPDATED) \<Rightarrow>
       (CLS_SLAVE_STATE_SLAVE_DISABLED, Some Log_Ip_Addr_Updated)
   | (CLS_SLAVE_STATE_SLAVE_DISABLED, CLS_SLAVE_EVENT_REENABLE_SLAVE) \<Rightarrow>
       (CLS_SLAVE_STATE_MASTER_NONE, Some Log_Slave_Reenabled)
   | _ \<Rightarrow> (st, None))"
proof -
  have "distinct (transition_keys transitions)" by (simp add: transition_keys_def transitions_def)
  then show ?thesis unfolding initial_matrix_def
    by (cases st; cases ev; simp add: build_matrix_lookup find_transition_def transitions_def)
qed

lemma initial_entry_exit_table:
  "initial_entry_exit st = (case st of
     CLS_SLAVE_STATE_MASTER_NONE \<Rightarrow> (Some On_Entry_Master_None, None)
   | CLS_SLAVE_STATE_MASTER_CONTROL \<Rightarrow> (None, Some On_Exit_Master_Control)
   | CLS_SLAVE_STATE_WAIT_DISABLING_SLAVE \<Rightarrow> (Some On_Entry_Wait_Disabling_Slave, None)
   | CLS_SLAVE_STATE_SLAVE_DISABLED \<Rightarrow> (Some On_Entry_Slave_Disabled, None)
   | _ \<Rightarrow> (None, None))"
  by (cases st; simp add: initial_entry_exit_def build_entry_exit_lookup state_actions_def)

section \<open>The helpers as record updates\<close>

definition master_state_outputs :: "bool \<Rightarrow> u16 \<Rightarrow> u16 \<Rightarrow> cls \<Rightarrow> cls_output list" where
  "master_state_outputs c v a s =
     (if cls_iefb_should_trigger_master_state_callback (td_executed_before (cls_trigger s)) c
           (td_previous_connected_to_master (cls_trigger s)) v (td_previous_protocol_ver (cls_trigger s)) a
           (td_previous_master_application_status (cls_trigger s)) \<and> cfg_master_running_cb (cls_config s)
      then (case cls_iefb_filter_master_state_callback_values c v a of (r, b, v', a') \<Rightarrow>
              [Master_Running_Callback c r b v' a']) else [])"

lemma handle_master_state_callback_eq:
  "cls_iefb_handle_master_state_callback c v a s =
     s\<lparr>cls_out := cls_out s @ master_state_outputs c v a s,
       cls_trigger := \<lparr>td_executed_before = True, td_previous_connected_to_master = c,
         td_previous_protocol_ver = v, td_previous_master_application_status = a\<rparr>\<rparr>"
  by (simp add: cls_iefb_handle_master_state_callback_def master_state_outputs_def emit_if_def emit_def
      Let_def split: prod.split)

definition warning_outputs :: "cls_cciefb_logwarning_message \<Rightarrow> u32 \<Rightarrow> nat \<Rightarrow> nat \<Rightarrow> u32 \<Rightarrow> cls \<Rightarrow> cls_output list" where
  "warning_outputs m a b c now s =
     (if fst (cl_limiter_should_run_now (logwarning_number m) now (cls_loglimiter s))
      then [Log_Warning m a b c] else [])"

lemma log_warning_once_eq:
  "cls_iefb_log_warning_once m a b c now s =
     s\<lparr>cls_loglimiter := snd (cl_limiter_should_run_now (logwarning_number m) now (cls_loglimiter s)),
       cls_out := cls_out s @ warning_outputs m a b c now s\<rparr>"
  by (simp add: cls_iefb_log_warning_once_def warning_outputs_def emit_def Let_def split: prod.split)

definition error_outputs :: "u32 \<Rightarrow> cls_error_message \<Rightarrow> u32 \<Rightarrow> nat \<Rightarrow> cls \<Rightarrow> cls_output list" where
  "error_outputs now m ip arg s =
     (if fst (cl_limiter_should_run_now (error_message_number m) now (cls_errorlimiter s)) \<and>
         cfg_error_cb (cls_config s) then [Error_Callback m ip arg] else [])"

lemma trigger_error_callback_eq:
  "cls_iefb_trigger_error_callback now m ip arg s =
     s\<lparr>cls_errorlimiter := snd (cl_limiter_should_run_now (error_message_number m) now (cls_errorlimiter s)),
       cls_out := cls_out s @ error_outputs now m ip arg s\<rparr>"
  by (simp add: cls_iefb_trigger_error_callback_def error_outputs_def emit_if_def emit_def Let_def
      split: prod.split)

lemma emit_if_eq: "emit_if b x s = s\<lparr>cls_out := cls_out s @ (if b then [x] else [])\<rparr>"
  by (simp add: emit_if_def emit_def)

lemmas helper_eqs = handle_master_state_callback_eq log_warning_once_eq trigger_error_callback_eq
  emit_if_eq emit_def

section \<open>The invariant\<close>

definition request_ok :: "cls_request \<Rightarrow> bool" where
  "request_ok r \<longleftrightarrow> (\<exists>bs ip port my_ip. cl_iefb_parse_cyclic_request bs ip port my_ip = Returns (Some r) \<and> my_ip \<noteq> 0)"

definition frames_inv :: "cls \<Rightarrow> bool" where
  "frames_inv s \<longleftrightarrow>
     response_frame_wf (cls_resp_frame_normal s) (cfg_num_occupied_stations (cls_config s)) \<and>
     response_frame_wf (cls_resp_frame_error s) (cfg_num_occupied_stations (cls_config s)) \<and>
     length (sr_buffer (cls_resp_frame_normal s)) = CL_BUFFER_LEN \<and>
     length (sr_buffer (cls_resp_frame_error s)) = CL_BUFFER_LEN"

definition config_inv :: "cls \<Rightarrow> bool" where
  "config_inv s \<longleftrightarrow> 1 \<le> cfg_num_occupied_stations (cls_config s) \<and>
     cfg_num_occupied_stations (cls_config s) \<le> 16 \<and>
     8 * cfg_num_occupied_stations (cls_config s) \<le> length (cls_ry s) \<and>
     64 * cfg_num_occupied_stations (cls_config s) \<le> length (cls_rww s)"

definition base_inv :: "cls \<Rightarrow> bool" where
  "base_inv s \<longleftrightarrow> cls_fsm_matrix s = initial_matrix \<and> cls_fsm_on_entry_exit s = initial_entry_exit \<and>
     config_inv s \<and> frames_inv s \<and>
     cls_endcode_slave_disabled s \<in> {CL_SLMP_ENDCODE_CCIEFB_SLAVE_ERROR,
       CL_SLMP_ENDCODE_CCIEFB_SLAVE_REQUESTS_DISCONNECT} \<and>
     cls_slave_application_status s \<in> {0, 1} \<and>
     cls_state s \<notin> {CLS_SLAVE_STATE_SLAVE_DOWN, CLS_SLAVE_STATE_LAST}"

text \<open>Nothing is left over from a connection or from a disabling that is over.\<close>

definition idle_inv :: "cls \<Rightarrow> bool" where
  "idle_inv s \<longleftrightarrow>
     (cls_state s \<noteq> CLS_SLAVE_STATE_MASTER_CONTROL \<longrightarrow>
        \<not> cl_timer_is_running (cls_receive_timer s) \<and> ma_master_id (cls_master s) = 0) \<and>
     (cls_state s \<noteq> CLS_SLAVE_STATE_WAIT_DISABLING_SLAVE \<longrightarrow>
        \<not> cl_timer_is_running (cls_timer_for_disabling_slave s))"

text \<open>While connected or disabling, the timer that ends that state is running.\<close>

definition busy_inv :: "cls \<Rightarrow> bool" where
  "busy_inv s \<longleftrightarrow>
     (cls_state s = CLS_SLAVE_STATE_MASTER_CONTROL \<longrightarrow>
        cl_timer_is_running (cls_receive_timer s) \<and> ma_master_id (cls_master s) \<noteq> 0) \<and>
     (cls_state s = CLS_SLAVE_STATE_WAIT_DISABLING_SLAVE \<longrightarrow>
        cl_timer_is_running (cls_timer_for_disabling_slave s))"

definition cls_inv :: "cls \<Rightarrow> bool" where
  "cls_inv s \<longleftrightarrow> base_inv s \<and> idle_inv s \<and> busy_inv s"

lemmas inv_defs = cls_inv_def base_inv_def idle_inv_def busy_inv_def config_inv_def frames_inv_def

section \<open>Actions keep the invariant\<close>

text \<open>The connection is as before: only frames, data areas, limiters and outputs may differ.\<close>

definition same_conn :: "cls \<Rightarrow> cls \<Rightarrow> bool" where
  "same_conn s s' \<longleftrightarrow> cls_state s' = cls_state s \<and> ma_master_id (cls_master s') = ma_master_id (cls_master s) \<and>
     cl_timer_is_running (cls_receive_timer s') = cl_timer_is_running (cls_receive_timer s) \<and>
     cl_timer_is_running (cls_timer_for_disabling_slave s') =
       cl_timer_is_running (cls_timer_for_disabling_slave s) \<and> cls_config s' = cls_config s"

lemma same_conn_inv:
  "same_conn s s' \<Longrightarrow> idle_inv s' = idle_inv s" "same_conn s s' \<Longrightarrow> busy_inv s' = busy_inv s"
  by (simp_all add: same_conn_def idle_inv_def busy_inv_def)

lemma same_conn_refl [simp]: "same_conn s s" by (simp add: same_conn_def)

lemma same_conn_trans: "same_conn s t \<Longrightarrow> same_conn t u \<Longrightarrow> same_conn s u"
  by (simp add: same_conn_def)

lemma base_inv_limiters [simp]:
  "base_inv (s\<lparr>cls_loglimiter := l\<rparr>) = base_inv s"
  "base_inv (s\<lparr>cls_errorlimiter := l\<rparr>) = base_inv s"
  "base_inv (s\<lparr>cls_out := q\<rparr>) = base_inv s"
  "base_inv (s\<lparr>cls_master := m\<rparr>) = base_inv s"
  "base_inv (s\<lparr>cls_receive_timer := t\<rparr>) = base_inv s"
  "base_inv (s\<lparr>cls_timer_for_disabling_slave := t\<rparr>) = base_inv s"
  "base_inv (s\<lparr>cls_trigger := t'\<rparr>) = base_inv s"
  by (simp_all add: base_inv_def config_inv_def frames_inv_def)

lemma send_ok:
  assumes "base_inv s" and "cl_is_slave_endcode_valid ec"
  shows "\<exists>s'. cls_iefb_send_cyclic_response_frame sqn grp inc ec rip rport my s = Returns s' \<and>
    base_inv s' \<and> same_conn s s'"
proof -
  have "frames_inv s" using assms(1) by (simp add: base_inv_def)
  then show ?thesis
    using assms update_response_frame_ok(1,2) [OF _ refl]
    by (auto simp: cls_iefb_send_cyclic_response_frame_def Let_def same_conn_def emit_def base_inv_def
        frames_inv_def config_inv_def)
qed

lemma endcodes_valid:
  "cl_is_slave_endcode_valid CL_SLMP_ENDCODE_SUCCESS"
  "cl_is_slave_endcode_valid CL_SLMP_ENDCODE_CCIEFB_MASTER_DUPLICATION"
  "cl_is_slave_endcode_valid CL_SLMP_ENDCODE_CCIEFB_WRONG_NUMBER_OCCUPIED_STATIONS"
  "base_inv s \<Longrightarrow> cl_is_slave_endcode_valid (cls_endcode_slave_disabled s)"
  by (auto simp: cl_is_slave_endcode_valid_def base_inv_def)

lemma error_frame_ok:
  assumes "base_inv s" and "cl_is_slave_endcode_valid ec"
  shows "\<exists>s'. cls_iefb_send_cyclic_response_error_frame r ec s = Returns s' \<and> base_inv s' \<and> same_conn s s'"
  unfolding cls_iefb_send_cyclic_response_error_frame_def Let_def by (rule send_ok [OF assms])

lemma wrong_master_ok:
  assumes "base_inv s"
  shows "\<exists>s'. cls_iefb_handle_wrong_master now req s = Returns s' \<and> base_inv s' \<and> same_conn s s'"
proof (cases req)
  case (Some r)
  let ?t = "cls_iefb_trigger_error_callback now CLS_ERROR_MASTER_STATION_DUPLICATION
    (qdh_master_id (qf_cyclic_data_header (rq_full_headers r))) 0
    (cls_iefb_log_warning_once CLS_LOGLIMITER_MASTER_DUPLICATION
      (qdh_master_id (qf_cyclic_data_header (rq_full_headers r))) 0 0 now s)"
  have "base_inv ?t" "same_conn s ?t"
    using assms by (simp_all add: helper_eqs same_conn_def)
  moreover from this(1) obtain s' where "cls_iefb_send_cyclic_response_error_frame r
      CL_SLMP_ENDCODE_CCIEFB_MASTER_DUPLICATION ?t = Returns s'" "base_inv s'" "same_conn ?t s'"
    using error_frame_ok endcodes_valid by blast
  ultimately show ?thesis
    using same_conn_trans by (auto simp: cls_iefb_handle_wrong_master_def Some Let_def)
qed (use assms in \<open>simp add: cls_iefb_handle_wrong_master_def\<close>)

lemma wrong_stationcount_ok:
  "base_inv s \<Longrightarrow> \<exists>s'. cls_iefb_handle_wrong_stationcount req s = Returns s' \<and> base_inv s' \<and> same_conn s s'"
  using error_frame_ok endcodes_valid
  by (cases req) (auto simp: cls_iefb_handle_wrong_stationcount_def)

lemma incoming_when_disabled_ok:
  "base_inv s \<Longrightarrow> \<exists>s'. cls_iefb_handle_incoming_when_disabled req s = Returns s' \<and> base_inv s' \<and> same_conn s s'"
  using error_frame_ok endcodes_valid
  by (cases req) (auto simp: cls_iefb_handle_incoming_when_disabled_def)

lemma copy_cyclic_data_ok:
  assumes "base_inv s" "request_ok r" "cls_iefb_copy_cyclic_data_from_request r n b s = Some s'"
  shows "base_inv s'" "same_conn s s'" "cls_trigger s' = cls_trigger s"
proof -
  let ?k = "cfg_num_occupied_stations (cls_config s)"
  obtain ry rww where s': "s' = s\<lparr>cls_ry := put_bytes (cls_ry s) 0 ry, cls_rww := put_bytes (cls_rww s) 0 rww\<rparr>"
      "length ry \<le> 8 * ?k" "length rww \<le> 64 * ?k"
    using assms(3)
    by (auto simp: cls_iefb_copy_cyclic_data_from_request_def Let_def cl_consts split: if_splits option.splits)
  then have "length (cls_ry s') = length (cls_ry s)" "length (cls_rww s') = length (cls_rww s)"
    using assms(1) by (simp_all add: base_inv_def config_inv_def)
  with s' assms(1) show "base_inv s'" "same_conn s s'" "cls_trigger s' = cls_trigger s"
    by (simp_all add: base_inv_def config_inv_def frames_inv_def same_conn_def)
qed

lemma cyclic_event_ok:
  assumes "base_inv s" "\<And>r. req = Some r \<Longrightarrow> request_ok r"
  shows "\<exists>s'. cls_iefb_handle_cyclic_event now req s = Returns s' \<and> base_inv s' \<and> same_conn s s'"
proof (cases req)
  case (Some r)
  let ?full = "rq_full_headers r" let ?h = "qf_cyclic_data_header ?full"
  let ?b = "cl_iefb_extract_my_transmission_state (qdh_cyclic_transmission_state ?h) (ma_slave_station_no (cls_master s))"
  show ?thesis
  proof (cases "cls_iefb_copy_cyclic_data_from_request r (ma_slave_station_no (cls_master s)) ?b s")
    case None
    then show ?thesis using assms(1) Some by (auto simp: cls_iefb_handle_cyclic_event_def Let_def)
  next
    case (Some t)
    let ?clock = "mn_clock_info (qf_master_station_notification ?full)"
    let ?u = "cls_iefb_handle_master_state_callback True (cqh_protocol_ver (qf_cyclic_header ?full))
      (mn_master_local_unit_info (qf_master_station_notification ?full))
      (t\<lparr>cls_master := (cls_master t)\<lparr>ma_clock_info := ?clock, ma_clock_info_valid := (?clock \<noteq> 0)\<rparr>\<rparr>)"
    have t: "base_inv t" "same_conn s t"
      using copy_cyclic_data_ok [OF assms(1) _ Some] assms(2) \<open>req = Some r\<close> by auto
    then have u: "base_inv ?u" "same_conn s ?u" by (simp_all add: helper_eqs same_conn_def)
    obtain v where v: "cls_iefb_send_cyclic_response_frame (qdh_frame_sequence_no ?h) (ucast (qdh_group_no ?h))
        ?b CL_SLMP_ENDCODE_SUCCESS (rq_remote_ip r) (rq_remote_port r) (rq_slave_ip_addr r) ?u = Returns v"
        "base_inv v" "same_conn ?u v"
      using send_ok [OF u(1) endcodes_valid(1)] by blast
    have "same_conn s (v\<lparr>cls_receive_timer := cl_timer_restart now (cls_receive_timer v)\<rparr>)"
      using same_conn_trans [OF u(2) v(3)] by (simp add: same_conn_def)
    then show ?thesis
      using \<open>req = Some r\<close> Some v by (simp add: cls_iefb_handle_cyclic_event_def Let_def)
  qed
qed (use assms in \<open>simp add: cls_iefb_handle_cyclic_event_def\<close>)

lemma request_ok_master_id: "request_ok r \<Longrightarrow> qdh_master_id (qf_cyclic_data_header (rq_full_headers r)) \<noteq> 0"
  unfolding request_ok_def using parse_request_Some(12) validated_request_headers(5,6) by metis

text \<open>Connecting: afterwards the receive timer runs and the master is known.\<close>

lemma new_master_ok:
  assumes "base_inv s" "request_ok r"
  shows "\<exists>s'. cls_iefb_handle_new_or_updated_master now (Some r) s = (CLS_SLAVE_EVENT_CYCLIC_CORRECT_MASTER, s') \<and>
    base_inv s' \<and> cls_state s' = cls_state s \<and> cls_config s' = cls_config s \<and>
    cl_timer_is_running (cls_receive_timer s') \<and> ma_master_id (cls_master s') \<noteq> 0 \<and>
    cls_timer_for_disabling_slave s' = cls_timer_for_disabling_slave s"
  using assms request_ok_master_id [OF assms(2)]
  by (simp add: cls_iefb_handle_new_or_updated_master_def Let_def helper_eqs)

lemma clear_master_info_ok:
  assumes "base_inv s"
  shows "base_inv (cls_iefb_clear_master_info s)" "cls_state (cls_iefb_clear_master_info s) = cls_state s"
    "\<not> cl_timer_is_running (cls_receive_timer (cls_iefb_clear_master_info s))"
    "\<not> cl_timer_is_running (cls_timer_for_disabling_slave (cls_iefb_clear_master_info s))"
    "cls_master (cls_iefb_clear_master_info s) = no_master"
    "cls_config (cls_iefb_clear_master_info s) = cls_config s"
  using assms by (simp_all add: cls_iefb_clear_master_info_def helper_eqs)

section \<open>Rounds of the state machine\<close>

definition request_valid :: "cls_request option \<Rightarrow> bool" where
  "request_valid req \<longleftrightarrow> (\<forall>r. req = Some r \<longrightarrow> request_ok r)"

text \<open>
  When an event may be sent: the timer that watches the state may already have been stopped for the two
  events that report its expiry, and a new master comes with its request.
\<close>

definition event_enabled :: "cls_request option \<Rightarrow> cls_slave_event \<Rightarrow> cls \<Rightarrow> bool" where
  "event_enabled req ev s \<longleftrightarrow> base_inv s \<and> idle_inv s \<and> request_valid req \<and>
     (busy_inv s \<or> cls_state s = CLS_SLAVE_STATE_MASTER_CONTROL \<and> ev = CLS_SLAVE_EVENT_TIMEOUT_MASTER \<or>
      cls_state s = CLS_SLAVE_STATE_WAIT_DISABLING_SLAVE \<and> ev = CLS_SLAVE_EVENT_DISABLE_SLAVE_WAIT_ENDED) \<and>
     (ev = CLS_SLAVE_EVENT_CYCLIC_NEW_MASTER \<longrightarrow> req \<noteq> None)"

definition event_rank :: "cls_slave_event \<Rightarrow> nat" where
  "event_rank ev = (if ev = CLS_SLAVE_EVENT_CYCLIC_NEW_MASTER then 1 else 0)"

text \<open>A round where the table has no entry.\<close>

lemma fsm_round_idle:
  "cls_fsm_matrix s (cls_state s) ev = (cls_state s, None) \<Longrightarrow>
   fsm_round now req ev s = Returns (CLS_SLAVE_EVENT_NONE, s)"
  by (simp add: fsm_round_def run_opt_def Let_def)

text \<open>A round that stays in its state.\<close>

lemma fsm_round_stay:
  assumes "cls_fsm_matrix s (cls_state s) ev = (cls_state s, Some act)"
    and "run_action act now req s = Returns (ev', s')" and "cls_state s' = cls_state s"
  shows "fsm_round now req ev s = Returns (ev', s')"
  using assms by (simp add: fsm_round_def run_opt_def Let_def)

text \<open>A round that leaves its state: exit action, transition action, entry action, state callback.\<close>

lemma fsm_round_leave:
  assumes "cls_fsm_matrix s (cls_state s) ev = (nx, act)" "nx \<noteq> cls_state s"
    and "run_opt (snd (cls_fsm_on_entry_exit s (cls_state s))) now req s = Returns (e1, s1)"
    and "run_opt act now req (s1\<lparr>cls_state := nx\<rparr>) = Returns (ev', s2)" "cls_state s2 = nx"
    and "run_opt (fst (cls_fsm_on_entry_exit s nx)) now req s2 = Returns (e3, s3)" "cls_state s3 = nx"
  shows "fsm_round now req ev s = Returns (ev', emit_if (cfg_state_cb (cls_config s3)) (State_Callback nx) s3)"
  using assms by (simp add: fsm_round_def Let_def)

lemma base_inv_tables:
  "base_inv s \<Longrightarrow> cls_fsm_matrix s = initial_matrix" "base_inv s \<Longrightarrow> cls_fsm_on_entry_exit s = initial_entry_exit"
  by (simp_all add: base_inv_def)

lemma base_inv_state [simp]:
  "base_inv s \<Longrightarrow> st \<noteq> CLS_SLAVE_STATE_SLAVE_DOWN \<Longrightarrow> st \<noteq> CLS_SLAVE_STATE_LAST \<Longrightarrow> base_inv (s\<lparr>cls_state := st\<rparr>)"
  by (simp add: base_inv_def config_inv_def frames_inv_def)

definition exit_outputs :: "cls \<Rightarrow> cls_output list" where
  "exit_outputs s = (if cls_state s = CLS_SLAVE_STATE_MASTER_CONTROL \<and> cfg_disconnect_cb (cls_config s)
     then [Disconnect_Callback] else [])"

lemma exit_action:
  assumes "base_inv s"
  shows "run_opt (snd (cls_fsm_on_entry_exit s (cls_state s))) now req s =
    Returns (CLS_SLAVE_EVENT_NONE, s\<lparr>cls_out := cls_out s @ exit_outputs s\<rparr>)"
  using assms
  by (cases "cls_state s"; simp add: base_inv_tables initial_entry_exit_table run_opt_def
      cls_iefb_on_exit_master_control_def emit_if_eq exit_outputs_def)

text \<open>Leaving for the state without a master: whatever the action was, the connection is cleared.\<close>

lemma round_to_master_none:
  assumes inv: "base_inv s" and m: "initial_matrix (cls_state s) ev = (CLS_SLAVE_STATE_MASTER_NONE, act)"
    and leave: "cls_state s \<noteq> CLS_SLAVE_STATE_MASTER_NONE"
    and act: "\<And>t. base_inv t \<Longrightarrow> \<exists>t'. run_opt act now req t = Returns (CLS_SLAVE_EVENT_NONE, t') \<and> base_inv t' \<and> same_conn t t'"
  shows "\<exists>s'. fsm_round now req ev s = Returns (CLS_SLAVE_EVENT_NONE, s') \<and> base_inv s' \<and> idle_inv s' \<and>
    cls_state s' = CLS_SLAVE_STATE_MASTER_NONE \<and> cls_master s' = no_master"
proof -
  let ?s1 = "s\<lparr>cls_out := cls_out s @ exit_outputs s\<rparr>"
  have "base_inv (?s1\<lparr>cls_state := CLS_SLAVE_STATE_MASTER_NONE\<rparr>)"
    using inv by (intro base_inv_state) simp_all
  from act [OF this] obtain t where t: "run_opt act now req (?s1\<lparr>cls_state := CLS_SLAVE_STATE_MASTER_NONE\<rparr>) =
      Returns (CLS_SLAVE_EVENT_NONE, t)" "base_inv t" "cls_state t = CLS_SLAVE_STATE_MASTER_NONE"
    by (auto simp: same_conn_def)
  have "run_opt (fst (cls_fsm_on_entry_exit s CLS_SLAVE_STATE_MASTER_NONE)) now req t =
      Returns (CLS_SLAVE_EVENT_NONE, cls_iefb_clear_master_info t)"
    using inv by (simp add: base_inv_tables initial_entry_exit_table run_opt_def cls_iefb_on_entry_master_none_def)
  from fsm_round_leave [OF _ leave [symmetric] exit_action [OF inv] t(1,3) this]
  have "fsm_round now req ev s = Returns (CLS_SLAVE_EVENT_NONE,
      emit_if (cfg_state_cb (cls_config (cls_iefb_clear_master_info t)))
        (State_Callback CLS_SLAVE_STATE_MASTER_NONE) (cls_iefb_clear_master_info t))"
    using inv m t clear_master_info_ok(2) by (simp add: base_inv_tables)
  then show ?thesis
    using clear_master_info_ok [OF t(2)] t(3)
    by (simp add: idle_inv_def emit_if_eq no_master_def CL_IPADDR_INVALID_def)
qed

lemma no_event_ok:
  "\<exists>t'. r = Returns t' \<and> P t' \<Longrightarrow> \<exists>t'. no_event r = Returns (CLS_SLAVE_EVENT_NONE, t') \<and> P t'"
  by (auto simp: no_event_def)

lemma stay_actions_ok:
  assumes "base_inv t" "request_valid req"
    and "act \<in> {None, Some Log_Timeout_Master, Some Log_Ip_Addr_Updated, Some Log_Slave_Disabled, Some Log_Slave_Reenabled,
      Some Handle_Wrong_Stationcount, Some Handle_Wrong_Master, Some Handle_Incoming_When_Disabled, Some Handle_Cyclic_Event}"
  shows "\<exists>t'. run_opt act now req t = Returns (CLS_SLAVE_EVENT_NONE, t') \<and> base_inv t' \<and> same_conn t t'"
proof -
  note oks = wrong_stationcount_ok wrong_master_ok incoming_when_disabled_ok cyclic_event_ok
  show ?thesis
    using assms oks [OF assms(1), THEN no_event_ok]
    by (auto simp: run_opt_def request_valid_def)
qed

lemma round_to_disabled:
  assumes inv: "base_inv s" "idle_inv s"
    and m: "initial_matrix (cls_state s) ev = (CLS_SLAVE_STATE_SLAVE_DISABLED, act)"
    and leave: "cls_state s \<in> {CLS_SLAVE_STATE_MASTER_NONE, CLS_SLAVE_STATE_WAIT_DISABLING_SLAVE}"
    and act: "\<And>t. run_opt act now req t = Returns (CLS_SLAVE_EVENT_NONE, t)"
  shows "\<exists>s'. fsm_round now req ev s = Returns (CLS_SLAVE_EVENT_NONE, s') \<and> base_inv s' \<and> idle_inv s' \<and>
    cls_state s' = CLS_SLAVE_STATE_SLAVE_DISABLED"
proof -
  let ?s1 = "s\<lparr>cls_out := cls_out s @ exit_outputs s\<rparr>"
  let ?t = "?s1\<lparr>cls_state := CLS_SLAVE_STATE_SLAVE_DISABLED\<rparr>"
  have t: "base_inv ?t" using inv by (intro base_inv_state) simp_all
  have e: "run_opt (fst (cls_fsm_on_entry_exit s CLS_SLAVE_STATE_SLAVE_DISABLED)) now req ?t =
      Returns (CLS_SLAVE_EVENT_NONE, cls_iefb_on_entry_slave_disabled ?t)"
    using inv by (simp add: base_inv_tables initial_entry_exit_table run_opt_def)
  have "fsm_round now req ev s = Returns (CLS_SLAVE_EVENT_NONE,
      emit_if (cfg_state_cb (cls_config (cls_iefb_on_entry_slave_disabled ?t)))
        (State_Callback CLS_SLAVE_STATE_SLAVE_DISABLED) (cls_iefb_on_entry_slave_disabled ?t))"
    by (rule fsm_round_leave [OF _ _ exit_action [OF inv(1)] act _ e])
      (use inv m leave in \<open>auto simp: base_inv_tables cls_iefb_on_entry_slave_disabled_def\<close>)
  then show ?thesis
    using t inv leave by (auto simp: idle_inv_def emit_if_eq cls_iefb_on_entry_slave_disabled_def)
qed

lemma round_to_wait_disabling:
  assumes inv: "base_inv s" and m: "cls_state s = CLS_SLAVE_STATE_MASTER_CONTROL" "ev = CLS_SLAVE_EVENT_DISABLE_SLAVE"
  shows "\<exists>s'. fsm_round now req ev s = Returns (CLS_SLAVE_EVENT_NONE, s') \<and> base_inv s' \<and> idle_inv s' \<and> busy_inv s' \<and>
    cls_state s' = CLS_SLAVE_STATE_WAIT_DISABLING_SLAVE"
proof -
  let ?s1 = "s\<lparr>cls_out := cls_out s @ exit_outputs s\<rparr>"
  let ?t = "?s1\<lparr>cls_state := CLS_SLAVE_STATE_WAIT_DISABLING_SLAVE\<rparr>"
  have t: "base_inv ?t" using inv by (intro base_inv_state) simp_all
  have a: "run_opt (Some Log_Slave_Disabled) now req ?t = Returns (CLS_SLAVE_EVENT_NONE, ?t)"
    by (simp add: run_opt_def)
  have e: "run_opt (fst (cls_fsm_on_entry_exit s CLS_SLAVE_STATE_WAIT_DISABLING_SLAVE)) now req ?t =
      Returns (CLS_SLAVE_EVENT_NONE, cls_iefb_on_entry_wait_disabling_slave now ?t)"
    using inv by (simp add: base_inv_tables initial_entry_exit_table run_opt_def)
  note c = clear_master_info_ok [OF t]
  have "fsm_round now req ev s = Returns (CLS_SLAVE_EVENT_NONE,
      emit_if (cfg_state_cb (cls_config (cls_iefb_on_entry_wait_disabling_slave now ?t)))
        (State_Callback CLS_SLAVE_STATE_WAIT_DISABLING_SLAVE) (cls_iefb_on_entry_wait_disabling_slave now ?t))"
    by (rule fsm_round_leave [OF _ _ exit_action [OF inv(1)] a _ e])
      (use inv m c in \<open>auto simp: base_inv_tables initial_matrix_table cls_iefb_on_entry_wait_disabling_slave_def Let_def\<close>)
  then show ?thesis
    using c by (simp add: idle_inv_def busy_inv_def emit_if_eq cls_iefb_on_entry_wait_disabling_slave_def
        no_master_def Let_def CL_IPADDR_INVALID_def)
qed

lemma round_connect:
  assumes inv: "base_inv s" "idle_inv s" and r: "request_ok r"
    and st: "cls_state s \<in> {CLS_SLAVE_STATE_MASTER_NONE, CLS_SLAVE_STATE_MASTER_CONTROL}"
  shows "\<exists>s'. fsm_round now (Some r) CLS_SLAVE_EVENT_CYCLIC_NEW_MASTER s =
      Returns (CLS_SLAVE_EVENT_CYCLIC_CORRECT_MASTER, s') \<and> base_inv s' \<and> idle_inv s' \<and> busy_inv s' \<and>
      cls_state s' = CLS_SLAVE_STATE_MASTER_CONTROL"
proof (cases "cls_state s = CLS_SLAVE_STATE_MASTER_CONTROL")
  case True
  from new_master_ok [OF inv(1) r] obtain s' where s':
    "cls_iefb_handle_new_or_updated_master now (Some r) s = (CLS_SLAVE_EVENT_CYCLIC_CORRECT_MASTER, s')"
    "base_inv s'" "cls_state s' = cls_state s" "cl_timer_is_running (cls_receive_timer s')"
    "ma_master_id (cls_master s') \<noteq> 0" "cls_timer_for_disabling_slave s' = cls_timer_for_disabling_slave s"
    by blast
  have "fsm_round now (Some r) CLS_SLAVE_EVENT_CYCLIC_NEW_MASTER s =
      Returns (CLS_SLAVE_EVENT_CYCLIC_CORRECT_MASTER, s')"
    by (rule fsm_round_stay [where act = Handle_New_Or_Updated_Master])
      (use inv True s' in \<open>simp_all add: base_inv_tables initial_matrix_table\<close>)
  then show ?thesis using s' True inv by (auto simp: idle_inv_def busy_inv_def)
next
  case False
  let ?t = "s\<lparr>cls_out := cls_out s @ exit_outputs s, cls_state := CLS_SLAVE_STATE_MASTER_CONTROL\<rparr>"
  have "base_inv ?t" using base_inv_state [of "s\<lparr>cls_out := cls_out s @ exit_outputs s\<rparr>"] inv by simp
  from new_master_ok [OF this r] obtain s' where s':
    "cls_iefb_handle_new_or_updated_master now (Some r) ?t = (CLS_SLAVE_EVENT_CYCLIC_CORRECT_MASTER, s')"
    "base_inv s'" "cls_state s' = CLS_SLAVE_STATE_MASTER_CONTROL" "cl_timer_is_running (cls_receive_timer s')"
    "ma_master_id (cls_master s') \<noteq> 0" "cls_timer_for_disabling_slave s' = cls_timer_for_disabling_slave s"
    by (auto dest: spec)
  have "fsm_round now (Some r) CLS_SLAVE_EVENT_CYCLIC_NEW_MASTER s = Returns (CLS_SLAVE_EVENT_CYCLIC_CORRECT_MASTER,
      emit_if (cfg_state_cb (cls_config s')) (State_Callback CLS_SLAVE_STATE_MASTER_CONTROL) s')"
    by (rule fsm_round_leave [OF _ _ exit_action [OF inv(1)],
          where act = "Some Handle_New_Or_Updated_Master" and ?s2.0 = s' and ?e3.0 = CLS_SLAVE_EVENT_NONE])
      (use inv st False s' in \<open>auto simp: base_inv_tables initial_matrix_table initial_entry_exit_table run_opt_def\<close>)
  then show ?thesis using s' st False inv by (auto simp: idle_inv_def busy_inv_def emit_if_eq)
qed

text \<open>The kinds of entries of the table.\<close>

lemma matrix_kinds:
  assumes "st \<notin> {CLS_SLAVE_STATE_SLAVE_DOWN, CLS_SLAVE_STATE_LAST}"
  shows "case initial_matrix st ev of (nx, act) \<Rightarrow>
    nx = st \<and> act = None \<or>
    nx = st \<and> act \<in> Some ` {Handle_Wrong_Stationcount, Handle_Wrong_Master, Handle_Incoming_When_Disabled, Handle_Cyclic_Event} \<or>
    ev = CLS_SLAVE_EVENT_CYCLIC_NEW_MASTER \<and> st \<in> {CLS_SLAVE_STATE_MASTER_NONE, CLS_SLAVE_STATE_MASTER_CONTROL} \<or>
    nx = CLS_SLAVE_STATE_MASTER_NONE \<and> st \<noteq> CLS_SLAVE_STATE_MASTER_NONE \<and>
      act \<in> {Some Log_Timeout_Master, Some Log_Ip_Addr_Updated, Some Log_Slave_Reenabled, Some Handle_Wrong_Stationcount} \<or>
    nx = CLS_SLAVE_STATE_SLAVE_DISABLED \<and> st \<in> {CLS_SLAVE_STATE_MASTER_NONE, CLS_SLAVE_STATE_WAIT_DISABLING_SLAVE} \<and>
      act \<in> {None, Some Log_Slave_Disabled, Some Log_Ip_Addr_Updated} \<or>
    st = CLS_SLAVE_STATE_MASTER_CONTROL \<and> ev = CLS_SLAVE_EVENT_DISABLE_SLAVE"
  using assms by (cases st; cases ev; simp add: initial_matrix_table)

lemma fsm_round_ok:
  assumes "event_enabled req ev s"
  shows "\<exists>ev' s'. fsm_round now req ev s = Returns (ev', s') \<and> cls_inv s' \<and>
    (ev' \<noteq> CLS_SLAVE_EVENT_NONE \<longrightarrow> event_enabled req ev' s' \<and> event_rank ev' < event_rank ev)"
proof -
  have inv: "base_inv s" "idle_inv s" and req: "request_valid req"
    using assms by (auto simp: event_enabled_def)
  have state: "cls_state s \<notin> {CLS_SLAVE_STATE_SLAVE_DOWN, CLS_SLAVE_STATE_LAST}"
    using inv by (simp add: base_inv_def)
  obtain nx act where m: "initial_matrix (cls_state s) ev = (nx, act)" by fastforce
  have busy: "nx = cls_state s \<Longrightarrow> busy_inv s"
    using assms m by (auto simp: event_enabled_def initial_matrix_table)
  from matrix_kinds [OF state, of ev] m consider
      (idle) "nx = cls_state s" "act = None"
    | (stay) "nx = cls_state s" "act \<in> Some ` {Handle_Wrong_Stationcount, Handle_Wrong_Master, Handle_Incoming_When_Disabled, Handle_Cyclic_Event}"
    | (connect) "ev = CLS_SLAVE_EVENT_CYCLIC_NEW_MASTER" "cls_state s \<in> {CLS_SLAVE_STATE_MASTER_NONE, CLS_SLAVE_STATE_MASTER_CONTROL}"
    | (none) "nx = CLS_SLAVE_STATE_MASTER_NONE" "cls_state s \<noteq> CLS_SLAVE_STATE_MASTER_NONE"
        "act \<in> {Some Log_Timeout_Master, Some Log_Ip_Addr_Updated, Some Log_Slave_Reenabled, Some Handle_Wrong_Stationcount}"
    | (disabled) "nx = CLS_SLAVE_STATE_SLAVE_DISABLED"
        "cls_state s \<in> {CLS_SLAVE_STATE_MASTER_NONE, CLS_SLAVE_STATE_WAIT_DISABLING_SLAVE}"
        "act \<in> {None, Some Log_Slave_Disabled, Some Log_Ip_Addr_Updated}"
    | (disabling) "cls_state s = CLS_SLAVE_STATE_MASTER_CONTROL" "ev = CLS_SLAVE_EVENT_DISABLE_SLAVE"
    unfolding m prod.case by blast
  then show ?thesis
  proof cases
    case idle
    then show ?thesis using fsm_round_idle inv m busy by (simp add: base_inv_tables cls_inv_def)
  next
    case stay
    then obtain a s' where s': "act = Some a" "run_opt act now req s = Returns (CLS_SLAVE_EVENT_NONE, s')"
        "base_inv s'" "same_conn s s'"
      using stay_actions_ok [OF inv(1) req, of act now] by auto
    have "fsm_round now req ev s = Returns (CLS_SLAVE_EVENT_NONE, s')"
      by (rule fsm_round_stay [of s ev a]) (use stay(1) m s' inv in \<open>simp_all add: base_inv_tables run_opt_def same_conn_def\<close>)
    then show ?thesis using s' inv busy stay(1) by (simp add: cls_inv_def same_conn_inv)
  next
    case connect
    then obtain r where r: "req = Some r" "request_ok r"
      using assms by (auto simp: event_enabled_def request_valid_def)
    from round_connect [OF inv r(2) connect(2), of now] r(1) connect(1) req show ?thesis
      by (auto simp: cls_inv_def event_enabled_def event_rank_def)
  next
    case none
    have "\<exists>t'. run_opt act now req t = Returns (CLS_SLAVE_EVENT_NONE, t') \<and> base_inv t' \<and> same_conn t t'"
      if "base_inv t" for t using stay_actions_ok [OF that req, of act] none(3) by auto
    from round_to_master_none [OF inv(1) m [unfolded none(1)] none(2) this] show ?thesis
      by (auto simp: cls_inv_def busy_inv_def)
  next
    case disabled
    have "run_opt act now req t = Returns (CLS_SLAVE_EVENT_NONE, t)" for t
      using disabled(3) by (auto simp: run_opt_def)
    from round_to_disabled [OF inv m [unfolded disabled(1)] disabled(2) this] show ?thesis
      by (auto simp: cls_inv_def busy_inv_def)
  next
    case disabling
    from round_to_wait_disabling [OF inv(1) disabling, of now req] show ?thesis by (auto simp: cls_inv_def)
  qed
qed

interpretation slave_fsm: event_machine "fsm_round now req" CLS_SLAVE_EVENT_NONE "event_enabled req" cls_inv event_rank
  for now req
  by unfold_locales (use fsm_round_ok in blast)

lemma fsm_event_ok:
  assumes "event_enabled req ev s" "ev \<noteq> CLS_SLAVE_EVENT_LAST"
  shows "\<exists>s'. cls_iefb_fsm_event now req ev s = Returns s' \<and> cls_inv s'"
  using slave_fsm.loop_returns [OF assms(1), of fsm_fuel now] assms(2)
  by (simp add: cls_iefb_fsm_event_def fsm_fuel_def event_rank_def)

lemma fsm_event_inv:
  assumes "cls_inv s" "request_valid req" "ev = CLS_SLAVE_EVENT_CYCLIC_NEW_MASTER \<longrightarrow> req \<noteq> None"
  shows "\<exists>s'. cls_iefb_fsm_event now req ev s = Returns s' \<and> cls_inv s'"
  using assms fsm_event_ok [of req ev s now]
  by (cases "ev = CLS_SLAVE_EVENT_LAST") (auto simp: cls_iefb_fsm_event_def event_enabled_def cls_inv_def)

section \<open>Operations keep the invariant\<close>

lemma request_valid_simps [simp]:
  "request_valid None" "request_valid (Some r) = request_ok r"
  by (simp_all add: request_valid_def)

lemma cls_inv_limiters [simp]:
  "cls_inv (s\<lparr>cls_loglimiter := l\<rparr>) = cls_inv s"
  "cls_inv (s\<lparr>cls_errorlimiter := l\<rparr>) = cls_inv s"
  "cls_inv (s\<lparr>cls_out := q\<rparr>) = cls_inv s"
  by (simp_all add: cls_inv_def idle_inv_def busy_inv_def)

lemma cls_inv_station [simp]:
  "cls_inv (s\<lparr>cls_master := (cls_master s)\<lparr>ma_slave_station_no := n\<rparr>\<rparr>) = cls_inv s"
  by (simp add: cls_inv_def idle_inv_def busy_inv_def)

lemma fire_ok:
  assumes "cls_inv s" "request_ok r"
  shows "\<exists>s'. obind (cls_iefb_fsm_event now (Some r) ev s) (\<lambda>s. Returns (True, s)) = Returns (True, s') \<and> cls_inv s'"
  using fsm_event_inv [OF assms(1), of "Some r" ev now] assms(2) by auto

lemma search_slave_parameters_ok:
  assumes "cls_inv s" "request_ok r"
  shows "\<exists>b s'. cls_iefb_search_slave_parameters now r s = Returns (b, s') \<and> cls_inv s'"
proof -
  have f: "\<exists>b s'. obind (cls_iefb_fsm_event now (Some r) ev t) (\<lambda>s. Returns (True, s)) = Returns (b, s') \<and> cls_inv s'"
    if "cls_inv t" for ev t using fire_ok [OF that assms(2)] by blast
  show ?thesis
    unfolding cls_iefb_search_slave_parameters_def Let_def
    using assms(1) by (auto simp: helper_eqs split: option.split intro!: f)
qed

lemma cyclic_input_frame_ok:
  assumes "cls_inv s"
  shows "\<exists>b s'. cls_iefb_handle_cyclic_input_frame now bs ip port my s = Returns (b, s') \<and> cls_inv s'"
proof (cases "my = 0")
  case True
  then show ?thesis using assms by (auto simp: cls_iefb_handle_cyclic_input_frame_def CL_IPADDR_INVALID_def)
next
  case False
  obtain p where p: "cl_iefb_parse_cyclic_request bs ip port my = Returns p"
    using parse_request_returns by blast
  show ?thesis
  proof (cases p)
    case None
    then show ?thesis using assms p False
      by (auto simp: cls_iefb_handle_cyclic_input_frame_def CL_IPADDR_INVALID_def)
  next
    case (Some r)
    then have r: "request_ok r" using p False unfolding request_ok_def by blast
    have f: "\<exists>b s'. obind (cls_iefb_fsm_event now (Some r) ev s) (\<lambda>s. Returns (True, s)) = Returns (b, s') \<and> cls_inv s'"
      for ev using fire_ok [OF assms r] by blast
    show ?thesis
      unfolding cls_iefb_handle_cyclic_input_frame_def p Some Let_def
      using assms by (auto split: option.split intro!: f search_slave_parameters_ok r)
  qed
qed

lemma input_frame_ok:
  assumes "cls_inv s"
  shows "\<exists>b s'. cls_iefb_handle_input_frame now bs ip port my s = Returns (b, s') \<and> cls_inv s'"
  unfolding cls_iefb_handle_input_frame_def
  using assms cyclic_input_frame_ok by (auto split: option.split)

lemma timeout_master_ok:
  assumes "cls_inv s" "cl_timer_is_expired (cls_receive_timer s) now"
  shows "\<exists>s'. cls_iefb_fsm_event now None CLS_SLAVE_EVENT_TIMEOUT_MASTER
      (s\<lparr>cls_receive_timer := cl_timer_stop (cls_receive_timer s)\<rparr>) = Returns s' \<and> cls_inv s'"
proof (rule fsm_event_ok)
  have "cls_state s = CLS_SLAVE_STATE_MASTER_CONTROL"
    using assms tm.expired_running by (auto simp: cls_inv_def idle_inv_def)
  then show "event_enabled None CLS_SLAVE_EVENT_TIMEOUT_MASTER
      (s\<lparr>cls_receive_timer := cl_timer_stop (cls_receive_timer s)\<rparr>)"
    using assms(1) by (simp add: event_enabled_def cls_inv_def idle_inv_def)
qed simp

lemma wait_ended_ok:
  assumes "cls_inv s" "cl_timer_is_expired (cls_timer_for_disabling_slave s) now"
  shows "\<exists>s'. cls_iefb_fsm_event now None CLS_SLAVE_EVENT_DISABLE_SLAVE_WAIT_ENDED
      (s\<lparr>cls_timer_for_disabling_slave := cl_timer_stop (cls_timer_for_disabling_slave s)\<rparr>) = Returns s' \<and> cls_inv s'"
proof (rule fsm_event_ok)
  have "cls_state s = CLS_SLAVE_STATE_WAIT_DISABLING_SLAVE"
    using assms tm.expired_running by (auto simp: cls_inv_def idle_inv_def)
  then show "event_enabled None CLS_SLAVE_EVENT_DISABLE_SLAVE_WAIT_ENDED
      (s\<lparr>cls_timer_for_disabling_slave := cl_timer_stop (cls_timer_for_disabling_slave s)\<rparr>)"
    using assms(1) by (simp add: event_enabled_def cls_inv_def idle_inv_def)
qed simp

lemma obind_chain:
  "\<exists>s. r = Returns s \<and> P s \<Longrightarrow> (\<And>s. P s \<Longrightarrow> \<exists>t. f s = Returns t \<and> Q t) \<Longrightarrow> \<exists>t. obind r f = Returns t \<and> Q t"
  by auto

lemma periodic_ok:
  assumes "cls_inv s"
  shows "\<exists>s'. cls_iefb_periodic now rcv s = Returns s' \<and> cls_inv s'"
  unfolding cls_iefb_periodic_def
proof (intro obind_chain [where P = cls_inv])
  have "\<exists>t. obind (cls_iefb_handle_input_frame now bs ip port my s) (\<lambda>(_, s). Returns s) = Returns t \<and> cls_inv t"
    for bs ip port my using input_frame_ok [OF assms, of now bs ip port my] by auto
  then show "\<exists>t. (case rcv of Some (buffer, remote_ip, remote_port, slave_ip_addr) \<Rightarrow>
      if length buffer > 0 then obind (cls_iefb_handle_input_frame now buffer remote_ip remote_port slave_ip_addr s)
        (\<lambda>(_, s). Returns s) else Returns s | None \<Rightarrow> Returns s) = Returns t \<and> cls_inv t"
    using assms by (auto split: option.split)
qed (auto simp: timeout_master_ok wait_ended_ok)

lemma disable_slave_ok:
  assumes "cls_inv s" shows "\<exists>s'. cls_iefb_disable_slave now e s = Returns s' \<and> cls_inv s'"
  unfolding cls_iefb_disable_slave_def
  by (rule fsm_event_inv) (use assms in \<open>auto simp: inv_defs\<close>)

lemma reenable_slave_ok:
  assumes "cls_inv s" shows "\<exists>s'. cls_iefb_reenable_slave now s = Returns s' \<and> cls_inv s'"
  unfolding cls_iefb_reenable_slave_def by (rule fsm_event_inv) (use assms in auto)

text \<open>Start-up from any content of the struct, once the configuration has been checked.\<close>

lemma slave_init_ok:
  assumes "config_inv s"
  shows "\<exists>s'. cls_iefb_slave_init s = Returns s' \<and> frames_inv s' \<and> config_inv s' \<and>
    cls_endcode_slave_disabled s' = CL_SLMP_ENDCODE_CCIEFB_SLAVE_REQUESTS_DISCONNECT \<and>
    cls_slave_application_status s' = 1 \<and> cls_state s' = cls_state s \<and>
    cls_fsm_matrix s' = cls_fsm_matrix s \<and> cls_fsm_on_entry_exit s' = cls_fsm_on_entry_exit s"
proof -
  let ?n = "cfg_num_occupied_stations (cls_config s)" and ?c = "cls_config s"
  have "59 + 72 * ?n \<le> CL_BUFFER_LEN" using assms by (simp add: config_inv_def CL_BUFFER_LEN_def)
  from initialise_response_frame_ok [OF this, of "cfg_vendor_code ?c" "cfg_model_code ?c" "cfg_equipment_ver ?c"]
  obtain f where f: "cl_iefb_initialise_cyclic_response_frame CL_BUFFER_LEN ?n (cfg_vendor_code ?c)
      (cfg_model_code ?c) (cfg_equipment_ver ?c) = Returns f" "response_frame_wf f ?n"
      "length (sr_buffer f) = CL_BUFFER_LEN" by blast
  then show ?thesis
    using assms by (simp add: cls_iefb_slave_init_def Let_def cls_iefb_clear_master_info_def helper_eqs
        frames_inv_def config_inv_def CL_SLAVE_APPL_OPERATION_STATUS_OPERATING_def)
qed

lemma fsm_init_ok:
  assumes "config_inv s"
  shows "\<exists>s'. cls_fsm_init now s = Returns s' \<and> cls_inv s' \<and> cls_state s' = CLS_SLAVE_STATE_MASTER_NONE"
proof -
  let ?s = "s\<lparr>cls_fsm_matrix := initial_matrix, cls_fsm_on_entry_exit := initial_entry_exit,
    cls_state := CLS_SLAVE_STATE_SLAVE_DOWN\<rparr>"
  let ?t = "?s\<lparr>cls_state := CLS_SLAVE_STATE_MASTER_NONE\<rparr>"
  have "config_inv ?t" using assms by (simp add: config_inv_def)
  from slave_init_ok [OF this] obtain u where u: "cls_iefb_slave_init ?t = Returns u" "frames_inv u" "config_inv u"
      "cls_endcode_slave_disabled u = CL_SLMP_ENDCODE_CCIEFB_SLAVE_REQUESTS_DISCONNECT"
      "cls_slave_application_status u = 1" "cls_state u = CLS_SLAVE_STATE_MASTER_NONE"
      "cls_fsm_matrix u = initial_matrix" "cls_fsm_on_entry_exit u = initial_entry_exit" by auto
  then have b: "base_inv u" by (simp add: base_inv_def)
  let ?v = "cls_iefb_clear_master_info u"
  have "fsm_round now None CLS_SLAVE_EVENT_STARTUP ?s = Returns (CLS_SLAVE_EVENT_NONE,
      emit_if (cfg_state_cb (cls_config ?v)) (State_Callback CLS_SLAVE_STATE_MASTER_NONE) ?v)"
    by (rule fsm_round_leave [where act = "Some Slave_Init" and ?s1.0 = ?s and ?s2.0 = u
          and ?e1.0 = CLS_SLAVE_EVENT_NONE and ?e3.0 = CLS_SLAVE_EVENT_NONE])
      (use u clear_master_info_ok [OF b] in \<open>simp_all add: initial_matrix_table initial_entry_exit_table
        run_opt_def no_event_def cls_iefb_on_entry_master_none_def\<close>)
  then show ?thesis
    using clear_master_info_ok [OF b] u(6)
    by (simp add: cls_fsm_init_def cls_iefb_fsm_event_def fsm_fuel_def eval_nat_numeral cls_inv_def
        idle_inv_def busy_inv_def emit_if_eq no_master_def CL_IPADDR_INVALID_def)
qed

lemma iefb_init_ok:
  assumes "config_inv s"
  shows "\<exists>s'. cls_iefb_init now True s = Returns (Some s') \<and> cls_inv s' \<and> cls_state s' = CLS_SLAVE_STATE_MASTER_NONE"
proof -
  have "config_inv (s\<lparr>cls_loglimiter := l, cls_errorlimiter := e\<rparr>)" for l e
    using assms by (simp add: config_inv_def)
  from fsm_init_ok [OF this, of now "cl_limiter_init CLS_CCIEFB_ERRORCALLBACK_RETRIGGER_PERIOD (cls_errorlimiter s)"
      "cl_limiter_init CLS_CCIEFB_LOGWARNING_RETRIGGER_PERIOD (cls_loglimiter s)"]
  show ?thesis by (auto simp: cls_iefb_init_def Let_def)
qed

end
