(* ===== verification/CLS_SLMP.thy ===== *)
theory CLS_SLMP
  imports CLS_IEFB CL_SLMP
begin

text \<open>
  SLMP in the slave (\<open>src/slave/cls_slmp.c\<close>): node search requests, which are answered after a delay
  derived from the MAC address, and requests to change the IP address.

  A function that returns 0 or -1 has a Boolean result, true for 0. The send buffer is filled
  completely before each transmission, so its contents are passed from the prepare functions to the
  send functions instead of being kept in the state. Reading a datagram from the socket gives an
  argument of \<open>cls_slmp_periodic\<close>.
\<close>

section \<open>Definitions\<close>

record cls_addr_info =
  ai_remote_ip :: u32
  ai_remote_port :: u16
  ai_local_ip :: u32
  ai_local_netmask :: u32
  ai_local_mac_address :: bytes
  ai_ifindex :: int

definition cls_slmp_schedule_node_search_response :: "cls \<Rightarrow> u32 \<Rightarrow> bytes \<Rightarrow> cls_addr_info \<Rightarrow> u16 \<Rightarrow> cls" where
  "cls_slmp_schedule_node_search_response cls now master_mac_address addr_info request_serial =
     (let delay = cl_slmp_calculate_node_search_delay (ai_local_mac_address addr_info);
          ns = cls_node_search_data cls
      in cls\<lparr>cls_node_search_data := ns\<lparr>
        ns_master_ip_addr := ai_remote_ip addr_info,
        ns_master_port := ai_remote_port addr_info,
        ns_request_serial := request_serial,
        ns_master_mac_address := cl_util_copy_mac (ns_master_mac_address ns) master_mac_address,
        ns_slave_ip_address := ai_local_ip addr_info,
        ns_slave_netmask := ai_local_netmask addr_info,
        ns_slave_mac_address := cl_util_copy_mac (ns_slave_mac_address ns) (ai_local_mac_address addr_info),
        ns_response_timer := cl_timer_start delay now (ns_response_timer ns)\<rparr>\<rparr>)"

definition cls_slmp_send_response :: "cl_os \<Rightarrow> u32 \<Rightarrow> u32 \<Rightarrow> u16 \<Rightarrow> bytes \<Rightarrow> nat \<Rightarrow> cls \<Rightarrow> bool \<times> cls" where
  "cls_slmp_send_response os local_ip remote_ip remote_port slmp_sendbuf response_len cls =
     (case cl_slmp_udp_send os (cls_slmp_send_socket cls) True slmp_sendbuf local_ip remote_ip remote_port response_len of
       (ok, socket, sent) \<Rightarrow>
         let cls = cls\<lparr>cls_slmp_send_socket := socket\<rparr>
         in (ok, case sent of None \<Rightarrow> cls | Some datagram \<Rightarrow> emit (Slmp_Response local_ip remote_ip remote_port datagram) cls))"

definition cls_slmp_handle_node_search_request :: "u32 \<Rightarrow> bytes \<Rightarrow> cls_addr_info \<Rightarrow> cls \<Rightarrow> bool \<times> cls" where
  "cls_slmp_handle_node_search_request now inputbuffer addr_info cls =
     (case cl_slmp_parse_node_search_request inputbuffer of
        None \<Rightarrow> (False, cls)
      | Some request \<Rightarrow>
        if \<not> cl_slmp_validate_node_search_request request then (False, cls)
        else let master_ip_addr = nsq_master_ip_addr request;
                 request_serial = slq_serial (nsq_header request);
                 master_mac_addr = cl_util_copy_mac_reverse (replicate 6 0) (nsq_master_mac_addr request)
          in if master_ip_addr \<noteq> ai_remote_ip addr_info then (False, cls)
          else let cls = emit_if (cfg_node_search_cb (cls_config cls)) (Node_Search_Callback master_mac_addr master_ip_addr) cls
            in (True, cls_slmp_schedule_node_search_response cls now master_mac_addr addr_info request_serial))"

definition broadcast_target :: "cls \<Rightarrow> u32 \<Rightarrow> u32 \<Rightarrow> u32" where
  "broadcast_target cls netmask ip_addr =
     (if cfg_use_slmp_directed_broadcast (cls_config cls) then cl_util_calc_broadcast_address netmask ip_addr
      else CL_IPADDR_LOCAL_BROADCAST)"

definition cls_slmp_send_node_search_response :: "cl_os \<Rightarrow> cls \<Rightarrow> (bool \<times> cls) outcome" where
  "cls_slmp_send_node_search_response os cls =
     (let ns = cls_node_search_data cls
      in if ns_master_ip_addr ns = CL_IPADDR_INVALID then Returns (False, cls)
      else obind (cl_slmp_prepare_node_search_response_frame CL_BUFFER_LEN
          (ns_master_mac_address ns) (ns_master_ip_addr ns)
          (ns_slave_mac_address ns) (ns_slave_ip_address ns) (ns_slave_netmask ns)
          CL_SLMP_NODE_SEARCH_RESP_SERVER_STATUS_NORMAL
          (cfg_vendor_code (cls_config cls)) (cfg_model_code (cls_config cls)) (cfg_equipment_ver (cls_config cls))
          (ns_request_serial ns))
        (\<lambda>slmp_sendbuf.
          let broadcast_address = broadcast_target cls (ns_slave_netmask ns) (ns_slave_ip_address ns)
          in Returns (cls_slmp_send_response os (ns_slave_ip_address ns) broadcast_address (ns_master_port ns)
               slmp_sendbuf sizeof_node_search_resp cls)))"

definition cls_slmp_handle_ipaddress_set_request :: "cl_os \<Rightarrow> bytes \<Rightarrow> cls_addr_info \<Rightarrow> cls \<Rightarrow> (bool \<times> cls) outcome" where
  "cls_slmp_handle_ipaddress_set_request os inputbuffer addr_info cls =
     (case cl_slmp_parse_set_ip_request inputbuffer of
        None \<Rightarrow> Returns (False, cls)
      | Some request \<Rightarrow>
        if \<not> cl_slmp_validate_set_ip_request request then Returns (False, cls)
        else let master_mac_addr = cl_util_copy_mac_reverse (replicate 6 0) (siq_master_mac_addr request);
                 destination_mac_addr = cl_util_copy_mac_reverse (replicate 6 0) (siq_slave_mac_addr request);
                 master_ip_addr = siq_master_ip_addr request;
                 new_ip_address = siq_slave_new_ip_addr request;
                 new_netmask = siq_slave_new_netmask request;
                 request_serial = slq_serial (siq_header request)
          in if destination_mac_addr \<noteq> ai_local_mac_address addr_info then Returns (True, cls)
          else if master_ip_addr \<noteq> ai_remote_ip addr_info then Returns (False, cls)
          else let allowed = cfg_ip_setting_allowed (cls_config cls);
                   successful = (allowed \<and> cl_eth_set_network_settings os (ai_ifindex addr_info) new_ip_address new_netmask);
                   cls = emit_if allowed (Set_Network_Settings (ai_ifindex addr_info) new_ip_address new_netmask) cls;
                   resulting_ip_address = (if successful then new_ip_address else ai_local_ip addr_info);
                   response_len = (if successful then sizeof_set_ipaddr_resp else sizeof_slmp_error_resp)
            in obind (if successful
                then cl_slmp_prepare_set_ip_response_frame CL_BUFFER_LEN master_mac_addr request_serial
                else cl_slmp_prepare_error_response_frame CL_BUFFER_LEN CL_SLMP_COMMAND_NODE_IPADDRESS_SET
                  CL_SLMP_SUBCOMMAND_NODE_IPADDRESS_SET CL_SLMP_ENDCODE_COMMAND_REQUEST_MSG request_serial)
              (\<lambda>slmp_sendbuf.
                let broadcast_address = broadcast_target cls new_netmask new_ip_address;
                    (send_result, cls) = cls_slmp_send_response os resulting_ip_address broadcast_address
                      (ai_remote_port addr_info) slmp_sendbuf response_len cls;
                    cls = emit_if (cfg_set_ip_cb (cls_config cls))
                      (Set_Ip_Callback master_mac_addr master_ip_addr new_ip_address new_netmask allowed (allowed \<and> successful)) cls
                in Returns (send_result, cls)))"

definition cls_slmp_handle_input_frame :: "cl_os \<Rightarrow> u32 \<Rightarrow> bytes \<Rightarrow> cls_addr_info \<Rightarrow> cls \<Rightarrow> (bool \<times> cls) outcome" where
  "cls_slmp_handle_input_frame os now buffer addr_info cls =
     (case cl_slmp_parse_request_header buffer of
        None \<Rightarrow> Returns (False, cls)
      | Some header \<Rightarrow>
        if \<not> cl_slmp_is_header_request header then Returns (False, cls)
        else if \<not> cl_slmp_validate_request_header header (length buffer) then Returns (False, cls)
        else let command = slq_command header; sub_command = slq_sub_command header
          in if command = CL_SLMP_COMMAND_NODE_SEARCH \<and> sub_command = CL_SLMP_SUBCOMMAND_NODE_SEARCH
             then Returns (cls_slmp_handle_node_search_request now buffer addr_info cls)
             else if command = CL_SLMP_COMMAND_NODE_IPADDRESS_SET \<and> sub_command = CL_SLMP_SUBCOMMAND_NODE_IPADDRESS_SET
             then cls_slmp_handle_ipaddress_set_request os buffer addr_info cls
             else Returns (False, cls))"

definition cls_slmp_periodic :: "cl_os \<Rightarrow> u32 \<Rightarrow> slmp_datagram option \<Rightarrow> cls \<Rightarrow> cls outcome" where
  "cls_slmp_periodic os now received cls =
     obind
       (if cl_timer_is_expired (ns_response_timer (cls_node_search_data cls)) now
        then let ns = cls_node_search_data cls;
                 cls = cls\<lparr>cls_node_search_data := ns\<lparr>ns_response_timer := cl_timer_stop (ns_response_timer ns)\<rparr>\<rparr>
          in obind (cls_slmp_send_node_search_response os cls) (\<lambda>(_, cls). Returns cls)
        else Returns cls)
       (\<lambda>cls. case received of
           None \<Rightarrow> Returns cls
         | Some d \<Rightarrow>
           if length (dg_data d) > 0
           then (case os_get_mac_address os (dg_ifindex d) of
               None \<Rightarrow> Returns cls
             | Some mac \<Rightarrow> (case os_get_netmask os (dg_ifindex d) of
                 None \<Rightarrow> Returns cls
               | Some netmask \<Rightarrow>
                   obind (cls_slmp_handle_input_frame os now (dg_data d)
                       \<lparr>ai_remote_ip = dg_remote_ip d, ai_remote_port = dg_remote_port d, ai_local_ip = dg_local_ip d,
                        ai_local_netmask = netmask, ai_local_mac_address = mac, ai_ifindex = dg_ifindex d\<rparr> cls)
                     (\<lambda>(_, cls). Returns cls)))
           else Returns cls)"

text \<open>\<open>clal_clear_memory\<close> makes every field zero; a timer of zero bytes is a stopped timer.\<close>

definition cleared_node_search :: cls_node_search where
  "cleared_node_search = \<lparr>
     ns_response_timer = \<lparr>tm_state = CL_TIMER_STOPPED, tm_period = 0, tm_timestamp = 0\<rparr>,
     ns_master_mac_address = replicate 6 0, ns_master_ip_addr = 0, ns_master_port = 0, ns_request_serial = 0,
     ns_slave_mac_address = replicate 6 0, ns_slave_ip_address = 0, ns_slave_netmask = 0\<rparr>"

definition cls_slmp_init :: "cl_os \<Rightarrow> cls \<Rightarrow> bool \<times> cls" where
  "cls_slmp_init os cls =
     (let ns = cleared_node_search;
          cls = cls\<lparr>cls_node_search_data := ns\<lparr>ns_response_timer := cl_timer_stop (ns_response_timer ns)\<rparr>\<rparr>;
          cls = cls\<lparr>cls_slmp_receive_socket := os_udp_open os CL_IPADDR_ANY CL_SLMP_PORT\<rparr>
      in if cls_slmp_receive_socket cls = - 1 then (False, cls)
      else (True, cls\<lparr>cls_slmp_send_socket := - 1\<rparr>))"

definition cls_slmp_exit :: "cls \<Rightarrow> cls" where
  "cls_slmp_exit cls = cls\<lparr>cls_slmp_receive_socket := - 1\<rparr>"

section \<open>Sending\<close>

text \<open>The separate socket is closed again in every case; the datagram goes out when it could be opened.\<close>

lemma emit_fields [simp]:
  "cls_config (emit_if b x s) = cls_config s" "cls_slmp_send_socket (emit_if b x s) = cls_slmp_send_socket s"
  "cls_node_search_data (emit_if b x s) = cls_node_search_data s"
  "cls_slmp_receive_socket (emit_if b x s) = cls_slmp_receive_socket s"
  "cls_out (emit_if b x s) = cls_out s @ (if b then [x] else [])"
  "cls_config (emit x s) = cls_config s" "cls_node_search_data (emit x s) = cls_node_search_data s"
  by (simp_all add: emit_if_def emit_def)

lemma send_response_eq:
  assumes "n \<le> length buf"
  shows "cls_slmp_send_response os l r p buf n s =
    (os_udp_open os l CL_SLMP_PORT \<noteq> - 1 \<and> os_udp_sendto os (os_udp_open os l CL_SLMP_PORT) r p (take n buf) = int n,
     emit_if (os_udp_open os l CL_SLMP_PORT \<noteq> - 1) (Slmp_Response l r p (take n buf)) (s\<lparr>cls_slmp_send_socket := - 1\<rparr>))"
  using assms by (auto simp: cls_slmp_send_response_def cl_slmp_udp_send_def Let_def emit_if_def)

section \<open>Node search\<close>

definition search_response :: "cls \<Rightarrow> bytes" where
  "search_response s = (let ns = cls_node_search_data s in enc_node_search_resp (node_search_response_frame
     (ns_master_mac_address ns) (ns_master_ip_addr ns) (ns_slave_mac_address ns) (ns_slave_ip_address ns)
     (ns_slave_netmask ns) CL_SLMP_NODE_SEARCH_RESP_SERVER_STATUS_NORMAL (cfg_vendor_code (cls_config s))
     (cfg_model_code (cls_config s)) (cfg_equipment_ver (cls_config s)) (ns_request_serial ns)))"

lemma length_search_response: "length (search_response s) = 66"
  unfolding search_response_def Let_def
  by (subst nsr.length_enc) (simp_all add: node_search_response_frame_def slmp_sizeof_defs)

lemma send_search_response_eq:
  assumes "ns_master_ip_addr (cls_node_search_data s) \<noteq> CL_IPADDR_INVALID"
  shows "\<exists>ok. cls_slmp_send_node_search_response os s = Returns (ok,
     emit_if (os_udp_open os (ns_slave_ip_address (cls_node_search_data s)) CL_SLMP_PORT \<noteq> - 1)
       (Slmp_Response (ns_slave_ip_address (cls_node_search_data s))
         (broadcast_target s (ns_slave_netmask (cls_node_search_data s)) (ns_slave_ip_address (cls_node_search_data s)))
         (ns_master_port (cls_node_search_data s)) (search_response s)) (s\<lparr>cls_slmp_send_socket := - 1\<rparr>))"
proof -
  have "take 66 (struct_in_buffer 1500 (search_response s)) = search_response s"
    by (rule take_struct_in_buffer) (simp_all add: length_search_response)
  then show ?thesis
    using assms length_struct_in_buffer [of "search_response s" 1500] length_search_response [of s]
    by (simp add: cls_slmp_send_node_search_response_def cl_slmp_prepare_node_search_response_frame_def
        CL_BUFFER_LEN_def slmp_sizeof_defs Let_def send_response_eq search_response_def)
qed

lemma send_search_response_invalid:
  "ns_master_ip_addr (cls_node_search_data s) = CL_IPADDR_INVALID \<Longrightarrow>
   cls_slmp_send_node_search_response os s = Returns (False, s)"
  by (simp add: cls_slmp_send_node_search_response_def)

section \<open>Setting the IP address\<close>

definition set_ip_done :: "cl_os \<Rightarrow> cls_addr_info \<Rightarrow> u32 \<Rightarrow> u32 \<Rightarrow> cls \<Rightarrow> bool" where
  "set_ip_done os ai nip nmask s \<longleftrightarrow> cfg_ip_setting_allowed (cls_config s) \<and>
     cl_eth_set_network_settings os (ai_ifindex ai) nip nmask"

definition set_ip_reply :: "bool \<Rightarrow> bytes \<Rightarrow> u16 \<Rightarrow> bytes" where
  "set_ip_reply ok mac serial = (if ok then enc_set_ipaddr_resp (set_ip_response_frame mac serial)
     else enc_slmp_error_resp (error_response_frame CL_SLMP_COMMAND_NODE_IPADDRESS_SET
       CL_SLMP_SUBCOMMAND_NODE_IPADDRESS_SET CL_SLMP_ENDCODE_COMMAND_REQUEST_MSG serial))"

definition set_ip_state :: "cl_os \<Rightarrow> cls_addr_info \<Rightarrow> bytes \<Rightarrow> u32 \<Rightarrow> u16 \<Rightarrow> u32 \<Rightarrow> u32 \<Rightarrow> cls \<Rightarrow> cls" where
  "set_ip_state os ai mac ip serial nip nmask s =
     (let allowed = cfg_ip_setting_allowed (cls_config s);
          ok = set_ip_done os ai nip nmask s;
          local_ip = (if ok then nip else ai_local_ip ai);
          s1 = (emit_if allowed (Set_Network_Settings (ai_ifindex ai) nip nmask) s)\<lparr>cls_slmp_send_socket := - 1\<rparr>;
          s2 = emit_if (os_udp_open os local_ip CL_SLMP_PORT \<noteq> - 1)
            (Slmp_Response local_ip (broadcast_target s nmask nip) (ai_remote_port ai) (set_ip_reply ok mac serial)) s1
      in emit_if (cfg_set_ip_cb (cls_config s)) (Set_Ip_Callback mac ip nip nmask allowed ok) s2)"

lemma length_set_ip_reply: "length (set_ip_reply ok mac serial) = (if ok then 21 else 24)"
  by (simp add: set_ip_reply_def sir.length_enc ser.length_enc set_ip_response_frame_def slmp_sizeof_defs)

lemma set_ip_buffer:
  "(if ok then cl_slmp_prepare_set_ip_response_frame CL_BUFFER_LEN mac serial
    else cl_slmp_prepare_error_response_frame CL_BUFFER_LEN CL_SLMP_COMMAND_NODE_IPADDRESS_SET
      CL_SLMP_SUBCOMMAND_NODE_IPADDRESS_SET CL_SLMP_ENDCODE_COMMAND_REQUEST_MSG serial) =
   Returns (struct_in_buffer 1500 (set_ip_reply ok mac serial))"
  by (simp add: cl_slmp_prepare_set_ip_response_frame_def cl_slmp_prepare_error_response_frame_def
      CL_BUFFER_LEN_def slmp_sizeof_defs set_ip_reply_def)

lemma set_ip_buffer_take:
  "n = (if ok then 21 else 24) \<Longrightarrow> take n (struct_in_buffer 1500 (set_ip_reply ok mac serial)) = set_ip_reply ok mac serial"
  "length (struct_in_buffer 1500 (set_ip_reply ok mac serial)) = 1500"
  using length_struct_in_buffer [of "set_ip_reply ok mac serial" 1500]
  by (simp_all add: take_struct_in_buffer length_set_ip_reply)

lemma set_ip_send:
  "cls_slmp_send_response os l t p (struct_in_buffer 1500 (set_ip_reply ok mac serial))
     (if ok then sizeof_set_ipaddr_resp else sizeof_slmp_error_resp) s =
   (os_udp_open os l CL_SLMP_PORT \<noteq> - 1 \<and> os_udp_sendto os (os_udp_open os l CL_SLMP_PORT) t p (set_ip_reply ok mac serial)
      = int (length (set_ip_reply ok mac serial)),
    emit_if (os_udp_open os l CL_SLMP_PORT \<noteq> - 1) (Slmp_Response l t p (set_ip_reply ok mac serial)) (s\<lparr>cls_slmp_send_socket := - 1\<rparr>))"
  by (subst send_response_eq) (simp_all add: set_ip_buffer_take slmp_sizeof_defs length_set_ip_reply)

lemma handle_set_ip_eq:
  assumes "cl_slmp_parse_set_ip_request bs = Some r" "cl_slmp_validate_set_ip_request r"
    and "cl_util_copy_mac_reverse (replicate 6 0) (siq_slave_mac_addr r) = ai_local_mac_address ai"
    and "siq_master_ip_addr r = ai_remote_ip ai"
  shows "\<exists>ok. cls_slmp_handle_ipaddress_set_request os bs ai s = Returns (ok, set_ip_state os ai
    (cl_util_copy_mac_reverse (replicate 6 0) (siq_master_mac_addr r)) (ai_remote_ip ai) (slq_serial (siq_header r))
    (siq_slave_new_ip_addr r) (siq_slave_new_netmask r) s)"
proof -
  define mac where "mac = cl_util_copy_mac_reverse (replicate 6 0) (siq_master_mac_addr r)"
  define ok where "ok = set_ip_done os ai (siq_slave_new_ip_addr r) (siq_slave_new_netmask r) s"
  have allowed: "(cfg_ip_setting_allowed (cls_config s) \<and> ok) = ok" by (auto simp: ok_def set_ip_done_def)
  show ?thesis
    unfolding cls_slmp_handle_ipaddress_set_request_def assms(1) option.case Let_def
      set_ip_done_def [symmetric] ok_def [symmetric] mac_def [symmetric] set_ip_buffer obind_simps set_ip_send prod.case allowed
    using assms(2-4) by (simp add: set_ip_state_def Let_def ok_def broadcast_target_def)
qed


section \<open>What an input frame does\<close>

lemma request_header_ok:
  "cl_slmp_parse_request_header bs = Some h \<Longrightarrow> cl_slmp_validate_request_header h (length bs) \<Longrightarrow>
   slmp_request_ok bs (slq_serial h) (slq_command h) (slq_sub_command h)"
  unfolding slmp_request_ok_def by (auto simp: cl_slmp_validate_request_header_def split: if_splits)

lemma request_frame_header:
  "cl_slmp_parse_request_header bs = Some h \<Longrightarrow> cl_slmp_parse_node_search_request bs = Some r \<Longrightarrow> nsq_header r = h"
  "cl_slmp_parse_request_header bs = Some h \<Longrightarrow> cl_slmp_parse_set_ip_request bs = Some q \<Longrightarrow> siq_header q = h"
  by (auto simp: cl_slmp_parse_request_header_def cl_slmp_parse_node_search_request_def
      cl_slmp_parse_set_ip_request_def split: if_splits)

definition search_scheduled :: "u32 \<Rightarrow> cls_addr_info \<Rightarrow> bytes \<Rightarrow> u16 \<Rightarrow> cls \<Rightarrow> cls" where
  "search_scheduled now ai mac serial s =
     cls_slmp_schedule_node_search_response
       (emit_if (cfg_node_search_cb (cls_config s)) (Node_Search_Callback mac (ai_remote_ip ai)) s) now mac ai serial"

lemma input_frame_cases:
  obtains (ignored) ok where "cls_slmp_handle_input_frame os now bs ai s = Returns (ok, s)"
  | (search) mac serial where "length mac = 6" "ai_remote_ip ai \<noteq> CL_IPADDR_INVALID"
      "bs = enc_node_search_request (node_search_request_frame mac (ai_remote_ip ai) serial)"
      "cls_slmp_handle_input_frame os now bs ai s = Returns (True, search_scheduled now ai mac serial s)"
  | (set_ip) mac serial nip nmask ok where "length mac = 6" "length (ai_local_mac_address ai) = 6"
      "ai_remote_ip ai \<noteq> CL_IPADDR_INVALID" "nip \<noteq> CL_IPADDR_INVALID" "cl_utils_is_netmask_valid nmask"
      "bs = enc_set_ipaddr_request (set_ip_request_frame mac (ai_remote_ip ai) serial (ai_local_mac_address ai) nip nmask)"
      "cls_slmp_handle_input_frame os now bs ai s = Returns (ok, set_ip_state os ai mac (ai_remote_ip ai) serial nip nmask s)"
proof -
  let ?h = "cls_slmp_handle_input_frame os now bs ai s"
  consider (no) ok where "?h = Returns (ok, s)"
    | (s) h where "cl_slmp_parse_request_header bs = Some h" "cl_slmp_validate_request_header h (length bs)"
      "slq_command h = CL_SLMP_COMMAND_NODE_SEARCH" "slq_sub_command h = CL_SLMP_SUBCOMMAND_NODE_SEARCH"
      "?h = Returns (cls_slmp_handle_node_search_request now bs ai s)"
    | (i) h where "cl_slmp_parse_request_header bs = Some h" "cl_slmp_validate_request_header h (length bs)"
      "slq_command h = CL_SLMP_COMMAND_NODE_IPADDRESS_SET" "slq_sub_command h = CL_SLMP_SUBCOMMAND_NODE_IPADDRESS_SET"
      "?h = cls_slmp_handle_ipaddress_set_request os bs ai s"
  proof (cases "cl_slmp_parse_request_header bs")
    case None
    then have "?h = Returns (False, s)" by (simp add: cls_slmp_handle_input_frame_def)
    then show ?thesis by (rule no)
  next
    case (Some h)
    have req: "cl_slmp_is_header_request h" if "cl_slmp_validate_request_header h (length bs)"
      using that by (auto simp: cl_slmp_validate_request_header_def split: if_splits)
    have differ: "CL_SLMP_COMMAND_NODE_IPADDRESS_SET \<noteq> CL_SLMP_COMMAND_NODE_SEARCH" by (simp add: slmp_consts)
    note h = cls_slmp_handle_input_frame_def Let_def Some req differ
    consider "cl_slmp_validate_request_header h (length bs)" "slq_command h = CL_SLMP_COMMAND_NODE_SEARCH"
        "slq_sub_command h = CL_SLMP_SUBCOMMAND_NODE_SEARCH"
      | "cl_slmp_validate_request_header h (length bs)" "slq_command h = CL_SLMP_COMMAND_NODE_IPADDRESS_SET"
        "slq_sub_command h = CL_SLMP_SUBCOMMAND_NODE_IPADDRESS_SET"
      | "?h = Returns (False, s)"
      by (cases "cl_slmp_is_header_request h"; cases "cl_slmp_validate_request_header h (length bs)";
          cases "slq_command h = CL_SLMP_COMMAND_NODE_SEARCH \<and> slq_sub_command h = CL_SLMP_SUBCOMMAND_NODE_SEARCH";
          cases "slq_command h = CL_SLMP_COMMAND_NODE_IPADDRESS_SET \<and> slq_sub_command h = CL_SLMP_SUBCOMMAND_NODE_IPADDRESS_SET")
        (auto simp add: h)
    then show ?thesis
    proof cases
      case 1 then show ?thesis using Some by (intro s) (simp_all add: h)
    next
      case 2 then show ?thesis using Some by (intro i) (simp_all add: h)
    next
      case 3 then show ?thesis by (rule no)
    qed
  qed
  then show thesis
  proof cases
    case no then show ?thesis by (rule ignored)
  next
    case s
    show ?thesis
    proof (cases "\<exists>r. cl_slmp_parse_node_search_request bs = Some r \<and> cl_slmp_validate_node_search_request r \<and>
        nsq_master_ip_addr r = ai_remote_ip ai")
      case True
      then obtain r where r: "cl_slmp_parse_node_search_request bs = Some r" "cl_slmp_validate_node_search_request r"
        "nsq_master_ip_addr r = ai_remote_ip ai" by blast
      define mac where "mac = cl_util_copy_mac_reverse (replicate 6 0) (nsq_master_mac_addr r)"
      have "slmp_request_ok bs (slq_serial h) CL_SLMP_COMMAND_NODE_SEARCH CL_SLMP_SUBCOMMAND_NODE_SEARCH"
        using request_header_ok [OF s(1,2)] by (simp add: s(3,4))
      then have "length mac = 6" "ai_remote_ip ai \<noteq> CL_IPADDR_INVALID"
        "bs = enc_node_search_request (node_search_request_frame mac (ai_remote_ip ai) (slq_serial h))"
        using node_search_request_accepted [of bs "slq_serial h" mac "ai_remote_ip ai"] r mac_def by blast+
      moreover have "?h = Returns (True, search_scheduled now ai mac (slq_serial h) s)"
        using r s(5) request_frame_header(1) [OF s(1) r(1)]
        by (simp add: cls_slmp_handle_node_search_request_def Let_def search_scheduled_def mac_def)
      ultimately show ?thesis by (rule search)
    next
      case False
      then have "cls_slmp_handle_node_search_request now bs ai s = (False, s)"
        by (auto simp: cls_slmp_handle_node_search_request_def Let_def split: option.splits)
      then have "?h = Returns (False, s)" using s(5) by simp
      then show ?thesis by (rule ignored)
    qed
  next
    case i
    show ?thesis
    proof (cases "\<exists>r. cl_slmp_parse_set_ip_request bs = Some r \<and> cl_slmp_validate_set_ip_request r \<and>
        cl_util_copy_mac_reverse (replicate 6 0) (siq_slave_mac_addr r) = ai_local_mac_address ai \<and>
        siq_master_ip_addr r = ai_remote_ip ai")
      case True
      then obtain r where r: "cl_slmp_parse_set_ip_request bs = Some r" "cl_slmp_validate_set_ip_request r"
        "cl_util_copy_mac_reverse (replicate 6 0) (siq_slave_mac_addr r) = ai_local_mac_address ai"
        "siq_master_ip_addr r = ai_remote_ip ai" by blast
      define mac where "mac = cl_util_copy_mac_reverse (replicate 6 0) (siq_master_mac_addr r)"
      have ok: "slmp_request_ok bs (slq_serial h) CL_SLMP_COMMAND_NODE_IPADDRESS_SET CL_SLMP_SUBCOMMAND_NODE_IPADDRESS_SET"
        using request_header_ok [OF i(1,2)] by (simp add: i(3,4))
      obtain res where res: "?h = Returns (res, set_ip_state os ai mac (ai_remote_ip ai) (slq_serial h)
          (siq_slave_new_ip_addr r) (siq_slave_new_netmask r) s)"
        using handle_set_ip_eq [OF r] i(5) request_frame_header(2) [OF i(1) r(1)] by (auto simp: mac_def)
      show ?thesis
        using set_ip_request_accepted [of bs "slq_serial h" mac "ai_remote_ip ai" "ai_local_mac_address ai"
            "siq_slave_new_ip_addr r" "siq_slave_new_netmask r"] ok r mac_def
        by (intro set_ip [OF _ _ _ _ _ _ res]) blast+
    next
      case False
      then have "\<exists>ok. cls_slmp_handle_ipaddress_set_request os bs ai s = Returns (ok, s)"
        unfolding cls_slmp_handle_ipaddress_set_request_def
        by (cases "cl_slmp_parse_set_ip_request bs") (auto simp: Let_def)
      then show ?thesis using i(5) ignored by auto
    qed
  qed
qed

section \<open>Requests are answered\<close>

lemma search_request_handled:
  assumes "length mac = 6" "ai_remote_ip ai \<noteq> CL_IPADDR_INVALID"
    and bs: "bs = enc_node_search_request (node_search_request_frame mac (ai_remote_ip ai) serial)"
  shows "cls_slmp_handle_input_frame os now bs ai s = Returns (True, search_scheduled now ai mac serial s)"
proof -
  obtain h r where "cl_slmp_parse_request_header bs = Some h" "cl_slmp_is_header_request h"
      "cl_slmp_validate_request_header h (length bs)" "slq_serial h = serial"
      "slq_command h = CL_SLMP_COMMAND_NODE_SEARCH" "slq_sub_command h = CL_SLMP_SUBCOMMAND_NODE_SEARCH"
    and r: "cl_slmp_parse_node_search_request bs = Some r" "cl_slmp_validate_node_search_request r"
      "cl_util_copy_mac_reverse (replicate 6 0) (nsq_master_mac_addr r) = mac" "nsq_master_ip_addr r = ai_remote_ip ai"
    using node_search_request_accepted [of bs serial mac "ai_remote_ip ai"] assms unfolding slmp_request_ok_def by blast
  moreover from this have "nsq_header r = h" by (metis request_frame_header(1))
  ultimately show ?thesis
    by (simp add: cls_slmp_handle_input_frame_def cls_slmp_handle_node_search_request_def Let_def search_scheduled_def)
qed

lemma set_ip_request_handled:
  assumes "length mac = 6" "length (ai_local_mac_address ai) = 6" "ai_remote_ip ai \<noteq> CL_IPADDR_INVALID"
    and "nip \<noteq> CL_IPADDR_INVALID" "cl_utils_is_netmask_valid nmask"
    and bs: "bs = enc_set_ipaddr_request (set_ip_request_frame mac (ai_remote_ip ai) serial (ai_local_mac_address ai) nip nmask)"
  shows "\<exists>ok. cls_slmp_handle_input_frame os now bs ai s =
    Returns (ok, set_ip_state os ai mac (ai_remote_ip ai) serial nip nmask s)"
proof -
  obtain h r where h: "cl_slmp_parse_request_header bs = Some h" "cl_slmp_is_header_request h"
      "cl_slmp_validate_request_header h (length bs)" "slq_serial h = serial"
      "slq_command h = CL_SLMP_COMMAND_NODE_IPADDRESS_SET" "slq_sub_command h = CL_SLMP_SUBCOMMAND_NODE_IPADDRESS_SET"
    and r: "cl_slmp_parse_set_ip_request bs = Some r" "cl_slmp_validate_set_ip_request r"
      "cl_util_copy_mac_reverse (replicate 6 0) (siq_slave_mac_addr r) = ai_local_mac_address ai"
      "siq_master_ip_addr r = ai_remote_ip ai"
    and q: "cl_util_copy_mac_reverse (replicate 6 0) (siq_master_mac_addr r) = mac"
      "siq_slave_new_ip_addr r = nip" "siq_slave_new_netmask r = nmask"
    using set_ip_request_accepted [of bs serial mac "ai_remote_ip ai" "ai_local_mac_address ai" nip nmask] assms
    unfolding slmp_request_ok_def by blast
  have "siq_header r = h" using h(1) r(1) by (rule request_frame_header)
  then have "cls_slmp_handle_input_frame os now bs ai s = cls_slmp_handle_ipaddress_set_request os bs ai s"
    using h by (simp add: cls_slmp_handle_input_frame_def Let_def slmp_consts)
  then show ?thesis using handle_set_ip_eq [OF r, of os s] h q \<open>siq_header r = h\<close> by simp
qed

text \<open>A request for another slave is not answered.\<close>

lemma set_ip_request_for_other:
  assumes "length mac = 6" "length smac = 6" "smac \<noteq> ai_local_mac_address ai" "ip \<noteq> CL_IPADDR_INVALID"
    and "nip \<noteq> CL_IPADDR_INVALID" "cl_utils_is_netmask_valid nmask"
    and bs: "bs = enc_set_ipaddr_request (set_ip_request_frame mac ip serial smac nip nmask)"
  shows "cls_slmp_handle_input_frame os now bs ai s = Returns (True, s)"
proof -
  obtain h r where h: "cl_slmp_parse_request_header bs = Some h" "cl_slmp_is_header_request h"
      "cl_slmp_validate_request_header h (length bs)" "slq_serial h = serial"
      "slq_command h = CL_SLMP_COMMAND_NODE_IPADDRESS_SET" "slq_sub_command h = CL_SLMP_SUBCOMMAND_NODE_IPADDRESS_SET"
    and r: "cl_slmp_parse_set_ip_request bs = Some r" "cl_slmp_validate_set_ip_request r"
      "cl_util_copy_mac_reverse (replicate 6 0) (siq_slave_mac_addr r) = smac"
    using set_ip_request_accepted [of bs serial mac ip smac nip nmask] assms
    unfolding slmp_request_ok_def by blast
  then have "cls_slmp_handle_input_frame os now bs ai s = cls_slmp_handle_ipaddress_set_request os bs ai s"
    by (simp add: cls_slmp_handle_input_frame_def Let_def slmp_consts)
  then show ?thesis using r assms(3) by (simp add: cls_slmp_handle_ipaddress_set_request_def Let_def)
qed

section \<open>The state of a node search\<close>

text \<open>
  The stored addresses have their size, and a response is only pending towards a valid master address.
\<close>

definition slmp_wf :: "cls_node_search \<Rightarrow> bool" where
  "slmp_wf ns \<longleftrightarrow> length (ns_master_mac_address ns) = 6 \<and> length (ns_slave_mac_address ns) = 6 \<and>
     (cl_timer_is_running (ns_response_timer ns) \<longrightarrow> ns_master_ip_addr ns \<noteq> CL_IPADDR_INVALID)"

text \<open>Only the SLMP part of the slave changes, and nothing is taken back from the trace.\<close>

fun slmp_output :: "cls_output \<Rightarrow> bool" where
  "slmp_output (Node_Search_Callback mac ip) = True"
| "slmp_output (Set_Ip_Callback mac ip nip nmask allowed done_it) = True"
| "slmp_output (Set_Network_Settings ifindex ip nmask) = True"
| "slmp_output (Slmp_Response ip dest port bs) = True"
| "slmp_output _ = False"

definition slmp_only :: "cls \<Rightarrow> cls \<Rightarrow> bool" where
  "slmp_only s s' \<longleftrightarrow> (\<exists>ns sock outs. s' = s\<lparr>cls_node_search_data := ns, cls_slmp_send_socket := sock, cls_out := cls_out s @ outs\<rparr> \<and>
     list_all slmp_output outs)"

lemma slmp_onlyI:
  "s' = s\<lparr>cls_node_search_data := ns, cls_slmp_send_socket := sock, cls_out := cls_out s @ outs\<rparr> \<Longrightarrow>
   list_all slmp_output outs \<Longrightarrow> slmp_only s s'"
  unfolding slmp_only_def by blast

lemma slmp_only_refl [simp]: "slmp_only s s"
  by (rule slmp_onlyI [where ns = "cls_node_search_data s" and sock = "cls_slmp_send_socket s" and outs = "[]"]) simp_all

lemma slmp_only_trans: "slmp_only s s' \<Longrightarrow> slmp_only s' s'' \<Longrightarrow> slmp_only s s''"
  unfolding slmp_only_def by fastforce

lemma slmp_only_emit: "slmp_output x \<Longrightarrow> slmp_only s (emit x s)" "slmp_output x \<Longrightarrow> slmp_only s (emit_if b x s)"
  by (auto simp: emit_if_def emit_def intro: slmp_onlyI [where ns = "cls_node_search_data s" and sock = "cls_slmp_send_socket s" and outs = "[x]"])

lemma slmp_only_upd:
  "slmp_only s (s\<lparr>cls_node_search_data := ns\<rparr>)" "slmp_only s (s\<lparr>cls_slmp_send_socket := sock\<rparr>)"
  by (rule slmp_onlyI [where ns = ns and sock = "cls_slmp_send_socket s" and outs = "[]"], simp_all)
    (rule slmp_onlyI [where ns = "cls_node_search_data s" and sock = sock and outs = "[]"], simp_all)

lemmas slmp_only_steps = slmp_only_emit slmp_only_upd

lemma search_scheduled_fields:
  assumes "length mac = 6" "length (ai_local_mac_address ai) = 6" "slmp_wf (cls_node_search_data s)"
  shows "cls_node_search_data (search_scheduled now ai mac serial s) = \<lparr>
     ns_response_timer = cl_timer_start (cl_slmp_calculate_node_search_delay (ai_local_mac_address ai)) now
       (ns_response_timer (cls_node_search_data s)),
     ns_master_mac_address = mac, ns_master_ip_addr = ai_remote_ip ai, ns_master_port = ai_remote_port ai,
     ns_request_serial = serial, ns_slave_mac_address = ai_local_mac_address ai,
     ns_slave_ip_address = ai_local_ip ai, ns_slave_netmask = ai_local_netmask ai\<rparr>"
  using assms by (simp add: search_scheduled_def cls_slmp_schedule_node_search_response_def Let_def copy_mac_eq slmp_wf_def)

lemma search_scheduled_only: "slmp_only s (search_scheduled now ai mac serial s)"
  unfolding search_scheduled_def cls_slmp_schedule_node_search_response_def Let_def
  by (rule slmp_only_trans [OF slmp_only_emit(2) slmp_only_upd(1)]) simp

lemma set_ip_state_only: "slmp_only s (set_ip_state os ai mac ip serial nip nmask s)"
  unfolding set_ip_state_def Let_def
  by (intro slmp_only_trans [OF _ slmp_only_emit(2)] slmp_only_trans [OF _ slmp_only_upd(2)] slmp_only_refl) simp_all

lemma set_ip_state_search [simp]:
  "cls_node_search_data (set_ip_state os ai mac ip serial nip nmask s) = cls_node_search_data s"
  "cls_slmp_send_socket (set_ip_state os ai mac ip serial nip nmask s) = - 1"
  by (simp_all add: set_ip_state_def Let_def)

section \<open>The periodic function\<close>

definition response_step :: "cl_os \<Rightarrow> u32 \<Rightarrow> cls \<Rightarrow> cls outcome" where
  "response_step os now s =
     (if cl_timer_is_expired (ns_response_timer (cls_node_search_data s)) now
      then let ns = cls_node_search_data s;
               s = s\<lparr>cls_node_search_data := ns\<lparr>ns_response_timer := cl_timer_stop (ns_response_timer ns)\<rparr>\<rparr>
        in obind (cls_slmp_send_node_search_response os s) (\<lambda>(_, s). Returns s)
      else Returns s)"

definition receive_step :: "cl_os \<Rightarrow> u32 \<Rightarrow> slmp_datagram option \<Rightarrow> cls \<Rightarrow> cls outcome" where
  "receive_step os now received s = (case received of
      None \<Rightarrow> Returns s
    | Some d \<Rightarrow>
        if length (dg_data d) > 0
        then (case os_get_mac_address os (dg_ifindex d) of
            None \<Rightarrow> Returns s
          | Some mac \<Rightarrow> (case os_get_netmask os (dg_ifindex d) of
              None \<Rightarrow> Returns s
            | Some netmask \<Rightarrow>
                obind (cls_slmp_handle_input_frame os now (dg_data d)
                    \<lparr>ai_remote_ip = dg_remote_ip d, ai_remote_port = dg_remote_port d, ai_local_ip = dg_local_ip d,
                     ai_local_netmask = netmask, ai_local_mac_address = mac, ai_ifindex = dg_ifindex d\<rparr> s)
                  (\<lambda>(_, s). Returns s)))
        else Returns s)"

lemma periodic_steps: "cls_slmp_periodic os now received s = obind (response_step os now s) (receive_step os now received)"
  unfolding cls_slmp_periodic_def response_step_def receive_step_def Let_def ..

definition search_answered :: "cl_os \<Rightarrow> cls \<Rightarrow> cls" where
  "search_answered os s = (let ns = cls_node_search_data s;
       s' = s\<lparr>cls_node_search_data := ns\<lparr>ns_response_timer := cl_timer_stop (ns_response_timer ns)\<rparr>, cls_slmp_send_socket := - 1\<rparr>
     in emit_if (os_udp_open os (ns_slave_ip_address ns) CL_SLMP_PORT \<noteq> - 1)
       (Slmp_Response (ns_slave_ip_address ns) (broadcast_target s (ns_slave_netmask ns) (ns_slave_ip_address ns))
         (ns_master_port ns) (search_response s)) s')"

lemma response_step_eq:
  assumes "slmp_wf (cls_node_search_data s)"
  shows "response_step os now s = Returns
    (if cl_timer_is_expired (ns_response_timer (cls_node_search_data s)) now then search_answered os s else s)"
proof (cases "cl_timer_is_expired (ns_response_timer (cls_node_search_data s)) now")
  case True
  define s' where "s' = s\<lparr>cls_node_search_data := cls_node_search_data s
    \<lparr>ns_response_timer := cl_timer_stop (ns_response_timer (cls_node_search_data s))\<rparr>\<rparr>"
  have "ns_master_ip_addr (cls_node_search_data s') \<noteq> CL_IPADDR_INVALID"
    using expired_imp_running [OF True] assms by (simp add: slmp_wf_def s'_def)
  from send_search_response_eq [OF this, of os] obtain ok where
    r: "cls_slmp_send_node_search_response os s' = Returns (ok,
     emit_if (os_udp_open os (ns_slave_ip_address (cls_node_search_data s')) CL_SLMP_PORT \<noteq> - 1)
       (Slmp_Response (ns_slave_ip_address (cls_node_search_data s'))
         (broadcast_target s' (ns_slave_netmask (cls_node_search_data s')) (ns_slave_ip_address (cls_node_search_data s')))
         (ns_master_port (cls_node_search_data s')) (search_response s')) (s'\<lparr>cls_slmp_send_socket := - 1\<rparr>))" by blast
  have "response_step os now s = obind (cls_slmp_send_node_search_response os s') (\<lambda>(_, s). Returns s)"
    using True by (simp add: response_step_def s'_def Let_def)
  then show ?thesis
    using True unfolding r by (simp add: search_answered_def Let_def s'_def search_response_def broadcast_target_def)
next
  case False then show ?thesis by (simp add: response_step_def)
qed


text \<open>The operating system delivers MAC addresses of six bytes.\<close>

definition os_wf :: "cl_os \<Rightarrow> bool" where
  "os_wf os \<longleftrightarrow> (\<forall>i mac. os_get_mac_address os i = Some mac \<longrightarrow> length mac = 6)"

definition addr_info_of :: "slmp_datagram \<Rightarrow> bytes \<Rightarrow> u32 \<Rightarrow> cls_addr_info" where
  "addr_info_of d mac netmask = \<lparr>ai_remote_ip = dg_remote_ip d, ai_remote_port = dg_remote_port d, ai_local_ip = dg_local_ip d,
     ai_local_netmask = netmask, ai_local_mac_address = mac, ai_ifindex = dg_ifindex d\<rparr>"

lemma addr_info_sel [simp]:
  "ai_remote_ip (addr_info_of d m n) = dg_remote_ip d" "ai_remote_port (addr_info_of d m n) = dg_remote_port d"
  "ai_local_ip (addr_info_of d m n) = dg_local_ip d" "ai_local_netmask (addr_info_of d m n) = n"
  "ai_local_mac_address (addr_info_of d m n) = m" "ai_ifindex (addr_info_of d m n) = dg_ifindex d"
  by (simp_all add: addr_info_of_def)

text \<open>A received datagram is a search request, a request to set the address of this slave, or has no effect.\<close>

lemma receive_step_cases:
  obtains (ignored) "receive_step os now rc s = Returns s"
  | (search) d m n mac serial where "rc = Some d" "os_get_mac_address os (dg_ifindex d) = Some m"
      "os_get_netmask os (dg_ifindex d) = Some n" "length mac = 6" "dg_remote_ip d \<noteq> CL_IPADDR_INVALID"
      "dg_data d = enc_node_search_request (node_search_request_frame mac (dg_remote_ip d) serial)"
      "receive_step os now rc s = Returns (search_scheduled now (addr_info_of d m n) mac serial s)"
  | (set_ip) d m n mac serial nip nmask where "rc = Some d" "os_get_mac_address os (dg_ifindex d) = Some m"
      "os_get_netmask os (dg_ifindex d) = Some n" "length mac = 6" "length m = 6" "dg_remote_ip d \<noteq> CL_IPADDR_INVALID"
      "nip \<noteq> CL_IPADDR_INVALID" "cl_utils_is_netmask_valid nmask"
      "dg_data d = enc_set_ipaddr_request (set_ip_request_frame mac (dg_remote_ip d) serial m nip nmask)"
      "receive_step os now rc s = Returns (set_ip_state os (addr_info_of d m n) mac (dg_remote_ip d) serial nip nmask s)"
proof (cases "\<exists>d m n. rc = Some d \<and> length (dg_data d) > 0 \<and> os_get_mac_address os (dg_ifindex d) = Some m \<and>
    os_get_netmask os (dg_ifindex d) = Some n")
  case True
  then obtain d m n where d: "rc = Some d" "os_get_mac_address os (dg_ifindex d) = Some m"
      "os_get_netmask os (dg_ifindex d) = Some n" and "length (dg_data d) > 0" by blast
  then have eq: "receive_step os now rc s =
      obind (cls_slmp_handle_input_frame os now (dg_data d) (addr_info_of d m n) s) (\<lambda>(_, s). Returns s)"
    by (simp add: receive_step_def addr_info_of_def)
  show thesis
  proof (cases rule: input_frame_cases [where os = os and now = now and bs = "dg_data d" and ai = "addr_info_of d m n" and s = s])
    case (ignored ok) then show thesis using that(1) eq by simp
  next
    case (search mac serial)
    then show thesis using d eq by (intro that(2) [of d m n mac serial]) simp_all
  next
    case (set_ip mac serial nip nmask ok)
    then show thesis using d eq by (intro that(3) [of d m n mac nip nmask serial]) simp_all
  qed
next
  case False
  then have "receive_step os now rc s = Returns s" by (auto simp: receive_step_def split: option.split)
  then show thesis by (rule that(1))
qed

lemma search_answered_props:
  "slmp_only s (search_answered os s)" "cls_slmp_send_socket (search_answered os s) = - 1"
  "slmp_wf (cls_node_search_data s) \<Longrightarrow> slmp_wf (cls_node_search_data (search_answered os s))"
  "cls_config (search_answered os s) = cls_config s"
proof -
  show "slmp_only s (search_answered os s)"
    unfolding search_answered_def Let_def
    by (rule slmp_only_trans [OF _ slmp_only_emit(2)], rule slmp_only_trans [OF slmp_only_upd(1) slmp_only_upd(2)]) simp
qed (simp_all add: search_answered_def Let_def slmp_wf_def cl_timer_stop_def cl_timer_is_running_def)

lemma receive_step_props:
  assumes "slmp_wf (cls_node_search_data s)" and "os_wf os" and "cls_slmp_send_socket s = - 1"
  shows "\<exists>s'. receive_step os now rc s = Returns s' \<and> slmp_only s s' \<and> slmp_wf (cls_node_search_data s') \<and>
    cls_slmp_send_socket s' = - 1"
proof (cases rule: receive_step_cases [where os = os and now = now and rc = rc and s = s])
  case ignored then show ?thesis using assms by simp
next
  case (search d m n mac serial)
  have "length m = 6" using search(2) assms(2) by (simp add: os_wf_def)
  then have "slmp_wf (cls_node_search_data (search_scheduled now (addr_info_of d m n) mac serial s))"
    using search assms by (simp add: search_scheduled_fields) (simp add: slmp_wf_def)
  moreover have "cls_slmp_send_socket (search_scheduled now (addr_info_of d m n) mac serial s) = - 1"
    using assms(3) by (simp add: search_scheduled_def cls_slmp_schedule_node_search_response_def Let_def)
  ultimately show ?thesis using search search_scheduled_only by auto
next
  case (set_ip d m n mac serial nip nmask)
  then show ?thesis using assms set_ip_state_only by auto
qed

lemma slmp_periodic_invariant:
  assumes "slmp_wf (cls_node_search_data s)" and "os_wf os" and "cls_slmp_send_socket s = - 1"
  shows "\<exists>s'. cls_slmp_periodic os now rc s = Returns s' \<and> slmp_only s s' \<and> slmp_wf (cls_node_search_data s') \<and>
    cls_slmp_send_socket s' = - 1"
proof -
  define t where "t = (if cl_timer_is_expired (ns_response_timer (cls_node_search_data s)) now then search_answered os s else s)"
  have t: "slmp_only s t" "slmp_wf (cls_node_search_data t)" "cls_slmp_send_socket t = - 1"
    using assms search_answered_props [where s = s and os = os] by (auto simp: t_def)
  obtain s' where "receive_step os now rc t = Returns s'" "slmp_only t s'" "slmp_wf (cls_node_search_data s')"
      "cls_slmp_send_socket s' = - 1"
    using receive_step_props [OF t(2) assms(2) t(3)] by blast
  then show ?thesis
    using response_step_eq [OF assms(1), of os now] slmp_only_trans [OF t(1)] by (auto simp: periodic_steps t_def [symmetric])
qed

lemma slmp_init_ok:
  "cls_slmp_init os s = (ok, s') \<Longrightarrow> slmp_wf (cls_node_search_data s') \<and> (ok \<longrightarrow> cls_slmp_send_socket s' = - 1) \<and>
     \<not> cl_timer_is_running (ns_response_timer (cls_node_search_data s'))"
  by (auto simp: cls_slmp_init_def Let_def cleared_node_search_def slmp_wf_def cl_timer_stop_def cl_timer_is_running_def split: if_splits)

text \<open>The periodic function returns from every state, and only changes the SLMP part of the slave.\<close>

lemma response_step_only: "\<exists>s'. response_step os now s = Returns s' \<and> slmp_only s s'"
proof (cases "cl_timer_is_expired (ns_response_timer (cls_node_search_data s)) now")
  case True
  define t where "t = s\<lparr>cls_node_search_data := cls_node_search_data s
    \<lparr>ns_response_timer := cl_timer_stop (ns_response_timer (cls_node_search_data s))\<rparr>\<rparr>"
  have eq: "response_step os now s = obind (cls_slmp_send_node_search_response os t) (\<lambda>(_, s). Returns s)"
    using True by (simp add: response_step_def t_def Let_def)
  have t: "slmp_only s t" unfolding t_def by (rule slmp_only_upd)
  show ?thesis
  proof (cases "ns_master_ip_addr (cls_node_search_data t) = CL_IPADDR_INVALID")
    case True then show ?thesis using eq t by (simp add: send_search_response_invalid)
  next
    case False
    obtain ok b x where "cls_slmp_send_node_search_response os t = Returns (ok, emit_if b x (t\<lparr>cls_slmp_send_socket := - 1\<rparr>))"
      and x: "slmp_output x"
      using send_search_response_eq [OF False, of os] slmp_output.simps(4) by blast
    moreover have "slmp_only s (emit_if b x (t\<lparr>cls_slmp_send_socket := - 1\<rparr>))"
      by (rule slmp_only_trans [OF _ slmp_only_emit(2)], rule slmp_only_trans [OF t slmp_only_upd(2)]) (rule x)
    ultimately show ?thesis using eq by simp
  qed
qed (simp add: response_step_def)

lemma slmp_periodic_returns: "\<exists>s'. cls_slmp_periodic os now rc s = Returns s' \<and> slmp_only s s'"
proof -
  obtain t where t: "response_step os now s = Returns t" "slmp_only s t" using response_step_only by blast
  have "\<exists>s'. receive_step os now rc t = Returns s' \<and> slmp_only t s'"
    by (cases rule: receive_step_cases [where os = os and now = now and rc = rc and s = t])
      (auto simp: search_scheduled_only set_ip_state_only)
  then show ?thesis using t slmp_only_trans by (auto simp: periodic_steps)
qed

text \<open>The answer to a search: nothing before the delay is over, then the response, once.\<close>

lemma search_pending_until_delay:
  assumes wf: "slmp_wf (cls_node_search_data s)" and "length mac = 6" "length (ai_local_mac_address ai) = 6"
    and "ai_remote_ip ai \<noteq> CL_IPADDR_INVALID"
    and t: "t = search_scheduled now ai mac serial s"
  shows "slmp_wf (cls_node_search_data t)"
    "unat (now' - now) < unat (cl_slmp_calculate_node_search_delay (ai_local_mac_address ai)) \<Longrightarrow>
       cls_slmp_periodic os now' None t = Returns t"
    "unat (cl_slmp_calculate_node_search_delay (ai_local_mac_address ai)) \<le> unat (now' - now) \<Longrightarrow> unat (now' - now) < 2 ^ 31 \<Longrightarrow>
       cls_slmp_periodic os now' None t = Returns (search_answered os t)"
proof -
  have f: "cls_node_search_data t = \<lparr>
     ns_response_timer = cl_timer_start (cl_slmp_calculate_node_search_delay (ai_local_mac_address ai)) now
       (ns_response_timer (cls_node_search_data s)),
     ns_master_mac_address = mac, ns_master_ip_addr = ai_remote_ip ai, ns_master_port = ai_remote_port ai,
     ns_request_serial = serial, ns_slave_mac_address = ai_local_mac_address ai,
     ns_slave_ip_address = ai_local_ip ai, ns_slave_netmask = ai_local_netmask ai\<rparr>"
    unfolding t by (rule search_scheduled_fields [OF assms(2,3) wf])
  show wft: "slmp_wf (cls_node_search_data t)" using assms f by (simp add: slmp_wf_def)
  have p: "cls_slmp_periodic os now' None t = Returns
      (if cl_timer_is_expired (ns_response_timer (cls_node_search_data t)) now' then search_answered os t else t)"
    unfolding periodic_steps response_step_eq [OF wft] by (simp add: receive_step_def)
  have "cl_timer_is_expired (ns_response_timer (cls_node_search_data t)) now' \<longleftrightarrow>
      unat (now' - now) < 2 ^ 31 \<and> unat (cl_slmp_calculate_node_search_delay (ai_local_mac_address ai)) \<le> unat (now' - now)"
    by (auto simp: f expired_start_iff word_le_nat_alt)
  then show "unat (now' - now) < unat (cl_slmp_calculate_node_search_delay (ai_local_mac_address ai)) \<Longrightarrow>
       cls_slmp_periodic os now' None t = Returns t"
    "unat (cl_slmp_calculate_node_search_delay (ai_local_mac_address ai)) \<le> unat (now' - now) \<Longrightarrow> unat (now' - now) < 2 ^ 31 \<Longrightarrow>
       cls_slmp_periodic os now' None t = Returns (search_answered os t)"
    unfolding p by (simp_all add: not_less)
qed

end
