(* ===== verification/CLS_Behaviour.thy ===== *)
theory CLS_Behaviour
  imports CLS_SLMP
begin

text \<open>
  What the slave does: the cyclic data accessors as instances of \<open>signal_area\<close>, the effect of a request
  of the connected master, of another master and of a first master, the loss of the master, and the
  slaves that can be reached by any sequence of operations.
\<close>

section \<open>Outgoing data: RX bits and RWr registers\<close>

lemma set_rx_bit_eq:
  "cls_iefb_set_rx_bit i v s =
     (if unat i div 64 < cfg_num_occupied_stations (cls_config s)
      then Returns (s\<lparr>cls_resp_frame_normal := (cls_resp_frame_normal s)\<lparr>sr_buffer :=
        (sr_buffer (cls_resp_frame_normal s))
          [sr_first_rx (cls_resp_frame_normal s) + unat i div 8 :=
             change_bit v (push_bit (unat i mod 8) 1)
               (sr_buffer (cls_resp_frame_normal s) ! (sr_first_rx (cls_resp_frame_normal s) + unat i div 8))]\<rparr>\<rparr>)
      else Assert_Failed)"
proof -
  obtain area byte m where a: "cl_iefb_bit_calculate_areanumber i = (area, byte, m)" by (metis prod_cases3)
  note p = bit_position [OF a] bit_area_number(1) [OF a]
  show ?thesis
    unfolding cls_iefb_set_rx_bit_def a Let_def prod.case cl_iefb_get_rx_area_def add.assoc p(1,2)
    unfolding p(3)
    by (simp add: cc_assert_def)
qed

lemma get_rx_bit_eq:
  "cls_iefb_get_rx_bit i s =
     (if unat i div 64 < cfg_num_occupied_stations (cls_config s)
      then Returns (sr_buffer (cls_resp_frame_normal s) ! (sr_first_rx (cls_resp_frame_normal s) + unat i div 8)
             AND push_bit (unat i mod 8) 1 > 0)
      else Assert_Failed)"
proof -
  obtain area byte m where a: "cl_iefb_bit_calculate_areanumber i = (area, byte, m)" by (metis prod_cases3)
  note p = bit_position [OF a] bit_area_number(1) [OF a]
  show ?thesis
    unfolding cls_iefb_get_rx_bit_def a Let_def prod.case cl_iefb_get_rx_area_def add.assoc p(1,2)
    unfolding p(3)
    by (simp add: cc_assert_def)
qed

lemma set_rwr_value_eq:
  "cls_iefb_set_rwr_value i v s =
     (if unat i div 32 < cfg_num_occupied_stations (cls_config s)
      then Returns (s\<lparr>cls_resp_frame_normal := (cls_resp_frame_normal s)\<lparr>sr_buffer :=
        put_bytes (sr_buffer (cls_resp_frame_normal s)) (sr_first_rwr (cls_resp_frame_normal s) + 2 * unat i)
          (le16_bytes v)\<rparr>\<rparr>)
      else Assert_Failed)"
proof -
  obtain area reg where a: "cl_iefb_register_calculate_areanumber i = (area, reg)" by fastforce
  note p = register_position [OF a] register_area_number(1) [OF a]
  show ?thesis
    unfolding cls_iefb_set_rwr_value_def a Let_def prod.case cl_iefb_get_rwr_area_def add.assoc p(1)
    unfolding p(2)
    by (simp add: cc_assert_def)
qed

lemma get_rwr_value_eq:
  "cls_iefb_get_rwr_value i s =
     (if unat i div 32 < cfg_num_occupied_stations (cls_config s)
      then Returns (le16_at (sr_buffer (cls_resp_frame_normal s)) (sr_first_rwr (cls_resp_frame_normal s) + 2 * unat i))
      else Assert_Failed)"
proof -
  obtain area reg where a: "cl_iefb_register_calculate_areanumber i = (area, reg)" by fastforce
  note p = register_position [OF a] register_area_number(1) [OF a]
  show ?thesis
    unfolding cls_iefb_get_rwr_value_def a Let_def prod.case cl_iefb_get_rwr_area_def add.assoc p(1)
    unfolding p(2)
    by (simp add: cc_assert_def)
qed

lemma cls_inv_frame_update:
  assumes "cls_inv s" "length buf = length (sr_buffer (cls_resp_frame_normal s))"
    and "take 59 buf = take 59 (sr_buffer (cls_resp_frame_normal s))"
  shows "cls_inv (s\<lparr>cls_resp_frame_normal := (cls_resp_frame_normal s)\<lparr>sr_buffer := buf\<rparr>\<rparr>)"
  using assms response_frame_wf_data [OF _ assms(2,3)] by (simp add: inv_defs)

lemma first_positions:
  assumes "cls_inv s"
  shows "59 \<le> sr_first_rx (cls_resp_frame_normal s)" "sr_first_rwr (cls_resp_frame_normal s) = 59"
  using assms by (simp_all add: inv_defs response_frame_wf_def)

lemma rx_position_bound:
  assumes "cls_inv s" "unat i div 64 < cfg_num_occupied_stations (cls_config s)"
  shows "sr_first_rx (cls_resp_frame_normal s) + unat i div 8 < length (sr_buffer (cls_resp_frame_normal s))"
proof -
  have "unat i div 8 < 8 * cfg_num_occupied_stations (cls_config s)"
    using assms(2) by (simp add: div_less_iff_less_mult)
  then show ?thesis using assms(1) by (simp add: inv_defs response_frame_wf_def)
qed

lemma rwr_position_bound:
  assumes "cls_inv s" "unat i div 32 < cfg_num_occupied_stations (cls_config s)"
  shows "sr_first_rwr (cls_resp_frame_normal s) + 2 * unat i + 2 \<le> length (sr_buffer (cls_resp_frame_normal s))"
proof -
  have "2 * unat i + 2 \<le> 64 * cfg_num_occupied_stations (cls_config s)"
    using assms(2) by (simp add: div_less_iff_less_mult)
  then show ?thesis using assms(1) by (simp add: inv_defs response_frame_wf_def)
qed

definition rx_valid :: "u16 \<Rightarrow> cls \<Rightarrow> bool" where
  "rx_valid i s \<longleftrightarrow> unat i < 64 * cfg_num_occupied_stations (cls_config s)"

definition rwr_valid :: "u16 \<Rightarrow> cls \<Rightarrow> bool" where
  "rwr_valid i s \<longleftrightarrow> unat i < 32 * cfg_num_occupied_stations (cls_config s)"

lemma valid_area:
  "rx_valid i s \<longleftrightarrow> unat i div 64 < cfg_num_occupied_stations (cls_config s)"
  "rwr_valid i s \<longleftrightarrow> unat i div 32 < cfg_num_occupied_stations (cls_config s)"
  by (simp_all add: rx_valid_def rwr_valid_def div_less_iff_less_mult mult.commute)

interpretation rx: signal_area cls_iefb_get_rx_bit cls_iefb_set_rx_bit rx_valid cls_inv
proof
  fix s i j v s'
  assume *: "cls_inv s" "rx_valid i s" "rx_valid j s" "cls_iefb_set_rx_bit i v s = Returns s'"
  note b = rx_position_bound [OF *(1) *(2) [unfolded valid_area]]
  show "cls_iefb_get_rx_bit j s' = (if j = i then Returns v else cls_iefb_get_rx_bit j s)"
    using * changed_bit_buffer [OF b, of v j]
      bit_single [of "sr_buffer (cls_resp_frame_normal s) ! (sr_first_rx (cls_resp_frame_normal s) + unat j div 8)" "unat j mod 8"]
    by (auto simp: set_rx_bit_eq get_rx_bit_eq valid_area simp del: push_bit_of_1)
next
  fix s i v
  assume "cls_inv s" "rx_valid i s"
  then show "\<exists>s'. cls_iefb_set_rx_bit i v s = Returns s' \<and> cls_inv s' \<and> (\<forall>j. rx_valid j s' = rx_valid j s)"
    using first_positions [of s]
    by (auto simp: set_rx_bit_eq valid_area intro!: cls_inv_frame_update)
qed (auto simp: set_rx_bit_eq get_rx_bit_eq valid_area)

interpretation rwr: signal_area cls_iefb_get_rwr_value cls_iefb_set_rwr_value rwr_valid cls_inv
proof
  fix s i j v s'
  assume *: "cls_inv s" "rwr_valid i s" "rwr_valid j s" "cls_iefb_set_rwr_value i v s = Returns s'"
  note b = rwr_position_bound [OF *(1) *(2) [unfolded valid_area]] rwr_position_bound [OF *(1) *(3) [unfolded valid_area]]
  show "cls_iefb_get_rwr_value j s' = (if j = i then Returns v else cls_iefb_get_rwr_value j s)"
    using * changed_register_buffer [OF b, of v] by (auto simp: set_rwr_value_eq get_rwr_value_eq valid_area)
next
  fix s i v
  assume *: "cls_inv s" "rwr_valid i s"
  note b = rwr_position_bound [OF *(1) *(2) [unfolded valid_area]]
  show "\<exists>s'. cls_iefb_set_rwr_value i v s = Returns s' \<and> cls_inv s' \<and> (\<forall>j. rwr_valid j s' = rwr_valid j s)"
    using * b first_positions [OF *(1)]
    by (auto simp: set_rwr_value_eq valid_area take_put_bytes_before intro!: cls_inv_frame_update)
qed (auto simp: set_rwr_value_eq get_rwr_value_eq valid_area)

section \<open>Responses reach the master\<close>

lemma sent_response_parses:
  assumes f: "response_frame_wf f n" "1 \<le> n" "n \<le> 16" and g: "1 \<le> unat g" "unat g \<le> 64"
    and my: "my \<noteq> 0" and ui: "ui \<in> {0, 1}"
    and f': "f' = cl_iefb_update_cyclic_response_frame f my ec g sqn ui err man"
  shows "\<exists>rp. cl_iefb_parse_cyclic_response (take (sr_udp_payload_len f') (sr_buffer f')) my port now = Returns (Some rp) \<and>
    rp_number_of_occupied rp = n \<and> csh_end_code (sf_cyclic_header (rp_full_headers rp)) = ec \<and>
    sdh_frame_sequence_no (sf_cyclic_data_header (rp_full_headers rp)) = sqn \<and>
    sdh_group_no (sf_cyclic_data_header (rp_full_headers rp)) = ucast (g AND 0xFF) \<and>
    drop 59 (rp_buffer rp) = take (72 * n) (drop 59 (sr_buffer f)) \<and> length (rp_buffer rp) = 59 + 72 * n \<and>
    rp_first_rwr rp = 59 \<and> rp_first_rx rp = 59 + 64 * n \<and> rp_remote_ip rp = my \<and>
    (\<exists>h. cl_iefb_parse_response_header (take (sr_udp_payload_len f') (sr_buffer f')) = Some h \<and>
       cl_iefb_validate_response_header h (59 + 72 * n)) \<and> sr_udp_payload_len f' = 59 + 72 * n"
proof -
  note u = update_response_frame_ok [OF f(1) f']
  let ?bs = "take (sr_udp_payload_len f') (sr_buffer f')"
  let ?h = "dec_resp_full_headers (sr_buffer f') 0"
  have len: "sr_udp_payload_len f' = 59 + 72 * n" "59 + 72 * n \<le> length (sr_buffer f')"
    using u(1) by (simp_all add: response_frame_wf_def)
  have h: "dec_resp_full_headers ?bs 0 = ?h"
    using sf.dec_take [of 0 "59 + 72 * n" "sr_buffer f'"] len by (simp add: sizeof_defs)
  obtain v m e a1 a2 a3 a4 a5 a6 a7 where "dec_resp_full_headers (sr_buffer f) 0 =
      updated_response_headers (initial_response_headers (59 + 72 * n) v m e) a1 a2 a3 a4 a5 a6 a7"
    using f(1) by (auto simp: response_frame_wf_def response_headers_ok_def)
  then have hu: "?h = updated_response_headers (initial_response_headers (59 + 72 * n) v m e) my ec g sqn ui err man"
    by (simp add: u(3) updated_response_headers_twice)
  have "cl_iefb_validate_resp_full_cyclic_headers ?h (59 + 72 * n) my"
    unfolding hu using f g my ui by (intro initial_response_valid) auto
  moreover have "cl_iefb_parse_response_header ?bs = Some (sf_resp_header ?h)"
    using h len by (simp add: cl_iefb_parse_response_header_def sizeof_defs dec_resp_full_headers_def Let_def)
  moreover have "(of_nat (59 + 72 * n) :: u16) - 9 = of_nat (50 + 72 * n)" by simp
  then have "cl_iefb_validate_response_header (sf_resp_header ?h) (59 + 72 * n)"
    using f(3) unat_of_nat_u16 [of "50 + 72 * n"]
    by (simp add: hu updated_response_headers_def initial_response_headers_def cl_iefb_validate_response_header_def
        CL_CCIEFB_DL_OFFSET_def del: of_nat_add of_nat_mult)
  moreover have "drop 59 ?bs = take (72 * n) (drop 59 (sr_buffer f))"
    by (simp add: len drop_take u(4))
  ultimately show ?thesis
    using parse_valid_response [of ?bs n ?h my port now] len f(2,3) h
    by (simp add: hu updated_response_headers_def)
qed

section \<open>Incoming data: RY bits and RWw registers\<close>

lemma get_ry_bit_eq:
  "cls_iefb_get_ry_bit i s =
     (if rx_valid i s then Returns (bit (cls_ry s ! (unat i div 8)) (unat i mod 8)) else Assert_Failed)"
proof -
  obtain area byte m where a: "cl_iefb_bit_calculate_areanumber i = (area, byte, m)" by (metis prod_cases3)
  note p = bit_position [OF a] bit_area_number(1) [OF a]
  show ?thesis
    unfolding cls_iefb_get_ry_bit_def a Let_def prod.case p(1,2) bit_single
    unfolding p(3) by (simp add: cc_assert_def valid_area)
qed

lemma get_rww_value_eq:
  "cls_iefb_get_rww_value i s =
     (if rwr_valid i s then Returns (le16_at (cls_rww s) (2 * unat i)) else Assert_Failed)"
proof -
  obtain area reg where a: "cl_iefb_register_calculate_areanumber i = (area, reg)" by fastforce
  note p = register_position [OF a] register_area_number(1) [OF a]
  show ?thesis
    unfolding cls_iefb_get_rww_value_def a Let_def prod.case p(1)
    unfolding p(2) by (simp add: cc_assert_def valid_area)
qed

text \<open>The part of a request that belongs to a slave with \<open>k\<close> stations from station \<open>n\<close> on.\<close>

definition station_fits :: "cls_request \<Rightarrow> nat \<Rightarrow> nat \<Rightarrow> bool" where
  "station_fits r n k \<longleftrightarrow> 1 \<le> n \<and> 1 \<le> k \<and> n + k \<le> rq_total_occupied r + 1"

definition request_ry :: "cls_request \<Rightarrow> nat \<Rightarrow> nat \<Rightarrow> bytes" where
  "request_ry r n k = take (8 * k) (drop (67 + 68 * rq_total_occupied r + 8 * (n - 1)) (rq_buffer r))"

definition request_rww :: "cls_request \<Rightarrow> nat \<Rightarrow> nat \<Rightarrow> bytes" where
  "request_rww r n k = take (64 * k) (drop (67 + 4 * rq_total_occupied r + 64 * (n - 1)) (rq_buffer r))"

lemma request_ok_facts:
  assumes "request_ok r"
  shows "length (rq_buffer r) = 67 + 76 * rq_total_occupied r" "1 \<le> rq_total_occupied r"
    "rq_total_occupied r \<le> 16" "rq_first_slave_id r = 67"
    "rq_first_rww r = Some (67 + 4 * rq_total_occupied r)"
    "rq_first_ry r = Some (67 + 68 * rq_total_occupied r)" "rq_slave_ip_addr r \<noteq> 0"
    "1 \<le> unat (qdh_group_no (qf_cyclic_data_header (rq_full_headers r)))"
    "unat (qdh_group_no (qf_cyclic_data_header (rq_full_headers r))) \<le> 64"
    "qdh_master_id (qf_cyclic_data_header (rq_full_headers r)) = rq_remote_ip r"
proof -
  from assms obtain bs ip port my where p: "cl_iefb_parse_cyclic_request bs ip port my = Returns (Some r)" "my \<noteq> 0"
    by (auto simp: request_ok_def)
  note f = parse_request_Some [OF p(1)] note v = validated_request_headers [OF f(12)]
  show "length (rq_buffer r) = 67 + 76 * rq_total_occupied r" "1 \<le> rq_total_occupied r"
    "rq_total_occupied r \<le> 16" "rq_first_slave_id r = 67"
    "rq_first_rww r = Some (67 + 4 * rq_total_occupied r)"
    "rq_first_ry r = Some (67 + 68 * rq_total_occupied r)" "rq_slave_ip_addr r \<noteq> 0"
    "1 \<le> unat (qdh_group_no (qf_cyclic_data_header (rq_full_headers r)))"
    "unat (qdh_group_no (qf_cyclic_data_header (rq_full_headers r))) \<le> 64"
    "qdh_master_id (qf_cyclic_data_header (rq_full_headers r)) = rq_remote_ip r"
    using f v p(2) by simp_all
qed

lemma length_request_areas:
  assumes "request_ok r" "station_fits r n k"
  shows "length (request_ry r n k) = 8 * k" "length (request_rww r n k) = 64 * k"
  using request_ok_facts(1) [OF assms(1)] assms(2)
  by (auto simp: request_ry_def request_rww_def station_fits_def min_def)

lemma copy_cyclic_data_eq:
  assumes "request_ok r"
  shows "cls_iefb_copy_cyclic_data_from_request r n b s =
    (let k = cfg_num_occupied_stations (cls_config s) in
     if station_fits r n k \<or> k = 0 \<and> 1 \<le> n \<and> n \<le> rq_total_occupied r then
       Some (s\<lparr>cls_ry := put_bytes (cls_ry s) 0 (if b then request_ry r n k else replicate (8 * k) 0),
               cls_rww := put_bytes (cls_rww s) 0 (if b then request_rww r n k else replicate (64 * k) 0)\<rparr>)
     else None)"
  using request_ok_facts [OF assms]
  by (auto simp: cls_iefb_copy_cyclic_data_from_request_def Let_def cl_consts station_fits_def
      cl_iefb_request_get_ry_def cl_iefb_request_get_rww_def occupied_out_of_range_def request_ry_def
      request_rww_def mult.commute split: if_splits)

section \<open>A cyclic request of the connected master\<close>

lemma extract_fits:
  "cl_iefb_extract_my_transmission_state w n \<Longrightarrow> 1 \<le> n"
  by (simp add: extract_transmission_bit)

definition my_transmission_bit :: "cls \<Rightarrow> cls_request \<Rightarrow> bool" where
  "my_transmission_bit s r = cl_iefb_extract_my_transmission_state
     (qdh_cyclic_transmission_state (qf_cyclic_data_header (rq_full_headers r))) (ma_slave_station_no (cls_master s))"

text \<open>The response to a request: the normal frame with the data of the application, or the one without data.\<close>

definition cyclic_response :: "cls \<Rightarrow> cls_request \<Rightarrow> bytes" where
  "cyclic_response s r =
     (let h = qf_cyclic_data_header (rq_full_headers r);
          f = cl_iefb_update_cyclic_response_frame
             (if my_transmission_bit s r then cls_resp_frame_normal s else cls_resp_frame_error s)
             (rq_slave_ip_addr r) CL_SLMP_ENDCODE_SUCCESS (ucast (qdh_group_no h)) (qdh_frame_sequence_no h)
             (cls_slave_application_status s) (cls_slave_err_code s) (cls_local_management_info s)
      in take (sr_udp_payload_len f) (sr_buffer f))"

lemma handle_cyclic_event_spec:
  assumes inv: "cls_inv s" and r: "request_ok r"
    and fits: "station_fits r (ma_slave_station_no (cls_master s)) (cfg_num_occupied_stations (cls_config s))"
  defines "k \<equiv> cfg_num_occupied_stations (cls_config s)"
    and "n \<equiv> ma_slave_station_no (cls_master s)"
    and "b \<equiv> my_transmission_bit s r"
  shows "\<exists>s' outs. cls_iefb_handle_cyclic_event now (Some r) s = Returns s' \<and>
    take (8 * k) (cls_ry s') = (if b then request_ry r n k else replicate (8 * k) 0) \<and>
    take (64 * k) (cls_rww s') = (if b then request_rww r n k else replicate (64 * k) 0) \<and>
    cls_receive_timer s' = cl_timer_restart now (cls_receive_timer s) \<and>
    cls_state s' = cls_state s \<and>
    cls_master s' = (cls_master s)\<lparr>ma_clock_info := mn_clock_info (qf_master_station_notification (rq_full_headers r)),
      ma_clock_info_valid := (mn_clock_info (qf_master_station_notification (rq_full_headers r)) \<noteq> 0)\<rparr> \<and>
    cls_out s' = cls_out s @ outs @ [Udp_Send (rq_remote_ip r) (rq_remote_port r) (cyclic_response s r)]"
proof -
  have areas: "8 * k \<le> length (cls_ry s)" "64 * k \<le> length (cls_rww s)"
    using inv by (simp_all add: inv_defs k_def)
  have len: "length (request_ry r n k) = 8 * k" "length (request_rww r n k) = 64 * k"
    using length_request_areas [OF r] fits by (simp_all add: n_def k_def)
  have valid: "cl_is_slave_endcode_valid CL_SLMP_ENDCODE_SUCCESS" by (rule endcodes_valid)
  define h where "h = qf_cyclic_data_header (rq_full_headers r)"
  have b: "cl_iefb_extract_my_transmission_state (qdh_cyclic_transmission_state h) n = b"
    by (simp add: b_def h_def n_def my_transmission_bit_def)
  have resp: "cyclic_response s r = (let f = cl_iefb_update_cyclic_response_frame
             (if b then cls_resp_frame_normal s else cls_resp_frame_error s) (rq_slave_ip_addr r)
             CL_SLMP_ENDCODE_SUCCESS (ucast (qdh_group_no h)) (qdh_frame_sequence_no h)
             (cls_slave_application_status s) (cls_slave_err_code s) (cls_local_management_info s)
       in take (sr_udp_payload_len f) (sr_buffer f))"
    by (simp add: cyclic_response_def b_def h_def Let_def)
  show ?thesis
    unfolding cls_iefb_handle_cyclic_event_def option.case Let_def
    using fits areas len valid
    unfolding copy_cyclic_data_eq [OF r] h_def [symmetric] n_def [symmetric] k_def [symmetric] b
    by (simp add: Let_def cls_iefb_send_cyclic_response_frame_def helper_eqs put_bytes_def resp)
qed

section \<open>Received frames\<close>

text \<open>A datagram that passes all checks of the two header parsers.\<close>

definition received_request :: "bytes \<Rightarrow> u32 \<Rightarrow> u16 \<Rightarrow> u32 \<Rightarrow> cls_request \<Rightarrow> bool" where
  "received_request bs ip port my r \<longleftrightarrow> my \<noteq> 0 \<and>
     cl_iefb_parse_cyclic_request bs ip port my = Returns (Some r) \<and>
     cl_iefb_validate_request_header (qf_req_header (rq_full_headers r)) (length bs) \<and>
     rqh_command (qf_req_header (rq_full_headers r)) = CL_SLMP_COMMAND_CCIEFB_CYCLIC \<and>
     rqh_sub_command (qf_req_header (rq_full_headers r)) = CL_SLMP_SUBCOMMAND_CCIEFB_CYCLIC"

lemma received_request_ok: "received_request bs ip port my r \<Longrightarrow> request_ok r"
  unfolding received_request_def request_ok_def by blast

lemma received_request_remote:
  assumes "received_request bs ip port my r"
  shows "rq_remote_ip r = ip" "rq_remote_port r = port" "rq_slave_ip_addr r = my"
    "qdh_master_id (qf_cyclic_data_header (rq_full_headers r)) = ip"
proof -
  have p: "cl_iefb_parse_cyclic_request bs ip port my = Returns (Some r)"
    using assms by (simp add: received_request_def)
  note f = parse_request_Some [OF p]
  show "rq_remote_ip r = ip" "rq_remote_port r = port" "rq_slave_ip_addr r = my"
    "qdh_master_id (qf_cyclic_data_header (rq_full_headers r)) = ip"
    using f validated_request_headers(5) [OF f(12)] by simp_all
qed

lemma input_frame_received:
  assumes "received_request bs ip port my r"
  shows "cls_iefb_handle_input_frame now bs ip port my s = cls_iefb_handle_cyclic_input_frame now bs ip port my s"
proof -
  have p: "cl_iefb_parse_cyclic_request bs ip port my = Returns (Some r)"
    using assms by (simp add: received_request_def)
  have "rq_full_headers r = dec_req_full_headers bs 0" "67 \<le> length bs"
    using parse_request_Some [OF p] by simp_all
  then have "cl_iefb_parse_request_header bs = Some (qf_req_header (rq_full_headers r))"
    by (simp add: cl_iefb_parse_request_header_def sizeof_defs dec_req_full_headers_def)
  then show ?thesis using assms by (simp add: cls_iefb_handle_input_frame_def received_request_def)
qed

lemma input_frame_discarded:
  assumes "cls_state s \<in> {CLS_SLAVE_STATE_SLAVE_DOWN, CLS_SLAVE_STATE_SLAVE_DISABLED}"
  shows "\<exists>b. cls_iefb_handle_input_frame now bs ip port my s = Returns (b, s)"
proof -
  obtain p where p: "cl_iefb_parse_cyclic_request bs ip port my = Returns p" using parse_request_returns by blast
  have "\<exists>b. cls_iefb_handle_cyclic_input_frame now bs ip port my s = Returns (b, s)"
    unfolding cls_iefb_handle_cyclic_input_frame_def p using assms by (auto split: option.split)
  then show ?thesis unfolding cls_iefb_handle_input_frame_def by (auto split: option.split)
qed

text \<open>A request of another master only causes an error response to that master.\<close>

lemma loop_one_round:
  "fsm_round now req ev s = Returns (CLS_SLAVE_EVENT_NONE, s') \<Longrightarrow> ev \<noteq> CLS_SLAVE_EVENT_LAST \<Longrightarrow>
   cls_iefb_fsm_event now req ev s = Returns s'"
  by (simp add: cls_iefb_fsm_event_def fsm_fuel_def eval_nat_numeral)

lemma loop_two_rounds:
  "fsm_round now req ev s = Returns (ev', s') \<Longrightarrow> ev' \<noteq> CLS_SLAVE_EVENT_NONE \<Longrightarrow> ev \<noteq> CLS_SLAVE_EVENT_LAST \<Longrightarrow>
   fsm_round now req ev' s' = Returns (CLS_SLAVE_EVENT_NONE, s'') \<Longrightarrow>
   cls_iefb_fsm_event now req ev s = Returns s''"
  by (simp add: cls_iefb_fsm_event_def fsm_fuel_def eval_nat_numeral)

definition error_response :: "cls \<Rightarrow> cls_request \<Rightarrow> u16 \<Rightarrow> cls_output" where
  "error_response s r ec =
     (let h = qf_cyclic_data_header (rq_full_headers r);
          f = cl_iefb_update_cyclic_response_frame (cls_resp_frame_error s) (rq_slave_ip_addr r) ec
                (ucast (qdh_group_no h)) (qdh_frame_sequence_no h) (cls_slave_application_status s)
                (cls_slave_err_code s) (cls_local_management_info s)
      in Udp_Send (rq_remote_ip r) (rq_remote_port r) (take (sr_udp_payload_len f) (sr_buffer f)))"

lemma wrong_master_spec:
  "\<exists>s' outs. cls_iefb_handle_wrong_master now (Some r) s = Returns s' \<and>
     cls_out s' = cls_out s @ outs @ [error_response s r CL_SLMP_ENDCODE_CCIEFB_MASTER_DUPLICATION] \<and>
     cls_state s' = cls_state s \<and> cls_master s' = cls_master s \<and> cls_receive_timer s' = cls_receive_timer s \<and>
     cls_ry s' = cls_ry s \<and> cls_rww s' = cls_rww s \<and> cls_resp_frame_normal s' = cls_resp_frame_normal s"
  using endcodes_valid(2)
  by (simp add: cls_iefb_handle_wrong_master_def Let_def helper_eqs error_response_def
      cls_iefb_send_cyclic_response_error_frame_def cls_iefb_send_cyclic_response_frame_def)

lemma wrong_master_frame:
  assumes inv: "cls_inv s" and st: "cls_state s = CLS_SLAVE_STATE_MASTER_CONTROL"
    and rec: "received_request bs ip port my r" and other: "ip \<noteq> ma_master_id (cls_master s)"
  shows "\<exists>s' outs. cls_iefb_handle_input_frame now bs ip port my s = Returns (True, s') \<and>
     cls_out s' = cls_out s @ outs @ [error_response s r CL_SLMP_ENDCODE_CCIEFB_MASTER_DUPLICATION] \<and>
     cls_state s' = cls_state s \<and> cls_master s' = cls_master s \<and> cls_receive_timer s' = cls_receive_timer s \<and>
     cls_ry s' = cls_ry s \<and> cls_rww s' = cls_rww s \<and> cls_resp_frame_normal s' = cls_resp_frame_normal s"
proof -
  obtain s' outs where s': "cls_iefb_handle_wrong_master now (Some r) s = Returns s'"
     "cls_out s' = cls_out s @ outs @ [error_response s r CL_SLMP_ENDCODE_CCIEFB_MASTER_DUPLICATION]"
     "cls_state s' = cls_state s" "cls_master s' = cls_master s" "cls_receive_timer s' = cls_receive_timer s"
     "cls_ry s' = cls_ry s" "cls_rww s' = cls_rww s" "cls_resp_frame_normal s' = cls_resp_frame_normal s"
    using wrong_master_spec by blast
  have "fsm_round now (Some r) CLS_SLAVE_EVENT_CYCLIC_WRONG_MASTER s = Returns (CLS_SLAVE_EVENT_NONE, s')"
    by (rule fsm_round_stay [where act = Handle_Wrong_Master])
      (use inv st s' in \<open>simp_all add: cls_inv_def base_inv_tables initial_matrix_table no_event_def\<close>)
  then have "cls_iefb_fsm_event now (Some r) CLS_SLAVE_EVENT_CYCLIC_WRONG_MASTER s = Returns s'"
    by (rule loop_one_round) simp
  moreover have "\<not> cls_iefb_is_master_id_correct s ip"
    using other by (simp add: cls_iefb_is_master_id_correct_def)
  ultimately have "cls_iefb_handle_cyclic_input_frame now bs ip port my s = Returns (True, s')"
    using st rec received_request_remote [OF rec]
    by (simp add: cls_iefb_handle_cyclic_input_frame_def received_request_def CL_IPADDR_INVALID_def)
  then show ?thesis using s' input_frame_received [OF rec] by auto
qed

section \<open>Connecting to a master\<close>

lemma analyze_found:
  assumes "my \<noteq> 0" "1 \<le> tot" "tot \<le> 16"
    and "cl_iefb_analyze_slave_ids my tot buf first = Some (True, n, k)"
  shows "1 \<le> n" "1 \<le> k" "n + k \<le> tot + 1" "request_slave_ids buf first tot ! (n - 1) = my"
proof -
  let ?ids = "request_slave_ids buf first tot"
  have a: "analyze_ids my ?ids 1 False False 0 0 = Some (True, n, k)"
    using assms by (simp add: analyze_slave_ids_eq)
  have "my \<in> set ?ids" using a analyze_ids_spec(1) [of my ?ids] by fastforce
  then obtain xs ys where s: "?ids = xs @ my # ys" "my \<notin> set xs" by (meson split_list_first)
  have "my \<notin> set ys" using a analyze_ids_spec(3) [OF s] by auto
  then have nk: "n = length xs + 1" "k = 1 + length (takeWhile (\<lambda>x. x = - 1) ys)"
    using a analyze_ids_spec(2) [OF s] by auto
  have "length ?ids = tot" by (simp add: request_slave_ids_def)
  then have "length xs + 1 + length ys = tot" using s by simp
  then show "1 \<le> n" "1 \<le> k" "n + k \<le> tot + 1" "?ids ! (n - 1) = my"
    using nk s length_takeWhile_le [of "\<lambda>x. x = - 1" ys] by (simp_all add: nth_append)
qed

text \<open>What the slave knows of its master after accepting a request as station \<open>n\<close>.\<close>

definition connection_of :: "cls_request \<Rightarrow> nat \<Rightarrow> cls_master_connection" where
  "connection_of r n =
     (let h = qf_cyclic_data_header (rq_full_headers r);
          clock = mn_clock_info (qf_master_station_notification (rq_full_headers r))
      in \<lparr>ma_master_id = qdh_master_id h, ma_clock_info = clock, ma_clock_info_valid = (clock \<noteq> 0),
          ma_protocol_ver = cqh_protocol_ver (qf_cyclic_header (rq_full_headers r)),
          ma_group_no = ucast (qdh_group_no h), ma_parameter_no = qdh_parameter_no h,
          ma_timeout_value = qdh_timeout_value h,
          ma_parallel_off_timeout_count = qdh_parallel_off_timeout_count h,
          ma_slave_station_no = n,
          ma_total_occupied_station_count = unat (qdh_slave_total_occupied_station_count h)\<rparr>)"

definition connection_period :: "cls_request \<Rightarrow> u32" where
  "connection_period r = (let h = qf_cyclic_data_header (rq_full_headers r) in
     ucast (cl_calculate_total_timeout_us (qdh_timeout_value h) (qdh_parallel_off_timeout_count h)))"

lemma new_master_spec:
  assumes "cls_iefb_handle_new_or_updated_master now (Some r) s = (ev, s')"
  shows "cls_master s' = connection_of r (ma_slave_station_no (cls_master s))"
    "cls_receive_timer s' = cl_timer_start (connection_period r) now (cls_receive_timer s)"
    "\<exists>outs. cls_out s' = cls_out s @ outs"
  using assms
  by (auto simp: cls_iefb_handle_new_or_updated_master_def Let_def helper_eqs connection_of_def
      connection_period_def)

lemma connect_rounds:
  assumes inv: "cls_inv s" and r: "request_ok r"
    and st: "cls_state s \<in> {CLS_SLAVE_STATE_MASTER_NONE, CLS_SLAVE_STATE_MASTER_CONTROL}"
    and fits: "station_fits r n (cfg_num_occupied_stations (cls_config s))"
    and station: "ma_slave_station_no (cls_master s) = n"
  shows "\<exists>s'. cls_iefb_fsm_event now (Some r) CLS_SLAVE_EVENT_CYCLIC_NEW_MASTER s = Returns s' \<and>
    cls_state s' = CLS_SLAVE_STATE_MASTER_CONTROL \<and> cls_master s' = connection_of r n \<and>
    (\<exists>t. cls_receive_timer s' = cl_timer_start (connection_period r) now t) \<and>
    cls_config s' = cls_config s \<and>
    (\<exists>t outs. cls_inv t \<and> cls_config t = cls_config s \<and>
      cls_out s' = cls_out s @ outs @ [Udp_Send (rq_remote_ip r) (rq_remote_port r) (cyclic_response t r)])"
proof -
  have base: "base_inv s" "idle_inv s" using inv by (simp_all add: cls_inv_def)
  from round_connect [OF base r st] obtain t where
    t: "fsm_round now (Some r) CLS_SLAVE_EVENT_CYCLIC_NEW_MASTER s = Returns (CLS_SLAVE_EVENT_CYCLIC_CORRECT_MASTER, t)"
      "base_inv t" "idle_inv t" "busy_inv t" "cls_state t = CLS_SLAVE_STATE_MASTER_CONTROL" by blast
  let ?s = "s\<lparr>cls_out := cls_out s @ exit_outputs s, cls_state := CLS_SLAVE_STATE_MASTER_CONTROL\<rparr>"
  let ?u = "if cls_state s = CLS_SLAVE_STATE_MASTER_CONTROL then s else ?s"
  obtain ev u where u: "cls_iefb_handle_new_or_updated_master now (Some r) ?u = (ev, u)" by fastforce
  have nm: "cls_master u = connection_of r n" "\<exists>t. cls_receive_timer u = cl_timer_start (connection_period r) now t"
    using new_master_spec [OF u] station by auto
  have conf: "cls_config u = cls_config s" "\<exists>outs. cls_out u = cls_out s @ outs"
    using u by (auto simp: cls_iefb_handle_new_or_updated_master_def Let_def helper_eqs split: if_splits)
  have "cls_master t = cls_master u \<and> cls_receive_timer t = cls_receive_timer u \<and> cls_config t = cls_config u \<and>
      (\<exists>outs. cls_out t = cls_out u @ outs)"
  proof (cases "cls_state s = CLS_SLAVE_STATE_MASTER_CONTROL")
    case True
    have "cls_state u = cls_state s"
      using u True by (auto simp: cls_iefb_handle_new_or_updated_master_def Let_def helper_eqs)
    then have "t = u"
      using fsm_round_stay [of s CLS_SLAVE_EVENT_CYCLIC_NEW_MASTER Handle_New_Or_Updated_Master now "Some r" ev u]
        t(1) u base(1) True by (simp add: base_inv_tables initial_matrix_table)
    then show ?thesis by simp
  next
    case False
    then have none: "cls_state s = CLS_SLAVE_STATE_MASTER_NONE" using st by simp
    have "run_opt (snd (initial_entry_exit CLS_SLAVE_STATE_MASTER_NONE)) now (Some r) s = Returns (CLS_SLAVE_EVENT_NONE, s)"
      by (simp add: initial_entry_exit_table run_opt_def)
    moreover have "exit_outputs s = []" by (simp add: exit_outputs_def none)
    ultimately show ?thesis using t(1) u base(1) none
      by (auto simp: fsm_round_def run_opt_def Let_def base_inv_tables initial_matrix_table initial_entry_exit_table
          emit_if_eq split: if_splits prod.splits)
  qed
  then have tt: "cls_master t = connection_of r n" "\<exists>x. cls_receive_timer t = cl_timer_start (connection_period r) now x"
      "cls_config t = cls_config s" "\<exists>outs. cls_out t = cls_out s @ outs"
    using nm conf by auto
  have ti: "cls_inv t" using t by (simp add: cls_inv_def)
  from handle_cyclic_event_spec [OF this r, of now] fits tt(1,3) obtain s' outs where
    s': "cls_iefb_handle_cyclic_event now (Some r) t = Returns s'"
      "cls_receive_timer s' = cl_timer_restart now (cls_receive_timer t)" "cls_state s' = cls_state t"
      "cls_master s' = (cls_master t)\<lparr>ma_clock_info := mn_clock_info (qf_master_station_notification (rq_full_headers r)),
        ma_clock_info_valid := (mn_clock_info (qf_master_station_notification (rq_full_headers r)) \<noteq> 0)\<rparr>"
      "cls_out s' = cls_out t @ outs @ [Udp_Send (rq_remote_ip r) (rq_remote_port r) (cyclic_response t r)]"
    by (auto simp: connection_of_def Let_def)
  have conf': "cls_config s' = cls_config s"
    using cyclic_event_ok [of t "Some r" now] ti r s'(1) tt(3) by (auto simp: cls_inv_def same_conn_def)
  have "fsm_round now (Some r) CLS_SLAVE_EVENT_CYCLIC_CORRECT_MASTER t = Returns (CLS_SLAVE_EVENT_NONE, s')"
    by (rule fsm_round_stay [where act = Handle_Cyclic_Event])
      (use t s' in \<open>simp_all add: base_inv_tables initial_matrix_table no_event_def\<close>)
  then have "cls_iefb_fsm_event now (Some r) CLS_SLAVE_EVENT_CYCLIC_NEW_MASTER s = Returns s'"
    using loop_two_rounds [OF t(1)] by simp
  moreover have "cls_master s' = connection_of r n"
    using s'(4) tt(1) by (simp add: connection_of_def Let_def)
  moreover have "\<exists>x. cls_receive_timer s' = cl_timer_start (connection_period r) now x"
    using s'(2) tt(2) by (auto simp: restart_start)
  moreover obtain os where "cls_out t = cls_out s @ os" using tt(4) by blast
  then have "cls_out s' = cls_out s @ (os @ outs) @ [Udp_Send (rq_remote_ip r) (rq_remote_port r) (cyclic_response t r)]"
    using s'(5) by simp
  ultimately show ?thesis using s'(3) t(5) ti tt(3) conf' by metis
qed

text \<open>
  A slave without master accepts the first request that names its address once, with the right number of
  stations and with the transmission bit still off.
\<close>

lemma connect_frame:
  assumes inv: "cls_inv s" and st: "cls_state s = CLS_SLAVE_STATE_MASTER_NONE"
    and rec: "received_request bs ip port my r"
    and ids: "cl_iefb_analyze_slave_ids my (rq_total_occupied r) bs 67 = Some (True, n, cfg_num_occupied_stations (cls_config s))"
    and off: "\<not> cl_iefb_extract_my_transmission_state (qdh_cyclic_transmission_state (qf_cyclic_data_header (rq_full_headers r))) n"
  shows "\<exists>s'. cls_iefb_handle_input_frame now bs ip port my s = Returns (True, s') \<and>
    cls_state s' = CLS_SLAVE_STATE_MASTER_CONTROL \<and> cls_master s' = connection_of r n \<and>
    (\<exists>t. cls_receive_timer s' = cl_timer_start (connection_period r) now t) \<and>
    cls_config s' = cls_config s \<and>
    (\<exists>t outs. cls_inv t \<and> cls_config t = cls_config s \<and>
      cls_out s' = cls_out s @ outs @ [Udp_Send ip port (cyclic_response t r)])"
proof -
  note r = received_request_ok [OF rec] note f = request_ok_facts [OF r] note m = received_request_remote [OF rec]
  have p: "cl_iefb_parse_cyclic_request bs ip port my = Returns (Some r)" and my: "my \<noteq> 0"
    using rec by (simp_all add: received_request_def)
  have buf: "rq_buffer r = bs" using parse_request_Some [OF p] by simp
  let ?t = "s\<lparr>cls_master := (cls_master s)\<lparr>ma_slave_station_no := n\<rparr>\<rparr>"
  have "station_fits r n (cfg_num_occupied_stations (cls_config ?t))"
    using analyze_found [OF my f(2,3) ids] by (simp add: station_fits_def)
  from connect_rounds [OF _ r _ this, of now] inv st obtain s' where
    s': "cls_iefb_fsm_event now (Some r) CLS_SLAVE_EVENT_CYCLIC_NEW_MASTER ?t = Returns s'"
      "cls_state s' = CLS_SLAVE_STATE_MASTER_CONTROL" "cls_master s' = connection_of r n"
      "\<exists>t. cls_receive_timer s' = cl_timer_start (connection_period r) now t"
      "cls_config s' = cls_config s" "\<exists>t outs. cls_inv t \<and> cls_config t = cls_config s \<and>
        cls_out s' = cls_out s @ outs @ [Udp_Send (rq_remote_ip r) (rq_remote_port r) (cyclic_response t r)]"
    by auto
  have "cls_iefb_search_slave_parameters now r s = Returns (True, s')"
    using ids off st s'(1) f buf m
    by (simp add: cls_iefb_search_slave_parameters_def Let_def rq_total_occupied_def)
  then have "cls_iefb_handle_cyclic_input_frame now bs ip port my s = Returns (True, s')"
    using st my p by (simp add: cls_iefb_handle_cyclic_input_frame_def CL_IPADDR_INVALID_def)
  then show ?thesis using s' m input_frame_received [OF rec] by auto
qed

section \<open>Losing the master\<close>

lemma round_timeout:
  assumes "base_inv s" "cls_state s = CLS_SLAVE_STATE_MASTER_CONTROL"
  shows "\<exists>s'. cls_iefb_fsm_event now None CLS_SLAVE_EVENT_TIMEOUT_MASTER s = Returns s' \<and>
    base_inv s' \<and> idle_inv s' \<and> cls_state s' = CLS_SLAVE_STATE_MASTER_NONE \<and> cls_master s' = no_master"
proof -
  have "\<exists>t'. run_opt (Some Log_Timeout_Master) now None t = Returns (CLS_SLAVE_EVENT_NONE, t') \<and> base_inv t' \<and> same_conn t t'"
    if "base_inv t" for t using that by (simp add: run_opt_def)
  from round_to_master_none [OF assms(1), of CLS_SLAVE_EVENT_TIMEOUT_MASTER, OF _ _ this]
  show ?thesis using assms loop_one_round [of now None CLS_SLAVE_EVENT_TIMEOUT_MASTER s]
    by (fastforce simp: initial_matrix_table)
qed

lemma periodic_timeout:
  assumes inv: "cls_inv s" and st: "cls_state s = CLS_SLAVE_STATE_MASTER_CONTROL"
    and exp: "cl_timer_is_expired (cls_receive_timer s) now"
  shows "\<exists>s'. cls_iefb_periodic now None s = Returns s' \<and> cls_inv s' \<and>
    cls_state s' = CLS_SLAVE_STATE_MASTER_NONE \<and> cls_master s' = no_master"
proof -
  let ?t = "s\<lparr>cls_receive_timer := cl_timer_stop (cls_receive_timer s)\<rparr>"
  from round_timeout [of ?t now] inv st obtain s' where
    s': "cls_iefb_fsm_event now None CLS_SLAVE_EVENT_TIMEOUT_MASTER ?t = Returns s'" "base_inv s'" "idle_inv s'"
      "cls_state s' = CLS_SLAVE_STATE_MASTER_NONE" "cls_master s' = no_master" by (auto simp: cls_inv_def)
  have "\<not> cl_timer_is_expired (cls_timer_for_disabling_slave s') now"
    using s'(3,4) stopped_not_expired by (simp add: idle_inv_def)
  then have "cls_iefb_periodic now None s = Returns (s'\<lparr>cls_errorlimiter := cl_limiter_periodic now (cls_errorlimiter s'),
      cls_loglimiter := cl_limiter_periodic now (cls_loglimiter s')\<rparr>)"
    using exp s'(1) by (simp add: cls_iefb_periodic_def)
  moreover have "cls_inv s'" using s' by (simp add: cls_inv_def busy_inv_def)
  ultimately show ?thesis using s' by simp
qed

lemma periodic_connected:
  assumes inv: "cls_inv s" and st: "cls_state s = CLS_SLAVE_STATE_MASTER_CONTROL"
    and exp: "\<not> cl_timer_is_expired (cls_receive_timer s) now"
  shows "\<exists>s'. cls_iefb_periodic now None s = Returns s' \<and> cls_state s' = CLS_SLAVE_STATE_MASTER_CONTROL \<and>
    cls_master s' = cls_master s \<and> cls_receive_timer s' = cls_receive_timer s \<and> cls_out s' = cls_out s"
proof -
  have "\<not> cl_timer_is_expired (cls_timer_for_disabling_slave s) now"
    using inv st stopped_not_expired by (simp add: cls_inv_def idle_inv_def)
  then show ?thesis using exp st by (simp add: cls_iefb_periodic_def)
qed

section \<open>Reachable slaves\<close>

text \<open>
  One operation of the stack: the periodic functions of CCIEFB and SLMP, perhaps with a datagram, a call of
  the application, or the initialisation of SLMP.
\<close>

datatype cls_operation =
    Periodic u32 "datagram option"
  | Disable u32 bool
  | Reenable u32
  | Set_Rx u16 bool
  | Set_Rwr u16 u16
  | Set_Management_Info u32
  | Set_Application_Status bool
  | Set_Error_Code u16
  | Slmp_Init cl_os
  | Slmp_Periodic cl_os u32 "slmp_datagram option"

fun cls_do :: "cls_operation \<Rightarrow> cls \<Rightarrow> cls outcome" where
  "cls_do (Periodic now rcv) s = cls_iefb_periodic now rcv s"
| "cls_do (Disable now err) s = cls_iefb_disable_slave now err s"
| "cls_do (Reenable now) s = cls_iefb_reenable_slave now s"
| "cls_do (Set_Rx i v) s = cls_iefb_set_rx_bit i v s"
| "cls_do (Set_Rwr i v) s = cls_iefb_set_rwr_value i v s"
| "cls_do (Set_Management_Info x) s = Returns (cls_iefb_set_local_management_info x s)"
| "cls_do (Set_Application_Status b) s = Returns (cls_iefb_set_slave_application_status b s)"
| "cls_do (Set_Error_Code c) s = Returns (cls_iefb_set_slave_error_code c s)"
| "cls_do (Slmp_Init os) s = Returns (snd (cls_slmp_init os s))"
| "cls_do (Slmp_Periodic os now rcv) s = cls_slmp_periodic os now rcv s"

inductive cls_reachable :: "cls \<Rightarrow> bool" where
  start: "config_inv s \<Longrightarrow> cls_iefb_init now True s = Returns (Some s') \<Longrightarrow> cls_reachable s'"
| step: "cls_reachable s \<Longrightarrow> cls_do oper s = Returns s' \<Longrightarrow> cls_reachable s'"

fun index_valid :: "cls_operation \<Rightarrow> cls \<Rightarrow> bool" where
  "index_valid (Set_Rx i v) s = rx_valid i s"
| "index_valid (Set_Rwr i v) s = rwr_valid i s"
| "index_valid _ s = True"

lemma setters_ok:
  "cls_inv s \<Longrightarrow> cls_inv (cls_iefb_set_local_management_info x s)"
  "cls_inv s \<Longrightarrow> cls_inv (cls_iefb_set_slave_application_status b s)"
  "cls_inv s \<Longrightarrow> cls_inv (cls_iefb_set_slave_error_code c s)"
  by (simp_all add: cls_iefb_set_local_management_info_def cls_iefb_set_slave_application_status_def
      cls_iefb_set_slave_error_code_def inv_defs)

lemma slmp_ok:
  "cls_inv s \<Longrightarrow> slmp_only s s' \<Longrightarrow> cls_inv s'"
  "cls_inv s \<Longrightarrow> cls_inv (snd (cls_slmp_init os s))"
  by (auto simp: slmp_only_def inv_defs cls_slmp_init_def Let_def)

lemma slmp_periodic_ok: "cls_inv s \<Longrightarrow> \<exists>s'. cls_slmp_periodic os now rcv s = Returns s' \<and> cls_inv s'"
  using slmp_periodic_returns slmp_ok(1) by blast

lemma cls_do_ok:
  assumes "cls_inv s" "index_valid oper s"
  shows "\<exists>s'. cls_do oper s = Returns s' \<and> cls_inv s'"
  using assms periodic_ok disable_slave_ok reenable_slave_ok rx.write_ok rwr.write_ok slmp_periodic_ok slmp_ok(2)
  by (cases oper) (auto simp: setters_ok, (blast | metis)+)

lemma cls_do_inv:
  assumes "cls_inv s" "cls_do oper s = Returns s'"
  shows "cls_inv s'"
proof -
  have "index_valid oper s" using assms(2) rx.invalid rwr.invalid by (cases oper) fastforce+
  then show ?thesis using cls_do_ok [OF assms(1)] assms(2) by fastforce
qed

lemma reachable_inv: "cls_reachable s \<Longrightarrow> cls_inv s"
proof (induction rule: cls_reachable.induct)
  case (start s now s') then show ?case using iefb_init_ok [OF start(1), of now] by auto
next
  case (step s oper s') then show ?case using cls_do_inv by blast
qed

section \<open>Cyclic data from the connected master\<close>

text \<open>The request continues the connection: same master, parameters and group, and our address at our station.\<close>

definition continues_connection :: "cls \<Rightarrow> cls_request \<Rightarrow> bool" where
  "continues_connection s r \<longleftrightarrow>
     (let h = qf_cyclic_data_header (rq_full_headers r); m = cls_master s in
      cls_state s = CLS_SLAVE_STATE_MASTER_CONTROL \<and> rq_remote_ip r = ma_master_id m \<and>
      qdh_parameter_no h = ma_parameter_no m \<and> qdh_frame_sequence_no h \<noteq> 0 \<and>
      ucast (qdh_group_no h) = ma_group_no m \<and>
      station_fits r (ma_slave_station_no m) (cfg_num_occupied_stations (cls_config s)) \<and>
      le32_at (rq_buffer r) (67 + 4 * (ma_slave_station_no m - 1)) = rq_slave_ip_addr r)"

lemma correct_master_frame:
  assumes inv: "cls_inv s" and rec: "received_request bs ip port my r" and cont: "continues_connection s r"
  defines "k \<equiv> cfg_num_occupied_stations (cls_config s)" and "n \<equiv> ma_slave_station_no (cls_master s)"
  shows "\<exists>s' outs. cls_iefb_handle_input_frame now bs ip port my s = Returns (True, s') \<and>
    cls_state s' = CLS_SLAVE_STATE_MASTER_CONTROL \<and> cls_config s' = cls_config s \<and>
    take (8 * k) (cls_ry s') = (if my_transmission_bit s r then request_ry r n k else replicate (8 * k) 0) \<and>
    take (64 * k) (cls_rww s') = (if my_transmission_bit s r then request_rww r n k else replicate (64 * k) 0) \<and>
    cls_receive_timer s' = cl_timer_restart now (cls_receive_timer s) \<and>
    cls_out s' = cls_out s @ outs @ [Udp_Send ip port (cyclic_response s r)]"
proof -
  note r = received_request_ok [OF rec] note f = request_ok_facts [OF r] note m = received_request_remote [OF rec]
  have fits: "station_fits r n k" and st: "cls_state s = CLS_SLAVE_STATE_MASTER_CONTROL"
    and id: "le32_at (rq_buffer r) (67 + 4 * (n - 1)) = my"
    using cont m by (simp_all add: continues_connection_def Let_def n_def k_def)
  have p: "cl_iefb_parse_cyclic_request bs ip port my = Returns (Some r)" and my: "my \<noteq> 0"
    using rec by (simp_all add: received_request_def)
  from handle_cyclic_event_spec [OF inv r, of now] fits obtain s' outs where
    s': "cls_iefb_handle_cyclic_event now (Some r) s = Returns s'"
      "take (8 * k) (cls_ry s') = (if my_transmission_bit s r then request_ry r n k else replicate (8 * k) 0)"
      "take (64 * k) (cls_rww s') = (if my_transmission_bit s r then request_rww r n k else replicate (64 * k) 0)"
      "cls_receive_timer s' = cl_timer_restart now (cls_receive_timer s)" "cls_state s' = cls_state s"
      "cls_out s' = cls_out s @ outs @ [Udp_Send ip port (cyclic_response s r)]"
    using m unfolding k_def n_def by auto
  have conf: "cls_config s' = cls_config s"
    using cyclic_event_ok [of s "Some r" now] inv r s'(1) by (auto simp: cls_inv_def same_conn_def)
  have "fsm_round now (Some r) CLS_SLAVE_EVENT_CYCLIC_CORRECT_MASTER s = Returns (CLS_SLAVE_EVENT_NONE, s')"
    by (rule fsm_round_stay [where act = Handle_Cyclic_Event])
      (use inv st s' in \<open>simp_all add: cls_inv_def base_inv_tables initial_matrix_table no_event_def\<close>)
  then have ev: "cls_iefb_fsm_event now (Some r) CLS_SLAVE_EVENT_CYCLIC_CORRECT_MASTER s = Returns s'"
    by (rule loop_one_round) simp
  have get: "cl_iefb_request_get_slave_id (rq_buffer r) 67 n (rq_total_occupied r) = Some my"
    using f(2,3) fits id by (auto simp: cl_iefb_request_get_slave_id_def occupied_out_of_range_def cl_consts
        station_fits_def mult.commute)
  have "cls_iefb_is_master_id_correct s ip"
    using inv st cont m by (simp add: cls_iefb_is_master_id_correct_def continues_connection_def Let_def
        cls_inv_def busy_inv_def CL_IPADDR_INVALID_def)
  then have "cls_iefb_handle_cyclic_input_frame now bs ip port my s = Returns (True, s')"
    using st p my cont get ev f(4) m
    by (simp add: cls_iefb_handle_cyclic_input_frame_def CL_IPADDR_INVALID_def continues_connection_def Let_def
        n_def rq_total_occupied_def)
  then show ?thesis using s' st conf input_frame_received [OF rec] by auto
qed

text \<open>
  The request is one of the connected master for this slave: same master, parameters and group, and our
  address at our station. Its group may still be too small for all our stations.
\<close>

definition addressed_by_master :: "cls \<Rightarrow> cls_request \<Rightarrow> bool" where
  "addressed_by_master s r \<longleftrightarrow>
     (let h = qf_cyclic_data_header (rq_full_headers r); m = cls_master s in
      cls_state s = CLS_SLAVE_STATE_MASTER_CONTROL \<and> rq_remote_ip r = ma_master_id m \<and>
      qdh_parameter_no h = ma_parameter_no m \<and> qdh_frame_sequence_no h \<noteq> 0 \<and>
      ucast (qdh_group_no h) = ma_group_no m \<and>
      1 \<le> ma_slave_station_no m \<and> ma_slave_station_no m \<le> rq_total_occupied r \<and>
      le32_at (rq_buffer r) (67 + 4 * (ma_slave_station_no m - 1)) = rq_slave_ip_addr r)"

lemma continues_connection_iff:
  assumes "cls_inv s"
  shows "continues_connection s r \<longleftrightarrow> addressed_by_master s r \<and>
    ma_slave_station_no (cls_master s) + cfg_num_occupied_stations (cls_config s) \<le> rq_total_occupied r + 1"
  using assms by (auto simp: continues_connection_def addressed_by_master_def station_fits_def Let_def inv_defs)

lemma too_small_group_frame:
  assumes inv: "cls_inv s" and rec: "received_request bs ip port my r" and addr: "addressed_by_master s r"
    and small: "rq_total_occupied r + 1 < ma_slave_station_no (cls_master s) + cfg_num_occupied_stations (cls_config s)"
  shows "cls_iefb_handle_input_frame now bs ip port my s = Returns (True, s)"
proof -
  define n where "n = ma_slave_station_no (cls_master s)"
  note r = received_request_ok [OF rec] note f = request_ok_facts [OF r] note m = received_request_remote [OF rec]
  have a: "cls_state s = CLS_SLAVE_STATE_MASTER_CONTROL" "1 \<le> n" "n \<le> rq_total_occupied r"
      "le32_at (rq_buffer r) (67 + 4 * (n - 1)) = my"
    using addr m by (simp_all add: addressed_by_master_def Let_def n_def)
  have p: "cl_iefb_parse_cyclic_request bs ip port my = Returns (Some r)" and my: "my \<noteq> 0"
    using rec by (simp_all add: received_request_def)
  have "1 \<le> cfg_num_occupied_stations (cls_config s)" using inv by (simp add: inv_defs)
  then have "cls_iefb_copy_cyclic_data_from_request r n b s = None" for b
    using small by (simp add: copy_cyclic_data_eq [OF r] station_fits_def n_def)
  then have h: "cls_iefb_handle_cyclic_event now (Some r) s = Returns s"
    by (simp add: cls_iefb_handle_cyclic_event_def n_def)
  have "fsm_round now (Some r) CLS_SLAVE_EVENT_CYCLIC_CORRECT_MASTER s = Returns (CLS_SLAVE_EVENT_NONE, s)"
    by (rule fsm_round_stay [where act = Handle_Cyclic_Event])
      (use inv a(1) h in \<open>simp_all add: cls_inv_def base_inv_tables initial_matrix_table no_event_def\<close>)
  then have ev: "cls_iefb_fsm_event now (Some r) CLS_SLAVE_EVENT_CYCLIC_CORRECT_MASTER s = Returns s"
    by (rule loop_one_round) simp
  have get: "cl_iefb_request_get_slave_id (rq_buffer r) 67 n (rq_total_occupied r) = Some my"
    using f(2,3) a(2-4) by (auto simp: cl_iefb_request_get_slave_id_def occupied_out_of_range_def cl_consts mult.commute)
  have "cls_iefb_is_master_id_correct s ip"
    using inv a(1) addr m by (simp add: cls_iefb_is_master_id_correct_def addressed_by_master_def Let_def
        cls_inv_def busy_inv_def CL_IPADDR_INVALID_def)
  then have "cls_iefb_handle_cyclic_input_frame now bs ip port my s = Returns (True, s)"
    using a(1) p my addr get ev f(4) m
    by (simp add: cls_iefb_handle_cyclic_input_frame_def CL_IPADDR_INVALID_def addressed_by_master_def Let_def
        n_def rq_total_occupied_def)
  then show ?thesis using input_frame_received [OF rec] by simp
qed

text \<open>Reading back what was received, signal by signal.\<close>

lemma take_nth: "take m xs = ys \<Longrightarrow> j < m \<Longrightarrow> j < length ys \<Longrightarrow> xs ! j = ys ! j"
  by auto

lemma received_ry_bit:
  assumes "take (8 * k) (cls_ry s) = ry" "length ry = 8 * k" "k = cfg_num_occupied_stations (cls_config s)"
    and "rx_valid i s"
  shows "cls_iefb_get_ry_bit i s = Returns (bit (ry ! (unat i div 8)) (unat i mod 8))"
proof -
  have "unat i div 8 < 8 * k" using assms(3,4) by (simp add: rx_valid_def div_less_iff_less_mult)
  then show ?thesis using take_nth [OF assms(1)] assms(2,4) by (simp add: get_ry_bit_eq)
qed

lemma received_rww_value:
  assumes "take (64 * k) (cls_rww s) = rww" "length rww = 64 * k" "k = cfg_num_occupied_stations (cls_config s)"
    and "rwr_valid i s"
  shows "cls_iefb_get_rww_value i s = Returns (le16_at rww (2 * unat i))"
proof -
  have "2 * unat i + 1 < 64 * k" using assms(3,4) by (simp add: rwr_valid_def)
  then show ?thesis using take_nth [OF assms(1)] assms(2,4) by (simp add: get_rww_value_eq le16_at_def)
qed

text \<open>What the application reads after a request of the connected master.\<close>

lemma slave_reads_request:
  assumes inv: "cls_inv s" and rec: "received_request bs ip port my r" and cont: "continues_connection s r"
  defines "k \<equiv> cfg_num_occupied_stations (cls_config s)" and "n \<equiv> ma_slave_station_no (cls_master s)"
  shows "\<exists>s' outs. cls_iefb_handle_input_frame now bs ip port my s = Returns (True, s') \<and>
    cls_state s' = CLS_SLAVE_STATE_MASTER_CONTROL \<and>
    cls_receive_timer s' = cl_timer_restart now (cls_receive_timer s) \<and>
    cls_out s' = cls_out s @ outs @ [Udp_Send ip port (cyclic_response s r)] \<and>
    (\<forall>i. unat i < 64 * k \<longrightarrow> cls_iefb_get_ry_bit i s' =
       Returns (my_transmission_bit s r \<and> bit (request_ry r n k ! (unat i div 8)) (unat i mod 8))) \<and>
    (\<forall>i. unat i < 32 * k \<longrightarrow> cls_iefb_get_rww_value i s' =
       Returns (if my_transmission_bit s r then le16_at (request_rww r n k) (2 * unat i) else 0))"
proof -
  obtain s' outs where s': "cls_iefb_handle_input_frame now bs ip port my s = Returns (True, s')"
    "cls_state s' = CLS_SLAVE_STATE_MASTER_CONTROL" "cls_config s' = cls_config s"
    "take (8 * k) (cls_ry s') = (if my_transmission_bit s r then request_ry r n k else replicate (8 * k) 0)"
    "take (64 * k) (cls_rww s') = (if my_transmission_bit s r then request_rww r n k else replicate (64 * k) 0)"
    "cls_receive_timer s' = cl_timer_restart now (cls_receive_timer s)"
    "cls_out s' = cls_out s @ outs @ [Udp_Send ip port (cyclic_response s r)]"
    using correct_master_frame [OF inv rec cont, of now] unfolding k_def n_def by blast
  have fits: "station_fits r n k" using cont by (simp add: continues_connection_def Let_def n_def k_def)
  note len = length_request_areas [OF received_request_ok [OF rec] fits]
  have ry: "cls_iefb_get_ry_bit i s' = Returns (my_transmission_bit s r \<and> bit (request_ry r n k ! (unat i div 8)) (unat i mod 8))"
    if "unat i < 64 * k" for i
  proof -
    have "unat i div 8 < 8 * k" using that by (simp add: div_less_iff_less_mult)
    then show ?thesis
      using received_ry_bit [OF s'(4)] that s'(3) len by (simp add: rx_valid_def k_def split: if_splits)
  qed
  have zero: "le16_at (replicate m 0) j = 0" if "j + 1 < m" for m j
    using that by (simp add: le16_at_def make16_def)
  have rww: "cls_iefb_get_rww_value i s' = Returns (if my_transmission_bit s r then le16_at (request_rww r n k) (2 * unat i) else 0)"
    if "unat i < 32 * k" for i
    using received_rww_value [OF s'(5)] that s'(3) len zero [of "2 * unat i" "64 * k"]
    by (simp add: rwr_valid_def k_def split: if_splits)
  show ?thesis using s' ry rww by blast
qed

end
