(* ===== verification/CL_System.thy ===== *)
theory CL_System
  imports CLM_Inputs CLS_Behaviour
begin

text \<open>
  Master and slave together.  The request a master builds for a link scan is parsed by the slave
  code (\<open>parse_built_request\<close> of CL\_IEFB gives the frame layout); here it is followed from the
  group state machine of the master, through the datagram, to the lookup a slave makes in the list
  of slave addresses and to the data areas its application reads.
\<close>

section \<open>Requests reach the slaves\<close>

lemma station_cover:
  assumes "group_fits gs" "k < stations_of gs"
  shows "\<exists>di j. di < gs_num_slave_devices gs \<and> j < device_occ gs di \<and> k = station_no gs di - 1 + j"
proof -
  have "\<exists>di j. di < n \<and> j < device_occ gs di \<and> k = station_no gs di - 1 + j"
    if "n \<le> gs_num_slave_devices gs" "k < station_no gs n - 1" for n
    using that
  proof (induction n)
    case 0 then show ?case by (simp add: station_no_def)
  next
    case (Suc n)
    have s: "station_no gs (Suc n) = station_no gs n + device_occ gs n" "1 \<le> station_no gs n"
      using station_no_Suc [OF assms(1), of n] Suc.prems(1) by (simp_all add: device_occ_def station_no_def)
    show ?case
    proof (cases "k < station_no gs n - 1")
      case True then show ?thesis using Suc by (auto intro: less_SucI)
    next
      case False
      then have "k = station_no gs n - 1 + (k - (station_no gs n - 1))" "k - (station_no gs n - 1) < device_occ gs n"
        using Suc.prems(2) s by simp_all
      then show ?thesis by blast
    qed
  qed
  from this [of "gs_num_slave_devices gs"] assms(2) show ?thesis by (simp add: station_no_last)
qed

lemma slave_ids_valid:
  assumes good: "good_config cfg" and gi: "gi < hi_number_of_groups (mc_hier cfg)" and gs: "gs = hi_groups (mc_hier cfg) ! gi"
    and di: "di < gs_num_slave_devices gs"
  shows "sd_slave_id (gs_slave_devices gs ! di) \<noteq> 0" "sd_slave_id (gs_slave_devices gs ! di) \<noteq> CL_CCIEFB_MULTISTATION_INDICATOR"
    "dj < gs_num_slave_devices gs \<Longrightarrow> dj \<noteq> di \<Longrightarrow> sd_slave_id (gs_slave_devices gs ! dj) \<noteq> sd_slave_id (gs_slave_devices gs ! di)"
    "mc_master_id cfg \<noteq> 0" "mc_protocol_ver cfg \<in> {1, 2}"
proof -
  obtain mg ms where o: "config_valid mg ms cfg" "arrays_ok cfg" "distinct (slave_ids_of cfg)" using good by (auto simp: good_config_def)
  have m: "gs \<in> set (groups_of cfg)" using gi gs o(2) by (auto simp: groups_of_def arrays_ok_def in_set_conv_nth)
  then have v: "group_valid ms (mc_master_id cfg) gs" and l: "gs_num_slave_devices gs \<le> length (gs_slave_devices gs)"
    using o by (auto simp: config_valid_def arrays_ok_def)
  have d: "gs_slave_devices gs ! di \<in> set (devices_of gs)" using di l by (auto simp: devices_of_def in_set_conv_nth)
  then have r: "cl_utils_is_ipaddr_range_valid (sd_slave_id (gs_slave_devices gs ! di))" using v by (auto simp: group_valid_def device_valid_def)
  have nz: "cl_utils_is_ipaddr_range_valid x \<Longrightarrow> x \<noteq> 0 \<and> x \<noteq> CL_CCIEFB_MULTISTATION_INDICATOR" for x
    by (auto simp: cl_utils_is_ipaddr_range_valid_def cl_consts Let_def)
  show "sd_slave_id (gs_slave_devices gs ! di) \<noteq> 0" "sd_slave_id (gs_slave_devices gs ! di) \<noteq> CL_CCIEFB_MULTISTATION_INDICATOR"
    using nz [OF r] by simp_all
  show "mc_master_id cfg \<noteq> 0" "mc_protocol_ver cfg \<in> {1, 2}" using o(1) nz by (auto simp: config_valid_def)
  have "distinct (map sd_slave_id (devices_of gs))" using o(3) m by (auto simp: slave_ids_of_def distinct_concat_iff)
  then show "sd_slave_id (gs_slave_devices gs ! dj) \<noteq> sd_slave_id (gs_slave_devices gs ! di)"
    if "dj < gs_num_slave_devices gs" "dj \<noteq> di"
    using that di l by (auto simp: devices_of_def distinct_conv_nth)
qed

lemma le32_at_take: "i + 4 \<le> m \<Longrightarrow> m \<le> length buf \<Longrightarrow> le32_at (take m buf) i = le32_at buf i"
  by (simp add: le32_at_def)

lemma take_drop_slice: "i + n \<le> m \<Longrightarrow> take n (drop i (take m buf)) = slice buf i n"
  by (simp add: slice_def drop_take min_def)

lemma slave_found_in_ids:
  assumes good: "good_config cfg" and gi: "gi < hi_number_of_groups (mc_hier cfg)" and gs: "gs = hi_groups (mc_hier cfg) ! gi"
    and di: "di < gs_num_slave_devices gs" and ok: "ids_ok gs f"
    and mine: "row_id f (station_no gs di - 1) = sd_slave_id (gs_slave_devices gs ! di)"
  shows "analyze_ids (sd_slave_id (gs_slave_devices gs ! di)) (map (row_id f) [0..<stations_of gs]) 1 False False 0 0 =
    Some (True, station_no gs di, device_occ gs di)"
proof -
  let ?my = "sd_slave_id (gs_slave_devices gs ! di)" and ?k = "station_no gs di - 1" and ?o = "device_occ gs di" and ?t = "stations_of gs"
  have fits: "group_fits gs" by (rule good_config_group(1) [OF good gi gs])
  note v = slave_ids_valid [OF good gi gs di]
  note r = station_no_range [OF fits di]
  have k: "?k + ?o \<le> ?t" "1 \<le> ?o" "Suc ?k = station_no gs di" using r by (simp_all add: device_occ_def)
  have entry: "row_id f k \<noteq> ?my \<and> (k < ?k \<or> ?k + ?o \<le> k \<longrightarrow> k = ?k + ?o \<longrightarrow> row_id f k \<noteq> - 1) \<or> k = ?k" if "k < ?t" for k
  proof -
    from station_cover [OF fits that] obtain dj j where
      j: "dj < gs_num_slave_devices gs" "j < device_occ gs dj" "k = station_no gs dj - 1 + j" by blast
    show ?thesis
    proof (cases "j = 0")
      case True
      have "row_id f k \<in> {sd_slave_id (gs_slave_devices gs ! dj), CL_IPADDR_INVALID}" using ok j True by (simp add: ids_ok_def)
      then show ?thesis using v(1) v(3) [of dj] j True slave_ids_valid(2) [OF good gi gs j(1)]
        by (cases "dj = di") (auto simp: CL_IPADDR_INVALID_def CL_CCIEFB_MULTISTATION_INDICATOR_def)
    next
      case False
      have e: "row_id f k = CL_CCIEFB_MULTISTATION_INDICATOR" using ok j False by (simp add: ids_ok_def)
      have "k \<noteq> ?k + ?o" if "dj \<noteq> di"
      proof -
        note rj = station_no_range [OF fits j(1)]
        show ?thesis using stations_apart [OF fits di j(1)] that j False rj r k by (auto simp: device_occ_def)
      qed
      moreover have "k \<noteq> ?k + ?o" if "dj = di" using that j by simp
      ultimately show ?thesis using e v(2) by auto
    qed
  qed
  have mult: "row_id f (?k + j) = - 1" if "1 \<le> j" "j < ?o" for j
    using ok di that by (simp add: ids_ok_def CL_CCIEFB_MULTISTATION_INDICATOR_def)
  define xs where "xs = map (row_id f) [0..<?k]"
  define ys where "ys = map (row_id f) [Suc ?k..<?t]"
  have "[0..<?t] = [0..<?k] @ ?k # [Suc ?k..<?t]" using k upt_add_eq_append [of 0 ?k "?t - ?k"] by (simp add: upt_conv_Cons)
  then have ids: "map (row_id f) [0..<?t] = xs @ ?my # ys" using mine by (simp add: xs_def ys_def)
  have other: "row_id f k \<noteq> ?my" if "k < ?t" "k \<noteq> ?k" for k using entry [OF that(1)] that(2) by blast
  have nx: "?my \<notin> set xs" "?my \<notin> set ys" using other k by (auto simp: xs_def ys_def dest!: sym [of ?my])
  have split: "ys = replicate (?o - 1) (- 1) @ map (row_id f) [?k + ?o..<?t]"
  proof (rule nth_equalityI)
    fix i assume i: "i < length ys"
    then have "ys ! i = row_id f (Suc ?k + i)" by (simp add: ys_def)
    then show "ys ! i = (replicate (?o - 1) (- 1) @ map (row_id f) [?k + ?o..<?t]) ! i"
      using mult [of "Suc i"] i k by (simp add: nth_append ys_def)
  qed (use k in \<open>simp add: ys_def\<close>)
  have "takeWhile (\<lambda>x. x = - 1) (map (row_id f) [?k + ?o..<?t]) = []"
  proof (cases "?k + ?o < ?t")
    case True
    then have "row_id f (?k + ?o) \<noteq> - 1" using entry [of "?k + ?o"] k(2) by auto
    then show ?thesis using True by (simp add: upt_conv_Cons)
  qed simp
  then have "length (takeWhile (\<lambda>x. x = - 1) ys) = ?o - 1" unfolding split by (subst takeWhile_append2) simp_all
  then show ?thesis using analyze_ids_spec(2) [OF ids nx] k by (simp add: xs_def)
qed

text \<open>What a request says to one device: its address at its station, the transmission bit and the data.\<close>

definition request_for_device :: "cls_request \<Rightarrow> clm_group_setting \<Rightarrow> clm_group_memory_area \<Rightarrow> nat \<Rightarrow> bool \<Rightarrow> bool" where
  "request_for_device r gs mem di valid \<longleftrightarrow>
     (let n = station_no gs di; occ = device_occ gs di; my = sd_slave_id (gs_slave_devices gs ! di) in
      cl_iefb_analyze_slave_ids my (rq_total_occupied r) (rq_buffer r) (rq_first_slave_id r) = Some (True, n, occ) \<and>
      le32_at (rq_buffer r) (67 + 4 * (n - 1)) = my \<and>
      cl_iefb_extract_my_transmission_state (qdh_cyclic_transmission_state (qf_cyclic_data_header (rq_full_headers r))) n = valid \<and>
      request_rww r n occ = (if valid then slice (mem_rww mem) (64 * (n - 1)) (64 * occ) else replicate (64 * occ) 0) \<and>
      request_ry r n occ = (if valid then slice (mem_ry mem) (8 * (n - 1)) (8 * occ) else replicate (8 * occ) 0))"

lemma built_request_received:
  assumes f: "request_frame_wf f n" "1 \<le> n" "n \<le> 16"
    and h: "dec_req_full_headers (mq_buffer f) 0 = updated_request_headers (initial_request_headers (67 + 76 * n) v t c m g n p) sqn ck u trs"
    and v: "v \<in> {1, 2}" "1 \<le> unat g" "unat g \<le> 64" "m \<noteq> 0" "u AND (if v = 1 then 0xFFFE else 0xFFFC) = 0" and my: "my \<noteq> 0"
  shows "\<exists>r. received_request (take (mq_udp_payload_len f) (mq_buffer f)) m port my r \<and> rq_buffer r = take (mq_udp_payload_len f) (mq_buffer f) \<and>
    rq_total_occupied r = n \<and> rq_first_slave_id r = 67 \<and>
    rq_full_headers r = updated_request_headers (initial_request_headers (67 + 76 * n) v t c m g n p) sqn ck u trs"
proof -
  let ?h = "updated_request_headers (initial_request_headers (67 + 76 * n) v t c m g n p) sqn ck u trs"
  have dl: "unat (of_nat (58 + 76 * n) :: u16) = 58 + 76 * n" "unat (of_nat n :: u16) = n"
    using f by (auto intro!: unat_of_nat_u16 simp del: of_nat_add of_nat_mult)
  have cnt: "unat (qdh_slave_total_occupied_station_count (qf_cyclic_data_header ?h)) = n"
    using dl(2) by (simp add: updated_request_headers_def initial_request_headers_def)
  note p = parse_built_request [OF f(1) f(2,3) h initial_request_valid [OF v(1) f(2,3) v(2-5)] cnt, of port my]
  have hd: "cl_iefb_validate_request_header (qf_req_header ?h) (67 + 76 * n)" "rqh_command (qf_req_header ?h) = CL_SLMP_COMMAND_CCIEFB_CYCLIC"
    "rqh_sub_command (qf_req_header ?h) = CL_SLMP_SUBCOMMAND_CCIEFB_CYCLIC"
    using dl(1) by (simp_all add: updated_request_headers_def initial_request_headers_def cl_iefb_validate_request_header_def
        CL_CCIEFB_DL_OFFSET_def del: of_nat_add of_nat_mult)
  have len: "length (take (mq_udp_payload_len f) (mq_buffer f)) = 67 + 76 * n" "mq_first_slave_id f = 67"
    using f(1) by (simp_all add: request_frame_wf_def)
  show ?thesis using p hd len my cnt by (auto simp: received_request_def rq_total_occupied_def)
qed

lemma scan_request_received:
  assumes good: "good_config cfg" and gi: "gi < hi_number_of_groups (mc_hier cfg)" and gs: "gs = hi_groups (mc_hier cfg) ! gi"
    and u: "u AND (if mc_protocol_ver cfg = 1 then 0xFFFE else 0xFFFC) = 0" and started: "scan_started cfg gi now ck u g g'" and my: "my \<noteq> 0"
  shows "\<exists>r. received_request (request_payload g') (mc_master_id cfg) port my r \<and> rq_total_occupied r = stations_of gs \<and>
    qdh_frame_sequence_no (qf_cyclic_data_header (rq_full_headers r)) = gd_frame_sequence_no g \<and>
    unat (qdh_group_no (qf_cyclic_data_header (rq_full_headers r))) = gi + 1 \<and>
    qdh_parameter_no (qf_cyclic_data_header (rq_full_headers r)) = request_parameter_no g \<and>
    connection_period r = ucast (cl_calculate_total_timeout_us (gs_timeout_value gs) (gs_parallel_off_timeout_count gs)) \<and>
    (\<forall>di < gs_num_slave_devices gs. dd_enabled (gd_slave_devices g ! di) \<longrightarrow>
       request_for_device r gs (gd_memory_area g) di
         (scan_state (gd_slave_devices g ! di) = CLM_DEVICE_STATE_CYCLIC_SENDING \<or> dd_force_transmission_bit (gd_slave_devices g ! di)))"
proof -
  note gc = good_config_group [OF good gi gs]
  let ?f = "gd_req_frame g'" and ?n = "stations_of gs"
  have s: "group_ready cfg gi g'" "gd_memory_area g' = gd_memory_area g" "gd_frame_sequence_no g' = gd_frame_sequence_no g"
    "\<forall>di < gs_num_slave_devices gs. scanned gs g g' di" "sent_headers cfg gi g' ck u (dec_req_full_headers (mq_buffer ?f) 0)"
    using started gs by (simp_all add: scan_started_def Let_def)
  have fok: "frame_ok ?n ?f" and ids: "ids_ok gs ?f" using s(1) gs by (simp_all add: group_ready_def Let_def)
  obtain p where h: "dec_req_full_headers (mq_buffer ?f) 0 = updated_request_headers (initial_request_headers (67 + 76 * ?n) (mc_protocol_ver cfg)
        (gs_timeout_value gs) (gs_parallel_off_timeout_count gs) (mc_master_id cfg) (of_nat gi + 1) ?n p)
        (gd_frame_sequence_no g') ck u (gd_cyclic_transmission_state g')" (is "_ = ?h")
    using s(5) gs by (auto simp: sent_headers_def Let_def)
  have "0 < gs_num_slave_devices gs" using gc(2) by simp
  note sv = slave_ids_valid [OF good gi gs this]
  have gno: "unat (of_nat gi + 1 :: u16) = gi + 1"
    using gc(5) unat_of_nat_u16 [of "gi + 1"] by (simp add: add.commute)
  have gno8: "unat (ucast ((of_nat gi + 1 :: u16) AND 0xFF) :: u8) = gi + 1"
    using gc(5) gno and_low_bits [of "of_nat gi + 1 :: u16" 8] by (simp add: unsigned_ucast_eq mask_eq_exp_minus_1 take_bit_nat_eq_self)
  have n16: "?n \<le> 16" using gc(1) by (simp add: group_fits_def)
  have wf: "request_frame_wf ?f ?n" using fok by (simp add: frame_ok_def)
  from built_request_received [OF wf gc(3) n16 h sv(5) _ _ sv(4) u my, of port] gno gc(5) obtain r where
    r: "received_request (request_payload g') (mc_master_id cfg) port my r" "rq_buffer r = request_payload g'" "rq_total_occupied r = ?n"
      "rq_first_slave_id r = 67" "rq_full_headers r = ?h" unfolding request_payload_def by auto
  have pl: "request_payload g' = take (67 + 76 * ?n) (mq_buffer ?f)" using wf by (simp add: request_payload_def request_frame_wf_def)
  note d = frame_okD [OF fok]
  have hd: "qdh_frame_sequence_no (qf_cyclic_data_header ?h) = gd_frame_sequence_no g'"
    "qdh_cyclic_transmission_state (qf_cyclic_data_header ?h) = gd_cyclic_transmission_state g'"
    "qdh_group_no (qf_cyclic_data_header ?h) = ucast ((of_nat gi + 1 :: u16) AND 0xFF)"
    by (simp_all add: updated_request_headers_def initial_request_headers_def)
  have ids_eq: "request_slave_ids (request_payload g') 67 ?n = map (row_id ?f) [0..<?n]"
    using d by (auto simp: request_slave_ids_def row_id_def pl le32_at_take)
  have "request_for_device r gs (gd_memory_area g) di valid"
    if di: "di < gs_num_slave_devices gs" and en: "dd_enabled (gd_slave_devices g ! di)"
      and valid: "valid = (scan_state (gd_slave_devices g ! di) = CLM_DEVICE_STATE_CYCLIC_SENDING \<or> dd_force_transmission_bit (gd_slave_devices g ! di))" for di valid
  proof -
    let ?k = "station_no gs di - 1" and ?o = "device_occ gs di" and ?my = "sd_slave_id (gs_slave_devices gs ! di)"
    note range = station_no_range [OF gc(1) di]
    have k: "?k + ?o \<le> ?n" "1 \<le> ?o" using range by (simp_all add: device_occ_def)
    have row: "device_row gs g' di = row_data gs g di ?my valid" using s(4) di en valid by (simp add: scanned_def Let_def)
    then have rows: "row_id ?f ?k = ?my" "bit (gd_cyclic_transmission_state g') ?k = valid"
      "row_rww ?f ?k ?o = (if valid then slice (mem_rww (gd_memory_area g)) (64 * ?k) (64 * ?o) else replicate (64 * ?o) 0)"
      "row_ry ?f ?k ?o = (if valid then slice (mem_ry (gd_memory_area g)) (8 * ?k) (8 * ?o) else replicate (8 * ?o) 0)"
      by (simp_all add: device_row_def row_data_def Let_def)
    have "cl_iefb_analyze_slave_ids ?my ?n (request_payload g') 67 = Some (True, station_no gs di, ?o)"
      using analyze_slave_ids_eq [OF slave_ids_valid(1) [OF good gi gs di] gc(3) n16] slave_found_in_ids [OF good gi gs di ids rows(1)] ids_eq by simp
    moreover have "le32_at (request_payload g') (67 + 4 * ?k) = ?my"
      using rows(1) k d by (simp add: row_id_def pl le32_at_take)
    moreover have "request_rww r (station_no gs di) ?o = row_rww ?f ?k ?o" "request_ry r (station_no gs di) ?o = row_ry ?f ?k ?o"
      unfolding request_rww_def request_ry_def r(2,3) pl row_rww_def row_ry_def d using k by (simp_all add: take_drop_slice)
    ultimately show ?thesis
      using rows range r(2-5) hd(2) by (simp add: request_for_device_def Let_def extract_transmission_bit)
  qed
  moreover have "qdh_parameter_no (qf_cyclic_data_header (rq_full_headers r)) = request_parameter_no g"
  proof -
    have "request_parameter_no g' = request_parameter_no g" using started by (simp add: scan_started_def Let_def)
    then show ?thesis unfolding request_parameter_no_def r(5) h [symmetric] .
  qed
  moreover have "connection_period r = ucast (cl_calculate_total_timeout_us (gs_timeout_value gs) (gs_parallel_off_timeout_count gs))"
    unfolding connection_period_def r(5) by (simp add: updated_request_headers_def initial_request_headers_def)
  ultimately show ?thesis using r hd(1,3) s(3) gno8 by (intro exI [of _ r]) simp
qed

section \<open>A link scan that times out\<close>

definition stays_connected :: "clm_group_setting \<Rightarrow> clm_slave_device_data \<Rightarrow> bool" where
  "stays_connected gs d \<longleftrightarrow> dd_device_state d = CLM_DEVICE_STATE_CYCLIC_SENT \<or>
     dd_device_state d = CLM_DEVICE_STATE_CYCLIC_SENDING \<and> dd_timeout_count d + 1 < gs_parallel_off_timeout_count gs"

lemma scan_state_after_timeout:
  assumes "dd_device_state d \<in> live_states" "dd_enabled d"
  shows "scan_state (after_event gs CLM_DEVICE_EVENT_GROUP_TIMEOUT d) = CLM_DEVICE_STATE_CYCLIC_SENDING \<longleftrightarrow> stays_connected gs d"
  using assms by (auto simp: scan_state_def after_event_def Let_def stays_connected_def live_states_def upd_statistics_def not_le)

lemma monitor_resends:
  assumes inv: "clm_inv clm" and gi: "gi < number_of_groups clm" and st: "state_of_group clm gi = CLM_GROUP_STATE_MASTER_LINK_SCAN"
    and e: "cl_timer_is_expired (gd_response_wait_timer (clm_groups clm ! gi)) now"
    and gs: "gs = hi_groups (mc_hier (clm_config clm)) ! gi"
    and g: "g = (clm_groups clm ! gi)\<lparr>gd_response_wait_timer := cl_timer_stop (gd_response_wait_timer (clm_groups clm ! gi))\<rparr>"
  shows "\<exists>clm' g' ck outs t. monitor_group_timers now clock gi clm = Returns clm' \<and>
    clm_groups clm' ! gi = g'\<lparr>gd_constant_linkscan_timer := t\<rparr> \<and>
    clm_out clm' = clm_out clm @ outs @ [Request_Sent (clm_iefb_broadcast_ip clm) (request_payload g')] \<and>
    scan_started (clm_config clm) gi now ck (clm_master_local_unit_info clm)
      ((scan_ended gs CLM_DEVICE_EVENT_GROUP_TIMEOUT g)\<lparr>gd_group_state := CLM_GROUP_STATE_MASTER_LINK_SCAN\<rparr>) g'"
proof -
  let ?c = "set_group gi g clm"
  have mo: "master_ok clm" "gi < length (clm_groups clm)" "group_inv (clm_config clm) gi (clm_groups clm ! gi)"
    using inv gi by (simp_all add: clm_inv_def groups_inv_def master_ok_def)
  have mc: "master_ok ?c" using mo(1) only_group_ok [OF only_group_set] by blast
  have "group_ready (clm_config clm) gi g" using group_inv_ready [OF mo(3)] by (simp add: g group_ready_fields)
  then have at: "at_group g gi ?c" using mc gi mo(2) by (simp add: at_group_def)
  have st': "gd_group_state g = CLM_GROUP_STATE_MASTER_LINK_SCAN" using st by (simp add: g)
  have gs': "gs = hi_groups (mc_hier (clm_config ?c)) ! gi" using gs by simp
  from timeout_restarts [OF at st' gs', of now clock] obtain c g' ck outs where
    c: "clm_iefb_group_fsm_event now clock gi CLM_GROUP_EVENT_LINKSCAN_TIMEOUT ?c = Returns c" "only_group gi ?c c" "clm_groups c ! gi = g'"
      "scan_started (clm_config clm) gi now ck (clm_master_local_unit_info clm)
        ((scan_ended gs CLM_DEVICE_EVENT_GROUP_TIMEOUT g)\<lparr>gd_group_state := CLM_GROUP_STATE_MASTER_LINK_SCAN\<rparr>) g'"
      "clm_out c = clm_out clm @ outs @ [Request_Sent (clm_iefb_broadcast_ip clm) (request_payload g')]"
    by auto
  have s': "gd_group_state g' = CLM_GROUP_STATE_MASTER_LINK_SCAN" using c(4) by (simp add: scan_started_def Let_def)
  let ?d = "set_group gi (g'\<lparr>gd_constant_linkscan_timer := cl_timer_stop (gd_constant_linkscan_timer g')\<rparr>) c"
  have gl: "gi < length (clm_groups c)" "group_tables c"
    using mo(2) c(2) only_group_ok [OF c(2) mc] by (simp_all add: only_group_def master_ok_def)
  have idle: "clm_iefb_group_fsm_event now clock gi CLM_GROUP_EVENT_LINKSCAN_START ?d = Returns ?d"
    by (rule group_event_idle) (use gl s' in \<open>simp_all add: group_tables_def group_find_live\<close>)
  have same: "\<exists>t. clm_groups c ! gi = (clm_groups c ! gi)\<lparr>gd_constant_linkscan_timer := t\<rparr>"
    by (rule exI [of _ "gd_constant_linkscan_timer (clm_groups c ! gi)"]) simp
  have run: "\<exists>clm' t. monitor_group_timers now clock gi clm = Returns clm' \<and> clm_out clm' = clm_out c \<and>
      clm_groups clm' ! gi = g'\<lparr>gd_constant_linkscan_timer := t\<rparr>"
    using e c(1,3) idle gl(1) same by (auto simp: monitor_group_timers_def Let_def g)
  show ?thesis using run c(4,5) by auto
qed

text \<open>The request that is sent then, for any slave that receives it.\<close>

lemma timeout_request:
  assumes inv: "clm_inv clm" and gi: "gi < number_of_groups clm" and st: "state_of_group clm gi = CLM_GROUP_STATE_MASTER_LINK_SCAN"
    and e: "cl_timer_is_expired (gd_response_wait_timer (clm_groups clm ! gi)) now" and my: "my \<noteq> 0"
  defines "gs \<equiv> hi_groups (mc_hier (clm_config clm)) ! gi" and "g \<equiv> clm_groups clm ! gi"
  shows "\<exists>clm' bs r outs. monitor_group_timers now clock gi clm = Returns clm' \<and>
    clm_out clm' = clm_out clm @ outs @ [Request_Sent (clm_iefb_broadcast_ip clm) bs] \<and>
    received_request bs (mc_master_id (clm_config clm)) port my r \<and> rq_total_occupied r = stations_of gs \<and>
    qdh_frame_sequence_no (qf_cyclic_data_header (rq_full_headers r)) = clm_iefb_update_frame_sequence_no (gd_frame_sequence_no g) \<and>
    unat (qdh_group_no (qf_cyclic_data_header (rq_full_headers r))) = gi + 1 \<and>
    qdh_parameter_no (qf_cyclic_data_header (rq_full_headers r)) = request_parameter_no g \<and>
    (\<forall>di < gs_num_slave_devices gs. dd_enabled (gd_slave_devices g ! di) \<longrightarrow>
       request_for_device r gs (gd_memory_area g) di
         (stays_connected gs (gd_slave_devices g ! di) \<or> dd_force_transmission_bit (gd_slave_devices g ! di)))"
proof -
  define g0 where "g0 = (clm_groups clm ! gi)\<lparr>gd_response_wait_timer := cl_timer_stop (gd_response_wait_timer (clm_groups clm ! gi))\<rparr>"
  have gs': "gs = hi_groups (mc_hier (clm_config clm)) ! gi" by (simp add: gs_def)
  have mo: "good_config (clm_config clm)" "unit_info_ok clm" "group_ready (clm_config clm) gi g"
    using inv gi group_inv_ready by (simp_all add: clm_inv_def groups_inv_def master_ok_def g_def)
  let ?h = "(scan_ended gs CLM_DEVICE_EVENT_GROUP_TIMEOUT g0)\<lparr>gd_group_state := CLM_GROUP_STATE_MASTER_LINK_SCAN\<rparr>"
  from monitor_resends [OF inv gi st e gs' g0_def, of clock] obtain c g' ck outs where
    c: "monitor_group_timers now clock gi clm = Returns c"
      "clm_out c = clm_out clm @ outs @ [Request_Sent (clm_iefb_broadcast_ip clm) (request_payload g')]"
      "scan_started (clm_config clm) gi now ck (clm_master_local_unit_info clm) ?h g'" by blast
  from scan_request_received [OF mo(1) gi gs' mo(2) [unfolded unit_info_ok_def] c(3) my, of port] obtain r where
    r: "received_request (request_payload g') (mc_master_id (clm_config clm)) port my r" "rq_total_occupied r = stations_of gs"
      "qdh_frame_sequence_no (qf_cyclic_data_header (rq_full_headers r)) = gd_frame_sequence_no ?h"
      "unat (qdh_group_no (qf_cyclic_data_header (rq_full_headers r))) = gi + 1"
      "qdh_parameter_no (qf_cyclic_data_header (rq_full_headers r)) = request_parameter_no ?h"
      "\<forall>di < gs_num_slave_devices gs. dd_enabled (gd_slave_devices ?h ! di) \<longrightarrow> request_for_device r gs (gd_memory_area ?h) di
         (scan_state (gd_slave_devices ?h ! di) = CLM_DEVICE_STATE_CYCLIC_SENDING \<or> dd_force_transmission_bit (gd_slave_devices ?h ! di))" by blast
  have dev: "gd_slave_devices ?h ! di = after_event gs CLM_DEVICE_EVENT_GROUP_TIMEOUT (gd_slave_devices g ! di)"
      "dd_device_state (gd_slave_devices g ! di) \<in> live_states" if "di < gs_num_slave_devices gs" for di
    using map_devices_nth(2) [of "gs_num_slave_devices gs" "g0\<lparr>gd_group_state := CLM_GROUP_STATE_MASTER_LINK_SCAN_COMP\<rparr>" di] that
      group_ready_length [OF mo(3) gs'] mo(3) gs'
    by (simp_all add: scan_ended_def g0_def g_def group_ready_def device_inv_def Let_def)
  have mem: "gd_memory_area ?h = gd_memory_area g" and sqn: "gd_frame_sequence_no ?h = clm_iefb_update_frame_sequence_no (gd_frame_sequence_no g)"
    by (simp_all add: scan_ended_def g0_def g_def Let_def)
  have pn: "request_parameter_no ?h = request_parameter_no g" by (simp add: request_parameter_no_def scan_ended_def g0_def g_def)
  have "request_for_device r gs (gd_memory_area g) di (stays_connected gs (gd_slave_devices g ! di) \<or> dd_force_transmission_bit (gd_slave_devices g ! di))"
    if di: "di < gs_num_slave_devices gs" and en: "dd_enabled (gd_slave_devices g ! di)" for di
  proof -
    let ?d = "gd_slave_devices ?h ! di"
    have "dd_enabled ?d" "dd_force_transmission_bit ?d = dd_force_transmission_bit (gd_slave_devices g ! di)"
      "(scan_state ?d = CLM_DEVICE_STATE_CYCLIC_SENDING) = stays_connected gs (gd_slave_devices g ! di)"
      unfolding dev(1) [OF di] using en scan_state_after_timeout [OF dev(2) [OF di] en] by simp_all
    then show ?thesis using r(6) di mem by auto
  qed
  then show ?thesis using c(1,2) r(1-5) sqn pn by auto
qed

section \<open>Outputs of the master's application reach the slave's application\<close>

lemma request_data_read:
  assumes inv: "clm_inv clm" and gi: "gi < number_of_groups clm" and gs: "gs = hi_groups (mc_hier (clm_config clm)) ! gi"
    and di: "di < gs_num_slave_devices gs"
    and q: "request_for_device r gs (gd_memory_area (clm_groups clm ! gi)) di True"
  shows "\<And>i. unat i < 64 * device_occ gs di \<Longrightarrow> get_ry (gi, di, i) clm =
      Returns (bit (request_ry r (station_no gs di) (device_occ gs di) ! (unat i div 8)) (unat i mod 8))"
    "\<And>i. unat i < 32 * device_occ gs di \<Longrightarrow> get_rww (gi, di, i) clm =
      Returns (le16_at (request_rww r (station_no gs di) (device_occ gs di)) (2 * unat i))"
proof -
  have gs': "gs = device_setting_at clm gi" by (simp add: gs device_setting_at_def)
  note a = device_areas [OF inv gi gs' di]
  let ?k = "station_no gs di - 1" and ?o = "device_occ gs di"
  have ry: "request_ry r (station_no gs di) ?o = slice (ry_memory clm gi) (8 * ?k) (8 * ?o)"
    and rww: "request_rww r (station_no gs di) ?o = slice (rww_memory clm gi) (64 * ?k) (64 * ?o)"
    using q by (simp_all add: request_for_device_def Let_def)
  show "get_ry (gi, di, i) clm = Returns (bit (request_ry r (station_no gs di) ?o ! (unat i div 8)) (unat i mod 8))"
    if i: "unat i < 64 * ?o" for i
  proof -
    have v: "ry_valid (gi, di, i) clm" using gi di i gs' by (simp add: ry_valid_def div_less_iff_less_mult mult.commute)
    have "8 * (?k + ?o) \<le> length (ry_memory clm gi)" using mult_le_mono2 [OF a(3), of 8] a(4) unfolding a(1) by (rule order_trans)
    moreover have "unat i div 8 < 8 * ?o" using i by (simp add: div_less_iff_less_mult)
    ultimately show ?thesis
      using v bit_single [of "ry_memory clm gi ! ry_byte clm gi di i" "unat i mod 8"]
      by (simp add: ry_access(1) ry slice_def ry_byte_def a(1) del: push_bit_of_1)
  qed
  show "get_rww (gi, di, i) clm = Returns (le16_at (request_rww r (station_no gs di) ?o) (2 * unat i))"
    if i: "unat i < 32 * ?o" for i
  proof -
    have v: "rww_valid (gi, di, i) clm" using gi di i gs' by (simp add: rww_valid_def div_less_iff_less_mult mult.commute)
    have "64 * (?k + ?o) \<le> length (rww_memory clm gi)" using mult_le_mono2 [OF a(3), of 64] a(5) unfolding a(1) by (rule order_trans)
    then show ?thesis using v i by (simp add: rww_access(1) rww slice_def rww_byte_def a(1) le16_at_def)
  qed
qed

section \<open>Inputs of the slave's application reach the master's application\<close>

lemma slave_id_not_master:
  assumes good: "good_config cfg" and gi: "gi < hi_number_of_groups (mc_hier cfg)" and gs: "gs = hi_groups (mc_hier cfg) ! gi"
    and di: "di < gs_num_slave_devices gs"
  shows "sd_slave_id (gs_slave_devices gs ! di) \<noteq> mc_master_id cfg"
proof -
  obtain mg ms where o: "config_valid mg ms cfg" "arrays_ok cfg" using good by (auto simp: good_config_def)
  have m: "gs \<in> set (groups_of cfg)" using gi gs o(2) by (auto simp: groups_of_def arrays_ok_def in_set_conv_nth)
  then have v: "group_valid ms (mc_master_id cfg) gs" and l: "gs_num_slave_devices gs \<le> length (gs_slave_devices gs)"
    using o by (auto simp: config_valid_def arrays_ok_def)
  have "gs_slave_devices gs ! di \<in> set (devices_of gs)" using di l by (auto simp: devices_of_def in_set_conv_nth)
  then show ?thesis using v by (auto simp: group_valid_def device_valid_def)
qed

lemma device_index_found:
  assumes good: "good_config cfg" and gi: "gi < hi_number_of_groups (mc_hier cfg)" and gs: "gs = hi_groups (mc_hier cfg) ! gi"
    and di: "di < gs_num_slave_devices gs"
  shows "clm_iefb_calc_slave_device_index gs (sd_slave_id (gs_slave_devices gs ! di)) = Some di"
proof -
  let ?ip = "sd_slave_id (gs_slave_devices gs ! di)"
  have "find_device gs ?ip [0..<gs_num_slave_devices gs] \<noteq> None" using find_device_None [of gs ?ip] di by auto
  then obtain dj where dj: "find_device gs ?ip [0..<gs_num_slave_devices gs] = Some dj" by blast
  have "dj < gs_num_slave_devices gs" "sd_slave_id (gs_slave_devices gs ! dj) = ?ip" using find_device_Some [OF dj] by simp_all
  then have "dj = di" using slave_ids_valid(3) [OF good gi gs di, of dj] by blast
  then show ?thesis using dj by (simp add: clm_iefb_calc_slave_device_index_def)
qed

text \<open>The master has an enabled device whose answer with this sequence number is due.\<close>

definition awaits_response :: "clm \<Rightarrow> nat \<Rightarrow> nat \<Rightarrow> u16 \<Rightarrow> bool" where
  "awaits_response clm gi di sqn \<longleftrightarrow>
     (let g = clm_groups clm ! gi; d = gd_slave_devices g ! di in
      dd_enabled d \<and> (dd_transmission_bit d \<longrightarrow> sqn = gd_frame_sequence_no g) \<and>
      (fv_has_been_received (dd_latest_frame d) \<and> sqn = fv_frame_sequence_no (dd_latest_frame d) \<longrightarrow>
         dd_device_state d = CLM_DEVICE_STATE_LISTEN))"

lemma slave_frame_data:
  assumes inv: "cls_inv s" and k: "k = cfg_num_occupied_stations (cls_config s)"
    and bs: "drop 59 bs = take (72 * k) (drop 59 (sr_buffer (cls_resp_frame_normal s)))"
    and rx: "rx = slice bs (59 + 64 * k) (8 * k)" and rwr: "rwr = slice bs 59 (64 * k)"
  shows "unat i < 64 * k \<Longrightarrow> cls_iefb_get_rx_bit i s = Returns (bit (rx ! (unat i div 8)) (unat i mod 8))"
    "unat i < 32 * k \<Longrightarrow> cls_iefb_get_rwr_value i s = Returns (le16_at rwr (2 * unat i))"
proof -
  let ?b = "sr_buffer (cls_resp_frame_normal s)"
  have wf: "response_frame_wf (cls_resp_frame_normal s) k" "k \<le> 16" using inv k by (simp_all add: inv_defs)
  then have f: "sr_first_rwr (cls_resp_frame_normal s) = 59" "sr_first_rx (cls_resp_frame_normal s) = 59 + 64 * k"
    "59 + 72 * k \<le> length ?b" by (simp_all add: response_frame_wf_def)
  have len: "59 + 72 * k \<le> length bs" if "0 < k" using arg_cong [OF bs, of length] f(3) that by simp
  have nth: "bs ! (59 + j) = ?b ! (59 + j)" if "j < 72 * k" for j
  proof -
    have "drop 59 bs ! j = ?b ! (59 + j)" using that f(3) unfolding bs by simp
    then show ?thesis using len that by simp
  qed
  show "cls_iefb_get_rx_bit i s = Returns (bit (rx ! (unat i div 8)) (unat i mod 8))" if i: "unat i < 64 * k"
  proof -
    have j: "unat i div 8 < 8 * k" "0 < k" using i by (simp_all add: div_less_iff_less_mult)
    have "rx ! (unat i div 8) = ?b ! (59 + 64 * k + unat i div 8)"
      using j len nth [of "64 * k + unat i div 8"] by (simp add: rx slice_def add.assoc)
    then show ?thesis
      using i f k bit_single [of "?b ! (59 + 64 * k + unat i div 8)" "unat i mod 8"]
      by (simp add: get_rx_bit_eq div_less_iff_less_mult mult.commute del: push_bit_of_1)
  qed
  show "cls_iefb_get_rwr_value i s = Returns (le16_at rwr (2 * unat i))" if i: "unat i < 32 * k"
  proof -
    have "rwr ! j = ?b ! (59 + j)" if "j < 64 * k" for j using that len nth [of j] by (simp add: rwr slice_def)
    from this [of "2 * unat i"] this [of "2 * unat i + 1"] show ?thesis
      using i f k by (simp add: get_rwr_value_eq div_less_iff_less_mult mult.commute le16_at_def add.assoc)
  qed
qed

lemma slave_response_parsed:
  assumes inv: "cls_inv s" and r: "request_ok r"
  defines "k \<equiv> cfg_num_occupied_stations (cls_config s)" and "bs \<equiv> cyclic_response s r"
  shows "\<exists>rp h. cl_iefb_parse_cyclic_response bs (rq_slave_ip_addr r) port now = Returns (Some rp) \<and>
    cl_iefb_parse_response_header bs = Some h \<and> cl_iefb_validate_response_header h (length bs) \<and>
    rp_number_of_occupied rp = k \<and> csh_end_code (sf_cyclic_header (rp_full_headers rp)) = CL_SLMP_ENDCODE_SUCCESS \<and>
    sdh_frame_sequence_no (sf_cyclic_data_header (rp_full_headers rp)) =
      qdh_frame_sequence_no (qf_cyclic_data_header (rq_full_headers r)) \<and>
    sdh_group_no (sf_cyclic_data_header (rp_full_headers rp)) = qdh_group_no (qf_cyclic_data_header (rq_full_headers r)) \<and>
    rp_first_rwr rp = 59 \<and> rp_first_rx rp = 59 + 64 * k \<and> length (rp_buffer rp) = 59 + 72 * k \<and>
    drop 59 (rp_buffer rp) = take (72 * k) (drop 59 (sr_buffer
      (if my_transmission_bit s r then cls_resp_frame_normal s else cls_resp_frame_error s)))"
proof -
  let ?f = "if my_transmission_bit s r then cls_resp_frame_normal s else cls_resp_frame_error s"
  let ?h = "qf_cyclic_data_header (rq_full_headers r)"
  have wf: "response_frame_wf ?f k" "1 \<le> k" "k \<le> 16" using inv by (simp_all add: inv_defs k_def)
  have g: "unat (ucast (qdh_group_no ?h) :: u16) = unat (qdh_group_no ?h)"
    using unat_less_pow(2) [of "qdh_group_no ?h"] by (simp add: unsigned_ucast_eq take_bit_nat_eq_self)
  note facts = request_ok_facts [OF r]
  have ui: "cls_slave_application_status s \<in> {0, 1}" using inv by (simp add: inv_defs)
  have range: "1 \<le> unat (ucast (qdh_group_no ?h) :: u16)" "unat (ucast (qdh_group_no ?h) :: u16) \<le> 64"
    using facts g by simp_all
  have gno: "ucast ((ucast (qdh_group_no ?h) :: u16) AND 0xFF) = qdh_group_no ?h"
    using and_low_bits [of "ucast (qdh_group_no ?h) :: u16" 8] unat_less_pow(2) [of "qdh_group_no ?h"] g
    by (intro word_unat_eq_iff [THEN iffD2]) (simp add: unsigned_ucast_eq mask_eq_exp_minus_1 take_bit_nat_eq_self)
  define f' where "f' = cl_iefb_update_cyclic_response_frame ?f (rq_slave_ip_addr r) CL_SLMP_ENDCODE_SUCCESS (ucast (qdh_group_no ?h))
    (qdh_frame_sequence_no ?h) (cls_slave_application_status s) (cls_slave_err_code s) (cls_local_management_info s)"
  have bs: "bs = take (sr_udp_payload_len f') (sr_buffer f')" unfolding bs_def cyclic_response_def f'_def Let_def ..
  note u = update_response_frame_ok(1) [OF wf(1) f'_def]
  have "length bs = sr_udp_payload_len f'" using u by (simp add: bs response_frame_wf_def)
  then show ?thesis using sent_response_parses [OF wf range facts(7) ui f'_def, of port now] unfolding gno bs [symmetric]
    by (elim exE conjE) (intro exI conjI; simp)
qed

text \<open>The master finds the device that a response of a slave comes from, and accepts the response.\<close>

lemma slave_response_handled:
  assumes cinv: "clm_inv clm" and gi: "gi < number_of_groups clm" and gs: "gs = device_setting_at clm gi" and di: "di < gs_num_slave_devices gs"
    and sinv: "cls_inv s" and r: "request_ok r" "rq_slave_ip_addr r = sd_slave_id (gs_slave_devices gs ! di)"
      "unat (qdh_group_no (qf_cyclic_data_header (rq_full_headers r))) = gi + 1"
    and occ: "cfg_num_occupied_stations (cls_config s) = device_occ gs di"
    and due: "awaits_response clm gi di (qdh_frame_sequence_no (qf_cyclic_data_header (rq_full_headers r)))"
  shows "\<exists>rp. clm_iefb_handle_input_frame now clock (cyclic_response s r) (rq_slave_ip_addr r) port clm = handle_device_response now clock gi di rp clm \<and>
    accepts_response clm gi di rp \<and> csh_end_code (sf_cyclic_header (rp_full_headers rp)) = CL_SLMP_ENDCODE_SUCCESS \<and>
    rp_first_rwr rp = 59 \<and> rp_first_rx rp = 59 + 64 * device_occ gs di \<and> length (rp_buffer rp) = 59 + 72 * device_occ gs di \<and>
    drop 59 (rp_buffer rp) = take (72 * device_occ gs di) (drop 59 (sr_buffer
      (if my_transmission_bit s r then cls_resp_frame_normal s else cls_resp_frame_error s)))"
proof -
  have cfg: "good_config (clm_config clm)" using cinv by (simp add: clm_inv_def groups_inv_def master_ok_def)
  have gs': "gs = hi_groups (mc_hier (clm_config clm)) ! gi" using gs by (simp add: device_setting_at_def)
  let ?bs = "cyclic_response s r" and ?k = "device_occ gs di" and ?ip = "rq_slave_ip_addr r"
  from slave_response_parsed [OF sinv r(1), of port now] obtain rp h where
    p: "cl_iefb_parse_cyclic_response ?bs ?ip port now = Returns (Some rp)" "cl_iefb_parse_response_header ?bs = Some h"
      "cl_iefb_validate_response_header h (length ?bs)" "rp_number_of_occupied rp = ?k"
      "csh_end_code (sf_cyclic_header (rp_full_headers rp)) = CL_SLMP_ENDCODE_SUCCESS"
      "sdh_frame_sequence_no (sf_cyclic_data_header (rp_full_headers rp)) = qdh_frame_sequence_no (qf_cyclic_data_header (rq_full_headers r))"
      "sdh_group_no (sf_cyclic_data_header (rp_full_headers rp)) = qdh_group_no (qf_cyclic_data_header (rq_full_headers r))"
      "rp_first_rwr rp = 59" "rp_first_rx rp = 59 + 64 * ?k" "length (rp_buffer rp) = 59 + 72 * ?k"
      "drop 59 (rp_buffer rp) = take (72 * ?k) (drop 59 (sr_buffer (if my_transmission_bit s r then cls_resp_frame_normal s else cls_resp_frame_error s)))"
    unfolding occ by blast
  let ?r = "rp\<lparr>rp_device_index := di\<rparr>"
  have "accepts_response clm gi di ?r" using due p(4,6) gs by (simp add: accepts_response_def awaits_response_def Let_def)
  moreover have "clm_iefb_handle_response_frame now clock ?bs ?ip port clm = handle_device_response now clock gi di ?r clm"
    using p(1,7) r(3) gi device_index_found [OF cfg gi gs' di] r(2) gs' slave_ids_valid(4) [OF cfg gi gs' di]
    by (simp add: clm_iefb_handle_response_frame_def Let_def CL_IPADDR_INVALID_def)
  then have "clm_iefb_handle_input_frame now clock ?bs ?ip port clm = handle_device_response now clock gi di ?r clm"
    using p(2,3) slave_id_not_master [OF cfg gi gs' di] r(2) by (simp add: clm_iefb_handle_input_frame_def)
  ultimately show ?thesis using p(5,8-11) by (intro exI [of _ ?r]) simp
qed

text \<open>
  The master handles the response of a slave: the RX bits and RWr registers that its application
  then reads are those that the slave's application has set.
\<close>

lemma inputs_reach_master:
  assumes cinv: "clm_inv clm" and gi: "gi < number_of_groups clm" and gs: "gs = device_setting_at clm gi" and di: "di < gs_num_slave_devices gs"
    and sinv: "cls_inv s" and r: "request_ok r" "rq_slave_ip_addr r = sd_slave_id (gs_slave_devices gs ! di)"
      "unat (qdh_group_no (qf_cyclic_data_header (rq_full_headers r))) = gi + 1"
    and occ: "cfg_num_occupied_stations (cls_config s) = device_occ gs di"
    and due: "awaits_response clm gi di (qdh_frame_sequence_no (qf_cyclic_data_header (rq_full_headers r)))"
  shows "\<exists>clm'. clm_iefb_handle_input_frame now clock (cyclic_response s r) (rq_slave_ip_addr r) port clm = Returns (True, clm') \<and> clm_inv clm' \<and>
    (my_transmission_bit s r \<and> dd_transmission_bit (gd_slave_devices (clm_groups clm ! gi) ! di) \<longrightarrow>
      (\<forall>i. unat i < 64 * device_occ gs di \<longrightarrow> clm_iefb_get_rx_bit clm' gi di i = cls_iefb_get_rx_bit i s) \<and>
      (\<forall>i. unat i < 32 * device_occ gs di \<longrightarrow> clm_iefb_get_rwr_value clm' gi di i = cls_iefb_get_rwr_value i s))"
proof -
  let ?k = "device_occ gs di"
  from slave_response_handled [OF cinv gi gs di sinv r occ due, of now clock port] obtain rp where
    p: "clm_iefb_handle_input_frame now clock (cyclic_response s r) (rq_slave_ip_addr r) port clm = handle_device_response now clock gi di rp clm"
      "accepts_response clm gi di rp" "rp_first_rwr rp = 59" "rp_first_rx rp = 59 + 64 * ?k" "length (rp_buffer rp) = 59 + 72 * ?k"
      "drop 59 (rp_buffer rp) = take (72 * ?k) (drop 59 (sr_buffer (if my_transmission_bit s r then cls_resp_frame_normal s else cls_resp_frame_error s)))"
    by blast
  from inputs_after_response [OF cinv gi gs di p(2), of now clock] p(3-5) obtain c where
    c: "handle_device_response now clock gi di rp clm = Returns (True, c)" "clm_inv c"
      "\<forall>i. unat i < 64 * ?k \<longrightarrow> clm_iefb_get_rx_bit c gi di i = Returns (dd_transmission_bit (gd_slave_devices (clm_groups clm ! gi) ! di) \<and>
        bit (response_rx rp ?k ! (unat i div 8)) (unat i mod 8))"
      "\<forall>i. unat i < 32 * ?k \<longrightarrow> clm_iefb_get_rwr_value c gi di i = Returns
        (if dd_transmission_bit (gd_slave_devices (clm_groups clm ! gi) ! di) then le16_at (response_rwr rp ?k) (2 * unat i) else 0)" by auto
  moreover have "(\<forall>i. unat i < 64 * ?k \<longrightarrow> clm_iefb_get_rx_bit c gi di i = cls_iefb_get_rx_bit i s) \<and>
      (\<forall>i. unat i < 32 * ?k \<longrightarrow> clm_iefb_get_rwr_value c gi di i = cls_iefb_get_rwr_value i s)"
    if t: "my_transmission_bit s r" "dd_transmission_bit (gd_slave_devices (clm_groups clm ! gi) ! di)"
  proof -
    have bs: "drop 59 (rp_buffer rp) = take (72 * ?k) (drop 59 (sr_buffer (cls_resp_frame_normal s)))" using p(6) t(1) by simp
    have "response_rx rp ?k = slice (rp_buffer rp) (59 + 64 * ?k) (8 * ?k)" "response_rwr rp ?k = slice (rp_buffer rp) 59 (64 * ?k)"
      using p(3,4) by (simp_all add: response_rx_def response_rwr_def)
    note d = slave_frame_data [OF sinv occ [symmetric] bs this]
    show ?thesis using c(3,4) d t(2) by simp
  qed
  ultimately show ?thesis using p(1) by auto
qed

end
