(* ===== verification/CL_SLMP_System.thy ===== *)
theory CL_SLMP_System
  imports CLM_SLMP CLS_SLMP
begin

text \<open>
  Master and slave together, for SLMP: a node search of the master is answered by a slave and the answer
  is stored in the database of the master; a request to set an IP address is carried out by the slave it
  is addressed to, and confirmed to the application of the master with the result.
\<close>

section \<open>A search answered by a slave\<close>

lemma search_result:
  assumes "clm_slmp_perform_node_search os now m = Returns (True, m')"
  shows "clm_node_search_serial m' = uint (clm_slmp_request_serial m)"
    "clm_out m' = clm_out m @ [Slmp_Sent (clm_slmp_broadcast_ip m) CL_SLMP_PORT (search_request m)]"
    "clm_node_search_timer m' = cl_timer_start (ucast (mc_callback_time_node_search (clm_config m)) * 1000) now (clm_node_search_timer m)"
  using assms by (auto simp: perform_search_eq search_started_def Let_def slmp_sent_ok_def split: if_splits)

lemma set_ip_result:
  assumes "clm_slmp_perform_set_ipaddr_request os now smac nip nmask m = Returns (True, m')"
  shows "clm_set_ip_request_serial m' = uint (clm_slmp_request_serial m)"
    "clm_out m' = clm_out m @ [Slmp_Sent (clm_slmp_broadcast_ip m) CL_SLMP_PORT (set_ip_request smac nip nmask m)]"
    "clm_set_ip_request_timer m' = cl_timer_start (ucast (mc_callback_time_set_ip (clm_config m)) * 1000) now (clm_set_ip_request_timer m)"
    "nip \<noteq> CL_IPADDR_INVALID" "cl_utils_is_netmask_valid nmask"
proof -
  have n: "\<not> (clm_set_ip_request_serial m \<noteq> - 1 \<or> nip = CL_IPADDR_INVALID \<or> \<not> cl_utils_is_netmask_valid nmask)"
    and m': "slmp_sent_ok os (set_ip_request smac nip nmask m) m" "m' = set_ip_started os now smac nip nmask m"
    using assms unfolding perform_set_ip_eq by (metis outcome.inject prod.inject)+
  show "nip \<noteq> CL_IPADDR_INVALID" "cl_utils_is_netmask_valid nmask" using n by simp_all
  show "clm_set_ip_request_serial m' = uint (clm_slmp_request_serial m)"
    "clm_out m' = clm_out m @ [Slmp_Sent (clm_slmp_broadcast_ip m) CL_SLMP_PORT (set_ip_request smac nip nmask m)]"
    "clm_set_ip_request_timer m' = cl_timer_start (ucast (mc_callback_time_set_ip (clm_config m)) * 1000) now (clm_set_ip_request_timer m)"
    using m' by (auto simp: set_ip_started_def Let_def slmp_sent_ok_def)
qed

text \<open>The entry of the database that describes a slave.\<close>

definition slave_entry :: "cls_cfg \<Rightarrow> bytes \<Rightarrow> u32 \<Rightarrow> u32 \<Rightarrow> clm_node_search_response_entry" where
  "slave_entry cfg mac ip nmask = \<lparr>ne_slave_id = ip, ne_slave_netmask = nmask, ne_slave_mac_addr = mac,
     ne_vendor_code = cfg_vendor_code cfg, ne_model_code = cfg_model_code cfg, ne_equipment_ver = cfg_equipment_ver cfg\<rparr>"

definition slmp_db_wf :: "clm_node_search_db \<Rightarrow> bool" where
  "slmp_db_wf db \<longleftrightarrow> slmp_db_ok db \<and> (\<forall>e \<in> set (db_entries db). length (ne_slave_mac_addr e) = 6)"

definition db_with :: "clm_node_search_response_entry \<Rightarrow> clm_node_search_db \<Rightarrow> clm_node_search_db" where
  "db_with e db = (if unat (db_stored db) = length (db_entries db) then db\<lparr>db_count := db_count db + 1\<rparr>
     else db\<lparr>db_count := db_count db + 1, db_stored := db_stored db + 1,
       db_entries := (db_entries db)[unat (db_stored db) := e]\<rparr>)"

lemma add_db_entry:
  assumes "slmp_db_wf db" "length smac = 6"
    and "r = node_search_response_frame mac ip smac sip smask st (cfg_vendor_code cfg) (cfg_model_code cfg) (cfg_equipment_ver cfg) serial"
  shows "snd (clm_slmp_node_search_add_db r db) = db_with (slave_entry cfg smac sip smask) db"
proof (cases "unat (db_stored db) = length (db_entries db)")
  case False
  then have "unat (db_stored db) < length (db_entries db)" using assms(1) by (simp add: slmp_db_wf_def slmp_db_ok_def)
  then have "length (ne_slave_mac_addr (db_entries db ! unat (db_stored db))) = 6"
    using assms(1) nth_mem by (auto simp: slmp_db_wf_def)
  then show ?thesis
    using False assms(2) by (simp add: clm_slmp_node_search_add_db_def db_with_def Let_def assms(3)
        node_search_response_frame_def slave_entry_def copy_mac_reverse_eq reverse_mac)
qed (simp add: clm_slmp_node_search_add_db_def db_with_def)

lemma search_response_handled:
  assumes r: "r = node_search_response_frame mac ip smac sip smask st v md ev serial"
    and "ip \<noteq> CL_IPADDR_INVALID" "sip \<noteq> CL_IPADDR_INVALID" "cl_utils_is_netmask_valid smask"
    and "clm_node_search_serial m = uint serial"
  shows "clm_slmp_handle_input_frame (enc_node_search_resp r) (clm_ifindex m) m = (True, search_response_stored r m)"
proof -
  note a = node_search_response_accepted [OF r assms(2-4)]
  obtain h where "cl_slmp_parse_response_header (enc_node_search_resp r) = Some h" "cl_slmp_is_header_response h"
    "cl_slmp_validate_response_header h (length (enc_node_search_resp r))" "slr_serial h = serial"
    using a(1) unfolding slmp_response_ok_def by blast
  then show ?thesis
    using a(2,3) assms(5) by (simp add: clm_slmp_handle_input_frame_def Let_def clm_slmp_handle_node_search_response_def
        search_response_stored_def split_beta)
qed

lemma search_roundtrip:
  assumes m: "clm_slmp_perform_node_search osm now m = Returns (True, m1)"
    and mw: "length (clm_mac_address m) = 6" "mc_master_id (clm_config m) \<noteq> CL_IPADDR_INVALID"
    and s: "slmp_wf (cls_node_search_data s)" "\<not> cl_timer_is_running (ns_response_timer (cls_node_search_data s))"
    and d: "dg_data d = search_request m" "dg_remote_ip d = mc_master_id (clm_config m)" "dg_local_ip d \<noteq> CL_IPADDR_INVALID"
    and os: "os_get_mac_address oss (dg_ifindex d) = Some smac" "os_get_netmask oss (dg_ifindex d) = Some nmask"
      "length smac = 6" "cl_utils_is_netmask_valid nmask"
    and t: "unat (cl_slmp_calculate_node_search_delay smac) \<le> unat (t1 - t0)" "unat (t1 - t0) < 2 ^ 31"
    and opened: "os_udp_open oss' (dg_local_ip d) CL_SLMP_PORT \<noteq> - 1"
    and m2: "clm_node_search_serial m2 = clm_node_search_serial m1" "slmp_db_wf (clm_node_search_data m2)"
  obtains s1 s2 resp where "cls_slmp_periodic oss t0 (Some d) s = Returns s1" "cls_slmp_periodic oss' t1 None s1 = Returns s2"
    "cls_out s2 = cls_out s1 @ [Slmp_Response (dg_local_ip d) (broadcast_target s nmask (dg_local_ip d)) (dg_remote_port d) resp]"
    "clm_slmp_handle_input_frame resp (clm_ifindex m2) m2 =
       (True, m2\<lparr>clm_node_search_data := db_with (slave_entry (cls_config s) smac (dg_local_ip d) nmask) (clm_node_search_data m2)\<rparr>)"
proof -
  let ?ai = "addr_info_of d smac nmask" and ?w = "clm_slmp_request_serial m"
  define s1 where "s1 = search_scheduled t0 ?ai (clm_mac_address m) ?w s"
  have ip: "ai_remote_ip ?ai \<noteq> CL_IPADDR_INVALID" using d mw by simp
  have len: "length (dg_data d) > 0" using d(1) length_requests(1) [of m] by simp
  have handled: "cls_slmp_handle_input_frame oss t0 (dg_data d) ?ai s = Returns (True, s1)"
    unfolding s1_def by (rule search_request_handled [OF mw(1) ip]) (simp add: d search_request_def)
  have "response_step oss t0 s = Returns s"
    using s(2) stopped_not_expired by (simp add: response_step_eq [OF s(1)])
  then have p1: "cls_slmp_periodic oss t0 (Some d) s = Returns s1"
    using handled os len by (simp add: periodic_steps receive_step_def addr_info_of_def)
  have l: "length (ai_local_mac_address ?ai) = 6" using os by simp
  have p2: "cls_slmp_periodic oss' t1 None s1 = Returns (search_answered oss' s1)"
    by (rule search_pending_until_delay(3) [OF s(1) mw(1) l ip s1_def]) (use t in simp_all)
  define r where "r = node_search_response_frame (clm_mac_address m) (mc_master_id (clm_config m)) smac (dg_local_ip d) nmask
    CL_SLMP_NODE_SEARCH_RESP_SERVER_STATUS_NORMAL (cfg_vendor_code (cls_config s)) (cfg_model_code (cls_config s))
    (cfg_equipment_ver (cls_config s)) ?w"
  have cfg: "cls_config s1 = cls_config s"
    using search_scheduled_only [of s t0 ?ai "clm_mac_address m" ?w] by (auto simp: s1_def slmp_only_def)
  have resp: "search_response s1 = enc_node_search_resp r"
    unfolding search_response_def cfg Let_def s1_def search_scheduled_fields [OF mw(1) l s(1)]
    by (simp add: r_def d cfg [unfolded s1_def])
  have out: "cls_out (search_answered oss' s1) =
      cls_out s1 @ [Slmp_Response (dg_local_ip d) (broadcast_target s nmask (dg_local_ip d)) (dg_remote_port d) (search_response s1)]"
    using opened unfolding search_answered_def Let_def s1_def search_scheduled_fields [OF mw(1) l s(1)]
    by (simp add: broadcast_target_def cfg [unfolded s1_def])
  have "clm_slmp_handle_input_frame (search_response s1) (clm_ifindex m2) m2 = (True, search_response_stored r m2)"
    unfolding resp by (rule search_response_handled [OF r_def]) (use mw d os m2 search_result [OF m] in simp_all)
  moreover have "search_response_stored r m2 =
      m2\<lparr>clm_node_search_data := db_with (slave_entry (cls_config s) smac (dg_local_ip d) nmask) (clm_node_search_data m2)\<rparr>"
    unfolding search_response_stored_def add_db_entry [OF m2(2) os(3) r_def] ..
  ultimately show thesis using that [OF p1 p2 out] by simp
qed

section \<open>A request to set the IP address\<close>

lemma set_ip_reply_handled:
  assumes "clm_set_ip_request_serial m = uint serial" "clm_node_search_serial m \<noteq> uint serial" "length (clm_mac_address m) = 6"
  shows "clm_slmp_handle_input_frame (set_ip_reply ok (clm_mac_address m) serial) (clm_ifindex m) m =
    (True, clm_slmp_set_ip_notify_cfm (if ok then CLM_MASTER_SET_IP_STATUS_SUCCESS else CLM_MASTER_SET_IP_STATUS_ERROR) m)"
proof (cases ok)
  case True
  let ?bs = "enc_set_ipaddr_resp (set_ip_response_frame (clm_mac_address m) serial)"
  obtain h r where "cl_slmp_parse_response_header ?bs = Some h" "cl_slmp_is_header_response h"
    "cl_slmp_validate_response_header h (length ?bs)" "slr_serial h = serial" "slr_endcode h = CL_SLMP_ENDCODE_SUCCESS"
    "cl_slmp_parse_set_ip_response ?bs = Some r" "cl_slmp_validate_set_ip_response r (clm_mac_address m)"
    using set_ip_response_accepted [of ?bs serial "clm_mac_address m"] assms(3) unfolding slmp_response_ok_def by blast
  then show ?thesis using True assms
    by (simp add: clm_slmp_handle_input_frame_def Let_def clm_slmp_handle_set_ipaddr_response_def set_ip_reply_def)
next
  case False
  let ?bs = "enc_slmp_error_resp (error_response_frame CL_SLMP_COMMAND_NODE_IPADDRESS_SET
     CL_SLMP_SUBCOMMAND_NODE_IPADDRESS_SET CL_SLMP_ENDCODE_COMMAND_REQUEST_MSG serial)"
  obtain h r where "cl_slmp_parse_response_header ?bs = Some h" "cl_slmp_is_header_response h"
    "cl_slmp_validate_response_header h (length ?bs)" "slr_serial h = serial"
    "slr_endcode h = CL_SLMP_ENDCODE_COMMAND_REQUEST_MSG"
    "cl_slmp_parse_error_response ?bs = Some r" "cl_slmp_validate_error_response r"
    "ser_command r = CL_SLMP_COMMAND_NODE_IPADDRESS_SET" "ser_sub_command r = CL_SLMP_SUBCOMMAND_NODE_IPADDRESS_SET"
    using error_response_accepted [of ?bs serial CL_SLMP_ENDCODE_COMMAND_REQUEST_MSG CL_SLMP_COMMAND_NODE_IPADDRESS_SET
        CL_SLMP_SUBCOMMAND_NODE_IPADDRESS_SET] unfolding slmp_response_ok_def by blast
  moreover have "CL_SLMP_ENDCODE_COMMAND_REQUEST_MSG \<noteq> CL_SLMP_ENDCODE_SUCCESS"
    by (simp add: slmp_consts CL_SLMP_ENDCODE_SUCCESS_def)
  ultimately show ?thesis using False assms
    by (simp add: clm_slmp_handle_input_frame_def Let_def clm_slmp_handle_set_ip_error_def set_ip_reply_def)
qed


lemma set_ip_roundtrip:
  assumes m: "clm_slmp_perform_set_ipaddr_request osm now smac nip nmask m = Returns (True, m1)"
    and mw: "length (clm_mac_address m) = 6" "mc_master_id (clm_config m) \<noteq> CL_IPADDR_INVALID" "length smac = 6"
    and s: "slmp_wf (cls_node_search_data s)" "\<not> cl_timer_is_running (ns_response_timer (cls_node_search_data s))"
    and d: "dg_data d = set_ip_request smac nip nmask m" "dg_remote_ip d = mc_master_id (clm_config m)"
    and os: "os_get_mac_address oss (dg_ifindex d) = Some mac'" "os_get_netmask oss (dg_ifindex d) = Some nm"
    and ok_def: "ok = (cfg_ip_setting_allowed (cls_config s) \<and> os_set_ip_address_netmask oss (dg_ifindex d) nip nmask)"
    and opened: "os_udp_open oss (if ok then nip else dg_local_ip d) CL_SLMP_PORT \<noteq> - 1"
    and m2: "clm_set_ip_request_serial m2 = clm_set_ip_request_serial m1" "clm_node_search_serial m2 \<noteq> clm_set_ip_request_serial m1"
      "clm_mac_address m2 = clm_mac_address m"
  shows "mac' = smac \<Longrightarrow> \<exists>s1 resp. cls_slmp_periodic oss t0 (Some d) s = Returns s1 \<and>
      cls_out s1 = cls_out s @
        (if cfg_ip_setting_allowed (cls_config s) then [Set_Network_Settings (dg_ifindex d) nip nmask] else []) @
        [Slmp_Response (if ok then nip else dg_local_ip d) (broadcast_target s nmask nip) (dg_remote_port d) resp] @
        (if cfg_set_ip_cb (cls_config s) then [Set_Ip_Callback (clm_mac_address m) (dg_remote_ip d) nip nmask
           (cfg_ip_setting_allowed (cls_config s)) ok] else []) \<and>
      clm_slmp_handle_input_frame resp (clm_ifindex m2) m2 = (True, clm_slmp_set_ip_notify_cfm
        (if ok then CLM_MASTER_SET_IP_STATUS_SUCCESS else CLM_MASTER_SET_IP_STATUS_ERROR) m2)"
    and "mac' \<noteq> smac \<Longrightarrow> cls_slmp_periodic oss t0 (Some d) s = Returns s"
proof -
  let ?ai = "addr_info_of d mac' nm" and ?w = "clm_slmp_request_serial m"
  note v = set_ip_result(4,5) [OF m]
  have len: "length (dg_data d) > 0" using d(1) length_requests(2) [of smac nip nmask m] by simp
  have first: "response_step oss t0 s = Returns s"
    using s(2) stopped_not_expired by (simp add: response_step_eq [OF s(1)])
  have p: "cls_slmp_periodic oss t0 (Some d) s =
      obind (cls_slmp_handle_input_frame oss t0 (dg_data d) ?ai s) (\<lambda>(_, s). Returns s)"
    using os len by (simp add: periodic_steps first receive_step_def addr_info_of_def)
  show "cls_slmp_periodic oss t0 (Some d) s = Returns s" if "mac' \<noteq> smac"
  proof -
    have "cls_slmp_handle_input_frame oss t0 (dg_data d) ?ai s = Returns (True, s)"
      by (rule set_ip_request_for_other [OF mw(1) mw(3) _ mw(2) v]) (use that in \<open>simp_all add: d set_ip_request_def\<close>)
    then show ?thesis by (simp add: p)
  qed
  assume mac': "mac' = smac"
  have okd: "ok = set_ip_done oss ?ai nip nmask s"
    by (simp add: ok_def set_ip_done_def cl_eth_set_network_settings_def)
  obtain res where "cls_slmp_handle_input_frame oss t0 (dg_data d) ?ai s =
      Returns (res, set_ip_state oss ?ai (clm_mac_address m) (ai_remote_ip ?ai) ?w nip nmask s)"
    using set_ip_request_handled [of "clm_mac_address m" ?ai nip nmask "dg_data d" ?w oss t0 s] mw v d mac'
    by (auto simp: set_ip_request_def)
  then have p1: "cls_slmp_periodic oss t0 (Some d) s =
      Returns (set_ip_state oss ?ai (clm_mac_address m) (ai_remote_ip ?ai) ?w nip nmask s)" by (simp add: p)
  have out: "cls_out (set_ip_state oss ?ai (clm_mac_address m) (ai_remote_ip ?ai) ?w nip nmask s) = cls_out s @
        (if cfg_ip_setting_allowed (cls_config s) then [Set_Network_Settings (dg_ifindex d) nip nmask] else []) @
        [Slmp_Response (if ok then nip else dg_local_ip d) (broadcast_target s nmask nip) (dg_remote_port d)
           (set_ip_reply ok (clm_mac_address m) ?w)] @
        (if cfg_set_ip_cb (cls_config s) then [Set_Ip_Callback (clm_mac_address m) (dg_remote_ip d) nip nmask
           (cfg_ip_setting_allowed (cls_config s)) ok] else [])"
    using opened unfolding set_ip_state_def Let_def okd [symmetric] by (cases ok) simp_all
  have "clm_slmp_handle_input_frame (set_ip_reply ok (clm_mac_address m) ?w) (clm_ifindex m2) m2 =
      (True, clm_slmp_set_ip_notify_cfm (if ok then CLM_MASTER_SET_IP_STATUS_SUCCESS else CLM_MASTER_SET_IP_STATUS_ERROR) m2)"
    using set_ip_reply_handled [of m2 ?w ok] m2 set_ip_result(1) [OF m] mw(1) by simp
  then show "\<exists>s1 resp. cls_slmp_periodic oss t0 (Some d) s = Returns s1 \<and>
      cls_out s1 = cls_out s @
        (if cfg_ip_setting_allowed (cls_config s) then [Set_Network_Settings (dg_ifindex d) nip nmask] else []) @
        [Slmp_Response (if ok then nip else dg_local_ip d) (broadcast_target s nmask nip) (dg_remote_port d) resp] @
        (if cfg_set_ip_cb (cls_config s) then [Set_Ip_Callback (clm_mac_address m) (dg_remote_ip d) nip nmask
           (cfg_ip_setting_allowed (cls_config s)) ok] else []) \<and>
      clm_slmp_handle_input_frame resp (clm_ifindex m2) m2 = (True, clm_slmp_set_ip_notify_cfm
        (if ok then CLM_MASTER_SET_IP_STATUS_SUCCESS else CLM_MASTER_SET_IP_STATUS_ERROR) m2)"
    using p1 out by blast
qed

end
