(* ===== verification/CL_Connect.thy ===== *)
theory CL_Connect
  imports CL_System
begin

text \<open>
  A master and a slave that meet: the request of a link scan makes a slave without master accept this
  master, and its response makes the master treat the device as connected. From then on the requests
  of the master continue the connection. The steps are calls of the periodic functions of both sides.
\<close>

section \<open>Slaves that serve a device\<close>

text \<open>The slave is controlled by this master as device \<open>di\<close> of group \<open>gi\<close>.\<close>

definition serves :: "cls \<Rightarrow> clm \<Rightarrow> nat \<Rightarrow> nat \<Rightarrow> bool" where
  "serves s clm gi di \<longleftrightarrow>
     (let gs = device_setting_at clm gi; m = cls_master s in
      cls_state s = CLS_SLAVE_STATE_MASTER_CONTROL \<and> ma_master_id m = mc_master_id (clm_config clm) \<and>
      ma_parameter_no m = request_parameter_no (clm_groups clm ! gi) \<and> unat (ma_group_no m) = gi + 1 \<and>
      ma_slave_station_no m = station_no gs di \<and> cfg_num_occupied_stations (cls_config s) = device_occ gs di)"

lemma unat_ucast_group: "unat (ucast (x :: u8) :: u16) = unat x"
  using unat_less_pow(2) [of x] by (simp add: unsigned_ucast_eq take_bit_nat_eq_self)

text \<open>The next request of the group continues the connection.\<close>

lemma serves_continues:
  assumes inv: "clm_inv clm" and gi: "gi < number_of_groups clm" and gs: "gs = device_setting_at clm gi" and di: "di < gs_num_slave_devices gs"
    and rec: "received_request bs (mc_master_id (clm_config clm)) port (sd_slave_id (gs_slave_devices gs ! di)) r"
    and r: "rq_total_occupied r = stations_of gs" "qdh_frame_sequence_no (qf_cyclic_data_header (rq_full_headers r)) \<noteq> 0"
      "unat (qdh_group_no (qf_cyclic_data_header (rq_full_headers r))) = gi + 1"
      "qdh_parameter_no (qf_cyclic_data_header (rq_full_headers r)) = request_parameter_no (clm_groups clm ! gi)"
      "request_for_device r gs mem di valid"
    and s: "serves s clm gi di"
  shows "continues_connection s r" "my_transmission_bit s r = valid"
proof -
  have "group_fits gs" using good_config_group(1) [OF _ gi] inv gs by (simp add: clm_inv_def groups_inv_def master_ok_def device_setting_at_def)
  note range = station_no_range [OF this di]
  note m = received_request_remote [OF rec]
  have "ucast (qdh_group_no (qf_cyclic_data_header (rq_full_headers r))) = ma_group_no (cls_master s)"
    using s r(3) unat_ucast_group by (intro word_unat_eq_iff [THEN iffD2]) (simp add: serves_def Let_def)
  then show "continues_connection s r"
    using s r m range gs by (simp add: continues_connection_def serves_def Let_def request_for_device_def station_fits_def device_occ_def)
  show "my_transmission_bit s r = valid" using s r(5) gs by (simp add: my_transmission_bit_def serves_def request_for_device_def Let_def)
qed

text \<open>A slave that has accepted a request as this device serves it.\<close>

lemma accepted_serves:
  assumes rec: "received_request bs (mc_master_id (clm_config clm)) port my r" and gs: "gs = device_setting_at clm gi"
    and r: "unat (qdh_group_no (qf_cyclic_data_header (rq_full_headers r))) = gi + 1"
      "qdh_parameter_no (qf_cyclic_data_header (rq_full_headers r)) = request_parameter_no (clm_groups clm ! gi)"
    and s: "cls_state s = CLS_SLAVE_STATE_MASTER_CONTROL" "cls_master s = connection_of r (station_no gs di)"
      "cfg_num_occupied_stations (cls_config s) = device_occ gs di"
  shows "serves s clm gi di"
  using received_request_remote [OF rec] r s gs unat_ucast_group by (simp add: serves_def connection_of_def Let_def)

section \<open>The request that addresses a device for the first time\<close>

text \<open>An enabled device that is not connected, and has not used the next sequence number of the group yet.\<close>

definition to_be_connected :: "clm \<Rightarrow> nat \<Rightarrow> nat \<Rightarrow> bool" where
  "to_be_connected clm gi di \<longleftrightarrow>
     (let g = clm_groups clm ! gi; d = gd_slave_devices g ! di in
      dd_enabled d \<and> \<not> dd_force_transmission_bit d \<and> \<not> stays_connected (device_setting_at clm gi) d \<and>
      \<not> (fv_has_been_received (dd_latest_frame d) \<and>
         fv_frame_sequence_no (dd_latest_frame d) = clm_iefb_update_frame_sequence_no (gd_frame_sequence_no g)))"

lemma after_event_keeps_frame [simp]: "dd_latest_frame (after_event gs ev d) = dd_latest_frame d"
  by (simp add: after_event_def Let_def upd_statistics_def)

text \<open>The state of the device after the timeout of one scan and the start of the next.\<close>

lemma rescanned_device:
  assumes inv: "clm_inv clm" and gi: "gi < number_of_groups clm" and gs: "gs = device_setting_at clm gi" and di: "di < gs_num_slave_devices gs"
    and g: "g = (clm_groups clm ! gi)\<lparr>gd_response_wait_timer := t\<rparr>"
    and started: "scan_started (clm_config clm) gi now ck u
      ((scan_ended gs CLM_DEVICE_EVENT_GROUP_TIMEOUT g)\<lparr>gd_group_state := CLM_GROUP_STATE_MASTER_LINK_SCAN\<rparr>) g'"
    and new: "to_be_connected clm gi di"
  defines "d' \<equiv> gd_slave_devices g' ! di" and "d \<equiv> gd_slave_devices (clm_groups clm ! gi) ! di"
  shows "dd_device_state d' = CLM_DEVICE_STATE_WAIT_TD" "\<not> dd_transmission_bit d'" "dd_enabled d'" "dd_latest_frame d' = dd_latest_frame d"
    "dd_force_transmission_bit (gd_slave_devices (scan_ended gs CLM_DEVICE_EVENT_GROUP_TIMEOUT g) ! di) = dd_force_transmission_bit d"
proof -
  let ?h = "(scan_ended gs CLM_DEVICE_EVENT_GROUP_TIMEOUT g)\<lparr>gd_group_state := CLM_GROUP_STATE_MASTER_LINK_SCAN\<rparr>"
  have gs': "gs = hi_groups (mc_hier (clm_config clm)) ! gi" using gs by (simp add: device_setting_at_def)
  have ready: "group_ready (clm_config clm) gi (clm_groups clm ! gi)" using inv gi group_inv_ready by (simp add: clm_inv_def groups_inv_def)
  have live: "dd_device_state d \<in> live_states" using ready di gs' by (simp add: d_def group_ready_def device_inv_def Let_def)
  have dev: "gd_slave_devices ?h ! di = after_event gs CLM_DEVICE_EVENT_GROUP_TIMEOUT d"
    using map_devices_nth(2) [of "gs_num_slave_devices gs" "g\<lparr>gd_group_state := CLM_GROUP_STATE_MASTER_LINK_SCAN_COMP\<rparr>" di] di
      group_ready_length [OF ready gs'] by (simp add: scan_ended_def g d_def)
  then show "dd_force_transmission_bit (gd_slave_devices (scan_ended gs CLM_DEVICE_EVENT_GROUP_TIMEOUT g) ! di) = dd_force_transmission_bit d"
    by simp
  have new': "dd_enabled d" "\<not> stays_connected gs d" using new gs by (simp_all add: to_be_connected_def d_def Let_def)
  have "scan_state (gd_slave_devices ?h ! di) = CLM_DEVICE_STATE_WAIT_TD"
    unfolding dev using scan_state_after_timeout [OF live new'(1), of gs] new' by (auto simp: scan_state_def split: if_splits)
  moreover have sc: "scanned gs ?h g' di" "group_ready (clm_config clm) gi g'" using started di gs' by (simp_all add: scan_started_def Let_def)
  ultimately show st: "dd_device_state d' = CLM_DEVICE_STATE_WAIT_TD" by (simp add: scanned_def Let_def d'_def)
  show "dd_enabled d'" "dd_latest_frame d' = dd_latest_frame d"
    using sc(1) dev new'(1) by (simp_all add: scanned_def Let_def same_placing_def d'_def)
  have "device_inv gs g' di" using sc(2) di gs' by (simp add: group_ready_def Let_def)
  then show "\<not> dd_transmission_bit d'" using st by (simp add: device_inv_def d'_def Let_def)
qed

text \<open>The master has sent request \<open>r\<close> at time \<open>now\<close> and waits for the device.\<close>

definition request_pending :: "clm \<Rightarrow> nat \<Rightarrow> nat \<Rightarrow> u32 \<Rightarrow> cls_request \<Rightarrow> bool" where
  "request_pending clm gi di now r \<longleftrightarrow>
     (let g = clm_groups clm ! gi; h = qf_cyclic_data_header (rq_full_headers r) in
      gd_group_state g = CLM_GROUP_STATE_MASTER_LINK_SCAN \<and>
      dd_device_state (gd_slave_devices g ! di) = CLM_DEVICE_STATE_WAIT_TD \<and>
      awaits_response clm gi di (qdh_frame_sequence_no h) \<and>
      qdh_parameter_no h = request_parameter_no g \<and> unat (qdh_group_no h) = gi + 1 \<and>
      (\<exists>t. gd_response_wait_timer g = cl_timer_start (scan_period (device_setting_at clm gi)) now t))"

lemma request_pending_cong:
  assumes "request_pending clm gi di now r" "clm_config clm' = clm_config clm" "clm_groups clm' ! gi = (clm_groups clm ! gi)\<lparr>gd_constant_linkscan_timer := t\<rparr>"
  shows "request_pending clm' gi di now r"
  using assms by (auto simp: request_pending_def awaits_response_def Let_def request_parameter_no_def device_setting_at_def)

lemma first_request:
  assumes inv: "clm_inv clm" and gi: "gi < number_of_groups clm" and st: "state_of_group clm gi = CLM_GROUP_STATE_MASTER_LINK_SCAN"
    and e: "cl_timer_is_expired (gd_response_wait_timer (clm_groups clm ! gi)) now"
    and gs: "gs = device_setting_at clm gi" and di: "di < gs_num_slave_devices gs" and new: "to_be_connected clm gi di"
    and my: "my = sd_slave_id (gs_slave_devices gs ! di)"
  shows "\<exists>clm' bs r outs. monitor_group_timers now clock gi clm = Returns clm' \<and> 
    clm_out clm' = clm_out clm @ outs @ [Request_Sent (clm_iefb_broadcast_ip clm) bs] \<and>
    received_request bs (mc_master_id (clm_config clm)) port my r \<and>
    connection_period r = ucast (cl_calculate_total_timeout_us (gs_timeout_value gs) (gs_parallel_off_timeout_count gs)) \<and>
    request_for_device r gs (gd_memory_area (clm_groups clm ! gi)) di False \<and> request_pending clm' gi di now r"
proof -
  define g where "g = (clm_groups clm ! gi)\<lparr>gd_response_wait_timer := cl_timer_stop (gd_response_wait_timer (clm_groups clm ! gi))\<rparr>"
  let ?h = "(scan_ended gs CLM_DEVICE_EVENT_GROUP_TIMEOUT g)\<lparr>gd_group_state := CLM_GROUP_STATE_MASTER_LINK_SCAN\<rparr>"
  have gs': "gs = hi_groups (mc_hier (clm_config clm)) ! gi" using gs by (simp add: device_setting_at_def)
  have mo: "good_config (clm_config clm)" "unit_info_ok clm" using inv by (simp_all add: clm_inv_def groups_inv_def master_ok_def)
  have my0: "my \<noteq> 0" using slave_ids_valid(1) [OF mo(1) gi gs' di] my by simp
  from monitor_resends [OF inv gi st e gs' g_def, of clock] obtain c g' ck outs t where
    c: "monitor_group_timers now clock gi clm = Returns c" "clm_groups c ! gi = g'\<lparr>gd_constant_linkscan_timer := t\<rparr>"
      "clm_out c = clm_out clm @ outs @ [Request_Sent (clm_iefb_broadcast_ip clm) (request_payload g')]"
      "scan_started (clm_config clm) gi now ck (clm_master_local_unit_info clm) ?h g'" by blast
  from monitor_group_ok [OF inv gi, of now clock] c(1) have ci: "clm_config c = clm_config clm" by auto
  from scan_request_received [OF mo(1) gi gs' mo(2) [unfolded unit_info_ok_def] c(4) my0, of port] obtain r where
    r: "received_request (request_payload g') (mc_master_id (clm_config clm)) port my r"
      "qdh_frame_sequence_no (qf_cyclic_data_header (rq_full_headers r)) = gd_frame_sequence_no ?h"
      "unat (qdh_group_no (qf_cyclic_data_header (rq_full_headers r))) = gi + 1"
      "qdh_parameter_no (qf_cyclic_data_header (rq_full_headers r)) = request_parameter_no ?h"
      "connection_period r = ucast (cl_calculate_total_timeout_us (gs_timeout_value gs) (gs_parallel_off_timeout_count gs))"
      "\<forall>di < gs_num_slave_devices gs. dd_enabled (gd_slave_devices ?h ! di) \<longrightarrow> request_for_device r gs (gd_memory_area ?h) di
         (scan_state (gd_slave_devices ?h ! di) = CLM_DEVICE_STATE_CYCLIC_SENDING \<or> dd_force_transmission_bit (gd_slave_devices ?h ! di))" by blast
  note d = rescanned_device [OF inv gi gs di g_def c(4) new]
  have sc: "scanned gs ?h g' di" "gd_group_state g' = CLM_GROUP_STATE_MASTER_LINK_SCAN" "gd_frame_sequence_no g' = gd_frame_sequence_no ?h"
    "request_parameter_no g' = request_parameter_no ?h" "gd_response_wait_timer g' = cl_timer_start (scan_period gs) now (gd_response_wait_timer ?h)"
    using c(4) di gs' by (simp_all add: scan_started_def Let_def)
  have "dd_enabled (gd_slave_devices ?h ! di)" "scan_state (gd_slave_devices ?h ! di) = CLM_DEVICE_STATE_WAIT_TD"
    using sc(1) d by (simp_all add: scanned_def Let_def same_placing_def)
  then have req: "request_for_device r gs (gd_memory_area (clm_groups clm ! gi)) di False"
    using r(6) di new d(5) by (auto simp: to_be_connected_def Let_def g_def)
  have "awaits_response c gi di (gd_frame_sequence_no ?h)"
    using d(1-4) new c(2) sc(3) by (auto simp: awaits_response_def to_be_connected_def Let_def g_def)
  then have "request_pending c gi di now r"
    using r(2-4) sc(2,4,5) d(1) c(2) ci gs by (auto simp: request_pending_def Let_def request_parameter_no_def device_setting_at_def)
  then show ?thesis using c(1,3) r(1,5) req by auto
qed

section \<open>The timers of the master\<close>

text \<open>Once groups are scanned, the arbitration timer has no effect on them.\<close>

lemma arbitration_stage:
  assumes inv: "clm_inv clm" and gi: "gi < number_of_groups clm" and st: "state_of_group clm gi = CLM_GROUP_STATE_MASTER_LINK_SCAN"
  shows "\<exists>c. (if cl_timer_is_expired (clm_arbitration_timer clm) now
      then clm_iefb_group_fsm_event_all now clock CLM_GROUP_EVENT_ARBITRATION_DONE
        (clm\<lparr>clm_arbitration_timer := cl_timer_stop (clm_arbitration_timer clm)\<rparr>) else Returns clm) = Returns c \<and>
    clm_inv c \<and> clm_config c = clm_config clm \<and> clm_groups c = clm_groups clm \<and> clm_out c = clm_out clm \<and>
    clm_iefb_broadcast_ip c = clm_iefb_broadcast_ip clm"
proof (cases "cl_timer_is_expired (clm_arbitration_timer clm) now")
  case True
  let ?c = "clm\<lparr>clm_arbitration_timer := cl_timer_stop (clm_arbitration_timer clm)\<rparr>"
  have e: "CLM_GROUP_EVENT_ARBITRATION_DONE \<in> common_events" by (simp add: common_events_def)
  have "state_of_group clm gi \<noteq> CLM_GROUP_STATE_MASTER_ARBITRATION" using st by simp
  then have "\<forall>gi < number_of_groups clm. state_of_group clm gi \<noteq> CLM_GROUP_STATE_MASTER_ARBITRATION"
    using inv gi unfolding clm_inv_def arbitration_inv_def by blast
  then have idle: "\<forall>gi < number_of_groups ?c. group_target CLM_GROUP_EVENT_ARBITRATION_DONE (state_of_group ?c gi) = state_of_group ?c gi"
    by (simp add: group_target_def)
  have "groups_inv ?c" using inv by (simp add: clm_inv_def groups_inv_def master_ok_def device_tables_def group_tables_def unit_info_ok_def)
  from common_event_all [OF this e, of now clock] idle
  have "clm_iefb_group_fsm_event_all now clock CLM_GROUP_EVENT_ARBITRATION_DONE ?c = Returns ?c" by auto
  moreover obtain c where "clm_iefb_group_fsm_event_all now clock CLM_GROUP_EVENT_ARBITRATION_DONE ?c = Returns c" "clm_inv c"
    using arbitration_over [OF inv refl, of now clock] by blast
  ultimately show ?thesis using True by simp
qed (use inv in simp)

text \<open>The timers of one group do not concern another group.\<close>

lemma monitor_other_group:
  assumes "clm_inv clm" "gj < number_of_groups clm" "gj \<noteq> gi"
  shows "\<exists>clm' outs. monitor_group_timers now clock gj clm = Returns clm' \<and> clm_inv clm' \<and> clm_config clm' = clm_config clm \<and>
    clm_iefb_broadcast_ip clm' = clm_iefb_broadcast_ip clm \<and> clm_groups clm' ! gi = clm_groups clm ! gi \<and> clm_out clm' = clm_out clm @ outs"
proof -
  from monitor_group_ok [OF assms(1,2), of now clock] obtain c where
    c: "monitor_group_timers now clock gj clm = Returns c" "clm_inv c" "only_group gj clm c" by blast
  then obtain outs where "clm_out c = clm_out clm @ outs" by (auto simp: only_group_def elim: prefixE)
  then show ?thesis using c assms(3) by (simp add: only_group_def)
qed

text \<open>All timers: group \<open>gi\<close> changes as its own timers say.\<close>

lemma monitor_all_groups:
  assumes inv: "clm_inv clm" and gi: "gi < number_of_groups clm"
    and own: "\<And>c. clm_inv c \<Longrightarrow> clm_config c = clm_config clm \<Longrightarrow> clm_groups c ! gi = clm_groups clm ! gi \<Longrightarrow>
      clm_iefb_broadcast_ip c = clm_iefb_broadcast_ip clm \<Longrightarrow>
      \<exists>c' outs. monitor_group_timers now clock gi c = Returns c' \<and> clm_out c' = clm_out c @ outs \<and> Q (clm_groups c' ! gi) outs"
    and mono: "\<And>g outs pre post. Q g outs \<Longrightarrow> Q g (pre @ outs @ post)"
  shows "\<exists>clm' outs. clm_iefb_monitor_all_group_timers now clock clm = Returns clm' \<and> clm_inv clm' \<and> clm_config clm' = clm_config clm \<and>
    clm_out clm' = clm_out clm @ outs \<and> Q (clm_groups clm' ! gi) outs"
proof -
  let ?P = "\<lambda>i c. clm_inv c \<and> clm_config c = clm_config clm \<and> clm_iefb_broadcast_ip c = clm_iefb_broadcast_ip clm \<and>
    (\<exists>outs. clm_out c = clm_out clm @ outs \<and> (if i \<le> gi then clm_groups c ! gi = clm_groups clm ! gi else Q (clm_groups c ! gi) outs))"
  have "\<exists>c. for_each (monitor_group_timers now clock) [0..<number_of_groups clm] clm = Returns c \<and> ?P (number_of_groups clm) c"
  proof (rule for_each_upt [where P = ?P])
    show "?P 0 clm" using inv by simp
    fix i c assume i: "i < number_of_groups clm" and p: "?P i c"
    then obtain outs where o: "clm_out c = clm_out clm @ outs"
      "if i \<le> gi then clm_groups c ! gi = clm_groups clm ! gi else Q (clm_groups c ! gi) outs" by blast
    have ic: "i < number_of_groups c" using i p by simp
    show "\<exists>c'. monitor_group_timers now clock i c = Returns c' \<and> ?P (Suc i) c'"
    proof (cases "i = gi")
      case True
      then obtain c' os where c': "monitor_group_timers now clock gi c = Returns c'" "clm_out c' = clm_out c @ os" "Q (clm_groups c' ! gi) os"
        using own [of c] p o(2) by auto
      have "clm_inv c' \<and> clm_config c' = clm_config c \<and> only_group gi c c'" using monitor_group_ok [of c gi now clock] p ic True c'(1) by auto
      then show ?thesis using c' True p o(1) mono [OF c'(3), of outs "[]"] by (auto simp: only_group_def)
    next
      case False
      from monitor_other_group [of c i gi now clock] p ic False obtain c' os where
        c': "monitor_group_timers now clock i c = Returns c'" "clm_inv c'" "clm_config c' = clm_config c"
          "clm_iefb_broadcast_ip c' = clm_iefb_broadcast_ip c" "clm_groups c' ! gi = clm_groups c ! gi" "clm_out c' = clm_out c @ os" by blast
      then have "?P (Suc i) c'" using p o False mono [of "clm_groups c ! gi" outs "[]" os]
        by (auto simp: Suc_le_eq le_less intro!: exI [of _ "outs @ os"])
      then show ?thesis using c'(1) by blast
    qed
  qed
  then show ?thesis using gi by (auto simp: clm_iefb_monitor_all_group_timers_def)
qed

section \<open>The first exchange\<close>

text \<open>The periodic function of the master sends the request.\<close>

lemma periodic_request:
  assumes inv: "clm_inv clm" and gi: "gi < number_of_groups clm" and st: "state_of_group clm gi = CLM_GROUP_STATE_MASTER_LINK_SCAN"
    and e: "cl_timer_is_expired (gd_response_wait_timer (clm_groups clm ! gi)) now"
    and gs: "gs = device_setting_at clm gi" and di: "di < gs_num_slave_devices gs" and new: "to_be_connected clm gi di"
    and my: "my = sd_slave_id (gs_slave_devices gs ! di)"
  shows "\<exists>clm' outs bs r. clm_iefb_periodic now clock None [] clm = Returns clm' \<and> clm_inv clm' \<and> clm_config clm' = clm_config clm \<and>
    clm_out clm' = clm_out clm @ outs \<and> Request_Sent (clm_iefb_broadcast_ip clm) bs \<in> set outs \<and>
    received_request bs (mc_master_id (clm_config clm)) port my r \<and>
    connection_period r = ucast (cl_calculate_total_timeout_us (gs_timeout_value gs) (gs_parallel_off_timeout_count gs)) \<and>
    request_for_device r gs (gd_memory_area (clm_groups clm ! gi)) di False \<and> request_pending clm' gi di now r"
proof -
  define c where "c = clm\<lparr>clm_errorlimiter := cl_limiter_periodic now (clm_errorlimiter clm)\<rparr>"
  have c: "clm_inv c" "clm_config c = clm_config clm" "clm_groups c = clm_groups clm" "clm_out c = clm_out clm"
    "clm_iefb_broadcast_ip c = clm_iefb_broadcast_ip clm" using inv by (simp_all add: c_def)
  have gc: "gi < number_of_groups c" "state_of_group c gi = CLM_GROUP_STATE_MASTER_LINK_SCAN" using gi st c by simp_all
  from arbitration_stage [OF c(1) gc, of now clock] obtain d where
    d: "(if cl_timer_is_expired (clm_arbitration_timer c) now then clm_iefb_group_fsm_event_all now clock CLM_GROUP_EVENT_ARBITRATION_DONE
        (c\<lparr>clm_arbitration_timer := cl_timer_stop (clm_arbitration_timer c)\<rparr>) else Returns c) = Returns d"
      "clm_inv d" "clm_config d = clm_config clm" "clm_groups d = clm_groups clm" "clm_out d = clm_out clm"
      "clm_iefb_broadcast_ip d = clm_iefb_broadcast_ip clm" using c by auto
  define Q where "Q g outs \<longleftrightarrow> (\<exists>bs r. Request_Sent (clm_iefb_broadcast_ip clm) bs \<in> set outs \<and>
    received_request bs (mc_master_id (clm_config clm)) port my r \<and>
    connection_period r = ucast (cl_calculate_total_timeout_us (gs_timeout_value gs) (gs_parallel_off_timeout_count gs)) \<and>
    request_for_device r gs (gd_memory_area (clm_groups clm ! gi)) di False \<and>
    (\<forall>x. clm_config x = clm_config clm \<and> clm_groups x ! gi = g \<longrightarrow> request_pending x gi di now r))" for g outs
  have own: "\<exists>x' outs. monitor_group_timers now clock gi x = Returns x' \<and> clm_out x' = clm_out x @ outs \<and> Q (clm_groups x' ! gi) outs"
    if x: "clm_inv x" "clm_config x = clm_config d" "clm_groups x ! gi = clm_groups d ! gi" "clm_iefb_broadcast_ip x = clm_iefb_broadcast_ip d" for x
  proof -
    have y: "gi < number_of_groups x" "state_of_group x gi = CLM_GROUP_STATE_MASTER_LINK_SCAN"
      "cl_timer_is_expired (gd_response_wait_timer (clm_groups x ! gi)) now" "gs = device_setting_at x gi" "to_be_connected x gi di"
      using gi st e gs new x d(3,4) by (simp_all add: device_setting_at_def to_be_connected_def)
    from first_request [OF x(1) y(1-4) di y(5) my, of clock port] obtain x' bs r outs where
      x': "monitor_group_timers now clock gi x = Returns x'" "clm_out x' = clm_out x @ outs @ [Request_Sent (clm_iefb_broadcast_ip x) bs]"
        "received_request bs (mc_master_id (clm_config x)) port my r"
        "connection_period r = ucast (cl_calculate_total_timeout_us (gs_timeout_value gs) (gs_parallel_off_timeout_count gs))"
        "request_for_device r gs (gd_memory_area (clm_groups x ! gi)) di False" "request_pending x' gi di now r" by blast
    have "clm_config x' = clm_config x" using monitor_group_ok [OF x(1) y(1), of now clock] x'(1) by auto
    then have pend: "request_pending z gi di now r" if "clm_config z = clm_config clm" "clm_groups z ! gi = clm_groups x' ! gi" for z
      using request_pending_cong [OF x'(6), of z "gd_constant_linkscan_timer (clm_groups x' ! gi)"] that x(2) d(3) by simp
    have "Q (clm_groups x' ! gi) (outs @ [Request_Sent (clm_iefb_broadcast_ip x) bs])"
      unfolding Q_def using x' x d(3,4,6) pend by (intro exI [of _ bs] exI [of _ r]) simp
    then show ?thesis using x'(1,2) by blast
  qed
  have "\<exists>clm' outs. clm_iefb_monitor_all_group_timers now clock d = Returns clm' \<and> clm_inv clm' \<and> clm_config clm' = clm_config d \<and>
    clm_out clm' = clm_out d @ outs \<and> Q (clm_groups clm' ! gi) outs"
  proof (rule monitor_all_groups)
    show "gi < number_of_groups d" using gi d(3) by simp
    show "Q g (pre @ outs @ post)" if "Q g outs" for g outs pre post using that by (auto simp: Q_def)
  qed (use d(2) own in auto)
  then obtain clm' outs where
    m: "clm_iefb_monitor_all_group_timers now clock d = Returns clm'" "clm_inv clm'" "clm_config clm' = clm_config clm"
      "clm_out clm' = clm_out clm @ outs" "Q (clm_groups clm' ! gi) outs" unfolding d(3,5) by blast
  from m(5) obtain bs r where q: "Request_Sent (clm_iefb_broadcast_ip clm) bs \<in> set outs"
    "received_request bs (mc_master_id (clm_config clm)) port my r"
    "connection_period r = ucast (cl_calculate_total_timeout_us (gs_timeout_value gs) (gs_parallel_off_timeout_count gs))"
    "request_for_device r gs (gd_memory_area (clm_groups clm ! gi)) di False" "request_pending clm' gi di now r"
    unfolding Q_def using m(3) by auto
  have "clm_iefb_periodic now clock None [] clm = Returns clm'"
    unfolding clm_iefb_periodic_def Let_def c_def [symmetric] d(1) using m(1) by simp
  then show ?thesis using m(2-4) q by (intro exI [of _ clm'] exI [of _ outs] exI [of _ bs] exI [of _ r]) simp
qed

text \<open>A group that still waits for its devices stays as it is.\<close>

lemma monitor_waiting_group:
  assumes inv: "clm_inv clm" and gi: "gi < number_of_groups clm" and st: "state_of_group clm gi = CLM_GROUP_STATE_MASTER_LINK_SCAN"
    and e: "\<not> cl_timer_is_expired (gd_response_wait_timer (clm_groups clm ! gi)) now"
  shows "\<exists>clm' outs t. monitor_group_timers now clock gi clm = Returns clm' \<and> clm_out clm' = clm_out clm @ outs \<and>
    clm_groups clm' ! gi = (clm_groups clm ! gi)\<lparr>gd_constant_linkscan_timer := t\<rparr>"
proof -
  let ?d = "set_group gi ((clm_groups clm ! gi)\<lparr>gd_constant_linkscan_timer := cl_timer_stop (gd_constant_linkscan_timer (clm_groups clm ! gi))\<rparr>) clm"
  have gl: "gi < length (clm_groups clm)" "group_tables clm" using inv gi by (simp_all add: clm_inv_def groups_inv_def master_ok_def)
  have idle: "clm_iefb_group_fsm_event now clock gi CLM_GROUP_EVENT_LINKSCAN_START ?d = Returns ?d"
    by (rule group_event_idle) (use gl st in \<open>simp_all add: group_tables_def group_find_live\<close>)
  have same: "\<exists>t. clm_groups clm ! gi = (clm_groups clm ! gi)\<lparr>gd_constant_linkscan_timer := t\<rparr>"
    by (rule exI [of _ "gd_constant_linkscan_timer (clm_groups clm ! gi)"]) simp
  show ?thesis using e idle gl(1) same by (auto simp: monitor_group_timers_def Let_def)
qed

lemma length_cyclic_response:
  assumes "cls_inv s"
  shows "length (cyclic_response s r) = 59 + 72 * cfg_num_occupied_stations (cls_config s)"
proof -
  let ?k = "cfg_num_occupied_stations (cls_config s)" and ?h = "qf_cyclic_data_header (rq_full_headers r)"
  let ?f = "if my_transmission_bit s r then cls_resp_frame_normal s else cls_resp_frame_error s"
  have wf: "response_frame_wf ?f ?k" using assms by (simp add: inv_defs)
  define f' where "f' = cl_iefb_update_cyclic_response_frame ?f (rq_slave_ip_addr r) CL_SLMP_ENDCODE_SUCCESS (ucast (qdh_group_no ?h))
    (qdh_frame_sequence_no ?h) (cls_slave_application_status s) (cls_slave_err_code s) (cls_local_management_info s)"
  have "response_frame_wf f' ?k" by (rule update_response_frame_ok(1) [OF wf f'_def])
  then show ?thesis
    unfolding cyclic_response_def f'_def [symmetric] Let_def by (simp add: response_frame_wf_def)
qed

lemma cyclic_response_safe: "cls_inv s \<Longrightarrow> safe_datagram (cyclic_response s r)"
  using length_cyclic_response [of s r] by (auto simp: safe_datagram_def CL_BUFFER_LEN_def cyclic_response_size inv_defs)

text \<open>The periodic function of the master handles the response, while the group still waits.\<close>

lemma periodic_response:
  assumes inv: "clm_inv clm" and gi: "gi < number_of_groups clm" and gs: "gs = device_setting_at clm gi" and di: "di < gs_num_slave_devices gs"
    and pend: "request_pending clm gi di now r" and early: "unat (now' - now) < unat (scan_period gs)"
    and rec: "received_request bs (mc_master_id (clm_config clm)) port my r" and my: "my = sd_slave_id (gs_slave_devices gs ! di)"
    and sinv: "cls_inv s" and occ: "cfg_num_occupied_stations (cls_config s) = device_occ gs di"
  shows "\<exists>clm'. clm_iefb_periodic now' clock None [(cyclic_response s r, my, port')] clm = Returns clm' \<and> clm_inv clm' \<and>
    clm_config clm' = clm_config clm \<and> connected_device clm' gi di \<and>
    request_parameter_no (clm_groups clm' ! gi) = request_parameter_no (clm_groups clm ! gi)"
proof -
  let ?resp = "cyclic_response s r"
  define c where "c = clm\<lparr>clm_errorlimiter := cl_limiter_periodic now' (clm_errorlimiter clm)\<rparr>"
  have c: "clm_inv c" "clm_config c = clm_config clm" "clm_groups c = clm_groups clm" using inv by (simp_all add: c_def)
  have st: "state_of_group clm gi = CLM_GROUP_STATE_MASTER_LINK_SCAN" using pend by (simp add: request_pending_def Let_def)
  have e: "\<not> cl_timer_is_expired (gd_response_wait_timer (clm_groups clm ! gi)) now'"
    using pend early gs by (auto simp: request_pending_def Let_def expired_start_iff word_le_nat_alt)
  have gc: "gi < number_of_groups c" "state_of_group c gi = CLM_GROUP_STATE_MASTER_LINK_SCAN" using gi st c by simp_all
  from arbitration_stage [OF c(1) gc, of now' clock] obtain d where
    d: "(if cl_timer_is_expired (clm_arbitration_timer c) now' then clm_iefb_group_fsm_event_all now' clock CLM_GROUP_EVENT_ARBITRATION_DONE
        (c\<lparr>clm_arbitration_timer := cl_timer_stop (clm_arbitration_timer c)\<rparr>) else Returns c) = Returns d"
      "clm_inv d" "clm_config d = clm_config clm" "clm_groups d = clm_groups clm" using c by auto
  have "\<exists>m outs. clm_iefb_monitor_all_group_timers now' clock d = Returns m \<and> clm_inv m \<and> clm_config m = clm_config d \<and>
    clm_out m = clm_out d @ outs \<and> (\<exists>t. clm_groups m ! gi = (clm_groups clm ! gi)\<lparr>gd_constant_linkscan_timer := t\<rparr>)"
  proof (rule monitor_all_groups)
    show "gi < number_of_groups d" using gi d(3) by simp
    show "\<exists>x' outs. monitor_group_timers now' clock gi x = Returns x' \<and> clm_out x' = clm_out x @ outs \<and>
        (\<exists>t. clm_groups x' ! gi = (clm_groups clm ! gi)\<lparr>gd_constant_linkscan_timer := t\<rparr>)"
      if x: "clm_inv x" "clm_config x = clm_config d" "clm_groups x ! gi = clm_groups d ! gi" for x
      using monitor_waiting_group [OF x(1), of gi now' clock] x gi st e d(3,4) by simp
  qed (use d(2) in auto)
  then obtain m t where m: "clm_iefb_monitor_all_group_timers now' clock d = Returns m" "clm_inv m" "clm_config m = clm_config clm"
    "clm_groups m ! gi = (clm_groups clm ! gi)\<lparr>gd_constant_linkscan_timer := t\<rparr>" unfolding d(3) by blast
  have pm: "request_pending m gi di now r" by (rule request_pending_cong [OF pend m(3,4)])
  have gm: "gi < number_of_groups m" "gs = device_setting_at m gi" using gi gs m(3) by (simp_all add: device_setting_at_def)
  have ip: "rq_slave_ip_addr r = sd_slave_id (gs_slave_devices gs ! di)" using received_request_remote(3) [OF rec] my by simp
  have gno: "unat (qdh_group_no (qf_cyclic_data_header (rq_full_headers r))) = gi + 1"
    and aw: "awaits_response m gi di (qdh_frame_sequence_no (qf_cyclic_data_header (rq_full_headers r)))"
    and wait: "state_of_group m gi = CLM_GROUP_STATE_MASTER_LINK_SCAN"
      "dd_device_state (gd_slave_devices (clm_groups m ! gi) ! di) = CLM_DEVICE_STATE_WAIT_TD"
    using pm by (simp_all add: request_pending_def Let_def)
  from slave_response_handled [OF m(2) gm di sinv received_request_ok [OF rec] ip gno occ aw, of now' clock port'] obtain rp where
    rp: "clm_iefb_handle_input_frame now' clock ?resp my port' m = handle_device_response now' clock gi di rp m"
      "accepts_response m gi di rp" "csh_end_code (sf_cyclic_header (rp_full_headers rp)) = CL_SLMP_ENDCODE_SUCCESS"
    unfolding ip my by blast
  from response_connects [OF m(2) gm di rp(2,3) wait(1), of now' clock] wait(2) obtain clm' where
    r': "handle_device_response now' clock gi di rp m = Returns (True, clm')" "clm_inv clm'" "clm_config clm' = clm_config m"
      "connected_device clm' gi di" "request_parameter_no (clm_groups clm' ! gi) = request_parameter_no (clm_groups m ! gi)" by auto
  have "?resp \<noteq> []" using length_cyclic_response [OF sinv, of r] by auto
  then have "receive_all now' clock [(?resp, my, port')] m = Returns clm'" using rp(1) r'(1) by simp
  then have "clm_iefb_periodic now' clock None [(?resp, my, port')] clm = Returns clm'"
    unfolding clm_iefb_periodic_def Let_def c_def [symmetric] d(1) using m(1) by simp
  moreover have "request_parameter_no (clm_groups m ! gi) = request_parameter_no (clm_groups clm ! gi)" using m(4) by (simp add: request_parameter_no_def)
  ultimately show ?thesis using r'(2-5) m(3) by (intro exI [of _ clm']) simp
qed

text \<open>The periodic function of the slave accepts the request.\<close>

lemma periodic_connect:
  assumes inv: "cls_inv s" and st: "cls_state s = CLS_SLAVE_STATE_MASTER_NONE"
    and rec: "received_request bs ip port my r"
    and ids: "cl_iefb_analyze_slave_ids my (rq_total_occupied r) bs 67 = Some (True, n, cfg_num_occupied_stations (cls_config s))"
    and off: "\<not> cl_iefb_extract_my_transmission_state (qdh_cyclic_transmission_state (qf_cyclic_data_header (rq_full_headers r))) n"
    and period: "connection_period r \<noteq> 0"
  shows "\<exists>s' t outs. cls_iefb_periodic now (Some (bs, ip, port, my)) s = Returns s' \<and> cls_inv t \<and> cls_config t = cls_config s \<and>
    cls_state s' = CLS_SLAVE_STATE_MASTER_CONTROL \<and> cls_master s' = connection_of r n \<and> cls_config s' = cls_config s \<and>
    cls_out s' = cls_out s @ outs @ [Udp_Send ip port (cyclic_response t r)]"
proof -
  from connect_frame [OF inv st rec ids off, of now] obtain s1 x t outs where
    s1: "cls_iefb_handle_input_frame now bs ip port my s = Returns (True, s1)" "cls_state s1 = CLS_SLAVE_STATE_MASTER_CONTROL"
      "cls_master s1 = connection_of r n" "cls_receive_timer s1 = cl_timer_start (connection_period r) now x" "cls_config s1 = cls_config s"
      "cls_inv t" "cls_config t = cls_config s" "cls_out s1 = cls_out s @ outs @ [Udp_Send ip port (cyclic_response t r)]" by blast
  have "cls_inv s1" using input_frame_ok [OF inv, of now bs ip port my] s1(1) by auto
  then have idle: "\<not> cl_timer_is_expired (cls_timer_for_disabling_slave s1) now"
    using s1(2) stopped_not_expired by (simp add: cls_inv_def idle_inv_def)
  have run: "\<not> cl_timer_is_expired (cls_receive_timer s1) now" using started_not_expired [OF period] s1(4) by simp
  have "bs \<noteq> []" using rec parse_request_Some(1) by (fastforce simp: received_request_def)
  then have "cls_iefb_periodic now (Some (bs, ip, port, my)) s = Returns (s1\<lparr>cls_errorlimiter := cl_limiter_periodic now (cls_errorlimiter s1),
      cls_loglimiter := cl_limiter_periodic now (cls_loglimiter s1)\<rparr>)"
    using s1(1) idle run by (simp add: cls_iefb_periodic_def)
  then show ?thesis using s1 by auto
qed

lemma connection_period_positive:
  assumes "unat (cl_calculate_total_timeout_us tv cnt) < 2 ^ 32"
  shows "(ucast (cl_calculate_total_timeout_us tv cnt) :: u32) \<noteq> 0"
proof -
  have "0 < unat (cl_calculate_total_timeout_us tv cnt)" using total_timeout_exact [of tv cnt] by (auto simp: unat_gt_0 word_neq_0_conv)
  then have "unat (ucast (cl_calculate_total_timeout_us tv cnt) :: u32) \<noteq> 0"
    using assms by (simp add: unsigned_ucast_eq take_bit_nat_eq_self)
  then show ?thesis by (metis unat_0)
qed

text \<open>
  One exchange connects: the master sends its request, the slave accepts the master and answers, and the
  answer connects the device.
\<close>

lemma first_exchange:
  assumes minv: "clm_inv clm" and gi: "gi < number_of_groups clm" and st: "state_of_group clm gi = CLM_GROUP_STATE_MASTER_LINK_SCAN"
    and e: "cl_timer_is_expired (gd_response_wait_timer (clm_groups clm ! gi)) now"
    and gs: "gs = device_setting_at clm gi" and di: "di < gs_num_slave_devices gs" and new: "to_be_connected clm gi di"
    and my: "my = sd_slave_id (gs_slave_devices gs ! di)"
    and total: "unat (cl_calculate_total_timeout_us (gs_timeout_value gs) (gs_parallel_off_timeout_count gs)) < 2 ^ 32"
    and sinv: "cls_inv s" and none: "cls_state s = CLS_SLAVE_STATE_MASTER_NONE"
    and occ: "cfg_num_occupied_stations (cls_config s) = device_occ gs di"
    and early: "unat (now2 - now) < 1000 * unat (gs_timeout_value gs)"
  shows "\<exists>clm1 outs bs s1 souts resp clm2.
    clm_iefb_periodic now clock None [] clm = Returns clm1 \<and> clm_out clm1 = clm_out clm @ outs \<and>
    Request_Sent (clm_iefb_broadcast_ip clm) bs \<in> set outs \<and>
    cls_iefb_periodic now1 (Some (bs, mc_master_id (clm_config clm), port, my)) s = Returns s1 \<and>
    cls_out s1 = cls_out s @ souts @ [Udp_Send (mc_master_id (clm_config clm)) port resp] \<and> safe_datagram resp \<and>
    clm_iefb_periodic now2 clock2 None [(resp, my, port2)] clm1 = Returns clm2 \<and> clm_config clm2 = clm_config clm \<and>
    connected_device clm2 gi di \<and> serves s1 clm2 gi di"
proof -
  have gs': "gs = hi_groups (mc_hier (clm_config clm)) ! gi" using gs by (simp add: device_setting_at_def)
  from periodic_request [OF minv gi st e gs di new my, of clock port] obtain clm1 outs bs r where
    m: "clm_iefb_periodic now clock None [] clm = Returns clm1" "clm_inv clm1" "clm_config clm1 = clm_config clm"
      "clm_out clm1 = clm_out clm @ outs" "Request_Sent (clm_iefb_broadcast_ip clm) bs \<in> set outs"
      "received_request bs (mc_master_id (clm_config clm)) port my r"
      "connection_period r = ucast (cl_calculate_total_timeout_us (gs_timeout_value gs) (gs_parallel_off_timeout_count gs))"
      "request_for_device r gs (gd_memory_area (clm_groups clm ! gi)) di False" "request_pending clm1 gi di now r" by blast
  have "rq_buffer r = bs" "rq_first_slave_id r = 67" using m(6) parse_request_Some by (auto simp: received_request_def)
  then have ids: "cl_iefb_analyze_slave_ids my (rq_total_occupied r) bs 67 = Some (True, station_no gs di, cfg_num_occupied_stations (cls_config s))"
    "\<not> cl_iefb_extract_my_transmission_state (qdh_cyclic_transmission_state (qf_cyclic_data_header (rq_full_headers r))) (station_no gs di)"
    using m(8) my occ by (simp_all add: request_for_device_def Let_def)
  have period: "connection_period r \<noteq> 0" using connection_period_positive [OF total] m(7) by simp
  from periodic_connect [OF sinv none m(6) ids period, of now1] obtain s1 t souts where
    s: "cls_iefb_periodic now1 (Some (bs, mc_master_id (clm_config clm), port, my)) s = Returns s1" "cls_inv t" "cls_config t = cls_config s"
      "cls_state s1 = CLS_SLAVE_STATE_MASTER_CONTROL" "cls_master s1 = connection_of r (station_no gs di)" "cls_config s1 = cls_config s"
      "cls_out s1 = cls_out s @ souts @ [Udp_Send (mc_master_id (clm_config clm)) port (cyclic_response t r)]" by blast
  have g1: "gi < number_of_groups clm1" "gs = device_setting_at clm1 gi" using gi gs m(3) by (simp_all add: device_setting_at_def)
  have "1 \<le> gs_timeout_value gs" using good_config_group(4) [OF _ gi gs'] minv by (simp add: clm_inv_def groups_inv_def master_ok_def)
  then have early': "unat (now2 - now) < unat (scan_period gs)" using scan_period_positive(2) early by simp
  have rec1: "received_request bs (mc_master_id (clm_config clm1)) port my r" using m(3,6) by simp
  have "cfg_num_occupied_stations (cls_config t) = device_occ gs di" using s(3) occ by simp
  from periodic_response [OF m(2) g1 di m(9) early' rec1 my s(2) this, of clock2 port2] obtain clm2 where
    c2: "clm_iefb_periodic now2 clock2 None [(cyclic_response t r, my, port2)] clm1 = Returns clm2" "clm_config clm2 = clm_config clm1"
      "connected_device clm2 gi di" "request_parameter_no (clm_groups clm2 ! gi) = request_parameter_no (clm_groups clm1 ! gi)" by blast
  have "serves s1 clm2 gi di"
    by (rule accepted_serves [where r = r and gs = gs])
      (use m(3,6,9) c2(2,4) gs s(4-6) occ in \<open>simp_all add: device_setting_at_def request_pending_def Let_def\<close>)
  then show ?thesis using m(1,3-5) s(1,7) c2 cyclic_response_safe [OF s(2)]
    by (intro exI [of _ clm1] exI [of _ outs] exI [of _ bs] exI [of _ s1] exI [of _ souts] exI [of _ "cyclic_response t r"] exI [of _ clm2]) simp
qed

section \<open>The requests that follow\<close>

text \<open>
  When the transmission bit of the device is on, the slave that serves it reads the outputs of the
  master's application from the next request.
\<close>

lemma next_request_read:
  assumes inv: "clm_inv clm" and gi: "gi < number_of_groups clm" and st: "state_of_group clm gi = CLM_GROUP_STATE_MASTER_LINK_SCAN"
    and e: "cl_timer_is_expired (gd_response_wait_timer (clm_groups clm ! gi)) now"
    and gs: "gs = device_setting_at clm gi" and di: "di < gs_num_slave_devices gs" and d: "d = gd_slave_devices (clm_groups clm ! gi) ! di"
    and on: "dd_enabled d" "stays_connected gs d \<or> dd_force_transmission_bit d"
    and my: "my = sd_slave_id (gs_slave_devices gs ! di)" and sinv: "cls_inv s" and serves: "serves s clm gi di"
  shows "\<exists>clm' bs r outs s' souts. monitor_group_timers now clock gi clm = Returns clm' \<and>
    clm_out clm' = clm_out clm @ outs @ [Request_Sent (clm_iefb_broadcast_ip clm) bs] \<and>
    received_request bs (mc_master_id (clm_config clm)) port my r \<and> my_transmission_bit s r \<and>
    cls_iefb_handle_input_frame now' bs (mc_master_id (clm_config clm)) port my s = Returns (True, s') \<and>
    cls_out s' = cls_out s @ souts @ [Udp_Send (mc_master_id (clm_config clm)) port (cyclic_response s r)] \<and>
    (\<forall>i. unat i < 64 * device_occ gs di \<longrightarrow> cls_iefb_get_ry_bit i s' = get_ry (gi, di, i) clm) \<and>
    (\<forall>i. unat i < 32 * device_occ gs di \<longrightarrow> cls_iefb_get_rww_value i s' = get_rww (gi, di, i) clm)"
proof -
  have gs': "gs = hi_groups (mc_hier (clm_config clm)) ! gi" using gs by (simp add: device_setting_at_def)
  have "my \<noteq> 0" using slave_ids_valid(1) [OF _ gi gs' di] inv my by (simp add: clm_inv_def groups_inv_def master_ok_def)
  from timeout_request [OF inv gi st e this, of clock port, folded gs'] obtain clm' bs r outs where
    r: "monitor_group_timers now clock gi clm = Returns clm'"
      "clm_out clm' = clm_out clm @ outs @ [Request_Sent (clm_iefb_broadcast_ip clm) bs]"
      "received_request bs (mc_master_id (clm_config clm)) port my r" "rq_total_occupied r = stations_of gs"
      "qdh_frame_sequence_no (qf_cyclic_data_header (rq_full_headers r)) = clm_iefb_update_frame_sequence_no (gd_frame_sequence_no (clm_groups clm ! gi))"
      "unat (qdh_group_no (qf_cyclic_data_header (rq_full_headers r))) = gi + 1"
      "qdh_parameter_no (qf_cyclic_data_header (rq_full_headers r)) = request_parameter_no (clm_groups clm ! gi)"
      "\<forall>di < gs_num_slave_devices gs. dd_enabled (gd_slave_devices (clm_groups clm ! gi) ! di) \<longrightarrow>
        request_for_device r gs (gd_memory_area (clm_groups clm ! gi)) di
          (stays_connected gs (gd_slave_devices (clm_groups clm ! gi) ! di) \<or>
           dd_force_transmission_bit (gd_slave_devices (clm_groups clm ! gi) ! di))" by blast
  have own: "request_for_device r gs (gd_memory_area (clm_groups clm ! gi)) di True" using r(8) di on d by auto
  have sq: "qdh_frame_sequence_no (qf_cyclic_data_header (rq_full_headers r)) \<noteq> 0" using r(5) next_sequence_no by simp
  note cont = serves_continues [OF inv gi gs di r(3) [unfolded my] r(4) sq r(6,7) own serves]
  have m: "ma_slave_station_no (cls_master s) = station_no gs di" "cfg_num_occupied_stations (cls_config s) = device_occ gs di"
    using serves gs by (simp_all add: serves_def Let_def)
  from slave_reads_request [OF sinv r(3) cont(1), of now'] cont(2) m obtain s' souts where
    s': "cls_iefb_handle_input_frame now' bs (mc_master_id (clm_config clm)) port my s = Returns (True, s')"
      "cls_out s' = cls_out s @ souts @ [Udp_Send (mc_master_id (clm_config clm)) port (cyclic_response s r)]"
      "\<forall>i. unat i < 64 * device_occ gs di \<longrightarrow> cls_iefb_get_ry_bit i s' =
        Returns (bit (request_ry r (station_no gs di) (device_occ gs di) ! (unat i div 8)) (unat i mod 8))"
      "\<forall>i. unat i < 32 * device_occ gs di \<longrightarrow> cls_iefb_get_rww_value i s' =
        Returns (le16_at (request_rww r (station_no gs di) (device_occ gs di)) (2 * unat i))" by auto
  show ?thesis using r(1-3) cont(2) s' request_data_read [OF inv gi gs' di own] by fastforce
qed

end
