(* ===== verification/CL_Samples.thy ===== *)
theory CL_Samples
  imports CLS_Behaviour
begin

text \<open>
  Concrete inputs on which the theorems are applied: a slave with one station as it is before its
  initialisation, and request frames addressed to it.
\<close>

definition sample_timer :: cl_timer where "sample_timer = \<lparr>tm_state = CL_TIMER_STOPPED, tm_period = 0, tm_timestamp = 0\<rparr>"
definition sample_limiter :: cl_limiter where
  "sample_limiter = \<lparr>lm_timer = sample_timer, lm_period = 0, lm_previous_message = 0, lm_number_of_calls = 0, lm_number_of_outputs = 0\<rparr>"
definition sample_cfg :: cls_cfg where
  "sample_cfg = \<lparr>cfg_vendor_code = 0x1234, cfg_model_code = 7, cfg_equipment_ver = 1, cfg_num_occupied_stations = 1,
     cfg_ip_setting_allowed = True, cfg_state_cb = True, cfg_error_cb = True, cfg_connect_cb = True,
     cfg_disconnect_cb = True, cfg_master_running_cb = True, cfg_node_search_cb = True, cfg_set_ip_cb = True,
     cfg_iefb_ip_addr = 0, cfg_use_slmp_directed_broadcast = False\<rparr>"
definition sample_frame_info :: cls_cciefb_cyclic_response_info where
  "sample_frame_info = \<lparr>sr_buffer = [], sr_udp_payload_len = 0, sr_first_rwr = 0, sr_first_rx = 0\<rparr>"
definition blank_slave :: cls where
  "blank_slave = \<lparr>cls_config = sample_cfg, cls_endcode_slave_disabled = 0, cls_slave_application_status = 0,
     cls_loglimiter = sample_limiter, cls_errorlimiter = sample_limiter, cls_local_management_info = 0,
     cls_slave_err_code = 0, cls_ry = replicate 32 0, cls_rww = replicate 256 0,
     cls_resp_frame_normal = sample_frame_info, cls_resp_frame_error = sample_frame_info, cls_master = no_master,
     cls_state = CLS_SLAVE_STATE_SLAVE_DOWN, cls_fsm_matrix = (\<lambda>st ev. (st, None)), cls_fsm_on_entry_exit = (\<lambda>st. (None, None)),
     cls_receive_timer = sample_timer, cls_timer_for_disabling_slave = sample_timer,
     cls_trigger = \<lparr>td_executed_before = False, td_previous_connected_to_master = False, td_previous_protocol_ver = 0, td_previous_master_application_status = 0\<rparr>,
     cls_node_search_data = \<lparr>ns_response_timer = sample_timer, ns_master_mac_address = replicate 6 0, ns_master_ip_addr = 0,
       ns_master_port = 0, ns_request_serial = 0, ns_slave_mac_address = replicate 6 0, ns_slave_ip_address = 0, ns_slave_netmask = 0\<rparr>,
     cls_slmp_send_socket = - 1, cls_slmp_receive_socket = - 1, cls_out = []\<rparr>"

definition request_bytes :: "u32 \<Rightarrow> u32 \<Rightarrow> u16 \<Rightarrow> u16 \<Rightarrow> bytes" where
  "request_bytes master slave sqn trs =
     enc_req_full_headers (updated_request_headers (initial_request_headers 143 2 500 3 master 1 1 1) sqn 1000 1 trs)
     @ le32_bytes slave @ map of_nat [0..<72]"

definition master_ip :: u32 where "master_ip = 0xC0A80301"
definition slave_ip :: u32 where "slave_ip = 0xC0A80315"

definition sample_request :: "u16 \<Rightarrow> u16 \<Rightarrow> bytes" where
  "sample_request sqn trs = request_bytes master_ip slave_ip sqn trs"

text \<open>The same first request, but of a master that announces a timeout of 42950 ms times 100.\<close>

definition long_timeout_request :: bytes where
  "long_timeout_request =
     enc_req_full_headers (updated_request_headers (initial_request_headers 143 2 42950 100 master_ip 1 1 1) 0 1000 1 0)
     @ le32_bytes slave_ip @ map of_nat [0..<72]"

text \<open>The slave after initialisation, and after operations that succeed.\<close>

definition started_slave :: cls where
  "started_slave = (case cls_iefb_init 0 True blank_slave of Returns (Some s) \<Rightarrow> s | _ \<Rightarrow> blank_slave)"

definition after :: "cls_operation \<Rightarrow> cls \<Rightarrow> cls" where
  "after oper s = (case cls_do oper s of Returns s' \<Rightarrow> s' | _ \<Rightarrow> s)"

definition connected_slave :: cls where
  "connected_slave = after (Periodic 1000 (Some (sample_request 0 0, master_ip, 61450, slave_ip))) started_slave"

definition parsed :: "bytes \<Rightarrow> u32 \<Rightarrow> cls_request" where
  "parsed bs ip = (case cl_iefb_parse_cyclic_request bs ip 61450 slave_ip of Returns (Some r) \<Rightarrow> r
     | _ \<Rightarrow> \<lparr>rq_remote_ip = 0, rq_remote_port = 0, rq_slave_ip_addr = 0, rq_buffer = [],
              rq_full_headers = dec_req_full_headers bs 0, rq_first_slave_id = 0, rq_first_rww = None,
              rq_first_ry = None\<rparr>)"

lemma started_slave_reachable: "cls_reachable started_slave"
proof -
  have c: "config_inv blank_slave" by code_simp
  from iefb_init_ok [OF c, of 0] obtain s where "cls_iefb_init 0 True blank_slave = Returns (Some s)" by blast
  then show ?thesis using cls_reachable.start [OF c, of 0] by (simp add: started_slave_def)
qed

lemma after_reachable: "cls_reachable s \<Longrightarrow> cls_reachable (after oper s)"
  by (auto simp: after_def intro: cls_reachable.step split: outcome.split)

lemma connected_slave_reachable: "cls_reachable connected_slave"
  unfolding connected_slave_def by (intro after_reachable started_slave_reachable)

text \<open>The connection data of the connected slave, evaluated once.\<close>

definition connection_view where
  "connection_view s = (cls_state s, cls_config s, cls_master s, cls_receive_timer s)"

lemma connected_slave_view: "connection_view connected_slave =
  (CLS_SLAVE_STATE_MASTER_CONTROL, sample_cfg, connection_of (parsed (sample_request 0 0) master_ip) 1,
   cl_timer_start 1500000 1000 sample_timer)"
  by code_simp

lemma connected_slave_facts:
  "cls_state connected_slave = CLS_SLAVE_STATE_MASTER_CONTROL" "cls_config connected_slave = sample_cfg"
  "cls_master connected_slave = connection_of (parsed (sample_request 0 0) master_ip) 1"
  "cls_receive_timer connected_slave = cl_timer_start 1500000 1000 sample_timer"
  "cfg_num_occupied_stations (cls_config connected_slave) = 1"
  using connected_slave_view by (simp_all add: connection_view_def sample_cfg_def)

lemmas connected_slave_state = connected_slave_facts(1)

end
