(* ===== verification/CLM_Samples.thy ===== *)
theory CLM_Samples
  imports CL_Connect CL_Samples
begin

text \<open>
  Concrete masters on which the theorems are applied: a configuration with one group of one slave,
  the master after its initialisation, after arbitration, with the device enabled, and connected with
  the sample slave. Their states follow from the lemmas on the operations that lead to them.
\<close>

definition sample_group :: clm_group_setting where
  "sample_group = \<lparr>gs_timeout_value = 500, gs_parallel_off_timeout_count = 3, gs_use_constant_link_scan_time = False,
     gs_num_slave_devices = 1, gs_slave_devices = [\<lparr>sd_slave_id = slave_ip, sd_num_occupied_stations = 1, sd_reserved_slave_device = False\<rparr>]\<rparr>"

definition sample_master_cfg :: clm_cfg where
  "sample_master_cfg = \<lparr>mc_state_cb = True, mc_connect_cb = True, mc_disconnect_cb = True, mc_linkscan_cb = True, mc_alarm_cb = True,
     mc_error_cb = True, mc_changed_slave_info_cb = True, mc_node_search_cfm_cb = True, mc_set_ip_cfm_cb = True,
     mc_hier = \<lparr>hi_number_of_groups = 1, hi_groups = [sample_group]\<rparr>, mc_protocol_ver = 2, mc_arbitration_time = 0,
     mc_callback_time_node_search = 0, mc_callback_time_set_ip = 0, mc_max_statistics_samples = 100,
     mc_use_separate_arbitration_socket = False, mc_use_slmp_directed_broadcast = False, mc_use_single_slmp_socket = False,
     mc_master_id = master_ip\<rparr>"

definition blank_master :: clm where
  "blank_master = \<lparr>clm_slmp_broadcast_ip = 0xFFFFFFFF, clm_iefb_broadcast_ip = 0xC0A803FF, clm_mac_address = [], clm_latest_conflicting_master_ip = 0,
     clm_config = sample_master_cfg, clm_device_fsm_matrix = (\<lambda>st ev. (st, None)), clm_device_fsm_on_entry_exit = (\<lambda>st. (None, None)),
     clm_group_fsm_matrix = (\<lambda>st ev. (st, None)), clm_group_fsm_on_entry_exit = (\<lambda>st. (None, None)), clm_slmp_request_serial = 0,
     clm_state = CLM_MASTER_STATE_DOWN, clm_parameter_no = 0, clm_master_local_unit_info = 0, clm_arbitration_timer = sample_timer,
     clm_node_search_serial = 0, clm_node_search_timer = sample_timer, clm_set_ip_request_serial = 0, clm_set_ip_request_timer = sample_timer,
     clm_node_search_data = \<lparr>db_count = 0, db_stored = 0, db_entries = []\<rparr>,
     clm_ifindex = 1, clm_slmp_send_socket = - 1, clm_slmp_receive_socket = - 1, clm_groups = [], clm_errorlimiter = sample_limiter, clm_out = []\<rparr>"

definition sample_clock :: "nat \<Rightarrow> u64" where "sample_clock n = 1000"

definition started_master :: clm where
  "started_master = (case clm_iefb_init 1 1 0 sample_clock True True blank_master of Returns (_, c) \<Rightarrow> c | _ \<Rightarrow> blank_master)"

definition master_after :: "clm_operation \<Rightarrow> clm \<Rightarrow> clm" where
  "master_after oper c = (case clm_do oper c of Returns c' \<Rightarrow> c' | _ \<Rightarrow> c)"

text \<open>The time at which a timer has run for its period.\<close>

definition due :: "cl_timer \<Rightarrow> u32" where
  "due t = tm_timestamp t + tm_period t"

definition scanning_master :: clm where
  "scanning_master = master_after (Master_Periodic (due (clm_arbitration_timer started_master)) sample_clock None []) started_master"

lemma sample_config_valid:
  "options_ok 1 1" "arrays_ok sample_master_cfg" "clm_validate_config 1 1 (Some sample_master_cfg)" "clm_validate_config_duplicates sample_master_cfg"
  by (simp_all add: options_ok_def arrays_ok_def clm_validate_config_def clm_validate_config_duplicates_def sample_master_cfg_def
      sample_group_def groups_of_def devices_of_def add16_def protocol_ver_unsupported_def cl_utils_is_ipaddr_range_valid_def
      master_ip_def slave_ip_def cl_consts CL_CCIEFB_MAX_OCCUPIED_STATIONS_FOR_ALL_GROUPS_def CL_CCIEFB_MAX_TIMEOUT_CONSTANT_LINKSCAN_def Let_def)

lemma sample_group_simps [simp]: "hi_number_of_groups (mc_hier sample_master_cfg) = 1" "hi_groups (mc_hier sample_master_cfg) ! 0 = sample_group"
  "gs_num_slave_devices sample_group = 1" "device_occ sample_group 0 = 1" "station_no sample_group 0 = 1"
  by (simp_all add: sample_master_cfg_def sample_group_def device_occ_def station_no_def)

lemma started_master_ok:
  "clm_iefb_init 1 1 0 sample_clock True True blank_master = Returns (True, started_master)"
  "clm_reachable started_master" "clm_config started_master = sample_master_cfg"
  "state_of_group started_master 0 = CLM_GROUP_STATE_MASTER_ARBITRATION"
proof -
  have cfg: "clm_config blank_master = sample_master_cfg" "number_of_groups blank_master = 1" by (simp_all add: blank_master_def sample_master_cfg_def)
  note v = sample_config_valid
  have "config_valid 1 1 sample_master_cfg" "distinct (slave_ids_of sample_master_cfg)"
    using v validate_config_iff duplicates_iff by blast+
  from master_init_ok [of 1 1 blank_master True True 0 sample_clock, unfolded cfg, OF v(1) this(1) v(2) this(2)] obtain c where
    c: "clm_iefb_init 1 1 0 sample_clock True True blank_master = Returns (True, c)" "clm_config c = sample_master_cfg"
      "state_of_group c 0 = CLM_GROUP_STATE_MASTER_ARBITRATION" by auto
  moreover have "started_master = c" using c(1) by (simp add: started_master_def)
  moreover have "clm_reachable c" using clm_reachable.start [of 1 1 blank_master 0 sample_clock c] v c(1) cfg(1) by simp
  ultimately show "clm_iefb_init 1 1 0 sample_clock True True blank_master = Returns (True, started_master)"
    "clm_reachable started_master" "clm_config started_master = sample_master_cfg"
    "state_of_group started_master 0 = CLM_GROUP_STATE_MASTER_ARBITRATION" by simp_all
qed

lemma started_master_due: "cl_timer_is_expired (clm_arbitration_timer started_master) (due (clm_arbitration_timer started_master))"
proof -
  have "timer_runs (arbitration_period sample_master_cfg) (clm_arbitration_timer started_master)"
    using master_reachable_inv [OF started_master_ok(2)] started_master_ok(3,4) by (simp add: clm_inv_def arbitration_inv_def)
  then show ?thesis unfolding due_def arbitration_period_def by (rule running_timer_expires)
qed

lemma scanning_master_ok:
  "clm_reachable scanning_master" "clm_config scanning_master = sample_master_cfg"
  "state_of_group scanning_master 0 = CLM_GROUP_STATE_MASTER_LINK_SCAN"
  "cl_timer_is_expired (gd_response_wait_timer (clm_groups scanning_master ! 0)) (due (gd_response_wait_timer (clm_groups scanning_master ! 0)))"
proof -
  let ?now = "due (clm_arbitration_timer started_master)"
  from arbitration_ends [OF master_reachable_inv [OF started_master_ok(2)] _ started_master_ok(4) started_master_due, of sample_clock]
  obtain c where c: "clm_iefb_periodic ?now sample_clock None [] started_master = Returns c" "clm_inv c" "clm_config c = sample_master_cfg"
    "state_of_group c 0 = CLM_GROUP_STATE_MASTER_LINK_SCAN" by (auto simp: started_master_ok(3))
  have s: "scanning_master = c" using c(1) by (simp add: scanning_master_def master_after_def)
  have "clm_do (Master_Periodic ?now sample_clock None []) started_master = Returns c" "operation_ok (Master_Periodic ?now sample_clock None []) started_master"
    using c(1) by simp_all
  then show "clm_reachable scanning_master" using clm_reachable.step [OF started_master_ok(2)] s by blast
  show "clm_config scanning_master = sample_master_cfg" "state_of_group scanning_master 0 = CLM_GROUP_STATE_MASTER_LINK_SCAN" using c s by simp_all
  have "timer_runs (scan_period sample_group) (gd_response_wait_timer (clm_groups c ! 0))"
    using c(2-4) by (auto simp: clm_inv_def groups_inv_def group_inv_def scan_pending_def Let_def)
  then show "cl_timer_is_expired (gd_response_wait_timer (clm_groups scanning_master ! 0)) (due (gd_response_wait_timer (clm_groups scanning_master ! 0)))"
    unfolding due_def s scan_period_def by (rule running_timer_expires)
qed

text \<open>No device is connected after the first request.\<close>

lemma scanning_master_device:
  "dd_device_state (gd_slave_devices (clm_groups scanning_master ! 0) ! 0) \<in> {CLM_DEVICE_STATE_WAIT_TD, CLM_DEVICE_STATE_CYCLIC_SUSPEND}"
proof -
  let ?now = "due (clm_arbitration_timer started_master)"
  define c where "c = (started_master\<lparr>clm_errorlimiter := cl_limiter_periodic ?now (clm_errorlimiter started_master)\<rparr>)
    \<lparr>clm_arbitration_timer := cl_timer_stop (clm_arbitration_timer started_master)\<rparr>"
  have inv: "clm_inv started_master" by (rule master_reachable_inv [OF started_master_ok(2)])
  have c: "clm_config c = sample_master_cfg" "clm_groups c = clm_groups started_master" "groups_inv c"
    using inv started_master_ok(3)
    by (simp_all add: c_def clm_inv_def groups_inv_def master_ok_def device_tables_def group_tables_def unit_info_ok_def)
  have cg: "0 < number_of_groups c" "state_of_group c 0 = CLM_GROUP_STATE_MASTER_ARBITRATION" using c started_master_ok(4) by simp_all
  from arbitration_done_scans [OF c(3) cg, of ?now sample_clock] obtain d ck u where
    d: "clm_iefb_group_fsm_event ?now sample_clock 0 CLM_GROUP_EVENT_ARBITRATION_DONE c = Returns d"
      "state_of_group d 0 = CLM_GROUP_STATE_MASTER_LINK_SCAN"
      "scan_started sample_master_cfg 0 ?now ck u ((clm_groups c ! 0)\<lparr>gd_group_state := CLM_GROUP_STATE_MASTER_LINK_SCAN\<rparr>) (clm_groups d ! 0)"
    using c(1) by auto
  have all: "clm_iefb_group_fsm_event_all ?now sample_clock CLM_GROUP_EVENT_ARBITRATION_DONE c = Returns d"
    using d(1) c(1) by (simp add: clm_iefb_group_fsm_event_all_def)
  have ce: "c = (started_master\<lparr>clm_errorlimiter := cl_limiter_periodic ?now (clm_errorlimiter started_master)\<rparr>)
      \<lparr>clm_arbitration_timer := cl_timer_stop (clm_arbitration_timer
        (started_master\<lparr>clm_errorlimiter := cl_limiter_periodic ?now (clm_errorlimiter started_master)\<rparr>))\<rparr>" by (simp add: c_def)
  have di: "clm_inv d" "clm_config d = sample_master_cfg"
    using arbitration_over [of "started_master\<lparr>clm_errorlimiter := cl_limiter_periodic ?now (clm_errorlimiter started_master)\<rparr>" _ ?now sample_clock,
        OF _ refl] inv started_master_ok(3) all unfolding ce [symmetric] by auto
  have "scan_period sample_group \<noteq> 0" by (rule scan_period_positive(1)) (simp add: sample_group_def)
  then have e: "\<not> cl_timer_is_expired (gd_response_wait_timer (clm_groups d ! 0)) ?now"
    using d(3) started_not_expired by (simp add: scan_started_def Let_def)
  from monitor_waiting_group [OF di(1) _ d(2) e, of sample_clock] di(2) obtain m t where
    m: "monitor_group_timers ?now sample_clock 0 d = Returns m" "clm_groups m ! 0 = (clm_groups d ! 0)\<lparr>gd_constant_linkscan_timer := t\<rparr>" by auto
  have "clm_config m = sample_master_cfg" using monitor_group_ok [OF di(1), of 0 ?now sample_clock] m(1) di(2) by auto
  then have "clm_iefb_periodic ?now sample_clock None [] started_master = Returns m"
    using started_master_due all m(1) di(2) unfolding ce by (simp add: clm_iefb_periodic_def Let_def clm_iefb_monitor_all_group_timers_def)
  then have "scanning_master = m" by (simp add: scanning_master_def master_after_def)
  moreover have "devices_in {CLM_DEVICE_STATE_LISTEN} sample_group (clm_groups c ! 0)"
    using c cg by (auto simp: groups_inv_def group_inv_def scan_pending_def Let_def)
  moreover have "scanned sample_group ((clm_groups c ! 0)\<lparr>gd_group_state := CLM_GROUP_STATE_MASTER_LINK_SCAN\<rparr>) (clm_groups d ! 0) 0"
    using d(3) by (simp add: scan_started_def Let_def)
  ultimately show ?thesis using m(2) by (auto simp: scanned_def Let_def scan_state_def devices_in_def)
qed

text \<open>The device is enabled, its transmission bit forced or not, and its history cleared.\<close>

definition prepared_master :: "bool \<Rightarrow> clm" where
  "prepared_master b = master_after Master_Clear_Statistics (master_after (Master_Force_Transmission 0 0 b)
     (master_after (Master_Slave_Status 0 0 True) scanning_master))"

definition ready_master :: clm where "ready_master = prepared_master True"
definition waiting_master :: clm where "waiting_master = prepared_master False"

lemma master_after_reachable: "clm_reachable c \<Longrightarrow> operation_ok oper c \<Longrightarrow> clm_reachable (master_after oper c)"
  by (auto simp: master_after_def intro: clm_reachable.step split: outcome.split)

lemma force_transmission:
  fixes b :: bool
  assumes "clm_reachable c" "clm_config c = sample_master_cfg"
  defines "m \<equiv> master_after (Master_Force_Transmission 0 0 b) c"
  shows "clm_reachable m" "m = upd_dev 0 0 (\<lambda>d. d\<lparr>dd_force_transmission_bit := b\<rparr>) c" "clm_config m = sample_master_cfg"
    "0 < length (clm_groups c)" "0 < length (gd_slave_devices (clm_groups c ! 0))"
proof -
  have ex: "device_exists c 0 0" using assms(2) by (simp add: device_exists_def Let_def)
  show "clm_reachable m" unfolding m_def by (intro master_after_reachable assms(1)) simp
  show "m = upd_dev 0 0 (\<lambda>d. d\<lparr>dd_force_transmission_bit := b\<rparr>) c" "clm_config m = sample_master_cfg"
    using ex assms(2) by (simp_all add: m_def master_after_def clm_iefb_force_cyclic_transmission_bit_def upd_dev_def set_group_def)
  have "group_inv sample_master_cfg 0 (clm_groups c ! 0)" and len: "0 < length (clm_groups c)"
    using master_reachable_inv [OF assms(1)] assms(2) by (auto simp: clm_inv_def groups_inv_def master_ok_def)
  then show "0 < length (clm_groups c)" "0 < length (gd_slave_devices (clm_groups c ! 0))"
    using group_inv_ready by (fastforce simp: group_ready_def device_inv_def device_placed_def Let_def)+
qed

lemma prepared_master_ok:
  "clm_reachable (prepared_master b)" "clm_config (prepared_master b) = sample_master_cfg"
  "state_of_group (prepared_master b) 0 = CLM_GROUP_STATE_MASTER_LINK_SCAN"
  "gd_response_wait_timer (clm_groups (prepared_master b) ! 0) = gd_response_wait_timer (clm_groups scanning_master ! 0)"
  "dd_enabled (gd_slave_devices (clm_groups (prepared_master b) ! 0) ! 0)"
  "dd_force_transmission_bit (gd_slave_devices (clm_groups (prepared_master b) ! 0) ! 0) = b"
  "\<not> fv_has_been_received (dd_latest_frame (gd_slave_devices (clm_groups (prepared_master b) ! 0) ! 0))"
  "dd_device_state (gd_slave_devices (clm_groups (prepared_master b) ! 0) ! 0) =
    dd_device_state (gd_slave_devices (clm_groups scanning_master ! 0) ! 0)"
proof -
  let ?m = scanning_master
  define a where "a = master_after (Master_Slave_Status 0 0 True) ?m"
  define f where "f = master_after (Master_Force_Transmission 0 0 b) a"
  have ex: "device_exists ?m 0 0" using scanning_master_ok(2) by (simp add: device_exists_def Let_def)
  have a: "a = upd_dev 0 0 (\<lambda>d. d\<lparr>dd_enabled := True\<rparr>) ?m" "clm_config a = sample_master_cfg" "clm_reachable a"
    using ex scanning_master_ok(2) master_after_reachable [OF scanning_master_ok(1), of "Master_Slave_Status 0 0 True"]
    by (simp_all add: a_def master_after_def clm_iefb_set_slave_communication_status_def upd_dev_def set_group_def)
  note f = force_transmission(1-3) [where b = b, OF a(3,2), folded f_def]
  note len = force_transmission(4,5) [OF scanning_master_ok(1,2)]
  have m: "prepared_master b = upd_dev 0 0 (\<lambda>d. d\<lparr>dd_statistics := clm_iefb_statistics_clear, dd_latest_frame := clm_iefb_latest_received_clear\<rparr>) f"
    unfolding prepared_master_def a_def [symmetric] f_def [symmetric]
    using f(3) by (simp add: master_after_def clm_iefb_statistics_clear_all_def Let_def)
  show "clm_reachable (prepared_master b)" unfolding prepared_master_def a_def [symmetric] f_def [symmetric]
    by (intro master_after_reachable f(1)) simp
  show "clm_config (prepared_master b) = sample_master_cfg" using f(3) by (simp add: m upd_dev_def set_group_def)
  show "state_of_group (prepared_master b) 0 = CLM_GROUP_STATE_MASTER_LINK_SCAN"
    "gd_response_wait_timer (clm_groups (prepared_master b) ! 0) = gd_response_wait_timer (clm_groups ?m ! 0)"
    "dd_enabled (gd_slave_devices (clm_groups (prepared_master b) ! 0) ! 0)"
    "dd_force_transmission_bit (gd_slave_devices (clm_groups (prepared_master b) ! 0) ! 0) = b"
    "\<not> fv_has_been_received (dd_latest_frame (gd_slave_devices (clm_groups (prepared_master b) ! 0) ! 0))"
    "dd_device_state (gd_slave_devices (clm_groups (prepared_master b) ! 0) ! 0) = dd_device_state (gd_slave_devices (clm_groups ?m ! 0) ! 0)"
    using len scanning_master_ok(3) by (simp_all add: m f(2) a(1) upd_dev_def upd_device_def clm_iefb_latest_received_clear_def)
qed

lemmas ready_master_ok = prepared_master_ok [of True, folded ready_master_def, unfolded eq_True]

text \<open>The sample slave is about to be connected.\<close>

lemma waiting_master_ok:
  "clm_reachable waiting_master" "clm_config waiting_master = sample_master_cfg"
  "state_of_group waiting_master 0 = CLM_GROUP_STATE_MASTER_LINK_SCAN"
  "cl_timer_is_expired (gd_response_wait_timer (clm_groups waiting_master ! 0)) (due (gd_response_wait_timer (clm_groups waiting_master ! 0)))"
  "to_be_connected waiting_master 0 0"
  using prepared_master_ok [of False] scanning_master_device scanning_master_ok(4)
  by (auto simp: waiting_master_def to_be_connected_def stays_connected_def Let_def)

lemma started_slave_ok:
  "cls_state started_slave = CLS_SLAVE_STATE_MASTER_NONE" "cfg_num_occupied_stations (cls_config started_slave) = device_occ sample_group 0"
  by code_simp+

lemma sample_timeout: "unat (cl_calculate_total_timeout_us (gs_timeout_value sample_group) (gs_parallel_off_timeout_count sample_group)) < 2 ^ 32"
  "unat (now + 1000 - now :: u32) < 1000 * unat (gs_timeout_value sample_group)"
  by (simp_all add: total_timeout_exact sample_group_def)

text \<open>A connected device of the sample configuration is being scanned.\<close>

lemma connected_scanning:
  assumes "clm_reachable clm" "clm_config clm = sample_master_cfg" "connected_device clm 0 0"
  shows "state_of_group clm 0 = CLM_GROUP_STATE_MASTER_LINK_SCAN"
proof -
  have "group_inv sample_master_cfg 0 (clm_groups clm ! 0)"
    using master_reachable_inv [OF assms(1)] assms(2) by (simp add: clm_inv_def groups_inv_def)
  then show ?thesis using assms(3)
    by (auto simp: group_inv_def Let_def devices_in_def connected_device_def device_mode_def sample_group_def)
qed

lemma scanning_due:
  assumes "clm_reachable clm" "clm_config clm = sample_master_cfg" "state_of_group clm 0 = CLM_GROUP_STATE_MASTER_LINK_SCAN"
  shows "cl_timer_is_expired (gd_response_wait_timer (clm_groups clm ! 0)) (due (gd_response_wait_timer (clm_groups clm ! 0)))"
proof -
  have "timer_runs (scan_period sample_group) (gd_response_wait_timer (clm_groups clm ! 0))"
    using master_reachable_inv [OF assms(1)] assms(2,3) by (auto simp: clm_inv_def groups_inv_def group_inv_def scan_pending_def Let_def)
  then show ?thesis unfolding due_def scan_period_def by (rule running_timer_expires)
qed

text \<open>A master and a slave that serves its device, with the transmission bit forced.\<close>

lemma serving_pair:
  "\<exists>clm s. clm_reachable clm \<and> clm_config clm = sample_master_cfg \<and> state_of_group clm 0 = CLM_GROUP_STATE_MASTER_LINK_SCAN \<and>
     dd_enabled (gd_slave_devices (clm_groups clm ! 0) ! 0) \<and> dd_force_transmission_bit (gd_slave_devices (clm_groups clm ! 0) ! 0) \<and>
     cls_reachable s \<and> serves s clm 0 0"
proof -
  let ?now = "due (gd_response_wait_timer (clm_groups waiting_master ! 0))"
  note w = waiting_master_ok
  have gs: "sample_group = device_setting_at waiting_master 0" using w(2) by (simp add: device_setting_at_def)
  have h: "0 < number_of_groups waiting_master" "0 < gs_num_slave_devices sample_group" using w(2) by simp_all
  from first_exchange [OF master_reachable_inv [OF w(1)] h(1) w(3,4) gs h(2) w(5) refl sample_timeout(1) reachable_inv [OF started_slave_reachable]
      started_slave_ok sample_timeout(2), of sample_clock 2000 61450 sample_clock 61450]
  obtain clm1 bs s1 resp clm2 where x: "clm_iefb_periodic ?now sample_clock None [] waiting_master = Returns clm1"
    "cls_iefb_periodic 2000 (Some (bs, mc_master_id (clm_config waiting_master), 61450, sd_slave_id (gs_slave_devices sample_group ! 0))) started_slave = Returns s1"
    "safe_datagram resp"
    "clm_iefb_periodic (?now + 1000) sample_clock None [(resp, sd_slave_id (gs_slave_devices sample_group ! 0), 61450)] clm1 = Returns clm2"
    "clm_config clm2 = clm_config waiting_master" "connected_device clm2 0 0" "serves s1 clm2 0 0" by blast
  have "clm_reachable clm1" using clm_reachable.step [OF w(1), of "Master_Periodic ?now sample_clock None []" clm1] x(1) by simp
  then have r2: "clm_reachable clm2"
    using clm_reachable.step [of clm1 "Master_Periodic (?now + 1000) sample_clock None [(resp, sd_slave_id (gs_slave_devices sample_group ! 0), 61450)]" clm2] x(3,4)
    by simp
  have s1: "cls_reachable s1" using cls_reachable.step [OF started_slave_reachable, of "Periodic 2000 (Some (bs, mc_master_id (clm_config waiting_master), 61450, sd_slave_id (gs_slave_devices sample_group ! 0)))" s1] x(2) by simp
  have c2: "clm_config clm2 = sample_master_cfg" using x(5) w(2) by simp
  note st = connected_scanning [OF r2 c2 x(6)]
  note f = force_transmission(1-3) [where b = True, OF r2 c2] force_transmission(4,5) [OF r2 c2]
  let ?m = "master_after (Master_Force_Transmission 0 0 True) clm2"
  have "state_of_group ?m 0 = CLM_GROUP_STATE_MASTER_LINK_SCAN" "dd_enabled (gd_slave_devices (clm_groups ?m ! 0) ! 0)"
    "dd_force_transmission_bit (gd_slave_devices (clm_groups ?m ! 0) ! 0)"
    using st x(6) f(4,5) unfolding f(2) by (auto simp: upd_dev_def upd_device_def connected_device_def device_mode_def Let_def)
  moreover have "request_parameter_no (clm_groups ?m ! 0) = request_parameter_no (clm_groups clm2 ! 0)"
    using f(4) unfolding f(2) by (simp add: upd_dev_def upd_device_def request_parameter_no_def)
  then have "serves s1 ?m 0 0" using x(7) f(3) c2 by (simp add: serves_def Let_def device_setting_at_def)
  ultimately show ?thesis using f(1,3) s1 by blast
qed

text \<open>The sample request with any sequence number and transmission bits.\<close>

lemma sample_request_parsed:
  fixes sqn trs :: u16
  defines "r \<equiv> parsed (sample_request sqn trs) master_ip"
  shows "request_ok r" "rq_slave_ip_addr r = slave_ip"
    "unat (qdh_group_no (qf_cyclic_data_header (rq_full_headers r))) = 1"
    "qdh_frame_sequence_no (qf_cyclic_data_header (rq_full_headers r)) = sqn"
proof -
  let ?h = "updated_request_headers (initial_request_headers (67 + 76 * 1) 2 500 3 master_ip 1 1 1) sqn 1000 1 trs"
  have wf: "length (cqh_reserved2 (qf_cyclic_header ?h)) = 14"
    by (simp add: updated_request_headers_def initial_request_headers_def)
  have bs: "sample_request sqn trs = enc_req_full_headers ?h @ le32_bytes slave_ip @ map of_nat [0..<72]"
    by (simp add: sample_request_def request_bytes_def)
  have "dec_req_full_headers (sample_request sqn trs) 0 = ?h" unfolding bs using wf by (intro qf.dec_enc_start)
  moreover have "length (sample_request sqn trs) = 67 + 76 * 1"
    unfolding bs using qf.length_enc [of ?h] wf by (simp add: sizeof_defs)
  moreover have "cl_iefb_validate_req_full_cyclic_headers ?h (67 + 76 * 1) master_ip"
    by (rule initial_request_valid) (simp_all add: master_ip_def)
  moreover have "unat (qdh_slave_total_occupied_station_count (qf_cyclic_data_header ?h)) = 1"
    by (simp add: updated_request_headers_def initial_request_headers_def)
  ultimately have p: "cl_iefb_parse_cyclic_request (sample_request sqn trs) master_ip 61450 slave_ip = Returns (Some
      \<lparr>rq_remote_ip = master_ip, rq_remote_port = 61450, rq_slave_ip_addr = slave_ip, rq_buffer = sample_request sqn trs,
       rq_full_headers = ?h, rq_first_slave_id = 67, rq_first_rww = Some (67 + 4 * 1), rq_first_ry = Some (67 + 68 * 1)\<rparr>)"
    by (intro parse_valid_request) simp_all
  then have r: "cl_iefb_parse_cyclic_request (sample_request sqn trs) master_ip 61450 slave_ip = Returns (Some r)" by (simp add: r_def parsed_def)
  show "request_ok r" using r unfolding request_ok_def by (intro exI conjI) (auto simp: slave_ip_def)
  show "rq_slave_ip_addr r = slave_ip" "unat (qdh_group_no (qf_cyclic_data_header (rq_full_headers r))) = 1"
    "qdh_frame_sequence_no (qf_cyclic_data_header (rq_full_headers r)) = sqn"
    using p r by (simp_all add: updated_request_headers_def initial_request_headers_def)
qed

end
