(* ===== verification/CL_File.thy ===== *)
theory CL_File
  imports CL_Prelude
begin

text \<open>
  Persistent files (\<open>src/common/cl_file.c\<close>): a file holds a header with a magic number and a version,
  followed by the memory of one object.

  The functions \<open>clal_load_file\<close>, \<open>clal_save_file\<close> and \<open>clal_clear_file\<close> belong to the platform and are
  not part of the sources. They are an argument, a record of functions on some state of the file system;
  \<open>files_ok\<close> is what \<open>clal.h\<close> documents of them. The record also holds the build options
  \<open>CL_MAX_FILE_FULLPATH_SIZE\<close> and \<open>CL_USE_BACKSLASH_PATH_SEPARATOR\<close>. A result \<open>None\<close>, or \<open>False\<close>, stands for -1.
\<close>

section \<open>Definitions\<close>

record 'f cl_files =
  fl_path_size :: nat
  fl_backslash :: bool
  fl_load :: "'f \<Rightarrow> string \<Rightarrow> nat \<Rightarrow> bytes option"
  fl_save :: "'f \<Rightarrow> string \<Rightarrow> bytes \<Rightarrow> bool \<times> 'f"
  fl_clear :: "'f \<Rightarrow> string \<Rightarrow> 'f"

definition files_ok :: "'f cl_files \<Rightarrow> bool" where
  "files_ok fs \<longleftrightarrow>
     (\<forall>f p n bs. fl_load fs f p n = Some bs \<longrightarrow> length bs = n) \<and>
     (\<forall>f p bs f'. fl_save fs f p bs = (True, f') \<longrightarrow>
        fl_load fs f' p (length bs) = Some bs \<and> (\<forall>q n. q \<noteq> p \<longrightarrow> fl_load fs f' q n = fl_load fs f q n))"

definition CL_FILE_MAGIC :: u32 where "CL_FILE_MAGIC = 0x434C4E4B"
definition CL_FILE_VERSION :: u32 where "CL_FILE_VERSION = 1"

text \<open>\<open>cl_file_header_t\<close>: both fields are stored big endian.\<close>

record cl_file_header =
  fh_magic :: u32
  fh_version :: u32

definition be32_bytes :: "u32 \<Rightarrow> bytes" where
  "be32_bytes w = [ucast (drop_bit 24 w), ucast (drop_bit 16 w), ucast (drop_bit 8 w), ucast w]"

definition be32_at :: "bytes \<Rightarrow> nat \<Rightarrow> u32" where
  "be32_at bs i = make32 (bs ! i) (bs ! (i + 1)) (bs ! (i + 2)) (bs ! (i + 3))"

definition enc_file_header :: "cl_file_header \<Rightarrow> bytes" where
  "enc_file_header h = be32_bytes (fh_magic h) @ be32_bytes (fh_version h)"

definition dec_file_header :: "bytes \<Rightarrow> cl_file_header" where
  "dec_file_header bs = \<lparr>fh_magic = be32_at bs 0, fh_version = be32_at bs 4\<rparr>"

text \<open>
  The result is \<open>None\<close> when the function returns -1. The output buffer is given by its size; a null
  pointer as directory or file name is \<open>None\<close>.
\<close>

definition cl_file_join_directory_filename :: "string option \<Rightarrow> string option \<Rightarrow> nat \<Rightarrow> bool \<Rightarrow> string option outcome" where
  "cl_file_join_directory_filename directory filename buf_size use_windows_path =
     (let separator = (if use_windows_path then CHR 0x5C else CHR 0x2F)
      in case filename of
          None \<Rightarrow> Returns None
        | Some name \<Rightarrow>
          if length name < 1 then Returns None
          else let use_directory = (directory \<noteq> None \<and> length (the directory) > 0);
                   add_slash = (use_directory \<and> the directory ! (length (the directory) - 1) \<noteq> separator);
                   required_buffer_size = (if use_directory then length (the directory) else 0) +
                     (if add_slash then 1 else 0) + length name + 1
            in if required_buffer_size > buf_size then Returns None
            else let written = (if use_directory then the directory else []) @ (if add_slash then [separator] else []) @ name
              in cc_assert (length written = required_buffer_size - 1) (Returns (Some written)))"

definition cl_file_load :: "'f cl_files \<Rightarrow> 'f \<Rightarrow> string option \<Rightarrow> string \<Rightarrow> nat \<Rightarrow> bytes option outcome" where
  "cl_file_load fs f directory filename n =
     obind (cl_file_join_directory_filename directory (Some filename) (fl_path_size fs) (fl_backslash fs)) (\<lambda>path. case path of
         None \<Rightarrow> Returns None
       | Some path \<Rightarrow> (case fl_load fs f path (8 + n) of
           None \<Rightarrow> Returns None
         | Some bs \<Rightarrow>
           let file_header = dec_file_header (take 8 bs)
           in if fh_magic file_header \<noteq> CL_FILE_MAGIC then Returns None
           else if fh_version file_header \<noteq> CL_FILE_VERSION then Returns None
           else Returns (Some (drop 8 bs))))"

definition cl_file_save :: "'f cl_files \<Rightarrow> 'f \<Rightarrow> string option \<Rightarrow> string \<Rightarrow> bytes \<Rightarrow> (bool \<times> 'f) outcome" where
  "cl_file_save fs f directory filename p_object =
     obind (cl_file_join_directory_filename directory (Some filename) (fl_path_size fs) (fl_backslash fs)) (\<lambda>path. case path of
         None \<Rightarrow> Returns (False, f)
       | Some path \<Rightarrow>
         let file_header = \<lparr>fh_magic = CL_FILE_MAGIC, fh_version = CL_FILE_VERSION\<rparr>
         in Returns (fl_save fs f path (enc_file_header file_header @ p_object)))"

text \<open>The result: 0 for no changes, 1 for an updated file, 2 for a new file, -1 for an error.\<close>

definition cl_file_save_if_modified ::
  "'f cl_files \<Rightarrow> 'f \<Rightarrow> string option \<Rightarrow> string \<Rightarrow> bytes \<Rightarrow> (int \<times> 'f) outcome" where
  "cl_file_save_if_modified fs f directory filename p_object =
     obind (cl_file_load fs f directory filename (length p_object)) (\<lambda>p_tempobject.
       let (ret, save) = (case p_tempobject of
             Some temp \<Rightarrow> if temp \<noteq> p_object then (1, True) else (0, False)
           | None \<Rightarrow> (2, True))
       in if save
          then obind (cl_file_save fs f directory filename p_object) (\<lambda>(ok, f).
            Returns (if \<not> ok then - 1 else ret, f))
          else Returns (ret, f))"

definition cl_file_clear :: "'f cl_files \<Rightarrow> 'f \<Rightarrow> string option \<Rightarrow> string \<Rightarrow> 'f outcome" where
  "cl_file_clear fs f directory filename =
     obind (cl_file_join_directory_filename directory (Some filename) (fl_path_size fs) (fl_backslash fs)) (\<lambda>path. case path of
         None \<Rightarrow> Returns f
       | Some path \<Rightarrow> Returns (fl_clear fs f path))"

section \<open>Paths\<close>

text \<open>The assertion on the number of characters never fails.\<close>

definition joined_path :: "string option \<Rightarrow> string \<Rightarrow> bool \<Rightarrow> string" where
  "joined_path directory name win =
     (let sep = (if win then CHR 0x5C else CHR 0x2F) in
      case directory of None \<Rightarrow> name
      | Some d \<Rightarrow> if d = [] then name else if List.last d = sep then d @ name else d @ [sep] @ name)"

lemma join_eq:
  "cl_file_join_directory_filename directory (Some name) n win = Returns
     (if name = [] \<or> length (joined_path directory name win) \<ge> n then None else Some (joined_path directory name win))"
  by (auto simp: cl_file_join_directory_filename_def joined_path_def Let_def last_conv_nth split: option.split)

lemma join_none: "cl_file_join_directory_filename directory None n win = Returns None"
  by (simp add: cl_file_join_directory_filename_def)

section \<open>What was saved is loaded\<close>

lemma file_header_bytes [simp]: "length (enc_file_header h) = 8"
  by (simp add: enc_file_header_def be32_bytes_def)

lemma file_header_read: "dec_file_header (enc_file_header h) = h"
  by (simp add: dec_file_header_def enc_file_header_def be32_at_def be32_bytes_def make32_split)

lemma saved_is_loaded:
  assumes "files_ok fs" and "cl_file_save fs f directory filename p = Returns (True, f')"
  shows "cl_file_load fs f' directory filename (length p) = Returns (Some p)"
proof -
  let ?path = "joined_path directory filename (fl_backslash fs)"
  have s: "fl_save fs f ?path (enc_file_header \<lparr>fh_magic = CL_FILE_MAGIC, fh_version = CL_FILE_VERSION\<rparr> @ p) = (True, f')"
    and short: "\<not> (filename = [] \<or> fl_path_size fs \<le> length ?path)"
    using assms(2) by (auto simp: cl_file_save_def join_eq Let_def split: if_splits)
  then have "fl_load fs f' ?path (8 + length p) =
      Some (enc_file_header \<lparr>fh_magic = CL_FILE_MAGIC, fh_version = CL_FILE_VERSION\<rparr> @ p)"
    using assms(1) s unfolding files_ok_def by fastforce
  then show ?thesis using short by (simp add: cl_file_load_def join_eq file_header_read)
qed

lemma load_returns: "\<exists>r. cl_file_load fs f directory filename n = Returns r"
  by (auto simp: cl_file_load_def join_eq Let_def split: option.split)

lemma save_returns: "\<exists>r. cl_file_save fs f directory filename p = Returns r"
  by (auto simp: cl_file_save_def join_eq Let_def)

text \<open>Unless an error is reported, the file holds the object afterwards.\<close>

lemma save_if_modified_loaded:
  assumes "files_ok fs" and "cl_file_save_if_modified fs f directory filename p = Returns (ret, f')" and "ret \<noteq> - 1"
  shows "cl_file_load fs f' directory filename (length p) = Returns (Some p)"
proof -
  obtain old where old: "cl_file_load fs f directory filename (length p) = Returns old" using load_returns [of fs f directory filename "length p"] by blast
  show ?thesis
  proof (cases "old = Some p")
    case True
    then show ?thesis using assms(2) old by (simp add: cl_file_save_if_modified_def)
  next
    case False
    obtain ok g where s: "cl_file_save fs f directory filename p = Returns (ok, g)" using save_returns by (metis surj_pair)
    then have "f' = g" "ok" using assms(2,3) old False
      by (auto simp: cl_file_save_if_modified_def split: option.splits if_splits)
    then show ?thesis using saved_is_loaded [OF assms(1)] s by simp
  qed
qed

lemma save_if_modified_returns: "\<exists>ret f'. cl_file_save_if_modified fs f directory filename p = Returns (ret, f')"
proof -
  obtain old where old: "cl_file_load fs f directory filename (length p) = Returns old" using load_returns [of fs f directory filename "length p"] by blast
  obtain ok g where s: "cl_file_save fs f directory filename p = Returns (ok, g)" using save_returns by (metis surj_pair)
  show ?thesis by (auto simp: cl_file_save_if_modified_def old s split: option.split)
qed

end
