(* ===== verification/CLM_Start.thy ===== *)
theory CLM_Start
  imports CLM_Behaviour CL_File
begin

text \<open>
  Start-up and shutdown of the master stack (\<open>src/master/clm_master.c\<close>), with the parameter number that is
  kept in a file.

  \<open>clal_init\<close> and \<open>clal_exit\<close> belong to the platform; their results are arguments, as are the build options
  and whether the CCIEFB sockets can be opened. An initialisation that returns -1 leaves a handle that is not
  used any more; its result is \<open>None\<close>. The netmask and the name of the interface, which are used for the
  broadcast address and for logging only, are not kept.

  Saving the parameter number appears in the trace; \<open>files_after\<close> runs \<open>cl_file_save_if_modified\<close> for every
  such entry and gives the files afterwards.
\<close>

section \<open>Definitions\<close>

definition CLM_FILENAME_PARAM_NO :: string where "CLM_FILENAME_PARAM_NO = ''clm_data_param_no.bin''"
definition CLM_DEFAULT_PARAMETER_NO :: u16 where "CLM_DEFAULT_PARAMETER_NO = 0"

definition clm_master_eth_init :: "cl_os \<Rightarrow> clm \<Rightarrow> clm option" where
  "clm_master_eth_init os clm = (case cl_eth_get_network_settings os (mc_master_id (clm_config clm)) of
      None \<Rightarrow> None
    | Some nw \<Rightarrow>
      let clm = clm\<lparr>clm_ifindex := nw_ifindex nw, clm_mac_address := nw_mac_address nw\<rparr>;
          clm = clm\<lparr>clm_iefb_broadcast_ip := cl_util_calc_broadcast_address (nw_netmask nw) (mc_master_id (clm_config clm))\<rparr>
      in Some (clm\<lparr>clm_slmp_broadcast_ip := (if mc_use_slmp_directed_broadcast (clm_config clm)
           then clm_iefb_broadcast_ip clm else CL_IPADDR_LOCAL_BROADCAST)\<rparr>))"

definition clm_master_eth_exit :: "clm \<Rightarrow> clm" where
  "clm_master_eth_exit clm = clm\<lparr>clm_iefb_broadcast_ip := CL_IPADDR_INVALID,
     clm_mac_address := replicate 6 0, clm_ifindex := 0\<rparr>"

text \<open>The handle after \<open>clal_clear_memory\<close>, with the configuration copied in.\<close>

definition cleared_master :: "nat \<Rightarrow> nat \<Rightarrow> nat \<Rightarrow> clm_cfg \<Rightarrow> clm" where
  "cleared_master max_groups max_stations max_nodes cfg =
     \<lparr>clm_slmp_broadcast_ip = 0, clm_iefb_broadcast_ip = 0, clm_mac_address = replicate 6 0,
      clm_latest_conflicting_master_ip = 0, clm_config = cfg,
      clm_device_fsm_matrix = (\<lambda>_ _. (CLM_DEVICE_STATE_MASTER_DOWN, None)), clm_device_fsm_on_entry_exit = (\<lambda>_. (None, None)),
      clm_group_fsm_matrix = (\<lambda>_ _. (CLM_GROUP_STATE_MASTER_DOWN, None)), clm_group_fsm_on_entry_exit = (\<lambda>_. (None, None)),
      clm_slmp_request_serial = 0, clm_state = CLM_MASTER_STATE_DOWN, clm_parameter_no = 0,
      clm_master_local_unit_info = 0, clm_arbitration_timer = zero_timer,
      clm_node_search_serial = 0, clm_node_search_timer = zero_timer,
      clm_set_ip_request_serial = 0, clm_set_ip_request_timer = zero_timer,
      clm_node_search_data = \<lparr>db_count = 0, db_stored = 0, db_entries = replicate max_nodes
        \<lparr>ne_slave_id = 0, ne_slave_netmask = 0, ne_slave_mac_addr = replicate 6 0, ne_vendor_code = 0,
         ne_model_code = 0, ne_equipment_ver = 0\<rparr>\<rparr>,
      clm_ifindex = 0, clm_slmp_send_socket = 0, clm_slmp_receive_socket = 0,
      clm_groups = replicate max_groups (zero_group max_stations),
      clm_errorlimiter = \<lparr>lm_timer = zero_timer, lm_period = 0, lm_previous_message = 0, lm_number_of_calls = 0, lm_number_of_outputs = 0\<rparr>,
      clm_out = []\<rparr>"

text \<open>The build options, the platform and the files: what the initialisation depends on.\<close>

record 'f clm_platform =
  pf_max_groups :: nat
  pf_max_stations :: nat
  pf_max_nodes :: nat
  pf_os :: cl_os
  pf_clal_ok :: bool
  pf_socket_ok :: bool
  pf_arbitration_socket_ok :: bool
  pf_clock :: "nat \<Rightarrow> u64"
  pf_files :: "'f cl_files"
  pf_directory :: string

definition clm_master_init :: "'f clm_platform \<Rightarrow> 'f \<Rightarrow> clm_cfg option \<Rightarrow> u32 \<Rightarrow> clm option outcome" where
  "clm_master_init pf f cfg now =
     (if \<not> pf_clal_ok pf then Returns None
      else if \<not> clm_validate_config (pf_max_groups pf) (pf_max_stations pf) cfg then Returns None
      else let clm = cleared_master (pf_max_groups pf) (pf_max_stations pf) (pf_max_nodes pf) (the cfg)
        in obind (cl_file_load (pf_files pf) f (Some (pf_directory pf)) CLM_FILENAME_PARAM_NO 2) (\<lambda>loaded.
          let clm = clm\<lparr>clm_parameter_no := (case loaded of Some bs \<Rightarrow> le16_at bs 0 | None \<Rightarrow> CLM_DEFAULT_PARAMETER_NO)\<rparr>
          in case clm_master_eth_init (pf_os pf) clm of
              None \<Rightarrow> Returns None
            | Some clm \<Rightarrow>
              if \<not> clm_validate_config_duplicates (the cfg) then Returns None
              else obind (clm_iefb_init (pf_max_groups pf) (pf_max_stations pf) now (pf_clock pf) (pf_socket_ok pf)
                  (pf_arbitration_socket_ok pf) clm) (\<lambda>(ok, clm).
                if \<not> ok then Returns None
                else let (ok, clm) = clm_slmp_init (pf_os pf) clm
                  in Returns (if \<not> ok then None else Some clm))))"

definition clm_master_exit :: "bool \<Rightarrow> clm \<Rightarrow> bool \<times> clm" where
  "clm_master_exit clal_ok clm = (clal_ok, clm_master_eth_exit (clm_slmp_exit clm))"

text \<open>The files after the effects of a trace.\<close>

fun files_after :: "'f cl_files \<Rightarrow> string \<Rightarrow> clm_output list \<Rightarrow> 'f \<Rightarrow> 'f outcome" where
  "files_after fs dir [] f = Returns f"
| "files_after fs dir (x # xs) f = (case x of
      Save_Parameter_No n \<Rightarrow>
        obind (cl_file_save_if_modified fs f (Some dir) CLM_FILENAME_PARAM_NO (le16_bytes n)) (\<lambda>(_, f). files_after fs dir xs f)
    | _ \<Rightarrow> files_after fs dir xs f)"

section \<open>The parameter number is saved once\<close>

definition saved_numbers :: "clm_output list \<Rightarrow> u16 list" where
  "saved_numbers outs = concat (map (\<lambda>x. case x of Save_Parameter_No n \<Rightarrow> [n] | _ \<Rightarrow> []) outs)"

lemma saved_numbers_simps [simp]:
  "saved_numbers [] = []" "saved_numbers (xs @ ys) = saved_numbers xs @ saved_numbers ys"
  "saved_numbers (Save_Parameter_No n # xs) = n # saved_numbers xs"
  "saved_numbers (Device_Connect_Callback gi di ip # xs) = saved_numbers xs"
  "saved_numbers (Device_Disconnect_Callback gi di ip # xs) = saved_numbers xs"
  "saved_numbers (Request_Sent ip bs # xs) = saved_numbers xs"
  "saved_numbers (Master_State_Callback st # xs) = saved_numbers xs"
  "saved_numbers (Linkscan_Callback gi b # xs) = saved_numbers xs"
  "saved_numbers (Master_Error_Callback e ip c # xs) = saved_numbers xs"
  by (simp_all add: saved_numbers_def)

lemma device_event_saves:
  "clm_iefb_device_fsm_event clm di ev s = Returns s' \<Longrightarrow> saved_numbers (snd s') = saved_numbers (snd s)"
proof -
  have act: "run_device_action a clm di st s = Returns (e', s') \<Longrightarrow> saved_numbers (snd s') = saved_numbers (snd s)" for a st s e' s'
    by (cases a) (auto simp: outcome_simps clm_iefb_device_init_def clm_iefb_set_data_ip_def clm_iefb_evaluate_timeoutcounter_def
        clm_iefb_reset_timeout_count_def clm_iefb_trigger_connect_callback_def clm_iefb_trigger_disconnect_callback_def Let_def
        split: if_splits)
  have rnd: "device_round clm di e s = Returns (e', s') \<Longrightarrow> saved_numbers (snd s') = saved_numbers (snd s)" for e s e' s'
    by (auto simp: device_round_def Let_def outcome_simps split: option.splits if_splits prod.splits dest!: act)
  assume "clm_iefb_device_fsm_event clm di ev s = Returns s'"
  then show ?thesis
    using event_loop_keeps [of "device_round clm di" "\<lambda>t. saved_numbers (snd t) = saved_numbers (snd s)"] rnd
    by (auto simp: clm_iefb_device_fsm_event_def split: if_splits)
qed

definition number_kept :: "clm \<Rightarrow> clm \<Rightarrow> bool" where
  "number_kept clm clm' \<longleftrightarrow> clm_parameter_no clm' = clm_parameter_no clm \<and> saved_numbers (clm_out clm') = saved_numbers (clm_out clm)"

lemma number_kept_trans: "number_kept a b \<Longrightarrow> number_kept b c \<Longrightarrow> number_kept a c"
  by (simp add: number_kept_def)

lemma number_kept_fields:
  "clm_parameter_no clm' = clm_parameter_no clm \<Longrightarrow> clm_out clm' = clm_out clm \<Longrightarrow> number_kept clm clm'"
  by (simp add: number_kept_def)

lemma number_kept_simps [simp]:
  "number_kept clm clm" "number_kept clm (set_group gi g clm)"
  "number_kept clm (clm_iefb_set_master_state st clm)" "number_kept clm (clm_iefb_trigger_linkscan_callback gi b clm)"
  "number_kept clm (clm_iefb_trigger_error_callback now e ip a clm)" "number_kept clm (advance_sequence_no gi clm)"
  by (simp_all add: number_kept_def set_group_def clm_iefb_set_master_state_def clm_iefb_trigger_linkscan_callback_def
      clm_iefb_trigger_error_callback_def memit_if_def Let_def advance_sequence_no_def split: prod.splits)

lemma on_group_keeps:
  assumes "\<And>s s'. f s = Returns s' \<Longrightarrow> saved_numbers (snd s') = saved_numbers (snd s)" "on_group gi f clm = Returns clm'"
  shows "number_kept clm clm'"
proof -
  obtain g out where f: "f (clm_groups clm ! gi, clm_out clm) = Returns (g, out)" "clm' = (set_group gi g clm)\<lparr>clm_out := out\<rparr>"
    using assms(2) by (auto simp: on_group_def obind_Returns_iff)
  with assms(1) [OF f(1)] show ?thesis by (simp add: number_kept_def set_group_def)
qed

lemma all_devices_keep:
  "clm_iefb_device_fsm_event_all_in_group clm ev s = Returns s' \<Longrightarrow> saved_numbers (snd s') = saved_numbers (snd s)"
  unfolding clm_iefb_device_fsm_event_all_in_group_def
  by (rule for_each_keeps [where P = "\<lambda>t. saved_numbers (snd t) = saved_numbers (snd s)"]) (auto dest!: device_event_saves)

lemma scan_devices_keep:
  "scan_devices clm s = Returns s' \<Longrightarrow> saved_numbers (snd s') = saved_numbers (snd s)"
  unfolding scan_devices_def
  by (rule for_each_keeps [where P = "\<lambda>t. saved_numbers (snd t) = saved_numbers (snd s)"]) (auto dest!: device_event_saves)

lemma send_request_keeps:
  "saved_numbers (snd (clm_iefb_send_cyclic_request_frame ip ts u s)) = saved_numbers (snd s)"
  by (cases s) (simp add: clm_iefb_send_cyclic_request_frame_def Let_def split: prod.splits)

lemma send_request_saves:
  "clm_iefb_send_cyclic_request_frame ip ts u (g, out) = (g', out') \<Longrightarrow> saved_numbers out' = saved_numbers out"
  using send_request_keeps [of ip ts u "(g, out)"] by simp

lemma group_init_keeps: "clm_iefb_group_init gi clm = Returns clm' \<Longrightarrow> number_kept clm clm'"
  unfolding clm_iefb_group_init_def Let_def
  by (drule on_group_keeps [rotated], erule all_devices_keep) (erule number_kept_trans [OF number_kept_simps(2)])

lemma linkscan_start_keeps:
  assumes "clm_iefb_on_linkscan_start now clock gi clm = Returns clm'"
  shows "number_kept clm clm'"
proof -
  obtain c g where c: "on_group gi (\<lambda>s. obind (scan_devices clm s) (\<lambda>(g, out).
        Returns (clm_iefb_send_cyclic_request_frame (clm_iefb_broadcast_ip clm) (clock (length (clm_out clm)))
          (clm_master_local_unit_info clm) (g\<lparr>gd_timestamp_link_scan_start := now\<rparr>, out)))) clm = Returns c"
      "clm' = set_group gi g c"
    using assms by (auto simp: clm_iefb_on_linkscan_start_def Let_def obind_Returns_iff)
  have "number_kept clm c"
    by (rule on_group_keeps [OF _ c(1)]) (auto simp: obind_Returns_iff dest!: scan_devices_keep dest: send_request_saves)
  then show ?thesis using number_kept_trans [OF _ number_kept_simps(2)] c(2) by blast
qed

lemma group_devices_keep:
  "on_group gi (clm_iefb_device_fsm_event_all_in_group c0 ev) clm = Returns clm' \<Longrightarrow> number_kept clm clm'"
  by (rule on_group_keeps [rotated], assumption, rule all_devices_keep)

lemma group_action_keeps: "run_group_action a now clock gi clm = Returns (e, clm') \<Longrightarrow> number_kept clm clm'"
proof (cases a)
  case On_Linkscan_Timeout
  assume "run_group_action a now clock gi clm = Returns (e, clm')"
  then obtain c where "on_group gi (clm_iefb_device_fsm_event_all_in_group clm CLM_DEVICE_EVENT_GROUP_TIMEOUT) clm = Returns c"
      "clm' = advance_sequence_no gi (clm_iefb_trigger_linkscan_callback gi False c)"
    by (auto simp: On_Linkscan_Timeout clm_iefb_on_linkscan_timeout_def obind_Returns_iff)
  then show ?thesis using group_devices_keep number_kept_trans number_kept_simps(4,6) by metis
next
  case On_Linkscan_Complete
  assume "run_group_action a now clock gi clm = Returns (e, clm')"
  then obtain c g where "on_group gi (clm_iefb_device_fsm_event_all_in_group (set_group gi g clm) CLM_DEVICE_EVENT_GROUP_ALL_RESPONDED) (set_group gi g clm) = Returns c"
      "clm' = advance_sequence_no gi (clm_iefb_trigger_linkscan_callback gi True c)"
    by (auto simp: On_Linkscan_Complete clm_iefb_on_linkscan_complete_def obind_Returns_iff Let_def)
  then show ?thesis using group_devices_keep number_kept_trans number_kept_simps(2,4,6) by metis
next
  case Group_On_Entry_Listen
  assume "run_group_action a now clock gi clm = Returns (e, clm')"
  then obtain c c' where c: "on_group gi (clm_iefb_device_fsm_event_all_in_group c CLM_DEVICE_EVENT_GROUP_STANDBY) c = Returns c'"
      "c = clm\<lparr>clm_arbitration_timer := cl_timer_stop (clm_arbitration_timer clm)\<rparr>"
      "clm' = clm_iefb_set_master_state CLM_MASTER_STATE_STANDBY c'"
    by (auto simp: Group_On_Entry_Listen clm_iefb_group_on_entry_listen_def obind_Returns_iff Let_def no_group_event_def)
  have "number_kept clm c" by (rule number_kept_fields) (simp_all add: c(2))
  then show ?thesis using c group_devices_keep number_kept_trans number_kept_simps(3) by metis
next
  case Group_New_Config
  assume "run_group_action a now clock gi clm = Returns (e, clm')"
  then show ?thesis
    by (auto simp: Group_New_Config clm_iefb_group_new_config_def obind_Returns_iff Let_def no_group_event_def number_kept_def set_group_def)
qed (auto simp: no_group_event_def obind_Returns_iff clm_iefb_on_arbitration_failed_def clm_iefb_on_arbitration_done_def
    clm_iefb_group_on_entry_arbitration_def clm_iefb_group_on_entry_scan_complete_def dest: group_init_keeps linkscan_start_keeps)

lemma group_round_keeps: "group_round now clock gi e clm = Returns (e', clm') \<Longrightarrow> number_kept clm clm'"
proof (erule group_round_steps)
  fix st act c
  let ?c = "set_group gi ((clm_groups clm ! gi)\<lparr>gd_group_state := st\<rparr>) clm"
  assume a: "(case act of Some a \<Rightarrow> run_group_action a now clock gi ?c | None \<Rightarrow> Returns (CLM_GROUP_EVENT_NONE, ?c)) = Returns (e', c)"
    "clm' = c \<or> (\<exists>a e. fst (clm_group_fsm_on_entry_exit clm st) = Some a \<and> run_group_action a now clock gi c = Returns (e, clm'))"
  have "number_kept clm c" using a(1) number_kept_trans [OF number_kept_simps(2) group_action_keeps] by (cases act) auto
  moreover have "number_kept c clm'" using a(2) group_action_keeps by auto
  ultimately show ?thesis by (rule number_kept_trans)
qed

lemma group_event_keeps: "clm_iefb_group_fsm_event now clock gi ev clm = Returns clm' \<Longrightarrow> number_kept clm clm'"
  using event_loop_keeps [of "group_round now clock gi" "number_kept clm"] group_round_keeps number_kept_trans
  by (auto simp: clm_iefb_group_fsm_event_def split: if_splits)

lemma group_event_all_keeps: "clm_iefb_group_fsm_event_all now clock ev clm = Returns clm' \<Longrightarrow> number_kept clm clm'"
  unfolding clm_iefb_group_fsm_event_all_def
  by (rule for_each_keeps [where P = "number_kept clm"]) (auto dest!: group_event_keeps elim: number_kept_trans)

section \<open>A master that is started\<close>

text \<open>Every start-up takes the next parameter number and saves it.\<close>

lemma init_advances_number:
  assumes "clm_iefb_init mg ms now clock socket_ok arb_ok clm = Returns (True, clm')"
  shows "clm_parameter_no clm' = clm_parameter_no clm + 1"
    "saved_numbers (clm_out clm') = saved_numbers (clm_out clm) @ [clm_parameter_no clm + 1]"
proof -
  let ?blank = "\<lambda>c. fold (\<lambda>gi clm. set_group gi ((clm_groups clm ! gi)\<lparr>gd_group_state := CLM_GROUP_STATE_MASTER_DOWN, gd_group_index := gi\<rparr>) clm)
      [0..<hi_number_of_groups (mc_hier (clm_config c))] (c\<lparr>clm_groups := replicate mg (zero_group ms)\<rparr>)"
  have blank: "number_kept c0 c \<Longrightarrow> number_kept c0 (fold (\<lambda>gi clm. set_group gi ((clm_groups clm ! gi)
      \<lparr>gd_group_state := CLM_GROUP_STATE_MASTER_DOWN, gd_group_index := gi\<rparr>) clm) gis c)" for c0 c gis
  proof (induction gis arbitrary: c)
    case (Cons gi gis)
    show ?case unfolding fold_simps by (rule Cons.IH) (rule number_kept_trans [OF Cons.prems], simp)
  qed simp
  define c where "c = clm_iefb_group_fsm_tables_init (clm_iefb_device_fsm_tables_init (clm\<lparr>clm_errorlimiter :=
      cl_limiter_init CLM_CCIEFB_ERRORCALLBACK_RETRIGGER_PERIOD (clm_errorlimiter clm),
      clm_latest_conflicting_master_ip := CL_IPADDR_INVALID, clm_state := CLM_MASTER_STATE_DOWN,
      clm_master_local_unit_info := CL_CCIEFB_MASTER_LOCAL_UNIT_INFO_RUNNING,
      clm_arbitration_timer := cl_timer_stop (clm_arbitration_timer clm)\<rparr>))"
  have c: "number_kept clm c" "clm_config c = clm_config clm"
    by (simp_all add: c_def number_kept_def clm_iefb_device_fsm_tables_init_def clm_iefb_group_fsm_tables_init_def)
  have init: "obind (clm_iefb_group_fsm_event_all now clock CLM_GROUP_EVENT_STARTUP (?blank c)) (\<lambda>clm.
            obind (clm_iefb_handle_new_config now clock clm) (\<lambda>clm. Returns (True, clm))) = Returns (True, clm')"
    using assms by (simp add: clm_iefb_init_def Let_def c_def [symmetric] c(2) split: if_splits)
  have "number_kept clm (?blank c)" by (rule blank) (use c in \<open>simp add: number_kept_def\<close>)
  moreover obtain c1 where c1: "clm_iefb_group_fsm_event_all now clock CLM_GROUP_EVENT_STARTUP (?blank c) = Returns c1"
      "clm_iefb_handle_new_config now clock c1 = Returns clm'"
    using init by (auto simp: obind_Returns_iff)
  ultimately have n: "number_kept clm c1" using group_event_all_keeps number_kept_trans by blast
  have "number_kept (memit_if True (Save_Parameter_No (clm_parameter_no c1 + 1)) (c1\<lparr>clm_parameter_no := clm_parameter_no c1 + 1\<rparr>)) clm'"
    using c1(2) group_event_all_keeps by (simp add: clm_iefb_handle_new_config_def Let_def)
  then show "clm_parameter_no clm' = clm_parameter_no clm + 1"
    "saved_numbers (clm_out clm') = saved_numbers (clm_out clm) @ [clm_parameter_no clm + 1]"
    using n by (simp_all add: number_kept_def memit_if_def)
qed

definition stored_number :: "'f clm_platform \<Rightarrow> 'f \<Rightarrow> u16 option" where
  "stored_number pf f = (case cl_file_load (pf_files pf) f (Some (pf_directory pf)) CLM_FILENAME_PARAM_NO 2 of
     Returns (Some bs) \<Rightarrow> Some (le16_at bs 0) | _ \<Rightarrow> None)"

definition next_number :: "'f clm_platform \<Rightarrow> 'f \<Rightarrow> u16" where
  "next_number pf f = (case stored_number pf f of Some n \<Rightarrow> n | None \<Rightarrow> CLM_DEFAULT_PARAMETER_NO) + 1"

definition platform_ok :: "'f clm_platform \<Rightarrow> clm_cfg \<Rightarrow> bool" where
  "platform_ok pf cfg \<longleftrightarrow> options_ok (pf_max_groups pf) (pf_max_stations pf) \<and> pf_clal_ok pf \<and> pf_socket_ok pf \<and>
     (mc_use_separate_arbitration_socket cfg \<longrightarrow> pf_arbitration_socket_ok pf) \<and>
     cl_eth_get_network_settings (pf_os pf) (mc_master_id cfg) \<noteq> None \<and>
     os_udp_open (pf_os pf) CL_IPADDR_ANY CL_SLMP_PORT \<noteq> - 1"

lemma master_eth_init_fields:
  assumes "clm_master_eth_init os clm = Some clm'"
  shows "clm_config clm' = clm_config clm" "number_kept clm clm'"
  using assms by (auto simp: clm_master_eth_init_def number_kept_def Let_def split: option.splits)

lemma slmp_init_fields:
  "clm_config (snd (clm_slmp_init os clm)) = clm_config clm" "number_kept clm (snd (clm_slmp_init os clm))"
  "clm_state (snd (clm_slmp_init os clm)) = clm_state clm" "clm_groups (snd (clm_slmp_init os clm)) = clm_groups clm"
  "clm_arbitration_timer (snd (clm_slmp_init os clm)) = clm_arbitration_timer clm"
  by (simp_all add: number_kept_def clm_slmp_init_def Let_def)

lemma init_sockets:
  "mc_use_separate_arbitration_socket (clm_config clm) \<longrightarrow> arb_ok \<Longrightarrow>
   clm_iefb_init mg ms now clock True arb_ok clm = clm_iefb_init mg ms now clock True True clm"
  unfolding clm_iefb_init_def Let_def by (cases arb_ok; simp)

lemma master_started:
  assumes pf: "platform_ok pf cfg" and arr: "arrays_ok cfg"
    and val: "clm_validate_config (pf_max_groups pf) (pf_max_stations pf) (Some cfg)" "clm_validate_config_duplicates cfg"
  obtains clm where "clm_master_init pf f (Some cfg) now = Returns (Some clm)" "clm_reachable clm" "clm_config clm = cfg"
    "clm_state clm = CLM_MASTER_STATE_ARBITRATION" "\<forall>gi < number_of_groups clm. state_of_group clm gi = CLM_GROUP_STATE_MASTER_ARBITRATION"
    "timer_runs (arbitration_period cfg) (clm_arbitration_timer clm)" "tm_timestamp (clm_arbitration_timer clm) = now"
    "clm_parameter_no clm = next_number pf f" "saved_numbers (clm_out clm) = [next_number pf f]"
proof -
  define c0 where "c0 = cleared_master (pf_max_groups pf) (pf_max_stations pf) (pf_max_nodes pf) cfg"
  obtain loaded where l: "cl_file_load (pf_files pf) f (Some (pf_directory pf)) CLM_FILENAME_PARAM_NO 2 = Returns loaded"
    using load_returns [of "pf_files pf" f "Some (pf_directory pf)" CLM_FILENAME_PARAM_NO 2] by blast
  define c1 where "c1 = c0\<lparr>clm_parameter_no := (case loaded of Some bs \<Rightarrow> le16_at bs 0 | None \<Rightarrow> CLM_DEFAULT_PARAMETER_NO)\<rparr>"
  have c1: "clm_config c1 = cfg" "clm_parameter_no c1 + 1 = next_number pf f" "clm_out c1 = []"
    by (simp_all add: c1_def c0_def cleared_master_def next_number_def stored_number_def l split: option.split)
  obtain nw where "cl_eth_get_network_settings (pf_os pf) (mc_master_id (clm_config c1)) = Some nw"
    using pf by (auto simp: platform_ok_def c1(1))
  then obtain c2 where c2: "clm_master_eth_init (pf_os pf) c1 = Some c2" by (simp add: clm_master_eth_init_def Let_def)
  note f2 = master_eth_init_fields [OF c2, unfolded number_kept_def]
  have "config_valid (pf_max_groups pf) (pf_max_stations pf) (clm_config c2)" "distinct (slave_ids_of (clm_config c2))"
    using val validate_config_iff duplicates_iff f2(1) c1(1) arr pf by (simp_all add: platform_ok_def)
  from master_init_ok [OF _ this(1) _ this(2) TrueI, of "pf_arbitration_socket_ok pf" now "pf_clock pf"] obtain c3 t where
    c3: "clm_iefb_init (pf_max_groups pf) (pf_max_stations pf) now (pf_clock pf) True (pf_arbitration_socket_ok pf) c2 = Returns (True, c3)"
      "clm_config c3 = cfg" "clm_state c3 = CLM_MASTER_STATE_ARBITRATION"
      "\<forall>gi < number_of_groups c3. state_of_group c3 gi = CLM_GROUP_STATE_MASTER_ARBITRATION"
      "clm_arbitration_timer c3 = cl_timer_start (arbitration_period cfg) now t"
    using pf arr f2(1) c1(1) by (auto simp: platform_ok_def)
  have r3: "clm_reachable c3"
    by (rule clm_reachable.start [where clm = c2 and now = now and clock = "pf_clock pf"])
      (use pf arr val f2(1) c1(1) c3(1) init_sockets [of c2 "pf_arbitration_socket_ok pf"] in \<open>auto simp: platform_ok_def\<close>)
  define c4 where "c4 = snd (clm_slmp_init (pf_os pf) c3)"
  have s: "clm_slmp_init (pf_os pf) c3 = (True, c4)" using pf by (simp add: platform_ok_def c4_def prod_eq_iff clm_slmp_init_def Let_def)
  note f4 = slmp_init_fields [where os = "pf_os pf" and clm = c3, folded c4_def, unfolded number_kept_def]
  have "clm_reachable c4" by (rule clm_reachable.step [OF r3, of "Master_Slmp_Init (pf_os pf)"]) (simp_all add: c4_def)
  moreover have "clm_master_init pf f (Some cfg) now = Returns (Some c4)"
    using pf val by (simp add: clm_master_init_def platform_ok_def Let_def c0_def [symmetric] l c1_def [symmetric] c2 c3(1) s)
  moreover note init_advances_number [OF c3(1)]
  ultimately show thesis using that [of c4] f4 f2 c1 c3 by (simp add: timer_runs_def cl_timer_start_def)
qed

text \<open>The file holds the new number afterwards, when it can be written.\<close>

definition files_writable :: "'f clm_platform \<Rightarrow> bool" where
  "files_writable pf \<longleftrightarrow> files_ok (pf_files pf) \<and> (\<forall>f p bs. fst (fl_save (pf_files pf) f p bs)) \<and>
     length (joined_path (Some (pf_directory pf)) CLM_FILENAME_PARAM_NO (fl_backslash (pf_files pf))) < fl_path_size (pf_files pf)"

lemma save_succeeds:
  assumes "files_writable pf"
  obtains ret f' where "cl_file_save_if_modified (pf_files pf) f (Some (pf_directory pf)) CLM_FILENAME_PARAM_NO bs = Returns (ret, f')"
    "ret \<noteq> - 1"
proof -
  let ?fs = "pf_files pf"
  obtain old where l: "cl_file_load ?fs f (Some (pf_directory pf)) CLM_FILENAME_PARAM_NO (length bs) = Returns old"
    using load_returns [of ?fs f "Some (pf_directory pf)" CLM_FILENAME_PARAM_NO "length bs"] by blast
  have "\<exists>f'. cl_file_save ?fs f (Some (pf_directory pf)) CLM_FILENAME_PARAM_NO bs = Returns (True, f')"
    using assms by (auto simp: cl_file_save_def join_eq files_writable_def CLM_FILENAME_PARAM_NO_def Let_def prod_eq_iff)
  then obtain f1 where "cl_file_save ?fs f (Some (pf_directory pf)) CLM_FILENAME_PARAM_NO bs = Returns (True, f1)" by blast
  then have "\<exists>ret f'. cl_file_save_if_modified ?fs f (Some (pf_directory pf)) CLM_FILENAME_PARAM_NO bs = Returns (ret, f') \<and> ret \<noteq> - 1"
    using l by (cases old) (auto simp: cl_file_save_if_modified_def)
  then show thesis using that by blast
qed

lemma number_saved:
  assumes w: "files_writable pf" and "saved_numbers outs = [n]"
  obtains f' where "files_after (pf_files pf) (pf_directory pf) outs f = Returns f'" "stored_number pf f' = Some n"
proof -
  let ?after = "files_after (pf_files pf) (pf_directory pf)"
  have none: "saved_numbers outs = [] \<Longrightarrow> ?after outs f = Returns f" for outs f
    by (induction outs) (auto split: clm_output.splits simp: saved_numbers_def)
  have "saved_numbers outs = [n] \<Longrightarrow> \<exists>f'. ?after outs f = Returns f' \<and> stored_number pf f' = Some n" for f
  proof (induction outs)
    case (Cons x outs)
    show ?case
    proof (cases "\<exists>m. x = Save_Parameter_No m")
      case True
      then have x: "x = Save_Parameter_No n" "saved_numbers outs = []" using Cons.prems by auto
      obtain ret f1 where f1: "cl_file_save_if_modified (pf_files pf) f (Some (pf_directory pf)) CLM_FILENAME_PARAM_NO (le16_bytes n) = Returns (ret, f1)"
        "ret \<noteq> - 1" using save_succeeds [OF w] by blast
      have "stored_number pf f1 = Some n"
        using save_if_modified_loaded [OF _ f1] w by (simp add: files_writable_def stored_number_def at_first(4))
      then show ?thesis using x f1(1) none by simp
    next
      case False
      then show ?thesis using Cons by (cases x) (auto simp: saved_numbers_def)
    qed
  qed simp
  then show thesis using assms(2) that by blast
qed

end
