(* ===== verification/CL_API.thy ===== *)
theory CL_API
  imports CL_Prelude
begin

text \<open>
  Calls of the public interface. A handle is \<open>None\<close> for a null pointer; the functions of the interface either
  assert that it is not null or return an error. The locales describe what an application may rely on when it
  makes a sequence of calls: \<open>api_calls\<close> says that calls with fitting arguments return and keep the
  configuration, \<open>strict_api_calls\<close> adds that every other call fails an assertion.
\<close>

definition non_null :: "'h option \<Rightarrow> ('h \<Rightarrow> 'a outcome) \<Rightarrow> 'a outcome" where
  "non_null h f = (case h of None \<Rightarrow> Assert_Failed | Some x \<Rightarrow> f x)"

lemma non_null_simps [simp]: "non_null None f = Assert_Failed" "non_null (Some x) f = f x"
  by (simp_all add: non_null_def)

locale api_calls =
  fixes call :: "'c \<Rightarrow> 's \<Rightarrow> 's outcome" and ok :: "'s \<Rightarrow> bool" and conf :: "'s \<Rightarrow> 'k" and fits :: "'k \<Rightarrow> 'c \<Rightarrow> bool"
  assumes returns: "ok s \<Longrightarrow> fits (conf s) c \<Longrightarrow> \<exists>s'. call c s = Returns s' \<and> ok s' \<and> conf s' = conf s"
begin

lemma sequence_returns:
  assumes "ok s" "\<forall>c \<in> set cs. fits (conf s) c"
  shows "\<exists>s'. for_each call cs s = Returns s' \<and> ok s' \<and> conf s' = conf s"
  using assms
proof (induction cs arbitrary: s)
  case (Cons c cs)
  then obtain t where t: "call c s = Returns t" "ok t" "conf t = conf s" using returns by fastforce
  then show ?case using Cons.IH [of t] Cons.prems(2) by auto
qed simp

end

locale strict_api_calls = api_calls +
  assumes refuses: "ok s \<Longrightarrow> \<not> fits (conf s) c \<Longrightarrow> call c s = Assert_Failed"
begin

text \<open>A sequence of calls returns exactly if every call fits.\<close>

lemma sequence_outcome:
  assumes "ok s"
  shows "(\<forall>c \<in> set cs. fits (conf s) c) \<Longrightarrow> \<exists>s'. for_each call cs s = Returns s' \<and> ok s' \<and> conf s' = conf s"
    "\<not> (\<forall>c \<in> set cs. fits (conf s) c) \<Longrightarrow> for_each call cs s = Assert_Failed"
proof -
  show "\<exists>s'. for_each call cs s = Returns s' \<and> ok s' \<and> conf s' = conf s" if "\<forall>c \<in> set cs. fits (conf s) c"
    by (rule sequence_returns [OF assms that])
  show "for_each call cs s = Assert_Failed" if "\<not> (\<forall>c \<in> set cs. fits (conf s) c)"
    using assms that
  proof (induction cs arbitrary: s)
    case (Cons c cs)
    show ?case
    proof (cases "fits (conf s) c")
      case True
      then obtain t where "call c s = Returns t" "ok t" "conf t = conf s" using returns Cons.prems(1) by blast
      then show ?thesis using Cons True by auto
    qed (use Cons.prems(1) refuses in simp)
  qed simp
qed

end

end
