(* ===== verification/CLM_API.thy ===== *)
theory CLM_API
  imports CLM_Start CLM_Inputs CL_API
begin

text \<open>
  The public interface of the master (\<open>src/master/clm_api.c\<close>).

  The time that \<open>os_get_current_time_us\<close> returns is an argument, as is the memory that \<open>calloc\<close> returns:
  \<open>None\<close>, or a block whose contents the initialisation clears. A return value of -1 is \<open>None\<close> or \<open>False\<close>. A
  pointer to a data area is an offset into the memory of the group; the number of stations is the second
  component of the result.
\<close>

section \<open>Initialisation and shutdown\<close>

definition clm_init_only :: "'f clm_platform \<Rightarrow> 'f \<Rightarrow> clm option \<Rightarrow> clm_cfg option \<Rightarrow> u32 \<Rightarrow> clm option outcome" where
  "clm_init_only pf f clm cfg now = (case clm of None \<Rightarrow> Returns None | Some _ \<Rightarrow> clm_master_init pf f cfg now)"

definition clm_init :: "'f clm_platform \<Rightarrow> 'f \<Rightarrow> clm option \<Rightarrow> clm_cfg option \<Rightarrow> u32 \<Rightarrow> clm option outcome" where
  "clm_init pf f memory cfg now =
     (case memory of None \<Rightarrow> Returns None
      | Some clm \<Rightarrow> obind (clm_init_only pf f (Some clm) cfg now) (\<lambda>initialised.
          case initialised of Some clm \<Rightarrow> Returns (Some clm) | None \<Rightarrow> Returns None))"

definition clm_exit :: "bool \<Rightarrow> clm option \<Rightarrow> bool \<times> clm option" where
  "clm_exit clal_ok clm = (case clm of None \<Rightarrow> (False, None)
     | Some clm \<Rightarrow> let (ok, clm) = clm_master_exit clal_ok clm in (ok, Some clm))"

section \<open>Calls that change the state\<close>

definition clm_handle_periodic ::
  "u32 \<Rightarrow> slmp_datagram list \<Rightarrow> (nat \<Rightarrow> u64) \<Rightarrow> clm_datagram option \<Rightarrow> clm_datagram list \<Rightarrow> clm option \<Rightarrow> clm outcome" where
  "clm_handle_periodic now slmp_received clock arb datagrams clm = non_null clm (\<lambda>clm.
     clm_iefb_periodic now clock arb datagrams (clm_slmp_periodic now slmp_received clm))"

definition clm_set_master_application_status :: "bool \<Rightarrow> bool \<Rightarrow> clm option \<Rightarrow> clm outcome" where
  "clm_set_master_application_status running stopped_by_user clm =
     non_null clm (\<lambda>clm. Returns (clm_iefb_set_master_application_status running stopped_by_user clm))"

definition clm_set_slave_communication_status :: "nat \<Rightarrow> nat \<Rightarrow> bool \<Rightarrow> clm option \<Rightarrow> (bool \<times> clm) outcome" where
  "clm_set_slave_communication_status group_index slave_device_index enabled clm =
     non_null clm (\<lambda>clm. Returns (clm_iefb_set_slave_communication_status group_index slave_device_index enabled clm))"

definition clm_force_cyclic_transmission_bit :: "nat \<Rightarrow> nat \<Rightarrow> bool \<Rightarrow> clm option \<Rightarrow> (bool \<times> clm) outcome" where
  "clm_force_cyclic_transmission_bit group_index slave_device_index force clm =
     non_null clm (\<lambda>clm. Returns (clm_iefb_force_cyclic_transmission_bit group_index slave_device_index force clm))"

definition clm_clear_statistics :: "clm option \<Rightarrow> clm outcome" where
  "clm_clear_statistics clm = non_null clm (\<lambda>clm. Returns (clm_iefb_statistics_clear_all clm))"

definition clm_perform_node_search :: "cl_os \<Rightarrow> u32 \<Rightarrow> clm option \<Rightarrow> (bool \<times> clm) outcome" where
  "clm_perform_node_search os now clm = non_null clm (clm_slmp_perform_node_search os now)"

definition clm_set_slave_ipaddr :: "cl_os \<Rightarrow> u32 \<Rightarrow> bytes \<Rightarrow> u32 \<Rightarrow> u32 \<Rightarrow> clm option \<Rightarrow> (bool \<times> clm) outcome" where
  "clm_set_slave_ipaddr os now slave_mac_addr slave_new_ip_addr slave_new_netmask clm =
     non_null clm (clm_slmp_perform_set_ipaddr_request os now slave_mac_addr slave_new_ip_addr slave_new_netmask)"

definition clm_set_ry_bit :: "nat \<Rightarrow> nat \<Rightarrow> u16 \<Rightarrow> bool \<Rightarrow> clm option \<Rightarrow> clm outcome" where
  "clm_set_ry_bit group_index slave_device_index number v clm =
     non_null clm (clm_iefb_set_ry_bit group_index slave_device_index number v)"

definition clm_set_rww_value :: "nat \<Rightarrow> nat \<Rightarrow> u16 \<Rightarrow> u16 \<Rightarrow> clm option \<Rightarrow> clm outcome" where
  "clm_set_rww_value group_index slave_device_index number v clm =
     non_null clm (clm_iefb_set_rww_value group_index slave_device_index number v)"

section \<open>Calls that read the state\<close>

definition clm_get_master_application_status :: "clm option \<Rightarrow> u16 outcome" where
  "clm_get_master_application_status clm = non_null clm (\<lambda>clm. Returns (clm_iefb_get_master_application_status clm))"

definition clm_get_master_status :: "clm option \<Rightarrow> clm_master_status_details option" where
  "clm_get_master_status clm = (case clm of None \<Rightarrow> None | Some clm \<Rightarrow> Some (clm_iefb_get_master_status clm))"

definition clm_get_group_status :: "clm option \<Rightarrow> nat \<Rightarrow> clm_group_status_details option" where
  "clm_get_group_status clm group_index = (case clm of None \<Rightarrow> None | Some clm \<Rightarrow> clm_iefb_get_group_status clm group_index)"

definition clm_get_device_connection_details :: "clm option \<Rightarrow> nat \<Rightarrow> nat \<Rightarrow> clm_slave_device_data option" where
  "clm_get_device_connection_details clm group_index slave_device_index =
     (case clm of None \<Rightarrow> None | Some clm \<Rightarrow> clm_iefb_get_device_connection_details clm group_index slave_device_index)"

definition clm_get_node_search_result :: "clm option \<Rightarrow> clm_node_search_db outcome" where
  "clm_get_node_search_result clm = non_null clm (\<lambda>clm. Returns (clm_slmp_get_node_search_result clm))"

definition clm_get_first_rx_area :: "clm option \<Rightarrow> nat \<Rightarrow> nat option \<times> nat" where
  "clm_get_first_rx_area clm group_index =
     (case clm of None \<Rightarrow> (None, 0) | Some clm \<Rightarrow> clm_iefb_get_first_rx_area clm group_index)"

definition clm_get_first_ry_area :: "clm option \<Rightarrow> nat \<Rightarrow> nat option \<times> nat" where
  "clm_get_first_ry_area clm group_index =
     (case clm of None \<Rightarrow> (None, 0) | Some clm \<Rightarrow> clm_iefb_get_first_ry_area clm group_index)"

definition clm_get_first_rwr_area :: "clm option \<Rightarrow> nat \<Rightarrow> nat option \<times> nat" where
  "clm_get_first_rwr_area clm group_index =
     (case clm of None \<Rightarrow> (None, 0) | Some clm \<Rightarrow> clm_iefb_get_first_rwr_area clm group_index)"

definition clm_get_first_rww_area :: "clm option \<Rightarrow> nat \<Rightarrow> nat option \<times> nat" where
  "clm_get_first_rww_area clm group_index =
     (case clm of None \<Rightarrow> (None, 0) | Some clm \<Rightarrow> clm_iefb_get_first_rww_area clm group_index)"

definition clm_get_first_device_rx_area :: "clm option \<Rightarrow> nat \<Rightarrow> nat \<Rightarrow> (nat option \<times> nat) outcome" where
  "clm_get_first_device_rx_area clm group_index slave_device_index =
     (case clm of None \<Rightarrow> Returns (None, 0)
      | Some clm \<Rightarrow> clm_iefb_get_first_device_rx_area clm group_index slave_device_index)"

definition clm_get_first_device_ry_area :: "clm option \<Rightarrow> nat \<Rightarrow> nat \<Rightarrow> (nat option \<times> nat) outcome" where
  "clm_get_first_device_ry_area clm group_index slave_device_index =
     (case clm of None \<Rightarrow> Returns (None, 0)
      | Some clm \<Rightarrow> clm_iefb_get_first_device_ry_area clm group_index slave_device_index)"

definition clm_get_first_device_rwr_area :: "clm option \<Rightarrow> nat \<Rightarrow> nat \<Rightarrow> (nat option \<times> nat) outcome" where
  "clm_get_first_device_rwr_area clm group_index slave_device_index =
     (case clm of None \<Rightarrow> Returns (None, 0)
      | Some clm \<Rightarrow> clm_iefb_get_first_device_rwr_area clm group_index slave_device_index)"

definition clm_get_first_device_rww_area :: "clm option \<Rightarrow> nat \<Rightarrow> nat \<Rightarrow> (nat option \<times> nat) outcome" where
  "clm_get_first_device_rww_area clm group_index slave_device_index =
     (case clm of None \<Rightarrow> Returns (None, 0)
      | Some clm \<Rightarrow> clm_iefb_get_first_device_rww_area clm group_index slave_device_index)"

definition clm_get_rx_bit :: "clm option \<Rightarrow> nat \<Rightarrow> nat \<Rightarrow> u16 \<Rightarrow> bool outcome" where
  "clm_get_rx_bit clm group_index slave_device_index number =
     non_null clm (\<lambda>clm. clm_iefb_get_rx_bit clm group_index slave_device_index number)"

definition clm_get_ry_bit :: "clm option \<Rightarrow> nat \<Rightarrow> nat \<Rightarrow> u16 \<Rightarrow> bool outcome" where
  "clm_get_ry_bit clm group_index slave_device_index number =
     non_null clm (\<lambda>clm. clm_iefb_get_ry_bit clm group_index slave_device_index number)"

definition clm_get_rwr_value :: "clm option \<Rightarrow> nat \<Rightarrow> nat \<Rightarrow> u16 \<Rightarrow> u16 outcome" where
  "clm_get_rwr_value clm group_index slave_device_index number =
     non_null clm (\<lambda>clm. clm_iefb_get_rwr_value clm group_index slave_device_index number)"

definition clm_get_rww_value :: "clm option \<Rightarrow> nat \<Rightarrow> nat \<Rightarrow> u16 \<Rightarrow> u16 outcome" where
  "clm_get_rww_value clm group_index slave_device_index number =
     non_null clm (\<lambda>clm. clm_iefb_get_rww_value clm group_index slave_device_index number)"

section \<open>Sequences of calls\<close>

datatype clm_call =
    Call_Master_Periodic u32 "slmp_datagram list" "nat \<Rightarrow> u64" "clm_datagram option" "clm_datagram list"
  | Call_Master_Application_Status bool bool
  | Call_Slave_Status nat nat bool
  | Call_Force_Transmission nat nat bool
  | Call_Clear_Statistics
  | Call_Node_Search cl_os u32
  | Call_Set_Ip cl_os u32 bytes u32 u32
  | Call_Set_Ry nat nat u16 bool
  | Call_Set_Rww nat nat u16 u16
  | Call_Get_Rx_Of nat nat u16
  | Call_Get_Ry_Of nat nat u16
  | Call_Get_Rwr_Of nat nat u16
  | Call_Get_Rww_Of nat nat u16

fun master_call :: "clm_call \<Rightarrow> clm \<Rightarrow> clm outcome" where
  "master_call (Call_Master_Periodic now slmp clock arb ds) clm = clm_handle_periodic now slmp clock arb ds (Some clm)"
| "master_call (Call_Master_Application_Status running stopped) clm = clm_set_master_application_status running stopped (Some clm)"
| "master_call (Call_Slave_Status gi di b) clm =
     obind (clm_set_slave_communication_status gi di b (Some clm)) (\<lambda>(_, clm). Returns clm)"
| "master_call (Call_Force_Transmission gi di b) clm =
     obind (clm_force_cyclic_transmission_bit gi di b (Some clm)) (\<lambda>(_, clm). Returns clm)"
| "master_call Call_Clear_Statistics clm = clm_clear_statistics (Some clm)"
| "master_call (Call_Node_Search os now) clm = obind (clm_perform_node_search os now (Some clm)) (\<lambda>(_, clm). Returns clm)"
| "master_call (Call_Set_Ip os now mac ip netmask) clm =
     obind (clm_set_slave_ipaddr os now mac ip netmask (Some clm)) (\<lambda>(_, clm). Returns clm)"
| "master_call (Call_Set_Ry gi di i v) clm = clm_set_ry_bit gi di i v (Some clm)"
| "master_call (Call_Set_Rww gi di i v) clm = clm_set_rww_value gi di i v (Some clm)"
| "master_call (Call_Get_Rx_Of gi di i) clm = obind (clm_get_rx_bit (Some clm) gi di i) (\<lambda>_. Returns clm)"
| "master_call (Call_Get_Ry_Of gi di i) clm = obind (clm_get_ry_bit (Some clm) gi di i) (\<lambda>_. Returns clm)"
| "master_call (Call_Get_Rwr_Of gi di i) clm = obind (clm_get_rwr_value (Some clm) gi di i) (\<lambda>_. Returns clm)"
| "master_call (Call_Get_Rww_Of gi di i) clm = obind (clm_get_rww_value (Some clm) gi di i) (\<lambda>_. Returns clm)"

text \<open>The device exists and has the bit or register; the datagrams do not fail the assertion of the parser.\<close>

definition signal_fits :: "clm_cfg \<Rightarrow> nat \<Rightarrow> nat \<Rightarrow> nat \<Rightarrow> u16 \<Rightarrow> bool" where
  "signal_fits cfg per_station gi di i \<longleftrightarrow> gi < hi_number_of_groups (mc_hier cfg) \<and>
     (let gs = hi_groups (mc_hier cfg) ! gi in di < gs_num_slave_devices gs \<and> unat i < per_station * device_occ gs di)"

fun master_call_fits :: "clm_cfg \<Rightarrow> clm_call \<Rightarrow> bool" where
  "master_call_fits cfg (Call_Master_Periodic now slmp clock arb ds) \<longleftrightarrow>
     (case arb of None \<Rightarrow> True | Some d \<Rightarrow> safe_datagram (fst d)) \<and> (\<forall>d \<in> set ds. safe_datagram (fst d))"
| "master_call_fits cfg (Call_Set_Ry gi di i v) \<longleftrightarrow> signal_fits cfg 64 gi di i"
| "master_call_fits cfg (Call_Set_Rww gi di i v) \<longleftrightarrow> signal_fits cfg 32 gi di i"
| "master_call_fits cfg (Call_Get_Rx_Of gi di i) \<longleftrightarrow> signal_fits cfg 64 gi di i"
| "master_call_fits cfg (Call_Get_Ry_Of gi di i) \<longleftrightarrow> signal_fits cfg 64 gi di i"
| "master_call_fits cfg (Call_Get_Rwr_Of gi di i) \<longleftrightarrow> signal_fits cfg 32 gi di i"
| "master_call_fits cfg (Call_Get_Rww_Of gi di i) \<longleftrightarrow> signal_fits cfg 32 gi di i"
| "master_call_fits cfg _ \<longleftrightarrow> True"


text \<open>No operation changes the configuration.\<close>

lemma clear_all_config: "clm_config (clm_iefb_statistics_clear_all clm) = clm_config clm"
proof -
  have inner: "clm_config (fold (\<lambda>di. upd_dev gi di f) dis c) = clm_config c" for gi f dis c
    by (induction dis arbitrary: c) (simp_all add: upd_dev_def set_group_def)
  have "clm_config (fold (\<lambda>gi. fold (\<lambda>di. upd_dev gi di f) (dis gi)) gis c) = clm_config c" for f dis gis c
    by (induction gis arbitrary: c) (simp_all add: inner)
  then show ?thesis by (simp add: clm_iefb_statistics_clear_all_def Let_def)
qed

lemma master_operation_config:
  assumes "clm_inv clm" "operation_ok oper clm" "clm_do oper clm = Returns clm'"
  shows "clm_config clm' = clm_config clm"
proof (cases oper)
  case (Master_Periodic now clock arb ds)
  then show ?thesis using master_periodic_ok [OF assms(1), of arb ds now clock] assms(2,3) by (auto split: option.splits)
next
  case (Master_Set_Ry gi di i v)
  then show ?thesis using assms(2,3) ry_access(2) [of gi di i v clm] by (auto simp: set_ry.simps put_ry_def set_group_def)
next
  case (Master_Set_Rww gi di i v)
  then show ?thesis using assms(2,3) rww_access(2) [of gi di i v clm] by (auto simp: set_rww.simps put_rww_def set_group_def)
next
  case (Master_Slmp_Periodic now ds)
  then show ?thesis using master_slmp_only_config [OF slmp_periodic_only] assms(3) by auto
next
  case (Master_Node_Search os now)
  then show ?thesis using master_slmp_only_config [OF search_started_only] assms(3) by (auto simp: perform_search_eq split: if_splits)
next
  case (Master_Set_Ip os now mac ip netmask)
  then show ?thesis using master_slmp_only_config [OF set_ip_started_only] assms(3) by (auto simp: perform_set_ip_eq split: if_splits)
qed (use assms(3) in \<open>auto simp: clm_iefb_set_slave_communication_status_def clm_iefb_force_cyclic_transmission_bit_def
    clm_iefb_set_master_application_status_def clm_slmp_init_def clear_all_config upd_dev_def set_group_def Let_def\<close>)

lemma master_do_returns:
  assumes "clm_reachable clm" "operation_ok oper clm"
  shows "\<exists>clm'. clm_do oper clm = Returns clm' \<and> clm_reachable clm' \<and> clm_config clm' = clm_config clm"
proof -
  have inv: "clm_inv clm" by (rule master_reachable_inv [OF assms(1)])
  then obtain clm' where "clm_do oper clm = Returns clm'" using clm_do_ok assms(2) by blast
  then show ?thesis using clm_reachable.step [OF assms] master_operation_config [OF inv assms(2)] by blast
qed

lemma master_periodic_call:
  assumes "clm_reachable clm" "operation_ok (Master_Periodic now clock arb ds) clm"
  shows "\<exists>clm'. clm_handle_periodic now slmp clock arb ds (Some clm) = Returns clm' \<and> clm_reachable clm' \<and> clm_config clm' = clm_config clm"
proof -
  let ?c = "clm_slmp_periodic now slmp clm"
  have c: "clm_reachable ?c" "clm_config ?c = clm_config clm"
    using master_do_returns [OF assms(1), of "Master_Slmp_Periodic now slmp"] by auto
  have "operation_ok (Master_Periodic now clock arb ds) ?c" using assms(2) by simp
  from master_do_returns [OF c(1) this] c(2) show ?thesis by (simp add: clm_handle_periodic_def)
qed

lemma signal_fits_iff:
  "signal_fits (clm_config clm) 64 gi di i \<longleftrightarrow> ry_valid (gi, di, i) clm"
  "signal_fits (clm_config clm) 32 gi di i \<longleftrightarrow> rww_valid (gi, di, i) clm"
  by (auto simp: signal_fits_def ry_valid_def rww_valid_def device_setting_at_def Let_def div_less_iff_less_mult mult.commute)

lemmas master_call_defs = clm_set_master_application_status_def clm_set_slave_communication_status_def
  clm_force_cyclic_transmission_bit_def clm_clear_statistics_def clm_perform_node_search_def clm_set_slave_ipaddr_def
  clm_set_ry_bit_def clm_set_rww_value_def clm_get_rx_bit_def clm_get_ry_bit_def clm_get_rwr_value_def clm_get_rww_value_def

lemma master_call_returns:
  assumes clm: "clm_reachable clm" and fits: "master_call_fits (clm_config clm) c"
  shows "\<exists>clm'. master_call c clm = Returns clm' \<and> clm_reachable clm' \<and> clm_config clm' = clm_config clm"
proof (cases c)
  case (Call_Master_Periodic now slmp clock arb ds)
  then show ?thesis using master_periodic_call [OF clm, of now clock arb ds slmp] fits by simp
next
  case (Call_Master_Application_Status running stopped)
  then show ?thesis using master_do_returns [OF clm, of "Master_Application_Status running stopped"] by (simp add: master_call_defs)
next
  case (Call_Slave_Status gi di b)
  then show ?thesis using master_do_returns [OF clm, of "Master_Slave_Status gi di b"] by (simp add: master_call_defs case_prod_unfold)
next
  case (Call_Force_Transmission gi di b)
  then show ?thesis using master_do_returns [OF clm, of "Master_Force_Transmission gi di b"] by (simp add: master_call_defs case_prod_unfold)
next
  case Call_Clear_Statistics
  then show ?thesis using master_do_returns [OF clm, of Master_Clear_Statistics] by (simp add: master_call_defs)
next
  case (Call_Node_Search os now)
  then show ?thesis using master_do_returns [OF clm, of "Master_Node_Search os now"] by (simp add: master_call_defs)
next
  case (Call_Set_Ip os now mac ip netmask)
  then show ?thesis using master_do_returns [OF clm, of "Master_Set_Ip os now mac ip netmask"] by (simp add: master_call_defs)
next
  case (Call_Set_Ry gi di i v)
  then show ?thesis using master_do_returns [OF clm, of "Master_Set_Ry gi di i v"] fits by (simp add: master_call_defs signal_fits_iff)
next
  case (Call_Set_Rww gi di i v)
  then show ?thesis using master_do_returns [OF clm, of "Master_Set_Rww gi di i v"] fits by (simp add: master_call_defs signal_fits_iff)
qed (use clm fits in \<open>simp_all add: master_call_defs signal_fits_iff rx_access rwr_access ry_access(1) [unfolded get_ry.simps] rww_access(1) [unfolded get_rww.simps]\<close>)

interpretation master_api: api_calls master_call clm_reachable clm_config master_call_fits
  by unfold_locales (rule master_call_returns)

end
