(* ===== verification/CLS_Start.thy ===== *)
theory CLS_Start
  imports CLS_Behaviour
begin

text \<open>
  Start-up and shutdown of the slave stack (\<open>src/slave/cls_slave.c\<close>).

  \<open>clal_init\<close> and \<open>clal_exit\<close> belong to the platform; their results are arguments, as is the build option
  \<open>CLS_MAX_OCCUPIED_STATIONS\<close>. An initialisation that returns -1 leaves a handle that is not used any more;
  its result is \<open>None\<close>.
\<close>

section \<open>Definitions\<close>

definition cls_validate_config :: "nat \<Rightarrow> cls_cfg option \<Rightarrow> bool" where
  "cls_validate_config max_stations cfg = (case cfg of
      None \<Rightarrow> False
    | Some cfg \<Rightarrow>
      if cfg_iefb_ip_addr cfg \<noteq> CL_IPADDR_ANY \<and> \<not> cl_utils_is_ipaddr_range_valid (cfg_iefb_ip_addr cfg) then False
      else if cfg_num_occupied_stations cfg < CL_CCIEFB_MIN_OCCUPIED_STATIONS_PER_GROUP \<or>
           cfg_num_occupied_stations cfg > max_stations then False
      else True)"

text \<open>The handle after \<open>clal_clear_memory\<close>, with the configuration copied in.\<close>

definition cleared_timer :: cl_timer where
  "cleared_timer = \<lparr>tm_state = CL_TIMER_STOPPED, tm_period = 0, tm_timestamp = 0\<rparr>"

definition cleared_limiter :: cl_limiter where
  "cleared_limiter = \<lparr>lm_timer = cleared_timer, lm_period = 0, lm_previous_message = 0, lm_number_of_calls = 0,
     lm_number_of_outputs = 0\<rparr>"

definition cleared_slave :: "nat \<Rightarrow> cls_cfg \<Rightarrow> cls" where
  "cleared_slave max_stations cfg =
     (let frame = \<lparr>sr_buffer = replicate CL_BUFFER_LEN 0, sr_udp_payload_len = 0, sr_first_rwr = 0, sr_first_rx = 0\<rparr>
      in \<lparr>cls_config = cfg, cls_endcode_slave_disabled = 0, cls_slave_application_status = 0,
          cls_loglimiter = cleared_limiter, cls_errorlimiter = cleared_limiter, cls_local_management_info = 0,
          cls_slave_err_code = 0, cls_ry = replicate (8 * max_stations) 0, cls_rww = replicate (64 * max_stations) 0,
          cls_resp_frame_normal = frame, cls_resp_frame_error = frame,
          cls_master = no_master, cls_state = CLS_SLAVE_STATE_SLAVE_DOWN,
          cls_fsm_matrix = (\<lambda>_ _. (CLS_SLAVE_STATE_SLAVE_DOWN, None)), cls_fsm_on_entry_exit = (\<lambda>_. (None, None)),
          cls_receive_timer = cleared_timer, cls_timer_for_disabling_slave = cleared_timer,
          cls_trigger = \<lparr>td_executed_before = False, td_previous_connected_to_master = False,
            td_previous_protocol_ver = 0, td_previous_master_application_status = 0\<rparr>,
          cls_node_search_data = cleared_node_search, cls_slmp_send_socket = 0, cls_slmp_receive_socket = 0, cls_out = []\<rparr>)"

definition cls_slave_init :: "nat \<Rightarrow> bool \<Rightarrow> cl_os \<Rightarrow> bool \<Rightarrow> cls_cfg option \<Rightarrow> u32 \<Rightarrow> cls option outcome" where
  "cls_slave_init max_stations clal_ok os iefb_socket_opened cfg now =
     (if \<not> clal_ok then Returns None
      else if \<not> cls_validate_config max_stations cfg then Returns None
      else obind (cls_iefb_init now iefb_socket_opened (cleared_slave max_stations (the cfg))) (\<lambda>cls.
        case cls of
          None \<Rightarrow> Returns None
        | Some cls \<Rightarrow>
          let (ok, cls) = cls_slmp_init os cls
          in Returns (if \<not> ok then None else Some cls)))"

text \<open>Closing the CCIEFB socket has no effect on the state that is modelled.\<close>

definition cls_slave_exit :: "bool \<Rightarrow> cls \<Rightarrow> bool \<times> cls" where
  "cls_slave_exit clal_ok cls = (clal_ok, cls_slmp_exit cls)"

section \<open>Started slaves\<close>

text \<open>
  An accepted configuration, with the limits that \<open>cls_slave.c\<close> checks for the build option, gives a
  reachable slave without master.
\<close>

lemma validated_config:
  assumes "cls_validate_config max_stations (Some cfg)" "max_stations \<le> 16"
  shows "config_inv (cleared_slave max_stations cfg)"
  using assms by (auto simp: cls_validate_config_def config_inv_def cleared_slave_def Let_def
      CL_CCIEFB_MIN_OCCUPIED_STATIONS_PER_GROUP_def split: if_splits)

lemma slave_started_ok:
  assumes "cls_validate_config max_stations (Some cfg)" "max_stations \<le> 16" "os_udp_open os CL_IPADDR_ANY CL_SLMP_PORT \<noteq> - 1"
  shows "\<exists>s. cls_slave_init max_stations True os True (Some cfg) now = Returns (Some s) \<and> cls_reachable s \<and>
    cls_state s = CLS_SLAVE_STATE_MASTER_NONE \<and> slmp_wf (cls_node_search_data s) \<and>
    cls_slmp_send_socket s = - 1 \<and> \<not> cl_timer_is_running (ns_response_timer (cls_node_search_data s))"
proof -
  let ?s0 = "cleared_slave max_stations cfg"
  obtain s1 where s1: "cls_iefb_init now True ?s0 = Returns (Some s1)" "cls_inv s1" "cls_state s1 = CLS_SLAVE_STATE_MASTER_NONE"
    using iefb_init_ok [OF validated_config [OF assms(1,2)], of now] by blast
  have r: "cls_reachable s1" using cls_reachable.start [OF validated_config [OF assms(1,2)] s1(1)] .
  obtain s where s: "cls_slmp_init os s1 = (True, s)" "cls_state s = cls_state s1" "cls_config s = cls_config s1"
    using assms(3) by (simp add: cls_slmp_init_def Let_def)
  have "cls_do (Slmp_Init os) s1 = Returns s" using s(1) by simp
  then have "cls_reachable s" using cls_reachable.step [OF r] by blast
  then show ?thesis
    using s1 s slmp_init_ok [OF s(1)] assms(1) by (simp add: cls_slave_init_def)
qed

text \<open>Initialisation returns for every configuration.\<close>

lemma slave_init_returns:
  assumes "max_stations \<le> 16"
  shows "\<exists>r. cls_slave_init max_stations clal_ok os opened cfg now = Returns r"
proof (cases "clal_ok \<and> cls_validate_config max_stations cfg \<and> opened")
  case True
  then obtain c where c: "cfg = Some c" by (auto simp: cls_validate_config_def split: option.splits)
  then show ?thesis
    using True iefb_init_ok [OF validated_config [of max_stations c], of now] assms
    by (auto simp: cls_slave_init_def split_beta)
next
  case False
  then show ?thesis by (auto simp: cls_slave_init_def cls_iefb_init_def Let_def)
qed

text \<open>One call of the periodic function is two operations of the stack.\<close>

lemma reachable_do:
  assumes "cls_reachable s" "index_valid oper s"
  shows "\<exists>s'. cls_do oper s = Returns s' \<and> cls_reachable s'"
  using cls_do_ok [OF reachable_inv [OF assms(1)] assms(2)] cls_reachable.step [OF assms(1)] by blast

end
