(* ===== verification/CLS_View.thy ===== *)
theory CLS_View
  imports CLS_Start
begin

text \<open>
  What the application is told. The callbacks of the slave, in the order of the trace, give the application a
  view: the state that was reported last, whether a master is connected and whether that master is running.
  The invariant \<open>view_ok\<close> says that this view agrees with the handle after every operation.
\<close>

section \<open>The view of the application\<close>

definition told :: "(cls_output \<Rightarrow> 'v option) \<Rightarrow> 'v \<Rightarrow> cls_output list \<Rightarrow> 'v" where
  "told f v outs = fold (\<lambda>x v. case f x of Some w \<Rightarrow> w | None \<Rightarrow> v) outs v"

fun state_told :: "cls_output \<Rightarrow> cls_slave_state option" where
  "state_told (State_Callback st) = Some st"
| "state_told _ = None"

fun connection_told :: "cls_output \<Rightarrow> bool option" where
  "connection_told (Connect_Callback ip gno station) = Some True"
| "connection_told Disconnect_Callback = Some False"
| "connection_told _ = None"

fun running_told :: "cls_output \<Rightarrow> bool option" where
  "running_told (Master_Running_Callback connected running stopped ver status) = Some running"
| "running_told _ = None"

lemma told_simps [simp]:
  "told f v [] = v" "told f v (xs @ ys) = told f (told f v xs) ys"
  "told f v (x # xs) = told f (case f x of Some w \<Rightarrow> w | None \<Rightarrow> v) xs"
  by (simp_all add: told_def)

lemma told_if: "told f v (if b then [x] else []) = (case f x of Some w \<Rightarrow> if b then w else v | None \<Rightarrow> v)"
  by (simp split: option.split)

lemma told_silent: "list_all (\<lambda>x. f x = None) outs \<Longrightarrow> told f v outs = v"
  by (induction outs) simp_all

text \<open>The flag that was handed to the application with the last request.\<close>

definition running_seen :: "cls \<Rightarrow> bool" where
  "running_seen s \<longleftrightarrow> td_previous_connected_to_master (cls_trigger s) \<and> bit (td_previous_master_application_status (cls_trigger s)) 0"

definition running_ok :: "cls \<Rightarrow> bool" where
  "running_ok s \<longleftrightarrow> (cfg_master_running_cb (cls_config s) \<longrightarrow> told running_told False (cls_out s) = running_seen s)"

abbreviation connected_before :: "cls \<Rightarrow> bool" where
  "connected_before s \<equiv> td_previous_connected_to_master (cls_trigger s)"

definition view_ok :: "cls \<Rightarrow> bool" where
  "view_ok s \<longleftrightarrow> cls_fsm_matrix s = initial_matrix \<and> cls_fsm_on_entry_exit s = initial_entry_exit \<and>
     cls_state s \<noteq> CLS_SLAVE_STATE_SLAVE_DOWN \<and>
     (cfg_state_cb (cls_config s) \<longrightarrow> told state_told CLS_SLAVE_STATE_SLAVE_DOWN (cls_out s) = cls_state s) \<and>
     (cfg_connect_cb (cls_config s) \<longrightarrow> cfg_disconnect_cb (cls_config s) \<longrightarrow>
        told connection_told False (cls_out s) = (cls_state s = CLS_SLAVE_STATE_MASTER_CONTROL)) \<and>
     running_ok s \<and> (connected_before s \<longrightarrow> cls_state s = CLS_SLAVE_STATE_MASTER_CONTROL)"

text \<open>What the invariant means to the application.\<close>

lemma view_okD:
  assumes "view_ok s"
  shows "cfg_state_cb (cls_config s) \<Longrightarrow> told state_told CLS_SLAVE_STATE_SLAVE_DOWN (cls_out s) = cls_state s"
    "cfg_connect_cb (cls_config s) \<Longrightarrow> cfg_disconnect_cb (cls_config s) \<Longrightarrow>
       told connection_told False (cls_out s) = (cls_state s = CLS_SLAVE_STATE_MASTER_CONTROL)"
    "cfg_master_running_cb (cls_config s) \<Longrightarrow> told running_told False (cls_out s) \<Longrightarrow> cls_state s = CLS_SLAVE_STATE_MASTER_CONTROL"
  using assms unfolding view_ok_def running_ok_def running_seen_def by blast+

section \<open>Actions\<close>

lemma running_ok_simps [simp]:
  "running_ok (s\<lparr>cls_master := m\<rparr>) = running_ok s" "running_ok (s\<lparr>cls_receive_timer := t\<rparr>) = running_ok s"
  "running_ok (s\<lparr>cls_timer_for_disabling_slave := t\<rparr>) = running_ok s" "running_ok (s\<lparr>cls_ry := bs\<rparr>) = running_ok s"
  "running_ok (s\<lparr>cls_rww := bs\<rparr>) = running_ok s" "running_ok (s\<lparr>cls_state := st\<rparr>) = running_ok s"
  "running_ok (s\<lparr>cls_resp_frame_normal := fr\<rparr>) = running_ok s" "running_ok (s\<lparr>cls_resp_frame_error := fr\<rparr>) = running_ok s"
  "running_told x = None \<Longrightarrow> running_ok (emit x s) = running_ok s"
  "running_told x = None \<Longrightarrow> running_ok (emit_if b x s) = running_ok s"
  "running_ok (cls_iefb_log_warning_once w a b' c now s) = running_ok s"
  "running_ok (cls_iefb_trigger_error_callback now e ip arg s) = running_ok s"
  by (simp_all add: running_ok_def running_seen_def emit_def emit_if_eq log_warning_once_eq trigger_error_callback_eq
      warning_outputs_def error_outputs_def)

lemma master_state_running: "running_ok s \<Longrightarrow> running_ok (cls_iefb_handle_master_state_callback c v a s)"
  by (auto simp: running_ok_def running_seen_def handle_master_state_callback_eq master_state_outputs_def
      cls_iefb_should_trigger_master_state_callback_def cls_iefb_filter_master_state_callback_values_def Let_def split: if_splits)

lemmas action_defs = no_event_def cls_iefb_slave_init_def cls_iefb_handle_wrong_master_def
  cls_iefb_handle_wrong_stationcount_def cls_iefb_handle_incoming_when_disabled_def cls_iefb_handle_new_or_updated_master_def
  cls_iefb_handle_cyclic_event_def cls_iefb_copy_cyclic_data_from_request_def cls_iefb_send_cyclic_response_frame_def
  cls_iefb_send_cyclic_response_error_frame_def cls_iefb_on_entry_master_none_def cls_iefb_clear_master_info_def
  cls_iefb_on_exit_master_control_def cls_iefb_on_entry_wait_disabling_slave_def cls_iefb_on_entry_slave_disabled_def

lemma action_running:
  assumes "run_action a now req s = Returns (e, s')" "running_ok s" "a \<noteq> Slave_Init"
  shows "running_ok s'"
  using assms by (cases a) (auto simp: outcome_simps action_defs Let_def split: option.splits if_splits prod.splits
      intro!: master_state_running)

text \<open>The outputs of an action, but for what the application is told about the master.\<close>

lemma silent_outputs [simp]:
  "list_all (\<lambda>x. state_told x = None) (master_state_outputs c v a s)" "told connection_told b (master_state_outputs c v a s) = b"
  "list_all (\<lambda>x. state_told x = None) (warning_outputs w p q r now s)" "told connection_told b (warning_outputs w p q r now s) = b"
  "list_all (\<lambda>x. state_told x = None) (error_outputs now m ip arg s)" "told connection_told b (error_outputs now m ip arg s) = b"
  by (simp_all add: master_state_outputs_def warning_outputs_def error_outputs_def split: prod.split)

definition connection_after :: "cls_action \<Rightarrow> cls_cfg \<Rightarrow> cls_request option \<Rightarrow> bool \<Rightarrow> bool" where
  "connection_after a cfg req b = (if a = Handle_New_Or_Updated_Master then b \<or> cfg_connect_cb cfg \<and> req \<noteq> None
     else b \<and> \<not> (a = On_Exit_Master_Control \<and> cfg_disconnect_cb cfg))"

lemma action_outputs:
  assumes "run_action a now req s = Returns (e, s')"
  shows "\<exists>outs. cls_out s' = cls_out s @ outs \<and> list_all (\<lambda>x. state_told x = None) outs \<and>
    (\<forall>b. told connection_told b outs = connection_after a (cls_config s) req b)"
  using assms by (cases a) (auto simp: outcome_simps action_defs helper_eqs emit_if_eq emit_def Let_def connection_after_def
      split: option.splits if_splits prod.splits)

lemma action_fields:
  assumes "run_action a now req s = Returns (e, s')"
  shows "cls_config s' = cls_config s" "cls_state s' = cls_state s" "cls_fsm_matrix s' = cls_fsm_matrix s"
    "cls_fsm_on_entry_exit s' = cls_fsm_on_entry_exit s"
    "connected_before s' \<Longrightarrow> a \<in> {Handle_New_Or_Updated_Master, Handle_Cyclic_Event} \<or>
       connected_before s \<and> a \<notin> {Slave_Init, On_Entry_Master_None, On_Entry_Wait_Disabling_Slave}"
    "e = CLS_SLAVE_EVENT_NONE \<or> e = CLS_SLAVE_EVENT_CYCLIC_CORRECT_MASTER"
  using assms by (cases a; auto simp: outcome_simps action_defs helper_eqs emit_if_eq emit_def Let_def
      split: option.splits if_splits prod.splits)+


text \<open>The same for an action that may be absent.\<close>

definition opt_connection :: "cls_action option \<Rightarrow> cls_cfg \<Rightarrow> cls_request option \<Rightarrow> bool \<Rightarrow> bool" where
  "opt_connection a cfg req b = (case a of None \<Rightarrow> b | Some a \<Rightarrow> connection_after a cfg req b)"

lemma opt_step:
  assumes "run_opt a now req s = Returns (e, s')"
  shows "cls_config s' = cls_config s" "cls_state s' = cls_state s" "cls_fsm_matrix s' = cls_fsm_matrix s"
    "cls_fsm_on_entry_exit s' = cls_fsm_on_entry_exit s"
    "running_ok s \<Longrightarrow> a \<noteq> Some Slave_Init \<Longrightarrow> running_ok s'"
    "connected_before s' \<Longrightarrow> a \<in> {Some Handle_New_Or_Updated_Master, Some Handle_Cyclic_Event} \<or>
       connected_before s \<and> a \<notin> {Some Slave_Init, Some On_Entry_Master_None, Some On_Entry_Wait_Disabling_Slave}"
    "e = CLS_SLAVE_EVENT_NONE \<or> e = CLS_SLAVE_EVENT_CYCLIC_CORRECT_MASTER"
    "told state_told st (cls_out s') = told state_told st (cls_out s)"
    "told connection_told b (cls_out s') = opt_connection a (cls_config s) req (told connection_told b (cls_out s))"
    "\<exists>outs. cls_out s' = cls_out s @ outs"
proof -
  have "(a = None \<and> e = CLS_SLAVE_EVENT_NONE \<and> s' = s) \<or> (\<exists>act. a = Some act \<and> run_action act now req s = Returns (e, s'))"
    using assms by (auto simp: run_opt_def split: option.splits)
  then consider "a = None" "e = CLS_SLAVE_EVENT_NONE" "s' = s" | act where "a = Some act" "run_action act now req s = Returns (e, s')"
    by blast
  then have "cls_config s' = cls_config s \<and> cls_state s' = cls_state s \<and> cls_fsm_matrix s' = cls_fsm_matrix s \<and>
    cls_fsm_on_entry_exit s' = cls_fsm_on_entry_exit s \<and> (running_ok s \<longrightarrow> a \<noteq> Some Slave_Init \<longrightarrow> running_ok s') \<and>
    (connected_before s' \<longrightarrow> a \<in> {Some Handle_New_Or_Updated_Master, Some Handle_Cyclic_Event} \<or>
       connected_before s \<and> a \<notin> {Some Slave_Init, Some On_Entry_Master_None, Some On_Entry_Wait_Disabling_Slave}) \<and>
    (e = CLS_SLAVE_EVENT_NONE \<or> e = CLS_SLAVE_EVENT_CYCLIC_CORRECT_MASTER) \<and>
    told state_told st (cls_out s') = told state_told st (cls_out s) \<and>
    told connection_told b (cls_out s') = opt_connection a (cls_config s) req (told connection_told b (cls_out s)) \<and>
    (\<exists>outs. cls_out s' = cls_out s @ outs)"
  proof cases
    case 1 then show ?thesis by (simp add: opt_connection_def)
  next
    case 2
    obtain outs where "cls_out s' = cls_out s @ outs" "list_all (\<lambda>x. state_told x = None) outs"
      "\<forall>b. told connection_told b outs = connection_after act (cls_config s) req b" using action_outputs [OF 2(2)] by blast
    then show ?thesis using action_fields [OF 2(2)] action_running [OF 2(2)] 2(1) by (simp add: opt_connection_def told_silent)
  qed
  then show "cls_config s' = cls_config s" "cls_state s' = cls_state s" "cls_fsm_matrix s' = cls_fsm_matrix s"
    "cls_fsm_on_entry_exit s' = cls_fsm_on_entry_exit s"
    "running_ok s \<Longrightarrow> a \<noteq> Some Slave_Init \<Longrightarrow> running_ok s'"
    "connected_before s' \<Longrightarrow> a \<in> {Some Handle_New_Or_Updated_Master, Some Handle_Cyclic_Event} \<or>
       connected_before s \<and> a \<notin> {Some Slave_Init, Some On_Entry_Master_None, Some On_Entry_Wait_Disabling_Slave}"
    "e = CLS_SLAVE_EVENT_NONE \<or> e = CLS_SLAVE_EVENT_CYCLIC_CORRECT_MASTER"
    "told state_told st (cls_out s') = told state_told st (cls_out s)"
    "told connection_told b (cls_out s') = opt_connection a (cls_config s) req (told connection_told b (cls_out s))"
    "\<exists>outs. cls_out s' = cls_out s @ outs"
    by blast+
qed

section \<open>Rounds of the state machine\<close>

lemma table_facts:
  assumes "initial_matrix st ev = (nx, act)" "st \<noteq> CLS_SLAVE_STATE_SLAVE_DOWN"
  shows "nx \<noteq> CLS_SLAVE_STATE_SLAVE_DOWN" "act \<noteq> Some Slave_Init" "act \<noteq> Some On_Exit_Master_Control"
    "nx \<noteq> CLS_SLAVE_STATE_MASTER_CONTROL \<Longrightarrow> act \<notin> {Some Handle_New_Or_Updated_Master, Some Handle_Cyclic_Event}"
    "act = Some Handle_New_Or_Updated_Master \<Longrightarrow> ev = CLS_SLAVE_EVENT_CYCLIC_NEW_MASTER"
    "nx = CLS_SLAVE_STATE_MASTER_CONTROL \<Longrightarrow> st \<noteq> CLS_SLAVE_STATE_MASTER_CONTROL \<Longrightarrow> act = Some Handle_New_Or_Updated_Master"
    "st = CLS_SLAVE_STATE_MASTER_CONTROL \<Longrightarrow> nx \<noteq> CLS_SLAVE_STATE_MASTER_CONTROL \<Longrightarrow>
       fst (initial_entry_exit nx) \<in> {Some On_Entry_Master_None, Some On_Entry_Wait_Disabling_Slave}"
  using assms by (cases st; cases ev; auto simp: initial_matrix_table initial_entry_exit_table)+

lemma entry_exit_facts:
  "snd (initial_entry_exit st) = (if st = CLS_SLAVE_STATE_MASTER_CONTROL then Some On_Exit_Master_Control else None)"
  "fst (initial_entry_exit st) \<notin> {Some Slave_Init, Some On_Exit_Master_Control, Some Handle_New_Or_Updated_Master, Some Handle_Cyclic_Event}"
  by (cases st; simp add: initial_entry_exit_table)+

lemma opt_connection_simps:
  "a \<notin> {Some On_Exit_Master_Control, Some Handle_New_Or_Updated_Master} \<Longrightarrow> opt_connection a cfg req b = b"
  "cfg_disconnect_cb cfg \<Longrightarrow> opt_connection (Some On_Exit_Master_Control) cfg req b = False"
  "cfg_connect_cb cfg \<Longrightarrow> req \<noteq> None \<Longrightarrow> opt_connection (Some Handle_New_Or_Updated_Master) cfg req b = True"
  by (auto simp: opt_connection_def connection_after_def split: option.split)

lemma round_view:
  assumes run: "fsm_round now req ev s = Returns (e, s')" and s: "view_ok s"
    and ev: "ev = CLS_SLAVE_EVENT_CYCLIC_NEW_MASTER \<longrightarrow> req \<noteq> None"
  shows "view_ok s' \<and> e \<noteq> CLS_SLAVE_EVENT_CYCLIC_NEW_MASTER"
proof -
  let ?mc = CLS_SLAVE_STATE_MASTER_CONTROL and ?st = "cls_state s" and ?x = initial_entry_exit
  obtain nx act where m: "initial_matrix ?st ev = (nx, act)" by fastforce
  have tables: "cls_fsm_matrix s = initial_matrix" "cls_fsm_on_entry_exit s = ?x" using s by (simp_all add: view_ok_def)
  from run obtain e1 s1 s2 e3 s3 where
    r: "(if nx \<noteq> ?st then run_opt (snd (?x ?st)) now req s else Returns (CLS_SLAVE_EVENT_NONE, s)) = Returns (e1, s1)"
      "run_opt act now req (s1\<lparr>cls_state := nx\<rparr>) = Returns (e, s2)"
      "(if cls_state s2 \<noteq> ?st then run_opt (fst (?x nx)) now req s2 else Returns (CLS_SLAVE_EVENT_NONE, s2)) = Returns (e3, s3)"
      "s' = (if cls_state s3 \<noteq> ?st then emit_if (cfg_state_cb (cls_config s3)) (State_Callback (cls_state s3)) s3 else s3)"
    unfolding fsm_round_def Let_def tables m by (auto simp: obind_Returns_iff)
  note sv = s [unfolded view_ok_def]
  define a1 where "a1 = (if nx \<noteq> ?st then snd (?x ?st) else None)"
  have r1: "run_opt a1 now req s = Returns (e1, s1)" using r(1) by (auto simp: a1_def run_opt_def)
  note st2 = opt_step(2) [OF r(2), simplified]
  define a3 where "a3 = (if nx \<noteq> ?st then fst (?x nx) else None)"
  have r3: "run_opt a3 now req s2 = Returns (e3, s3)" using r(3) st2 by (auto simp: a3_def run_opt_def)
  note o = opt_step [OF r1] opt_step [OF r(2), simplified] opt_step [OF r3]
  have st3: "cls_state s3 = nx" using o by simp
  have s': "cls_config s' = cls_config s" "cls_state s' = nx" "cls_trigger s' = cls_trigger s3"
    "cls_fsm_matrix s' = initial_matrix" "cls_fsm_on_entry_exit s' = ?x"
    using o sv st3 r(4) by (auto simp: emit_if_eq)
  have live: "?st \<noteq> CLS_SLAVE_STATE_SLAVE_DOWN" using sv by blast
  note tf = table_facts [OF m live]
  have "running_ok s'"
  proof -
    have "running_ok s1" by (rule o(5)) (use sv entry_exit_facts(1) [of ?st] in \<open>simp_all add: a1_def\<close>)
    then have "running_ok s2" by (rule o(15)) (rule tf(2))
    then have "running_ok s3" by (rule o(25)) (use entry_exit_facts(2) [of nx] in \<open>simp add: a3_def\<close>)
    then show ?thesis using r(4) by simp
  qed
  moreover have "nx = ?mc" if "connected_before s3"
  proof (rule ccontr)
    assume nx: "nx \<noteq> ?mc"
    have c2: "connected_before s2" "a3 \<notin> {Some On_Entry_Master_None, Some On_Entry_Wait_Disabling_Slave}"
      using o(26) [OF that] entry_exit_facts(2) [of nx] by (auto simp: a3_def split: if_splits)
    have "connected_before s1" using o(16) [OF c2(1)] tf(4) [OF nx] by auto
    then have "connected_before s" using o(6) entry_exit_facts(1) [of ?st] by (auto simp: a1_def split: if_splits)
    then show False using sv tf(7) [OF _ nx] nx c2(2) by (auto simp: a3_def)
  qed
  moreover have "told state_told CLS_SLAVE_STATE_SLAVE_DOWN (cls_out s') = nx" if "cfg_state_cb (cls_config s)"
    using that sv o st3 r(4) by (auto simp: emit_if_eq)
  moreover have "told connection_told False (cls_out s') = (nx = ?mc)" if cb: "cfg_connect_cb (cls_config s)" "cfg_disconnect_cb (cls_config s)"
  proof -
    have "told connection_told False (cls_out s1) = (?st = ?mc \<and> nx = ?mc)"
      unfolding o(9) using sv cb entry_exit_facts(1) [of ?st] by (auto simp: a1_def opt_connection_simps)
    then have "told connection_told False (cls_out s2) = (nx = ?mc)"
      unfolding o(19) o(1) using cb tf(3-6) ev by (cases "act = Some Handle_New_Or_Updated_Master") (auto simp: opt_connection_simps)
    then have "told connection_told False (cls_out s3) = (nx = ?mc)"
      unfolding o(29) using entry_exit_facts(2) [of nx] by (simp add: a3_def opt_connection_simps)
    then show ?thesis using r(4) by (simp add: emit_if_eq)
  qed
  moreover have "e \<noteq> CLS_SLAVE_EVENT_CYCLIC_NEW_MASTER" using o(17) by auto
  ultimately show ?thesis using s' tf(1) by (simp add: view_ok_def)
qed

text \<open>No round changes the configuration or removes from the trace.\<close>

definition continues :: "cls \<Rightarrow> cls \<Rightarrow> bool" where
  "continues s s' \<longleftrightarrow> cls_config s' = cls_config s \<and> (\<exists>outs. cls_out s' = cls_out s @ outs)"

lemma continues_trans: "continues s s' \<Longrightarrow> continues s' s'' \<Longrightarrow> continues s s''"
  by (auto simp: continues_def)

lemma opt_continues: "run_opt a now req s = Returns (e, s') \<Longrightarrow> continues s s'"
  using opt_step(1,10) by (auto simp: continues_def)

lemma round_continues:
  assumes "fsm_round now req ev s = Returns (e, s')"
  shows "continues s s'"
proof -
  obtain nx act where m: "cls_fsm_matrix s (cls_state s) ev = (nx, act)" by fastforce
  let ?x = "cls_fsm_on_entry_exit s"
  from assms obtain e1 s1 e2 s2 e3 s3 where
    r: "(if nx \<noteq> cls_state s then run_opt (snd (?x (cls_state s))) now req s else Returns (CLS_SLAVE_EVENT_NONE, s)) = Returns (e1, s1)"
      "run_opt act now req (s1\<lparr>cls_state := nx\<rparr>) = Returns (e2, s2)"
      "(if cls_state s2 \<noteq> cls_state s then run_opt (fst (?x nx)) now req s2 else Returns (CLS_SLAVE_EVENT_NONE, s2)) = Returns (e3, s3)"
      "s' = (if cls_state s3 \<noteq> cls_state s then emit_if (cfg_state_cb (cls_config s3)) (State_Callback (cls_state s3)) s3 else s3)"
    unfolding fsm_round_def m Let_def prod.case by (auto simp: obind_Returns_iff)
  have "continues s s1" using r(1) opt_continues by (auto split: if_splits simp: continues_def)
  moreover have "continues s1 s2" using opt_continues [OF r(2)] by (simp add: continues_def)
  moreover have "continues s2 s3" using r(3) opt_continues by (auto split: if_splits simp: continues_def)
  ultimately show ?thesis using r(4) by (auto simp: emit_if_eq continues_def)
qed

section \<open>Events\<close>

lemma event_continues:
  assumes "cls_iefb_fsm_event now req ev s = Returns s'"
  shows "continues s s'"
proof (cases "ev = CLS_SLAVE_EVENT_LAST")
  case False
  then have run: "event_loop (fsm_round now req) CLS_SLAVE_EVENT_NONE fsm_fuel ev s = Returns s'" using assms by (simp add: cls_iefb_fsm_event_def)
  show ?thesis
    by (rule event_loop_keeps_for [where P = "continues s" and Q = "\<lambda>_. True", OF _ run TrueI]) (use round_continues continues_trans in \<open>auto simp: continues_def\<close>)
qed (use assms in \<open>simp add: cls_iefb_fsm_event_def continues_def\<close>)

definition event_fits :: "cls_request option \<Rightarrow> cls_slave_event \<Rightarrow> bool" where
  "event_fits req ev \<longleftrightarrow> (ev = CLS_SLAVE_EVENT_CYCLIC_NEW_MASTER \<longrightarrow> req \<noteq> None)"

lemma event_view:
  assumes "cls_iefb_fsm_event now req ev s = Returns s'" "event_fits req ev" "view_ok s"
  shows "view_ok s'"
proof (cases "ev = CLS_SLAVE_EVENT_LAST")
  case False
  then have run: "event_loop (fsm_round now req) CLS_SLAVE_EVENT_NONE fsm_fuel ev s = Returns s'" using assms(1) by (simp add: cls_iefb_fsm_event_def)
  show ?thesis
    by (rule event_loop_keeps_for [where P = view_ok and Q = "event_fits req", OF _ run assms(2)])
      (use round_view assms(3) in \<open>auto simp: event_fits_def\<close>)
qed (use assms in \<open>simp add: cls_iefb_fsm_event_def\<close>)

lemma no_master_outputs:
  "master_state_outputs False 0 0 s =
     (if (td_executed_before (cls_trigger s) \<longrightarrow> connected_before s \<or> td_previous_protocol_ver (cls_trigger s) \<noteq> 0 \<or>
        td_previous_master_application_status (cls_trigger s) \<noteq> 0) \<and> cfg_master_running_cb (cls_config s)
      then [Master_Running_Callback False False False 0 0] else [])"
  by (auto simp: master_state_outputs_def cls_iefb_should_trigger_master_state_callback_def
      cls_iefb_filter_master_state_callback_values_def)

text \<open>After the initialisation the application has been told that there is no master.\<close>

lemma init_view:
  assumes "cls_iefb_init now True s = Returns (Some s')" "cls_out s = []"
  shows "view_ok s'"
proof -
  define t where "t = s\<lparr>cls_loglimiter := cl_limiter_init CLS_CCIEFB_LOGWARNING_RETRIGGER_PERIOD (cls_loglimiter s),
    cls_errorlimiter := cl_limiter_init CLS_CCIEFB_ERRORCALLBACK_RETRIGGER_PERIOD (cls_errorlimiter s),
    cls_fsm_matrix := initial_matrix, cls_fsm_on_entry_exit := initial_entry_exit, cls_state := CLS_SLAVE_STATE_SLAVE_DOWN\<rparr>"
  have t: "cls_config t = cls_config s" "cls_out t = []" "cls_state t = CLS_SLAVE_STATE_SLAVE_DOWN"
    "cls_fsm_matrix t = initial_matrix" "cls_fsm_on_entry_exit t = initial_entry_exit" using assms(2) by (simp_all add: t_def)
  have "cls_iefb_fsm_event now None CLS_SLAVE_EVENT_STARTUP t = Returns s'"
    using assms(1) by (auto simp: cls_iefb_init_def cls_fsm_init_def t_def Let_def obind_Returns_iff)
  then have run: "event_loop (fsm_round now None) CLS_SLAVE_EVENT_NONE (Suc 1) CLS_SLAVE_EVENT_STARTUP t = Returns s'"
    by (simp add: cls_iefb_fsm_event_def fsm_fuel_def numeral_2_eq_2)
  obtain e s1 where r: "fsm_round now None CLS_SLAVE_EVENT_STARTUP t = Returns (e, s1)"
    using run by (cases "fsm_round now None CLS_SLAVE_EVENT_STARTUP t") auto
  have "view_ok s1 \<and> e = CLS_SLAVE_EVENT_NONE"
    using r t by (auto simp: fsm_round_def initial_matrix_table initial_entry_exit_table run_opt_def outcome_simps action_defs Let_def
        helper_eqs emit_if_eq emit_def view_ok_def running_ok_def running_seen_def no_master_outputs told_if)
  then show ?thesis using run r by simp
qed

section \<open>Operations\<close>

text \<open>A step in which neither the state machine nor what was told of it changes.\<close>

definition quiet_step :: "cls \<Rightarrow> cls \<Rightarrow> bool" where
  "quiet_step s s' \<longleftrightarrow> cls_config s' = cls_config s \<and> cls_state s' = cls_state s \<and> cls_fsm_matrix s' = cls_fsm_matrix s \<and>
     cls_fsm_on_entry_exit s' = cls_fsm_on_entry_exit s \<and> cls_trigger s' = cls_trigger s \<and>
     (\<exists>outs. cls_out s' = cls_out s @ outs \<and>
        list_all (\<lambda>x. state_told x = None \<and> connection_told x = None \<and> running_told x = None) outs)"

lemma quiet_view:
  assumes "quiet_step s s'" "view_ok s"
  shows "view_ok s'"
proof -
  obtain outs where "cls_out s' = cls_out s @ outs" "list_all (\<lambda>x. state_told x = None) outs"
    "list_all (\<lambda>x. connection_told x = None) outs" "list_all (\<lambda>x. running_told x = None) outs"
    using assms(1) by (auto simp: quiet_step_def list_all_iff)
  then show ?thesis using assms by (simp add: quiet_step_def view_ok_def running_ok_def running_seen_def told_silent)
qed

lemma quiet_steps:
  "quiet_step s s" "quiet_step s s' \<Longrightarrow> quiet_step s' s'' \<Longrightarrow> quiet_step s s''"
  "quiet_step s (cls_iefb_log_warning_once w a b c now s)" "quiet_step s (cls_iefb_trigger_error_callback now e ip arg s)"
  "quiet_step s (s\<lparr>cls_master := m\<rparr>)" "quiet_step s (s\<lparr>cls_receive_timer := t\<rparr>)" "quiet_step s (s\<lparr>cls_timer_for_disabling_slave := t\<rparr>)"
  "quiet_step s (s\<lparr>cls_endcode_slave_disabled := ec\<rparr>)" "quiet_step s (s\<lparr>cls_errorlimiter := l, cls_loglimiter := l'\<rparr>)"
  by (auto simp: quiet_step_def log_warning_once_eq trigger_error_callback_eq warning_outputs_def error_outputs_def)

lemma slmp_quiet:
  assumes "slmp_only s s'"
  shows "quiet_step s s'"
proof -
  have "slmp_output x \<Longrightarrow> state_told x = None \<and> connection_told x = None \<and> running_told x = None" for x by (cases x) simp_all
  then show ?thesis using assms by (auto simp: slmp_only_def quiet_step_def list_all_iff)
qed

fun is_setter :: "cls_operation \<Rightarrow> bool" where
  "is_setter (Periodic now rcv) = False"
| "is_setter (Disable now err) = False"
| "is_setter (Reenable now) = False"
| "is_setter (Slmp_Periodic os now rcv) = False"
| "is_setter _ = True"

lemma setter_quiet: "cls_do oper s = Returns s' \<Longrightarrow> is_setter oper \<Longrightarrow> quiet_step s s'"
  by (cases oper) (auto simp: cls_iefb_set_rx_bit_def cls_iefb_set_rwr_value_def cls_iefb_set_local_management_info_def
    cls_iefb_set_slave_application_status_def cls_iefb_set_slave_error_code_def cls_slmp_init_def Let_def outcome_simps quiet_step_def
    split: prod.splits if_splits)

text \<open>A property of the handle that events and quiet steps keep is kept by every operation.\<close>

locale slave_property =
  fixes P :: "cls \<Rightarrow> bool"
  assumes event: "cls_iefb_fsm_event now req ev s = Returns s' \<Longrightarrow> event_fits req ev \<Longrightarrow> P s \<Longrightarrow> P s'"
    and quiet: "quiet_step s s' \<Longrightarrow> P s \<Longrightarrow> P s'"
begin

lemma event_after:
  "cls_iefb_fsm_event now req ev t = Returns s' \<Longrightarrow> event_fits req ev \<Longrightarrow> quiet_step s t \<Longrightarrow> P s \<Longrightarrow> P s'"
  using event quiet by blast

lemma fire_keeps:
  "obind (cls_iefb_fsm_event now (Some r) ev t) (\<lambda>s. Returns (True, s)) = Returns (b, s') \<Longrightarrow> quiet_step s t \<Longrightarrow> P s \<Longrightarrow> P s'"
  using event_after [of now "Some r" ev t s' s] by (auto simp: obind_Returns_iff event_fits_def)

lemma search_keeps:
  assumes "cls_iefb_search_slave_parameters now r s = Returns (b, s')" "P s"
  shows "P s'"
  using assms unfolding cls_iefb_search_slave_parameters_def Let_def
  by (auto split: option.splits if_splits prod.splits elim!: fire_keeps intro: quiet_steps quiet)

lemma cyclic_input_keeps:
  assumes "cls_iefb_handle_cyclic_input_frame now bs ip port my s = Returns (b, s')" "P s"
  shows "P s'"
proof -
  obtain p where p: "cl_iefb_parse_cyclic_request bs ip port my = Returns p" using parse_request_returns by blast
  show ?thesis
  proof (cases p)
    case (Some r)
    have "s' = s \<or> cls_iefb_search_slave_parameters now r s = Returns (b, s') \<or>
        (\<exists>ev. obind (cls_iefb_fsm_event now (Some r) ev s) (\<lambda>s. Returns (True, s)) = Returns (b, s'))"
      using assms(1) unfolding cls_iefb_handle_cyclic_input_frame_def p Some Let_def by (auto split: option.splits if_splits)
    then show ?thesis using search_keeps fire_keeps quiet_steps(1) assms(2) by blast
  qed (use assms p in \<open>auto simp: cls_iefb_handle_cyclic_input_frame_def split: if_splits\<close>)
qed

lemma periodic_keeps:
  assumes "cls_iefb_periodic now rcv s = Returns s'" "P s"
  shows "P s'"
proof -
  from assms(1) obtain s1 s2 s3 where
    p: "(case rcv of Some (buffer, remote_ip, remote_port, slave_ip_addr) \<Rightarrow>
          if length buffer > 0 then obind (cls_iefb_handle_input_frame now buffer remote_ip remote_port slave_ip_addr s) (\<lambda>(_, s). Returns s)
          else Returns s | None \<Rightarrow> Returns s) = Returns s1"
      "(if cl_timer_is_expired (cls_receive_timer s1) now then cls_iefb_fsm_event now None CLS_SLAVE_EVENT_TIMEOUT_MASTER
          (s1\<lparr>cls_receive_timer := cl_timer_stop (cls_receive_timer s1)\<rparr>) else Returns s1) = Returns s2"
      "(if cl_timer_is_expired (cls_timer_for_disabling_slave s2) now then cls_iefb_fsm_event now None CLS_SLAVE_EVENT_DISABLE_SLAVE_WAIT_ENDED
          (s2\<lparr>cls_timer_for_disabling_slave := cl_timer_stop (cls_timer_for_disabling_slave s2)\<rparr>) else Returns s2) = Returns s3"
      "s' = s3\<lparr>cls_errorlimiter := cl_limiter_periodic now (cls_errorlimiter s3), cls_loglimiter := cl_limiter_periodic now (cls_loglimiter s3)\<rparr>"
    unfolding cls_iefb_periodic_def by (auto simp: obind_Returns_iff)
  have "P s1"
    using p(1) assms(2) by (auto simp: obind_Returns_iff cls_iefb_handle_input_frame_def split: option.splits if_splits dest: cyclic_input_keeps)
  then have "P s2" using p(2) event_after [of now None CLS_SLAVE_EVENT_TIMEOUT_MASTER _ s2 s1] quiet_steps(6)
    by (auto simp: event_fits_def split: if_splits)
  then have "P s3" using p(3) event_after [of now None CLS_SLAVE_EVENT_DISABLE_SLAVE_WAIT_ENDED _ s3 s2] quiet_steps(7)
    by (auto simp: event_fits_def split: if_splits)
  then show ?thesis using p(4) quiet quiet_steps(9) by blast
qed

lemma operation_keeps:
  assumes "cls_do oper s = Returns s'" "P s"
  shows "P s'"
proof (cases oper)
  case (Periodic now rcv) then show ?thesis using assms periodic_keeps by simp
next
  case (Disable now err)
  then show ?thesis using assms event_after [OF _ _ quiet_steps(8)] by (auto simp: cls_iefb_disable_slave_def event_fits_def)
next
  case (Reenable now) then show ?thesis using assms event by (auto simp: cls_iefb_reenable_slave_def event_fits_def)
next
  case (Slmp_Periodic os now rcv)
  then have "slmp_only s s'" using assms(1) slmp_periodic_returns [of os now rcv s] by auto
  then show ?thesis using quiet [OF slmp_quiet assms(2)] by blast
qed (use quiet [OF setter_quiet [OF assms(1)] assms(2)] in simp_all)

end

interpretation view: slave_property view_ok
  by unfold_locales (use event_view quiet_view in blast)+

interpretation continues: slave_property "continues s" for s
proof
  show "continues s u" if "cls_iefb_fsm_event now req ev t = Returns u" "continues s t" for now req ev t u
    using event_continues [OF that(1)] that(2) continues_trans by blast
  show "continues s u" if "quiet_step t u" "continues s t" for t u
    using that by (auto simp: quiet_step_def continues_def)
qed

lemma operation_continues: "cls_do oper s = Returns s' \<Longrightarrow> continues s s'"
  by (rule continues.operation_keeps) (auto simp: continues_def)

end
