(* ===== verification/CLS_API.thy ===== *)
theory CLS_API
  imports CLS_View CL_API
begin

text \<open>
  The public interface of the slave (\<open>src/slave/cls_api.c\<close>) and the functions of \<open>src/slave/cls_iefb.c\<close> that
  only read the handle.

  The time that \<open>os_get_current_time_us\<close> returns is an argument, as is the memory that \<open>calloc\<close> returns:
  \<open>None\<close>, or a block whose contents the initialisation clears. A return value of -1 is \<open>None\<close> or \<open>False\<close>. A
  pointer to a data area is an offset: into the buffer of the normal response frame for RX and RWr, into
  the memory of the received data for RY and RWw.
\<close>

section \<open>Reading the handle\<close>

definition cls_iefb_get_first_rx_area :: "cls \<Rightarrow> nat" where
  "cls_iefb_get_first_rx_area cls = sr_first_rx (cls_resp_frame_normal cls)"

definition cls_iefb_get_first_ry_area :: "cls \<Rightarrow> nat" where
  "cls_iefb_get_first_ry_area cls = 0"

definition cls_iefb_get_first_rwr_area :: "cls \<Rightarrow> nat" where
  "cls_iefb_get_first_rwr_area cls = sr_first_rwr (cls_resp_frame_normal cls)"

definition cls_iefb_get_first_rww_area :: "cls \<Rightarrow> nat" where
  "cls_iefb_get_first_rww_area cls = 0"

definition cls_iefb_get_local_management_info :: "cls \<Rightarrow> u32" where
  "cls_iefb_get_local_management_info cls = cls_local_management_info cls"

definition cls_iefb_get_slave_application_status :: "cls \<Rightarrow> u16" where
  "cls_iefb_get_slave_application_status cls = cls_slave_application_status cls"

definition cls_iefb_get_slave_error_code :: "cls \<Rightarrow> u16" where
  "cls_iefb_get_slave_error_code cls = cls_slave_err_code cls"

definition cls_iefb_get_master_connection_details :: "cls \<Rightarrow> cls_master_connection" where
  "cls_iefb_get_master_connection_details cls = cls_master cls"

section \<open>Initialisation and shutdown\<close>

definition cls_init_only ::
  "nat \<Rightarrow> bool \<Rightarrow> cl_os \<Rightarrow> bool \<Rightarrow> cls option \<Rightarrow> cls_cfg option \<Rightarrow> u32 \<Rightarrow> cls option outcome" where
  "cls_init_only max_stations clal_ok os iefb_socket_opened cls cfg now =
     (case cls of None \<Rightarrow> Returns None
      | Some _ \<Rightarrow> cls_slave_init max_stations clal_ok os iefb_socket_opened cfg now)"

definition cls_init ::
  "nat \<Rightarrow> bool \<Rightarrow> cl_os \<Rightarrow> bool \<Rightarrow> cls option \<Rightarrow> cls_cfg option \<Rightarrow> u32 \<Rightarrow> cls option outcome" where
  "cls_init max_stations clal_ok os iefb_socket_opened memory cfg now =
     (case memory of None \<Rightarrow> Returns None
      | Some cls \<Rightarrow> obind (cls_init_only max_stations clal_ok os iefb_socket_opened (Some cls) cfg now) (\<lambda>initialised.
          case initialised of Some cls \<Rightarrow> Returns (Some cls) | None \<Rightarrow> Returns None))"

definition cls_exit :: "bool \<Rightarrow> cls option \<Rightarrow> bool \<times> cls option" where
  "cls_exit clal_ok cls = (case cls of None \<Rightarrow> (False, None)
     | Some cls \<Rightarrow> let (ok, cls) = cls_slave_exit clal_ok cls in (ok, Some cls))"

section \<open>Calls\<close>

definition cls_handle_periodic :: "cl_os \<Rightarrow> u32 \<Rightarrow> slmp_datagram option \<Rightarrow> datagram option \<Rightarrow> cls option \<Rightarrow> cls outcome" where
  "cls_handle_periodic os now slmp_received iefb_received cls = non_null cls (\<lambda>cls.
     obind (cls_slmp_periodic os now slmp_received cls) (cls_iefb_periodic now iefb_received))"

definition cls_stop_cyclic_data :: "u32 \<Rightarrow> bool \<Rightarrow> cls option \<Rightarrow> cls outcome" where
  "cls_stop_cyclic_data now is_error cls = non_null cls (cls_iefb_disable_slave now is_error)"

definition cls_restart_cyclic_data :: "u32 \<Rightarrow> cls option \<Rightarrow> cls outcome" where
  "cls_restart_cyclic_data now cls = non_null cls (cls_iefb_reenable_slave now)"

definition cls_get_master_timestamp :: "cls option \<Rightarrow> u64 option" where
  "cls_get_master_timestamp cls = (case cls of None \<Rightarrow> None | Some cls \<Rightarrow> cls_iefb_get_master_timestamp cls)"

definition cls_set_slave_application_status :: "bool \<Rightarrow> cls option \<Rightarrow> cls outcome" where
  "cls_set_slave_application_status operating cls = non_null cls (\<lambda>cls. Returns (cls_iefb_set_slave_application_status operating cls))"

definition cls_get_slave_application_status :: "cls option \<Rightarrow> u16 outcome" where
  "cls_get_slave_application_status cls = non_null cls (\<lambda>cls. Returns (cls_iefb_get_slave_application_status cls))"

definition cls_set_local_management_info :: "u32 \<Rightarrow> cls option \<Rightarrow> cls outcome" where
  "cls_set_local_management_info info cls = non_null cls (\<lambda>cls. Returns (cls_iefb_set_local_management_info info cls))"

definition cls_get_local_management_info :: "cls option \<Rightarrow> u32 outcome" where
  "cls_get_local_management_info cls = non_null cls (\<lambda>cls. Returns (cls_iefb_get_local_management_info cls))"

definition cls_set_slave_error_code :: "u16 \<Rightarrow> cls option \<Rightarrow> cls outcome" where
  "cls_set_slave_error_code code cls = non_null cls (\<lambda>cls. Returns (cls_iefb_set_slave_error_code code cls))"

definition cls_get_slave_error_code :: "cls option \<Rightarrow> u16 outcome" where
  "cls_get_slave_error_code cls = non_null cls (\<lambda>cls. Returns (cls_iefb_get_slave_error_code cls))"

definition cls_get_master_connection_details :: "cls option \<Rightarrow> cls_master_connection option" where
  "cls_get_master_connection_details cls =
     (case cls of None \<Rightarrow> None | Some cls \<Rightarrow> Some (cls_iefb_get_master_connection_details cls))"

definition cls_get_first_rx_area :: "cls option \<Rightarrow> nat option" where
  "cls_get_first_rx_area cls = (case cls of None \<Rightarrow> None | Some cls \<Rightarrow> Some (cls_iefb_get_first_rx_area cls))"

definition cls_get_first_ry_area :: "cls option \<Rightarrow> nat option" where
  "cls_get_first_ry_area cls = (case cls of None \<Rightarrow> None | Some cls \<Rightarrow> Some (cls_iefb_get_first_ry_area cls))"

definition cls_get_first_rwr_area :: "cls option \<Rightarrow> nat option" where
  "cls_get_first_rwr_area cls = (case cls of None \<Rightarrow> None | Some cls \<Rightarrow> Some (cls_iefb_get_first_rwr_area cls))"

definition cls_get_first_rww_area :: "cls option \<Rightarrow> nat option" where
  "cls_get_first_rww_area cls = (case cls of None \<Rightarrow> None | Some cls \<Rightarrow> Some (cls_iefb_get_first_rww_area cls))"

definition cls_set_rx_bit :: "u16 \<Rightarrow> bool \<Rightarrow> cls option \<Rightarrow> cls outcome" where
  "cls_set_rx_bit number v cls = non_null cls (cls_iefb_set_rx_bit number v)"

definition cls_get_rx_bit :: "u16 \<Rightarrow> cls option \<Rightarrow> bool outcome" where
  "cls_get_rx_bit number cls = non_null cls (cls_iefb_get_rx_bit number)"

definition cls_get_ry_bit :: "u16 \<Rightarrow> cls option \<Rightarrow> bool outcome" where
  "cls_get_ry_bit number cls = non_null cls (cls_iefb_get_ry_bit number)"

definition cls_set_rwr_value :: "u16 \<Rightarrow> u16 \<Rightarrow> cls option \<Rightarrow> cls outcome" where
  "cls_set_rwr_value number v cls = non_null cls (cls_iefb_set_rwr_value number v)"

definition cls_get_rwr_value :: "u16 \<Rightarrow> cls option \<Rightarrow> u16 outcome" where
  "cls_get_rwr_value number cls = non_null cls (cls_iefb_get_rwr_value number)"

definition cls_get_rww_value :: "u16 \<Rightarrow> cls option \<Rightarrow> u16 outcome" where
  "cls_get_rww_value number cls = non_null cls (cls_iefb_get_rww_value number)"

section \<open>Sequences of calls\<close>

datatype cls_call =
    Call_Periodic cl_os u32 "slmp_datagram option" "datagram option"
  | Call_Stop u32 bool
  | Call_Restart u32
  | Call_Application_Status bool
  | Call_Management_Info u32
  | Call_Error_Code u16
  | Call_Set_Rx u16 bool
  | Call_Get_Rx u16
  | Call_Get_Ry u16
  | Call_Set_Rwr u16 u16
  | Call_Get_Rwr u16
  | Call_Get_Rww u16

fun slave_call :: "cls_call \<Rightarrow> cls \<Rightarrow> cls outcome" where
  "slave_call (Call_Periodic os now sr ir) s = cls_handle_periodic os now sr ir (Some s)"
| "slave_call (Call_Stop now err) s = cls_stop_cyclic_data now err (Some s)"
| "slave_call (Call_Restart now) s = cls_restart_cyclic_data now (Some s)"
| "slave_call (Call_Application_Status b) s = cls_set_slave_application_status b (Some s)"
| "slave_call (Call_Management_Info x) s = cls_set_local_management_info x (Some s)"
| "slave_call (Call_Error_Code c) s = cls_set_slave_error_code c (Some s)"
| "slave_call (Call_Set_Rx i v) s = cls_set_rx_bit i v (Some s)"
| "slave_call (Call_Get_Rx i) s = obind (cls_get_rx_bit i (Some s)) (\<lambda>_. Returns s)"
| "slave_call (Call_Get_Ry i) s = obind (cls_get_ry_bit i (Some s)) (\<lambda>_. Returns s)"
| "slave_call (Call_Set_Rwr i v) s = cls_set_rwr_value i v (Some s)"
| "slave_call (Call_Get_Rwr i) s = obind (cls_get_rwr_value i (Some s)) (\<lambda>_. Returns s)"
| "slave_call (Call_Get_Rww i) s = obind (cls_get_rww_value i (Some s)) (\<lambda>_. Returns s)"

text \<open>The number of a bit or register is one of those of the occupied stations.\<close>

fun slave_call_fits :: "cls_cfg \<Rightarrow> cls_call \<Rightarrow> bool" where
  "slave_call_fits cfg (Call_Set_Rx i v) \<longleftrightarrow> unat i < 64 * cfg_num_occupied_stations cfg"
| "slave_call_fits cfg (Call_Get_Rx i) \<longleftrightarrow> unat i < 64 * cfg_num_occupied_stations cfg"
| "slave_call_fits cfg (Call_Get_Ry i) \<longleftrightarrow> unat i < 64 * cfg_num_occupied_stations cfg"
| "slave_call_fits cfg (Call_Set_Rwr i v) \<longleftrightarrow> unat i < 32 * cfg_num_occupied_stations cfg"
| "slave_call_fits cfg (Call_Get_Rwr i) \<longleftrightarrow> unat i < 32 * cfg_num_occupied_stations cfg"
| "slave_call_fits cfg (Call_Get_Rww i) \<longleftrightarrow> unat i < 32 * cfg_num_occupied_stations cfg"
| "slave_call_fits cfg _ \<longleftrightarrow> True"

text \<open>A call that changes the slave is one operation of the stack, or two for the periodic function.\<close>

lemma reachable_do_config:
  assumes "cls_reachable s" "index_valid oper s"
  shows "\<exists>s'. cls_do oper s = Returns s' \<and> cls_reachable s' \<and> cls_config s' = cls_config s"
  using reachable_do [OF assms] operation_continues by (auto simp: continues_def)

lemma slave_periodic_call:
  assumes "cls_reachable s"
  shows "\<exists>s'. cls_handle_periodic os now sr ir (Some s) = Returns s' \<and> cls_reachable s' \<and> cls_config s' = cls_config s"
proof -
  obtain t where t: "cls_slmp_periodic os now sr s = Returns t" "cls_reachable t" "cls_config t = cls_config s"
    using reachable_do_config [OF assms, of "Slmp_Periodic os now sr"] by auto
  obtain s' where "cls_iefb_periodic now ir t = Returns s'" "cls_reachable s'" "cls_config s' = cls_config t"
    using reachable_do_config [OF t(2), of "Periodic now ir"] by auto
  then show ?thesis using t by (simp add: cls_handle_periodic_def)
qed

lemmas slave_call_defs = cls_stop_cyclic_data_def cls_restart_cyclic_data_def cls_set_slave_application_status_def
  cls_set_local_management_info_def cls_set_slave_error_code_def cls_set_rx_bit_def cls_get_rx_bit_def cls_get_ry_bit_def
  cls_set_rwr_value_def cls_get_rwr_value_def cls_get_rww_value_def

lemma slave_call_returns:
  assumes s: "cls_reachable s" and fits: "slave_call_fits (cls_config s) c"
  shows "\<exists>s'. slave_call c s = Returns s' \<and> cls_reachable s' \<and> cls_config s' = cls_config s"
proof (cases c)
  case (Call_Periodic os now sr ir) then show ?thesis using slave_periodic_call [OF s] by simp
next
  case (Call_Stop now err) then show ?thesis using reachable_do_config [OF s, of "Disable now err"] by (simp add: slave_call_defs)
next
  case (Call_Restart now) then show ?thesis using reachable_do_config [OF s, of "Reenable now"] by (simp add: slave_call_defs)
next
  case (Call_Application_Status b)
  then show ?thesis using reachable_do_config [OF s, of "Set_Application_Status b"] by (simp add: slave_call_defs)
next
  case (Call_Management_Info x)
  then show ?thesis using reachable_do_config [OF s, of "Set_Management_Info x"] by (simp add: slave_call_defs)
next
  case (Call_Error_Code x) then show ?thesis using reachable_do_config [OF s, of "Set_Error_Code x"] by (simp add: slave_call_defs)
next
  case (Call_Set_Rx i v)
  then show ?thesis using reachable_do_config [OF s, of "Set_Rx i v"] fits by (simp add: slave_call_defs rx_valid_def)
next
  case (Call_Set_Rwr i v)
  then show ?thesis using reachable_do_config [OF s, of "Set_Rwr i v"] fits by (simp add: slave_call_defs rwr_valid_def)
qed (use s fits in \<open>simp_all add: slave_call_defs get_rx_bit_eq get_ry_bit_eq get_rwr_value_eq get_rww_value_eq
    rx_valid_def rwr_valid_def valid_area [symmetric]\<close>)

lemma slave_call_refused:
  assumes "\<not> slave_call_fits (cls_config s) c"
  shows "slave_call c s = Assert_Failed"
  using assms
  by (cases c) (simp_all add: slave_call_defs get_rx_bit_eq get_ry_bit_eq get_rwr_value_eq get_rww_value_eq set_rx_bit_eq set_rwr_value_eq
      rx_valid_def rwr_valid_def div_less_iff_less_mult mult.commute)

interpretation slave_api: strict_api_calls slave_call cls_reachable cls_config slave_call_fits
  by unfold_locales (use slave_call_returns slave_call_refused in auto)

text \<open>What operations keep, calls keep.\<close>

context slave_property
begin

lemma call_keeps:
  assumes "slave_call c s = Returns s'" "P s"
  shows "P s'"
proof (cases c)
  case (Call_Periodic os now sr ir)
  then show ?thesis
    using assms operation_keeps [of "Slmp_Periodic os now sr" s] operation_keeps [of "Periodic now ir" _ s']
    by (auto simp: cls_handle_periodic_def obind_Returns_iff)
next
  case (Call_Stop now err) then show ?thesis using assms operation_keeps [of "Disable now err" s s'] by (simp add: slave_call_defs)
next
  case (Call_Restart now) then show ?thesis using assms operation_keeps [of "Reenable now" s s'] by (simp add: slave_call_defs)
next
  case (Call_Application_Status b)
  then show ?thesis using assms operation_keeps [of "Set_Application_Status b" s s'] by (simp add: slave_call_defs)
next
  case (Call_Management_Info x)
  then show ?thesis using assms operation_keeps [of "Set_Management_Info x" s s'] by (simp add: slave_call_defs)
next
  case (Call_Error_Code x) then show ?thesis using assms operation_keeps [of "Set_Error_Code x" s s'] by (simp add: slave_call_defs)
next
  case (Call_Set_Rx i v) then show ?thesis using assms operation_keeps [of "Set_Rx i v" s s'] by (simp add: slave_call_defs)
next
  case (Call_Set_Rwr i v) then show ?thesis using assms operation_keeps [of "Set_Rwr i v" s s'] by (simp add: slave_call_defs)
qed (use assms in \<open>auto simp: obind_Returns_iff\<close>)

lemma calls_keep: "for_each slave_call cs s = Returns s' \<Longrightarrow> P s \<Longrightarrow> P s'"
  by (rule for_each_keeps [where P = P]) (use call_keeps in auto)

end

text \<open>A started slave has the configuration it was given, and has told the application that there is no master.\<close>

lemma slave_initialised:
  assumes "cls_validate_config max_stations (Some cfg)" "max_stations \<le> 16" "os_udp_open os CL_IPADDR_ANY CL_SLMP_PORT \<noteq> - 1"
  obtains s where "cls_init max_stations True os True (Some memory) (Some cfg) now = Returns (Some s)" "cls_reachable s"
    "cls_state s = CLS_SLAVE_STATE_MASTER_NONE" "cls_config s = cfg" "view_ok s"
proof -
  obtain s where s: "cls_slave_init max_stations True os True (Some cfg) now = Returns (Some s)" "cls_reachable s"
      "cls_state s = CLS_SLAVE_STATE_MASTER_NONE"
    using slave_started_ok [OF assms] by blast
  then obtain s1 where s1: "cls_iefb_init now True (cleared_slave max_stations cfg) = Returns (Some s1)" "s = snd (cls_slmp_init os s1)"
    by (auto simp: cls_slave_init_def Let_def obind_Returns_iff case_prod_unfold split: option.splits if_splits)
  have "view_ok s1" by (rule init_view [OF s1(1)]) (simp add: cleared_slave_def Let_def)
  then have "view_ok s" using view.operation_keeps [of "Slmp_Init os" s1 s] s1(2) by simp
  moreover have "cls_config s1 = cfg"
    using s1(1) by (auto simp: cls_iefb_init_def cls_fsm_init_def cleared_slave_def Let_def obind_Returns_iff continues_def dest!: event_continues)
  then have "cls_config s = cfg" using operation_continues [of "Slmp_Init os" s1 s] s1(2) by (simp add: continues_def)
  ultimately show thesis using that s by (simp add: cls_init_def cls_init_only_def)
qed

end
