(* ===== verification/CL_SLMP_Samples.thy ===== *)
theory CL_SLMP_Samples
  imports CL_SLMP_System CLM_Samples CLM_API CLS_API
begin

text \<open>
  Concrete inputs for SLMP and for the start-up: an operating system on which everything succeeds, a
  platform with a file system that is a map from paths to contents, and the datagrams of a search and of
  a request to set an address.
\<close>

definition sample_os :: cl_os where
  "sample_os = \<lparr>os_get_ifindex = (\<lambda>_. Some 1), os_get_ifname = (\<lambda>_. Some ''eth0''),
     os_get_mac_address = (\<lambda>i. Some (if i = 1 then [1, 2, 3, 4, 5, 6] else [10, 11, 12, 13, 14, 15])),
     os_get_netmask = (\<lambda>_. Some 0xFFFFFF00), os_set_ip_address_netmask = (\<lambda>_ _ _. True),
     os_udp_open = (\<lambda>_ _. 5), os_udp_sendto = (\<lambda>_ _ _ bs. int (length bs))\<rparr>"

definition slmp_master :: clm where
  "slmp_master = blank_master\<lparr>clm_mac_address := [1, 2, 3, 4, 5, 6], clm_node_search_serial := - 1, clm_set_ip_request_serial := - 1,
     clm_node_search_data := \<lparr>db_count = 0, db_stored = 0, db_entries = replicate 2 (slave_entry sample_cfg (replicate 6 0) 0 0)\<rparr>\<rparr>"

definition searching_master :: clm where
  "searching_master = search_started sample_os 0 slmp_master"

definition setting_master :: clm where
  "setting_master = set_ip_started sample_os 0 [10, 11, 12, 13, 14, 15] 0xC0A80317 0xFFFFFF00 slmp_master"

definition to_slave :: "bytes \<Rightarrow> slmp_datagram" where
  "to_slave bs = \<lparr>dg_remote_ip = master_ip, dg_remote_port = 45237, dg_local_ip = slave_ip, dg_ifindex = 2, dg_data = bs\<rparr>"

lemma slmp_master_fields:
  "length (clm_mac_address slmp_master) = 6" "mc_master_id (clm_config slmp_master) = master_ip"
  "slmp_db_wf (clm_node_search_data slmp_master)" "confirms slmp_master" "clm_node_search_serial slmp_master = - 1"
  "clm_set_ip_request_serial slmp_master = - 1" "clm_slmp_request_serial slmp_master = 0" "clm_mac_address slmp_master = [1, 2, 3, 4, 5, 6]"
  by (simp_all add: slmp_master_def blank_master_def sample_master_cfg_def slmp_db_wf_def slmp_db_ok_def confirms_def slave_entry_def)

lemma sample_os_sends: "slmp_sent_ok sample_os bs slmp_master"
  by (simp add: slmp_sent_ok_def slmp_socket_def sample_os_def slmp_master_def blank_master_def sample_master_cfg_def)

lemma sample_search: "clm_slmp_perform_node_search sample_os 0 slmp_master = Returns (True, searching_master)"
  by (simp add: perform_search_eq slmp_master_fields sample_os_sends searching_master_def)

lemma sample_netmask: "cl_utils_is_netmask_valid 0xFFFFFF00" by code_simp

lemma sample_set_ip:
  "clm_slmp_perform_set_ipaddr_request sample_os 0 [10, 11, 12, 13, 14, 15] 0xC0A80317 0xFFFFFF00 slmp_master = Returns (True, setting_master)"
  by (simp add: perform_set_ip_eq slmp_master_fields sample_os_sends setting_master_def sample_netmask CL_IPADDR_INVALID_def)

lemma searching_master_fields:
  "clm_node_search_serial searching_master = 0" "slmp_db_wf (clm_node_search_data searching_master)"
  "clm_mac_address setting_master = clm_mac_address slmp_master" "clm_node_search_serial setting_master = - 1"
  "clm_set_ip_request_serial setting_master = 0"
  using slmp_master_fields sample_os_sends
  by (simp_all add: searching_master_def setting_master_def search_started_def set_ip_started_def Let_def slmp_sent_def slmp_master_def
      clm_slmp_node_search_clear_db_def slmp_db_wf_def slmp_db_ok_def memit_if_def)

lemma blank_slave_slmp:
  "slmp_wf (cls_node_search_data blank_slave)" "\<not> cl_timer_is_running (ns_response_timer (cls_node_search_data blank_slave))"
  "cls_config blank_slave = sample_cfg"
  by (simp_all add: slmp_wf_def blank_slave_def sample_timer_def cl_timer_is_running_def)

lemma sample_os_fields [simp]:
  "os_get_mac_address sample_os 2 = Some [10, 11, 12, 13, 14, 15]" "os_get_netmask sample_os i = Some 0xFFFFFF00"
  "os_udp_open sample_os ip p = 5" "os_set_ip_address_netmask sample_os i ip m" "os_get_ifindex sample_os ip = Some 1"
  by (simp_all add: sample_os_def)

definition map_files :: "(string \<Rightarrow> bytes option) cl_files" where
  "map_files = \<lparr>fl_path_size = 200, fl_backslash = False,
     fl_load = (\<lambda>f p n. case f p of Some bs \<Rightarrow> if length bs = n then Some bs else None | None \<Rightarrow> None),
     fl_save = (\<lambda>f p bs. (True, f(p := Some bs))), fl_clear = (\<lambda>f p. f(p := None))\<rparr>"

definition sample_platform :: "(string \<Rightarrow> bytes option) clm_platform" where
  "sample_platform = \<lparr>pf_max_groups = 1, pf_max_stations = 1, pf_max_nodes = 2, pf_os = sample_os, pf_clal_ok = True, pf_socket_ok = True,
     pf_arbitration_socket_ok = True, pf_clock = sample_clock, pf_files = map_files, pf_directory = ''/nvm''\<rparr>"

lemma sample_platform_ok: "platform_ok sample_platform sample_master_cfg" "files_writable sample_platform"
  by (simp_all add: platform_ok_def sample_platform_def sample_config_valid(1) [simplified] sample_master_cfg_def cl_eth_get_network_settings_def Let_def
      files_writable_def map_files_def files_ok_def joined_path_def CLM_FILENAME_PARAM_NO_def sample_os_def split: option.splits)

end
