(* ===== verification/CL_Literals.thy ===== *)
theory CL_Literals
  imports CLM_State CLS_IEFB
begin

text \<open>
  Names of states, events, errors and results for log messages (\<open>src/common/cl_literals.c\<close>). An enumeration
  can hold a value that is none of its constants; the argument is then \<open>None\<close>.
\<close>

fun cl_literals_get_master_state :: "clm_master_state option \<Rightarrow> string" where
  "cl_literals_get_master_state (Some CLM_MASTER_STATE_DOWN) = ''STATE_DOWN''"
| "cl_literals_get_master_state (Some CLM_MASTER_STATE_STANDBY) = ''STATE_STANDBY''"
| "cl_literals_get_master_state (Some CLM_MASTER_STATE_ARBITRATION) = ''STATE_ARBITRATION''"
| "cl_literals_get_master_state (Some CLM_MASTER_STATE_RUNNING) = ''STATE_RUNNING''"
| "cl_literals_get_master_state None = ''unknown state''"

fun cl_literals_get_group_event :: "clm_group_event option \<Rightarrow> string" where
  "cl_literals_get_group_event (Some CLM_GROUP_EVENT_NONE) = ''EVENT_NONE''"
| "cl_literals_get_group_event (Some CLM_GROUP_EVENT_STARTUP) = ''EVENT_STARTUP''"
| "cl_literals_get_group_event (Some CLM_GROUP_EVENT_PARAMETER_CHANGE) = ''EVENT_PARAMETER_CHANGE''"
| "cl_literals_get_group_event (Some CLM_GROUP_EVENT_NEW_CONFIG) = ''EVENT_NEW_CONFIG''"
| "cl_literals_get_group_event (Some CLM_GROUP_EVENT_ARBITRATION_DONE) = ''EVENT_ARBITRATION_DONE''"
| "cl_literals_get_group_event (Some CLM_GROUP_EVENT_REQ_FROM_OTHER) = ''EVENT_REQ_FROM_OTHER''"
| "cl_literals_get_group_event (Some CLM_GROUP_EVENT_MASTERDUPL_ALARM) = ''EVENT_MASTERDUPL_ALARM''"
| "cl_literals_get_group_event (Some CLM_GROUP_EVENT_LINKSCAN_START) = ''EVENT_LINKSCAN_START''"
| "cl_literals_get_group_event (Some CLM_GROUP_EVENT_LINKSCAN_TIMEOUT) = ''EVENT_LINKSCAN_TIMEOUT''"
| "cl_literals_get_group_event (Some CLM_GROUP_EVENT_LINKSCAN_COMPLETE) = ''EVENT_LINKSCAN_COMPLETE''"
| "cl_literals_get_group_event (Some CLM_GROUP_EVENT_LAST) = ''EVENT_LAST (dummy state)''"
| "cl_literals_get_group_event None = ''unknown event''"

fun cl_literals_get_group_state :: "clm_group_state option \<Rightarrow> string" where
  "cl_literals_get_group_state (Some CLM_GROUP_STATE_MASTER_DOWN) = ''STATE_MASTER_DOWN''"
| "cl_literals_get_group_state (Some CLM_GROUP_STATE_MASTER_LISTEN) = ''STATE_MASTER_LISTEN''"
| "cl_literals_get_group_state (Some CLM_GROUP_STATE_MASTER_ARBITRATION) = ''STATE_MASTER_ARBITRATION''"
| "cl_literals_get_group_state (Some CLM_GROUP_STATE_MASTER_LINK_SCAN_COMP) = ''STATE_MASTER_LINK_SCAN_COMP''"
| "cl_literals_get_group_state (Some CLM_GROUP_STATE_MASTER_LINK_SCAN) = ''STATE_MASTER_LINK_SCAN''"
| "cl_literals_get_group_state (Some CLM_GROUP_STATE_LAST) = ''STATE_LAST (dummy state)''"
| "cl_literals_get_group_state None = ''unknown state''"

fun cl_literals_get_device_state :: "clm_device_state option \<Rightarrow> string" where
  "cl_literals_get_device_state (Some CLM_DEVICE_STATE_MASTER_DOWN) = ''STATE_MASTER_DOWN''"
| "cl_literals_get_device_state (Some CLM_DEVICE_STATE_LISTEN) = ''STATE_LISTEN''"
| "cl_literals_get_device_state (Some CLM_DEVICE_STATE_WAIT_TD) = ''STATE_WAIT_TD''"
| "cl_literals_get_device_state (Some CLM_DEVICE_STATE_CYCLIC_SUSPEND) = ''STATE_CYCLIC_SUSPEND''"
| "cl_literals_get_device_state (Some CLM_DEVICE_STATE_CYCLIC_SENT) = ''STATE_CYCLIC_SENT''"
| "cl_literals_get_device_state (Some CLM_DEVICE_STATE_CYCLIC_SENDING) = ''STATE_CYCLIC_SENDING''"
| "cl_literals_get_device_state (Some CLM_DEVICE_STATE_LAST) = ''STATE_LAST (dummy state)''"
| "cl_literals_get_device_state None = ''unknown state''"

fun cl_literals_get_device_event :: "clm_device_event option \<Rightarrow> string" where
  "cl_literals_get_device_event (Some CLM_DEVICE_EVENT_NONE) = ''EVENT_NONE (dummy state)''"
| "cl_literals_get_device_event (Some CLM_DEVICE_EVENT_GROUP_STARTUP) = ''EVENT_GROUP_STARTUP''"
| "cl_literals_get_device_event (Some CLM_DEVICE_EVENT_GROUP_STANDBY) = ''EVENT_GROUP_STANDBY''"
| "cl_literals_get_device_event (Some CLM_DEVICE_EVENT_GROUP_TIMEOUT) = ''EVENT_GROUP_TIMEOUT''"
| "cl_literals_get_device_event (Some CLM_DEVICE_EVENT_GROUP_ALL_RESPONDED) = ''EVENT_GROUP_ALL_RESPONDED''"
| "cl_literals_get_device_event (Some CLM_DEVICE_EVENT_RECEIVE_OK) = ''EVENT_RECEIVE_OK''"
| "cl_literals_get_device_event (Some CLM_DEVICE_EVENT_RECEIVE_ERROR) = ''EVENT_RECEIVE_ERROR''"
| "cl_literals_get_device_event (Some CLM_DEVICE_EVENT_SCAN_START_DEVICE_START) = ''EVENT_SCAN_START_DEVICE_START''"
| "cl_literals_get_device_event (Some CLM_DEVICE_EVENT_SCAN_START_DEVICE_STOP) = ''EVENT_SCAN_START_DEVICE_STOP''"
| "cl_literals_get_device_event (Some CLM_DEVICE_EVENT_TIMEOUTCOUNTER_FULL) = ''EVENT_TIMEOUTCOUNTER_FULL''"
| "cl_literals_get_device_event (Some CLM_DEVICE_EVENT_TIMEOUTCOUNTER_NOT_FULL) = ''EVENT_TIMEOUTCOUNTER_NOT_FULL''"
| "cl_literals_get_device_event (Some CLM_DEVICE_EVENT_SLAVE_DUPLICATION) = ''EVENT_SLAVE_DUPLICATION''"
| "cl_literals_get_device_event (Some CLM_DEVICE_EVENT_LAST) = ''EVENT_LAST (dummy state)''"
| "cl_literals_get_device_event None = ''unknown event''"

fun cl_literals_get_master_error_message :: "clm_error_message option \<Rightarrow> string" where
  "cl_literals_get_master_error_message (Some CLM_ERROR_ARBITRATION_FAILED) = ''ARBITRATION_FAILED''"
| "cl_literals_get_master_error_message (Some CLM_ERROR_SLAVE_DUPLICATION) = ''SLAVE_DUPLICATION''"
| "cl_literals_get_master_error_message (Some CLM_ERROR_SLAVE_REPORTS_WRONG_NUMBER_OCCUPIED) = ''SLAVE_REPORTS_WRONG_NUMBER_OCCUPIED''"
| "cl_literals_get_master_error_message (Some CLM_ERROR_SLAVE_REPORTS_MASTER_DUPLICATION) = ''SLAVE_REPORTS_MASTER_DUPLICATION''"
| "cl_literals_get_master_error_message None = ''unknown error''"

fun cl_literals_get_master_set_ip_result :: "clm_master_setip_status option \<Rightarrow> string" where
  "cl_literals_get_master_set_ip_result (Some CLM_MASTER_SET_IP_STATUS_SUCCESS) = ''STATUS_SUCCESS''"
| "cl_literals_get_master_set_ip_result (Some CLM_MASTER_SET_IP_STATUS_ERROR) = ''STATUS_ERROR''"
| "cl_literals_get_master_set_ip_result (Some CLM_MASTER_SET_IP_STATUS_TIMEOUT) = ''STATUS_TIMEOUT''"
| "cl_literals_get_master_set_ip_result None = ''unknown result''"

fun cl_literals_get_slave_error_message :: "cls_error_message option \<Rightarrow> string" where
  "cl_literals_get_slave_error_message (Some CLS_ERROR_SLAVE_STATION_DUPLICATION) = ''SLAVE_STATION_DUPLICATION''"
| "cl_literals_get_slave_error_message (Some CLS_ERROR_MASTER_STATION_DUPLICATION) = ''MASTER_STATION_DUPLICATION''"
| "cl_literals_get_slave_error_message (Some CLS_ERROR_WRONG_NUMBER_OCCUPIED) = ''WRONG_NUMBER_OCCUPIED''"
| "cl_literals_get_slave_error_message None = ''unknown error''"

fun cl_literals_get_slave_state :: "cls_slave_state option \<Rightarrow> string" where
  "cl_literals_get_slave_state (Some CLS_SLAVE_STATE_SLAVE_DOWN) = ''STATE_SLAVE_DOWN''"
| "cl_literals_get_slave_state (Some CLS_SLAVE_STATE_MASTER_NONE) = ''STATE_MASTER_NONE''"
| "cl_literals_get_slave_state (Some CLS_SLAVE_STATE_MASTER_CONTROL) = ''STATE_MASTER_CONTROL''"
| "cl_literals_get_slave_state (Some CLS_SLAVE_STATE_SLAVE_DISABLED) = ''STATE_SLAVE_DISABLED''"
| "cl_literals_get_slave_state (Some CLS_SLAVE_STATE_WAIT_DISABLING_SLAVE) = ''STATE_WAIT_DISABLING_SLAVE''"
| "cl_literals_get_slave_state (Some CLS_SLAVE_STATE_LAST) = ''STATE_LAST (dummy state)''"
| "cl_literals_get_slave_state None = ''unknown state''"

fun cl_literals_get_slave_event :: "cls_slave_event option \<Rightarrow> string" where
  "cl_literals_get_slave_event (Some CLS_SLAVE_EVENT_NONE) = ''EVENT_NONE (dummy state)''"
| "cl_literals_get_slave_event (Some CLS_SLAVE_EVENT_STARTUP) = ''EVENT_STARTUP''"
| "cl_literals_get_slave_event (Some CLS_SLAVE_EVENT_CYCLIC_NEW_MASTER) = ''EVENT_CYCLIC_NEW_MASTER''"
| "cl_literals_get_slave_event (Some CLS_SLAVE_EVENT_CYCLIC_CORRECT_MASTER) = ''EVENT_CYCLIC_CORRECT_MASTER''"
| "cl_literals_get_slave_event (Some CLS_SLAVE_EVENT_CYCLIC_WRONG_MASTER) = ''EVENT_CYCLIC_WRONG_MASTER''"
| "cl_literals_get_slave_event (Some CLS_SLAVE_EVENT_CYCLIC_WRONG_STATIONCOUNT) = ''EVENT_CYCLIC_WRONG_STATIONCOUNT''"
| "cl_literals_get_slave_event (Some CLS_SLAVE_EVENT_CYCLIC_INCOMING_WHEN_DISABLED) = ''EVENT_CYCLIC_INCOMING_WHEN_DISABLED''"
| "cl_literals_get_slave_event (Some CLS_SLAVE_EVENT_TIMEOUT_MASTER) = ''EVENT_TIMEOUT_MASTER''"
| "cl_literals_get_slave_event (Some CLS_SLAVE_EVENT_REENABLE_SLAVE) = ''EVENT_REENABLE_SLAVE''"
| "cl_literals_get_slave_event (Some CLS_SLAVE_EVENT_DISABLE_SLAVE) = ''EVENT_DISABLE_SLAVE''"
| "cl_literals_get_slave_event (Some CLS_SLAVE_EVENT_DISABLE_SLAVE_WAIT_ENDED) = ''EVENT_DISABLE_SLAVE_WAIT_ENDED''"
| "cl_literals_get_slave_event (Some CLS_SLAVE_EVENT_IP_UPDATED) = ''EVENT_IP_UPDATED''"
| "cl_literals_get_slave_event (Some CLS_SLAVE_EVENT_LAST) = ''EVENT_LAST (dummy state)''"
| "cl_literals_get_slave_event None = ''unknown event''"

text \<open>A name in a log message stands for one value only.\<close>

locale literal_names =
  fixes name_of :: "'e option \<Rightarrow> string"
  assumes names_differ: "name_of x = name_of y \<Longrightarrow> x = y"
begin

lemma same_log: "map name_of xs = map name_of ys \<longleftrightarrow> xs = ys"
  using names_differ by (metis inj_on_def inj_map_eq_map)

end

interpretation master_state_names: literal_names cl_literals_get_master_state
proof
  show "x = y" if "cl_literals_get_master_state x = cl_literals_get_master_state y" for x y
    using that by (cases x rule: cl_literals_get_master_state.cases; cases y rule: cl_literals_get_master_state.cases) simp_all
qed

interpretation group_event_names: literal_names cl_literals_get_group_event
proof
  show "x = y" if "cl_literals_get_group_event x = cl_literals_get_group_event y" for x y
    using that by (cases x rule: cl_literals_get_group_event.cases; cases y rule: cl_literals_get_group_event.cases) simp_all
qed

interpretation group_state_names: literal_names cl_literals_get_group_state
proof
  show "x = y" if "cl_literals_get_group_state x = cl_literals_get_group_state y" for x y
    using that by (cases x rule: cl_literals_get_group_state.cases; cases y rule: cl_literals_get_group_state.cases) simp_all
qed

interpretation device_state_names: literal_names cl_literals_get_device_state
proof
  show "x = y" if "cl_literals_get_device_state x = cl_literals_get_device_state y" for x y
    using that by (cases x rule: cl_literals_get_device_state.cases; cases y rule: cl_literals_get_device_state.cases) simp_all
qed

interpretation device_event_names: literal_names cl_literals_get_device_event
proof
  show "x = y" if "cl_literals_get_device_event x = cl_literals_get_device_event y" for x y
    using that by (cases x rule: cl_literals_get_device_event.cases; cases y rule: cl_literals_get_device_event.cases) simp_all
qed

interpretation master_error_message_names: literal_names cl_literals_get_master_error_message
proof
  show "x = y" if "cl_literals_get_master_error_message x = cl_literals_get_master_error_message y" for x y
    using that by (cases x rule: cl_literals_get_master_error_message.cases; cases y rule: cl_literals_get_master_error_message.cases) simp_all
qed

interpretation master_set_ip_result_names: literal_names cl_literals_get_master_set_ip_result
proof
  show "x = y" if "cl_literals_get_master_set_ip_result x = cl_literals_get_master_set_ip_result y" for x y
    using that by (cases x rule: cl_literals_get_master_set_ip_result.cases; cases y rule: cl_literals_get_master_set_ip_result.cases) simp_all
qed

interpretation slave_error_message_names: literal_names cl_literals_get_slave_error_message
proof
  show "x = y" if "cl_literals_get_slave_error_message x = cl_literals_get_slave_error_message y" for x y
    using that by (cases x rule: cl_literals_get_slave_error_message.cases; cases y rule: cl_literals_get_slave_error_message.cases) simp_all
qed

interpretation slave_state_names: literal_names cl_literals_get_slave_state
proof
  show "x = y" if "cl_literals_get_slave_state x = cl_literals_get_slave_state y" for x y
    using that by (cases x rule: cl_literals_get_slave_state.cases; cases y rule: cl_literals_get_slave_state.cases) simp_all
qed

interpretation slave_event_names: literal_names cl_literals_get_slave_event
proof
  show "x = y" if "cl_literals_get_slave_event x = cl_literals_get_slave_event y" for x y
    using that by (cases x rule: cl_literals_get_slave_event.cases; cases y rule: cl_literals_get_slave_event.cases) simp_all
qed

end
