(* ===== verification/App_Slave.thy ===== *)
theory App_Slave
  imports CLS_API
begin

text \<open>
  The sample application of the slave (\<open>sample_apps/cl_sample_slave_common.c\<close>): a button and a counter of its
  presses are sent to the master, and an LED shows a bit that the master sends.

  The buttons (\<open>app_get_button\<close>) and the events of the timer belong to the platform: a run of the thread is a
  list of ticks, and each tick has the values of the buttons, the times that the calls of the stack read and
  the datagrams that they receive. Calls of \<open>app_set_led\<close> and the reaction to the number 42 are kept in a
  trace. The callbacks do not call functions that change the stack, so they run on the entries that a call
  has added to the trace of the stack; all but \<open>app_master_state_ind\<close> only print.
\<close>

section \<open>Definitions\<close>

definition APP_RX_NUMBER :: u16 where "APP_RX_NUMBER = 0"
definition APP_RY_NUMBER :: u16 where "APP_RY_NUMBER = 16"
definition APP_RWR_NUMBER :: u16 where "APP_RWR_NUMBER = 0"
definition APP_RWW_NUMBER :: u16 where "APP_RWW_NUMBER = 0"
definition APP_VENDOR_CODE :: u16 where "APP_VENDOR_CODE = 0x1067"
definition APP_MODEL_CODE :: u32 where "APP_MODEL_CODE = 0x87654321"
definition APP_EQUIPMENT_VER :: u16 where "APP_EQUIPMENT_VER = 2"
definition APP_BUTTON_READ_TICKS :: u16 where "APP_BUTTON_READ_TICKS = 100"
definition APP_LOCAL_MANGAGEMENT_INFO :: u32 where "APP_LOCAL_MANGAGEMENT_INFO = 0x64656667"

datatype app_slave_demostate = APP_SLAVE_DEMOSTATE_NORMAL | APP_SLAVE_DEMOSTATE_ERRORCODE_A
  | APP_SLAVE_DEMOSTATE_ERRORCODE_B | APP_SLAVE_DEMOSTATE_NO_ERRORCODE | APP_SLAVE_DEMOSTATE_DISABLE_SLAVE
  | APP_SLAVE_DEMOSTATE_ENABLE_SLAVE

datatype app_output = Set_Led bool | Fourtytwo

record app_slave_data =
  app_cls :: cls
  app_master_running :: bool
  app_demo_state :: app_slave_demostate
  app_previous_led_state :: bool
  app_out :: "app_output list"

definition app_handle_data_led_state :: "bool \<Rightarrow> app_slave_data \<Rightarrow> app_slave_data" where
  "app_handle_data_led_state led_state appdata =
     (let appdata = (if led_state \<noteq> app_previous_led_state appdata
                     then appdata\<lparr>app_out := app_out appdata @ [Set_Led led_state]\<rparr> else appdata)
      in appdata\<lparr>app_previous_led_state := led_state\<rparr>)"

definition app_set_default_outputs :: "app_slave_data \<Rightarrow> app_slave_data" where
  "app_set_default_outputs appdata = app_handle_data_led_state False appdata"

definition app_master_state_ind :: "bool \<Rightarrow> app_slave_data \<Rightarrow> app_slave_data" where
  "app_master_state_ind connected_and_running appdata =
     (let appdata = appdata\<lparr>app_master_running := connected_and_running\<rparr>
      in if app_master_running appdata = False then app_set_default_outputs appdata else appdata)"

definition app_callbacks :: "cls_output list \<Rightarrow> app_slave_data \<Rightarrow> app_slave_data" where
  "app_callbacks outs appdata = fold (\<lambda>x appdata. case running_told x of
     Some connected_and_running \<Rightarrow> app_master_state_ind connected_and_running appdata | None \<Rightarrow> appdata) outs appdata"

text \<open>A call of the stack, with the callbacks it makes.\<close>

definition app_call :: "(cls option \<Rightarrow> cls outcome) \<Rightarrow> app_slave_data \<Rightarrow> app_slave_data outcome" where
  "app_call f appdata = obind (f (Some (app_cls appdata))) (\<lambda>cls.
     Returns (app_callbacks (drop (length (cls_out (app_cls appdata))) (cls_out cls)) (appdata\<lparr>app_cls := cls\<rparr>)))"

fun next_demo_state :: "app_slave_demostate \<Rightarrow> app_slave_demostate" where
  "next_demo_state APP_SLAVE_DEMOSTATE_NORMAL = APP_SLAVE_DEMOSTATE_ERRORCODE_A"
| "next_demo_state APP_SLAVE_DEMOSTATE_ERRORCODE_A = APP_SLAVE_DEMOSTATE_ERRORCODE_B"
| "next_demo_state APP_SLAVE_DEMOSTATE_ERRORCODE_B = APP_SLAVE_DEMOSTATE_NO_ERRORCODE"
| "next_demo_state APP_SLAVE_DEMOSTATE_NO_ERRORCODE = APP_SLAVE_DEMOSTATE_DISABLE_SLAVE"
| "next_demo_state APP_SLAVE_DEMOSTATE_DISABLE_SLAVE = APP_SLAVE_DEMOSTATE_ENABLE_SLAVE"
| "next_demo_state APP_SLAVE_DEMOSTATE_ENABLE_SLAVE = APP_SLAVE_DEMOSTATE_NORMAL"

definition app_update_state :: "u32 \<Rightarrow> app_slave_data \<Rightarrow> app_slave_data outcome" where
  "app_update_state now appdata =
     (let appdata = appdata\<lparr>app_demo_state := next_demo_state (app_demo_state appdata)\<rparr>
      in case app_demo_state appdata of
        APP_SLAVE_DEMOSTATE_ERRORCODE_B \<Rightarrow> app_call (cls_set_slave_error_code (0 + 0x001 + 0x0300)) appdata
      | APP_SLAVE_DEMOSTATE_ERRORCODE_A \<Rightarrow> app_call (cls_set_slave_error_code (0 + 0x0300)) appdata
      | APP_SLAVE_DEMOSTATE_NO_ERRORCODE \<Rightarrow> app_call (cls_set_slave_error_code 0) appdata
      | APP_SLAVE_DEMOSTATE_DISABLE_SLAVE \<Rightarrow> app_call (cls_stop_cyclic_data now False) appdata
      | APP_SLAVE_DEMOSTATE_ENABLE_SLAVE \<Rightarrow> app_call (cls_restart_cyclic_data now) appdata
      | APP_SLAVE_DEMOSTATE_NORMAL \<Rightarrow> Returns appdata)"

record app_tick =
  tk_os :: cl_os
  tk_now :: u32
  tk_slmp_received :: "slmp_datagram option"
  tk_iefb_received :: "datagram option"
  tk_data_button :: bool
  tk_alarm_button :: bool
  tk_later :: u32

text \<open>The local variables of \<open>app_thread\<close> that live across iterations.\<close>

record app_thread_data =
  th_button_read_counter :: u16
  th_button_press_counter :: u16
  th_input_value_data_button :: bool
  th_input_value_alarm_button :: bool
  th_previous_counter_answer :: u16
  th_previous_data_button :: bool
  th_previous_alarm_button :: bool

definition read_buttons :: "app_tick \<Rightarrow> app_thread_data \<Rightarrow> app_thread_data" where
  "read_buttons tick th =
     (let th = th\<lparr>th_button_read_counter := th_button_read_counter th + 1\<rparr>
      in if th_button_read_counter th > APP_BUTTON_READ_TICKS
         then th\<lparr>th_button_read_counter := 0, th_input_value_data_button := tk_data_button tick,
                 th_input_value_alarm_button := tk_alarm_button tick\<rparr>
         else th)"

definition count_presses :: "app_thread_data \<Rightarrow> app_thread_data" where
  "count_presses th =
     (let th = (if th_input_value_data_button th = True \<and> th_input_value_data_button th \<noteq> th_previous_data_button th
                then th\<lparr>th_button_press_counter := th_button_press_counter th + 1\<rparr> else th)
      in th\<lparr>th_previous_data_button := th_input_value_data_button th\<rparr>)"

definition app_exchange :: "app_slave_data \<times> app_thread_data \<Rightarrow> (app_slave_data \<times> app_thread_data) outcome" where
  "app_exchange = (\<lambda>(appdata, th).
     obind (cls_get_ry_bit APP_RY_NUMBER (Some (app_cls appdata))) (\<lambda>output_value_led.
     obind (cls_get_rww_value APP_RWW_NUMBER (Some (app_cls appdata))) (\<lambda>counter_answer.
     obind (app_call (cls_set_rx_bit APP_RX_NUMBER (th_input_value_data_button th)) appdata) (\<lambda>appdata.
     obind (app_call (cls_set_rwr_value APP_RWR_NUMBER (th_button_press_counter th)) appdata) (\<lambda>appdata.
       let appdata = (if counter_answer \<noteq> th_previous_counter_answer th \<and> counter_answer = 42
                      then appdata\<lparr>app_out := app_out appdata @ [Fourtytwo]\<rparr> else appdata);
           th = th\<lparr>th_previous_counter_answer := counter_answer\<rparr>
       in Returns (app_handle_data_led_state output_value_led appdata, th))))))"

definition app_thread_tick ::
  "app_tick \<Rightarrow> app_slave_data \<times> app_thread_data \<Rightarrow> (app_slave_data \<times> app_thread_data) outcome" where
  "app_thread_tick tick = (\<lambda>(appdata, th).
     obind (app_call (cls_handle_periodic (tk_os tick) (tk_now tick) (tk_slmp_received tick) (tk_iefb_received tick)) appdata) (\<lambda>appdata.
       let th = count_presses (read_buttons tick th) in
     obind (if th_input_value_alarm_button th = True \<and> th_input_value_alarm_button th \<noteq> th_previous_alarm_button th
            then app_update_state (tk_later tick) appdata else Returns appdata) (\<lambda>appdata.
       let th = th\<lparr>th_previous_alarm_button := th_input_value_alarm_button th\<rparr> in
     if app_master_running appdata then app_exchange (appdata, th) else Returns (appdata, th))))"

definition app_thread :: "app_tick list \<Rightarrow> app_slave_data \<Rightarrow> (app_slave_data \<times> app_thread_data) outcome" where
  "app_thread ticks appdata =
     (let appdata = appdata\<lparr>app_demo_state := APP_SLAVE_DEMOSTATE_NORMAL, app_out := app_out appdata @ [Set_Led False]\<rparr>;
          th = \<lparr>th_button_read_counter = 0, th_button_press_counter = 0, th_input_value_data_button = False,
            th_input_value_alarm_button = False, th_previous_counter_answer = 0, th_previous_data_button = False,
            th_previous_alarm_button = False\<rparr>
      in obind (app_call (cls_set_local_management_info APP_LOCAL_MANGAGEMENT_INFO) appdata) (\<lambda>appdata.
         for_each app_thread_tick ticks (appdata, th)))"

definition app_slave_main ::
  "nat \<Rightarrow> bool \<Rightarrow> cl_os \<Rightarrow> bool \<Rightarrow> cls option \<Rightarrow> cls_cfg \<Rightarrow> u32 \<Rightarrow> app_slave_data option outcome" where
  "app_slave_main max_stations clal_ok os iefb_socket_opened memory cfg now =
     (let cfg = cfg\<lparr>cfg_vendor_code := APP_VENDOR_CODE, cfg_model_code := APP_MODEL_CODE,
            cfg_equipment_ver := APP_EQUIPMENT_VER, cfg_ip_setting_allowed := True, cfg_state_cb := True,
            cfg_error_cb := True, cfg_connect_cb := True, cfg_disconnect_cb := True, cfg_master_running_cb := True,
            cfg_node_search_cb := True, cfg_set_ip_cb := True\<rparr>
      in obind (cls_init max_stations clal_ok os iefb_socket_opened memory (Some cfg) now) (\<lambda>initialised.
         case initialised of None \<Rightarrow> Returns None
         | Some cls \<Rightarrow> Returns (Some (app_callbacks (cls_out cls)
             \<lparr>app_cls = cls, app_master_running = False, app_demo_state = APP_SLAVE_DEMOSTATE_NORMAL,
              app_previous_led_state = False, app_out = []\<rparr>))))"

section \<open>The LED\<close>

definition led_shown :: "app_output list \<Rightarrow> bool" where
  "led_shown outs = fold (\<lambda>x led. case x of Set_Led b \<Rightarrow> b | Fourtytwo \<Rightarrow> led) outs False"

lemma led_shown_simps [simp]:
  "led_shown [] = False" "led_shown (outs @ [Set_Led b]) = b" "led_shown (outs @ [Fourtytwo]) = led_shown outs"
  by (simp_all add: led_shown_def)

text \<open>The application knows what the stack told it, and the LED is dark unless the master runs.\<close>

definition app_ok :: "app_slave_data \<Rightarrow> bool" where
  "app_ok a \<longleftrightarrow> cls_reachable (app_cls a) \<and> view_ok (app_cls a) \<and> cfg_master_running_cb (cls_config (app_cls a)) \<and>
     app_master_running a = told running_told False (cls_out (app_cls a)) \<and>
     led_shown (app_out a) = app_previous_led_state a \<and> (app_previous_led_state a \<longrightarrow> app_master_running a)"

lemma callbacks_ok:
  assumes "led_shown (app_out a) = app_previous_led_state a" "app_previous_led_state a \<longrightarrow> app_master_running a"
  shows "led_shown (app_out (app_callbacks outs a)) = app_previous_led_state (app_callbacks outs a)"
    "app_previous_led_state (app_callbacks outs a) \<longrightarrow> app_master_running (app_callbacks outs a)"
    "app_master_running (app_callbacks outs a) = told running_told (app_master_running a) outs"
    "app_cls (app_callbacks outs a) = app_cls a"
proof -
  have "led_shown (app_out (app_callbacks outs a)) = app_previous_led_state (app_callbacks outs a) \<and>
    (app_previous_led_state (app_callbacks outs a) \<longrightarrow> app_master_running (app_callbacks outs a)) \<and>
    app_master_running (app_callbacks outs a) = told running_told (app_master_running a) outs \<and>
    app_cls (app_callbacks outs a) = app_cls a"
    using assms
  proof (induction outs arbitrary: a)
    case (Cons x outs)
    let ?b = "case running_told x of Some b \<Rightarrow> app_master_state_ind b a | None \<Rightarrow> a"
    have "led_shown (app_out ?b) = app_previous_led_state ?b" "app_previous_led_state ?b \<longrightarrow> app_master_running ?b"
      "app_master_running ?b = (case running_told x of Some b \<Rightarrow> b | None \<Rightarrow> app_master_running a)" "app_cls ?b = app_cls a"
      using Cons.prems by (auto simp: app_master_state_ind_def app_set_default_outputs_def app_handle_data_led_state_def Let_def split: option.split)
    moreover have "app_callbacks (x # outs) a = app_callbacks outs ?b" by (simp add: app_callbacks_def)
    ultimately show ?case using Cons.IH [of ?b] by auto
  qed (simp add: app_callbacks_def)
  then show "led_shown (app_out (app_callbacks outs a)) = app_previous_led_state (app_callbacks outs a)"
    "app_previous_led_state (app_callbacks outs a) \<longrightarrow> app_master_running (app_callbacks outs a)"
    "app_master_running (app_callbacks outs a) = told running_told (app_master_running a) outs"
    "app_cls (app_callbacks outs a) = app_cls a" by blast+
qed

lemma app_call_ok:
  assumes a: "app_ok a" and f: "f (Some (app_cls a)) = slave_call c (app_cls a)" and fits: "slave_call_fits (cls_config (app_cls a)) c"
  shows "\<exists>a'. app_call f a = Returns a' \<and> app_ok a' \<and> slave_call c (app_cls a) = Returns (app_cls a')"
proof -
  let ?s = "app_cls a"
  obtain s' where s': "slave_call c ?s = Returns s'" "cls_reachable s'" "cls_config s' = cls_config ?s"
    using slave_call_returns [OF _ fits] a by (auto simp: app_ok_def)
  have "continues ?s s'" by (rule continues.call_keeps [OF s'(1)]) (simp add: continues_def)
  then obtain outs where outs: "cls_out s' = cls_out ?s @ outs" by (auto simp: continues_def)
  let ?a = "app_callbacks outs (a\<lparr>app_cls := s'\<rparr>)"
  have "view_ok s'" using view.call_keeps [OF s'(1)] a by (simp add: app_ok_def)
  moreover have "led_shown (app_out (a\<lparr>app_cls := s'\<rparr>)) = app_previous_led_state (a\<lparr>app_cls := s'\<rparr>)"
    "app_previous_led_state (a\<lparr>app_cls := s'\<rparr>) \<longrightarrow> app_master_running (a\<lparr>app_cls := s'\<rparr>)" using a by (auto simp: app_ok_def)
  note cb = callbacks_ok [OF this, of outs]
  ultimately have "app_ok ?a" using a s' outs cb by (auto simp: app_ok_def)
  moreover have "app_call f a = Returns ?a" using f s'(1) outs by (simp add: app_call_def)
  ultimately show ?thesis using s'(1) cb(4) by auto
qed


lemma led_state_ok: "app_ok a \<Longrightarrow> led \<longrightarrow> app_master_running a \<Longrightarrow> app_ok (app_handle_data_led_state led a)"
  by (auto simp: app_ok_def app_handle_data_led_state_def Let_def)

lemma led_state_fields:
  "app_cls (app_handle_data_led_state led a) = app_cls a" "app_master_running (app_handle_data_led_state led a) = app_master_running a"
  "app_previous_led_state (app_handle_data_led_state led a) = led"
  by (simp_all add: app_handle_data_led_state_def Let_def)

lemma update_state_ok:
  assumes "app_ok a"
  shows "\<exists>a'. app_update_state now a = Returns a' \<and> app_ok a'"
proof -
  let ?a = "a\<lparr>app_demo_state := next_demo_state (app_demo_state a)\<rparr>"
  have a: "app_ok ?a" using assms by (auto simp: app_ok_def)
  have "\<exists>a'. app_call (cls_set_slave_error_code code) ?a = Returns a' \<and> app_ok a'" for code
    using app_call_ok [OF a, of "cls_set_slave_error_code code" "Call_Error_Code code"] by auto
  moreover have "\<exists>a'. app_call (cls_stop_cyclic_data now False) ?a = Returns a' \<and> app_ok a'"
    using app_call_ok [OF a, of "cls_stop_cyclic_data now False" "Call_Stop now False"] by auto
  moreover have "\<exists>a'. app_call (cls_restart_cyclic_data now) ?a = Returns a' \<and> app_ok a'"
    using app_call_ok [OF a, of "cls_restart_cyclic_data now" "Call_Restart now"] by auto
  ultimately show ?thesis using a by (cases "next_demo_state (app_demo_state a)") (simp_all add: app_update_state_def Let_def)
qed

text \<open>The LED shows the bit that the master sent.\<close>

definition led_agrees :: "app_slave_data \<Rightarrow> bool" where
  "led_agrees a \<longleftrightarrow> app_previous_led_state a =
     (app_master_running a \<and> cls_get_ry_bit APP_RY_NUMBER (Some (app_cls a)) = Returns True)"

lemma app_okD:
  assumes "app_ok a" "led_agrees a"
  shows "led_shown (app_out a) = (app_master_running a \<and> cls_get_ry_bit APP_RY_NUMBER (Some (app_cls a)) = Returns True)"
    "app_master_running a \<Longrightarrow> cls_state (app_cls a) = CLS_SLAVE_STATE_MASTER_CONTROL"
proof -
  show "led_shown (app_out a) = (app_master_running a \<and> cls_get_ry_bit APP_RY_NUMBER (Some (app_cls a)) = Returns True)"
    using assms unfolding app_ok_def led_agrees_def by blast
  show "cls_state (app_cls a) = CLS_SLAVE_STATE_MASTER_CONTROL" if "app_master_running a"
    using assms(1) that view_okD(3) [of "app_cls a"] unfolding app_ok_def by blast
qed

lemma app_signals_fit:
  assumes "app_ok a"
  shows "slave_call_fits (cls_config (app_cls a)) (Call_Set_Rx APP_RX_NUMBER v)" "slave_call_fits (cls_config (app_cls a)) (Call_Set_Rwr APP_RWR_NUMBER w)"
    "rx_valid APP_RY_NUMBER (app_cls a)" "rwr_valid APP_RWW_NUMBER (app_cls a)"
  using reachable_inv [of "app_cls a"] assms
  by (simp_all add: app_ok_def cls_inv_def base_inv_def config_inv_def rx_valid_def rwr_valid_def
      APP_RX_NUMBER_def APP_RY_NUMBER_def APP_RWR_NUMBER_def APP_RWW_NUMBER_def)

lemma set_signals_fields:
  "cls_iefb_set_rx_bit i v s = Returns s' \<Longrightarrow> cls_ry s' = cls_ry s \<and> cls_config s' = cls_config s \<and> cls_out s' = cls_out s"
  "cls_iefb_set_rwr_value i w s = Returns s' \<Longrightarrow> cls_ry s' = cls_ry s \<and> cls_config s' = cls_config s \<and> cls_out s' = cls_out s"
  by (auto simp: cls_iefb_set_rx_bit_def cls_iefb_set_rwr_value_def Let_def outcome_simps split: prod.splits if_splits)

lemma exchange_ok:
  assumes a: "app_ok a" and running: "app_master_running a"
  shows "\<exists>a' th'. app_exchange (a, th) = Returns (a', th') \<and> app_ok a' \<and> led_agrees a'"
proof -
  obtain led where led: "cls_get_ry_bit APP_RY_NUMBER (Some (app_cls a)) = Returns led"
    using app_signals_fit(3) [OF a] by (simp add: cls_get_ry_bit_def get_ry_bit_eq)
  obtain answer where answer: "cls_get_rww_value APP_RWW_NUMBER (Some (app_cls a)) = Returns answer"
    using app_signals_fit(4) [OF a] by (simp add: cls_get_rww_value_def get_rww_value_eq)
  let ?v = "th_input_value_data_button th" and ?w = "th_button_press_counter th"
  obtain b where b: "app_call (cls_set_rx_bit APP_RX_NUMBER ?v) a = Returns b" "app_ok b"
      "cls_iefb_set_rx_bit APP_RX_NUMBER ?v (app_cls a) = Returns (app_cls b)"
    using app_call_ok [OF a _ app_signals_fit(1) [OF a], of "cls_set_rx_bit APP_RX_NUMBER ?v" ?v] by (auto simp: cls_set_rx_bit_def)
  obtain c where c: "app_call (cls_set_rwr_value APP_RWR_NUMBER ?w) b = Returns c" "app_ok c"
      "cls_iefb_set_rwr_value APP_RWR_NUMBER ?w (app_cls b) = Returns (app_cls c)"
    using app_call_ok [OF b(2) _ app_signals_fit(2) [OF b(2)], of "cls_set_rwr_value APP_RWR_NUMBER ?w" ?w] by (auto simp: cls_set_rwr_value_def)
  note f = set_signals_fields(1) [OF b(3)] set_signals_fields(2) [OF c(3)]
  have run: "app_master_running c" using running a b(2) c(2) f by (simp add: app_ok_def)
  have ry: "cls_get_ry_bit APP_RY_NUMBER (Some (app_cls c)) = Returns led"
    using led f by (simp add: cls_get_ry_bit_def get_ry_bit_eq rx_valid_def split: if_splits)
  let ?c = "if answer \<noteq> th_previous_counter_answer th \<and> answer = 42 then c\<lparr>app_out := app_out c @ [Fourtytwo]\<rparr> else c"
  have c': "app_ok ?c" "app_cls ?c = app_cls c" "app_master_running ?c" using c(2) run by (auto simp: app_ok_def)
  have "app_exchange (a, th) = Returns (app_handle_data_led_state led ?c, th\<lparr>th_previous_counter_answer := answer\<rparr>)"
    using led answer b(1) c(1) by (simp add: app_exchange_def Let_def)
  moreover have "led_agrees (app_handle_data_led_state led ?c)" using c' ry by (simp add: led_agrees_def led_state_fields)
  ultimately show ?thesis using led_state_ok [OF c'(1)] c'(3) by blast
qed

lemma tick_ok:
  assumes "app_ok a"
  shows "\<exists>a' th'. app_thread_tick tick (a, th) = Returns (a', th') \<and> app_ok a' \<and> led_agrees a'"
proof -
  obtain b where b: "app_call (cls_handle_periodic (tk_os tick) (tk_now tick) (tk_slmp_received tick) (tk_iefb_received tick)) a = Returns b" "app_ok b"
    using app_call_ok [OF assms, of _ "Call_Periodic (tk_os tick) (tk_now tick) (tk_slmp_received tick) (tk_iefb_received tick)"] by auto
  define th1 where "th1 = count_presses (read_buttons tick th)"
  let ?pressed = "th_input_value_alarm_button th1 = True \<and> th_input_value_alarm_button th1 \<noteq> th_previous_alarm_button th1"
  obtain c where c: "(if ?pressed then app_update_state (tk_later tick) b else Returns b) = Returns c" "app_ok c"
    using update_state_ok [OF b(2), of "tk_later tick"] b(2) by (cases ?pressed) auto
  have eq: "app_thread_tick tick (a, th) = (let th = th1\<lparr>th_previous_alarm_button := th_input_value_alarm_button th1\<rparr>
      in if app_master_running c then app_exchange (c, th) else Returns (c, th))"
    unfolding app_thread_tick_def prod.case b(1) obind_simps Let_def th1_def [symmetric] c(1) ..
  show ?thesis
  proof (cases "app_master_running c")
    case True then show ?thesis using exchange_ok [OF c(2) True] by (simp add: eq Let_def)
  next
    case False then show ?thesis using c(2) by (auto simp: eq Let_def led_agrees_def app_ok_def)
  qed
qed

lemma thread_ok:
  assumes "app_ok a" "\<not> app_master_running a"
  shows "\<exists>a' th'. app_thread ticks a = Returns (a', th') \<and> app_ok a' \<and> led_agrees a'"
proof -
  let ?a = "a\<lparr>app_demo_state := APP_SLAVE_DEMOSTATE_NORMAL, app_out := app_out a @ [Set_Led False]\<rparr>"
  have a: "app_ok ?a" "\<not> app_master_running ?a" using assms by (auto simp: app_ok_def)
  obtain b where b: "app_call (cls_set_local_management_info APP_LOCAL_MANGAGEMENT_INFO) ?a = Returns b" "app_ok b"
      "cls_set_local_management_info APP_LOCAL_MANGAGEMENT_INFO (Some (app_cls ?a)) = Returns (app_cls b)"
    using app_call_ok [OF a(1), of "cls_set_local_management_info APP_LOCAL_MANGAGEMENT_INFO" "Call_Management_Info APP_LOCAL_MANGAGEMENT_INFO"] by auto
  have "cls_out (app_cls b) = cls_out (app_cls a)"
    using b(3) [symmetric] by (auto simp: cls_set_local_management_info_def cls_iefb_set_local_management_info_def)
  then have "\<not> app_master_running b" using assms b(2) by (simp add: app_ok_def)
  then have "led_agrees b" using b(2) by (auto simp: led_agrees_def app_ok_def)
  then have "\<exists>x. for_each app_thread_tick ticks (b, th) = Returns x \<and> (app_ok (fst x) \<and> led_agrees (fst x))" for th
    by (intro for_each_inv [where P = "\<lambda>x. app_ok (fst x) \<and> led_agrees (fst x)"]) (use b(2) tick_ok in fastforce)+
  then show ?thesis using b(1) by (fastforce simp: app_thread_def Let_def)
qed

lemma slave_main_ok:
  assumes "cls_validate_config max_stations (Some cfg)" "max_stations \<le> 16" "os_udp_open os CL_IPADDR_ANY CL_SLMP_PORT \<noteq> - 1"
  obtains a where "app_slave_main max_stations True os True (Some memory) cfg now = Returns (Some a)" "app_ok a" "\<not> app_master_running a"
proof -
  define c where "c = cfg\<lparr>cfg_vendor_code := APP_VENDOR_CODE, cfg_model_code := APP_MODEL_CODE,
    cfg_equipment_ver := APP_EQUIPMENT_VER, cfg_ip_setting_allowed := True, cfg_state_cb := True,
    cfg_error_cb := True, cfg_connect_cb := True, cfg_disconnect_cb := True, cfg_master_running_cb := True,
    cfg_node_search_cb := True, cfg_set_ip_cb := True\<rparr>"
  have "cls_validate_config max_stations (Some c)" using assms(1) by (simp add: c_def cls_validate_config_def split: if_splits)
  then obtain s where s: "cls_init max_stations True os True (Some memory) (Some c) now = Returns (Some s)" "cls_reachable s"
      "cls_state s = CLS_SLAVE_STATE_MASTER_NONE" "cls_config s = c" "view_ok s"
    using slave_initialised [OF _ assms(2,3)] by metis
  let ?a = "\<lparr>app_cls = s, app_master_running = False, app_demo_state = APP_SLAVE_DEMOSTATE_NORMAL,
    app_previous_led_state = False, app_out = []\<rparr>"
  have cb: "cfg_master_running_cb (cls_config s)" by (simp add: s(4) c_def)
  have "\<not> told running_told False (cls_out s)" using s(3,5) cb by (auto simp: view_ok_def running_ok_def running_seen_def)
  then have "app_ok (app_callbacks (cls_out s) ?a)" "\<not> app_master_running (app_callbacks (cls_out s) ?a)"
    using callbacks_ok [of ?a "cls_out s"] s(2,5) cb by (auto simp: app_ok_def)
  moreover have "app_slave_main max_stations True os True (Some memory) cfg now = Returns (Some (app_callbacks (cls_out s) ?a))"
    unfolding app_slave_main_def Let_def c_def [symmetric] by (simp add: s(1))
  ultimately show thesis using that by blast
qed

end
