(* ===== verification/Spec2Isabelle.thy ===== *)
theory Spec2Isabelle
  imports CL_Util CL_System CL_SLMP_Samples CL_Literals App_Slave
begin

text \<open>
A verification library for c-link, a stack for CC-Link IE Field Basic (CCIEFB) written in C. A
  master sends cyclic requests with output data (RY bits, RWw registers) to groups of slaves by
  broadcast, and each slave answers with its input data (RX bits, RWr registers). Over SLMP the master
  searches for slaves and sets their IP addresses. All frames are UDP datagrams of packed structs.

  \<^bold>\<open>Shared theories.\<close>
  \<^item> \<open>CL_Prelude\<close>: machine integers, byte order, the result type of code that may fail an assertion
    (\<open>outcome\<close>), and shared lemmas on words and lists.
  \<^item> \<open>CL_Util\<close> (\<open>src/src/common/cl_util.c\<close>): MAC and IP address helpers.
  \<^item> \<open>CL_Timer\<close> (\<open>cl_timer.c\<close>, \<open>cl_limiter.c\<close>): timers on a 32 bit microsecond clock that wraps around,
    and the limiter of repeated messages. The locale \<open>timer_interface\<close> is what clients rely on.
  \<^item> \<open>CL_Frames\<close> (\<open>cl_types.h\<close>): the packed structs of CCIEFB as records with encoders and decoders. The
    locale \<open>packed_struct\<close> is interpreted for each of them.
  \<^item> \<open>CL_IEFB\<close> (\<open>cl_iefb.c\<close>): building, parsing and validating cyclic frames, shared by master and slave.
  \<^item> \<open>CL_Signals\<close>: the locale \<open>signal_area\<close> of numbered bits or registers that are read and written.
  \<^item> \<open>CL_FSM\<close>: tables and event loop of the state machines. The locale \<open>event_machine\<close> gives
    termination of the loop.
  \<^item> \<open>CL_Eth\<close> (\<open>cl_eth.c\<close>): network settings on the record \<open>cl_os\<close> of functions of the operating system.
  \<^item> \<open>CL_SLMP\<close> (\<open>cl_slmp.c\<close>, \<open>cl_slmp_udp.c\<close>): the packed structs of SLMP (again \<open>packed_struct\<close>), the
    checks and the preparation of every frame, and the search delay. The lemmas \<open>*_accepted\<close> say that
    the checks pass exactly for frames that were prepared.
  \<^item> \<open>CL_File\<close> (\<open>cl_file.c\<close>): persistent files on the record \<open>cl_files\<close> of functions of the platform.
  \<^item> \<open>CL_API\<close>: the locales \<open>api_calls\<close> and \<open>strict_api_calls\<close> of a public interface: which sequences of
    calls return.
  \<^item> \<open>CL_Literals\<close> (\<open>cl_literals.c\<close>): the names in log messages (locale \<open>literal_names\<close>).

  \<^bold>\<open>The slave.\<close>
  \<^item> \<open>CLS_IEFB\<close> (\<open>src/src/slave/cls_iefb.c\<close>): the handle \<open>cls\<close>, the state machine and every operation,
    with the invariant \<open>cls_inv\<close>.
  \<^item> \<open>CLS_SLMP\<close> (\<open>cls_slmp.c\<close>): answering node searches after the delay, and setting the IP address.
  \<^item> \<open>CLS_Behaviour\<close>: what the operations do on each kind of input, and the reachable states
    (\<open>cls_reachable\<close>), with cyclic communication and SLMP interleaved in any order.
  \<^item> \<open>CLS_Start\<close> (\<open>cls_slave.c\<close>): start-up and shutdown.
  \<^item> \<open>CLS_View\<close>: what the callbacks tell the application, with the invariant \<open>view_ok\<close> that this agrees with
    the state of the slave. The locale \<open>slave_property\<close> lifts properties of events to all operations.
  \<^item> \<open>CLS_API\<close> (\<open>cls_api.c\<close>): the public interface, as an instance of \<open>strict_api_calls\<close>.
  \<^item> \<open>App_Slave\<close> (\<open>src/sample_apps/cl_sample_slave_common.c\<close>): the sample application on top of the stack.

  \<^bold>\<open>The master.\<close>
  \<^item> \<open>CLM_Config\<close> (\<open>src/src/master/clm_master.c\<close>): the configuration and its validation.
  \<^item> \<open>CLM_State\<close>, \<open>CLM_Device\<close>, \<open>CLM_Group\<close>, \<open>CLM_IEFB\<close> (\<open>clm_iefb.c\<close>): the handle \<open>clm\<close> with frames,
    statistics and callbacks; the state machine of each device; the state machine of each group; received
    frames, access to signals, status, the periodic function and the initialisation.
  \<^item> \<open>CLM_Scan\<close>, \<open>CLM_Rounds\<close>, \<open>CLM_Events\<close>, \<open>CLM_Invariant\<close>: what a link scan does with the devices of
    a group, one round of the group machine for each transition, the machine as an \<open>event_machine\<close>, and
    the invariant \<open>clm_inv\<close> of all operations.
  \<^item> \<open>CLM_Loop\<close>: the loop over follow-up events of a group for every event and in every state.
  \<^item> \<open>CLM_Inputs\<close>: received responses and the input data of the application.
  \<^item> \<open>CLM_SLMP\<close> (\<open>clm_slmp.c\<close>): node search and set-IP requests, and their confirmations.
  \<^item> \<open>CLM_Behaviour\<close>: the output signals of all devices, the reachable states (\<open>clm_reachable\<close>), and the end of
    arbitration.
  \<^item> \<open>CLM_Start\<close> (\<open>clm_master.c\<close>): start-up with the parameter number from its file, and shutdown.
  \<^item> \<open>CLM_API\<close> (\<open>clm_api.c\<close>): the public interface, as an instance of \<open>api_calls\<close>.

  \<^bold>\<open>Master and slave together.\<close> \<open>CL_System\<close> follows outputs and inputs between the two applications,
  \<open>CL_Connect\<close> the way from arbitration to a connection and the requests after it (\<open>serves\<close>: the slave
  belongs to the master and waits for its next request), and \<open>CL_SLMP_System\<close> a search or a set-IP request
  and its answer. \<open>CL_Samples\<close>, \<open>CLM_Samples\<close> and
  \<open>CL_SLMP_Samples\<close> hold concrete inputs.

  \<^bold>\<open>Conventions.\<close> A C function that returns 0 or -1 returns \<open>bool\<close> or \<open>option\<close>. A function that
  contains \<open>CC_ASSERT\<close> returns an \<open>outcome\<close>; \<open>Assert_Failed\<close> stands for the abort. A datagram is a list
  of bytes, its length the received length, and a pointer into it an offset. Sending, callbacks of
  the application, saving the parameter number and warnings are appended to a trace in the handle
  (\<open>cls_out\<close>, \<open>clm_out\<close>), so the order of effects is visible. The wall clock of the master is an
  argument that gives a value for each length of the trace. A send buffer that lives in the handle only
  between preparing and sending a frame is passed on as a value. Function pointers of the state tables
  are values of a datatype that \<open>run_action\<close>, \<open>run_device_action\<close> and \<open>run_group_action\<close> interpret. The
  \<open>do ... while\<close> loops over follow-up events run with fuel 2 (\<open>fsm_fuel\<close>, \<open>device_fuel\<close>, \<open>group_fuel\<close>),
  because a transition requests at most one follow-up event and that one requests none; more fuel gives
  the same result. Counts and indices are natural numbers where the code only compares them, and fields
  of frames are words. The host is little endian: conversions to and from little endian do not change values.

  \<^bold>\<open>Parameters.\<close> The operating system (\<open>cl_os\<close>), the file functions (\<open>cl_files\<close>, with the hypothesis
  \<open>files_ok\<close>: a load returns as many bytes as it was asked for, and a successful save is what a load of
  the same path and size returns, other files being unchanged), the wall clock, whether sockets can be
  opened, and the build options \<open>CLM_MAX_GROUPS\<close>, \<open>CLM_MAX_OCCUPIED_STATIONS_PER_GROUP\<close>,
  \<open>CLM_MAX_NODE_SEARCH_DEVICES\<close>, \<open>CLS_MAX_OCCUPIED_STATIONS\<close> and the file path options.

  \<^bold>\<open>Properties.\<close> They follow below, in order of importance: safety and functional behaviour of slave
  and master on every datagram, the way of the data between both applications, invariants of the timers
  and of the requests, agreement of the frames that one side builds with the parser of the other side,
  start-up, bounds of every access into a received datagram, and the equivalence of validation
  functions and bit tricks with their plain meaning.

  \<^bold>\<open>Not modelled.\<close> Sockets: the periodic functions take the received datagrams as arguments, and the
  result of sending a cyclic frame, which the code only logs, is not modelled. Log output and the
  \<open>show\<close> functions of \<open>clm_master.c\<close> and \<open>cls_slave.c\<close>, which only print, have no effect on the state. The
  sample application of the master is a client of the stack whose link scan callback writes outputs in
  the middle of a transition of the group, which a trace of callbacks does not show; the fuzzing drivers
  and the tests feed the stack with datagrams and mocks. The platform functions that \<open>clal.h\<close> declares and
  the osal library are implemented in other packages and are parameters.
\<close>

text \<open>C1: From any reachable slave every operation of the slave stack (the periodic calls of the cyclic communication and of SLMP with any datagram or none, disabling, re-enabling, writing cyclic data within the configured areas, the setters) returns: no CC_ASSERT fails, the state machine loop ends within its fuel, and the result is reachable again.\<close>

theorem slave_never_aborts:
  assumes "cls_reachable s" and "index_valid oper s"
  shows "\<exists>s'. cls_do oper s = Returns s' \<and> cls_reachable s'"
  using cls_do_ok [OF reachable_inv [OF assms(1)] assms(2)] cls_reachable.step [OF assms(1)] by blast

theorem slave_never_aborts_witness:
  "\<exists>s'. cls_do (Periodic 2000 (Some (sample_request 1 1, master_ip, 61450, slave_ip))) connected_slave = Returns s'
     \<and> cls_reachable s'"
  by (rule slave_never_aborts [OF connected_slave_reachable]) simp

text \<open>C2: When a datagram passes the header checks and comes from the connected master (same master, parameter number and group, non-zero sequence number, the slave's address at its station), the result depends on the number of stations the datagram announces. If all stations of the slave are within it, the slave stays connected, restarts the receive timer, answers the sender with its cyclic response, and every RY bit and RWw register then read by the application is the one at its station in the datagram, or zero when its transmission bit is off. If the group is too small for the slave's stations, nothing is changed: no data is taken over, no answer is sent and the receive timer is not restarted.\<close>

theorem slave_receives_cyclic_data:
  assumes reach: "cls_reachable s" and rec: "received_request bs ip port my r" and addr: "addressed_by_master s r"
  defines "k \<equiv> cfg_num_occupied_stations (cls_config s)" and "n \<equiv> ma_slave_station_no (cls_master s)"
  shows "if n + k \<le> rq_total_occupied r + 1 then
      (\<exists>s' outs. cls_iefb_handle_input_frame now bs ip port my s = Returns (True, s') \<and>
        cls_state s' = CLS_SLAVE_STATE_MASTER_CONTROL \<and>
        cls_receive_timer s' = cl_timer_restart now (cls_receive_timer s) \<and>
        cls_out s' = cls_out s @ outs @ [Udp_Send ip port (cyclic_response s r)] \<and>
        (\<forall>i. unat i < 64 * k \<longrightarrow> cls_iefb_get_ry_bit i s' =
           Returns (my_transmission_bit s r \<and> bit (request_ry r n k ! (unat i div 8)) (unat i mod 8))) \<and>
        (\<forall>i. unat i < 32 * k \<longrightarrow> cls_iefb_get_rww_value i s' =
           Returns (if my_transmission_bit s r then le16_at (request_rww r n k) (2 * unat i) else 0)))
    else cls_iefb_handle_input_frame now bs ip port my s = Returns (True, s)"
proof -
  note inv = reachable_inv [OF reach]
  show ?thesis
  proof (cases "n + k \<le> rq_total_occupied r + 1")
    case True
    then have "continues_connection s r" using continues_connection_iff [OF inv] addr by (simp add: n_def k_def)
    from slave_reads_request [OF inv rec this, of now, folded k_def n_def] show ?thesis unfolding if_P [OF True] .
  next
    case False
    then show ?thesis using too_small_group_frame [OF inv rec addr, of now] unfolding if_not_P [OF False] by (simp add: n_def k_def)
  qed
qed

theorem slave_receives_cyclic_data_witness:
  "\<exists>s'. cls_iefb_handle_input_frame 2000 (sample_request 1 1) master_ip 61450 slave_ip connected_slave = Returns (True, s') \<and>
    cls_iefb_get_rww_value 3 s' = Returns (le16_at (request_rww (parsed (sample_request 1 1) master_ip) 1 1) 6)"
proof -
  have r: "received_request (sample_request 1 1) master_ip 61450 slave_ip (parsed (sample_request 1 1) master_ip)"
    by code_simp
  have c: "addressed_by_master connected_slave (parsed (sample_request 1 1) master_ip)"
    unfolding addressed_by_master_def connected_slave_facts by code_simp
  have k: "ma_slave_station_no (cls_master connected_slave) = 1" "rq_total_occupied (parsed (sample_request 1 1) master_ip) = 1"
      "my_transmission_bit connected_slave (parsed (sample_request 1 1) master_ip) = True"
    unfolding my_transmission_bit_def connected_slave_facts by code_simp+
  have i: "unat (3 :: u16) = 3" by simp
  from slave_receives_cyclic_data [OF connected_slave_reachable r c, of 2000] obtain s' where
    "cls_iefb_handle_input_frame 2000 (sample_request 1 1) master_ip 61450 slave_ip connected_slave = Returns (True, s')"
    "\<forall>i. unat i < 32 \<longrightarrow> cls_iefb_get_rww_value i s' =
       Returns (le16_at (request_rww (parsed (sample_request 1 1) master_ip) 1 1) (2 * unat i))"
    unfolding k connected_slave_facts(5) by auto
  then show ?thesis using spec [of _ "3 :: u16"] i by fastforce
qed

text \<open>C3: From any reachable master every operation returns and leads to a reachable master: a periodic call with any datagrams, except responses of the four sizes that fail the assertion of the parser, writing outputs within the configured areas, disabling and enabling devices, forcing transmission bits, clearing statistics, setting the application status, and the start, the requests and the periodic call of SLMP with any datagrams. No other CC_ASSERT fails and the event loops of groups and devices end.\<close>

theorem master_never_aborts:
  assumes "clm_reachable clm" and "operation_ok oper clm"
  shows "\<exists>clm'. clm_do oper clm = Returns clm' \<and> clm_reachable clm'"
  using clm_do_ok [OF master_reachable_inv [OF assms(1)] assms(2)] clm_reachable.step [OF assms] by blast

theorem master_never_aborts_witness:
  "\<exists>clm'. clm_do (Master_Periodic 7000 sample_clock None [([0xD0, 0], slave_ip, 61450)]) scanning_master = Returns clm' \<and>
     clm_reachable clm'"
  by (rule master_never_aborts [OF scanning_master_ok(1)]) (simp add: safe_datagram_def CL_BUFFER_LEN_def cyclic_response_size)

text \<open>C4: When the response timer of a scanning group expires, the master broadcasts the next request of the group. Any slave parses it as a valid request of this master, with the station count of the group, the next sequence number, the group number and the parameter number that the request frame of the group has. For every enabled device the request has the address of the device at its station, the transmission bit of the device (on while it stays connected or is forced) and, exactly when the bit is on, its RY and RWw data.\<close>

theorem link_scan_timeout:
  assumes "clm_reachable clm" and "gi < number_of_groups clm" and "state_of_group clm gi = CLM_GROUP_STATE_MASTER_LINK_SCAN"
    and "cl_timer_is_expired (gd_response_wait_timer (clm_groups clm ! gi)) now" and "my \<noteq> 0"
  defines "gs \<equiv> device_setting_at clm gi" and "g \<equiv> clm_groups clm ! gi"
  shows "\<exists>clm' bs r outs. monitor_group_timers now clock gi clm = Returns clm' \<and>
    clm_out clm' = clm_out clm @ outs @ [Request_Sent (clm_iefb_broadcast_ip clm) bs] \<and>
    received_request bs (mc_master_id (clm_config clm)) port my r \<and> rq_total_occupied r = stations_of gs \<and>
    qdh_frame_sequence_no (qf_cyclic_data_header (rq_full_headers r)) = clm_iefb_update_frame_sequence_no (gd_frame_sequence_no g) \<and>
    unat (qdh_group_no (qf_cyclic_data_header (rq_full_headers r))) = gi + 1 \<and>
    qdh_parameter_no (qf_cyclic_data_header (rq_full_headers r)) = request_parameter_no g \<and>
    (\<forall>di < gs_num_slave_devices gs. dd_enabled (gd_slave_devices g ! di) \<longrightarrow>
       request_for_device r gs (gd_memory_area g) di
         (stays_connected gs (gd_slave_devices g ! di) \<or> dd_force_transmission_bit (gd_slave_devices g ! di)))"
  unfolding gs_def g_def device_setting_at_def by (rule timeout_request [OF master_reachable_inv [OF assms(1)] assms(2-5)])

theorem link_scan_timeout_witness:
  "\<exists>clm' bs r outs. monitor_group_timers (due (gd_response_wait_timer (clm_groups scanning_master ! 0))) sample_clock 0 scanning_master =
      Returns clm' \<and>
    clm_out clm' = clm_out scanning_master @ outs @ [Request_Sent (clm_iefb_broadcast_ip scanning_master) bs] \<and>
    received_request bs master_ip 61450 slave_ip r"
proof -
  have "(0 :: nat) < number_of_groups scanning_master" "slave_ip \<noteq> 0" "mc_master_id (clm_config scanning_master) = master_ip"
    by (simp_all add: scanning_master_ok(2) slave_ip_def) (simp add: sample_master_cfg_def)
  then show ?thesis
    using link_scan_timeout [OF scanning_master_ok(1) _ scanning_master_ok(3,4), of slave_ip sample_clock 61450] by fastforce
qed

text \<open>C5: Master and slave connect in one exchange, by calls of their periodic functions only: when the response timer of a scanning group has expired and one of its enabled devices is not connected (its transmission bit is not forced and its last answer has not used the next sequence number), the periodic function of the master sends a request; a reachable slave without master, with the address and the number of stations of that device, accepts the master when its periodic function gets this datagram, and answers; when the periodic function of the master gets the answer before the link scan times out, the device is connected. Both sides stay reachable, and the slave serves this device of this master: address, group and parameter number, station and number of stations agree. The announced total timeout must fit 32 bits, since the slave truncates it.\<close>

theorem connection_established:
  assumes master: "clm_reachable clm" and gi: "gi < number_of_groups clm" and st: "state_of_group clm gi = CLM_GROUP_STATE_MASTER_LINK_SCAN"
    and e: "cl_timer_is_expired (gd_response_wait_timer (clm_groups clm ! gi)) now"
    and gs: "gs = device_setting_at clm gi" and di: "di < gs_num_slave_devices gs" and new: "to_be_connected clm gi di"
    and my: "my = sd_slave_id (gs_slave_devices gs ! di)"
    and total: "unat (cl_calculate_total_timeout_us (gs_timeout_value gs) (gs_parallel_off_timeout_count gs)) < 2 ^ 32"
    and slave: "cls_reachable s" "cls_state s = CLS_SLAVE_STATE_MASTER_NONE"
      "cfg_num_occupied_stations (cls_config s) = device_occ gs di"
    and early: "unat (now2 - now) < 1000 * unat (gs_timeout_value gs)"
  shows "\<exists>clm1 outs bs s1 souts resp clm2.
    clm_do (Master_Periodic now clock None []) clm = Returns clm1 \<and> clm_out clm1 = clm_out clm @ outs \<and>
    Request_Sent (clm_iefb_broadcast_ip clm) bs \<in> set outs \<and>
    cls_do (Periodic now1 (Some (bs, mc_master_id (clm_config clm), port, my))) s = Returns s1 \<and>
    cls_out s1 = cls_out s @ souts @ [Udp_Send (mc_master_id (clm_config clm)) port resp] \<and>
    clm_do (Master_Periodic now2 clock2 None [(resp, my, port2)]) clm1 = Returns clm2 \<and>
    clm_reachable clm2 \<and> cls_reachable s1 \<and> connected_device clm2 gi di \<and> serves s1 clm2 gi di"
proof -
  from first_exchange [OF master_reachable_inv [OF master] gi st e gs di new my total reachable_inv [OF slave(1)] slave(2,3) early,
      of clock now1 port clock2 port2] obtain clm1 outs bs s1 souts resp clm2 where
    x: "clm_do (Master_Periodic now clock None []) clm = Returns clm1" "clm_out clm1 = clm_out clm @ outs"
      "Request_Sent (clm_iefb_broadcast_ip clm) bs \<in> set outs"
      "cls_do (Periodic now1 (Some (bs, mc_master_id (clm_config clm), port, my))) s = Returns s1"
      "cls_out s1 = cls_out s @ souts @ [Udp_Send (mc_master_id (clm_config clm)) port resp]" "safe_datagram resp"
      "clm_do (Master_Periodic now2 clock2 None [(resp, my, port2)]) clm1 = Returns clm2" "connected_device clm2 gi di" "serves s1 clm2 gi di"
    by auto
  have "clm_reachable clm1" by (rule clm_reachable.step [OF master _ x(1)]) simp
  then have "clm_reachable clm2" by (rule clm_reachable.step [OF _ _ x(7)]) (simp add: x(6))
  moreover have "cls_reachable s1" by (rule cls_reachable.step [OF slave(1) x(4)])
  ultimately show ?thesis using x by blast
qed

theorem connection_established_witness:
  "\<exists>clm1 bs s1 resp clm2. clm_do (Master_Periodic (due (gd_response_wait_timer (clm_groups waiting_master ! 0))) sample_clock None []) waiting_master =
       Returns clm1 \<and>
     cls_do (Periodic 2000 (Some (bs, master_ip, 61450, slave_ip))) started_slave = Returns s1 \<and>
     clm_do (Master_Periodic (due (gd_response_wait_timer (clm_groups waiting_master ! 0)) + 1000) sample_clock None [(resp, slave_ip, 61450)]) clm1 =
       Returns clm2 \<and>
     connected_device clm2 0 0 \<and> serves s1 clm2 0 0"
proof -
  note w = waiting_master_ok
  have m: "0 < number_of_groups waiting_master" "sample_group = device_setting_at waiting_master 0" "0 < gs_num_slave_devices sample_group"
    "slave_ip = sd_slave_id (gs_slave_devices sample_group ! 0)" "mc_master_id (clm_config waiting_master) = master_ip"
    using w(2) by (simp_all add: device_setting_at_def) (simp_all add: sample_group_def sample_master_cfg_def)
  from connection_established [OF w(1) m(1) w(3,4) m(2,3) w(5) m(4) sample_timeout(1) started_slave_reachable started_slave_ok sample_timeout(2),
      of sample_clock 2000 61450 sample_clock 61450, unfolded m(5)]
  show ?thesis by blast
qed

text \<open>C6: The outputs of the master's application reach the application of a slave: when a link scan times out and the transmission bit of an enabled device is to be on, a reachable slave that is controlled by this master as this device (same master address, group and parameter number, station and number of stations) and handles the datagram sent answers it, and its application then reads, for every RY bit and RWw register of the device, the value that the master's application reads back.\<close>

theorem outputs_reach_slave:
  assumes reach: "clm_reachable clm" and gi: "gi < number_of_groups clm" and st: "state_of_group clm gi = CLM_GROUP_STATE_MASTER_LINK_SCAN"
    and e: "cl_timer_is_expired (gd_response_wait_timer (clm_groups clm ! gi)) now"
    and gs: "gs = device_setting_at clm gi" and di: "di < gs_num_slave_devices gs" and d: "d = gd_slave_devices (clm_groups clm ! gi) ! di"
    and on: "dd_enabled d" "stays_connected gs d \<or> dd_force_transmission_bit d"
    and my: "my = sd_slave_id (gs_slave_devices gs ! di)"
    and slave: "cls_reachable s" "serves s clm gi di"
  shows "\<exists>clm' bs r outs s' souts. monitor_group_timers now clock gi clm = Returns clm' \<and>
    clm_out clm' = clm_out clm @ outs @ [Request_Sent (clm_iefb_broadcast_ip clm) bs] \<and>
    received_request bs (mc_master_id (clm_config clm)) port my r \<and> my_transmission_bit s r \<and>
    cls_iefb_handle_input_frame now' bs (mc_master_id (clm_config clm)) port my s = Returns (True, s') \<and>
    cls_out s' = cls_out s @ souts @ [Udp_Send (mc_master_id (clm_config clm)) port (cyclic_response s r)] \<and>
    (\<forall>i. unat i < 64 * device_occ gs di \<longrightarrow> cls_iefb_get_ry_bit i s' = get_ry (gi, di, i) clm) \<and>
    (\<forall>i. unat i < 32 * device_occ gs di \<longrightarrow> cls_iefb_get_rww_value i s' = get_rww (gi, di, i) clm)"
  by (rule next_request_read [OF master_reachable_inv [OF reach] gi st e gs di d on my reachable_inv [OF slave(1)] slave(2)])

theorem outputs_reach_slave_witness:
  "\<exists>clm s clm' bs s'. clm_reachable clm \<and> cls_reachable s \<and> serves s clm 0 0 \<and>
     monitor_group_timers (due (gd_response_wait_timer (clm_groups clm ! 0))) sample_clock 0 clm = Returns clm' \<and>
     Request_Sent (clm_iefb_broadcast_ip clm) bs \<in> set (clm_out clm') \<and>
     cls_iefb_handle_input_frame 900 bs master_ip 61450 slave_ip s = Returns (True, s') \<and>
     cls_iefb_get_ry_bit 5 s' = get_ry (0, 0, 5) clm \<and> cls_iefb_get_rww_value 31 s' = get_rww (0, 0, 31) clm"
proof -
  obtain clm s where w: "clm_reachable clm" "clm_config clm = sample_master_cfg" "state_of_group clm 0 = CLM_GROUP_STATE_MASTER_LINK_SCAN"
    "dd_enabled (gd_slave_devices (clm_groups clm ! 0) ! 0)" "dd_force_transmission_bit (gd_slave_devices (clm_groups clm ! 0) ! 0)"
    "cls_reachable s" "serves s clm 0 0" using serving_pair by blast
  have m: "0 < number_of_groups clm" "sample_group = device_setting_at clm 0" "0 < gs_num_slave_devices sample_group"
    "slave_ip = sd_slave_id (gs_slave_devices sample_group ! 0)" "mc_master_id (clm_config clm) = master_ip"
    using w(2) by (simp_all add: device_setting_at_def) (simp_all add: sample_group_def sample_master_cfg_def)
  have i: "unat (5 :: u16) < 64 * device_occ sample_group 0" "unat (31 :: u16) < 32 * device_occ sample_group 0" by simp_all
  from outputs_reach_slave [OF w(1) m(1) w(3) scanning_due [OF w(1-3)] m(2,3) refl w(4) disjI2 [OF w(5)] m(4) w(6,7), of sample_clock 61450 900,
      unfolded m(5)]
  obtain clm' bs outs s' where x: "monitor_group_timers (due (gd_response_wait_timer (clm_groups clm ! 0))) sample_clock 0 clm = Returns clm'"
    "clm_out clm' = clm_out clm @ outs @ [Request_Sent (clm_iefb_broadcast_ip clm) bs]"
    "cls_iefb_handle_input_frame 900 bs master_ip 61450 slave_ip s = Returns (True, s')"
    "\<forall>i. unat i < 64 * device_occ sample_group 0 \<longrightarrow> cls_iefb_get_ry_bit i s' = get_ry (0, 0, i) clm"
    "\<forall>i. unat i < 32 * device_occ sample_group 0 \<longrightarrow> cls_iefb_get_rww_value i s' = get_rww (0, 0, i) clm" by blast
  have "Request_Sent (clm_iefb_broadcast_ip clm) bs \<in> set (clm_out clm')" using x(2) by simp
  then show ?thesis using w(1,6,7) x(1,3) x(4) [rule_format, OF i(1)] x(5) [rule_format, OF i(2)] by blast
qed

text \<open>C7: The inputs of a slave's application reach the application of the master: when a reachable master receives the response of a reachable slave to a request of its group, the device is enabled and the answer is due, the master accepts it; when the transmission bits of both sides are on, every RX bit and RWr register that the master's application then reads for the device is the one the slave's application has set.\<close>

theorem inputs_reach_master_application:
  assumes "clm_reachable clm" and "cls_reachable s" and gi: "gi < number_of_groups clm" and gs: "gs = device_setting_at clm gi"
    and di: "di < gs_num_slave_devices gs"
    and r: "request_ok r" "rq_slave_ip_addr r = sd_slave_id (gs_slave_devices gs ! di)"
      "unat (qdh_group_no (qf_cyclic_data_header (rq_full_headers r))) = gi + 1"
    and "cfg_num_occupied_stations (cls_config s) = device_occ gs di"
    and "awaits_response clm gi di (qdh_frame_sequence_no (qf_cyclic_data_header (rq_full_headers r)))"
  shows "\<exists>clm'. clm_iefb_handle_input_frame now clock (cyclic_response s r) (rq_slave_ip_addr r) port clm = Returns (True, clm') \<and> clm_inv clm' \<and>
    (my_transmission_bit s r \<and> dd_transmission_bit (gd_slave_devices (clm_groups clm ! gi) ! di) \<longrightarrow>
      (\<forall>i. unat i < 64 * device_occ gs di \<longrightarrow> clm_iefb_get_rx_bit clm' gi di i = cls_iefb_get_rx_bit i s) \<and>
      (\<forall>i. unat i < 32 * device_occ gs di \<longrightarrow> clm_iefb_get_rwr_value clm' gi di i = cls_iefb_get_rwr_value i s))"
  using inputs_reach_master [OF master_reachable_inv [OF assms(1)] gi gs di reachable_inv [OF assms(2)] r assms(9,10)] .

theorem inputs_reach_master_application_witness:
  "\<exists>sqn clm'. clm_iefb_handle_input_frame 3000 sample_clock
      (cyclic_response connected_slave (parsed (sample_request sqn 1) master_ip)) slave_ip 61450 ready_master = Returns (True, clm') \<and> clm_inv clm'"
proof -
  let ?sqn = "gd_frame_sequence_no (clm_groups ready_master ! 0)"
  have m: "number_of_groups ready_master = 1" "device_setting_at ready_master 0 = sample_group"
    "sd_slave_id (gs_slave_devices sample_group ! 0) = slave_ip"
    by (simp_all add: ready_master_ok(2) device_setting_at_def) (simp add: sample_group_def)
  note p = sample_request_parsed [of ?sqn 1]
  have "awaits_response ready_master 0 0 ?sqn" using ready_master_ok(5,7) by (simp add: awaits_response_def)
  with inputs_reach_master_application [OF ready_master_ok(1) connected_slave_reachable _ _ _ p(1), of 0 sample_group 0 3000 sample_clock 61450]
    p(2-4) m connected_slave_facts(5) show ?thesis by (intro exI [of _ ?sqn]) auto
qed

text \<open>C8: In every reachable slave the receive timer runs exactly while the slave is controlled by a master, the disabling timer exactly while it is being disabled, a master is stored exactly while controlled, and the slave is never in the start-up or dummy state.\<close>

theorem slave_timer_discipline:
  assumes "cls_reachable s"
  shows "(cl_timer_is_running (cls_receive_timer s) \<longleftrightarrow> cls_state s = CLS_SLAVE_STATE_MASTER_CONTROL) \<and>
    (cl_timer_is_running (cls_timer_for_disabling_slave s) \<longleftrightarrow>
       cls_state s = CLS_SLAVE_STATE_WAIT_DISABLING_SLAVE) \<and>
    (ma_master_id (cls_master s) \<noteq> CL_IPADDR_INVALID \<longleftrightarrow> cls_state s = CLS_SLAVE_STATE_MASTER_CONTROL) \<and>
    cls_state s \<notin> {CLS_SLAVE_STATE_SLAVE_DOWN, CLS_SLAVE_STATE_LAST}"
  using reachable_inv [OF assms] unfolding inv_defs CL_IPADDR_INVALID_def by blast

theorem slave_timer_discipline_witness:
  "cl_timer_is_running (cls_receive_timer connected_slave) \<and>
   ma_master_id (cls_master connected_slave) \<noteq> CL_IPADDR_INVALID"
  using slave_timer_discipline [OF connected_slave_reachable] connected_slave_state by simp

text \<open>C9: In every reachable master no group waits without a timer. Every group listens, arbitrates, scans, or pauses before the next scan; while it scans its response timer runs with the configured timeout; it pauses only with constant link scan time and then the timer of the pause runs; arbitration is common to all groups and its timer runs with the configured time.\<close>

theorem master_timer_discipline:
  assumes "clm_reachable clm" and "gi < number_of_groups clm"
  defines "gs \<equiv> device_setting_at clm gi" and "g \<equiv> clm_groups clm ! gi"
  shows "gd_group_state g \<in> {CLM_GROUP_STATE_MASTER_LISTEN, CLM_GROUP_STATE_MASTER_ARBITRATION,
      CLM_GROUP_STATE_MASTER_LINK_SCAN_COMP, CLM_GROUP_STATE_MASTER_LINK_SCAN} \<and>
    (gd_group_state g = CLM_GROUP_STATE_MASTER_LINK_SCAN \<longrightarrow> timer_runs (scan_period gs) (gd_response_wait_timer g)) \<and>
    (gd_group_state g = CLM_GROUP_STATE_MASTER_LINK_SCAN_COMP \<longrightarrow>
       gs_use_constant_link_scan_time gs \<and> timer_runs (scan_period gs) (gd_constant_linkscan_timer g)) \<and>
    (gd_group_state g = CLM_GROUP_STATE_MASTER_ARBITRATION \<longrightarrow>
       timer_runs (arbitration_period (clm_config clm)) (clm_arbitration_timer clm) \<and>
       (\<forall>gj < number_of_groups clm. state_of_group clm gj = CLM_GROUP_STATE_MASTER_ARBITRATION))"
proof -
  have "clm_inv clm" by (rule master_reachable_inv [OF assms(1)])
  then have "group_inv (clm_config clm) gi g" "arbitration_inv clm" using assms(2) by (simp_all add: clm_inv_def groups_inv_def g_def)
  then show ?thesis using assms(2)
    by (auto simp: group_inv_def scan_pending_def Let_def gs_def device_setting_at_def arbitration_inv_def g_def)
qed

theorem master_timer_discipline_witness:
  "timer_runs (scan_period sample_group) (gd_response_wait_timer (clm_groups scanning_master ! 0))"
  using master_timer_discipline [OF scanning_master_ok(1), of 0] scanning_master_ok(2,3)
  by (simp add: device_setting_at_def)

text \<open>C10: A slave without master that receives a valid request naming its address exactly once, with its own number of stations following and its transmission bit off, becomes controlled by that master: it stores the connection data of the request and its station number, starts the receive timer with the timeout of the request and answers the sender.\<close>

theorem slave_accepts_first_master:
  assumes "cls_reachable s" and "cls_state s = CLS_SLAVE_STATE_MASTER_NONE"
    and "received_request bs ip port my r"
    and "cl_iefb_analyze_slave_ids my (rq_total_occupied r) bs 67 =
      Some (True, n, cfg_num_occupied_stations (cls_config s))"
    and "\<not> cl_iefb_extract_my_transmission_state
      (qdh_cyclic_transmission_state (qf_cyclic_data_header (rq_full_headers r))) n"
  shows "\<exists>s' t outs bs'. cls_iefb_handle_input_frame now bs ip port my s = Returns (True, s') \<and>
    cls_state s' = CLS_SLAVE_STATE_MASTER_CONTROL \<and> cls_master s' = connection_of r n \<and>
    cls_receive_timer s' = cl_timer_start (connection_period r) now t \<and>
    cls_out s' = cls_out s @ outs @ [Udp_Send ip port bs']"
  using connect_frame [OF reachable_inv [OF assms(1)] assms(2-5)] by blast

theorem slave_accepts_first_master_witness:
  "\<exists>s'. cls_iefb_handle_input_frame 1000 (sample_request 0 0) master_ip 61450 slave_ip started_slave = Returns (True, s') \<and>
    cls_state s' = CLS_SLAVE_STATE_MASTER_CONTROL \<and>
    cls_master s' = connection_of (parsed (sample_request 0 0) master_ip) 1"
proof -
  have "cls_state started_slave = CLS_SLAVE_STATE_MASTER_NONE"
    "received_request (sample_request 0 0) master_ip 61450 slave_ip (parsed (sample_request 0 0) master_ip)"
    "cl_iefb_analyze_slave_ids slave_ip (rq_total_occupied (parsed (sample_request 0 0) master_ip)) (sample_request 0 0) 67 =
      Some (True, 1, cfg_num_occupied_stations (cls_config started_slave))"
    "\<not> cl_iefb_extract_my_transmission_state
      (qdh_cyclic_transmission_state (qf_cyclic_data_header (rq_full_headers (parsed (sample_request 0 0) master_ip)))) 1"
    by code_simp+
  from slave_accepts_first_master [OF started_slave_reachable this, of 1000] show ?thesis by blast
qed

text \<open>C11: While controlled by a master, a valid request from any other address leaves the state, the connection, the receive timer, the received data and the outgoing data unchanged, and is answered with an error response with end code MASTER_DUPLICATION to that other address.\<close>

theorem slave_rejects_other_master:
  assumes "cls_reachable s" and "cls_state s = CLS_SLAVE_STATE_MASTER_CONTROL"
    and "received_request bs ip port my r" and "ip \<noteq> ma_master_id (cls_master s)"
  shows "\<exists>s' outs. cls_iefb_handle_input_frame now bs ip port my s = Returns (True, s') \<and>
     cls_out s' = cls_out s @ outs @ [error_response s r CL_SLMP_ENDCODE_CCIEFB_MASTER_DUPLICATION] \<and>
     cls_state s' = cls_state s \<and> cls_master s' = cls_master s \<and>
     cls_receive_timer s' = cls_receive_timer s \<and> cls_ry s' = cls_ry s \<and> cls_rww s' = cls_rww s \<and>
     cls_resp_frame_normal s' = cls_resp_frame_normal s"
  by (rule wrong_master_frame [OF reachable_inv [OF assms(1)] assms(2-4)])

theorem slave_rejects_other_master_witness:
  "\<exists>s' outs. cls_iefb_handle_input_frame 2000 (request_bytes 0xC0A80302 slave_ip 0 0) 0xC0A80302 61450 slave_ip connected_slave
       = Returns (True, s') \<and>
     cls_out s' = cls_out connected_slave @ outs @
       [error_response connected_slave (parsed (request_bytes 0xC0A80302 slave_ip 0 0) 0xC0A80302)
          CL_SLMP_ENDCODE_CCIEFB_MASTER_DUPLICATION] \<and>
     cls_master s' = cls_master connected_slave"
proof -
  have "received_request (request_bytes 0xC0A80302 slave_ip 0 0) 0xC0A80302 61450 slave_ip
      (parsed (request_bytes 0xC0A80302 slave_ip 0 0) 0xC0A80302)" by code_simp
  moreover have "0xC0A80302 \<noteq> ma_master_id (cls_master connected_slave)"
    unfolding connected_slave_facts by code_simp
  ultimately show ?thesis
    using slave_rejects_other_master [OF connected_slave_reachable connected_slave_state, of _ "0xC0A80302", where now = 2000]
    by blast
qed

text \<open>C12: If the latest accepted request of the master was at time t0 with total timeout p, then a periodic call without datagram d microseconds later (d below 2^31, also across a wrap of the clock) keeps the connection when d < p, and otherwise drops it: the slave is without master and all connection data is cleared.\<close>

theorem slave_connection_timeout:
  assumes "cls_reachable s" and "cls_state s = CLS_SLAVE_STATE_MASTER_CONTROL"
    and "cls_receive_timer s = cl_timer_start p t\<^sub>0 x" and "unat d < 2 ^ 31"
  shows "\<exists>s'. cls_iefb_periodic (t\<^sub>0 + d) None s = Returns s' \<and>
    (if d < p then cls_state s' = CLS_SLAVE_STATE_MASTER_CONTROL \<and> cls_master s' = cls_master s
     else cls_state s' = CLS_SLAVE_STATE_MASTER_NONE \<and> cls_master s' = no_master)"
proof -
  have e: "cl_timer_is_expired (cls_receive_timer s) (t\<^sub>0 + d) \<longleftrightarrow> \<not> d < p"
    using assms(3,4) tm.expired_after [of d p t\<^sub>0 x] by (simp add: not_less)
  then show ?thesis
    using periodic_timeout [OF reachable_inv [OF assms(1)] assms(2)]
      periodic_connected [OF reachable_inv [OF assms(1)] assms(2)] by (cases "d < p") auto
qed

theorem slave_connection_timeout_witness:
  "\<exists>s'. cls_iefb_periodic (1000 + 1500000) None connected_slave = Returns s' \<and>
    cls_state s' = CLS_SLAVE_STATE_MASTER_NONE \<and> cls_master s' = no_master"
proof -
  have d: "unat (1500000 :: u32) < 2 ^ 31" by simp
  from slave_connection_timeout [OF connected_slave_reachable connected_slave_facts(1,4) d] show ?thesis by simp
qed

text \<open>C13: With a configuration that passes the checks, memory for the handle, and a platform on which the sockets open and the network interface is found, clm_init succeeds: all groups of the master are in arbitration and the arbitration timer is started at the time of the call. Its parameter number is one above the number in the file, or above 0 when there is none, and is the only number that is saved. Every sequence of calls of the public interface after it returns, if the signals exist in the configuration and no datagram has one of the lengths at which the parser asserts.\<close>

theorem master_starts_up:
  assumes "platform_ok pf cfg" and "arrays_ok cfg" and "clm_validate_config (pf_max_groups pf) (pf_max_stations pf) (Some cfg)"
    and "clm_validate_config_duplicates cfg" and "\<forall>c \<in> set calls. master_call_fits cfg c"
  shows "\<exists>clm clm'. clm_init pf f (Some memory) (Some cfg) now = Returns (Some clm) \<and> clm_reachable clm \<and> clm_config clm = cfg \<and>
    clm_state clm = CLM_MASTER_STATE_ARBITRATION \<and>
    (\<forall>gi < number_of_groups clm. state_of_group clm gi = CLM_GROUP_STATE_MASTER_ARBITRATION) \<and>
    timer_runs (arbitration_period cfg) (clm_arbitration_timer clm) \<and> tm_timestamp (clm_arbitration_timer clm) = now \<and>
    clm_parameter_no clm = next_number pf f \<and> saved_numbers (clm_out clm) = [next_number pf f] \<and>
    for_each master_call calls clm = Returns clm' \<and> clm_reachable clm'"
proof (rule master_started [OF assms(1-4), of f now])
  fix clm assume c: "clm_master_init pf f (Some cfg) now = Returns (Some clm)" "clm_reachable clm" "clm_config clm = cfg"
    "clm_state clm = CLM_MASTER_STATE_ARBITRATION" "\<forall>gi < number_of_groups clm. state_of_group clm gi = CLM_GROUP_STATE_MASTER_ARBITRATION"
    "timer_runs (arbitration_period cfg) (clm_arbitration_timer clm)" "tm_timestamp (clm_arbitration_timer clm) = now"
    "clm_parameter_no clm = next_number pf f" "saved_numbers (clm_out clm) = [next_number pf f]"
  obtain clm' where "for_each master_call calls clm = Returns clm'" "clm_reachable clm'"
    using master_api.sequence_returns [OF c(2), of calls] assms(5) c(3) by blast
  then show ?thesis using c by (intro exI [of _ clm] exI [of _ clm']) (simp add: clm_init_def clm_init_only_def)
qed

theorem master_starts_up_witness:
  "\<exists>clm clm'. clm_init sample_platform (\<lambda>_. None) (Some slmp_master) (Some sample_master_cfg) 500 = Returns (Some clm) \<and>
     state_of_group clm 0 = CLM_GROUP_STATE_MASTER_ARBITRATION \<and> clm_parameter_no clm = next_number sample_platform (\<lambda>_. None) \<and>
     for_each master_call [Call_Set_Ry 0 0 63 True, Call_Node_Search sample_os 600,
       Call_Master_Periodic 1000 [to_slave [1, 2, 3]] sample_clock None [([1, 2, 3], slave_ip, 61450)], Call_Get_Rx_Of 0 0 0] clm = Returns clm'"
proof -
  let ?calls = "[Call_Set_Ry 0 0 63 True, Call_Node_Search sample_os 600,
    Call_Master_Periodic 1000 [to_slave [1, 2, 3]] sample_clock None [([1, 2, 3], slave_ip, 61450)], Call_Get_Rx_Of 0 0 0]"
  have "\<forall>c \<in> set ?calls. master_call_fits sample_master_cfg c"
    by (simp add: signal_fits_def sample_master_cfg_def sample_group_def device_occ_def safe_datagram_def CL_BUFFER_LEN_def cyclic_response_size Let_def)
  from master_starts_up [OF sample_platform_ok(1) sample_config_valid(2) _ sample_config_valid(4) this, of "\<lambda>_. None" slmp_master 500]
    sample_config_valid(3) show ?thesis by (auto simp: sample_platform_def)
qed

text \<open>C14: With a configuration that passes the check, at most 16 stations, memory for the handle and sockets that open, cls_init succeeds and gives a slave without master. Every sequence of calls of the public interface after it - the periodic function with whatever datagrams on the CCIEFB and SLMP sockets, stopping and restarting the cyclic data, setting and reading signals and status - returns if every bit and register number is one of the occupied stations, and fails an assertion if one of them is not.\<close>

theorem slave_starts_up:
  assumes "cls_validate_config max_stations (Some cfg)" and "max_stations \<le> 16"
    and "os_udp_open os CL_IPADDR_ANY CL_SLMP_PORT \<noteq> - 1"
  shows "\<exists>s. cls_init max_stations True os True (Some memory) (Some cfg) now = Returns (Some s) \<and>
    cls_state s = CLS_SLAVE_STATE_MASTER_NONE \<and> cls_reachable s \<and>
    (if list_all (slave_call_fits cfg) calls then \<exists>s'. for_each slave_call calls s = Returns s' \<and> cls_reachable s'
     else for_each slave_call calls s = Assert_Failed)"
proof -
  obtain s where s: "cls_init max_stations True os True (Some memory) (Some cfg) now = Returns (Some s)" "cls_reachable s"
      "cls_state s = CLS_SLAVE_STATE_MASTER_NONE" "cls_config s = cfg"
    using slave_initialised [OF assms] by metis
  then show ?thesis using slave_api.sequence_outcome [OF s(2), of calls] by (auto simp: list_all_iff)
qed

theorem slave_starts_up_witness:
  "(\<exists>s. cls_init 1 True sample_os True (Some (cleared_slave 1 sample_cfg)) (Some sample_cfg) 0 = Returns (Some s) \<and>
     (\<exists>s'. for_each slave_call [Call_Set_Rx 63 True,
        Call_Periodic sample_os 1000 (Some (to_slave [1, 2, 3])) (Some (sample_request 0 0, master_ip, 61450, slave_ip)), Call_Get_Ry 63] s = Returns s')) \<and>
   (\<exists>s. cls_init 1 True sample_os True (Some (cleared_slave 1 sample_cfg)) (Some sample_cfg) 0 = Returns (Some s) \<and>
     for_each slave_call [Call_Restart 5, Call_Set_Rx 64 True] s = Assert_Failed)"
proof (intro conjI)
  have v: "cls_validate_config 1 (Some sample_cfg)"
    by (simp add: cls_validate_config_def sample_cfg_def CL_IPADDR_ANY_def CL_CCIEFB_MIN_OCCUPIED_STATIONS_PER_GROUP_def)
  note run = slave_starts_up [OF v, of sample_os "cleared_slave 1 sample_cfg" 0]
  show "\<exists>s. cls_init 1 True sample_os True (Some (cleared_slave 1 sample_cfg)) (Some sample_cfg) 0 = Returns (Some s) \<and>
     (\<exists>s'. for_each slave_call [Call_Set_Rx 63 True,
        Call_Periodic sample_os 1000 (Some (to_slave [1, 2, 3])) (Some (sample_request 0 0, master_ip, 61450, slave_ip)), Call_Get_Ry 63] s = Returns s')"
    using run [of "[Call_Set_Rx 63 True, Call_Periodic sample_os 1000 (Some (to_slave [1, 2, 3]))
        (Some (sample_request 0 0, master_ip, 61450, slave_ip)), Call_Get_Ry 63]"] by (auto simp: sample_cfg_def)
  show "\<exists>s. cls_init 1 True sample_os True (Some (cleared_slave 1 sample_cfg)) (Some sample_cfg) 0 = Returns (Some s) \<and>
     for_each slave_call [Call_Restart 5, Call_Set_Rx 64 True] s = Assert_Failed"
    using run [of "[Call_Restart 5, Call_Set_Rx 64 True]"] by (auto simp: sample_cfg_def)
qed

text \<open>C15: The application can rely on its callbacks alone: after cls_init and every sequence of calls of the public interface that fit the configuration, with whatever datagrams, the state that was reported last is the state of the slave, the last connect or disconnect callback says connected exactly when the slave is controlled by a master, and a last report of a running master means that the slave still is controlled by a master. So no connection is lost without the application being told.\<close>

theorem application_told:
  assumes "cls_validate_config max_stations (Some cfg)" and "max_stations \<le> 16"
    and "os_udp_open os CL_IPADDR_ANY CL_SLMP_PORT \<noteq> - 1" and "\<forall>c \<in> set calls. slave_call_fits cfg c"
  shows "\<exists>s s'. cls_init max_stations True os True (Some memory) (Some cfg) now = Returns (Some s) \<and>
    for_each slave_call calls s = Returns s' \<and>
    (cfg_state_cb cfg \<longrightarrow> told state_told CLS_SLAVE_STATE_SLAVE_DOWN (cls_out s') = cls_state s') \<and>
    (cfg_connect_cb cfg \<and> cfg_disconnect_cb cfg \<longrightarrow>
       told connection_told False (cls_out s') = (cls_state s' = CLS_SLAVE_STATE_MASTER_CONTROL)) \<and>
    (cfg_master_running_cb cfg \<and> told running_told False (cls_out s') \<longrightarrow> cls_state s' = CLS_SLAVE_STATE_MASTER_CONTROL)"
proof -
  obtain s where s: "cls_init max_stations True os True (Some memory) (Some cfg) now = Returns (Some s)" "cls_reachable s"
      "cls_config s = cfg" "view_ok s"
    using slave_initialised [OF assms(1-3)] by metis
  obtain s' where s': "for_each slave_call calls s = Returns s'" "cls_config s' = cfg"
    using slave_api.sequence_returns [OF s(2), of calls] assms(4) s(3) by blast
  note told = view_okD [OF view.calls_keep [OF s'(1) s(4)], unfolded s'(2)]
  show ?thesis by (intro exI [of _ s] exI [of _ s'] conjI impI s(1) s'(1); (elim conjE)?; rule told; assumption)
qed

theorem application_told_witness:
  "\<exists>s s'. cls_init 1 True sample_os True (Some (cleared_slave 1 sample_cfg)) (Some sample_cfg) 0 = Returns (Some s) \<and>
     for_each slave_call [Call_Periodic sample_os 1000 None (Some (sample_request 0 0, master_ip, 61450, slave_ip)), Call_Stop 2000 False] s = Returns s' \<and>
     told state_told CLS_SLAVE_STATE_SLAVE_DOWN (cls_out s') = cls_state s' \<and>
     told connection_told False (cls_out s') = (cls_state s' = CLS_SLAVE_STATE_MASTER_CONTROL)"
proof -
  have v: "cls_validate_config 1 (Some sample_cfg)"
    by (simp add: cls_validate_config_def sample_cfg_def CL_IPADDR_ANY_def CL_CCIEFB_MIN_OCCUPIED_STATIONS_PER_GROUP_def)
  have "cfg_state_cb sample_cfg" "cfg_connect_cb sample_cfg" "cfg_disconnect_cb sample_cfg" by (simp_all add: sample_cfg_def)
  with application_told [OF v, of sample_os "[Call_Periodic sample_os 1000 None (Some (sample_request 0 0, master_ip, 61450, slave_ip)), Call_Stop 2000 False]"
      "cleared_slave 1 sample_cfg" 0]
  show ?thesis by simp blast
qed

text \<open>C16: When a group of a reachable master is in arbitration and the arbitration timer has expired, the next periodic call ends the arbitration of all groups and puts every group into a link scan before it handles any datagram: a call that receives nothing ends with all groups in a link scan, and a call that receives datagrams handles them from exactly that state, first the one of the arbitration socket, then the others. A response that reports another master can take groups back to listening in the same call, but whatever is received, the call returns and no group is in arbitration afterwards (datagrams of the four sizes that fail the assertion of the parser excepted).\<close>

theorem arbitration_ends_in_scan:
  assumes reach: "clm_reachable clm" and gi: "gi < number_of_groups clm" "state_of_group clm gi = CLM_GROUP_STATE_MASTER_ARBITRATION"
    and e: "cl_timer_is_expired (clm_arbitration_timer clm) now"
  shows "\<exists>c. clm_iefb_periodic now clock None [] clm = Returns c \<and> clm_reachable c \<and>
    (\<forall>gj < number_of_groups clm. state_of_group c gj = CLM_GROUP_STATE_MASTER_LINK_SCAN) \<and>
    (\<forall>arb ds. clm_iefb_periodic now clock arb ds clm =
      obind (case arb of
          Some (bs, ip, port) \<Rightarrow>
            if mc_use_separate_arbitration_socket (clm_config clm) \<and> bs \<noteq> []
            then obind (clm_iefb_handle_input_frame now clock bs ip port c) (\<lambda>(_, c). Returns c) else Returns c
        | None \<Rightarrow> Returns c) (receive_all now clock ds)) \<and>
    (\<forall>arb ds. operation_ok (Master_Periodic now clock arb ds) clm \<longrightarrow>
      (\<exists>clm'. clm_iefb_periodic now clock arb ds clm = Returns clm' \<and> clm_reachable clm' \<and>
        (\<forall>gj < number_of_groups clm. state_of_group clm' gj \<noteq> CLM_GROUP_STATE_MASTER_ARBITRATION)))"
proof -
  note inv = master_reachable_inv [OF reach]
  from arbitration_ends [OF inv gi e, of clock] obtain c where
    c: "clm_iefb_periodic now clock None [] clm = Returns c" "\<forall>gj < number_of_groups clm. state_of_group c gj = CLM_GROUP_STATE_MASTER_LINK_SCAN"
      "\<forall>arb ds. clm_iefb_periodic now clock arb ds clm =
      obind (case arb of
          Some (bs, ip, port) \<Rightarrow>
            if mc_use_separate_arbitration_socket (clm_config clm) \<and> bs \<noteq> []
            then obind (clm_iefb_handle_input_frame now clock bs ip port c) (\<lambda>(_, c). Returns c) else Returns c
        | None \<Rightarrow> Returns c) (receive_all now clock ds)" by blast
  have call: "\<exists>clm'. clm_iefb_periodic now clock arb ds clm = Returns clm' \<and> clm_reachable clm' \<and>
        (\<forall>gj < number_of_groups clm. state_of_group clm' gj \<noteq> CLM_GROUP_STATE_MASTER_ARBITRATION)"
    if o: "operation_ok (Master_Periodic now clock arb ds) clm" for arb ds
  proof -
    have "\<forall>d. arb = Some d \<longrightarrow> safe_datagram (fst d)" "\<forall>d \<in> set ds. safe_datagram (fst d)"
      using o unfolding operation_ok.simps by (auto split: option.splits)
    from master_periodic_ok [OF inv this, of now clock] obtain clm' where
      r: "clm_iefb_periodic now clock arb ds clm = Returns clm'" "clm_inv clm'" "clm_config clm' = clm_config clm" by blast
    have "clm_reachable clm'" by (rule clm_reachable.step [OF reach o]) (simp add: r(1))
    then show ?thesis using r arbitration_stays_over [OF inv gi e r(1,2)] by simp
  qed
  have "clm_reachable c" by (rule clm_reachable.step [OF reach, of "Master_Periodic now clock None []"]) (use c(1) in simp_all)
  then show ?thesis by (intro exI [of _ c] conjI c allI impI call)
qed

theorem arbitration_ends_in_scan_witness:
  "\<exists>c clm'. clm_iefb_periodic (due (clm_arbitration_timer started_master)) sample_clock None [] started_master = Returns c \<and>
     clm_reachable c \<and> state_of_group c 0 = CLM_GROUP_STATE_MASTER_LINK_SCAN \<and>
     clm_iefb_periodic (due (clm_arbitration_timer started_master)) sample_clock None [([0xD0, 0], slave_ip, 61450)] started_master = Returns clm' \<and>
     state_of_group clm' 0 \<noteq> CLM_GROUP_STATE_MASTER_ARBITRATION"
proof -
  have "operation_ok (Master_Periodic (due (clm_arbitration_timer started_master)) sample_clock None [([0xD0, 0], slave_ip, 61450)]) started_master"
    by (simp add: safe_datagram_def CL_BUFFER_LEN_def cyclic_response_size)
  moreover have "0 < number_of_groups started_master" by (simp add: started_master_ok(3))
  ultimately show ?thesis
    using arbitration_ends_in_scan [OF started_master_ok(2) _ started_master_ok(4) started_master_due, of sample_clock] by blast
qed

text \<open>C17: A request of another master that reaches a reachable master makes every group that is in arbitration go back to listening, while groups in any other state keep their state; the address of the other master is stored as that of the latest conflicting master, and the call succeeds.\<close>

theorem other_master_stops_arbitration:
  assumes "clm_reachable clm"
  shows "\<exists>clm'. clm_iefb_handle_request_frame now clock ip clm = Returns (True, clm') \<and> clm_inv clm' \<and>
    clm_latest_conflicting_master_ip clm' = ip \<and>
    (\<forall>gi < number_of_groups clm. state_of_group clm' gi =
       (if state_of_group clm gi = CLM_GROUP_STATE_MASTER_ARBITRATION then CLM_GROUP_STATE_MASTER_LISTEN else state_of_group clm gi))"
proof -
  from other_master_request [OF master_reachable_inv [OF assms], of now clock ip] obtain clm' where
    c: "clm_iefb_handle_request_frame now clock ip clm = Returns (True, clm')" "clm_inv clm'"
      "\<forall>gi < number_of_groups clm. state_of_group clm' gi = group_target CLM_GROUP_EVENT_REQ_FROM_OTHER (state_of_group clm gi)" by blast
  then show ?thesis using request_frame_stores [OF c(1)] by (auto simp: group_target_def)
qed

theorem other_master_stops_arbitration_witness:
  "\<exists>clm'. clm_iefb_handle_request_frame 100 sample_clock 0xC0A80302 started_master = Returns (True, clm') \<and>
     clm_latest_conflicting_master_ip clm' = 0xC0A80302 \<and> state_of_group clm' 0 = CLM_GROUP_STATE_MASTER_LISTEN"
  using other_master_stops_arbitration [OF started_master_ok(2), of 100 sample_clock "0xC0A80302"] started_master_ok(3,4) by auto

text \<open>C18: A request frame that the master initialises and whose headers it updates, for a supported protocol version, 1 to 16 stations, group 1 to 64 and application status bits that the version allows, is accepted by the parser of the slave with exactly the header values written and with the same positions of slave ids, RWw and RY.\<close>

theorem request_reaches_slave:
  assumes "67 + 76 * n \<le> buf_size" "v \<in> {1, 2}" "1 \<le> n" "n \<le> 16" "1 \<le> unat g" "unat g \<le> 64" "m \<noteq> 0"
    and "u AND (if v = 1 then 0xFFFE else 0xFFFC) = 0"
  shows "\<exists>f f' r. cl_iefb_initialise_request_frame buf_size v t c m g n p = Returns f \<and>
    f' = cl_iefb_update_request_frame_headers f sqn clock u trs \<and>
    cl_iefb_parse_cyclic_request (take (mq_udp_payload_len f') (mq_buffer f')) m port my = Returns (Some r) \<and>
    rq_total_occupied r = n \<and> rq_first_slave_id r = mq_first_slave_id f' \<and>
    rq_first_rww r = Some (mq_first_rww f') \<and> rq_first_ry r = Some (mq_first_ry f') \<and>
    rq_full_headers r = updated_request_headers (initial_request_headers (67 + 76 * n) v t c m g n p) sqn clock u trs"
proof -
  from initialise_request_frame_ok [OF assms(1), of v t c m g p] obtain f where
    f: "cl_iefb_initialise_request_frame buf_size v t c m g n p = Returns f" "request_frame_wf f n"
      "dec_req_full_headers (mq_buffer f) 0 = initial_request_headers (67 + 76 * n) v t c m g n p" by blast
  let ?f' = "cl_iefb_update_request_frame_headers f sqn clock u trs"
  let ?h = "updated_request_headers (initial_request_headers (67 + 76 * n) v t c m g n p) sqn clock u trs"
  note w = update_request_frame_headers_ok [OF f(2) refl, of sqn clock u trs]
  have cnt: "unat (qdh_slave_total_occupied_station_count (qf_cyclic_data_header ?h)) = n"
    using assms(4) unat_of_nat_u16 [of n] by (simp add: updated_request_headers_def initial_request_headers_def)
  have "dec_req_full_headers (mq_buffer ?f') 0 = ?h" using w(3) f(3) by simp
  from parse_built_request [OF w(1) assms(3,4) this initial_request_valid [OF assms(2-8)] cnt]
  show ?thesis using f(1) cnt by (fastforce simp: rq_total_occupied_def)
qed

theorem request_reaches_slave_witness:
  "\<exists>f f' r. cl_iefb_initialise_request_frame 1500 2 500 3 master_ip 1 4 1 = Returns f \<and>
    f' = cl_iefb_update_request_frame_headers f 17 1000 1 3 \<and>
    cl_iefb_parse_cyclic_request (take (mq_udp_payload_len f') (mq_buffer f')) master_ip 61450 slave_ip = Returns (Some r) \<and>
    rq_total_occupied r = 4"
  using request_reaches_slave [of 4 1500 2 1 master_ip 1 500 3 1 17 1000 3 61450 slave_ip]
  by (simp add: master_ip_def) blast

text \<open>C19: The response that a reachable slave sends for a valid request is accepted by the parser of the master: it carries the slave's station count, end code success, the sequence number of the request, and the RWr and RX data of the slave's frame.\<close>

theorem slave_response_reaches_master:
  assumes reach: "cls_reachable s" and r: "request_ok r"
  shows "\<exists>rp. cl_iefb_parse_cyclic_response (cyclic_response s r) (rq_slave_ip_addr r) port now = Returns (Some rp) \<and>
    rp_number_of_occupied rp = cfg_num_occupied_stations (cls_config s) \<and>
    csh_end_code (sf_cyclic_header (rp_full_headers rp)) = CL_SLMP_ENDCODE_SUCCESS \<and>
    sdh_frame_sequence_no (sf_cyclic_data_header (rp_full_headers rp)) =
      qdh_frame_sequence_no (qf_cyclic_data_header (rq_full_headers r)) \<and>
    drop 59 (rp_buffer rp) = take (72 * cfg_num_occupied_stations (cls_config s))
      (drop 59 (sr_buffer (if my_transmission_bit s r then cls_resp_frame_normal s else cls_resp_frame_error s)))"
proof -
  let ?f = "if my_transmission_bit s r then cls_resp_frame_normal s else cls_resp_frame_error s"
  let ?k = "cfg_num_occupied_stations (cls_config s)"
  let ?h = "qf_cyclic_data_header (rq_full_headers r)"
  have inv: "cls_inv s" by (rule reachable_inv [OF reach])
  have wf: "response_frame_wf ?f ?k" "1 \<le> ?k" "?k \<le> 16" using inv by (simp_all add: inv_defs)
  have g: "unat (ucast (qdh_group_no ?h) :: u16) = unat (qdh_group_no ?h)"
    using unat_less_pow(2) [of "qdh_group_no ?h"] by (simp add: unsigned_ucast_eq take_bit_nat_eq_self)
  note facts = request_ok_facts [OF r]
  have ui: "cls_slave_application_status s \<in> {0, 1}" using inv by (simp add: inv_defs)
  have "1 \<le> unat (ucast (qdh_group_no ?h) :: u16)" "unat (ucast (qdh_group_no ?h) :: u16) \<le> 64"
    using facts g by simp_all
  from sent_response_parses [OF wf this facts(7) ui refl] show ?thesis
    unfolding cyclic_response_def Let_def by blast
qed

theorem slave_response_reaches_master_witness:
  "\<exists>rp. cl_iefb_parse_cyclic_response (cyclic_response connected_slave (parsed (sample_request 1 1) master_ip))
      slave_ip 61450 2100 = Returns (Some rp) \<and> rp_number_of_occupied rp = 1"
proof -
  have r: "request_ok (parsed (sample_request 1 1) master_ip)"
    by (rule received_request_ok [of "sample_request 1 1" master_ip 61450 slave_ip]) code_simp
  have e: "rq_slave_ip_addr (parsed (sample_request 1 1) master_ip) = slave_ip" by code_simp
  show ?thesis using slave_response_reaches_master [OF connected_slave_reachable r, of 61450 2100]
    unfolding e connected_slave_facts(5) by blast
qed

text \<open>C20: The outputs of the master implement two independent partial maps from group, device and number to values. In a reachable master a list of writes to RY bits of the domain succeeds, the map of the RY bits read afterwards is the old map updated with the writes in their order, and the map of the RWw registers is the old one; in the same way a list of writes to RWw registers updates their map and leaves the map of the RY bits as it was.\<close>

theorem master_outputs_refine_maps:
  assumes "clm_reachable clm" and "fst ` set bits \<subseteq> dom (signal_view get_ry clm)" and "fst ` set regs \<subseteq> dom (signal_view get_rww clm)"
  shows "(\<exists>clm'. write_all set_ry bits clm = Returns clm' \<and> clm_inv clm' \<and>
      signal_view get_ry clm' = signal_view get_ry clm ++ map_of (rev bits) \<and>
      signal_view get_rww clm' = signal_view get_rww clm) \<and>
    (\<exists>clm'. write_all set_rww regs clm = Returns clm' \<and> clm_inv clm' \<and>
      signal_view get_rww clm' = signal_view get_rww clm ++ map_of (rev regs) \<and>
      signal_view get_ry clm' = signal_view get_ry clm)"
  using ry.view_write_all [OF master_reachable_inv [OF assms(1)] assms(2)]
    rww.view_write_all [OF master_reachable_inv [OF assms(1)] assms(3)]
    ry_writes_keep_rww [OF master_reachable_inv [OF assms(1)]] rww_writes_keep_ry [OF master_reachable_inv [OF assms(1)]] by blast

theorem master_outputs_refine_maps_witness:
  "\<exists>clm'. write_all set_ry [((0, 0, 3), True), ((0, 0, 63), False), ((0, 0, 3), False)] scanning_master = Returns clm' \<and>
     signal_view get_ry clm' (0, 0, 3) = Some False \<and> signal_view get_ry clm' (0, 0, 63) = Some False \<and>
     signal_view get_rww clm' (0, 0, 5) = signal_view get_rww scanning_master (0, 0, 5)"
proof -
  have inv: "clm_inv scanning_master" by (rule master_reachable_inv [OF scanning_master_ok(1)])
  have "ry_valid (0, 0, 3) scanning_master" "ry_valid (0, 0, 63) scanning_master"
    by (simp_all add: ry_valid_def device_setting_at_def scanning_master_ok(2))
  then have "fst ` set [((0, 0, 3), True), ((0, 0, 63), False), ((0, 0, 3), False)] \<subseteq> dom (signal_view get_ry scanning_master)"
    using ry.dom_view [OF inv] by simp
  from master_outputs_refine_maps [OF scanning_master_ok(1) this, of "[]"] obtain clm' where
    "write_all set_ry [((0, 0, 3), True), ((0, 0, 63), False), ((0, 0, 3), False)] scanning_master = Returns clm'"
    "signal_view get_ry clm' = signal_view get_ry scanning_master ++ map_of (rev [((0, 0, 3), True), ((0, 0, 63), False), ((0, 0, 3), False)])"
    "signal_view get_rww clm' = signal_view get_rww scanning_master"
    by auto
  then show ?thesis by simp
qed



text \<open>C22: A request to set an IP address that the master has sent changes only the slave whose MAC address it names; any other slave discards it. The addressed slave changes its address, when its configuration allows it, answers from the new address, or from the old one when it was not changed, and notifies its application; the answer makes the master confirm success exactly when the address has been changed, and an error otherwise.\<close>

theorem set_ip_carried_out:
  assumes "clm_slmp_perform_set_ipaddr_request osm now smac nip nmask m = Returns (True, m1)"
    and "length (clm_mac_address m) = 6" and "mc_master_id (clm_config m) \<noteq> CL_IPADDR_INVALID" and "length smac = 6"
    and "slmp_wf (cls_node_search_data s)" and "\<not> cl_timer_is_running (ns_response_timer (cls_node_search_data s))"
    and "dg_data d = set_ip_request smac nip nmask m" and "dg_remote_ip d = mc_master_id (clm_config m)"
    and "os_get_mac_address oss (dg_ifindex d) = Some mac'" and "os_get_netmask oss (dg_ifindex d) = Some nm"
    and "ok = (cfg_ip_setting_allowed (cls_config s) \<and> os_set_ip_address_netmask oss (dg_ifindex d) nip nmask)"
    and "os_udp_open oss (if ok then nip else dg_local_ip d) CL_SLMP_PORT \<noteq> - 1"
    and "clm_set_ip_request_serial m2 = clm_set_ip_request_serial m1" and "clm_node_search_serial m2 \<noteq> clm_set_ip_request_serial m1"
    and "clm_mac_address m2 = clm_mac_address m"
  shows "if mac' = smac
    then \<exists>s1 resp. cls_slmp_periodic oss t0 (Some d) s = Returns s1 \<and>
      cls_out s1 = cls_out s @
        (if cfg_ip_setting_allowed (cls_config s) then [Set_Network_Settings (dg_ifindex d) nip nmask] else []) @
        [Slmp_Response (if ok then nip else dg_local_ip d) (broadcast_target s nmask nip) (dg_remote_port d) resp] @
        (if cfg_set_ip_cb (cls_config s) then [Set_Ip_Callback (clm_mac_address m) (dg_remote_ip d) nip nmask
           (cfg_ip_setting_allowed (cls_config s)) ok] else []) \<and>
      clm_slmp_handle_input_frame resp (clm_ifindex m2) m2 = (True, clm_slmp_set_ip_notify_cfm
        (if ok then CLM_MASTER_SET_IP_STATUS_SUCCESS else CLM_MASTER_SET_IP_STATUS_ERROR) m2)
    else cls_slmp_periodic oss t0 (Some d) s = Returns s"
  using set_ip_roundtrip [OF assms] by simp

theorem set_ip_carried_out_witness:
  "\<exists>s1 resp. cls_slmp_periodic sample_os 0 (Some (to_slave (set_ip_request [10, 11, 12, 13, 14, 15] 0xC0A80317 0xFFFFFF00 slmp_master))) blank_slave = Returns s1 \<and>
     Set_Network_Settings 2 0xC0A80317 0xFFFFFF00 \<in> set (cls_out s1) \<and>
     clm_slmp_handle_input_frame resp (clm_ifindex setting_master) setting_master =
       (True, clm_slmp_set_ip_notify_cfm CLM_MASTER_SET_IP_STATUS_SUCCESS setting_master)"
proof -
  let ?d = "to_slave (set_ip_request [10, 11, 12, 13, 14, 15] 0xC0A80317 0xFFFFFF00 slmp_master)"
  have d: "dg_data ?d = set_ip_request [10, 11, 12, 13, 14, 15] 0xC0A80317 0xFFFFFF00 slmp_master"
    "dg_remote_ip ?d = mc_master_id (clm_config slmp_master)" "dg_ifindex ?d = 2" by (simp_all add: to_slave_def slmp_master_fields)
  have v: "mc_master_id (clm_config slmp_master) \<noteq> CL_IPADDR_INVALID"
    by (simp add: slmp_master_fields master_ip_def CL_IPADDR_INVALID_def)
  have os: "os_get_mac_address sample_os (dg_ifindex ?d) = Some [10, 11, 12, 13, 14, 15]"
    "os_get_netmask sample_os (dg_ifindex ?d) = Some 0xFFFFFF00" by (simp_all add: d)
  have l: "length [10, 11, 12, 13, 14, 15 :: u8] = 6" by simp
  have c: "cfg_ip_setting_allowed (cls_config blank_slave)" by (simp add: blank_slave_slmp sample_cfg_def)
  then have ok: "True = (cfg_ip_setting_allowed (cls_config blank_slave) \<and> os_set_ip_address_netmask sample_os (dg_ifindex ?d) 0xC0A80317 0xFFFFFF00)"
    by simp
  have o: "os_udp_open sample_os (if True then 0xC0A80317 else dg_local_ip ?d) CL_SLMP_PORT \<noteq> - 1" by simp
  have n: "clm_node_search_serial setting_master \<noteq> clm_set_ip_request_serial setting_master" by (simp add: searching_master_fields)
  from set_ip_carried_out [OF sample_set_ip slmp_master_fields(1) v l blank_slave_slmp(1,2) d(1,2) os ok o refl n searching_master_fields(3)]
  obtain s1 resp where "cls_slmp_periodic sample_os 0 (Some ?d) blank_slave = Returns s1"
    "Set_Network_Settings (dg_ifindex ?d) 0xC0A80317 0xFFFFFF00 \<in> set (cls_out s1)"
    "clm_slmp_handle_input_frame resp (clm_ifindex setting_master) setting_master =
       (True, clm_slmp_set_ip_notify_cfm CLM_MASTER_SET_IP_STATUS_SUCCESS setting_master)" using c by fastforce
  then show ?thesis unfolding d(3) by blast
qed

text \<open>C23: From the initialisation of SLMP in the master on, whatever datagrams arrive and in whatever order the application calls the functions: the confirmations of set-IP requests made so far, and one when a request is in progress, are as many as the set-IP requests that were accepted, and likewise for node searches. Every call returns, and a request is not in progress any more after a periodic call at which its timer has expired.\<close>

theorem slmp_requests_confirmed:
  assumes "length (db_entries (clm_node_search_data s)) \<le> 255" and "clm_slmp_init os s = (True, s0)"
    and "mc_set_ip_cfm_cb (clm_config s)" and "mc_node_search_cfm_cb (clm_config s)" and "clm_out s = []"
  shows "\<exists>oks s'. slmp_run cs s0 = Returns (oks, s') \<and> length oks = length cs \<and>
    length (filter is_set_ip_cfm (clm_out s')) + of_bool (clm_set_ip_request_serial s' \<noteq> - 1) =
      length (filter (\<lambda>(c, ok). is_set_ip_call c \<and> ok) (zip cs oks)) \<and>
    length (filter is_search_cfm (clm_out s')) + of_bool (clm_node_search_serial s' \<noteq> - 1) =
      length (filter (\<lambda>(c, ok). is_search_call c \<and> ok) (zip cs oks)) \<and>
    (cl_timer_is_expired (clm_set_ip_request_timer s') now \<longrightarrow> clm_set_ip_request_serial (clm_slmp_periodic now ds s') = - 1) \<and>
    (cl_timer_is_expired (clm_node_search_timer s') now \<longrightarrow> clm_node_search_serial (clm_slmp_periodic now ds s') = - 1)"
proof -
  note i = slmp_init_account [OF assms(1,2)]
  have "confirms s0" using assms(3,4) i(5) by (simp add: confirms_def)
  from slmp_run_account [OF i(1) this, of cs] show ?thesis
    using i assms(5) periodic_ends_set_ip periodic_ends_search by (fastforce simp: set_ip_account_def search_account_def)
qed

theorem slmp_requests_confirmed_witness:
  "\<exists>oks s'. slmp_run [Search_Call sample_os 0, Periodic_Call 10 []] (snd (clm_slmp_init sample_os slmp_master)) = Returns (oks, s') \<and>
     length (filter is_search_cfm (clm_out s')) + of_bool (clm_node_search_serial s' \<noteq> - 1) =
       length (filter (\<lambda>(c, ok). is_search_call c \<and> ok) (zip [Search_Call sample_os 0, Periodic_Call 10 []] oks))"
proof -
  have "clm_slmp_init sample_os slmp_master = (True, snd (clm_slmp_init sample_os slmp_master))"
    by (simp add: clm_slmp_init_def Let_def)
  from slmp_requests_confirmed [OF _ this, of "[Search_Call sample_os 0, Periodic_Call 10 []]"] slmp_master_fields(4) show ?thesis
    by (fastforce simp: confirms_def slmp_master_def blank_master_def)
qed



text \<open>C25: The two validation functions of the master together accept exactly the declaratively valid configurations: ranges of every setting and of the sums of stations, and no slave address twice. In particular the 16 bit sums of the code do not wrap around.\<close>

theorem configuration_check:
  assumes "options_ok mg ms" and "arrays_ok cfg"
  shows "clm_validate_config mg ms (Some cfg) \<and> clm_validate_config_duplicates cfg \<longleftrightarrow> config_valid mg ms cfg \<and> distinct (slave_ids_of cfg)"
  using validate_config_iff [OF assms(1)] duplicates_iff [OF assms(2)] by blast

theorem configuration_check_witness: "config_valid 1 1 sample_master_cfg \<and> distinct (slave_ids_of sample_master_cfg)"
  using configuration_check [OF sample_config_valid(1,2)] sample_config_valid(3,4) by blast

text \<open>C26: A datagram passes the checks of the slave for a node search, with a given serial number, MAC and IP address of the master, if and only if it is byte for byte the request that the master prepares for them; the same holds of the requests to set an IP address, for a valid address and netmask.\<close>

theorem slmp_requests_recognised:
  "(slmp_request_ok bs serial CL_SLMP_COMMAND_NODE_SEARCH CL_SLMP_SUBCOMMAND_NODE_SEARCH \<and>
     (\<exists>r. cl_slmp_parse_node_search_request bs = Some r \<and> cl_slmp_validate_node_search_request r \<and>
        cl_util_copy_mac_reverse (replicate 6 0) (nsq_master_mac_addr r) = mac \<and> nsq_master_ip_addr r = ip) \<longleftrightarrow>
   length mac = 6 \<and> ip \<noteq> CL_IPADDR_INVALID \<and> bs = enc_node_search_request (node_search_request_frame mac ip serial)) \<and>
   (slmp_request_ok bs serial CL_SLMP_COMMAND_NODE_IPADDRESS_SET CL_SLMP_SUBCOMMAND_NODE_IPADDRESS_SET \<and>
     (\<exists>r. cl_slmp_parse_set_ip_request bs = Some r \<and> cl_slmp_validate_set_ip_request r \<and>
        cl_util_copy_mac_reverse (replicate 6 0) (siq_master_mac_addr r) = mac \<and> siq_master_ip_addr r = ip \<and>
        cl_util_copy_mac_reverse (replicate 6 0) (siq_slave_mac_addr r) = smac \<and>
        siq_slave_new_ip_addr r = nip \<and> siq_slave_new_netmask r = nmask) \<longleftrightarrow>
   length mac = 6 \<and> length smac = 6 \<and> ip \<noteq> CL_IPADDR_INVALID \<and> nip \<noteq> CL_IPADDR_INVALID \<and>
     cl_utils_is_netmask_valid nmask \<and> bs = enc_set_ipaddr_request (set_ip_request_frame mac ip serial smac nip nmask))"
  by (intro conjI node_search_request_accepted set_ip_request_accepted)

text \<open>C27: Parsing a received request never reaches the failing assertion; when it succeeds the station count is 1 to 16, the datagram has exactly 67 + 76 n bytes, and every RWw and RY area that the accessors return for a station lies inside the datagram, after the headers.\<close>

theorem request_parsing_safe:
  "\<exists>res. cl_iefb_parse_cyclic_request bs ip port my = Returns res \<and>
    (\<forall>r. res = Some r \<longrightarrow> 1 \<le> rq_total_occupied r \<and> rq_total_occupied r \<le> 16 \<and>
       length bs = cl_calculate_cyclic_request_size (rq_total_occupied r) \<and>
       (\<forall>k i. cl_iefb_request_get_rww r k = Some i \<longrightarrow> 67 \<le> i \<and> i + 64 \<le> length bs) \<and>
       (\<forall>k i. cl_iefb_request_get_ry r k = Some i \<longrightarrow> 67 \<le> i \<and> i + 8 \<le> length bs))"
proof -
  obtain res where res: "cl_iefb_parse_cyclic_request bs ip port my = Returns res"
    using parse_request_returns by blast
  moreover have "1 \<le> rq_total_occupied r \<and> rq_total_occupied r \<le> 16 \<and>
      length bs = cl_calculate_cyclic_request_size (rq_total_occupied r) \<and>
      (\<forall>k i. cl_iefb_request_get_rww r k = Some i \<longrightarrow> 67 \<le> i \<and> i + 64 \<le> length bs) \<and>
      (\<forall>k i. cl_iefb_request_get_ry r k = Some i \<longrightarrow> 67 \<le> i \<and> i + 8 \<le> length bs)" if "res = Some r" for r
    using parse_request_Some(1-3) [OF res [unfolded that]] parsed_request_areas_in_bounds [OF res [unfolded that]]
    by (fastforce simp: cyclic_request_size)
  ultimately show ?thesis by blast
qed

theorem request_parsing_safe_witness:
  "\<exists>res. cl_iefb_parse_cyclic_request (sample_request 0 0) master_ip 61450 slave_ip = Returns res \<and>
    (\<forall>r. res = Some r \<longrightarrow> length (sample_request 0 0) = cl_calculate_cyclic_request_size (rq_total_occupied r))"
  using request_parsing_safe [of "sample_request 0 0" master_ip 61450 slave_ip] by blast

text \<open>C28: Parsing a received response reaches the failing assertion exactly when its headers are valid and its size is that of more than 16 stations; such a datagram of 17 stations fits the receive buffer, so the assertion can be triggered from the network.\<close>

theorem response_parsing_asserts:
  assumes "length bs \<le> CL_BUFFER_LEN"
  shows "cl_iefb_parse_cyclic_response bs ip port now = Assert_Failed \<longleftrightarrow>
    cl_iefb_validate_resp_full_cyclic_headers (dec_resp_full_headers bs 0) (length bs) ip \<and>
    length bs \<in> {cl_calculate_cyclic_response_size n | n. n \<in> {17..20}}"
proof -
  have "length bs < 2 ^ 64" using assms by (simp add: CL_BUFFER_LEN_def)
  moreover have "(\<exists>n > 16. n < 65536 \<and> length bs = 59 + 72 * n) \<longleftrightarrow>
      length bs \<in> {cl_calculate_cyclic_response_size n | n. n \<in> {17..20}}"
    using assms by (auto simp: cyclic_response_size CL_BUFFER_LEN_def intro: exI [of _ "(length bs - 59) div 72"])
  ultimately show ?thesis using parse_response_assert_iff by simp
qed

theorem response_parsing_asserts_witness:
  "cl_iefb_parse_cyclic_response
     (enc_resp_full_headers (updated_response_headers (initial_response_headers 1283 1 1 1) slave_ip 0 1 1 1 0 0)
        @ replicate 1224 0) slave_ip 61450 0 = Assert_Failed"
proof -
  let ?bs = "enc_resp_full_headers (updated_response_headers (initial_response_headers 1283 1 1 1) slave_ip 0 1 1 1 0 0)
    @ replicate 1224 0"
  have v: "cl_iefb_validate_resp_full_cyclic_headers (dec_resp_full_headers ?bs 0) (length ?bs) slave_ip" by code_simp
  have l: "length ?bs = 1283" by code_simp
  then have "length ?bs \<in> {cl_calculate_cyclic_response_size n | n. n \<in> {17..20}}"
    by (auto simp: cyclic_response_size intro: exI [of _ 17])
  then show ?thesis using response_parsing_asserts [of ?bs slave_ip 61450 0] v l by (simp add: CL_BUFFER_LEN_def)
qed

text \<open>C29: Searching the slave ids of a request gives what the list of ids says: not found when the address does not occur; station number and 1 plus the number of directly following multi-station markers when it occurs exactly once; an error when it occurs more than once.\<close>

theorem slave_ids_analysed:
  assumes "my \<noteq> 0" "1 \<le> tot" "tot \<le> 16"
  shows "cl_iefb_analyze_slave_ids my tot buf first =
    (let ids = request_slave_ids buf first tot; rest = drop 1 (dropWhile (\<lambda>x. x \<noteq> my) ids) in
     if my \<notin> set ids then Some (False, 0, 0)
     else if my \<in> set rest then None
     else Some (True, length (takeWhile (\<lambda>x. x \<noteq> my) ids) + 1,
                1 + length (takeWhile (\<lambda>x. x = CL_CCIEFB_MULTISTATION_INDICATOR) rest)))"
proof (cases "my \<in> set (request_slave_ids buf first tot)")
  case False
  then show ?thesis
    using assms analyze_ids_spec(1) [OF False] by (simp add: analyze_slave_ids_eq Let_def)
next
  case True
  let ?ids = "request_slave_ids buf first tot"
  obtain xs ys where s: "?ids = xs @ my # ys" "my \<notin> set xs" using True by (meson split_list_first)
  have w: "takeWhile (\<lambda>x. x \<noteq> my) ?ids = xs" "drop 1 (dropWhile (\<lambda>x. x \<noteq> my) ?ids) = ys"
    unfolding s(1) using s(2) by (induction xs) auto
  show ?thesis
    unfolding analyze_slave_ids_eq [OF assms] Let_def w
    using True analyze_ids_spec(2,3) [OF s] by (auto simp: CL_CCIEFB_MULTISTATION_INDICATOR_def)
qed

theorem slave_ids_analysed_witness:
  "cl_iefb_analyze_slave_ids slave_ip 3 (le32_bytes master_ip @ le32_bytes slave_ip @ le32_bytes (- 1)) 0 = Some (True, 2, 2)"
proof -
  have i: "request_slave_ids (le32_bytes master_ip @ le32_bytes slave_ip @ le32_bytes (- 1)) 0 3 = [master_ip, slave_ip, - 1]"
    by code_simp
  show ?thesis
    using slave_ids_analysed [of slave_ip 3, where buf = "le32_bytes master_ip @ le32_bytes slave_ip @ le32_bytes (- 1)" and first = 0]
    unfolding i by (simp add: Let_def master_ip_def slave_ip_def CL_CCIEFB_MULTISTATION_INDICATOR_def)
qed

text \<open>C30: For every reachable slave and every event with a valid request, the do-while loop of cls_iefb_fsm_event ends: two rounds give a result, and any larger bound gives the same result.\<close>

theorem slave_fsm_loop_terminates:
  assumes "cls_reachable s" and "request_valid req"
    and "ev = CLS_SLAVE_EVENT_CYCLIC_NEW_MASTER \<longrightarrow> req \<noteq> None" and "fsm_fuel \<le> fuel"
  shows "\<exists>s'. event_loop (fsm_round now req) CLS_SLAVE_EVENT_NONE fuel ev s = Returns s' \<and>
    event_loop (fsm_round now req) CLS_SLAVE_EVENT_NONE fsm_fuel ev s = Returns s'"
proof -
  have en: "event_enabled req ev s"
    using reachable_inv [OF assms(1)] assms(2,3) by (auto simp: event_enabled_def cls_inv_def)
  have rank: "event_rank ev < fsm_fuel" "event_rank ev < fuel"
    using assms(4) by (auto simp: event_rank_def fsm_fuel_def)
  show ?thesis
    using slave_fsm.loop_returns [OF en rank(1), of now] slave_fsm.loop_more_fuel [OF en rank, of now] by auto
qed

theorem slave_fsm_loop_terminates_witness:
  "\<exists>s'. event_loop (fsm_round 2000 None) CLS_SLAVE_EVENT_NONE 10 CLS_SLAVE_EVENT_TIMEOUT_MASTER connected_slave = Returns s' \<and>
    event_loop (fsm_round 2000 None) CLS_SLAVE_EVENT_NONE fsm_fuel CLS_SLAVE_EVENT_TIMEOUT_MASTER connected_slave = Returns s'"
  by (rule slave_fsm_loop_terminates [OF connected_slave_reachable]) (simp_all add: fsm_fuel_def)

text \<open>C31: The do-while loop of clm_iefb_group_fsm_event ends after at most two rounds: once the tables are built, and so for every reachable master, any larger bound gives the same result as two rounds, for every event, every group and every state. Wherever the stack raises an event (STARTUP and NEW_CONFIG of a group that is initialised, ARBITRATION_DONE, REQ_FROM_OTHER and MASTERDUPL_ALARM of all groups, LINKSCAN_TIMEOUT and LINKSCAN_START after the timer that expired is stopped, LINKSCAN_COMPLETE after the last response) the loop returns a result; groups_inv, which the raised events of a running master refer to, holds for every reachable master.\<close>

theorem group_loop_terminates:
  assumes "group_fuel \<le> fuel"
  shows "group_tables (clm_iefb_group_fsm_tables_init clm) \<and>
    (clm_reachable clm \<longrightarrow> group_tables clm \<and> groups_inv clm) \<and>
    (group_tables clm \<longrightarrow> event_loop (group_round now clock gi) CLM_GROUP_EVENT_NONE fuel ev clm =
       event_loop (group_round now clock gi) CLM_GROUP_EVENT_NONE group_fuel ev clm) \<and>
    (group_event_raised gi ev clm \<longrightarrow>
       (\<exists>clm'. event_loop (group_round now clock gi) CLM_GROUP_EVENT_NONE fuel ev clm = Returns clm'))"
proof -
  have "group_tables clm \<and> groups_inv clm" if "clm_reachable clm"
    using master_reachable_inv [OF that] by (simp add: clm_inv_def groups_inv_def master_ok_def)
  moreover have "group_tables (clm_iefb_group_fsm_tables_init clm)" by (simp add: group_tables_def clm_iefb_group_fsm_tables_init_def)
  ultimately show ?thesis using group_loop_bound [OF _ assms] raised_loop_returns [OF _ assms] by blast
qed

theorem group_loop_terminates_witness:
  "event_loop (group_round 50 sample_clock 0) CLM_GROUP_EVENT_NONE 9 CLM_GROUP_EVENT_LINKSCAN_COMPLETE started_master =
     event_loop (group_round 50 sample_clock 0) CLM_GROUP_EVENT_NONE group_fuel CLM_GROUP_EVENT_LINKSCAN_COMPLETE started_master \<and>
   (\<exists>clm'. event_loop (group_round 50 sample_clock 0) CLM_GROUP_EVENT_NONE 9 CLM_GROUP_EVENT_ARBITRATION_DONE started_master = Returns clm') \<and>
   (\<exists>clm'. event_loop (group_round 50 sample_clock 0) CLM_GROUP_EVENT_NONE 9 CLM_GROUP_EVENT_LINKSCAN_TIMEOUT (set_group 0
      ((clm_groups scanning_master ! 0)\<lparr>gd_response_wait_timer := cl_timer_stop (gd_response_wait_timer (clm_groups scanning_master ! 0))\<rparr>)
      scanning_master) = Returns clm')"
proof -
  have f: "group_fuel \<le> 9" by (simp add: group_fuel_def)
  note p = group_loop_terminates [OF f]
  have i: "groups_inv started_master" "groups_inv scanning_master" "group_tables started_master"
    using p [of _ 50 sample_clock 0 CLM_GROUP_EVENT_NONE] started_master_ok(2) scanning_master_ok(1) by blast+
  have r: "group_event_raised 0 CLM_GROUP_EVENT_ARBITRATION_DONE started_master"
    using i(1) by (simp add: group_event_raised_def started_master_ok(3))
  have r': "group_event_raised 0 CLM_GROUP_EVENT_LINKSCAN_TIMEOUT (set_group 0
      ((clm_groups scanning_master ! 0)\<lparr>gd_response_wait_timer := cl_timer_stop (gd_response_wait_timer (clm_groups scanning_master ! 0))\<rparr>)
      scanning_master)"
    using i(2) unfolding group_event_raised_def Let_def by (auto simp: scanning_master_ok(2))
  show ?thesis using p i(3) r r' by blast
qed



text \<open>C33: The sample application of the slave: with a configuration that passes the check and sockets that open, app_slave_main succeeds, and its thread goes through every sequence of ticks, with whatever datagrams and buttons, without failing an assertion. After every tick the LED shows bit RY16 that the master sent as long as the application knows of a running master, and is off otherwise; and it knows of one only while the slave is controlled by a master, so the LED is off whenever the connection is lost.\<close>

theorem sample_slave_led:
  assumes "cls_validate_config max_stations (Some cfg)" and "max_stations \<le> 16"
    and "os_udp_open os CL_IPADDR_ANY CL_SLMP_PORT \<noteq> - 1"
  shows "\<exists>a a' th'. app_slave_main max_stations True os True (Some memory) cfg now = Returns (Some a) \<and>
    app_thread ticks a = Returns (a', th') \<and>
    led_shown (app_out a') = (app_master_running a' \<and> cls_get_ry_bit APP_RY_NUMBER (Some (app_cls a')) = Returns True) \<and>
    (app_master_running a' \<longrightarrow> cls_state (app_cls a') = CLS_SLAVE_STATE_MASTER_CONTROL)"
proof -
  obtain a where a: "app_slave_main max_stations True os True (Some memory) cfg now = Returns (Some a)" "app_ok a" "\<not> app_master_running a"
    using slave_main_ok [OF assms] by metis
  obtain a' th' where a': "app_thread ticks a = Returns (a', th')" "app_ok a'" "led_agrees a'" using thread_ok [OF a(2,3)] by blast
  show ?thesis using a(1) a'(1) app_okD [OF a'(2,3)] by blast
qed

theorem sample_slave_led_witness:
  "\<exists>a a' th'. app_slave_main 1 True sample_os True (Some (cleared_slave 1 sample_cfg)) sample_cfg 0 = Returns (Some a) \<and>
    app_thread [\<lparr>tk_os = sample_os, tk_now = 1000, tk_slmp_received = None, tk_iefb_received = Some (sample_request 0 0, master_ip, 61450, slave_ip),
      tk_data_button = True, tk_alarm_button = False, tk_later = 1001\<rparr>] a = Returns (a', th') \<and>
    led_shown (app_out a') = (app_master_running a' \<and> cls_get_ry_bit APP_RY_NUMBER (Some (app_cls a')) = Returns True)"
proof -
  have v: "cls_validate_config 1 (Some sample_cfg)"
    by (simp add: cls_validate_config_def sample_cfg_def CL_IPADDR_ANY_def CL_CCIEFB_MIN_OCCUPIED_STATIONS_PER_GROUP_def)
  have "os_udp_open sample_os CL_IPADDR_ANY CL_SLMP_PORT \<noteq> - 1" by simp
  from sample_slave_led [OF v _ this, of "cleared_slave 1 sample_cfg" 0] show ?thesis by simp blast
qed

text \<open>C34: The access functions of the master's application are defined on exactly the configured signals: reading RX or RY bit i of a device returns a value when the device exists and has a station for the bit, and fails an assertion otherwise; the same holds for RWr and RWw registers.\<close>

theorem master_accessors_typed:
  "((\<exists>b. clm_iefb_get_rx_bit clm gi di i = Returns b) \<longleftrightarrow> gi < number_of_groups clm \<and>
      di < gs_num_slave_devices (device_setting_at clm gi) \<and> unat i < 64 * device_occ (device_setting_at clm gi) di) \<and>
   (clm_iefb_get_rx_bit clm gi di i = Assert_Failed \<longleftrightarrow> \<not> (\<exists>b. clm_iefb_get_rx_bit clm gi di i = Returns b)) \<and>
   ((\<exists>b. clm_iefb_get_ry_bit clm gi di i = Returns b) \<longleftrightarrow> (\<exists>b. clm_iefb_get_rx_bit clm gi di i = Returns b)) \<and>
   ((\<exists>v. clm_iefb_get_rwr_value clm gi di j = Returns v) \<longleftrightarrow> gi < number_of_groups clm \<and>
      di < gs_num_slave_devices (device_setting_at clm gi) \<and> unat j < 32 * device_occ (device_setting_at clm gi) di) \<and>
   (clm_iefb_get_rwr_value clm gi di j = Assert_Failed \<longleftrightarrow> \<not> (\<exists>v. clm_iefb_get_rwr_value clm gi di j = Returns v)) \<and>
   ((\<exists>v. clm_iefb_get_rww_value clm gi di j = Returns v) \<longleftrightarrow> (\<exists>v. clm_iefb_get_rwr_value clm gi di j = Returns v))"
proof -
  have "ry_valid (gi, di, i) clm \<longleftrightarrow> gi < number_of_groups clm \<and>
      di < gs_num_slave_devices (device_setting_at clm gi) \<and> unat i < 64 * device_occ (device_setting_at clm gi) di"
    "rww_valid (gi, di, j) clm \<longleftrightarrow> gi < number_of_groups clm \<and>
      di < gs_num_slave_devices (device_setting_at clm gi) \<and> unat j < 32 * device_occ (device_setting_at clm gi) di"
    by (simp_all add: ry_valid_def rww_valid_def div_less_iff_less_mult mult.commute)
  then show ?thesis
    using ry_access(1) [of gi di i clm, unfolded get_ry.simps] rww_access(1) [of gi di j clm, unfolded get_rww.simps] by (simp add: rx_access rwr_access)
qed


text \<open>C36: The delay with which a slave answers a node search is at most 1023 ms, whatever its MAC address, and two slaves have the same delay exactly when the last byte and the two lowest bits of the byte before it agree in their MAC addresses.\<close>

theorem search_delay_spread:
  "unat (cl_slmp_calculate_node_search_delay mac) \<le> 1023 * 1000 \<and>
   (cl_slmp_calculate_node_search_delay mac = cl_slmp_calculate_node_search_delay mac' \<longleftrightarrow>
      mac ! 5 = mac' ! 5 \<and> take_bit 2 (mac ! 4) = take_bit 2 (mac' ! 4))"
  using delay_bound delay_unique by blast

text \<open>C37: A slave without master that accepts a first request starts its receive timer with the announced timeout times the announced count (500 ms and 3 where the value is 0), in microseconds, but modulo 2^32, because the handler casts the 64 bit total to 32 bits. The periodic calls then keep the connection only for this shorter time: a master that announces 42950 ms times 100, which passes all checks of the headers, is dropped after 32704 microseconds although the announced time is more than an hour.\<close>

theorem connection_period_truncated:
  assumes reach: "cls_reachable s" and st: "cls_state s = CLS_SLAVE_STATE_MASTER_NONE"
    and rec: "received_request bs ip port my r"
    and ids: "cl_iefb_analyze_slave_ids my (rq_total_occupied r) bs 67 = Some (True, n, cfg_num_occupied_stations (cls_config s))"
    and off: "\<not> cl_iefb_extract_my_transmission_state (qdh_cyclic_transmission_state (qf_cyclic_data_header (rq_full_headers r))) n"
    and d: "unat d < 2 ^ 31"
  defines "h \<equiv> qf_cyclic_data_header (rq_full_headers r)"
  defines "us \<equiv> (if qdh_timeout_value h = 0 then 500 else unat (qdh_timeout_value h)) *
    (if qdh_parallel_off_timeout_count h = 0 then 3 else unat (qdh_parallel_off_timeout_count h)) * 1000"
  shows "\<exists>s'. cls_iefb_handle_input_frame now bs ip port my s = Returns (True, s') \<and>
    cls_state s' = CLS_SLAVE_STATE_MASTER_CONTROL \<and> tm_state (cls_receive_timer s') = CL_TIMER_RUNNING \<and>
    tm_timestamp (cls_receive_timer s') = now \<and> unat (tm_period (cls_receive_timer s')) = us mod 2 ^ 32 \<and>
    (\<exists>s''. cls_iefb_periodic (now + d) None s' = Returns s'' \<and> cls_state s'' =
      (if unat d < us mod 2 ^ 32 then CLS_SLAVE_STATE_MASTER_CONTROL else CLS_SLAVE_STATE_MASTER_NONE))"
proof -
  note inv = reachable_inv [OF reach]
  from connect_frame [OF inv st rec ids off, of now] obtain s' t where
    s': "cls_iefb_handle_input_frame now bs ip port my s = Returns (True, s')" "cls_state s' = CLS_SLAVE_STATE_MASTER_CONTROL"
      "cls_receive_timer s' = cl_timer_start (connection_period r) now t" by blast
  have inv': "cls_inv s'" using input_frame_ok [OF inv, of now bs ip port my] s'(1) by simp
  have p: "unat (connection_period r) = us mod 2 ^ 32"
    by (simp add: connection_period_def Let_def unsigned_ucast_eq take_bit_eq_mod total_timeout_exact h_def us_def)
  have "cl_timer_is_expired (cls_receive_timer s') (now + d) \<longleftrightarrow> us mod 2 ^ 32 \<le> unat d"
    using tm.expired_after [OF d] p unfolding s'(3) by (simp add: word_le_nat_alt)
  then have "\<exists>s''. cls_iefb_periodic (now + d) None s' = Returns s'' \<and> cls_state s'' =
      (if unat d < us mod 2 ^ 32 then CLS_SLAVE_STATE_MASTER_CONTROL else CLS_SLAVE_STATE_MASTER_NONE)"
    using periodic_timeout [OF inv' s'(2), of "now + d"] periodic_connected [OF inv' s'(2), of "now + d"]
    by (cases "unat d < us mod 2 ^ 32") auto
  then show ?thesis using s' p by (simp add: cl_timer_start_def)
qed

theorem connection_period_truncated_witness:
  "(42950 * 100 * 1000 :: nat) = 4295000000 \<and>
   (\<exists>s' s''. cls_iefb_handle_input_frame 1000 long_timeout_request master_ip 61450 slave_ip started_slave = Returns (True, s') \<and>
     cls_state s' = CLS_SLAVE_STATE_MASTER_CONTROL \<and> unat (tm_period (cls_receive_timer s')) = 32704 \<and>
     cls_iefb_periodic (1000 + 32704) None s' = Returns s'' \<and> cls_state s'' = CLS_SLAVE_STATE_MASTER_NONE)"
proof -
  let ?r = "parsed long_timeout_request master_ip"
  have a: "cls_state started_slave = CLS_SLAVE_STATE_MASTER_NONE"
    "received_request long_timeout_request master_ip 61450 slave_ip ?r"
    "cl_iefb_analyze_slave_ids slave_ip (rq_total_occupied ?r) long_timeout_request 67 =
      Some (True, 1, cfg_num_occupied_stations (cls_config started_slave))"
    "\<not> cl_iefb_extract_my_transmission_state (qdh_cyclic_transmission_state (qf_cyclic_data_header (rq_full_headers ?r))) 1"
    by code_simp+
  have h: "qdh_timeout_value (qf_cyclic_data_header (rq_full_headers ?r)) = 42950"
    "qdh_parallel_off_timeout_count (qf_cyclic_data_header (rq_full_headers ?r)) = 100" by code_simp+
  have d: "unat (32704 :: u32) < 2 ^ 31" by simp
  from connection_period_truncated [OF started_slave_reachable a d, of 1000] show ?thesis unfolding h by auto
qed

text \<open>C38: A timer started with period p at any 32 bit time is expired d microseconds later exactly when p <= d, for all d below 2^31, also when the clock wraps around in between. This includes d = p: the code compares with >=, while the comment in cl_timer.h calls a timer expired when the elapsed time is greater than the period. Restarting counts from the latest restart, and a stopped timer is never expired.\<close>

theorem timer_wraparound:
  assumes "unat d < 2 ^ 31"
  shows "(cl_timer_is_expired (cl_timer_start p n t) (n + d) \<longleftrightarrow> p \<le> d) \<and>
    cl_timer_is_expired (cl_timer_start d n t) (n + d) \<and>
    (\<forall>ns. ns \<noteq> [] \<longrightarrow> (cl_timer_is_expired (fold cl_timer_restart ns (cl_timer_start p n t)) (last ns + d) \<longleftrightarrow> p \<le> d)) \<and>
    \<not> cl_timer_is_expired (cl_timer_restart n (cl_timer_stop t)) (n + d)"
  using tm.expired_after [OF assms] tm.latest_restart_counts [of _ p n t]
  by (auto simp: stopped_not_expired)

theorem timer_wraparound_witness:
  "cl_timer_is_expired (cl_timer_start 500 0xFFFFFF00 sample_timer) (0xFFFFFF00 + 600) \<and>
   \<not> cl_timer_is_expired (cl_timer_start 700 0xFFFFFF00 sample_timer) (0xFFFFFF00 + 600) \<and>
   cl_timer_is_expired (cl_timer_start 600 0xFFFFFF00 sample_timer) (0xFFFFFF00 + 600)"
  using timer_wraparound [of 600 500 "0xFFFFFF00" sample_timer] timer_wraparound [of 600 700 "0xFFFFFF00" sample_timer]
  by simp

text \<open>C39: After a message was output, every further message of the same type, with any periodic calls in between, is suppressed as long as each comes within the period of the previous message; the number of outputs does not change.\<close>

theorem limiter_suppresses_bursts:
  assumes "cl_limiter_should_run_now m t\<^sub>0 l = (True, l')" and "lm_period l \<noteq> 0"
    and "is_burst m (lm_period l) t\<^sub>0 es"
  shows "set (fst (limiter_run es l')) \<subseteq> {False} \<and>
    lm_number_of_outputs (snd (limiter_run es l')) = lm_number_of_outputs l'"
  using limiter_first_message [OF assms(1,2)] limiter_burst_silent [of m l' t\<^sub>0 es] assms(3) by simp

theorem limiter_suppresses_bursts_witness:
  "set (fst (limiter_run [Message 1 900, Tick 1500, Message 1 1800]
      (snd (cl_limiter_should_run_now 1 100 (cl_limiter_init 1000 sample_limiter))))) \<subseteq> {False}"
proof -
  let ?l = "cl_limiter_init 1000 sample_limiter"
  have "cl_limiter_should_run_now 1 100 ?l = (True, snd (cl_limiter_should_run_now 1 100 ?l))" "lm_period ?l \<noteq> 0"
    "is_burst 1 (lm_period ?l) 100 [Message 1 900, Tick 1500, Message 1 1800]" by code_simp+
  from limiter_suppresses_bursts [OF this] show ?thesis by blast
qed

text \<open>C40: The bit trick of the netmask check accepts exactly the masks that are a run of one bits followed by zero bits, for 0 to 32 host bits.\<close>

theorem netmask_check:
  "cl_utils_is_netmask_valid m \<longleftrightarrow> (\<exists>h\<in>{0..32}. m = NOT (mask h))"
  unfolding netmask_valid_iff prefix_mask_def by auto

end
